(* ===== verification/Prelude.thy ===== *)
theory Prelude
  imports Main "HOL-Library.Word" "HOL-Library.Code_Target_Numeral"
begin

text \<open>
  Shared vocabulary of the development: the machine integers of the C code, the
  conventions for sizes, indices and characters, and the list and word lemmas that
  several components use.

  A \<open>size_t\<close> is a \<open>nat\<close>: every size in the code is the length of, or an offset into, a
  buffer that is in memory, and the parser's spans are proved to lie in their text.
  A \<open>uint64_t\<close> that counts budgets, costs, clocks or sequences is a \<open>u64\<close>, a 64-bit
  word, so that wrap-around and the code's overflow guards are those of the machine.
  A \<open>char\<close> buffer with its length is a \<open>string\<close> (a list of 8-bit characters).
\<close>

type_synonym u8 = "8 word"
type_synonym u32 = "32 word"
type_synonym u64 = "64 word"
type_synonym i64 = int

abbreviation UINT64_MAX :: u64 where "UINT64_MAX \<equiv> - 1"

definition SIZE_MAX :: nat where "SIZE_MAX = 18446744073709551615"

abbreviation ch_nl :: char where "ch_nl \<equiv> CHR 0x0A"
abbreviation ch_cr :: char where "ch_cr \<equiv> CHR 0x0D"
abbreviation ch_tab :: char where "ch_tab \<equiv> CHR 0x09"
abbreviation ch_nul :: char where "ch_nul \<equiv> CHR 0x00"
abbreviation ch_quote :: char where "ch_quote \<equiv> CHR 0x22"
abbreviation ch_bslash :: char where "ch_bslash \<equiv> CHR 0x5C"

abbreviation code_of :: "char \<Rightarrow> nat" where "code_of c \<equiv> of_char c"

text \<open>The bytes of a text, as they are handed to the journal.\<close>

definition bytes_of :: "string \<Rightarrow> u8 list" where
  "bytes_of s = map (\<lambda>c. of_nat (code_of c)) s"

named_theorems bounds \<open>upper bounds of buffers, counters and spans\<close>
named_theorems frame \<open>fields an operation leaves alone\<close>

text \<open>A buffer read as a C string: up to its first terminator.\<close>

definition c_string :: "string \<Rightarrow> string" where
  "c_string buf = takeWhile (\<lambda>c. c \<noteq> ch_nul) buf"

lemma c_string_length [bounds]: "length (c_string s) \<le> length s"
  by (simp add: c_string_def length_takeWhile_le)

subsection \<open>Saturating and checked 64-bit arithmetic\<close>

text \<open>The word-level guard \<open>a > UINT64_MAX - b\<close> is exactly overflow of the sum.\<close>

lemma unat_UINT64_MAX [simp]: "unat UINT64_MAX = 2 ^ 64 - 1"
  by (simp add: unsigned_minus_1_eq_mask mask_eq_exp_minus_1)

lemma u64_guard_iff:
  fixes a b :: u64
  shows "a > UINT64_MAX - b \<longleftrightarrow> unat a + unat b \<ge> 2 ^ 64"
proof -
  have "unat (UINT64_MAX - b) = 2 ^ 64 - 1 - unat b"
    by (simp add: unat_sub word_order.extremum)
  moreover have "unat b < 2 ^ 64"
    using unsigned_less [of b] by simp
  ultimately show ?thesis
    by (auto simp: word_less_nat_alt)
qed

lemma u64_plus_exact:
  fixes a b :: u64
  assumes "unat a + unat b < 2 ^ 64"
  shows "unat (a + b) = unat a + unat b"
  using assms by (simp add: unat_word_ariths)

lemma u64_bound [bounds]: "unat (v :: u64) < 18446744073709551616"
proof -
  have "unat v < 2 ^ LENGTH(64)" by (rule unsigned_less)
  then show ?thesis by simp
qed

subsection \<open>Lists\<close>

lemma nth_eq_dropD: "drop i xs = y # ys \<Longrightarrow> i < length xs \<and> xs ! i = y"
  by (metis drop_eq_Nil2 leI list.distinct(1) nth_via_drop)

lemma take_drop_append: "i + j \<le> length xs \<Longrightarrow> take j (drop i (xs @ ys)) = take j (drop i xs)"
  by simp

lemma upd_nth: "(xs[j := v]) ! i = (if i = j \<and> j < length xs then v else xs ! i)"
  by (cases "i = j") (simp_all add: list_update_beyond nth_list_update)

end
