(* ===== verification/Status.thy ===== *)
theory Status
  imports Prelude
begin

text \<open>
  The status codes of \<open>include/geistshell/status.h\<close> and their names
  (\<open>src/core/status.c\<close>). Every fallible operation of the model returns one of these,
  so each early return of the code is a value of the model.
\<close>

datatype spg_status =
    SPG_OK
  | SPG_E_OOM
  | SPG_E_INVALID_ARG
  | SPG_E_INVALID_STATE
  | SPG_E_NOT_FOUND
  | SPG_E_OVERFLOW
  | SPG_E_LIMIT
  | SPG_E_IO
  | SPG_E_FORMAT
  | SPG_E_SCHEMA
  | SPG_E_POLICY_DENIED
  | SPG_E_BUDGET_EXCEEDED
  | SPG_E_ATTESTATION
  | SPG_E_JOURNAL_CORRUPT
  | SPG_E_REPLAY_MISMATCH
  | SPG_E_MODEL
  | SPG_E_UNSUPPORTED
  | SPG_E_INTERNAL

text \<open>The numeric value of the C enumeration, as it is written into journal headers.\<close>

fun status_code :: "spg_status \<Rightarrow> nat" where
  "status_code SPG_OK = 0"
| "status_code SPG_E_OOM = 1"
| "status_code SPG_E_INVALID_ARG = 2"
| "status_code SPG_E_INVALID_STATE = 3"
| "status_code SPG_E_NOT_FOUND = 4"
| "status_code SPG_E_OVERFLOW = 5"
| "status_code SPG_E_LIMIT = 6"
| "status_code SPG_E_IO = 7"
| "status_code SPG_E_FORMAT = 8"
| "status_code SPG_E_SCHEMA = 9"
| "status_code SPG_E_POLICY_DENIED = 10"
| "status_code SPG_E_BUDGET_EXCEEDED = 11"
| "status_code SPG_E_ATTESTATION = 12"
| "status_code SPG_E_JOURNAL_CORRUPT = 13"
| "status_code SPG_E_REPLAY_MISMATCH = 14"
| "status_code SPG_E_MODEL = 15"
| "status_code SPG_E_UNSUPPORTED = 16"
| "status_code SPG_E_INTERNAL = 17"

fun spg_status_to_string :: "spg_status \<Rightarrow> string" where
  "spg_status_to_string SPG_OK = ''SPG_OK''"
| "spg_status_to_string SPG_E_OOM = ''SPG_E_OOM''"
| "spg_status_to_string SPG_E_INVALID_ARG = ''SPG_E_INVALID_ARG''"
| "spg_status_to_string SPG_E_INVALID_STATE = ''SPG_E_INVALID_STATE''"
| "spg_status_to_string SPG_E_NOT_FOUND = ''SPG_E_NOT_FOUND''"
| "spg_status_to_string SPG_E_OVERFLOW = ''SPG_E_OVERFLOW''"
| "spg_status_to_string SPG_E_LIMIT = ''SPG_E_LIMIT''"
| "spg_status_to_string SPG_E_IO = ''SPG_E_IO''"
| "spg_status_to_string SPG_E_FORMAT = ''SPG_E_FORMAT''"
| "spg_status_to_string SPG_E_SCHEMA = ''SPG_E_SCHEMA''"
| "spg_status_to_string SPG_E_POLICY_DENIED = ''SPG_E_POLICY_DENIED''"
| "spg_status_to_string SPG_E_BUDGET_EXCEEDED = ''SPG_E_BUDGET_EXCEEDED''"
| "spg_status_to_string SPG_E_ATTESTATION = ''SPG_E_ATTESTATION''"
| "spg_status_to_string SPG_E_JOURNAL_CORRUPT = ''SPG_E_JOURNAL_CORRUPT''"
| "spg_status_to_string SPG_E_REPLAY_MISMATCH = ''SPG_E_REPLAY_MISMATCH''"
| "spg_status_to_string SPG_E_MODEL = ''SPG_E_MODEL''"
| "spg_status_to_string SPG_E_UNSUPPORTED = ''SPG_E_UNSUPPORTED''"
| "spg_status_to_string SPG_E_INTERNAL = ''SPG_E_INTERNAL''"

lemma status_code_inj: "status_code a = status_code b \<longleftrightarrow> a = b"
  by (cases a; cases b) simp_all

lemma status_code_bound [bounds]: "status_code s < 18"
  by (cases s) simp_all

text \<open>The names are distinct: an operator who reads a name knows the code.\<close>

lemma spg_status_to_string_inj: "inj spg_status_to_string"
proof (rule injI)
  fix a b assume "spg_status_to_string a = spg_status_to_string b"
  then show "a = b" by (cases a; cases b) simp_all
qed

end
