(* ===== verification/Sexpr.thy ===== *)
theory Sexpr
  imports Status
begin

text \<open>
  The s-expression reader of \<open>src/dsl/sexpr.c\<close>: tokenizer, parser into a flat node array,
  and the accessors every configuration loader uses. A text is a \<open>string\<close>, its
  \<open>input_n\<close> the length. Token and node arrays are lists whose length is the code's count;
  their capacities are arguments. A node index is a \<open>nat\<close> with the code's sentinel
  \<open>SPG_SEXPR_INVALID_INDEX\<close>. The \<open>nullptr\<close> guards have no counterpart: arguments are
  values.
\<close>

section \<open>Data\<close>

definition INVALID_INDEX :: nat where
  "INVALID_INDEX = 4294967295"

datatype token_kind = TOKEN_LPAREN | TOKEN_RPAREN | TOKEN_SYMBOL | TOKEN_STRING

record text_span =
  sp_offset :: nat
  sp_length :: nat

record sexpr_token =
  tk_kind :: token_kind
  tk_span :: text_span
  tk_line :: nat
  tk_column :: nat

datatype node_kind = NODE_LIST | NODE_SYMBOL | NODE_STRING

record sexpr_node =
  nd_kind :: node_kind
  nd_span :: text_span
  nd_parent :: nat
  nd_first_child :: nat
  nd_next_sibling :: nat
  nd_last_child :: nat

record sexpr_error =
  er_status :: spg_status
  er_offset :: nat
  er_line :: nat
  er_column :: nat

definition set_error :: "spg_status \<Rightarrow> nat \<Rightarrow> nat \<Rightarrow> nat \<Rightarrow> sexpr_error" where
  "set_error st off line col =
     \<lparr>er_status = st, er_offset = off, er_line = line, er_column = col\<rparr>"

definition mk_span :: "nat \<Rightarrow> nat \<Rightarrow> text_span" where
  "mk_span off len = \<lparr>sp_offset = off, sp_length = len\<rparr>"

lemma mk_span_sel [simp]: "sp_offset (mk_span o1 l1) = o1" "sp_length (mk_span o1 l1) = l1"
  by (simp_all add: mk_span_def)

section \<open>Accessors\<close>

definition spg_sexpr_span_valid :: "nat \<Rightarrow> text_span \<Rightarrow> bool" where
  "spg_sexpr_span_valid input_n sp \<longleftrightarrow>
     sp_offset sp \<le> input_n \<and> sp_length sp \<le> input_n - sp_offset sp"

text \<open>The bytes a span covers (what \<open>memcmp\<close> and \<open>memcpy\<close> on a span read).\<close>

definition span_text :: "string \<Rightarrow> text_span \<Rightarrow> string" where
  "span_text input sp = take (sp_length sp) (drop (sp_offset sp) input)"

definition spg_sexpr_span_eq_cstr :: "string \<Rightarrow> text_span \<Rightarrow> string \<Rightarrow> bool" where
  "spg_sexpr_span_eq_cstr input sp txt \<longleftrightarrow>
     spg_sexpr_span_valid (length input) sp \<and>
     sp_length sp = length txt \<and> span_text input sp = txt"

definition spg_sexpr_first_child :: "sexpr_node list \<Rightarrow> nat \<Rightarrow> nat" where
  "spg_sexpr_first_child nodes node = nd_first_child (nodes ! node)"

definition spg_sexpr_second_child :: "sexpr_node list \<Rightarrow> nat \<Rightarrow> nat" where
  "spg_sexpr_second_child nodes node =
     (let first = nd_first_child (nodes ! node)
      in if first = INVALID_INDEX then INVALID_INDEX else nd_next_sibling (nodes ! first))"

definition spg_sexpr_string_payload_span :: "sexpr_node \<Rightarrow> text_span option" where
  "spg_sexpr_string_payload_span node =
     (if nd_kind node \<noteq> NODE_STRING \<or> sp_length (nd_span node) < 2 then None
      else Some (mk_span (sp_offset (nd_span node) + 1) (sp_length (nd_span node) - 2)))"

fun parse_digits :: "u64 \<Rightarrow> string \<Rightarrow> spg_status + u64" where
  "parse_digits value [] = Inr value"
| "parse_digits value (c # cs) =
     (if code_of c < code_of (CHR ''0'') \<or> code_of c > code_of (CHR ''9'') then Inl SPG_E_FORMAT
      else let digit = of_nat (code_of c - code_of (CHR ''0'')) :: u64
           in if value > (UINT64_MAX - digit) div 10 then Inl SPG_E_OVERFLOW
              else parse_digits (value * 10 + digit) cs)"

definition spg_sexpr_parse_uint64_span :: "string \<Rightarrow> text_span \<Rightarrow> spg_status + u64" where
  "spg_sexpr_parse_uint64_span input sp =
     (if sp_length sp = 0 \<or> \<not> spg_sexpr_span_valid (length input) sp then Inl SPG_E_INVALID_ARG
      else parse_digits 0 (span_text input sp))"

section \<open>Tokenizer\<close>

definition is_space :: "char \<Rightarrow> bool" where
  "is_space c \<longleftrightarrow> c = CHR '' '' \<or> c = ch_tab \<or> c = ch_nl \<or> c = ch_cr"

definition is_delim :: "char \<Rightarrow> bool" where
  "is_delim c \<longleftrightarrow> is_space c \<or> c = CHR ''('' \<or> c = CHR '')'' \<or> c = CHR '';''"

definition valid_symbol_char :: "char \<Rightarrow> bool" where
  "valid_symbol_char c \<longleftrightarrow>
     code_of c \<ge> 33 \<and> code_of c \<le> 126 \<and> c \<noteq> ch_quote \<and> c \<noteq> CHR ''('' \<and> c \<noteq> CHR '')'' \<and>
     c \<noteq> CHR '';'' \<and> c \<noteq> ch_bslash"

definition push_token ::
  "token_kind \<Rightarrow> nat \<Rightarrow> nat \<Rightarrow> nat \<Rightarrow> nat \<Rightarrow> nat \<Rightarrow> sexpr_token list \<Rightarrow> sexpr_error + sexpr_token list"
where
  "push_token kind off len line col cap toks =
     (if length toks \<ge> cap then Inl (set_error SPG_E_LIMIT off line col)
      else Inr (toks @ [\<lparr>tk_kind = kind, tk_span = mk_span off len,
                          tk_line = line, tk_column = col\<rparr>]))"

text \<open>The inner loops: a comment up to its line end, a quoted string, a symbol.\<close>

function skip_comment :: "string \<Rightarrow> nat \<Rightarrow> nat \<Rightarrow> nat \<times> nat" where
  "skip_comment input i col =
     (if i < length input \<and> input ! i \<noteq> ch_nl then skip_comment input (Suc i) (Suc col)
      else (i, col))"
  by pat_completeness auto
termination by (relation "measure (\<lambda>(input, i, _). length input - i)") auto

function scan_string ::
  "string \<Rightarrow> nat \<Rightarrow> nat \<Rightarrow> (nat \<times> nat) + (bool \<times> nat \<times> nat)" where
  "scan_string input i col =
     (if i < length input then
        let sc = input ! i in
        if sc = ch_nul \<or> sc = ch_nl \<or> sc = ch_cr then Inl (i, col)
        else if sc = ch_bslash then
          (if Suc i \<ge> length input then Inl (i, col)
           else let ec = input ! Suc i in
             if \<not> (ec = ch_quote \<or> ec = ch_bslash \<or> ec = CHR ''n'' \<or> ec = CHR ''t'' \<or>
                   ec = CHR ''r'')
             then Inl (i, col)
             else scan_string input (Suc (Suc i)) (Suc (Suc col)))
        else if sc = ch_quote then Inr (True, Suc i, Suc col)
        else scan_string input (Suc i) (Suc col)
      else Inr (False, i, col))"
  by pat_completeness auto
termination by (relation "measure (\<lambda>(input, i, _). length input - i)") auto

function scan_symbol :: "string \<Rightarrow> nat \<Rightarrow> nat \<Rightarrow> (nat \<times> nat) + (nat \<times> nat)" where
  "scan_symbol input i col =
     (if i < length input \<and> \<not> is_delim (input ! i) then
        if \<not> valid_symbol_char (input ! i) then Inl (i, col)
        else scan_symbol input (Suc i) (Suc col)
      else Inr (i, col))"
  by pat_completeness auto
termination by (relation "measure (\<lambda>(input, i, _). length input - i)") auto

declare skip_comment.simps [simp del] scan_string.simps [simp del] scan_symbol.simps [simp del]

lemma skip_comment_ge: "skip_comment input i col = (i', col') \<Longrightarrow> i \<le> i'"
  by (induction input i col rule: skip_comment.induct)
     (auto simp: skip_comment.simps [of _ i for i] split: if_splits)

lemma scan_string_ge: "scan_string input i col = Inr (b, i', col') \<Longrightarrow> i \<le> i'"
proof (induction input i col rule: scan_string.induct)
  case (1 input i col)
  from "1.prems" "1.IH" show ?case
    by (fastforce simp: scan_string.simps [of input i col] Let_def split: if_splits)
qed

lemma scan_symbol_ge: "scan_symbol input i col = Inr (i', col') \<Longrightarrow> i \<le> i'"
proof (induction input i col rule: scan_symbol.induct)
  case (1 input i col)
  from "1.prems" "1.IH" show ?case
    by (fastforce simp: scan_symbol.simps [of input i col] split: if_splits)
qed

lemma skip_comment_gt:
  assumes "skip_comment input i col = (i', col')" "i < length input" "input ! i \<noteq> ch_nl"
  shows "i < i'"
  using assms skip_comment_ge [of input "Suc i" "Suc col"]
  by (simp add: skip_comment.simps [of input i col])

lemma delim_not_symbol: "is_delim c \<Longrightarrow> \<not> valid_symbol_char c"
  unfolding is_delim_def is_space_def
  by (elim disjE) (simp_all add: valid_symbol_char_def)

lemma valid_symbol_not_delim: "valid_symbol_char c \<Longrightarrow> \<not> is_delim c"
  by (blast dest: delim_not_symbol)

lemma scan_symbol_gt:
  assumes "scan_symbol input i col = Inr (i', col')" "i < length input" "valid_symbol_char (input ! i)"
  shows "i < i'"
  using assms scan_symbol_ge [of input "Suc i" "Suc col"] valid_symbol_not_delim [of "input ! i"]
  by (auto simp: scan_symbol.simps [of input i col])

type_synonym tokenize_result = "spg_status \<times> sexpr_token list \<times> sexpr_error"

definition tokenize_fail :: "sexpr_token list \<Rightarrow> sexpr_error \<Rightarrow> tokenize_result" where
  "tokenize_fail toks e = (er_status e, toks, e)"

text \<open>One iteration of the tokenizer's loop: it ends the call or advances the cursor.\<close>

type_synonym tokenize_step_result = "tokenize_result + (nat \<times> nat \<times> nat \<times> sexpr_token list)"

abbreviation Tok_done :: "tokenize_result \<Rightarrow> tokenize_step_result" where
  "Tok_done r \<equiv> Inl r"

abbreviation Tok_next :: "nat \<Rightarrow> nat \<Rightarrow> nat \<Rightarrow> sexpr_token list \<Rightarrow> tokenize_step_result" where
  "Tok_next i line col toks \<equiv> Inr (i, line, col, toks)"

definition emit_token ::
  "token_kind \<Rightarrow> nat \<Rightarrow> nat \<Rightarrow> nat \<Rightarrow> nat \<Rightarrow> nat \<Rightarrow> nat \<Rightarrow> sexpr_token list \<Rightarrow> tokenize_step_result"
where
  "emit_token kind start i' line col col' cap toks =
     (case push_token kind start (i' - start) line col cap toks of
        Inl e \<Rightarrow> Tok_done (tokenize_fail toks e)
      | Inr toks' \<Rightarrow> Tok_next i' line col' toks')"

definition tokenize_step ::
  "string \<Rightarrow> nat \<Rightarrow> nat \<Rightarrow> nat \<Rightarrow> nat \<Rightarrow> sexpr_token list \<Rightarrow> tokenize_step_result" where
  "tokenize_step input cap i line col toks =
     (let c = input ! i in
      if c = ch_nul then Tok_done (tokenize_fail toks (set_error SPG_E_FORMAT i line col))
      else if c = ch_nl then Tok_next (Suc i) (Suc line) 1 toks
      else if c = CHR '' '' \<or> c = ch_tab \<or> c = ch_cr then Tok_next (Suc i) line (Suc col) toks
      else if c = CHR '';'' then
        (case skip_comment input i col of (i', col') \<Rightarrow> Tok_next i' line col' toks)
      else if c = CHR ''('' \<or> c = CHR '')'' then
        emit_token (if c = CHR ''('' then TOKEN_LPAREN else TOKEN_RPAREN)
          i (Suc i) line col (Suc col) cap toks
      else if c = ch_quote then
        (case scan_string input (Suc i) (Suc col) of
           Inl (off, ecol) \<Rightarrow> Tok_done (tokenize_fail toks (set_error SPG_E_FORMAT off line ecol))
         | Inr (closed, i', col') \<Rightarrow>
             if \<not> closed then Tok_done (tokenize_fail toks (set_error SPG_E_FORMAT i line col))
             else emit_token TOKEN_STRING i i' line col col' cap toks)
      else if \<not> valid_symbol_char c then
        Tok_done (tokenize_fail toks (set_error SPG_E_FORMAT i line col))
      else
        (case scan_symbol input i col of
           Inl (off, ecol) \<Rightarrow> Tok_done (tokenize_fail toks (set_error SPG_E_FORMAT off line ecol))
         | Inr (i', col') \<Rightarrow> emit_token TOKEN_SYMBOL i i' line col col' cap toks))"

lemma emit_token_next:
  "emit_token kind start i' line col col' cap toks = Tok_next j line' k toks' \<Longrightarrow>
   j = i' \<and> length toks < cap \<and>
   toks' = toks @ [\<lparr>tk_kind = kind, tk_span = mk_span start (i' - start),
                     tk_line = line, tk_column = col\<rparr>]"
  by (auto simp: emit_token_def push_token_def split: sum.splits if_splits)

lemma tokenize_step_gt:
  assumes "tokenize_step input cap i line col toks = Tok_next i' line' col' toks'"
    and "i < length input"
  shows "i < i'"
  using assms
  by (auto simp: tokenize_step_def Let_def split: if_splits prod.splits sum.splits
           dest!: emit_token_next
           dest: skip_comment_gt scan_string_ge scan_symbol_gt)

function tokenize_loop ::
  "string \<Rightarrow> nat \<Rightarrow> nat \<Rightarrow> nat \<Rightarrow> nat \<Rightarrow> sexpr_token list \<Rightarrow> tokenize_result" where
  "tokenize_loop input cap i line col toks =
     (if i < length input then
        (case tokenize_step input cap i line col toks of
           Inl r \<Rightarrow> r
         | Inr (i', line', col', toks') \<Rightarrow> tokenize_loop input cap i' line' col' toks')
      else (SPG_OK, toks, set_error SPG_OK 0 1 1))"
  by pat_completeness auto
termination
  by (relation "measure (\<lambda>(input, cap, i, _). length input - i)")
     (auto dest: tokenize_step_gt)

declare tokenize_loop.simps [simp del]

definition spg_sexpr_tokenize :: "string \<Rightarrow> nat \<Rightarrow> tokenize_result" where
  "spg_sexpr_tokenize input token_capacity =
     (if token_capacity = 0 then tokenize_fail [] (set_error SPG_E_INVALID_ARG 0 1 1)
      else tokenize_loop input token_capacity 0 1 1 [])"

section \<open>Parser\<close>

definition append_child :: "nat \<Rightarrow> nat \<Rightarrow> sexpr_node list \<Rightarrow> sexpr_node list" where
  "append_child parent child nodes =
     (let nodes1 =
        (if nd_first_child (nodes ! parent) = INVALID_INDEX
         then nodes[parent := (nodes ! parent)\<lparr>nd_first_child := child\<rparr>]
         else let last = nd_last_child (nodes ! parent)
              in nodes[last := (nodes ! last)\<lparr>nd_next_sibling := child\<rparr>])
      in nodes1[parent := (nodes1 ! parent)\<lparr>nd_last_child := child\<rparr>])"

definition push_node ::
  "node_kind \<Rightarrow> text_span \<Rightarrow> nat \<Rightarrow> nat \<Rightarrow> sexpr_node list \<Rightarrow> (nat \<times> sexpr_node list) option"
where
  "push_node kind sp parent cap nodes =
     (if length nodes \<ge> cap \<or> length nodes > 4294967295 then None
      else let index = length nodes;
               nodes1 = nodes @ [\<lparr>nd_kind = kind, nd_span = sp, nd_parent = parent,
                                   nd_first_child = INVALID_INDEX,
                                   nd_next_sibling = INVALID_INDEX,
                                   nd_last_child = INVALID_INDEX\<rparr>]
           in Some (index,
                    if parent \<noteq> INVALID_INDEX then append_child parent index nodes1 else nodes1))"

type_synonym parse_result = "spg_status \<times> sexpr_node list \<times> sexpr_error"

definition parse_fail :: "sexpr_error \<Rightarrow> parse_result" where
  "parse_fail e = (er_status e, [], e)"

fun parse_loop ::
  "nat \<Rightarrow> sexpr_token list \<Rightarrow> nat \<Rightarrow> sexpr_node list \<Rightarrow> parse_result" where
  "parse_loop cap [] current_parent nodes =
     (if current_parent \<noteq> INVALID_INDEX
      then parse_fail (set_error SPG_E_FORMAT (sp_offset (nd_span (nodes ! current_parent))) 1 1)
      else (SPG_OK, nodes, set_error SPG_OK 0 1 1))"
| "parse_loop cap (t # ts) current_parent nodes =
     (if tk_kind t = TOKEN_LPAREN then
        (case push_node NODE_LIST (tk_span t) current_parent cap nodes of
           None \<Rightarrow> parse_fail (set_error SPG_E_LIMIT (sp_offset (tk_span t)) (tk_line t) (tk_column t))
         | Some (index, nodes') \<Rightarrow> parse_loop cap ts index nodes')
      else if tk_kind t = TOKEN_RPAREN then
        (if current_parent = INVALID_INDEX
         then parse_fail (set_error SPG_E_FORMAT (sp_offset (tk_span t)) (tk_line t) (tk_column t))
         else let p = nodes ! current_parent;
                  p' = p\<lparr>nd_span := mk_span (sp_offset (nd_span p))
                            ((sp_offset (tk_span t) + sp_length (tk_span t)) - sp_offset (nd_span p))\<rparr>
              in parse_loop cap ts (nd_parent p') (nodes[current_parent := p']))
      else
        (case push_node (if tk_kind t = TOKEN_SYMBOL then NODE_SYMBOL else NODE_STRING)
                (tk_span t) current_parent cap nodes of
           None \<Rightarrow> parse_fail (set_error SPG_E_LIMIT (sp_offset (tk_span t)) (tk_line t) (tk_column t))
         | Some (index, nodes') \<Rightarrow> parse_loop cap ts current_parent nodes'))"

definition spg_sexpr_parse :: "sexpr_token list \<Rightarrow> nat \<Rightarrow> parse_result" where
  "spg_sexpr_parse tokens node_capacity =
     (if node_capacity = 0 then parse_fail (set_error SPG_E_INVALID_ARG 0 1 1)
      else parse_loop node_capacity tokens INVALID_INDEX [])"

definition spg_sexpr_parse_text ::
  "string \<Rightarrow> nat \<Rightarrow> nat \<Rightarrow> spg_status \<times> sexpr_token list \<times> sexpr_node list \<times> sexpr_error" where
  "spg_sexpr_parse_text input token_capacity node_capacity =
     (case spg_sexpr_tokenize input token_capacity of
        (st, toks, e) \<Rightarrow>
          if st \<noteq> SPG_OK then (st, toks, [], e)
          else (case spg_sexpr_parse toks node_capacity of (st', nodes, e') \<Rightarrow> (st', toks, nodes, e')))"

end
