(* ===== verification/SexprTree.thy ===== *)
theory SexprTree
  imports Sexpr
begin

text \<open>
  What the parser of \<open>Sexpr\<close> builds. The node array is a forest: every parent precedes its
  children, and the linked child list of a node (first child, then next siblings) is
  exactly the list of the nodes that name it as parent, in source order. The loaders'
  sibling loops are \<open>sib_walk\<close>, whose fuel, the number of nodes, is proved enough.
\<close>

section \<open>The shape of a node array\<close>

definition kids :: "sexpr_node list \<Rightarrow> nat \<Rightarrow> nat list" where
  "kids nodes p = filter (\<lambda>i. nd_parent (nodes ! i) = p) [0..<length nodes]"

fun linked :: "sexpr_node list \<Rightarrow> nat list \<Rightarrow> bool" where
  "linked nodes [] = True"
| "linked nodes [c] = (nd_next_sibling (nodes ! c) = INVALID_INDEX)"
| "linked nodes (c # d # cs) = (nd_next_sibling (nodes ! c) = d \<and> linked nodes (d # cs))"

definition head_or_invalid :: "nat list \<Rightarrow> nat" where
  "head_or_invalid cs = (case cs of [] \<Rightarrow> INVALID_INDEX | c # _ \<Rightarrow> c)"

definition last_or_invalid :: "nat list \<Rightarrow> nat" where
  "last_or_invalid cs = (if cs = [] then INVALID_INDEX else last cs)"

definition family_ok :: "sexpr_node list \<Rightarrow> nat \<Rightarrow> bool" where
  "family_ok nodes p \<longleftrightarrow>
     linked nodes (kids nodes p) \<and>
     nd_first_child (nodes ! p) = head_or_invalid (kids nodes p) \<and>
     nd_last_child (nodes ! p) = last_or_invalid (kids nodes p)"

definition parents_ok :: "sexpr_node list \<Rightarrow> bool" where
  "parents_ok nodes \<longleftrightarrow>
     (\<forall>i < length nodes. nd_parent (nodes ! i) = INVALID_INDEX \<or>
        (nd_parent (nodes ! i) < i \<and> nd_kind (nodes ! nd_parent (nodes ! i)) = NODE_LIST))"

definition tops_ok :: "sexpr_node list \<Rightarrow> bool" where
  "tops_ok nodes \<longleftrightarrow>
     (\<forall>i < length nodes. nd_parent (nodes ! i) = INVALID_INDEX \<longrightarrow>
        nd_next_sibling (nodes ! i) = INVALID_INDEX)"

definition forest_ok :: "sexpr_node list \<Rightarrow> bool" where
  "forest_ok nodes \<longleftrightarrow>
     length nodes \<le> INVALID_INDEX \<and> parents_ok nodes \<and> tops_ok nodes \<and>
     (\<forall>p < length nodes. family_ok nodes p)"

section \<open>Lemmas on kids and links\<close>

lemma kids_less: "i \<in> set (kids nodes p) \<Longrightarrow> i < length nodes"
  by (simp add: kids_def)

lemma kids_parent: "i \<in> set (kids nodes p) \<Longrightarrow> nd_parent (nodes ! i) = p"
  by (simp add: kids_def)

lemma kids_sorted: "sorted_wrt (<) (kids nodes p)"
  by (simp add: kids_def sorted_wrt_filter)

lemma kids_distinct: "distinct (kids nodes p)"
  by (simp add: kids_def)

lemma kids_cong:
  assumes "length ns = length nodes" "\<And>i. i < length nodes \<Longrightarrow> nd_parent (ns ! i) = nd_parent (nodes ! i)"
  shows "kids ns p = kids nodes p"
  unfolding kids_def using assms by (auto intro!: filter_cong)

lemma kids_snoc:
  "kids (nodes @ [n]) p = kids nodes p @ (if nd_parent n = p then [length nodes] else [])"
  by (auto simp: kids_def nth_append intro!: filter_cong)

lemma linked_cong:
  "(\<And>c. c \<in> set cs \<Longrightarrow> nd_next_sibling (ns ! c) = nd_next_sibling (nodes ! c)) \<Longrightarrow>
   linked ns cs = linked nodes cs"
  by (induction nodes cs rule: linked.induct) auto

lemma linked_snoc:
  assumes "linked nodes cs" "cs \<noteq> []" "distinct cs"
    and "\<And>c. c \<in> set cs \<Longrightarrow> c \<noteq> last cs \<Longrightarrow> nd_next_sibling (ns ! c) = nd_next_sibling (nodes ! c)"
    and "nd_next_sibling (ns ! last cs) = n" "nd_next_sibling (ns ! n) = INVALID_INDEX"
  shows "linked ns (cs @ [n])"
  using assms
proof (induction nodes cs rule: linked.induct)
  case (3 nodes c d cs)
  then have "c \<noteq> last (d # cs)" by (metis distinct.simps(2) last_in_set list.distinct(1))
  with "3.prems" have "nd_next_sibling (ns ! c) = d" by simp
  moreover have "linked ns ((d # cs) @ [n])"
    using "3.prems" by (intro "3.IH") auto
  ultimately show ?case by simp
qed simp_all

lemma linked_next:
  assumes "linked nodes (xs @ c # ys)"
  shows "nd_next_sibling (nodes ! c) = head_or_invalid ys"
  using assms
proof (induction xs)
  case Nil
  then show ?case by (cases ys) (auto simp: head_or_invalid_def)
next
  case (Cons x xs)
  then show ?case by (cases xs) auto
qed

section \<open>Pushing a node keeps the forest\<close>

lemma parents_ok_less:
  "parents_ok nodes \<Longrightarrow> i < length nodes \<Longrightarrow>
   nd_parent (nodes ! i) = INVALID_INDEX \<or> nd_parent (nodes ! i) < i"
  by (auto simp: parents_ok_def)

lemma kids_none:
  assumes "parents_ok nodes" "length nodes \<le> p" "p \<noteq> INVALID_INDEX"
  shows "kids nodes p = []"
  using assms parents_ok_less [OF assms(1)] by (fastforce simp: kids_def filter_empty_conv)

abbreviation fresh_node :: "node_kind \<Rightarrow> text_span \<Rightarrow> nat \<Rightarrow> sexpr_node" where
  "fresh_node kind sp parent \<equiv>
     \<lparr>nd_kind = kind, nd_span = sp, nd_parent = parent, nd_first_child = INVALID_INDEX,
      nd_next_sibling = INVALID_INDEX, nd_last_child = INVALID_INDEX\<rparr>"

lemma append_child_length [simp]: "length (append_child p c nodes) = length nodes"
  by (simp add: append_child_def Let_def)

lemma append_child_frame [frame]:
  "nd_parent (append_child p c nodes ! i) = nd_parent (nodes ! i)"
  "nd_kind (append_child p c nodes ! i) = nd_kind (nodes ! i)"
  "nd_span (append_child p c nodes ! i) = nd_span (nodes ! i)"
  by (simp_all add: append_child_def Let_def upd_nth)

lemma append_child_links:
  assumes "p < length nodes"
  shows "nd_first_child (append_child p c nodes ! i) =
           (if i = p \<and> nd_first_child (nodes ! p) = INVALID_INDEX then c
            else nd_first_child (nodes ! i))"
    and "nd_last_child (append_child p c nodes ! i) =
           (if i = p then c else nd_last_child (nodes ! i))"
    and "nd_next_sibling (append_child p c nodes ! i) =
           (if nd_first_child (nodes ! p) \<noteq> INVALID_INDEX \<and> i = nd_last_child (nodes ! p)
              \<and> i < length nodes
            then c else nd_next_sibling (nodes ! i))"
  using assms by (simp_all add: append_child_def Let_def upd_nth)

lemma push_node_eq:
  assumes "push_node kind sp parent cap nodes = Some (idx, nodes')"
  shows "idx = length nodes" "length nodes < cap" "length nodes' = Suc (length nodes)"
    and "nodes' = (if parent \<noteq> INVALID_INDEX
                   then append_child parent idx (nodes @ [fresh_node kind sp parent])
                   else nodes @ [fresh_node kind sp parent])"
  using assms by (auto simp: push_node_def Let_def split: if_splits)

lemma push_node_old [frame]:
  assumes "push_node kind sp parent cap nodes = Some (idx, nodes')" "i < length nodes"
  shows "nd_parent (nodes' ! i) = nd_parent (nodes ! i)"
    and "nd_kind (nodes' ! i) = nd_kind (nodes ! i)"
    and "nd_span (nodes' ! i) = nd_span (nodes ! i)"
  using push_node_eq [OF assms(1)] assms(2) by (simp_all add: frame nth_append)

lemma push_node_new:
  assumes "push_node kind sp parent cap nodes = Some (idx, nodes')"
  shows "nd_parent (nodes' ! length nodes) = parent"
    and "nd_kind (nodes' ! length nodes) = kind"
    and "nd_span (nodes' ! length nodes) = sp"
  using push_node_eq [OF assms(1)] by (simp_all add: frame nth_append)

lemma push_node_kids:
  assumes "push_node kind sp parent cap nodes = Some (idx, nodes')"
  shows "kids nodes' q = kids nodes q @ (if parent = q then [length nodes] else [])"
proof -
  have "kids nodes' q = kids (nodes @ [fresh_node kind sp parent]) q"
    using push_node_eq [OF assms] by (intro kids_cong) (simp_all add: frame)
  then show ?thesis by (simp add: kids_snoc)
qed

lemma forest_okD:
  assumes "forest_ok nodes"
  shows "length nodes \<le> INVALID_INDEX" "parents_ok nodes" "tops_ok nodes"
    and "p < length nodes \<Longrightarrow> linked nodes (kids nodes p)"
    and "p < length nodes \<Longrightarrow> nd_first_child (nodes ! p) = head_or_invalid (kids nodes p)"
    and "p < length nodes \<Longrightarrow> nd_last_child (nodes ! p) = last_or_invalid (kids nodes p)"
  using assms by (simp_all add: forest_ok_def family_ok_def)

lemma kids_no_invalid:
  assumes "length nodes \<le> INVALID_INDEX" "c \<in> set (kids nodes p)"
  shows "c \<noteq> INVALID_INDEX"
  using assms kids_less by fastforce

lemma head_or_invalid_iff:
  assumes "length nodes \<le> INVALID_INDEX"
  shows "head_or_invalid (kids nodes p) = INVALID_INDEX \<longleftrightarrow> kids nodes p = []"
  using kids_no_invalid [OF assms, of _ p] by (auto simp: head_or_invalid_def split: list.splits)

text \<open>The sibling links after a push: only the parent's last child gets one.\<close>

lemma push_node_links:
  assumes "push_node kind sp parent cap nodes = Some (idx, nodes')" "forest_ok nodes"
    and "parent = INVALID_INDEX \<or> parent < length nodes"
  shows "nd_next_sibling (nodes' ! i) =
           (if parent \<noteq> INVALID_INDEX \<and> kids nodes parent \<noteq> [] \<and> i = last (kids nodes parent)
            then length nodes
            else if i = length nodes then INVALID_INDEX
            else nd_next_sibling ((nodes @ [fresh_node kind sp parent]) ! i))"
proof (cases "parent = INVALID_INDEX")
  case True
  then show ?thesis using push_node_eq [OF assms(1)] by (simp add: nth_append)
next
  case False
  with assms(3) have p: "parent < length nodes" by simp
  let ?N = "nodes @ [fresh_node kind sp parent]"
  have kid: "last (kids nodes parent) < length nodes" if "kids nodes parent \<noteq> []"
    using that kids_less last_in_set by blast
  have "nd_first_child (?N ! parent) \<noteq> INVALID_INDEX \<longleftrightarrow> kids nodes parent \<noteq> []"
    using p forest_okD [OF assms(2)] head_or_invalid_iff by (simp add: nth_append)
  moreover have "nd_last_child (?N ! parent) = last_or_invalid (kids nodes parent)"
    using p forest_okD [OF assms(2)] by (simp add: nth_append)
  moreover have "nodes' = append_child parent (length nodes) ?N"
    using push_node_eq [OF assms(1)] False by simp
  ultimately have "nd_next_sibling (nodes' ! i) =
      (if kids nodes parent \<noteq> [] \<and> i = last (kids nodes parent) then length nodes
       else nd_next_sibling (?N ! i))"
    using append_child_links(3) [of parent ?N "length nodes" i] p kid
    by (cases "kids nodes parent = []") (auto simp: last_or_invalid_def)
  moreover have "nd_next_sibling (?N ! length nodes) = INVALID_INDEX" by simp
  ultimately show ?thesis using False by simp
qed

lemma push_node_first_last:
  assumes "push_node kind sp parent cap nodes = Some (idx, nodes')" "q < length nodes"
    and "parent = INVALID_INDEX \<or> parent < length nodes"
  shows "nd_first_child (nodes' ! q) =
           (if parent \<noteq> INVALID_INDEX \<and> q = parent \<and> nd_first_child (nodes ! q) = INVALID_INDEX
            then length nodes else nd_first_child (nodes ! q))"
    and "nd_last_child (nodes' ! q) =
           (if parent \<noteq> INVALID_INDEX \<and> q = parent then length nodes
            else nd_last_child (nodes ! q))"
proof -
  let ?N = "nodes @ [fresh_node kind sp parent]"
  note eq = push_node_eq(1,4) [OF assms(1)]
  have N: "r < length nodes \<Longrightarrow> ?N ! r = nodes ! r" for r by (simp add: nth_append)
  note links = append_child_links [of parent ?N "length nodes" q]
  show "nd_first_child (nodes' ! q) =
           (if parent \<noteq> INVALID_INDEX \<and> q = parent \<and> nd_first_child (nodes ! q) = INVALID_INDEX
            then length nodes else nd_first_child (nodes ! q))"
    unfolding eq(2) eq(1) using links(1) N assms(2,3)
    by (cases "parent = INVALID_INDEX"; cases "q = parent") simp_all
  show "nd_last_child (nodes' ! q) =
           (if parent \<noteq> INVALID_INDEX \<and> q = parent then length nodes
            else nd_last_child (nodes ! q))"
    unfolding eq(2) eq(1) using links(2) N assms(2,3)
    by (cases "parent = INVALID_INDEX"; cases "q = parent") simp_all
qed

lemma push_node_sibling_old:
  assumes push: "push_node kind sp parent cap nodes = Some (idx, nodes')" and fo: "forest_ok nodes"
    and par: "parent = INVALID_INDEX \<or> parent < length nodes" and c: "c < length nodes"
    and nl: "nd_parent (nodes ! c) = parent \<longrightarrow> c \<noteq> last (kids nodes parent)"
  shows "nd_next_sibling (nodes' ! c) = nd_next_sibling (nodes ! c)"
proof -
  have "\<not> (kids nodes parent \<noteq> [] \<and> c = last (kids nodes parent))"
    using nl kids_parent last_in_set by metis
  moreover have "(nodes @ [fresh_node kind sp parent]) ! c = nodes ! c"
    using c by (simp add: nth_append)
  ultimately show ?thesis using push_node_links [OF push fo par, of c] c by auto
qed

lemma push_node_family_other:
  assumes push: "push_node kind sp parent cap nodes = Some (idx, nodes')" and fo: "forest_ok nodes"
    and par: "parent = INVALID_INDEX \<or> parent < length nodes" and q: "q < length nodes"
    and ne: "parent \<noteq> q"
  shows "family_ok nodes' q"
proof -
  have kq: "kids nodes' q = kids nodes q" using push_node_kids [OF push] ne by simp
  have "nd_next_sibling (nodes' ! c) = nd_next_sibling (nodes ! c)"
    if "c \<in> set (kids nodes q)" for c
    using that ne kids_parent [OF that]
    by (intro push_node_sibling_old [OF push fo par kids_less [OF that]]) simp
  then have "linked nodes' (kids nodes q)"
    using forest_okD(4) [OF fo q] by (simp cong: linked_cong)
  then show ?thesis
    using forest_okD(5,6) [OF fo q] kq push_node_first_last [OF push q par] ne
    by (simp add: family_ok_def)
qed

lemma push_node_family_parent:
  assumes push: "push_node kind sp q cap nodes = Some (idx, nodes')" and fo: "forest_ok nodes"
    and q: "q < length nodes"
  shows "family_ok nodes' q"
proof -
  from q forest_okD(1) [OF fo] have ne: "q \<noteq> INVALID_INDEX" by simp
  have par: "q = INVALID_INDEX \<or> q < length nodes" using q by simp
  note next_eq = push_node_links [OF push fo par]
  let ?ks = "kids nodes q"
  have kq: "kids nodes' q = ?ks @ [length nodes]" using push_node_kids [OF push] by simp
  have lastlt: "last ?ks < length nodes" if "?ks \<noteq> []" using that kids_less last_in_set by blast
  have new: "nd_next_sibling (nodes' ! length nodes) = INVALID_INDEX"
    using next_eq [of "length nodes"] lastlt by (cases "?ks = []") simp_all
  have lk: "linked nodes' (?ks @ [length nodes])"
  proof (cases "?ks = []")
    case True
    then show ?thesis using new by simp
  next
    case False
    show ?thesis
    proof (rule linked_snoc [OF forest_okD(4) [OF fo q] False kids_distinct _ _ new])
      show "nd_next_sibling (nodes' ! last ?ks) = length nodes"
        using next_eq False ne by simp
      show "nd_next_sibling (nodes' ! c) = nd_next_sibling (nodes ! c)"
        if "c \<in> set ?ks" "c \<noteq> last ?ks" for c
        using that by (intro push_node_sibling_old [OF push fo par kids_less [OF that(1)]]) simp
    qed
  qed
  note fl = push_node_first_last [OF push q par]
  have "nd_first_child (nodes' ! q) = head_or_invalid (?ks @ [length nodes])"
    using fl(1) ne forest_okD(5) [OF fo q] head_or_invalid_iff [OF forest_okD(1) [OF fo], of q]
    by (cases ?ks) (simp_all add: head_or_invalid_def)
  moreover have "nd_last_child (nodes' ! q) = length nodes"
    using fl(2) ne by simp
  ultimately show ?thesis using lk kq by (simp add: family_ok_def last_or_invalid_def)
qed

lemma push_node_forest:
  assumes push: "push_node kind sp parent cap nodes = Some (idx, nodes')" and fo: "forest_ok nodes"
    and cap: "cap \<le> INVALID_INDEX"
    and par: "parent = INVALID_INDEX \<or> (parent < length nodes \<and> nd_kind (nodes ! parent) = NODE_LIST)"
  shows "forest_ok nodes'"
proof -
  have par': "parent = INVALID_INDEX \<or> parent < length nodes" using par by blast
  note eq = push_node_eq [OF push]
  note old = push_node_old [OF push] and new = push_node_new [OF push]
  have len: "length nodes' \<le> INVALID_INDEX" using eq(2,3) cap by simp
  have parents: "parents_ok nodes'"
    unfolding parents_ok_def
  proof (intro allI impI)
    fix i assume i: "i < length nodes'"
    show "nd_parent (nodes' ! i) = INVALID_INDEX \<or>
      (nd_parent (nodes' ! i) < i \<and> nd_kind (nodes' ! nd_parent (nodes' ! i)) = NODE_LIST)"
    proof (cases "i = length nodes")
      case True
      then show ?thesis using new(1) par old(2) by auto
    next
      case False
      with i eq(3) have "i < length nodes" by simp
      then show ?thesis using forest_okD(2) [OF fo] old unfolding parents_ok_def by auto
    qed
  qed
  have tops: "tops_ok nodes'"
    unfolding tops_ok_def
  proof (intro allI impI)
    fix i assume i: "i < length nodes'" and top: "nd_parent (nodes' ! i) = INVALID_INDEX"
    note links = push_node_links [OF push fo par', of i]
    have nl: "\<not> (parent \<noteq> INVALID_INDEX \<and> kids nodes parent \<noteq> [] \<and> i = last (kids nodes parent))"
    proof
      assume a: "parent \<noteq> INVALID_INDEX \<and> kids nodes parent \<noteq> [] \<and> i = last (kids nodes parent)"
      then have "i \<in> set (kids nodes parent)" by simp
      then have "nd_parent (nodes' ! i) = parent" using old(1) kids_less kids_parent by metis
      with a top show False by simp
    qed
    show "nd_next_sibling (nodes' ! i) = INVALID_INDEX"
    proof (cases "i = length nodes")
      case True
      then show ?thesis using links nl by auto
    next
      case False
      with i eq(3) have il: "i < length nodes" by simp
      then have "nd_next_sibling (nodes ! i) = INVALID_INDEX"
        using forest_okD(3) [OF fo] top old(1) unfolding tops_ok_def by metis
      then show ?thesis using links nl il False by (auto simp: nth_append)
    qed
  qed
  have "family_ok nodes' q" if q: "q < length nodes'" for q
  proof (cases "q = length nodes")
    case True
    then have qn: "q \<noteq> INVALID_INDEX" using eq(2) cap by simp
    then have "parent \<noteq> q" using par' True by auto
    moreover have "kids nodes q = []"
      using kids_none [OF forest_okD(2) [OF fo]] True qn by simp
    ultimately have "kids nodes' q = []" using push_node_kids [OF push] by simp
    moreover have "nd_first_child (nodes' ! q) = INVALID_INDEX" "nd_last_child (nodes' ! q) = INVALID_INDEX"
      using eq(1,4) True \<open>parent \<noteq> q\<close> par'
      by (cases "parent = INVALID_INDEX"; simp add: append_child_links)+
    ultimately show ?thesis by (simp add: family_ok_def head_or_invalid_def last_or_invalid_def)
  next
    case False
    with q eq(3) have "q < length nodes" by simp
    then show ?thesis
      using push_node_family_other [OF push fo par'] push_node_family_parent [OF _ fo] push
      by (cases "parent = q") auto
  qed
  with len parents tops show ?thesis by (simp add: forest_ok_def)
qed

section \<open>Closing a list keeps the forest\<close>

lemma span_update_same:
  "nd_parent (nodes[p := (nodes ! p)\<lparr>nd_span := sp\<rparr>] ! i) = nd_parent (nodes ! i)"
  "nd_kind (nodes[p := (nodes ! p)\<lparr>nd_span := sp\<rparr>] ! i) = nd_kind (nodes ! i)"
  "nd_first_child (nodes[p := (nodes ! p)\<lparr>nd_span := sp\<rparr>] ! i) = nd_first_child (nodes ! i)"
  "nd_last_child (nodes[p := (nodes ! p)\<lparr>nd_span := sp\<rparr>] ! i) = nd_last_child (nodes ! i)"
  "nd_next_sibling (nodes[p := (nodes ! p)\<lparr>nd_span := sp\<rparr>] ! i) = nd_next_sibling (nodes ! i)"
  by (simp_all add: upd_nth)

lemma span_update_kids: "kids (nodes[p := (nodes ! p)\<lparr>nd_span := sp\<rparr>]) q = kids nodes q"
  by (rule kids_cong) (simp_all add: span_update_same)

lemma span_update_linked: "linked (nodes[p := (nodes ! p)\<lparr>nd_span := sp\<rparr>]) cs = linked nodes cs"
  by (rule linked_cong) (simp add: span_update_same)

lemma span_update_forest:
  "forest_ok (nodes[p := (nodes ! p)\<lparr>nd_span := sp\<rparr>]) = forest_ok nodes"
  by (simp add: forest_ok_def parents_ok_def tops_ok_def family_ok_def
      span_update_same span_update_kids span_update_linked)

end
