(* ===== verification/SexprParse.thy ===== *)
theory SexprParse
  imports SexprTree
begin

text \<open>
  The functional specification of the parser: a token list parses exactly when its
  parentheses balance and its nodes fit the caller's array, and then the node array is the
  one a stack machine over the tokens describes. The loaders' loops over siblings are
  \<open>sib_walk\<close>, which is proved to visit exactly a node's children.
\<close>

section \<open>The stack machine\<close>

fun balanced_from :: "nat \<Rightarrow> token_kind list \<Rightarrow> bool" where
  "balanced_from d [] = (d = 0)"
| "balanced_from d (TOKEN_LPAREN # ks) = balanced_from (Suc d) ks"
| "balanced_from d (TOKEN_RPAREN # ks) = (d > 0 \<and> balanced_from (d - 1) ks)"
| "balanced_from d (_ # ks) = balanced_from d ks"

definition node_tokens :: "sexpr_token list \<Rightarrow> sexpr_token list" where
  "node_tokens ts = filter (\<lambda>t. tk_kind t \<noteq> TOKEN_RPAREN) ts"

fun node_kind_of :: "token_kind \<Rightarrow> node_kind" where
  "node_kind_of TOKEN_SYMBOL = NODE_SYMBOL"
| "node_kind_of TOKEN_STRING = NODE_STRING"
| "node_kind_of _ = NODE_LIST"

fun parents_of :: "nat \<Rightarrow> nat list \<Rightarrow> token_kind list \<Rightarrow> nat list" where
  "parents_of n st [] = []"
| "parents_of n st (TOKEN_LPAREN # ks) = head_or_invalid st # parents_of (Suc n) (n # st) ks"
| "parents_of n st (TOKEN_RPAREN # ks) = parents_of n (tl st) ks"
| "parents_of n st (_ # ks) = head_or_invalid st # parents_of (Suc n) st ks"

text \<open>The open lists of the parser, innermost first, as its parent links record them.\<close>

fun open_chain :: "sexpr_node list \<Rightarrow> nat list \<Rightarrow> nat \<Rightarrow> bool" where
  "open_chain nodes [] p = (p = INVALID_INDEX)"
| "open_chain nodes (s # ss) p =
     (p = s \<and> s < length nodes \<and> s \<noteq> INVALID_INDEX \<and> nd_kind (nodes ! s) = NODE_LIST \<and>
      open_chain nodes ss (nd_parent (nodes ! s)))"

lemma open_chain_head: "open_chain nodes st p \<Longrightarrow> p = head_or_invalid st"
  by (cases st) (auto simp: head_or_invalid_def)

lemma open_chain_invalid: "open_chain nodes st INVALID_INDEX \<longleftrightarrow> st = []"
  by (cases st) auto

lemma open_chain_par:
  "open_chain nodes st p \<Longrightarrow>
   p = INVALID_INDEX \<or> (p < length nodes \<and> nd_kind (nodes ! p) = NODE_LIST)"
  by (cases st) auto

lemma open_chain_cong:
  assumes "length nodes \<le> length ns"
    and "\<And>i. i < length nodes \<Longrightarrow> nd_parent (ns ! i) = nd_parent (nodes ! i)"
    and "\<And>i. i < length nodes \<Longrightarrow> nd_kind (ns ! i) = nd_kind (nodes ! i)"
  shows "open_chain nodes st p \<Longrightarrow> open_chain ns st p"
  using assms by (induction nodes st p rule: open_chain.induct) auto

lemma push_node_chain:
  assumes "push_node kind sp parent cap nodes = Some (idx, nodes')" "open_chain nodes st p"
  shows "open_chain nodes' st p"
  using assms push_node_eq(3) [OF assms(1)] push_node_old [OF assms(1)]
  by (auto intro: open_chain_cong [of nodes])

lemma push_node_None_iff:
  assumes "length nodes \<le> cap" "cap \<le> INVALID_INDEX"
  shows "push_node kind sp parent cap nodes = None \<longleftrightarrow> length nodes = cap"
  using assms by (auto simp: push_node_def Let_def INVALID_INDEX_def)

section \<open>The loop against the stack machine\<close>

text \<open>One invariant for the whole loop; the cases of a token are closed by these rules.\<close>

definition parse_inv :: "nat \<Rightarrow> sexpr_node list \<Rightarrow> nat list \<Rightarrow> nat \<Rightarrow> bool" where
  "parse_inv cap nodes st p \<longleftrightarrow>
     cap \<le> INVALID_INDEX \<and> length nodes \<le> cap \<and> forest_ok nodes \<and> open_chain nodes st p"

lemma parse_inv_push_atom:
  assumes "parse_inv cap nodes st p" "push_node kind sp p cap nodes = Some (idx, nodes')"
  shows "parse_inv cap nodes' st p"
proof -
  from assms(1) have "forest_ok nodes'"
    using push_node_forest [OF assms(2)] open_chain_par unfolding parse_inv_def by blast
  then show ?thesis
    using assms push_node_chain [OF assms(2)] push_node_eq(2,3) [OF assms(2)]
    by (simp add: parse_inv_def)
qed

lemma parse_inv_push_list:
  assumes "parse_inv cap nodes st p" "push_node NODE_LIST sp p cap nodes = Some (idx, nodes')"
  shows "parse_inv cap nodes' (length nodes # st) idx"
proof -
  have "parse_inv cap nodes' st p" by (rule parse_inv_push_atom [OF assms])
  then show ?thesis
    using push_node_eq(1-3) [OF assms(2)] push_node_new [OF assms(2)]
    by (auto simp: parse_inv_def)
qed

lemma parse_inv_close:
  assumes "parse_inv cap nodes (s # st) p"
  shows "parse_inv cap (nodes[p := (nodes ! p)\<lparr>nd_span := sp\<rparr>]) st (nd_parent (nodes ! p))"
proof -
  from assms have "open_chain nodes st (nd_parent (nodes ! p))" by (simp add: parse_inv_def)
  then have "open_chain (nodes[p := (nodes ! p)\<lparr>nd_span := sp\<rparr>]) st (nd_parent (nodes ! p))"
    by (rule open_chain_cong [rotated 3]) (simp_all add: span_update_same)
  with assms show ?thesis by (simp add: parse_inv_def span_update_forest)
qed

lemma node_tokens_simps [simp]:
  "node_tokens [] = []"
  "node_tokens (t # ts) = (if tk_kind t = TOKEN_RPAREN then node_tokens ts else t # node_tokens ts)"
  by (simp_all add: node_tokens_def)

lemma parse_loop_status:
  "parse_inv cap nodes st p \<Longrightarrow>
   fst (parse_loop cap ts p nodes) = SPG_OK \<longleftrightarrow>
     balanced_from (length st) (map tk_kind ts) \<and>
     length nodes + length (node_tokens ts) \<le> cap"
proof (induction ts arbitrary: nodes st p)
  case Nil
  then show ?case
    by (cases st) (auto simp: parse_inv_def parse_fail_def set_error_def)
next
  case (Cons t ts)
  show ?case
  proof (cases "tk_kind t = TOKEN_RPAREN")
    case True
    show ?thesis
    proof (cases st)
      case Nil
      with Cons.prems True show ?thesis
        by (simp add: parse_inv_def parse_fail_def set_error_def)
    next
      case (Cons s st')
      note inv = Cons.prems [unfolded Cons]
      from inv have "p \<noteq> INVALID_INDEX" by (auto simp: parse_inv_def)
      with True Cons Cons.IH [OF parse_inv_close [OF inv]] show ?thesis
        by (simp add: Let_def)
    qed
  next
    case False
    define kind where "kind = node_kind_of (tk_kind t)"
    have lim: "length nodes \<le> cap" "cap \<le> INVALID_INDEX"
      using Cons.prems by (auto simp: parse_inv_def)
    show ?thesis
    proof (cases "push_node kind (tk_span t) p cap nodes")
      case None
      then have "length nodes = cap" using push_node_None_iff [OF lim] by blast
      with None False show ?thesis
        by (cases "tk_kind t") (simp_all add: kind_def parse_fail_def set_error_def)
    next
      case (Some r)
      obtain idx nodes' where r: "r = (idx, nodes')" by fastforce
      note push = Some [unfolded r]
      show ?thesis
      proof (cases "tk_kind t = TOKEN_LPAREN")
        case True
        then have "kind = NODE_LIST" by (simp add: kind_def)
        with push Cons.IH [OF parse_inv_push_list [OF Cons.prems]] True push_node_eq(3) [OF push]
        show ?thesis by simp
      next
        case nl: False
        with push Cons.IH [OF parse_inv_push_atom [OF Cons.prems push]] False push_node_eq(3) [OF push]
        show ?thesis by (cases "tk_kind t") (simp_all add: kind_def)
      qed
    qed
  qed
qed

text \<open>
  One step of the loop as a relation between node arrays, so that the facts about the
  result need the case analysis of a token only once.
\<close>

lemma parse_loop_cases:
  assumes inv: "parse_inv cap nodes st p" and ok: "parse_loop cap (t # ts) p nodes = (SPG_OK, ns, e)"
  obtains
    (lpar) nodes' where "tk_kind t = TOKEN_LPAREN"
      "push_node NODE_LIST (tk_span t) p cap nodes = Some (length nodes, nodes')"
      "parse_inv cap nodes' (length nodes # st) (length nodes)"
      "parse_loop cap ts (length nodes) nodes' = (SPG_OK, ns, e)"
  | (rpar) s st' sp where "tk_kind t = TOKEN_RPAREN" "st = s # st'" "p = s"
      "parse_inv cap (nodes[p := (nodes ! p)\<lparr>nd_span := sp\<rparr>]) st' (nd_parent (nodes ! p))"
      "parse_loop cap ts (nd_parent (nodes ! p)) (nodes[p := (nodes ! p)\<lparr>nd_span := sp\<rparr>]) =
         (SPG_OK, ns, e)"
  | (atom) nodes' where "tk_kind t = TOKEN_SYMBOL \<or> tk_kind t = TOKEN_STRING"
      "push_node (node_kind_of (tk_kind t)) (tk_span t) p cap nodes = Some (length nodes, nodes')"
      "parse_inv cap nodes' st p"
      "parse_loop cap ts p nodes' = (SPG_OK, ns, e)"
proof -
  consider "tk_kind t = TOKEN_LPAREN" | "tk_kind t = TOKEN_RPAREN"
    | "tk_kind t = TOKEN_SYMBOL \<or> tk_kind t = TOKEN_STRING"
    by (cases "tk_kind t") auto
  then show thesis
  proof cases
    case 1
    then obtain idx nodes' where push: "push_node NODE_LIST (tk_span t) p cap nodes = Some (idx, nodes')"
      and run: "parse_loop cap ts idx nodes' = (SPG_OK, ns, e)"
      using ok by (auto simp: parse_fail_def set_error_def split: option.splits)
    with push_node_eq(1) [OF push] parse_inv_push_list [OF inv push] 1 lpar show thesis by simp
  next
    case 2
    have "p \<noteq> INVALID_INDEX" using ok 2 by (auto simp: parse_fail_def set_error_def)
    then obtain s st' where st: "st = s # st'" "p = s"
      using inv by (cases st) (auto simp: parse_inv_def)
    with 2 ok \<open>p \<noteq> INVALID_INDEX\<close> parse_inv_close [OF inv [unfolded st(1)]] show thesis
      by (intro rpar) (auto simp: Let_def)
  next
    case 3
    then obtain idx nodes' where
      push: "push_node (node_kind_of (tk_kind t)) (tk_span t) p cap nodes = Some (idx, nodes')"
      and run: "parse_loop cap ts p nodes' = (SPG_OK, ns, e)"
      using ok by (auto simp: parse_fail_def set_error_def split: option.splits)
    with push_node_eq(1) [OF push] parse_inv_push_atom [OF inv push] 3 atom show thesis by simp
  qed
qed

lemma parse_loop_forest:
  "parse_inv cap nodes st p \<Longrightarrow> parse_loop cap ts p nodes = (SPG_OK, ns, e) \<Longrightarrow>
   forest_ok ns \<and> length ns = length nodes + length (node_tokens ts)"
proof (induction ts arbitrary: nodes st p)
  case Nil
  then show ?case
    by (auto simp: parse_inv_def parse_fail_def set_error_def split: if_splits)
next
  case (Cons t ts)
  from Cons.prems show ?case
  proof (cases rule: parse_loop_cases)
    case (lpar nodes')
    then show ?thesis using Cons.IH push_node_eq(3) by fastforce
  next
    case rpar
    then show ?thesis using Cons.IH by fastforce
  next
    case (atom nodes')
    then have "tk_kind t \<noteq> TOKEN_RPAREN" by auto
    then show ?thesis using Cons.IH [OF atom(3,4)] push_node_eq(3) [OF atom(2)] by simp
  qed
qed

definition node_view :: "sexpr_node list \<Rightarrow> (node_kind \<times> nat) list" where
  "node_view nodes = map (\<lambda>n. (nd_kind n, nd_parent n)) nodes"

lemma node_view_push:
  assumes "push_node kind sp p cap nodes = Some (idx, nodes')"
  shows "node_view nodes' = node_view nodes @ [(kind, p)]"
proof (rule nth_equalityI)
  show "length (node_view nodes') = length (node_view nodes @ [(kind, p)])"
    using push_node_eq(3) [OF assms] by (simp add: node_view_def)
  fix i assume "i < length (node_view nodes')"
  then show "node_view nodes' ! i = (node_view nodes @ [(kind, p)]) ! i"
    using push_node_eq(3) [OF assms] push_node_old [OF assms] push_node_new [OF assms]
    by (cases "i = length nodes") (auto simp: node_view_def nth_append)
qed

lemma node_view_span:
  "node_view (nodes[p := (nodes ! p)\<lparr>nd_span := sp\<rparr>]) = node_view nodes"
  by (rule nth_equalityI) (simp_all add: node_view_def span_update_same)

lemma node_view_length: "length (node_view nodes) = length nodes"
  by (simp add: node_view_def)

lemma parse_loop_view:
  "parse_inv cap nodes st p \<Longrightarrow> parse_loop cap ts p nodes = (SPG_OK, ns, e) \<Longrightarrow>
   node_view ns = node_view nodes @
     zip (map (node_kind_of \<circ> tk_kind) (node_tokens ts))
         (parents_of (length nodes) st (map tk_kind ts))"
proof (induction ts arbitrary: nodes st p)
  case Nil
  then show ?case
    by (auto simp: parse_inv_def parse_fail_def set_error_def split: if_splits)
next
  case (Cons t ts)
  have p: "p = head_or_invalid st"
    using Cons.prems(1) open_chain_head by (auto simp: parse_inv_def)
  from Cons.prems show ?case
  proof (cases rule: parse_loop_cases)
    case (lpar nodes')
    then show ?thesis
      using Cons.IH [OF lpar(3,4)] node_view_push [OF lpar(2)] push_node_eq(3) [OF lpar(2)] p
      by simp
  next
    case (rpar s st' sp)
    then show ?thesis using Cons.IH [OF rpar(4,5)] by (simp add: node_view_span)
  next
    case (atom nodes')
    then show ?thesis
      using Cons.IH [OF atom(3,4)] node_view_push [OF atom(2)] push_node_eq(3) [OF atom(2)] p
      by auto
  qed
qed

lemma parents_of_length:
  "length (parents_of n st (map tk_kind ts)) = length (node_tokens ts)"
proof (induction ts arbitrary: n st)
  case (Cons t ts)
  then show ?case by (cases "tk_kind t") simp_all
qed simp

lemma parse_inv_start: "cap \<le> INVALID_INDEX \<Longrightarrow> parse_inv cap [] [] INVALID_INDEX"
  by (simp add: parse_inv_def forest_ok_def parents_ok_def tops_ok_def)

lemma parse_text_forest:
  assumes "cap \<le> INVALID_INDEX" "spg_sexpr_parse_text input tcap cap = (SPG_OK, toks, nodes, e)"
  shows "forest_ok nodes"
proof -
  from assms(2) have "parse_loop cap toks INVALID_INDEX [] = (SPG_OK, nodes, e)"
    by (auto simp: spg_sexpr_parse_text_def spg_sexpr_parse_def parse_fail_def set_error_def
        split: if_splits prod.splits)
  then show ?thesis using parse_loop_forest [OF parse_inv_start [OF assms(1)]] by blast
qed

section \<open>Walking siblings\<close>

text \<open>
  The loop \<open>for (f = start; f != INVALID; f = nodes[f].next_sibling)\<close>, as the list of
  the nodes it visits.
\<close>

fun sib_walk :: "nat \<Rightarrow> sexpr_node list \<Rightarrow> nat \<Rightarrow> nat list" where
  "sib_walk 0 nodes i = []"
| "sib_walk (Suc fuel) nodes i =
     (if i = INVALID_INDEX then [] else i # sib_walk fuel nodes (nd_next_sibling (nodes ! i)))"

definition siblings :: "sexpr_node list \<Rightarrow> nat \<Rightarrow> nat list" where
  "siblings nodes i = sib_walk (length nodes) nodes i"

lemma sib_walk_linked:
  "linked nodes cs \<Longrightarrow> INVALID_INDEX \<notin> set cs \<Longrightarrow> length cs \<le> fuel \<Longrightarrow>
   sib_walk fuel nodes (head_or_invalid cs) = cs"
proof (induction fuel arbitrary: cs)
  case 0
  then show ?case by simp
next
  case (Suc fuel)
  show ?case
  proof (cases cs)
    case Nil
    then show ?thesis by (simp add: head_or_invalid_def)
  next
    case (Cons c ds)
    then have "nd_next_sibling (nodes ! c) = head_or_invalid ds"
      using linked_next [of nodes "[]" c ds] Suc.prems(1) by simp
    moreover have "linked nodes ds" using Suc.prems(1) Cons by (cases ds) auto
    moreover have "sib_walk fuel nodes (head_or_invalid ds) = ds"
      using Suc.prems Cons calculation(2) by (intro Suc.IH) simp_all
    ultimately show ?thesis using Suc.prems Cons by (auto simp: head_or_invalid_def)
  qed
qed

lemma kids_length: "length (kids nodes p) \<le> length nodes"
  unfolding kids_def using length_filter_le [of _ "[0..<length nodes]"] by simp

lemma sib_walk_kids:
  assumes "forest_ok nodes" "p < length nodes" "length nodes \<le> fuel"
  shows "sib_walk fuel nodes (spg_sexpr_first_child nodes p) = kids nodes p"
  using assms forest_okD [OF assms(1)] kids_no_invalid [of nodes] kids_length [of nodes p]
  unfolding spg_sexpr_first_child_def
  by (metis sib_walk_linked le_trans)

lemma siblings_kids:
  "forest_ok nodes \<Longrightarrow> p < length nodes \<Longrightarrow>
   siblings nodes (spg_sexpr_first_child nodes p) = kids nodes p"
  by (simp add: siblings_def sib_walk_kids)

lemma second_child_kids:
  assumes "forest_ok nodes" "p < length nodes"
  shows "spg_sexpr_second_child nodes p = head_or_invalid (tl (kids nodes p))"
proof (cases "kids nodes p")
  case Nil
  then show ?thesis using forest_okD(5) [OF assms]
    by (simp add: spg_sexpr_second_child_def head_or_invalid_def)
next
  case (Cons c cs)
  then have "nd_first_child (nodes ! p) = c" "nd_next_sibling (nodes ! c) = head_or_invalid cs"
    using forest_okD(4,5) [OF assms] linked_next [of nodes "[]" c cs]
    by (simp_all add: head_or_invalid_def)
  moreover have "c \<noteq> INVALID_INDEX"
    using kids_no_invalid [OF forest_okD(1) [OF assms(1)], of c p] Cons by simp
  ultimately show ?thesis using Cons by (simp add: spg_sexpr_second_child_def)
qed

lemma linked_tl: "linked nodes cs \<Longrightarrow> linked nodes (tl cs)"
  by (induction nodes cs rule: linked.induct) auto

lemma siblings_second:
  assumes "forest_ok nodes" "p < length nodes"
  shows "siblings nodes (spg_sexpr_second_child nodes p) = tl (kids nodes p)"
proof -
  have "INVALID_INDEX \<notin> set (tl (kids nodes p))"
    using kids_no_invalid [OF forest_okD(1) [OF assms(1)], of INVALID_INDEX p]
    by (cases "kids nodes p") auto
  moreover have "length (tl (kids nodes p)) \<le> length nodes"
    using kids_length [of nodes p] by simp
  ultimately show ?thesis
    using sib_walk_linked [OF linked_tl [OF forest_okD(4) [OF assms]]]
    by (simp add: siblings_def second_child_kids [OF assms])
qed

section \<open>The parser's contract\<close>

text \<open>
  the parser accepts a token list exactly when its parentheses balance and its nodes
  fit the caller's node array; no other input is accepted and none of these is refused.
\<close>

theorem spg_sexpr_parse_accepts:
  assumes "0 < cap" "cap \<le> INVALID_INDEX"
  shows "fst (spg_sexpr_parse toks cap) = SPG_OK \<longleftrightarrow>
           balanced_from 0 (map tk_kind toks) \<and> length (node_tokens toks) \<le> cap"
  using assms parse_loop_status [OF parse_inv_start [OF assms(2)], of toks]
  by (simp add: spg_sexpr_parse_def)

text \<open>
  C11: an accepted token list yields a well-linked forest, one node per token other than a
  closing parenthesis, with the kinds and the parents that a stack machine over the tokens
  computes.
\<close>

theorem spg_sexpr_parse_builds:
  assumes "cap \<le> INVALID_INDEX" "spg_sexpr_parse toks cap = (SPG_OK, nodes, e)"
  shows "forest_ok nodes \<and>
         node_view nodes = zip (map (node_kind_of \<circ> tk_kind) (node_tokens toks))
                               (parents_of 0 [] (map tk_kind toks))"
proof -
  have run: "parse_loop cap toks INVALID_INDEX [] = (SPG_OK, nodes, e)"
    using assms(2) by (auto simp: spg_sexpr_parse_def parse_fail_def set_error_def split: if_splits)
  show ?thesis
    using parse_loop_forest [OF parse_inv_start [OF assms(1)] run]
      parse_loop_view [OF parse_inv_start [OF assms(1)] run]
    by (simp add: node_view_def)
qed

text \<open>
  C16: a sibling loop over a parsed list visits exactly the nodes whose parent is that list,
  once each and in source order, and stops; \<open>fuel\<close> only has to reach the node count.
\<close>

theorem sibling_loop_visits_children:
  assumes "cap \<le> INVALID_INDEX" "spg_sexpr_parse toks cap = (SPG_OK, nodes, e)"
    and "p < length nodes" "length nodes \<le> fuel"
  shows "sib_walk fuel nodes (spg_sexpr_first_child nodes p) =
           filter (\<lambda>i. nd_parent (nodes ! i) = p) [0..<length nodes]"
proof -
  have "parse_loop cap toks INVALID_INDEX [] = (SPG_OK, nodes, e)"
    using assms(2) by (auto simp: spg_sexpr_parse_def parse_fail_def set_error_def split: if_splits)
  then have "forest_ok nodes"
    using parse_loop_forest [OF parse_inv_start [OF assms(1)]] by blast
  then show ?thesis using sib_walk_kids [OF _ assms(3,4)] by (simp add: kids_def)
qed

definition tok1 :: "token_kind \<Rightarrow> nat \<Rightarrow> nat \<Rightarrow> sexpr_token" where
  "tok1 k off len = \<lparr>tk_kind = k, tk_span = mk_span off len, tk_line = 1, tk_column = off + 1\<rparr>"

definition sample_tokens :: "sexpr_token list" where
  "sample_tokens = [tok1 TOKEN_LPAREN 0 1, tok1 TOKEN_SYMBOL 1 1, tok1 TOKEN_SYMBOL 3 1,
                    tok1 TOKEN_RPAREN 4 1]"

definition sample_nodes :: "sexpr_node list" where
  "sample_nodes = fst (snd (spg_sexpr_parse sample_tokens 8))"

lemma sample_parse:
  "spg_sexpr_parse sample_tokens 8 = (SPG_OK, sample_nodes, set_error SPG_OK 0 1 1)"
  "length sample_nodes = 3"
  by (simp_all add: sample_nodes_def sample_tokens_def tok1_def spg_sexpr_parse_def push_node_def
      append_child_def INVALID_INDEX_def Let_def)

lemma spg_sexpr_parse_accepts_witness:
  "fst (spg_sexpr_parse sample_tokens 8) = SPG_OK"
  using spg_sexpr_parse_accepts [of 8 sample_tokens]
  by (simp add: sample_tokens_def tok1_def INVALID_INDEX_def)

lemma spg_sexpr_parse_builds_witness:
  "forest_ok sample_nodes \<and> map fst (node_view sample_nodes) = [NODE_LIST, NODE_SYMBOL, NODE_SYMBOL]"
  using spg_sexpr_parse_builds [OF _ sample_parse(1)]
  by (simp add: sample_tokens_def tok1_def INVALID_INDEX_def)

lemma sibling_loop_visits_children_witness:
  "sib_walk 3 sample_nodes (spg_sexpr_first_child sample_nodes 0) =
     filter (\<lambda>i. nd_parent (sample_nodes ! i) = 0) [0..<3]"
  using sibling_loop_visits_children [OF _ sample_parse(1), of 0 3] sample_parse(2)
  by (simp add: INVALID_INDEX_def)

end
