(* ===== verification/SexprWriter.thy ===== *)
theory SexprWriter
  imports Sexpr
begin

text \<open>
  The bounded writer of \<open>src/dsl/sexpr.c\<close>, which every payload, prompt and journal record
  is rendered with, and the decimal routines on both sides of the text: \<open>u64_to_dec\<close> and
  \<open>spg_sexpr_parse_uint64_span\<close>. The locale \<open>text_sink\<close> is the contract its clients rely
  on: an append is all or nothing, the content never outgrows the buffer, and a chain of
  appends that stops at the first refusal leaves a prefix of the intended text.
\<close>

section \<open>The writer\<close>

record sexpr_writer =
  wr_buffer :: string
  wr_capacity :: nat
  wr_used :: nat
  wr_truncated :: bool

text \<open>\<open>memcpy\<close> of a text into a buffer at an offset.\<close>

definition buf_write :: "string \<Rightarrow> nat \<Rightarrow> string \<Rightarrow> string" where
  "buf_write buf off txt = take off buf @ txt @ drop (off + length txt) buf"

definition spg_sexpr_writer_init :: "nat \<Rightarrow> string \<Rightarrow> sexpr_writer" where
  "spg_sexpr_writer_init capacity buffer =
     \<lparr>wr_buffer = (if capacity > 0 then buf_write buffer 0 [ch_nul] else buffer),
      wr_capacity = capacity, wr_used = 0, wr_truncated = False\<rparr>"

definition spg_sexpr_writer_append_text ::
  "sexpr_writer \<Rightarrow> string \<Rightarrow> sexpr_writer \<times> spg_status" where
  "spg_sexpr_writer_append_text w txt =
     (if wr_used w \<ge> wr_capacity w then (w\<lparr>wr_truncated := True\<rparr>, SPG_E_INVALID_ARG)
      else if wr_truncated w then (w, SPG_E_LIMIT)
      else if length txt > wr_capacity w - wr_used w - 1
        then (w\<lparr>wr_truncated := True\<rparr>, SPG_E_LIMIT)
      else let used' = wr_used w + length txt
           in (w\<lparr>wr_buffer := buf_write (buf_write (wr_buffer w) (wr_used w) txt) used' [ch_nul],
                 wr_used := used'\<rparr>, SPG_OK))"

definition digit_char :: "nat \<Rightarrow> char" where
  "digit_char d = char_of (48 + d)"

function u64_dec_loop :: "u64 \<Rightarrow> string \<Rightarrow> string" where
  "u64_dec_loop value acc =
     (let acc' = digit_char (unat (value mod 10)) # acc
      in if value div 10 = 0 then acc' else u64_dec_loop (value div 10) acc')"
  by pat_completeness auto
termination
proof (relation "measure (\<lambda>(v, _). unat v)", goal_cases)
  case (2 v acc)
  then have "0 < unat v" by (metis div_0 unat_gt_0)
  then show ?case by (simp add: unat_div)
qed simp

declare u64_dec_loop.simps [simp del]

definition u64_to_dec :: "u64 \<Rightarrow> string" where
  "u64_to_dec value = u64_dec_loop value []"

definition spg_sexpr_writer_append_u64 :: "sexpr_writer \<Rightarrow> u64 \<Rightarrow> sexpr_writer \<times> spg_status" where
  "spg_sexpr_writer_append_u64 w value = spg_sexpr_writer_append_text w (u64_to_dec value)"

definition spg_sexpr_writer_append_size :: "sexpr_writer \<Rightarrow> nat \<Rightarrow> sexpr_writer \<times> spg_status" where
  "spg_sexpr_writer_append_size w value =
     spg_sexpr_writer_append_text w (u64_to_dec (of_nat value))"

text \<open>
  The pattern of every emitter, \<open>if (status == SPG_OK) status = append(...)\<close> in a row: a
  list of appends that stops at the first status that is not \<open>SPG_OK\<close>.
\<close>

fun emit_all :: "('w \<Rightarrow> string \<Rightarrow> 'w \<times> spg_status) \<Rightarrow> 'w \<Rightarrow> string list \<Rightarrow> 'w \<times> spg_status" where
  "emit_all app w [] = (w, SPG_OK)"
| "emit_all app w (t # ts) =
     (case app w t of (w', st) \<Rightarrow> if st = SPG_OK then emit_all app w' ts else (w', st))"

section \<open>The contract of a text sink\<close>

locale text_sink =
  fixes app :: "'w \<Rightarrow> string \<Rightarrow> 'w \<times> spg_status"
    and content :: "'w \<Rightarrow> string"
    and room :: "'w \<Rightarrow> nat"
    and invar :: "'w \<Rightarrow> bool"
  assumes append_ok: "invar w \<Longrightarrow> app w t = (w', SPG_OK) \<Longrightarrow>
            content w' = content w @ t \<and> room w = room w' + length t"
    and append_refused: "invar w \<Longrightarrow> app w t = (w', st) \<Longrightarrow> st \<noteq> SPG_OK \<Longrightarrow>
            content w' = content w"
    and append_fits: "invar w \<Longrightarrow> room w > 0 \<Longrightarrow> length t < room w \<Longrightarrow> snd (app w t) = SPG_OK"
    and append_invar: "invar w \<Longrightarrow> app w t = (w', st) \<Longrightarrow> invar w'"
begin

lemma emit_all_invar: "invar w \<Longrightarrow> emit_all app w ts = (w', st) \<Longrightarrow> invar w'"
  by (induction ts arbitrary: w) (auto split: prod.splits if_splits dest: append_invar)

lemma emit_all_ok:
  "invar w \<Longrightarrow> emit_all app w ts = (w', SPG_OK) \<Longrightarrow> content w' = content w @ concat ts"
proof (induction ts arbitrary: w)
  case (Cons t ts)
  then obtain w1 where "app w t = (w1, SPG_OK)" "emit_all app w1 ts = (w', SPG_OK)"
    by (auto split: prod.splits if_splits)
  with Cons append_ok append_invar show ?case by fastforce
qed simp

lemma emit_all_prefix:
  "invar w \<Longrightarrow> emit_all app w ts = (w', st) \<Longrightarrow>
   \<exists>k. content w' = content w @ concat (take k ts)"
proof (induction ts arbitrary: w)
  case Nil
  then show ?case by simp
next
  case (Cons t ts)
  obtain w1 s1 where a: "app w t = (w1, s1)" by fastforce
  show ?case
  proof (cases "s1 = SPG_OK")
    case True
    with a Cons.prems have "emit_all app w1 ts = (w', st)" by simp
    with Cons.IH append_invar [OF Cons.prems(1) a] obtain k
      where "content w' = content w1 @ concat (take k ts)" by blast
    moreover have "content w1 = content w @ t" using append_ok [OF Cons.prems(1)] a True by simp
    ultimately have "content w' = content w @ concat (take (Suc k) (t # ts))" by simp
    then show ?thesis by blast
  next
    case False
    with a Cons.prems append_refused have "content w' = content w @ concat (take 0 (t # ts))"
      by fastforce
    then show ?thesis by blast
  qed
qed

lemma emit_all_fits:
  "invar w \<Longrightarrow> length (concat ts) < room w \<Longrightarrow> snd (emit_all app w ts) = SPG_OK"
proof (induction ts arbitrary: w)
  case (Cons t ts)
  obtain w1 s1 where a: "app w t = (w1, s1)" by fastforce
  have "s1 = SPG_OK" using append_fits [OF Cons.prems(1), of t] Cons.prems(2) a by simp
  moreover have "room w = room w1 + length t"
    using append_ok [OF Cons.prems(1)] a calculation by simp
  ultimately show ?case
    using Cons.IH [OF append_invar [OF Cons.prems(1) a]] Cons.prems(2) a by simp
qed simp

end

section \<open>The writer is a text sink\<close>

definition writer_ok :: "sexpr_writer \<Rightarrow> bool" where
  "writer_ok w \<longleftrightarrow>
     length (wr_buffer w) = wr_capacity w \<and> wr_used w < wr_capacity w \<and>
     wr_buffer w ! wr_used w = ch_nul"

definition writer_content :: "sexpr_writer \<Rightarrow> string" where
  "writer_content w = take (wr_used w) (wr_buffer w)"

definition writer_room :: "sexpr_writer \<Rightarrow> nat" where
  "writer_room w = (if wr_truncated w then 0 else wr_capacity w - wr_used w)"

lemma buf_write_length: "off + length txt \<le> length buf \<Longrightarrow> length (buf_write buf off txt) = length buf"
  by (simp add: buf_write_def)

lemma writer_init_ok:
  "0 < capacity \<Longrightarrow> length buffer = capacity \<Longrightarrow> writer_ok (spg_sexpr_writer_init capacity buffer)"
  by (auto simp: writer_ok_def spg_sexpr_writer_init_def buf_write_def)

lemma writer_append_ok_iff:
  assumes "writer_ok w"
  shows "snd (spg_sexpr_writer_append_text w t) = SPG_OK \<longleftrightarrow>
         \<not> wr_truncated w \<and> length t < wr_capacity w - wr_used w"
  using assms by (auto simp: spg_sexpr_writer_append_text_def writer_ok_def Let_def)

lemma writer_append_written:
  assumes "writer_ok w" "spg_sexpr_writer_append_text w t = (w', SPG_OK)"
  shows "writer_ok w'" "writer_content w' = writer_content w @ t"
    and "wr_used w' = wr_used w + length t" "wr_capacity w' = wr_capacity w"
    and "\<not> wr_truncated w'" "\<not> wr_truncated w"
proof -
  have fit: "\<not> wr_truncated w" "length t < wr_capacity w - wr_used w"
    using writer_append_ok_iff [OF assms(1), of t] assms(2) by simp_all
  then have "\<not> wr_capacity w - wr_used w - 1 < length t" by simp
  with fit assms have w': "w' = w\<lparr>wr_buffer :=
      buf_write (buf_write (wr_buffer w) (wr_used w) t) (wr_used w + length t) [ch_nul],
      wr_used := wr_used w + length t\<rparr>"
    by (auto simp: spg_sexpr_writer_append_text_def writer_ok_def Let_def split: if_splits)
  let ?b1 = "buf_write (wr_buffer w) (wr_used w) t"
  have len: "length (wr_buffer w) = wr_capacity w" "length ?b1 = wr_capacity w"
    using assms(1) fit by (simp_all add: writer_ok_def buf_write_length)
  have t1: "take (wr_used w + length t) ?b1 = take (wr_used w) (wr_buffer w) @ t"
    using len(1) fit by (simp add: buf_write_def)
  show "writer_ok w'"
    using w' len fit by (simp add: writer_ok_def buf_write_def nth_append)
  show "writer_content w' = writer_content w @ t"
    using w' len fit t1 by (simp add: writer_content_def buf_write_def [of ?b1])
  show "wr_used w' = wr_used w + length t" "wr_capacity w' = wr_capacity w"
    "\<not> wr_truncated w'" "\<not> wr_truncated w"
    using w' fit by simp_all
qed

lemma writer_append_refused:
  assumes "writer_ok w" "spg_sexpr_writer_append_text w t = (w', st)" "st \<noteq> SPG_OK"
  shows "w' = w\<lparr>wr_truncated := True\<rparr>" "st = SPG_E_LIMIT"
  using assms by (auto simp: spg_sexpr_writer_append_text_def writer_ok_def Let_def split: if_splits)

lemma writer_ok_truncated: "writer_ok (w\<lparr>wr_truncated := b\<rparr>) = writer_ok w"
  by (simp add: writer_ok_def)

interpretation wr: text_sink spg_sexpr_writer_append_text writer_content writer_room writer_ok
proof
  fix w w' :: sexpr_writer and t st
  assume ok: "writer_ok w"
  show "spg_sexpr_writer_append_text w t = (w', SPG_OK) \<Longrightarrow>
        writer_content w' = writer_content w @ t \<and> writer_room w = writer_room w' + length t"
    using writer_append_written [OF ok, of t w'] writer_append_ok_iff [OF ok, of t]
    by (simp add: writer_room_def)
  show "spg_sexpr_writer_append_text w t = (w', st) \<Longrightarrow> st \<noteq> SPG_OK \<Longrightarrow>
        writer_content w' = writer_content w"
    using writer_append_refused(1) [OF ok] by (fastforce simp: writer_content_def)
  show "0 < writer_room w \<Longrightarrow> length t < writer_room w \<Longrightarrow>
        snd (spg_sexpr_writer_append_text w t) = SPG_OK"
    using writer_append_ok_iff [OF ok] by (simp add: writer_room_def split: if_splits)
  show "spg_sexpr_writer_append_text w t = (w', st) \<Longrightarrow> writer_ok w'"
    using writer_append_written(1) [OF ok, of t w'] writer_append_refused(1) [OF ok, of t w' st] ok
    by (cases "st = SPG_OK") (simp_all add: writer_ok_truncated)
qed

text \<open>Rendering into a fresh buffer, the way every journal payload is made.\<close>

lemma init_writer: "0 < capacity \<Longrightarrow>
  writer_ok (spg_sexpr_writer_init capacity (replicate capacity ch_nul)) \<and>
  writer_content (spg_sexpr_writer_init capacity (replicate capacity ch_nul)) = [] \<and>
  writer_room (spg_sexpr_writer_init capacity (replicate capacity ch_nul)) = capacity"
  using writer_init_ok [of capacity "replicate capacity ch_nul"]
  by (simp add: writer_content_def writer_room_def) (simp add: spg_sexpr_writer_init_def)

lemma render_fits:
  "length (concat ts) < capacity \<Longrightarrow>
   snd (emit_all spg_sexpr_writer_append_text
          (spg_sexpr_writer_init capacity (replicate capacity ch_nul)) ts) = SPG_OK"
  using wr.emit_all_fits [of "spg_sexpr_writer_init capacity (replicate capacity ch_nul)" ts]
    init_writer [of capacity] by simp

lemma render_ok:
  assumes "0 < capacity" "emit_all spg_sexpr_writer_append_text
      (spg_sexpr_writer_init capacity (replicate capacity ch_nul)) ts = (w, SPG_OK)"
  shows "take (wr_used w) (wr_buffer w) = concat ts"
  using wr.emit_all_ok [OF _ assms(2)] init_writer [OF assms(1)] by (simp add: writer_content_def [of w])


section \<open>Decimal text\<close>

definition is_digit :: "char \<Rightarrow> bool" where
  "is_digit c \<longleftrightarrow> 48 \<le> code_of c \<and> code_of c \<le> 57"

definition dec_value_from :: "nat \<Rightarrow> string \<Rightarrow> nat" where
  "dec_value_from n cs = foldl (\<lambda>a c. a * 10 + (code_of c - 48)) n cs"

lemma dec_value_from_simps [simp]:
  "dec_value_from n [] = n"
  "dec_value_from n (c # cs) = dec_value_from (n * 10 + (code_of c - 48)) cs"
  by (simp_all add: dec_value_from_def)

lemma dec_value_from_ge: "n \<le> dec_value_from n cs"
proof (induction cs arbitrary: n)
  case (Cons c cs)
  have "n \<le> n * 10 + (code_of c - 48)" by simp
  also have "\<dots> \<le> dec_value_from (n * 10 + (code_of c - 48)) cs" by (rule Cons.IH)
  finally show ?case by simp
qed simp

lemma dec_value_from_append: "dec_value_from n (xs @ ys) = dec_value_from (dec_value_from n xs) ys"
  by (simp add: dec_value_from_def)

text \<open>The overflow guard of the digit loop is exact.\<close>

lemma digit_guard:
  fixes v d :: u64
  assumes "unat d \<le> 9"
  shows "(UINT64_MAX - d) div 10 < v \<longleftrightarrow> 2 ^ 64 \<le> unat v * 10 + unat d"
proof -
  have "unat ((UINT64_MAX - d) div 10) = (2 ^ 64 - 1 - unat d) div 10"
    by (simp add: unat_div unat_sub word_order.extremum)
  with assms show ?thesis by (simp add: word_less_nat_alt) arith
qed

lemma digit_step:
  fixes v d :: u64
  assumes "unat v * 10 + unat d < 2 ^ 64"
  shows "unat (v * 10 + d) = unat v * 10 + unat d"
  using assms by (simp add: unat_word_ariths)

lemma parse_digits_spec:
  "parse_digits v cs = Inr r \<longleftrightarrow>
     list_all is_digit cs \<and> dec_value_from (unat v) cs < 2 ^ 64 \<and>
     unat r = dec_value_from (unat v) cs"
proof (induction cs arbitrary: v)
  case Nil
  have "unat v < 2 ^ 64" using unsigned_less [of v] by simp
  then show ?case by (auto simp: word_unat_eq_iff)
next
  case (Cons c cs)
  show ?case
  proof (cases "is_digit c")
    case False
    then show ?thesis by (auto simp: is_digit_def)
  next
    case True
    define d :: u64 where "d = of_nat (code_of c - 48)"
    have "code_of c - 48 \<le> 9" using True by (simp add: is_digit_def le_diff_conv)
    then have ud: "unat d = code_of c - 48" "unat d \<le> 9"
      unfolding d_def by (simp_all only: unat_of_nat) simp_all
    have step: "parse_digits v (c # cs) =
        (if (UINT64_MAX - d) div 10 < v then Inl SPG_E_OVERFLOW else parse_digits (v * 10 + d) cs)"
      using True by (simp add: is_digit_def d_def Let_def)
    show ?thesis
    proof (cases "unat v * 10 + unat d < 2 ^ 64")
      case lt: True
      then have "\<not> (UINT64_MAX - d) div 10 < v" using digit_guard [OF ud(2), of v] by simp
      then show ?thesis using step Cons.IH [of "v * 10 + d"] digit_step [OF lt] True ud(1) by simp
    next
      case False
      then have "(UINT64_MAX - d) div 10 < v" using digit_guard [OF ud(2), of v] by simp
      moreover have "2 ^ 64 \<le> dec_value_from (unat v) (c # cs)"
        using False ud(1) dec_value_from_ge [of "unat v * 10 + (code_of c - 48)" cs] by simp
      ultimately show ?thesis using step by simp
    qed
  qed
qed

lemma digit_char_code: "d < 10 \<Longrightarrow> code_of (digit_char d) = 48 + d"
  by (simp add: digit_char_def)

lemma u64_dec_loop_value:
  "list_all is_digit acc \<Longrightarrow>
   \<exists>ds. u64_dec_loop v acc = ds @ acc \<and> list_all is_digit ds \<and> dec_value_from 0 ds = unat v \<and>
        ds \<noteq> [] \<and> (unat v < 10 ^ k \<longrightarrow> 0 < k \<longrightarrow> length ds \<le> k)"
proof (induction v acc arbitrary: k rule: u64_dec_loop.induct)
  case (1 v acc)
  let ?d = "unat (v mod 10)"
  have d: "?d = unat v mod 10" "?d < 10" by (simp_all add: unat_mod)
  have dig: "is_digit (digit_char ?d)" "code_of (digit_char ?d) - 48 = ?d"
    using d(2) by (simp_all add: is_digit_def digit_char_code)
  show ?case
  proof (cases "v div 10 = 0")
    case True
    then have "unat (v div 10) = 0" by simp
    then have "unat v div 10 = 0" by (simp add: unat_div)
    then have "?d = unat v" using d(1) by simp
    with True dig show ?thesis
      by (intro exI [of _ "[digit_char ?d]"]) (simp add: u64_dec_loop.simps [of v] Let_def)
  next
    case False
    have q: "unat (v div 10) = unat v div 10" by (simp add: unat_div)
    obtain ds where ds: "u64_dec_loop (v div 10) (digit_char ?d # acc) = ds @ digit_char ?d # acc"
        "list_all is_digit ds" "dec_value_from 0 ds = unat v div 10" "ds \<noteq> []"
        "unat v div 10 < 10 ^ (k - 1) \<longrightarrow> 0 < k - 1 \<longrightarrow> length ds \<le> k - 1"
      using "1.IH" [OF refl False, of "k - 1"] "1.prems" dig q by auto
    have len: "length (ds @ [digit_char ?d]) \<le> k" if "unat v < 10 ^ k" "0 < k"
    proof -
      from False q have "0 < unat v div 10" using unat_gt_0 [of "v div 10"] by simp
      then have "10 \<le> unat v" by (simp add: div_greater_zero_iff)
      with that have "k \<noteq> 1" by auto
      with that(2) have "1 < k" by simp
      moreover have "unat v div 10 < 10 ^ (k - 1)"
        using that by (cases k) (auto simp: less_mult_imp_div_less mult.commute)
      ultimately show ?thesis using ds(5) by simp
    qed
    show ?thesis
      using False ds dig d(1) len
      by (intro exI [of _ "ds @ [digit_char ?d]"])
         (simp add: u64_dec_loop.simps [of v] Let_def dec_value_from_append)
  qed
qed

lemma u64_to_dec_value:
  "list_all is_digit (u64_to_dec v)" "dec_value_from 0 (u64_to_dec v) = unat v"
  "u64_to_dec v \<noteq> []" "length (u64_to_dec v) \<le> 20"
proof -
  obtain ds where ds: "u64_to_dec v = ds" "list_all is_digit ds" "dec_value_from 0 ds = unat v"
      "ds \<noteq> []" "unat v < 10 ^ 20 \<longrightarrow> 0 < (20::nat) \<longrightarrow> length ds \<le> 20"
    using u64_dec_loop_value [of "[]" v 20] by (auto simp: u64_to_dec_def)
  have "unat v < 10 ^ 20" using u64_bound [of v] by simp
  with ds show "list_all is_digit (u64_to_dec v)" "dec_value_from 0 (u64_to_dec v) = unat v"
    "u64_to_dec v \<noteq> []" "length (u64_to_dec v) \<le> 20"
    by simp_all
qed

section \<open>Properties\<close>

text \<open>
  C11: \<open>spg_sexpr_parse_uint64_span\<close> accepts exactly the non-empty, in-range spans of decimal
  digits whose value fits 64 bits, and returns that value: the overflow guard refuses no
  value it could hold and lets none wrap.
\<close>

theorem spg_sexpr_parse_uint64_exact:
  "spg_sexpr_parse_uint64_span input sp = Inr v \<longleftrightarrow>
     0 < sp_length sp \<and> spg_sexpr_span_valid (length input) sp \<and>
     list_all is_digit (span_text input sp) \<and>
     dec_value_from 0 (span_text input sp) < 2 ^ 64 \<and>
     unat v = dec_value_from 0 (span_text input sp)"
  using parse_digits_spec [of 0 "span_text input sp" v]
  by (auto simp: spg_sexpr_parse_uint64_span_def)

text \<open>
  C17: a 64-bit value the writer renders is read back unchanged by the parser, whatever
  surrounds it, and its digits and terminator fit the 21-byte buffer of \<open>u64_to_dec\<close>.
\<close>

theorem u64_decimal_roundtrip:
  "spg_sexpr_parse_uint64_span (pre @ u64_to_dec v @ post)
     (mk_span (length pre) (length (u64_to_dec v))) = Inr v \<and>
   length (u64_to_dec v @ [ch_nul]) \<le> 21"
proof -
  have "span_text (pre @ u64_to_dec v @ post) (mk_span (length pre) (length (u64_to_dec v))) =
        u64_to_dec v"
    by (simp add: span_text_def)
  moreover have "unat v < 2 ^ 64" using u64_bound [of v] by simp
  ultimately show ?thesis
    using u64_to_dec_value [of v]
    by (simp add: spg_sexpr_parse_uint64_span_def parse_digits_spec spg_sexpr_span_valid_def)
qed

text \<open>
  C13: the writer is all or nothing. An append either writes the whole text behind what was
  there, keeps the terminator inside the buffer and reports success, or it changes no
  byte, latches \<open>truncated\<close> and reports \<open>SPG_E_LIMIT\<close>; it succeeds exactly when the text and
  the terminator fit and nothing was refused before.
\<close>

theorem writer_append_all_or_nothing:
  assumes "writer_ok w" "spg_sexpr_writer_append_text w txt = (w', st)"
  shows "writer_ok w' \<and> wr_capacity w' = wr_capacity w \<and>
         (if \<not> wr_truncated w \<and> wr_used w + length txt + 1 \<le> wr_capacity w
          then st = SPG_OK \<and> writer_content w' = writer_content w @ txt \<and> \<not> wr_truncated w'
          else st = SPG_E_LIMIT \<and> wr_buffer w' = wr_buffer w \<and> wr_used w' = wr_used w \<and>
               wr_truncated w')"
proof (cases "st = SPG_OK")
  case True
  then have "\<not> wr_truncated w \<and> length txt < wr_capacity w - wr_used w"
    using writer_append_ok_iff [OF assms(1), of "txt"] assms(2) by simp
  then show ?thesis
    using writer_append_written [OF assms(1), of "txt" w'] assms(2) True by auto
next
  case False
  then have "\<not> (\<not> wr_truncated w \<and> length txt < wr_capacity w - wr_used w)"
    using writer_append_ok_iff [OF assms(1), of "txt"] assms(2) by simp
  then have no: "\<not> (\<not> wr_truncated w \<and> wr_used w + length txt + 1 \<le> wr_capacity w)" by auto
  note refused = writer_append_refused [OF assms(1,2) False]
  show ?thesis
    unfolding if_not_P [OF no] using refused assms(1) by (simp add: writer_ok_truncated)
qed

lemma writer_append_all_or_nothing_witness:
  "writer_ok (spg_sexpr_writer_init 4 ''zzzz'') \<and>
   (\<exists>w. spg_sexpr_writer_append_text (spg_sexpr_writer_init 4 ''zzzz'') ''abcd'' = (w, SPG_E_LIMIT) \<and>
        wr_truncated w)"
proof -
  let ?w = "spg_sexpr_writer_init 4 ''zzzz''"
  have ok: "writer_ok ?w" by (rule writer_init_ok) simp_all
  obtain w st where run: "spg_sexpr_writer_append_text ?w ''abcd'' = (w, st)" by fastforce
  have "\<not> (\<not> wr_truncated ?w \<and> wr_used ?w + length ''abcd'' + 1 \<le> wr_capacity ?w)"
    by (simp add: spg_sexpr_writer_init_def)
  then have "st = SPG_E_LIMIT \<and> wr_truncated w"
    using writer_append_all_or_nothing [OF ok run] by metis
  with ok run show ?thesis by simp
qed

end
