(* ===== verification/Budgets.thy ===== *)
theory Budgets
  imports SexprParse SexprWriter
begin

text \<open>
  The run budgets of \<open>include/geistshell/run_config.h\<close> and their parser
  \<open>src/core/budget_config.c\<close>, shared by the run and the policy loaders. A budget list is
  read from a parsed node array: every known name at most once, every required name
  exactly once, an absent optional one as unlimited.
\<close>

record run_budgets =
  bd_inference_steps :: u64
  bd_tokens :: u64
  bd_shell_actions :: u64
  bd_sim_actions :: u64
  bd_memory_actions :: u64
  bd_machine_actions :: u64
  bd_wall_ms :: u64

definition zero_budgets :: run_budgets where
  "zero_budgets = \<lparr>bd_inference_steps = 0, bd_tokens = 0, bd_shell_actions = 0,
     bd_sim_actions = 0, bd_memory_actions = 0, bd_machine_actions = 0, bd_wall_ms = 0\<rparr>"

text \<open>The table: name, optional, fallback; the position is the field's place in the struct.\<close>

definition budget_fields :: "(string \<times> bool \<times> u64) list" where
  "budget_fields =
     [(''inference_steps'', False, 0),
      (''tokens'', False, 0),
      (''shell_actions'', False, 0),
      (''sim_actions'', False, 0),
      (''memory_actions'', True, UINT64_MAX),
      (''machine_actions'', True, UINT64_MAX),
      (''wall_ms'', False, 0)]"

text \<open>The store and the load through \<open>offsetof\<close>.\<close>

definition budget_set :: "nat \<Rightarrow> u64 \<Rightarrow> run_budgets \<Rightarrow> run_budgets" where
  "budget_set i v b =
     (if i = 0 then b\<lparr>bd_inference_steps := v\<rparr> else if i = 1 then b\<lparr>bd_tokens := v\<rparr>
      else if i = 2 then b\<lparr>bd_shell_actions := v\<rparr> else if i = 3 then b\<lparr>bd_sim_actions := v\<rparr>
      else if i = 4 then b\<lparr>bd_memory_actions := v\<rparr> else if i = 5 then b\<lparr>bd_machine_actions := v\<rparr>
      else b\<lparr>bd_wall_ms := v\<rparr>)"

definition budget_get :: "nat \<Rightarrow> run_budgets \<Rightarrow> u64" where
  "budget_get i b =
     (if i = 0 then bd_inference_steps b else if i = 1 then bd_tokens b
      else if i = 2 then bd_shell_actions b else if i = 3 then bd_sim_actions b
      else if i = 4 then bd_memory_actions b else if i = 5 then bd_machine_actions b
      else bd_wall_ms b)"

fun budget_lookup :: "string \<Rightarrow> text_span \<Rightarrow> (string \<times> bool \<times> u64) list \<Rightarrow> nat \<Rightarrow> nat option" where
  "budget_lookup input sp [] i = None"
| "budget_lookup input sp ((name, _) # fs) i =
     (if spg_sexpr_span_eq_cstr input sp name then Some i else budget_lookup input sp fs (Suc i))"

type_synonym err_at = "nat \<times> nat"

definition parse_budget_item ::
  "string \<Rightarrow> sexpr_node list \<Rightarrow> nat \<Rightarrow> run_budgets \<Rightarrow> bool list \<Rightarrow>
     (spg_status \<times> err_at) + (run_budgets \<times> bool list)" where
  "parse_budget_item input nodes item budgets seen =
     (let name_node = spg_sexpr_first_child nodes item;
          value_node = spg_sexpr_second_child nodes item
      in if name_node = INVALID_INDEX \<or> value_node = INVALID_INDEX \<or>
            nd_next_sibling (nodes ! value_node) \<noteq> INVALID_INDEX \<or>
            nd_kind (nodes ! name_node) \<noteq> NODE_SYMBOL \<or>
            nd_kind (nodes ! value_node) \<noteq> NODE_SYMBOL
         then Inl (SPG_E_SCHEMA, item, sp_offset (nd_span (nodes ! item)))
         else (case spg_sexpr_parse_uint64_span input (nd_span (nodes ! value_node)) of
                 Inl st \<Rightarrow> Inl (st, value_node, sp_offset (nd_span (nodes ! value_node)))
               | Inr v \<Rightarrow>
                   (case budget_lookup input (nd_span (nodes ! name_node)) budget_fields 0 of
                      None \<Rightarrow> Inl (SPG_E_SCHEMA, name_node, sp_offset (nd_span (nodes ! name_node)))
                    | Some i \<Rightarrow>
                        if seen ! i then Inl (SPG_E_SCHEMA, item, sp_offset (nd_span (nodes ! item)))
                        else Inr (budget_set i v budgets, seen[i := True]))))"

text \<open>The loop over the items; a failure keeps what was already stored, as \<open>*out\<close> does.\<close>

fun parse_budget_items ::
  "string \<Rightarrow> sexpr_node list \<Rightarrow> nat list \<Rightarrow> run_budgets \<Rightarrow> bool list \<Rightarrow>
     run_budgets \<times> ((spg_status \<times> err_at) + bool list)" where
  "parse_budget_items input nodes [] out seen = (out, Inr seen)"
| "parse_budget_items input nodes (item # items) out seen =
     (if nd_kind (nodes ! item) \<noteq> NODE_LIST
      then (out, Inl (SPG_E_SCHEMA, item, sp_offset (nd_span (nodes ! item))))
      else (case parse_budget_item input nodes item out seen of
              Inl e \<Rightarrow> (out, Inl e)
            | Inr (out', seen') \<Rightarrow> parse_budget_items input nodes items out' seen'))"

fun budget_defaults ::
  "(string \<times> bool \<times> u64) list \<Rightarrow> nat \<Rightarrow> bool list \<Rightarrow> run_budgets \<Rightarrow> run_budgets \<times> bool" where
  "budget_defaults [] i seen out = (out, True)"
| "budget_defaults ((_, optional, fallback) # fs) i seen out =
     (if seen ! i then budget_defaults fs (Suc i) seen out
      else if optional then budget_defaults fs (Suc i) seen (budget_set i fallback out)
      else (out, False))"

definition spg_run_budgets_parse ::
  "string \<Rightarrow> sexpr_node list \<Rightarrow> nat \<Rightarrow> spg_status \<times> run_budgets \<times> err_at option" where
  "spg_run_budgets_parse input nodes budgets_field =
     (case parse_budget_items input nodes
             (siblings nodes (spg_sexpr_second_child nodes budgets_field))
             zero_budgets (replicate (length budget_fields) False) of
        (out, Inl (st, e)) \<Rightarrow> (st, out, Some e)
      | (out, Inr seen) \<Rightarrow>
          (case budget_defaults budget_fields 0 seen out of
             (out', True) \<Rightarrow> (SPG_OK, out', None)
           | (out', False) \<Rightarrow>
               (SPG_E_SCHEMA, out', Some (budgets_field, sp_offset (nd_span (nodes ! budgets_field))))))"

section \<open>What a successful parse means\<close>

lemma budget_index:
  "i < 7 \<longleftrightarrow> i = 0 \<or> i = 1 \<or> i = 2 \<or> i = 3 \<or> i = 4 \<or> i = 5 \<or> i = (6 :: nat)"
  by arith

lemma budget_get_set:
  assumes "i < 7" "j < 7"
  shows "budget_get i (budget_set j v b) = (if i = j then v else budget_get i b)"
  using assms unfolding budget_index
  by (elim disjE; hypsubst; simp add: budget_get_def budget_set_def)

lemma budget_lookup_range:
  "budget_lookup input sp fs i = Some j \<Longrightarrow>
   i \<le> j \<and> j < i + length fs \<and> spg_sexpr_span_eq_cstr input sp (fst (fs ! (j - i)))"
proof (induction fs arbitrary: i)
  case (Cons f fs)
  obtain n r where f: "f = (n, r)" by (cases f)
  show ?case
  proof (cases "spg_sexpr_span_eq_cstr input sp n")
    case True
    then show ?thesis using Cons.prems f by simp
  next
    case False
    with Cons.prems f have "budget_lookup input sp fs (Suc i) = Some j" by simp
    then have "Suc i \<le> j \<and> j < Suc i + length fs \<and>
        spg_sexpr_span_eq_cstr input sp (fst (fs ! (j - Suc i)))"
      by (rule Cons.IH)
    moreover from this have "j - i = Suc (j - Suc i)" by arith
    ultimately show ?thesis by simp
  qed
qed simp

text \<open>An item of the list names field \<open>i\<close> and gives it \<open>v\<close>.\<close>

definition names_budget :: "string \<Rightarrow> sexpr_node list \<Rightarrow> nat \<Rightarrow> nat \<Rightarrow> u64 \<Rightarrow> bool" where
  "names_budget input nodes item i v \<longleftrightarrow>
     budget_lookup input (nd_span (nodes ! spg_sexpr_first_child nodes item)) budget_fields 0 = Some i \<and>
     spg_sexpr_parse_uint64_span input (nd_span (nodes ! spg_sexpr_second_child nodes item)) = Inr v"

lemma parse_budget_item_ok:
  assumes "parse_budget_item input nodes item out seen = Inr (out', seen')"
  obtains i v where "names_budget input nodes item i v" "\<not> seen ! i" "i < 7"
    "out' = budget_set i v out" "seen' = seen[i := True]"
proof -
  from assms obtain i v where *: "names_budget input nodes item i v" "\<not> seen ! i"
    "out' = budget_set i v out" "seen' = seen[i := True]"
    by (auto simp: parse_budget_item_def names_budget_def Let_def
        split: if_splits sum.splits option.splits)
  moreover have "i < 7"
    using * budget_lookup_range
      [of input "nd_span (nodes ! spg_sexpr_first_child nodes item)" budget_fields 0 i]
    by (simp add: names_budget_def budget_fields_def)
  ultimately show thesis using that by blast
qed

lemma names_budget_fun:
  "names_budget input nodes item i v \<Longrightarrow> names_budget input nodes item j w \<Longrightarrow> i = j \<and> v = w"
  by (simp add: names_budget_def)

lemma parse_budget_items_ok:
  assumes "parse_budget_items input nodes items out seen = (out', Inr seen')" "length seen = 7" "i < 7"
  shows "length seen' = 7 \<and>
    (if seen ! i then seen' ! i \<and> budget_get i out' = budget_get i out \<and>
                      (\<forall>item \<in> set items. \<forall>v. \<not> names_budget input nodes item i v)
     else if seen' ! i then
       (\<exists>pre item post. items = pre @ item # post \<and> names_budget input nodes item i (budget_get i out') \<and>
          (\<forall>it \<in> set (pre @ post). \<forall>v. \<not> names_budget input nodes it i v))
     else budget_get i out' = budget_get i out \<and>
          (\<forall>item \<in> set items. \<forall>v. \<not> names_budget input nodes item i v))"
  using assms
proof (induction items arbitrary: out seen)
  case Nil
  then show ?case by auto
next
  case (Cons it items)
  from Cons.prems(1) obtain out1 seen1 where
    one: "parse_budget_item input nodes it out seen = Inr (out1, seen1)" and
    rest: "parse_budget_items input nodes items out1 seen1 = (out', Inr seen')"
    by (auto split: if_splits sum.splits)
  from parse_budget_item_ok [OF one] obtain j v where
    j: "names_budget input nodes it j v" "\<not> seen ! j" "j < 7"
    "out1 = budget_set j v out" "seen1 = seen[j := True]" by blast
  have len: "length seen1 = 7" using j(5) Cons.prems(2) by simp
  note IH = Cons.IH [OF rest len Cons.prems(3)]
  show ?case
  proof (cases "i = j")
    case True
    have "seen1 ! i" using j(5) True Cons.prems(2,3) by simp
    with IH have st: "length seen' = 7" "seen' ! i" "budget_get i out' = budget_get i out1"
      "\<forall>item \<in> set items. \<forall>v. \<not> names_budget input nodes item i v"
      by simp_all
    then have "names_budget input nodes it i (budget_get i out')"
      using j True by (simp add: budget_get_set)
    with st have "\<exists>pre item post. it # items = pre @ item # post \<and>
        names_budget input nodes item i (budget_get i out') \<and>
        (\<forall>x \<in> set (pre @ post). \<forall>v. \<not> names_budget input nodes x i v)"
      by (intro exI [of _ "[]"] exI [of _ it] exI [of _ items]) simp
    with st j(2) True show ?thesis by simp
  next
    case False
    have same: "seen1 ! i = seen ! i" "budget_get i out1 = budget_get i out"
      using j False Cons.prems(3) by (simp_all add: budget_get_set)
    have no: "\<forall>v. \<not> names_budget input nodes it i v" using names_budget_fun j(1) False by blast
    show ?thesis
    proof (cases "\<not> seen ! i \<and> seen' ! i")
      case True
      with IH same obtain pre item post where p: "items = pre @ item # post"
        "names_budget input nodes item i (budget_get i out')"
        "\<forall>x \<in> set (pre @ post). \<forall>v. \<not> names_budget input nodes x i v" by auto
      then have "it # items = (it # pre) @ item # post" by simp
      moreover have "\<forall>x \<in> set ((it # pre) @ post). \<forall>v. \<not> names_budget input nodes x i v"
        using p(3) no by auto
      ultimately have "\<exists>pre item post. it # items = pre @ item # post \<and>
        names_budget input nodes item i (budget_get i out') \<and>
        (\<forall>x \<in> set (pre @ post). \<forall>v. \<not> names_budget input nodes x i v)"
        using p(2) by blast
      with True IH same show ?thesis by simp
    next
      case nn: False
      with IH same no show ?thesis by (auto split: if_splits)
    qed
  qed
qed

lemma parse_digits_status: "parse_digits v cs = Inl st \<Longrightarrow> st \<noteq> SPG_OK"
  by (induction v cs rule: parse_digits.induct) (auto simp: Let_def split: if_splits)

lemma parse_uint64_status: "spg_sexpr_parse_uint64_span input sp = Inl st \<Longrightarrow> st \<noteq> SPG_OK"
  by (auto simp: spg_sexpr_parse_uint64_span_def dest: parse_digits_status split: if_splits)

lemma parse_budget_items_status:
  "parse_budget_items input nodes items out seen = (out', Inl (st, e)) \<Longrightarrow> st \<noteq> SPG_OK"
proof (induction items arbitrary: out seen)
  case (Cons it items)
  show ?case
  proof (cases "parse_budget_item input nodes it out seen")
    case (Inl x)
    then have "fst x \<noteq> SPG_OK"
      by (auto simp: parse_budget_item_def Let_def
          split: if_splits sum.splits option.splits dest: parse_uint64_status)
    with Inl Cons.prems show ?thesis by (auto split: if_splits)
  next
    case (Inr x)
    with Cons show ?thesis by (cases x) (auto split: if_splits)
  qed
qed simp

lemma parse_budget_items_known:
  assumes "parse_budget_items input nodes items out seen = (out', Inr seen')" "item \<in> set items"
  shows "\<exists>i v. i < 7 \<and> names_budget input nodes item i v"
  using assms
proof (induction items arbitrary: out seen)
  case (Cons it items)
  from Cons.prems(1) obtain out1 seen1 where
    one: "parse_budget_item input nodes it out seen = Inr (out1, seen1)" and
    rest: "parse_budget_items input nodes items out1 seen1 = (out', Inr seen')"
    by (auto split: if_splits sum.splits)
  from parse_budget_item_ok [OF one] have "\<exists>i v. i < 7 \<and> names_budget input nodes it i v" by metis
  then show ?case using Cons.IH [OF rest] Cons.prems(2) by auto
qed simp

lemma budget_defaults_ok:
  assumes "budget_defaults fs k seen out = (out', True)" "k + length fs \<le> 7" "i < 7"
  shows "if k \<le> i \<and> i < k + length fs \<and> \<not> seen ! i
         then fst (snd (fs ! (i - k))) \<and> budget_get i out' = snd (snd (fs ! (i - k)))
         else budget_get i out' = budget_get i out"
  using assms
proof (induction fs arbitrary: k out)
  case (Cons f fs)
  obtain n opt fb where f: "f = (n, opt, fb)" by (cases f) auto
  show ?case
  proof (cases "seen ! k")
    case True
    with Cons.prems f have "budget_defaults fs (Suc k) seen out = (out', True)" by simp
    from Cons.IH [OF this] Cons.prems True show ?thesis
      by (cases "i = k") (auto simp: nth_Cons' split: if_splits)
  next
    case False
    with Cons.prems f have opt: opt and
      rec: "budget_defaults fs (Suc k) seen (budget_set k fb out) = (out', True)"
      by (auto split: if_splits)
    from Cons.IH [OF rec] Cons.prems False opt f show ?thesis
      by (cases "i = k") (auto simp: nth_Cons' budget_get_set split: if_splits)
  qed
qed auto

text \<open>C13: A budget list that parses means what it says: every item names a known budget, every
  budget named is named by exactly one item and has that item's number, and a budget no item
  names is an optional one and is unlimited.\<close>
theorem spg_run_budgets_parse_exact:
  assumes "spg_run_budgets_parse input nodes f = (SPG_OK, b, err)" "i < 7"
  shows "(\<forall>item \<in> set (siblings nodes (spg_sexpr_second_child nodes f)).
            \<exists>j v. j < 7 \<and> names_budget input nodes item j v) \<and>
    ((\<exists>pre item post. siblings nodes (spg_sexpr_second_child nodes f) = pre @ item # post \<and>
        names_budget input nodes item i (budget_get i b) \<and>
        (\<forall>it \<in> set (pre @ post). \<forall>v. \<not> names_budget input nodes it i v)) \<or>
     (fst (snd (budget_fields ! i)) \<and> budget_get i b = UINT64_MAX \<and>
      (\<forall>it \<in> set (siblings nodes (spg_sexpr_second_child nodes f)).
         \<forall>v. \<not> names_budget input nodes it i v)))"
proof -
  let ?items = "siblings nodes (spg_sexpr_second_child nodes f)"
  let ?s0 = "replicate 7 False"
  have n7: "length budget_fields = 7" by (simp add: budget_fields_def)
  from assms(1) obtain out seen where
    items: "parse_budget_items input nodes ?items zero_budgets ?s0 = (out, Inr seen)" and
    def: "budget_defaults budget_fields 0 seen out = (b, True)"
    by (auto simp: spg_run_budgets_parse_def n7 split: prod.splits sum.splits bool.splits
        dest: parse_budget_items_status)
  have unseen: "\<not> ?s0 ! i" using assms(2) by simp
  note it = parse_budget_items_ok [OF items _ assms(2), simplified unseen if_False]
  note d = budget_defaults_ok [OF def _ assms(2), simplified n7]
  have fallback: "fst (snd (budget_fields ! i)) \<Longrightarrow> snd (snd (budget_fields ! i)) = UINT64_MAX"
    using assms(2) unfolding budget_index
    by (elim disjE; hypsubst; simp add: budget_fields_def)
  have known: "\<forall>item \<in> set ?items. \<exists>j v. j < 7 \<and> names_budget input nodes item j v"
    using parse_budget_items_known [OF items] by blast
  show ?thesis
  proof (cases "seen ! i")
    case True
    with it d known show ?thesis by (auto split: if_splits)
  next
    case False
    with it d known fallback assms(2) show ?thesis by (auto split: if_splits)
  qed
qed

definition sym :: "nat \<Rightarrow> nat \<Rightarrow> nat \<Rightarrow> nat \<Rightarrow> sexpr_node" where
  "sym off len par next_sib = \<lparr>nd_kind = NODE_SYMBOL, nd_span = mk_span off len, nd_parent = par,
     nd_first_child = INVALID_INDEX, nd_next_sibling = next_sib, nd_last_child = INVALID_INDEX\<rparr>"

definition lst :: "nat \<Rightarrow> nat \<Rightarrow> nat \<Rightarrow> sexpr_node" where
  "lst par first next_sib = \<lparr>nd_kind = NODE_LIST, nd_span = mk_span 0 1, nd_parent = par,
     nd_first_child = first, nd_next_sibling = next_sib, nd_last_child = INVALID_INDEX\<rparr>"

definition budget_text :: string where
  "budget_text = ''inference_steps tokens shell_actions sim_actions wall_ms 8 4096''"

definition budget_nodes :: "sexpr_node list" where
  "budget_nodes =
    [lst INVALID_INDEX 1 INVALID_INDEX, sym 16 6 0 2,
     lst 0 3 5, sym 0 15 2 4, sym 57 1 2 INVALID_INDEX,
     lst 0 6 8, sym 16 6 5 7, sym 59 4 5 INVALID_INDEX,
     lst 0 9 11, sym 23 13 8 10, sym 57 1 8 INVALID_INDEX,
     lst 0 12 14, sym 37 11 11 13, sym 57 1 11 INVALID_INDEX,
     lst 0 15 INVALID_INDEX, sym 49 7 14 16, sym 57 1 14 INVALID_INDEX]"

definition budget_sample :: run_budgets where
  "budget_sample = \<lparr>bd_inference_steps = 8, bd_tokens = 4096, bd_shell_actions = 8,
     bd_sim_actions = 8, bd_memory_actions = UINT64_MAX, bd_machine_actions = UINT64_MAX,
     bd_wall_ms = 8\<rparr>"

lemma budget_sample_parse:
  "spg_run_budgets_parse budget_text budget_nodes 0 = (SPG_OK, budget_sample, None)"
  by code_simp

theorem spg_run_budgets_parse_exact_witness:
  "\<exists>pre item post. siblings budget_nodes (spg_sexpr_second_child budget_nodes 0) = pre @ item # post \<and>
     names_budget budget_text budget_nodes item 1 4096 \<and>
     (\<forall>it \<in> set (pre @ post). \<forall>v. \<not> names_budget budget_text budget_nodes it 1 v)"
  using spg_run_budgets_parse_exact [OF budget_sample_parse, of 1]
  by (simp add: budget_sample_def budget_get_def budget_fields_def)

text \<open>When the parse fails, what the caller's budgets then hold is not the zero the header
  promises: every value stored before the failing item stays.\<close>
theorem budgets_failure_keeps_values:
  "\<exists>input nodes. (case spg_run_budgets_parse input nodes 0 of (st, out, _) \<Rightarrow>
     st = SPG_E_SCHEMA \<and> out \<noteq> zero_budgets)"
proof -
  have "spg_run_budgets_parse budget_text (take 5 (budget_nodes[2 := lst 0 3 INVALID_INDEX])) 0 =
      (SPG_E_SCHEMA, zero_budgets\<lparr>bd_inference_steps := 8, bd_memory_actions := 0\<rparr>, Some (0, 0))"
    by code_simp
  moreover have "zero_budgets\<lparr>bd_inference_steps := 8, bd_memory_actions := 0\<rparr> \<noteq> zero_budgets"
    by (simp add: zero_budgets_def)
  ultimately show ?thesis 
    by (intro exI [of _ budget_text] exI [of _ "take 5 (budget_nodes[2 := lst 0 3 INVALID_INDEX])"])
       (simp only: prod.case simp_thms)
qed

end
