(* ===== verification/Schema.thy ===== *)
theory Schema
  imports SexprParse
begin

text \<open>
  The S-expression schema validator (\<open>src/dsl/schema.c\<close>, \<open>include/geistshell/schema.h\<close>)
  that guards every configuration loader. A schema lists forms, a form lists fields with
  the kind and number of their values. The code's loops over \<open>next_sibling\<close> are the lists
  \<open>siblings\<close>; an error is the triple (status, node, offset) of \<open>spg_schema_error\<close>.
  The validator is proved equivalent to a declarative reading of the schema.
\<close>

datatype schema_value_kind = VALUE_ANY | VALUE_SYMBOL | VALUE_STRING | VALUE_LIST

record field_rule =
  fr_name :: string
  fr_value_kind :: schema_value_kind
  fr_min_values :: nat
  fr_max_values :: nat
  fr_required :: bool
  fr_unique :: bool

record form_rule =
  fo_name :: string
  fo_field_rules :: "field_rule list"
  fo_allow_unknown_fields :: bool
  fo_min_fields :: nat
  fo_max_fields :: nat

record schema =
  sc_form_rules :: "form_rule list"
  sc_allow_unknown_top_level_forms :: bool
  sc_max_top_level_forms :: nat
  sc_max_depth :: nat

type_synonym schema_error = "spg_status \<times> nat \<times> nat"

definition schema_fail :: "sexpr_node list \<Rightarrow> nat \<Rightarrow> schema_error option" where
  "schema_fail nodes i = Some (SPG_E_SCHEMA, i, sp_offset (nd_span (nodes ! i)))"

definition named :: "string \<Rightarrow> sexpr_node list \<Rightarrow> nat \<Rightarrow> string \<Rightarrow> bool" where
  "named input nodes i name \<longleftrightarrow>
     nd_first_child (nodes ! i) \<noteq> INVALID_INDEX \<and>
     nd_kind (nodes ! nd_first_child (nodes ! i)) = NODE_SYMBOL \<and>
     spg_sexpr_span_eq_cstr input (nd_span (nodes ! nd_first_child (nodes ! i))) name"

fun find_form_rule :: "string \<Rightarrow> sexpr_node list \<Rightarrow> nat \<Rightarrow> form_rule list \<Rightarrow> form_rule option" where
  "find_form_rule input nodes i [] = None"
| "find_form_rule input nodes i (r # rs) =
     (if named input nodes i (fo_name r) then Some r else find_form_rule input nodes i rs)"

fun find_field_rule :: "string \<Rightarrow> sexpr_node list \<Rightarrow> nat \<Rightarrow> field_rule list \<Rightarrow> field_rule option" where
  "find_field_rule input nodes i [] = None"
| "find_field_rule input nodes i (r # rs) =
     (if named input nodes i (fr_name r) then Some r else find_field_rule input nodes i rs)"

definition child_count :: "sexpr_node list \<Rightarrow> nat \<Rightarrow> nat" where
  "child_count nodes parent = length (siblings nodes (nd_first_child (nodes ! parent)))"

text \<open>The loop over the parents of one node stops at the depth limit, so it always ends.\<close>

function depth_walk :: "sexpr_node list \<Rightarrow> nat \<Rightarrow> nat \<Rightarrow> nat \<Rightarrow> bool" where
  "depth_walk nodes max_depth depth parent =
     (if parent = INVALID_INDEX then True
      else if Suc depth > max_depth then False
      else depth_walk nodes max_depth (Suc depth) (nd_parent (nodes ! parent)))"
  by pat_completeness auto
termination by (relation "measure (\<lambda>(_, m, d, _). m - d)") auto

declare depth_walk.simps [simp del]

fun depth_scan :: "sexpr_node list \<Rightarrow> nat \<Rightarrow> nat list \<Rightarrow> schema_error option" where
  "depth_scan nodes max_depth [] = None"
| "depth_scan nodes max_depth (i # is) =
     (if depth_walk nodes max_depth 1 (nd_parent (nodes ! i)) then depth_scan nodes max_depth is
      else schema_fail nodes i)"

definition validate_depth :: "sexpr_node list \<Rightarrow> schema \<Rightarrow> schema_error option" where
  "validate_depth nodes schema =
     (if sc_max_depth schema = 0 then None
      else depth_scan nodes (sc_max_depth schema) [0..<length nodes])"

fun value_kind_matches :: "schema_value_kind \<Rightarrow> node_kind \<Rightarrow> bool" where
  "value_kind_matches VALUE_ANY actual = True"
| "value_kind_matches VALUE_SYMBOL actual = (actual = NODE_SYMBOL)"
| "value_kind_matches VALUE_STRING actual = (actual = NODE_STRING)"
| "value_kind_matches VALUE_LIST actual = (actual = NODE_LIST)"

fun check_values :: "sexpr_node list \<Rightarrow> schema_value_kind \<Rightarrow> nat list \<Rightarrow> schema_error option" where
  "check_values nodes k [] = None"
| "check_values nodes k (v # vs) =
     (if value_kind_matches k (nd_kind (nodes ! v)) then check_values nodes k vs
      else schema_fail nodes v)"

definition validate_field_values ::
  "sexpr_node list \<Rightarrow> nat \<Rightarrow> field_rule \<Rightarrow> schema_error option" where
  "validate_field_values nodes field rule =
     (let total = child_count nodes field
      in if total = 0 then schema_fail nodes field
         else if total - 1 < fr_min_values rule \<or> total - 1 > fr_max_values rule
         then schema_fail nodes field
         else check_values nodes (fr_value_kind rule)
                (siblings nodes (nd_next_sibling (nodes ! nd_first_child (nodes ! field)))))"

text \<open>One rule over the form's fields; the result is the error or the number of matches.\<close>

fun check_rule ::
  "string \<Rightarrow> sexpr_node list \<Rightarrow> field_rule \<Rightarrow> nat \<Rightarrow> nat list \<Rightarrow> schema_error + nat" where
  "check_rule input nodes rule matches [] = Inr matches"
| "check_rule input nodes rule matches (field # flds) =
     (if nd_kind (nodes ! field) \<noteq> NODE_LIST
      then Inl (SPG_E_SCHEMA, field, sp_offset (nd_span (nodes ! field)))
      else if named input nodes field (fr_name rule)
      then (if fr_unique rule \<and> Suc matches > 1
            then Inl (SPG_E_SCHEMA, field, sp_offset (nd_span (nodes ! field)))
            else (case validate_field_values nodes field rule of
                    Some e \<Rightarrow> Inl e
                  | None \<Rightarrow> check_rule input nodes rule (Suc matches) flds))
      else check_rule input nodes rule matches flds)"

fun check_rules ::
  "string \<Rightarrow> sexpr_node list \<Rightarrow> nat \<Rightarrow> nat list \<Rightarrow> field_rule list \<Rightarrow> schema_error option" where
  "check_rules input nodes form flds [] = None"
| "check_rules input nodes form flds (rule # rules) =
     (case check_rule input nodes rule 0 flds of
        Inl e \<Rightarrow> Some e
      | Inr matches \<Rightarrow>
          if fr_required rule \<and> matches = 0 then schema_fail nodes form
          else check_rules input nodes form flds rules)"

fun check_unknown ::
  "string \<Rightarrow> sexpr_node list \<Rightarrow> field_rule list \<Rightarrow> nat list \<Rightarrow> schema_error option" where
  "check_unknown input nodes rules [] = None"
| "check_unknown input nodes rules (field # flds) =
     (if nd_kind (nodes ! field) \<noteq> NODE_LIST \<or> find_field_rule input nodes field rules = None
      then schema_fail nodes field
      else check_unknown input nodes rules flds)"

definition validate_form_fields ::
  "string \<Rightarrow> sexpr_node list \<Rightarrow> nat \<Rightarrow> form_rule \<Rightarrow> schema_error option" where
  "validate_form_fields input nodes form rule =
     (let total = child_count nodes form;
          flds = siblings nodes (nd_next_sibling (nodes ! nd_first_child (nodes ! form)))
      in if total = 0 then schema_fail nodes form
         else if total - 1 < fo_min_fields rule \<or> total - 1 > fo_max_fields rule
         then schema_fail nodes form
         else (case check_rules input nodes form flds (fo_field_rules rule) of
                 Some e \<Rightarrow> Some e
               | None \<Rightarrow>
                   if fo_allow_unknown_fields rule then None
                   else check_unknown input nodes (fo_field_rules rule) flds))"

text \<open>The main loop over all nodes, skipping those that have a parent.\<close>

fun check_forms ::
  "string \<Rightarrow> sexpr_node list \<Rightarrow> schema \<Rightarrow> nat \<Rightarrow> nat list \<Rightarrow> schema_error option" where
  "check_forms input nodes schema count [] = None"
| "check_forms input nodes schema count (i # is) =
     (if nd_parent (nodes ! i) \<noteq> INVALID_INDEX then check_forms input nodes schema count is
      else if sc_max_top_level_forms schema > 0 \<and> Suc count > sc_max_top_level_forms schema
      then schema_fail nodes i
      else if nd_kind (nodes ! i) \<noteq> NODE_LIST then schema_fail nodes i
      else (case find_form_rule input nodes i (sc_form_rules schema) of
              None \<Rightarrow>
                if sc_allow_unknown_top_level_forms schema
                then check_forms input nodes schema (Suc count) is
                else schema_fail nodes i
            | Some rule \<Rightarrow>
                (case validate_form_fields input nodes i rule of
                   Some e \<Rightarrow> Some e
                 | None \<Rightarrow> check_forms input nodes schema (Suc count) is)))"

definition spg_schema_validate :: "string \<Rightarrow> sexpr_node list \<Rightarrow> schema \<Rightarrow> schema_error" where
  "spg_schema_validate input nodes schema =
     (case validate_depth nodes schema of
        Some e \<Rightarrow> e
      | None \<Rightarrow>
          (case check_forms input nodes schema 0 [0..<length nodes] of
             Some e \<Rightarrow> e
           | None \<Rightarrow> (SPG_OK, INVALID_INDEX, 0)))"

section \<open>The declarative reading\<close>

text \<open>\<open>node_depth nodes i d\<close>: the chain of parents from \<open>i\<close> has \<open>d\<close> nodes.\<close>

inductive node_depth :: "sexpr_node list \<Rightarrow> nat \<Rightarrow> nat \<Rightarrow> bool" for nodes where
  outside: "node_depth nodes INVALID_INDEX 0"
| inner: "node_depth nodes i (Suc d)"
    if "i \<noteq> INVALID_INDEX" "node_depth nodes (nd_parent (nodes ! i)) d"

inductive_cases node_depth_outsideE: "node_depth nodes INVALID_INDEX d"
inductive_simps node_depth_inner: "node_depth nodes i d"

definition values_conform :: "sexpr_node list \<Rightarrow> nat \<Rightarrow> field_rule \<Rightarrow> bool" where
  "values_conform nodes field rule \<longleftrightarrow>
     (case kids nodes field of
        [] \<Rightarrow> False
      | _ # vs \<Rightarrow> fr_min_values rule \<le> length vs \<and> length vs \<le> fr_max_values rule \<and>
          (\<forall>v \<in> set vs. value_kind_matches (fr_value_kind rule) (nd_kind (nodes ! v))))"

definition rule_conform :: "string \<Rightarrow> sexpr_node list \<Rightarrow> nat list \<Rightarrow> field_rule \<Rightarrow> bool" where
  "rule_conform input nodes flds rule \<longleftrightarrow>
     (\<forall>f \<in> set flds. nd_kind (nodes ! f) = NODE_LIST) \<and>
     (let found = filter (\<lambda>f. named input nodes f (fr_name rule)) flds
      in (\<forall>f \<in> set found. values_conform nodes f rule) \<and>
         (fr_unique rule \<longrightarrow> length found \<le> 1) \<and> (fr_required rule \<longrightarrow> found \<noteq> []))"

definition form_conform :: "string \<Rightarrow> sexpr_node list \<Rightarrow> nat \<Rightarrow> form_rule \<Rightarrow> bool" where
  "form_conform input nodes form rule \<longleftrightarrow>
     (case kids nodes form of
        [] \<Rightarrow> False
      | _ # flds \<Rightarrow> fo_min_fields rule \<le> length flds \<and> length flds \<le> fo_max_fields rule \<and>
          (\<forall>r \<in> set (fo_field_rules rule). rule_conform input nodes flds r) \<and>
          (fo_allow_unknown_fields rule \<or>
           (\<forall>f \<in> set flds. nd_kind (nodes ! f) = NODE_LIST \<and>
              (\<exists>r \<in> set (fo_field_rules rule). named input nodes f (fr_name r)))))"

definition root_conform :: "string \<Rightarrow> sexpr_node list \<Rightarrow> schema \<Rightarrow> nat \<Rightarrow> bool" where
  "root_conform input nodes schema i \<longleftrightarrow>
     nd_kind (nodes ! i) = NODE_LIST \<and>
     (case find_form_rule input nodes i (sc_form_rules schema) of
        None \<Rightarrow> sc_allow_unknown_top_level_forms schema
      | Some rule \<Rightarrow> form_conform input nodes i rule)"

definition conforms :: "string \<Rightarrow> sexpr_node list \<Rightarrow> schema \<Rightarrow> bool" where
  "conforms input nodes schema \<longleftrightarrow>
     (sc_max_depth schema = 0 \<or>
      (\<forall>i < length nodes. \<exists>d. node_depth nodes (nd_parent (nodes ! i)) d \<and>
         Suc d \<le> sc_max_depth schema)) \<and>
     (let roots = filter (\<lambda>i. nd_parent (nodes ! i) = INVALID_INDEX) [0..<length nodes]
      in (sc_max_top_level_forms schema = 0 \<or> length roots \<le> sc_max_top_level_forms schema) \<and>
         (\<forall>i \<in> set roots. root_conform input nodes schema i))"

section \<open>The validator decides conformance\<close>

lemma schema_fail_not_None [simp]: "schema_fail nodes i \<noteq> None" "None \<noteq> schema_fail nodes i"
  by (simp_all add: schema_fail_def)

lemma depth_walk_iff:
  "depth \<le> m \<Longrightarrow>
   depth_walk nodes m depth p \<longleftrightarrow> (\<exists>d. node_depth nodes p d \<and> depth + d \<le> m)"
proof (induction nodes m depth p rule: depth_walk.induct)
  case (1 nodes m depth p)
  show ?case
  proof (cases "p = INVALID_INDEX")
    case True
    then show ?thesis using "1.prems" node_depth.outside [of nodes]
      by (auto simp: depth_walk.simps [of nodes m depth] intro!: exI [of _ 0])
  next
    case False
    have "(\<exists>d. node_depth nodes p d \<and> depth + d \<le> m) \<longleftrightarrow>
        (\<exists>d. node_depth nodes (nd_parent (nodes ! p)) d \<and> Suc depth + d \<le> m)"
      using False by (subst node_depth_inner) auto
    then show ?thesis
      using "1.IH" False by (cases "Suc depth \<le> m") (auto simp: depth_walk.simps [of nodes m depth p])
  qed
qed

lemma depth_scan_iff:
  "depth_scan nodes m is = None \<longleftrightarrow> (\<forall>i \<in> set is. depth_walk nodes m 1 (nd_parent (nodes ! i)))"
  by (induction "is") auto

lemma check_values_iff:
  "check_values nodes k vs = None \<longleftrightarrow> (\<forall>v \<in> set vs. value_kind_matches k (nd_kind (nodes ! v)))"
  by (induction vs) auto

lemma child_count_kids: "forest_ok nodes \<Longrightarrow> p < length nodes \<Longrightarrow> child_count nodes p = length (kids nodes p)"
  using siblings_kids [of nodes p] by (simp add: child_count_def spg_sexpr_first_child_def)

lemma rest_kids:
  assumes "forest_ok nodes" "p < length nodes" "kids nodes p = c # cs"
  shows "siblings nodes (nd_next_sibling (nodes ! nd_first_child (nodes ! p))) = cs"
proof -
  have "nd_first_child (nodes ! p) = c" "c \<noteq> INVALID_INDEX"
    using forest_okD(5) [OF assms(1,2)] kids_no_invalid [OF forest_okD(1) [OF assms(1)], of c p] assms(3)
    by (auto simp: head_or_invalid_def spg_sexpr_first_child_def)
  then show ?thesis
    using siblings_second [OF assms(1,2)] assms(3) by (simp add: spg_sexpr_second_child_def)
qed

lemma validate_field_values_iff:
  assumes "forest_ok nodes" "f < length nodes"
  shows "validate_field_values nodes f rule = None \<longleftrightarrow> values_conform nodes f rule"
proof (cases "kids nodes f")
  case Nil
  then show ?thesis
    using assms by (simp add: validate_field_values_def values_conform_def child_count_kids)
next
  case (Cons c cs)
  then show ?thesis
    using assms rest_kids [OF assms Cons]
    by (auto simp: validate_field_values_def values_conform_def child_count_kids Let_def
        check_values_iff)
qed

lemma check_rule_count:
  "check_rule input nodes rule m flds = Inr k \<Longrightarrow>
   k = m + length (filter (\<lambda>f. named input nodes f (fr_name rule)) flds)"
proof (induction flds arbitrary: m)
  case (Cons f flds)
  show ?case
  proof (cases "named input nodes f (fr_name rule)")
    case True
    with Cons.prems have "check_rule input nodes rule (Suc m) flds = Inr k"
      by (auto split: if_splits option.splits)
    from Cons.IH [OF this] True show ?thesis by simp
  next
    case False
    with Cons.prems have "check_rule input nodes rule m flds = Inr k" by (auto split: if_splits)
    from Cons.IH [OF this] False show ?thesis by simp
  qed
qed simp

lemma check_rule_iff:
  assumes "forest_ok nodes" "\<forall>f \<in> set flds. f < length nodes"
  shows "(\<exists>k. check_rule input nodes rule m flds = Inr k) \<longleftrightarrow>
           (\<forall>f \<in> set flds. nd_kind (nodes ! f) = NODE_LIST) \<and>
           (let found = filter (\<lambda>f. named input nodes f (fr_name rule)) flds
            in (\<forall>f \<in> set found. values_conform nodes f rule) \<and>
               (fr_unique rule \<longrightarrow> found = [] \<or> m + length found \<le> 1))"
  using assms(2)
proof (induction flds arbitrary: m)
  case (Cons f flds)
  have v: "validate_field_values nodes f rule = None \<longleftrightarrow> values_conform nodes f rule"
    using Cons.prems validate_field_values_iff [OF assms(1)] by simp
  have below: "\<forall>f \<in> set flds. f < length nodes" using Cons.prems by simp
  show ?case
  proof (cases "nd_kind (nodes ! f) = NODE_LIST \<and> named input nodes f (fr_name rule)")
    case True
    show ?thesis
    proof (cases "validate_field_values nodes f rule")
      case None
      with True v Cons.IH [OF below, of "Suc m"] show ?thesis by (auto simp: Let_def)
    next
      case (Some e)
      with True v show ?thesis by (simp add: Let_def)
    qed
  next
    case False
    with Cons.IH [OF below, of m] show ?thesis by (auto simp: Let_def)
  qed
qed simp

lemma check_rules_iff:
  assumes "forest_ok nodes" "\<forall>f \<in> set flds. f < length nodes"
  shows "check_rules input nodes form flds rules = None \<longleftrightarrow>
           (\<forall>r \<in> set rules. rule_conform input nodes flds r)"
proof (induction rules)
  case (Cons r rules)
  let ?found = "filter (\<lambda>f. named input nodes f (fr_name r)) flds"
  note iff = check_rule_iff [OF assms, of input r 0]
  show ?case
  proof (cases "check_rule input nodes r 0 flds")
    case (Inl e)
    then have "\<not> rule_conform input nodes flds r"
      using iff by (auto simp: rule_conform_def Let_def)
    then show ?thesis using Inl by simp
  next
    case (Inr k)
    then have "rule_conform input nodes flds r \<longleftrightarrow> (fr_required r \<longrightarrow> k \<noteq> 0)"
      using iff check_rule_count [OF Inr] by (auto simp: rule_conform_def Let_def)
    then show ?thesis using Inr Cons.IH by simp
  qed
qed simp

lemma find_field_rule_iff:
  "find_field_rule input nodes f rules = None \<longleftrightarrow>
   \<not> (\<exists>r \<in> set rules. named input nodes f (fr_name r))"
  by (induction rules) auto

lemma check_unknown_iff:
  "check_unknown input nodes rules flds = None \<longleftrightarrow>
   (\<forall>f \<in> set flds. nd_kind (nodes ! f) = NODE_LIST \<and>
      (\<exists>r \<in> set rules. named input nodes f (fr_name r)))"
  by (induction flds) (auto simp: find_field_rule_iff)

lemma validate_form_fields_iff:
  assumes "forest_ok nodes" "i < length nodes"
  shows "validate_form_fields input nodes i rule = None \<longleftrightarrow> form_conform input nodes i rule"
proof (cases "kids nodes i")
  case Nil
  then show ?thesis
    using assms by (simp add: validate_form_fields_def form_conform_def child_count_kids)
next
  case (Cons c cs)
  have "\<forall>f \<in> set cs. f < length nodes" using kids_less [of _ nodes i] Cons by auto
  note rules = check_rules_iff [OF assms(1) this, of input i "fo_field_rules rule"]
  note eq = rest_kids [OF assms Cons]
  show ?thesis
  proof (cases "check_rules input nodes i cs (fo_field_rules rule)")
    case None
    with Cons assms rules show ?thesis
      by (auto simp: validate_form_fields_def form_conform_def child_count_kids eq check_unknown_iff)
  next
    case (Some e)
    with Cons assms rules show ?thesis
      by (simp add: validate_form_fields_def form_conform_def child_count_kids eq)
  qed
qed

lemma check_forms_iff:
  assumes "forest_ok nodes" "\<forall>i \<in> set is. i < length nodes"
  shows "check_forms input nodes schema count is = None \<longleftrightarrow>
    (let roots = filter (\<lambda>i. nd_parent (nodes ! i) = INVALID_INDEX) is
     in (sc_max_top_level_forms schema = 0 \<or> roots = [] \<or>
         count + length roots \<le> sc_max_top_level_forms schema) \<and>
        (\<forall>i \<in> set roots. root_conform input nodes schema i))"
  using assms(2)
proof (induction "is" arbitrary: count)
  case (Cons i "is")
  have below: "\<forall>i \<in> set is. i < length nodes" using Cons.prems by simp
  have form: "validate_form_fields input nodes i r = None \<longleftrightarrow> form_conform input nodes i r" for r
    using Cons.prems validate_form_fields_iff [OF assms(1)] by simp
  show ?case
  proof (cases "nd_parent (nodes ! i) = INVALID_INDEX")
    case False
    then show ?thesis using Cons.IH [OF below] by simp
  next
    case True
    have root: "root_conform input nodes schema i \<longleftrightarrow> nd_kind (nodes ! i) = NODE_LIST \<and>
      (case find_form_rule input nodes i (sc_form_rules schema) of
         None \<Rightarrow> sc_allow_unknown_top_level_forms schema
       | Some r \<Rightarrow> validate_form_fields input nodes i r = None)"
      by (simp add: root_conform_def form split: option.splits)
    show ?thesis
      using True Cons.IH [OF below, of "Suc count"] root
      by (auto simp: Let_def split: option.splits)
  qed
qed simp

text \<open>Every error of the validator has the status \<open>SPG_E_SCHEMA\<close>.\<close>

lemma schema_fail_status: "schema_fail nodes i = Some e \<Longrightarrow> fst e = SPG_E_SCHEMA"
  by (auto simp: schema_fail_def)

lemma validate_depth_status: "validate_depth nodes schema = Some e \<Longrightarrow> fst e = SPG_E_SCHEMA"
proof -
  have "depth_scan nodes m is = Some e \<Longrightarrow> fst e = SPG_E_SCHEMA" for m "is"
    by (induction "is") (auto split: if_splits dest: schema_fail_status)
  then show "validate_depth nodes schema = Some e \<Longrightarrow> fst e = SPG_E_SCHEMA"
    by (auto simp: validate_depth_def split: if_splits)
qed

lemma check_values_status: "check_values nodes k vs = Some e \<Longrightarrow> fst e = SPG_E_SCHEMA"
  by (induction vs) (auto split: if_splits dest: schema_fail_status)

lemma check_rule_status: "check_rule input nodes rule m flds = Inl e \<Longrightarrow> fst e = SPG_E_SCHEMA"
  by (induction flds arbitrary: m)
     (auto simp: validate_field_values_def Let_def split: if_splits option.splits
       dest: schema_fail_status check_values_status)

lemma check_rules_status:
  "check_rules input nodes form flds rules = Some e \<Longrightarrow> fst e = SPG_E_SCHEMA"
  by (induction rules)
     (auto split: if_splits sum.splits dest: schema_fail_status check_rule_status)

lemma check_unknown_status:
  "check_unknown input nodes rules flds = Some e \<Longrightarrow> fst e = SPG_E_SCHEMA"
  by (induction flds) (auto split: if_splits dest: schema_fail_status)

lemma check_forms_status:
  "check_forms input nodes schema count is = Some e \<Longrightarrow> fst e = SPG_E_SCHEMA"
  by (induction "is" arbitrary: count)
     (auto simp: validate_form_fields_def Let_def split: if_splits option.splits
       dest: schema_fail_status check_rules_status check_unknown_status)

lemma validate_decides:
  assumes "forest_ok nodes"
  shows "fst (spg_schema_validate input nodes schema) = SPG_OK \<longleftrightarrow> conforms input nodes schema"
proof -
  have depth: "validate_depth nodes schema = None \<longleftrightarrow> sc_max_depth schema = 0 \<or>
      (\<forall>i < length nodes. \<exists>d. node_depth nodes (nd_parent (nodes ! i)) d \<and>
         Suc d \<le> sc_max_depth schema)"
    by (auto simp: validate_depth_def depth_scan_iff depth_walk_iff)
  have forms: "check_forms input nodes schema 0 [0..<length nodes] = None \<longleftrightarrow>
      (let roots = filter (\<lambda>i. nd_parent (nodes ! i) = INVALID_INDEX) [0..<length nodes]
       in (sc_max_top_level_forms schema = 0 \<or> length roots \<le> sc_max_top_level_forms schema) \<and>
          (\<forall>i \<in> set roots. root_conform input nodes schema i))"
    using check_forms_iff [OF assms, of "[0..<length nodes]" input schema 0]
    by (auto simp: Let_def)
  have "fst (spg_schema_validate input nodes schema) = SPG_OK \<longleftrightarrow>
      validate_depth nodes schema = None \<and>
      check_forms input nodes schema 0 [0..<length nodes] = None"
    using validate_depth_status check_forms_status
    by (auto simp: spg_schema_validate_def split: option.splits)
  then show ?thesis by (simp only: depth forms conforms_def)
qed

lemma validate_ok_conforms:
  "forest_ok nodes \<Longrightarrow> fst (spg_schema_validate input nodes schema) = SPG_OK \<Longrightarrow>
   conforms input nodes schema"
  by (simp add: validate_decides)

text \<open>C12: The validator accepts a node array exactly when it conforms to the schema: every node
  within the depth limit, at most the permitted top-level forms, each a list with a known name
  (unless unknown ones are allowed), each with a permitted number of fields, every field rule
  met (kinds and number of values, uniqueness, presence), no unknown field unless allowed.\<close>
theorem spg_schema_validate_iff:
  assumes "forest_ok nodes"
  shows "fst (spg_schema_validate input nodes schema) = SPG_OK \<longleftrightarrow> conforms input nodes schema"
  using assms by (rule validate_decides)

definition seed_text :: string where
  "seed_text = ''(run (seed 7))''"

definition seed_nodes :: "sexpr_node list" where
  "seed_nodes = fst (snd (snd (spg_sexpr_parse_text seed_text 8 8)))"

definition seed_schema :: schema where
  "seed_schema = \<lparr>sc_form_rules =
     [\<lparr>fo_name = ''run'', fo_field_rules =
        [\<lparr>fr_name = ''seed'', fr_value_kind = VALUE_SYMBOL, fr_min_values = 1, fr_max_values = 1,
          fr_required = True, fr_unique = True\<rparr>],
        fo_allow_unknown_fields = False, fo_min_fields = 1, fo_max_fields = 1\<rparr>],
     sc_allow_unknown_top_level_forms = False, sc_max_top_level_forms = 1, sc_max_depth = 3\<rparr>"

lemma seed_nodes_forest: "forest_ok seed_nodes"
  by code_simp

theorem spg_schema_validate_iff_witness: "conforms seed_text seed_nodes seed_schema"
proof -
  have "fst (spg_schema_validate seed_text seed_nodes seed_schema) = SPG_OK"
    by code_simp
  then show ?thesis by (simp only: spg_schema_validate_iff [OF seed_nodes_forest])
qed

end
