(* ===== verification/RunConfig.thy ===== *)
theory RunConfig
  imports Budgets Schema
begin

text \<open>
  The run configuration loader (\<open>src/core/run_config.c\<close>): schema, field lookup and the
  assignments into \<open>struct spg_run_config\<close>, in the order of the code; a failing step leaves
  what was already assigned. What the schema guarantees to the lookups is proved here, and
  which of the optional fields one file may combine.
\<close>

record run_config =
  rc_model_path :: text_span
  rc_policy_path :: text_span
  rc_scenario_path :: text_span
  rc_corpus_manifest_path :: text_span
  rc_journal_path :: text_span
  rc_seed :: u64
  rc_budgets :: run_budgets
  rc_has_expect :: bool
  rc_expect_observation :: text_span
  rc_has_goal :: bool
  rc_goal :: text_span
  rc_has_post_check :: bool
  rc_post_check :: text_span

definition zero_run_config :: run_config where
  "zero_run_config = \<lparr>rc_model_path = mk_span 0 0, rc_policy_path = mk_span 0 0,
     rc_scenario_path = mk_span 0 0, rc_corpus_manifest_path = mk_span 0 0,
     rc_journal_path = mk_span 0 0, rc_seed = 0, rc_budgets = zero_budgets,
     rc_has_expect = False, rc_expect_observation = mk_span 0 0, rc_has_goal = False,
     rc_goal = mk_span 0 0, rc_has_post_check = False, rc_post_check = mk_span 0 0\<rparr>"

definition string_field :: "string \<Rightarrow> bool \<Rightarrow> field_rule" where
  "string_field name required = \<lparr>fr_name = name, fr_value_kind = VALUE_STRING, fr_min_values = 1,
     fr_max_values = 1, fr_required = required, fr_unique = True\<rparr>"

definition run_fields :: "field_rule list" where
  "run_fields =
     [string_field ''model'' True, string_field ''policy'' True, string_field ''scenario'' True,
      string_field ''corpus'' True, string_field ''journal'' True,
      \<lparr>fr_name = ''seed'', fr_value_kind = VALUE_SYMBOL, fr_min_values = 1, fr_max_values = 1,
        fr_required = True, fr_unique = True\<rparr>,
      \<lparr>fr_name = ''budgets'', fr_value_kind = VALUE_LIST, fr_min_values = 5, fr_max_values = 7,
        fr_required = True, fr_unique = True\<rparr>,
      string_field ''expect'' False, string_field ''goal'' False, string_field ''post_check'' False]"

definition run_form :: form_rule where
  "run_form = \<lparr>fo_name = ''run'', fo_field_rules = run_fields, fo_allow_unknown_fields = False,
     fo_min_fields = 7, fo_max_fields = 9\<rparr>"

definition run_schema :: schema where
  "run_schema = \<lparr>sc_form_rules = [run_form], sc_allow_unknown_top_level_forms = False,
     sc_max_top_level_forms = 1, sc_max_depth = 4\<rparr>"

text \<open>The lookup loop over the fields of a form, shared in shape by every loader.\<close>

fun find_named :: "string \<Rightarrow> sexpr_node list \<Rightarrow> string \<Rightarrow> nat list \<Rightarrow> nat" where
  "find_named input nodes name [] = INVALID_INDEX"
| "find_named input nodes name (f # fs) =
     (if named input nodes f name then f else find_named input nodes name fs)"

definition find_field :: "string \<Rightarrow> sexpr_node list \<Rightarrow> nat \<Rightarrow> string \<Rightarrow> nat" where
  "find_field input nodes form name =
     (let form_name = spg_sexpr_first_child nodes form
      in if form_name = INVALID_INDEX then INVALID_INDEX
         else find_named input nodes name (siblings nodes (nd_next_sibling (nodes ! form_name))))"

definition string_value_span :: "sexpr_node list \<Rightarrow> nat \<Rightarrow> text_span option" where
  "string_value_span nodes field =
     (let v = spg_sexpr_second_child nodes field
      in if v = INVALID_INDEX then None else spg_sexpr_string_payload_span (nodes ! v))"

definition uint64_field_value :: "string \<Rightarrow> sexpr_node list \<Rightarrow> nat \<Rightarrow> spg_status + u64" where
  "uint64_field_value input nodes field =
     (let v = spg_sexpr_second_child nodes field
      in if v = INVALID_INDEX \<or> nd_kind (nodes ! v) \<noteq> NODE_SYMBOL then Inl SPG_E_SCHEMA
         else spg_sexpr_parse_uint64_span input (nd_span (nodes ! v)))"

definition offset_of :: "sexpr_node list \<Rightarrow> nat \<Rightarrow> nat" where
  "offset_of nodes i = sp_offset (nd_span (nodes ! i))"

type_synonym 'c load_step = "'c \<Rightarrow> schema_error option \<times> 'c"

definition assign_path_field ::
  "string \<Rightarrow> sexpr_node list \<Rightarrow> nat \<Rightarrow> string \<Rightarrow> (text_span \<Rightarrow> 'c \<Rightarrow> 'c) \<Rightarrow> 'c load_step" where
  "assign_path_field input nodes run_node name store c =
     (let field = find_field input nodes run_node name
      in if field = INVALID_INDEX then (Some (SPG_E_SCHEMA, run_node, offset_of nodes run_node), c)
         else (case string_value_span nodes field of
                 None \<Rightarrow> (Some (SPG_E_SCHEMA, field, offset_of nodes field), c)
               | Some sp \<Rightarrow> (None, store sp c)))"

definition assign_seed :: "string \<Rightarrow> sexpr_node list \<Rightarrow> nat \<Rightarrow> run_config load_step" where
  "assign_seed input nodes run_node c =
     (let field = find_field input nodes run_node ''seed''
      in case uint64_field_value input nodes field of
           Inl st \<Rightarrow> (Some (st, field, offset_of nodes field), c)
         | Inr v \<Rightarrow> (None, c\<lparr>rc_seed := v\<rparr>))"

definition parse_budgets :: "string \<Rightarrow> sexpr_node list \<Rightarrow> nat \<Rightarrow> run_config load_step" where
  "parse_budgets input nodes run_node c =
     (let field = find_field input nodes run_node ''budgets''
      in if field = INVALID_INDEX then (Some (SPG_E_SCHEMA, run_node, offset_of nodes run_node), c)
         else (case spg_run_budgets_parse input nodes field of
                 (st, b, None) \<Rightarrow> (None, c\<lparr>rc_budgets := b\<rparr>)
               | (st, b, Some (node, off)) \<Rightarrow> (Some (st, node, off), c\<lparr>rc_budgets := b\<rparr>)))"

definition assign_optional ::
  "string \<Rightarrow> sexpr_node list \<Rightarrow> nat \<Rightarrow> string \<Rightarrow> (text_span \<Rightarrow> 'c \<Rightarrow> 'c) \<Rightarrow> ('c \<Rightarrow> 'c) \<Rightarrow> 'c load_step" where
  "assign_optional input nodes run_node name store flag c =
     (let field = find_field input nodes run_node name
      in if field = INVALID_INDEX then (None, c)
         else (case string_value_span nodes field of
                 None \<Rightarrow> (Some (SPG_E_SCHEMA, field, offset_of nodes field), c)
               | Some sp \<Rightarrow> (None, flag (store sp c))))"

definition assign_post_check :: "string \<Rightarrow> sexpr_node list \<Rightarrow> nat \<Rightarrow> run_config load_step" where
  "assign_post_check input nodes run_node c =
     (let field = find_field input nodes run_node ''post_check''
      in if field = INVALID_INDEX then (None, c)
         else (case string_value_span nodes field of
                 None \<Rightarrow> (Some (SPG_E_SCHEMA, field, offset_of nodes field), c)
               | Some sp \<Rightarrow>
                   if sp_length sp = 0
                   then (Some (SPG_E_SCHEMA, field, offset_of nodes field), c\<lparr>rc_post_check := sp\<rparr>)
                   else (None, c\<lparr>rc_post_check := sp, rc_has_post_check := True\<rparr>)))"

text \<open>The early returns: the first step that fails ends the call.\<close>

fun run_steps :: "'c load_step list \<Rightarrow> 'c load_step" where
  "run_steps [] c = (None, c)"
| "run_steps (f # fs) c =
     (case f c of (Some e, c') \<Rightarrow> (Some e, c') | (None, c') \<Rightarrow> run_steps fs c')"

definition run_config_steps :: "string \<Rightarrow> sexpr_node list \<Rightarrow> run_config load_step list" where
  "run_config_steps input nodes =
     [assign_path_field input nodes 0 ''model'' (\<lambda>sp. rc_model_path_update (\<lambda>_. sp)),
      assign_path_field input nodes 0 ''policy'' (\<lambda>sp. rc_policy_path_update (\<lambda>_. sp)),
      assign_path_field input nodes 0 ''scenario'' (\<lambda>sp. rc_scenario_path_update (\<lambda>_. sp)),
      assign_path_field input nodes 0 ''corpus'' (\<lambda>sp. rc_corpus_manifest_path_update (\<lambda>_. sp)),
      assign_path_field input nodes 0 ''journal'' (\<lambda>sp. rc_journal_path_update (\<lambda>_. sp)),
      assign_seed input nodes 0,
      parse_budgets input nodes 0,
      assign_optional input nodes 0 ''expect'' (\<lambda>sp. rc_expect_observation_update (\<lambda>_. sp))
        (rc_has_expect_update (\<lambda>_. True)),
      assign_optional input nodes 0 ''goal'' (\<lambda>sp. rc_goal_update (\<lambda>_. sp))
        (rc_has_goal_update (\<lambda>_. True)),
      assign_post_check input nodes 0]"

definition spg_run_config_load ::
  "string \<Rightarrow> nat \<Rightarrow> nat \<Rightarrow> run_config \<Rightarrow> run_config \<times> schema_error" where
  "spg_run_config_load input token_capacity node_capacity out =
     (if token_capacity = 0 \<or> node_capacity = 0 then (out, SPG_E_INVALID_ARG, INVALID_INDEX, 0)
      else (case spg_sexpr_parse_text input token_capacity node_capacity of
        (st, _, nodes, e) \<Rightarrow>
          if st \<noteq> SPG_OK then (zero_run_config, st, INVALID_INDEX, er_offset e)
          else if nodes = [] then (zero_run_config, SPG_E_SCHEMA, INVALID_INDEX, 0)
          else (let serr = spg_schema_validate input nodes run_schema
                in if fst serr \<noteq> SPG_OK then (zero_run_config, serr)
                   else (case run_steps (run_config_steps input nodes) zero_run_config of
                           (None, c) \<Rightarrow> (c, SPG_OK, INVALID_INDEX, 0)
                         | (Some err, c) \<Rightarrow> (c, err)))))"

section \<open>What the schema guarantees to the lookups\<close>

lemma named_inj: "named input nodes f n \<Longrightarrow> named input nodes f m \<Longrightarrow> n = m"
  by (auto simp: named_def spg_sexpr_span_eq_cstr_def)

lemma find_named_found:
  "INVALID_INDEX \<notin> set fs \<Longrightarrow>
   if find_named input nodes name fs = INVALID_INDEX
   then \<forall>f \<in> set fs. \<not> named input nodes f name
   else find_named input nodes name fs \<in> set fs \<and>
        named input nodes (find_named input nodes name fs) name"
  by (induction fs) auto

lemma kids_not_invalid: "forest_ok nodes \<Longrightarrow> INVALID_INDEX \<notin> set (kids nodes p)"
  using kids_no_invalid forest_okD(1) by blast

lemma find_field_kids:
  assumes "forest_ok nodes" "p < length nodes" "kids nodes p = c # cs"
  shows "find_field input nodes p name = find_named input nodes name cs"
proof -
  have "nd_first_child (nodes ! p) = c"
    using forest_okD(5) [OF assms(1,2)] assms(3) by (simp add: head_or_invalid_def)
  moreover have "c \<noteq> INVALID_INDEX" using kids_not_invalid [OF assms(1), of p] assms(3) by auto
  ultimately show ?thesis
    using rest_kids [OF assms] by (simp add: find_field_def spg_sexpr_first_child_def)
qed

lemma find_field_found:
  assumes "forest_ok nodes" "p < length nodes" "kids nodes p = c # cs"
    "find_field input nodes p name \<noteq> INVALID_INDEX"
  shows "find_field input nodes p name \<in> set cs"
    "named input nodes (find_field input nodes p name) name"
proof -
  have "INVALID_INDEX \<notin> set cs" using kids_not_invalid [OF assms(1), of p] assms(3) by auto
  from find_named_found [OF this, of input nodes name] assms(4)
  show "find_field input nodes p name \<in> set cs"
    "named input nodes (find_field input nodes p name) name"
    by (simp_all add: find_field_kids [OF assms(1-3)])
qed

text \<open>The root form of an array that conforms to a schema of one closed form.\<close>

lemma conforms_root_form:
  assumes "forest_ok nodes" "nodes \<noteq> []" "conforms input nodes schema"
    "sc_form_rules schema = [rule]" "\<not> sc_allow_unknown_top_level_forms schema"
  shows "form_conform input nodes 0 rule"
proof -
  have "nd_parent (nodes ! 0) = INVALID_INDEX"
    using forest_okD(2) [OF assms(1)] assms(2) by (auto simp: parents_ok_def)
  then have "root_conform input nodes schema 0"
    using assms(2,3) by (auto simp: conforms_def Let_def)
  then show ?thesis using assms(4,5) by (auto simp: root_conform_def split: if_splits)
qed

lemma required_field_found:
  assumes "forest_ok nodes" "0 < length nodes" "form_conform input nodes 0 rule"
    "r \<in> set (fo_field_rules rule)" "fr_required r"
  shows "find_field input nodes 0 (fr_name r) \<in> set (kids nodes 0)"
proof -
  obtain c cs where k: "kids nodes 0 = c # cs"
    using assms(3) by (auto simp: form_conform_def split: list.splits)
  then have "rule_conform input nodes cs r" using assms(3,4) by (simp add: form_conform_def)
  then have "\<exists>f \<in> set cs. named input nodes f (fr_name r)"
    using assms(5) by (auto simp: rule_conform_def Let_def filter_empty_conv)
  moreover have inv: "INVALID_INDEX \<notin> set cs" using kids_not_invalid [OF assms(1), of 0] k by auto
  ultimately have "find_field input nodes 0 (fr_name r) \<noteq> INVALID_INDEX"
    using find_named_found [OF inv, of input nodes "fr_name r"] k
    by (auto simp: find_field_kids [OF assms(1,2) k] split: if_splits)
  from find_field_found(1) [OF assms(1,2) k this] show ?thesis using k by simp
qed

text \<open>The number of different fields found is bounded by the form's maximum.\<close>

lemma found_fields_bound:
  assumes "forest_ok nodes" "0 < length nodes" "form_conform input nodes 0 rule"
    "\<forall>n \<in> N. find_field input nodes 0 n \<noteq> INVALID_INDEX" "finite N"
  shows "card N \<le> fo_max_fields rule"
proof -
  obtain c cs where k: "kids nodes 0 = c # cs"
    using assms(3) by (auto simp: form_conform_def split: list.splits)
  note found = find_field_found [OF assms(1,2) k]
  have "inj_on (find_field input nodes 0) N"
    using found(2) named_inj assms(4) by (metis inj_onI)
  moreover have "find_field input nodes 0 ` N \<subseteq> set cs" using found(1) assms(4) by auto
  ultimately have "card N \<le> card (set cs)" by (metis card_inj_on_le finite_set)
  also have "\<dots> \<le> length cs" by (rule card_length)
  also have "\<dots> \<le> fo_max_fields rule" using assms(3) k by (simp add: form_conform_def)
  finally show ?thesis .
qed

lemma run_steps_inv:
  assumes "\<forall>f \<in> set fs. \<forall>c. P c \<longrightarrow> P (snd (f c))" "P c"
  shows "P (snd (run_steps fs c))"
  using assms
proof (induction fs arbitrary: c)
  case (Cons f fs)
  obtain e c' where f: "f c = (e, c')" by (cases "f c")
  have "P c'" using Cons.prems f by (metis list.set_intros(1) snd_conv)
  with Cons f show ?case by (cases e) auto
qed simp

lemma run_steps_status:
  assumes "\<forall>f \<in> set fs. \<forall>c st n off c'. f c = (Some (st, n, off), c') \<longrightarrow> st \<noteq> SPG_OK"
    "run_steps fs c = (Some (st, n, off), c')"
  shows "st \<noteq> SPG_OK"
  using assms
proof (induction fs arbitrary: c)
  case (Cons f fs)
  obtain e1 c1 where f: "f c = (e1, c1)" by (cases "f c")
  show ?case
  proof (cases e1)
    case None
    with f Cons show ?thesis by simp
  next
    case (Some e)
    with f Cons.prems(2) have "f c = (Some (st, n, off), c1)" by simp
    with Cons.prems(1) show ?thesis by (metis list.set_intros(1))
  qed
qed simp

lemma budgets_parse_status:
  "spg_run_budgets_parse input nodes f = (st, b, Some e) \<Longrightarrow> st \<noteq> SPG_OK"
  by (auto simp: spg_run_budgets_parse_def split: prod.splits sum.splits bool.splits
      dest: parse_budget_items_status)

lemma uint64_field_status: "uint64_field_value input nodes f = Inl st \<Longrightarrow> st \<noteq> SPG_OK"
  by (auto simp: uint64_field_value_def Let_def dest: parse_uint64_status split: if_splits)

lemma run_config_steps_status:
  assumes "f \<in> set (run_config_steps input nodes)" "f c = (Some (st, n, off), c')"
  shows "st \<noteq> SPG_OK"
  using assms unfolding run_config_steps_def
  by (auto simp: assign_path_field_def assign_seed_def parse_budgets_def
      assign_optional_def assign_post_check_def Let_def
      split: option.splits sum.splits prod.splits if_splits
      dest: budgets_parse_status uint64_field_status)

definition flags_ok :: "string \<Rightarrow> sexpr_node list \<Rightarrow> run_config \<Rightarrow> bool" where
  "flags_ok input nodes c \<longleftrightarrow>
     (rc_has_expect c \<longrightarrow> find_field input nodes 0 ''expect'' \<noteq> INVALID_INDEX) \<and>
     (rc_has_goal c \<longrightarrow> find_field input nodes 0 ''goal'' \<noteq> INVALID_INDEX) \<and>
     (rc_has_post_check c \<longrightarrow> find_field input nodes 0 ''post_check'' \<noteq> INVALID_INDEX)"

lemma assign_path_field_inv:
  "P c \<Longrightarrow> (\<And>sp. P (store sp c)) \<Longrightarrow> P (snd (assign_path_field input nodes n name store c))"
  by (simp add: assign_path_field_def Let_def split: option.split)

lemma assign_optional_inv:
  "P c \<Longrightarrow> (\<And>sp. find_field input nodes n name \<noteq> INVALID_INDEX \<Longrightarrow> P (flag (store sp c))) \<Longrightarrow>
   P (snd (assign_optional input nodes n name store flag c))"
  by (simp add: assign_optional_def Let_def split: option.split)

lemma assign_seed_inv: "P c \<Longrightarrow> (\<And>v. P (c\<lparr>rc_seed := v\<rparr>)) \<Longrightarrow> P (snd (assign_seed input nodes n c))"
  by (simp add: assign_seed_def Let_def split: sum.split)

lemma parse_budgets_inv:
  "P c \<Longrightarrow> (\<And>v. P (c\<lparr>rc_budgets := v\<rparr>)) \<Longrightarrow> P (snd (parse_budgets input nodes n c))"
  by (simp add: parse_budgets_def Let_def split: prod.split option.split)

lemma assign_post_check_inv:
  "P c \<Longrightarrow> (\<And>v. P (c\<lparr>rc_post_check := v\<rparr>)) \<Longrightarrow>
   (\<And>v. find_field input nodes n ''post_check'' \<noteq> INVALID_INDEX \<Longrightarrow>
      P (c\<lparr>rc_post_check := v, rc_has_post_check := True\<rparr>)) \<Longrightarrow>
   P (snd (assign_post_check input nodes n c))"
  by (simp add: assign_post_check_def Let_def split: option.split)

lemmas step_inv = assign_path_field_inv assign_optional_inv assign_seed_inv parse_budgets_inv
  assign_post_check_inv

lemma run_config_steps_flags:
  assumes "f \<in> set (run_config_steps input nodes)" "flags_ok input nodes c"
  shows "flags_ok input nodes (snd (f c))"
proof -
  note P = step_inv [where P = "flags_ok input nodes"]
  have "\<forall>f \<in> set (run_config_steps input nodes). flags_ok input nodes (snd (f c))"
    using assms(2) unfolding run_config_steps_def
    by (simp del: snd_conv; intro conjI P; simp add: flags_ok_def)
  with assms(1) show ?thesis by blast
qed

lemma load_ok_nodes:
  assumes "spg_run_config_load input tcap ncap out = (c, SPG_OK, rest)" "ncap \<le> INVALID_INDEX"
  obtains toks nodes e where "spg_sexpr_parse_text input tcap ncap = (SPG_OK, toks, nodes, e)"
    "forest_ok nodes" "0 < length nodes" "form_conform input nodes 0 run_form"
    "run_steps (run_config_steps input nodes) zero_run_config = (None, c)"
proof -
  obtain st toks nodes e where t: "spg_sexpr_parse_text input tcap ncap = (st, toks, nodes, e)"
    using prod_cases4 by blast
  note load = assms(1) [unfolded spg_run_config_load_def t prod.case Let_def]
  have cap: "\<not> (tcap = 0 \<or> ncap = 0)" using load by (intro notI) simp
  have st: "st = SPG_OK" using load cap by (cases "st = SPG_OK") simp_all
  have ne: "nodes \<noteq> []" using load cap st by (intro notI) simp
  have sc: "fst (spg_schema_validate input nodes run_schema) = SPG_OK"
    using load cap st ne
    by (cases "fst (spg_schema_validate input nodes run_schema) = SPG_OK") simp_all
  note ok = st ne sc
  have run: "(case run_steps (run_config_steps input nodes) zero_run_config of
      (None, c) \<Rightarrow> (c, SPG_OK, INVALID_INDEX, 0) | (Some err, c) \<Rightarrow> (c, err)) = (c, SPG_OK, rest)"
    using load cap st ne sc by simp
  obtain err c' where r: "run_steps (run_config_steps input nodes) zero_run_config = (err, c')"
    by (cases "run_steps (run_config_steps input nodes) zero_run_config")
  have "err = None \<and> c' = c"
  proof (cases err)
    case None
    with run r show ?thesis by simp
  next
    case (Some x)
    obtain st n off where x: "x = (st, n, off)" by (cases x)
    have "st \<noteq> SPG_OK"
      using run_steps_status [of _ zero_run_config st n off c'] run_config_steps_status r
      unfolding Some x by blast
    with run r Some x show ?thesis by simp
  qed
  moreover have forest: "forest_ok nodes" using parse_text_forest [OF assms(2)] t ok(1) by simp
  moreover have "form_conform input nodes 0 run_form"
    using conforms_root_form [OF forest ok(2) validate_ok_conforms [OF forest ok(3)]]
    by (simp add: run_schema_def)
  ultimately show thesis using that t ok r by simp
qed

lemma run_names_distinct: "distinct (map fr_name run_fields) \<and> length (map fr_name run_fields) = 10"
  by code_simp

text \<open>C19: No run configuration that loads uses all three optional fields: the form allows ten
  fields by its rules but at most nine by its count, so a file with \<open>expect\<close>, \<open>goal\<close> and
  \<open>post_check\<close> is refused, although each is documented to compose with the others.\<close>
theorem run_config_not_all_optional:
  "\<not> (ncap \<le> INVALID_INDEX \<and>
      (case spg_run_config_load input tcap ncap out of (c, st, _) \<Rightarrow>
         st = SPG_OK \<and> rc_has_expect c \<and> rc_has_goal c \<and> rc_has_post_check c))"
proof
  assume "ncap \<le> INVALID_INDEX \<and> (case spg_run_config_load input tcap ncap out of (c, st, _) \<Rightarrow>
         st = SPG_OK \<and> rc_has_expect c \<and> rc_has_goal c \<and> rc_has_post_check c)"
  then obtain c rest where ncap: "ncap \<le> INVALID_INDEX" and
    load: "spg_run_config_load input tcap ncap out = (c, SPG_OK, rest)" and
    flags: "rc_has_expect c" "rc_has_goal c" "rc_has_post_check c"
    by (auto split: prod.splits)
  obtain toks nodes e where n: "forest_ok nodes" "0 < length nodes"
    "form_conform input nodes 0 run_form"
    "run_steps (run_config_steps input nodes) zero_run_config = (None, c)"
    using load_ok_nodes [OF load ncap] by metis
  let ?names = "map fr_name run_fields"
  have all: "\<forall>r \<in> set run_fields. find_field input nodes 0 (fr_name r) \<noteq> INVALID_INDEX"
  proof
    fix r assume r: "r \<in> set run_fields"
    show "find_field input nodes 0 (fr_name r) \<noteq> INVALID_INDEX"
    proof (cases "fr_required r")
      case True
      have "r \<in> set (fo_field_rules run_form)" using r by (simp add: run_form_def)
      then show ?thesis
        using required_field_found [OF n(1-3) _ True] kids_not_invalid [OF n(1), of 0] by metis
    next
      case False
      have "flags_ok input nodes (snd (run_steps (run_config_steps input nodes) zero_run_config))"
      proof (rule run_steps_inv [where P = "flags_ok input nodes"])
        show "flags_ok input nodes zero_run_config" by (simp add: flags_ok_def zero_run_config_def)
      qed (use run_config_steps_flags in blast)
      with n(4) flags have "find_field input nodes 0 ''expect'' \<noteq> INVALID_INDEX"
        "find_field input nodes 0 ''goal'' \<noteq> INVALID_INDEX"
        "find_field input nodes 0 ''post_check'' \<noteq> INVALID_INDEX"
        by (simp_all add: flags_ok_def)
      moreover have "fr_name r = ''expect'' \<or> fr_name r = ''goal'' \<or> fr_name r = ''post_check''"
        using r False unfolding run_fields_def string_field_def
        by (simp only: set_simps insert_iff empty_iff) (elim disjE; simp)
      ultimately show ?thesis by (elim disjE) (simp_all only: simp_thms)
    qed
  qed
  have "card (set ?names) \<le> fo_max_fields run_form"
    using all by (intro found_fields_bound [OF n(1-3)]) (simp_all only: set_map ball_simps finite_set finite_imageI)
  moreover have "card (set ?names) = 10" using run_names_distinct distinct_card by fastforce
  ultimately show False by (simp add: run_form_def)
qed

end
