(* ===== verification/PolicyConfig.thy ===== *)
theory PolicyConfig
  imports RunConfig
begin

text \<open>
  The policy types of \<open>include/geistshell/policy_config.h\<close> and the policy loader
  \<open>src/policy/policy_config.c\<close>. The fixed array of 32 capabilities with its count is the list
  of the entries in use. The lookup of a field by name is the run loader's \<open>find_field\<close>: the
  two static functions are the same text.
\<close>

definition POLICY_MAX_CAPABILITIES :: nat where "POLICY_MAX_CAPABILITIES = 32"

datatype network_default = NETWORK_DENY | NETWORK_ALLOW

datatype capability_kind =
  CAP_LOCAL_SHELL | CAP_SSH_AUTH_PROBE | CAP_SIMULATOR | CAP_MEMORY | CAP_MACHINE_PROCESS | CAP_DEVICE

record capability =
  cp_name :: text_span
  cp_kind :: capability_kind
  cp_enabled :: bool
  cp_budget :: u64

record policy_config =
  pc_network_default :: network_default
  pc_budgets :: run_budgets
  pc_capabilities :: "capability list"

definition zero_policy_config :: policy_config where
  "zero_policy_config =
     \<lparr>pc_network_default = NETWORK_DENY, pc_budgets = zero_budgets, pc_capabilities = []\<rparr>"

definition policy_fields :: "field_rule list" where
  "policy_fields =
     [\<lparr>fr_name = ''network_default'', fr_value_kind = VALUE_SYMBOL, fr_min_values = 1,
        fr_max_values = 1, fr_required = True, fr_unique = True\<rparr>,
      \<lparr>fr_name = ''budgets'', fr_value_kind = VALUE_LIST, fr_min_values = 5, fr_max_values = 7,
        fr_required = True, fr_unique = True\<rparr>,
      \<lparr>fr_name = ''capability'', fr_value_kind = VALUE_ANY, fr_min_values = 1,
        fr_max_values = POLICY_MAX_CAPABILITIES, fr_required = False, fr_unique = True\<rparr>]"

definition policy_form :: form_rule where
  "policy_form = \<lparr>fo_name = ''policy'', fo_field_rules = policy_fields,
     fo_allow_unknown_fields = False, fo_min_fields = 2, fo_max_fields = 3\<rparr>"

definition policy_schema :: schema where
  "policy_schema = \<lparr>sc_form_rules = [policy_form], sc_allow_unknown_top_level_forms = False,
     sc_max_top_level_forms = 1, sc_max_depth = 5\<rparr>"

definition parse_policy_budgets :: "string \<Rightarrow> sexpr_node list \<Rightarrow> nat \<Rightarrow> policy_config load_step" where
  "parse_policy_budgets input nodes policy_node c =
     (let field = find_field input nodes policy_node ''budgets''
      in if field = INVALID_INDEX
         then (Some (SPG_E_SCHEMA, policy_node, offset_of nodes policy_node), c)
         else (case spg_run_budgets_parse input nodes field of
                 (st, b, None) \<Rightarrow> (None, c\<lparr>pc_budgets := b\<rparr>)
               | (st, b, Some (node, off)) \<Rightarrow> (Some (st, node, off), c\<lparr>pc_budgets := b\<rparr>)))"

definition parse_network_default :: "string \<Rightarrow> sexpr_node list \<Rightarrow> nat \<Rightarrow> policy_config load_step" where
  "parse_network_default input nodes policy_node c =
     (let field = find_field input nodes policy_node ''network_default'';
          v = spg_sexpr_second_child nodes field
      in if field = INVALID_INDEX \<or> v = INVALID_INDEX \<or> nd_kind (nodes ! v) \<noteq> NODE_SYMBOL
         then (Some (SPG_E_SCHEMA, policy_node, offset_of nodes policy_node), c)
         else if spg_sexpr_span_eq_cstr input (nd_span (nodes ! v)) ''deny''
         then (None, c\<lparr>pc_network_default := NETWORK_DENY\<rparr>)
         else if spg_sexpr_span_eq_cstr input (nd_span (nodes ! v)) ''allow''
         then (None, c\<lparr>pc_network_default := NETWORK_ALLOW\<rparr>)
         else (Some (SPG_E_SCHEMA, v, offset_of nodes v), c))"

definition parse_cap_kind :: "string \<Rightarrow> text_span \<Rightarrow> capability_kind option" where
  "parse_cap_kind input sp =
     (if spg_sexpr_span_eq_cstr input sp ''local_shell'' then Some CAP_LOCAL_SHELL
      else if spg_sexpr_span_eq_cstr input sp ''ssh_auth_probe'' then Some CAP_SSH_AUTH_PROBE
      else if spg_sexpr_span_eq_cstr input sp ''simulator'' then Some CAP_SIMULATOR
      else if spg_sexpr_span_eq_cstr input sp ''memory'' then Some CAP_MEMORY
      else if spg_sexpr_span_eq_cstr input sp ''machine_process'' then Some CAP_MACHINE_PROCESS
      else if spg_sexpr_span_eq_cstr input sp ''device'' then Some CAP_DEVICE
      else None)"

definition parse_bool_span :: "string \<Rightarrow> text_span \<Rightarrow> bool option" where
  "parse_bool_span input sp =
     (if spg_sexpr_span_eq_cstr input sp ''true'' then Some True
      else if spg_sexpr_span_eq_cstr input sp ''false'' then Some False else None)"

text \<open>The fields of one capability; here a name of any node kind counts.\<close>

fun cap_field :: "string \<Rightarrow> sexpr_node list \<Rightarrow> string \<Rightarrow> nat list \<Rightarrow> nat" where
  "cap_field input nodes name [] = INVALID_INDEX"
| "cap_field input nodes name (f # fs) =
     (if nd_kind (nodes ! f) = NODE_LIST \<and> spg_sexpr_first_child nodes f \<noteq> INVALID_INDEX \<and>
         spg_sexpr_span_eq_cstr input (nd_span (nodes ! spg_sexpr_first_child nodes f)) name
      then spg_sexpr_second_child nodes f else cap_field input nodes name fs)"

definition field_value_by_name :: "string \<Rightarrow> sexpr_node list \<Rightarrow> nat \<Rightarrow> string \<Rightarrow> nat" where
  "field_value_by_name input nodes cap_node name =
     cap_field input nodes name (siblings nodes (spg_sexpr_first_child nodes cap_node))"

fun same_name :: "string \<Rightarrow> text_span \<Rightarrow> capability list \<Rightarrow> bool" where
  "same_name input sp [] = False"
| "same_name input sp (c # cs) =
     ((sp_length (cp_name c) = sp_length sp \<and> span_text input (cp_name c) = span_text input sp) \<or>
      same_name input sp cs)"

definition parse_capability :: "string \<Rightarrow> sexpr_node list \<Rightarrow> nat \<Rightarrow> policy_config load_step" where
  "parse_capability input nodes cap_node c =
     (if length (pc_capabilities c) \<ge> POLICY_MAX_CAPABILITIES
      then (Some (SPG_E_LIMIT, cap_node, offset_of nodes cap_node), c)
      else
        (let name_v = field_value_by_name input nodes cap_node ''name'';
             kind_v = field_value_by_name input nodes cap_node ''kind'';
             enabled_v = field_value_by_name input nodes cap_node ''enabled'';
             budget_v = field_value_by_name input nodes cap_node ''budget''
         in if \<not> (\<forall>v \<in> set [name_v, kind_v, enabled_v, budget_v]. v \<noteq> INVALID_INDEX) \<or>
               \<not> (\<forall>v \<in> set [name_v, kind_v, enabled_v, budget_v]. nd_kind (nodes ! v) = NODE_SYMBOL)
            then (Some (SPG_E_SCHEMA, cap_node, offset_of nodes cap_node), c)
            else if same_name input (nd_span (nodes ! name_v)) (pc_capabilities c)
            then (Some (SPG_E_SCHEMA, name_v, offset_of nodes name_v), c)
            else (case parse_cap_kind input (nd_span (nodes ! kind_v)) of
              None \<Rightarrow> (Some (SPG_E_SCHEMA, kind_v, offset_of nodes kind_v), c)
            | Some kind \<Rightarrow>
                (case parse_bool_span input (nd_span (nodes ! enabled_v)) of
                   None \<Rightarrow> (Some (SPG_E_SCHEMA, enabled_v, offset_of nodes enabled_v), c)
                 | Some enabled \<Rightarrow>
                     (case spg_sexpr_parse_uint64_span input (nd_span (nodes ! budget_v)) of
                        Inl st \<Rightarrow> (Some (st, budget_v, offset_of nodes budget_v), c)
                      | Inr budget \<Rightarrow>
                          (None, c\<lparr>pc_capabilities := pc_capabilities c @
                             [\<lparr>cp_name = nd_span (nodes ! name_v), cp_kind = kind,
                               cp_enabled = enabled, cp_budget = budget\<rparr>]\<rparr>))))))"

fun parse_capability_items :: "string \<Rightarrow> sexpr_node list \<Rightarrow> nat list \<Rightarrow> policy_config load_step" where
  "parse_capability_items input nodes [] c = (None, c)"
| "parse_capability_items input nodes (cap # caps) c =
     (if nd_kind (nodes ! cap) \<noteq> NODE_LIST then (Some (SPG_E_SCHEMA, cap, offset_of nodes cap), c)
      else (case parse_capability input nodes cap c of
              (Some e, c') \<Rightarrow> (Some e, c')
            | (None, c') \<Rightarrow> parse_capability_items input nodes caps c'))"

definition parse_capabilities :: "string \<Rightarrow> sexpr_node list \<Rightarrow> nat \<Rightarrow> policy_config load_step" where
  "parse_capabilities input nodes policy_node c =
     (let field = find_field input nodes policy_node ''capability''
      in if field = INVALID_INDEX then (None, c\<lparr>pc_capabilities := []\<rparr>)
         else parse_capability_items input nodes
                (siblings nodes (spg_sexpr_second_child nodes field)) c)"

definition spg_policy_config_load ::
  "string \<Rightarrow> nat \<Rightarrow> nat \<Rightarrow> policy_config \<Rightarrow> policy_config \<times> schema_error" where
  "spg_policy_config_load input token_capacity node_capacity out =
     (if token_capacity = 0 \<or> node_capacity = 0 then (out, SPG_E_INVALID_ARG, INVALID_INDEX, 0)
      else (case spg_sexpr_parse_text input token_capacity node_capacity of
        (st, _, nodes, e) \<Rightarrow>
          if st \<noteq> SPG_OK then (zero_policy_config, st, INVALID_INDEX, er_offset e)
          else if nodes = [] then (zero_policy_config, SPG_E_SCHEMA, INVALID_INDEX, 0)
          else (let serr = spg_schema_validate input nodes policy_schema
                in if fst serr \<noteq> SPG_OK then (zero_policy_config, serr)
                   else (case run_steps [parse_network_default input nodes 0,
                                         parse_policy_budgets input nodes 0,
                                         parse_capabilities input nodes 0] zero_policy_config of
                           (None, c) \<Rightarrow> (c, SPG_OK, INVALID_INDEX, 0)
                         | (Some err, c) \<Rightarrow> (c, err)))))"

section \<open>The capability table\<close>

definition caps_ok :: "string \<Rightarrow> policy_config \<Rightarrow> bool" where
  "caps_ok input c \<longleftrightarrow>
     length (pc_capabilities c) \<le> POLICY_MAX_CAPABILITIES \<and>
     distinct (map (\<lambda>cap. (sp_length (cp_name cap), span_text input (cp_name cap)))
                   (pc_capabilities c))"

lemma same_name_iff:
  "same_name input sp cs \<longleftrightarrow>
   (sp_length sp, span_text input sp) \<in> set (map (\<lambda>c. (sp_length (cp_name c), span_text input (cp_name c))) cs)"
  by (induction cs) auto

lemma parse_capability_ok: "caps_ok input c \<Longrightarrow> caps_ok input (snd (parse_capability input nodes cap c))"
  by (auto simp: parse_capability_def Let_def caps_ok_def same_name_iff
      split: option.split sum.split)

lemma parse_capability_items_ok:
  "caps_ok input c \<Longrightarrow> caps_ok input (snd (parse_capability_items input nodes caps c))"
proof (induction caps arbitrary: c)
  case (Cons cap caps)
  obtain e c' where p: "parse_capability input nodes cap c = (e, c')"
    by (cases "parse_capability input nodes cap c")
  have "caps_ok input c'" using parse_capability_ok [OF Cons.prems, of nodes cap] p by simp
  with Cons p show ?case by (cases e) auto
qed simp

lemma policy_steps_ok:
  assumes "f \<in> set [parse_network_default input nodes 0, parse_policy_budgets input nodes 0,
     parse_capabilities input nodes 0]" "caps_ok input c"
  shows "caps_ok input (snd (f c))"
proof -
  have "caps_ok input (snd (parse_network_default input nodes 0 c))"
    using assms(2) by (simp add: parse_network_default_def Let_def caps_ok_def)
  moreover have "caps_ok input (snd (parse_policy_budgets input nodes 0 c))"
    using assms(2) by (simp add: parse_policy_budgets_def Let_def caps_ok_def split: prod.split option.split)
  moreover have "caps_ok input (snd (parse_capabilities input nodes 0 c))"
    using assms(2) parse_capability_items_ok by (simp add: parse_capabilities_def Let_def caps_ok_def)
  ultimately show ?thesis using assms(1) by auto
qed

text \<open>Whatever the text, the policy the loader leaves behind has at most 32 capabilities and no
  two of them with the same name, so a name never selects between two grants.\<close>
theorem policy_capabilities_bounded_distinct:
  "let c = fst (spg_policy_config_load input tcap ncap zero_policy_config)
   in length (pc_capabilities c) \<le> POLICY_MAX_CAPABILITIES \<and>
      distinct (map (\<lambda>cap. (sp_length (cp_name cap), span_text input (cp_name cap)))
                    (pc_capabilities c))"
proof -
  have zero: "caps_ok input zero_policy_config" by (simp add: caps_ok_def zero_policy_config_def)
  have "caps_ok input (snd (run_steps [parse_network_default input nodes 0,
      parse_policy_budgets input nodes 0, parse_capabilities input nodes 0] zero_policy_config))" for nodes
    by (rule run_steps_inv [where P = "caps_ok input", OF _ zero])
       (use policy_steps_ok in blast)
  then have run: "caps_ok input c'" if "run_steps [parse_network_default input nodes 0,
      parse_policy_budgets input nodes 0, parse_capabilities input nodes 0] zero_policy_config = (e, c')"
    for nodes e c'
    using that by (metis snd_conv)
  have "caps_ok input (fst (spg_policy_config_load input tcap ncap zero_policy_config))"
    unfolding spg_policy_config_load_def Let_def
    by (auto simp: zero split: prod.split option.split simp del: run_steps.simps dest: run)
  then show ?thesis by (simp add: caps_ok_def)
qed

end
