(* ===== verification/Policy.thy ===== *)
theory Policy
  imports PolicyConfig
begin

text \<open>
  The policy gate (\<open>src/policy/policy.c\<close>, \<open>include/geistshell/policy.h\<close>): which typed action
  requests a policy allows, given what the run has used. The decision is proved to be
  \<open>ALLOW\<close> exactly under the conditions the policy promises, in unbounded arithmetic, and to be
  monotone in the usage.
\<close>

datatype action_kind =
  ACTION_LOCAL_SHELL | ACTION_SSH_AUTH_PROBE | ACTION_SIMULATOR | ACTION_MEMORY_SAVE
| ACTION_MEMORY_DELETE | ACTION_MEMORY_READ | ACTION_MACHINE_PAUSE | ACTION_MACHINE_RESUME
| ACTION_DEVICE_WRITE | ACTION_FINISH

datatype decision_kind = DECISION_ALLOW | DECISION_DENY

datatype deny_reason =
  DENY_NONE | DENY_UNKNOWN_CAPABILITY | DENY_DISABLED_CAPABILITY | DENY_KIND_MISMATCH
| DENY_NETWORK | DENY_CAPABILITY_BUDGET | DENY_GLOBAL_BUDGET | DENY_INVALID_REQUEST
| DENY_UNMANAGED_PROCESS | DENY_PROCESS_PROTECTED | DENY_PROCESS_IDENTITY

record action_request =
  rq_kind :: action_kind
  rq_capability :: text_span
  rq_uses_network :: bool
  rq_cost :: u64

record policy_usage =
  us_consumed :: run_budgets

record policy_decision =
  dc_kind :: decision_kind
  dc_deny_reason :: deny_reason
  dc_capability_index :: nat

definition span_eq :: "string \<Rightarrow> text_span \<Rightarrow> text_span \<Rightarrow> bool" where
  "span_eq input a b \<longleftrightarrow>
     spg_sexpr_span_valid (length input) a \<and> spg_sexpr_span_valid (length input) b \<and>
     sp_length a = sp_length b \<and> span_text input a = span_text input b"

definition deny :: "deny_reason \<Rightarrow> policy_decision" where
  "deny reason = \<lparr>dc_kind = DECISION_DENY, dc_deny_reason = reason, dc_capability_index = SIZE_MAX\<rparr>"

definition allow :: "nat \<Rightarrow> policy_decision" where
  "allow i = \<lparr>dc_kind = DECISION_ALLOW, dc_deny_reason = DENY_NONE, dc_capability_index = i\<rparr>"

fun cap_kind_for_action :: "action_kind \<Rightarrow> capability_kind" where
  "cap_kind_for_action ACTION_LOCAL_SHELL = CAP_LOCAL_SHELL"
| "cap_kind_for_action ACTION_SSH_AUTH_PROBE = CAP_SSH_AUTH_PROBE"
| "cap_kind_for_action ACTION_SIMULATOR = CAP_SIMULATOR"
| "cap_kind_for_action ACTION_MEMORY_SAVE = CAP_MEMORY"
| "cap_kind_for_action ACTION_MEMORY_DELETE = CAP_MEMORY"
| "cap_kind_for_action ACTION_MEMORY_READ = CAP_MEMORY"
| "cap_kind_for_action ACTION_MACHINE_PAUSE = CAP_MACHINE_PROCESS"
| "cap_kind_for_action ACTION_MACHINE_RESUME = CAP_MACHINE_PROCESS"
| "cap_kind_for_action ACTION_DEVICE_WRITE = CAP_DEVICE"
| "cap_kind_for_action ACTION_FINISH = CAP_LOCAL_SHELL"

definition action_kind_valid :: "action_kind \<Rightarrow> bool" where
  "action_kind_valid k \<longleftrightarrow>
     k = ACTION_LOCAL_SHELL \<or> k = ACTION_SSH_AUTH_PROBE \<or> k = ACTION_SIMULATOR \<or>
     k = ACTION_MEMORY_SAVE \<or> k = ACTION_MEMORY_DELETE \<or> k = ACTION_MEMORY_READ \<or>
     k = ACTION_MACHINE_PAUSE \<or> k = ACTION_MACHINE_RESUME \<or> k = ACTION_DEVICE_WRITE"

fun consumed_for_action :: "policy_usage \<Rightarrow> action_kind \<Rightarrow> u64" where
  "consumed_for_action usage ACTION_LOCAL_SHELL = bd_shell_actions (us_consumed usage)"
| "consumed_for_action usage ACTION_SSH_AUTH_PROBE = bd_shell_actions (us_consumed usage)"
| "consumed_for_action usage ACTION_SIMULATOR = bd_sim_actions (us_consumed usage)"
| "consumed_for_action usage ACTION_MEMORY_SAVE = bd_memory_actions (us_consumed usage)"
| "consumed_for_action usage ACTION_MEMORY_DELETE = bd_memory_actions (us_consumed usage)"
| "consumed_for_action usage ACTION_MEMORY_READ = bd_memory_actions (us_consumed usage)"
| "consumed_for_action usage ACTION_MACHINE_PAUSE = bd_machine_actions (us_consumed usage)"
| "consumed_for_action usage ACTION_MACHINE_RESUME = bd_machine_actions (us_consumed usage)"
| "consumed_for_action usage ACTION_DEVICE_WRITE = bd_machine_actions (us_consumed usage)"
| "consumed_for_action usage ACTION_FINISH = UINT64_MAX"

fun global_budget_for_action :: "policy_config \<Rightarrow> action_kind \<Rightarrow> u64" where
  "global_budget_for_action policy ACTION_LOCAL_SHELL = bd_shell_actions (pc_budgets policy)"
| "global_budget_for_action policy ACTION_SSH_AUTH_PROBE = bd_shell_actions (pc_budgets policy)"
| "global_budget_for_action policy ACTION_SIMULATOR = bd_sim_actions (pc_budgets policy)"
| "global_budget_for_action policy ACTION_MEMORY_SAVE = bd_memory_actions (pc_budgets policy)"
| "global_budget_for_action policy ACTION_MEMORY_DELETE = bd_memory_actions (pc_budgets policy)"
| "global_budget_for_action policy ACTION_MEMORY_READ = bd_memory_actions (pc_budgets policy)"
| "global_budget_for_action policy ACTION_MACHINE_PAUSE = bd_machine_actions (pc_budgets policy)"
| "global_budget_for_action policy ACTION_MACHINE_RESUME = bd_machine_actions (pc_budgets policy)"
| "global_budget_for_action policy ACTION_DEVICE_WRITE = bd_machine_actions (pc_budgets policy)"
| "global_budget_for_action policy ACTION_FINISH = 0"

definition would_exceed :: "u64 \<Rightarrow> u64 \<Rightarrow> u64 \<Rightarrow> bool" where
  "would_exceed used cost budget \<longleftrightarrow>
     (if cost > UINT64_MAX - used then True else used + cost > budget)"

fun spg_action_kind_to_string :: "action_kind \<Rightarrow> string" where
  "spg_action_kind_to_string ACTION_LOCAL_SHELL = ''local_shell''"
| "spg_action_kind_to_string ACTION_SSH_AUTH_PROBE = ''ssh_auth_probe''"
| "spg_action_kind_to_string ACTION_SIMULATOR = ''simulator''"
| "spg_action_kind_to_string ACTION_MEMORY_SAVE = ''memory_save''"
| "spg_action_kind_to_string ACTION_MEMORY_DELETE = ''memory_delete''"
| "spg_action_kind_to_string ACTION_MEMORY_READ = ''memory_read''"
| "spg_action_kind_to_string ACTION_MACHINE_PAUSE = ''machine_pause_process''"
| "spg_action_kind_to_string ACTION_MACHINE_RESUME = ''machine_resume_process''"
| "spg_action_kind_to_string ACTION_DEVICE_WRITE = ''device_write''"
| "spg_action_kind_to_string ACTION_FINISH = ''finish''"

fun spg_policy_deny_reason_to_string :: "deny_reason \<Rightarrow> string" where
  "spg_policy_deny_reason_to_string DENY_NONE = ''SPG_POLICY_DENY_NONE''"
| "spg_policy_deny_reason_to_string DENY_UNKNOWN_CAPABILITY = ''SPG_POLICY_DENY_UNKNOWN_CAPABILITY''"
| "spg_policy_deny_reason_to_string DENY_DISABLED_CAPABILITY = ''SPG_POLICY_DENY_DISABLED_CAPABILITY''"
| "spg_policy_deny_reason_to_string DENY_KIND_MISMATCH = ''SPG_POLICY_DENY_KIND_MISMATCH''"
| "spg_policy_deny_reason_to_string DENY_NETWORK = ''SPG_POLICY_DENY_NETWORK''"
| "spg_policy_deny_reason_to_string DENY_CAPABILITY_BUDGET = ''SPG_POLICY_DENY_CAPABILITY_BUDGET''"
| "spg_policy_deny_reason_to_string DENY_GLOBAL_BUDGET = ''SPG_POLICY_DENY_GLOBAL_BUDGET''"
| "spg_policy_deny_reason_to_string DENY_INVALID_REQUEST = ''SPG_POLICY_DENY_INVALID_REQUEST''"
| "spg_policy_deny_reason_to_string DENY_UNMANAGED_PROCESS = ''SPG_POLICY_DENY_UNMANAGED_PROCESS''"
| "spg_policy_deny_reason_to_string DENY_PROCESS_PROTECTED = ''SPG_POLICY_DENY_PROCESS_PROTECTED''"
| "spg_policy_deny_reason_to_string DENY_PROCESS_IDENTITY = ''SPG_POLICY_DENY_PROCESS_IDENTITY''"

fun find_capability :: "string \<Rightarrow> text_span \<Rightarrow> capability list \<Rightarrow> nat \<Rightarrow> nat" where
  "find_capability policy_text name [] i = SIZE_MAX"
| "find_capability policy_text name (c # cs) i =
     (if span_eq policy_text (cp_name c) name then i
      else find_capability policy_text name cs (Suc i))"

definition spg_policy_decide ::
  "string \<Rightarrow> policy_config \<Rightarrow> policy_usage \<Rightarrow> action_request \<Rightarrow> policy_decision" where
  "spg_policy_decide policy_text policy usage request =
     (if \<not> action_kind_valid (rq_kind request) \<or> rq_cost request = 0 \<or>
         \<not> spg_sexpr_span_valid (length policy_text) (rq_capability request)
      then deny DENY_INVALID_REQUEST
      else if rq_uses_network request \<and> pc_network_default policy = NETWORK_DENY \<and>
              rq_kind request \<noteq> ACTION_SSH_AUTH_PROBE
      then deny DENY_NETWORK
      else
        (let cap_index = find_capability policy_text (rq_capability request) (pc_capabilities policy) 0
         in if cap_index = SIZE_MAX then deny DENY_UNKNOWN_CAPABILITY
            else
              (let cap = pc_capabilities policy ! cap_index
               in if \<not> cp_enabled cap
                  then (deny DENY_DISABLED_CAPABILITY)\<lparr>dc_capability_index := cap_index\<rparr>
                  else if cp_kind cap \<noteq> cap_kind_for_action (rq_kind request)
                  then (deny DENY_KIND_MISMATCH)\<lparr>dc_capability_index := cap_index\<rparr>
                  else if would_exceed 0 (rq_cost request) (cp_budget cap)
                  then (deny DENY_CAPABILITY_BUDGET)\<lparr>dc_capability_index := cap_index\<rparr>
                  else if would_exceed (consumed_for_action usage (rq_kind request))
                            (rq_cost request) (global_budget_for_action policy (rq_kind request))
                  then (deny DENY_GLOBAL_BUDGET)\<lparr>dc_capability_index := cap_index\<rparr>
                  else allow cap_index)))"

section \<open>Lemmas\<close>

lemma would_exceed_iff: "would_exceed used cost budget \<longleftrightarrow> unat budget < unat used + unat cost"
proof (cases "cost > UINT64_MAX - used")
  case True
  then have "unat used + unat cost \<ge> 2 ^ 64" by (simp add: u64_guard_iff add.commute)
  moreover have "unat budget < 2 ^ 64" using u64_bound [of budget] by simp
  ultimately show ?thesis using True by (simp add: would_exceed_def)
next
  case False
  then have "unat used + unat cost < 2 ^ 64" by (simp add: u64_guard_iff not_le add.commute)
  then show ?thesis using False
    by (simp add: would_exceed_def word_less_nat_alt u64_plus_exact)
qed

lemma find_capability_iff:
  assumes "i + length caps \<le> SIZE_MAX" "j \<noteq> SIZE_MAX"
  shows "find_capability policy_text name caps i = j \<longleftrightarrow>
     i \<le> j \<and> j < i + length caps \<and> span_eq policy_text (cp_name (caps ! (j - i))) name \<and>
     (\<forall>k < j - i. \<not> span_eq policy_text (cp_name (caps ! k)) name)"
  using assms
proof (induction caps arbitrary: i)
  case (Cons c caps)
  show ?case
  proof (cases "j \<le> i")
    case True
    with Cons show ?thesis by (cases "j = i") auto
  next
    case False
    then have d: "j - i = Suc (j - Suc i)" by simp
    have "(\<forall>k < Suc (j - Suc i). \<not> span_eq policy_text (cp_name ((c # caps) ! k)) name) \<longleftrightarrow>
      \<not> span_eq policy_text (cp_name c) name \<and>
      (\<forall>k < j - Suc i. \<not> span_eq policy_text (cp_name (caps ! k)) name)"
      by (auto simp: less_Suc_eq_0_disj)
    with Cons False show ?thesis unfolding d by auto
  qed
qed simp

lemma deny_not_allow [simp]: "dc_kind (deny r) = DECISION_DENY" "dc_kind (allow i) = DECISION_ALLOW"
  by (simp_all add: deny_def allow_def)

lemma allow_inj [simp]: "allow i = allow j \<longleftrightarrow> i = j"
  by (simp add: allow_def)

lemma deny_ne_allow [simp]:
  "deny r \<noteq> allow i" "(deny r)\<lparr>dc_capability_index := k\<rparr> \<noteq> allow i"
  by (simp_all add: allow_def deny_def)

lemma if_deny_allow:
  "(if b then deny r else x) = allow i \<longleftrightarrow> \<not> b \<and> x = allow i"
  "(if b then (deny r)\<lparr>dc_capability_index := k\<rparr> else x) = allow i \<longleftrightarrow> \<not> b \<and> x = allow i"
  by simp_all

lemma action_kind_valid_iff: "action_kind_valid k \<longleftrightarrow> k \<noteq> ACTION_FINISH"
  by (cases k) (simp_all add: action_kind_valid_def)

text \<open>The conditions of a grant, in unbounded arithmetic and without the order of the checks.\<close>

definition grant_conditions ::
  "string \<Rightarrow> policy_config \<Rightarrow> policy_usage \<Rightarrow> action_request \<Rightarrow> nat \<Rightarrow> bool" where
  "grant_conditions policy_text policy usage rq i \<longleftrightarrow>
     rq_kind rq \<noteq> ACTION_FINISH \<and> 0 < unat (rq_cost rq) \<and>
     (pc_network_default policy = NETWORK_ALLOW \<or> rq_kind rq = ACTION_SSH_AUTH_PROBE \<or>
      \<not> rq_uses_network rq) \<and>
     i < length (pc_capabilities policy) \<and>
     span_eq policy_text (cp_name (pc_capabilities policy ! i)) (rq_capability rq) \<and>
     (\<forall>k < i. \<not> span_eq policy_text (cp_name (pc_capabilities policy ! k)) (rq_capability rq)) \<and>
     cp_enabled (pc_capabilities policy ! i) \<and>
     cp_kind (pc_capabilities policy ! i) = cap_kind_for_action (rq_kind rq) \<and>
     unat (rq_cost rq) \<le> unat (cp_budget (pc_capabilities policy ! i)) \<and>
     unat (consumed_for_action usage (rq_kind rq)) + unat (rq_cost rq)
       \<le> unat (global_budget_for_action policy (rq_kind rq))"

lemma decide_allow_iff:
  assumes "length (pc_capabilities policy) \<le> POLICY_MAX_CAPABILITIES"
  shows "spg_policy_decide policy_text policy usage rq = allow i \<longleftrightarrow>
         grant_conditions policy_text policy usage rq i"
proof -
  let ?caps = "pc_capabilities policy"
  let ?f = "find_capability policy_text (rq_capability rq) ?caps 0"
  have bound: "0 + length ?caps \<le> SIZE_MAX" using assms by (simp add: POLICY_MAX_CAPABILITIES_def SIZE_MAX_def)
  have found: "?f = j \<longleftrightarrow> j < length ?caps \<and> span_eq policy_text (cp_name (?caps ! j)) (rq_capability rq) \<and>
      (\<forall>k < j. \<not> span_eq policy_text (cp_name (?caps ! k)) (rq_capability rq))"
    if "j \<noteq> SIZE_MAX" for j
    using find_capability_iff [OF bound that, of policy_text "rq_capability rq"] by simp
  have "spg_policy_decide policy_text policy usage rq = allow i \<longleftrightarrow>
      rq_kind rq \<noteq> ACTION_FINISH \<and> rq_cost rq \<noteq> 0 \<and>
      spg_sexpr_span_valid (length policy_text) (rq_capability rq) \<and>
      \<not> (rq_uses_network rq \<and> pc_network_default policy = NETWORK_DENY \<and>
          rq_kind rq \<noteq> ACTION_SSH_AUTH_PROBE) \<and>
      ?f = i \<and> i \<noteq> SIZE_MAX \<and> cp_enabled (?caps ! i) \<and>
      cp_kind (?caps ! i) = cap_kind_for_action (rq_kind rq) \<and>
      \<not> would_exceed 0 (rq_cost rq) (cp_budget (?caps ! i)) \<and>
      \<not> would_exceed (consumed_for_action usage (rq_kind rq)) (rq_cost rq)
          (global_budget_for_action policy (rq_kind rq))"
    unfolding spg_policy_decide_def Let_def action_kind_valid_iff if_deny_allow allow_inj
    by blast
  moreover have "rq_cost rq \<noteq> 0 \<longleftrightarrow> 0 < unat (rq_cost rq)" by (simp add: unat_gt_0)
  moreover have "i < length ?caps \<Longrightarrow> i \<noteq> SIZE_MAX" using bound by auto
  moreover have "span_eq policy_text n (rq_capability rq) \<Longrightarrow>
      spg_sexpr_span_valid (length policy_text) (rq_capability rq)" for n
    by (simp add: span_eq_def)
  moreover have "pc_network_default policy \<noteq> NETWORK_DENY \<longleftrightarrow> pc_network_default policy = NETWORK_ALLOW"
    by (cases "pc_network_default policy") simp_all
  ultimately show ?thesis
    using found [of i] unfolding grant_conditions_def would_exceed_iff unat_0 add_0 not_less
    by metis
qed

text \<open>C1: The policy allows a request under capability \<open>i\<close> exactly when \<open>i\<close> is the first
  capability of that name, is enabled, is of the action's kind, covers the cost, the run's usage
  plus the cost stays within the global budget (no wrap-around in either comparison), the
  request costs something, and it needs no denied network.\<close>
theorem spg_policy_decide_allow_iff:
  assumes "length (pc_capabilities policy) \<le> POLICY_MAX_CAPABILITIES"
  shows "spg_policy_decide policy_text policy usage rq = allow i \<longleftrightarrow>
     rq_kind rq \<noteq> ACTION_FINISH \<and> 0 < unat (rq_cost rq) \<and>
     (pc_network_default policy = NETWORK_ALLOW \<or> rq_kind rq = ACTION_SSH_AUTH_PROBE \<or>
      \<not> rq_uses_network rq) \<and>
     i < length (pc_capabilities policy) \<and>
     span_eq policy_text (cp_name (pc_capabilities policy ! i)) (rq_capability rq) \<and>
     (\<forall>k < i. \<not> span_eq policy_text (cp_name (pc_capabilities policy ! k)) (rq_capability rq)) \<and>
     cp_enabled (pc_capabilities policy ! i) \<and>
     cp_kind (pc_capabilities policy ! i) = cap_kind_for_action (rq_kind rq) \<and>
     unat (rq_cost rq) \<le> unat (cp_budget (pc_capabilities policy ! i)) \<and>
     unat (consumed_for_action usage (rq_kind rq)) + unat (rq_cost rq)
       \<le> unat (global_budget_for_action policy (rq_kind rq))"
  using decide_allow_iff [OF assms] unfolding grant_conditions_def .

text \<open>Every decision is an allow of one index or a denial.\<close>

lemma decide_cases:
  "(\<exists>i. spg_policy_decide policy_text policy usage rq = allow i) \<or>
   dc_kind (spg_policy_decide policy_text policy usage rq) = DECISION_DENY"
  by (simp add: spg_policy_decide_def Let_def deny_def)

lemma decide_allow_index:
  "dc_kind (spg_policy_decide policy_text policy usage rq) = DECISION_ALLOW \<Longrightarrow>
   spg_policy_decide policy_text policy usage rq =
     allow (dc_capability_index (spg_policy_decide policy_text policy usage rq))"
  using decide_cases [of policy_text policy usage rq] by (auto simp: allow_def)

definition usage_le :: "policy_usage \<Rightarrow> policy_usage \<Rightarrow> bool" where
  "usage_le u v \<longleftrightarrow> (\<forall>k. k \<noteq> ACTION_FINISH \<longrightarrow> consumed_for_action u k \<le> consumed_for_action v k)"

text \<open>A request allowed after some usage was allowed, under the same capability, at every
  smaller usage: nothing the run consumes can turn a denial into a grant.\<close>
theorem spg_policy_decide_antimono:
  assumes "length (pc_capabilities policy) \<le> POLICY_MAX_CAPABILITIES" "usage_le u v"
    and "spg_policy_decide policy_text policy v rq = allow i"
  shows "spg_policy_decide policy_text policy u rq = allow i"
proof -
  from assms(3) have g: "grant_conditions policy_text policy v rq i"
    using decide_allow_iff [OF assms(1)] by simp
  then have "unat (consumed_for_action u (rq_kind rq)) \<le> unat (consumed_for_action v (rq_kind rq))"
    using assms(2) by (simp add: usage_le_def grant_conditions_def word_le_nat_alt)
  with g have "grant_conditions policy_text policy u rq i" by (simp add: grant_conditions_def)
  then show ?thesis using decide_allow_iff [OF assms(1)] by simp
qed

definition sample_policy :: policy_config where
  "sample_policy = \<lparr>pc_network_default = NETWORK_DENY,
     pc_budgets = zero_budgets\<lparr>bd_shell_actions := 2\<rparr>,
     pc_capabilities = [\<lparr>cp_name = mk_span 0 4, cp_kind = CAP_MEMORY, cp_enabled = True, cp_budget = 9\<rparr>,
       \<lparr>cp_name = mk_span 4 5, cp_kind = CAP_LOCAL_SHELL, cp_enabled = True, cp_budget = 1\<rparr>]\<rparr>"

definition sample_request :: action_request where
  "sample_request = \<lparr>rq_kind = ACTION_LOCAL_SHELL, rq_capability = mk_span 4 5,
     rq_uses_network = False, rq_cost = 1\<rparr>"

definition usage_shell :: "u64 \<Rightarrow> policy_usage" where
  "usage_shell n = \<lparr>us_consumed = zero_budgets\<lparr>bd_shell_actions := n\<rparr>\<rparr>"

lemma sample_policy_caps: "length (pc_capabilities sample_policy) \<le> POLICY_MAX_CAPABILITIES"
  by (simp add: sample_policy_def POLICY_MAX_CAPABILITIES_def)

lemma sample_decide: "spg_policy_decide ''loadshell'' sample_policy (usage_shell 1) sample_request = allow 1"
  by code_simp

theorem spg_policy_decide_allow_iff_witness:
  "unat (consumed_for_action (usage_shell 1) ACTION_LOCAL_SHELL) + 1 \<le> 2"
  using sample_decide [unfolded spg_policy_decide_allow_iff [OF sample_policy_caps]]
  by (simp add: sample_policy_def sample_request_def)

theorem spg_policy_decide_antimono_witness:
  "spg_policy_decide ''loadshell'' sample_policy (usage_shell 0) sample_request = allow 1"
proof (rule spg_policy_decide_antimono [OF sample_policy_caps _ sample_decide])
  show "usage_le (usage_shell 0) (usage_shell 1)"
    unfolding usage_le_def
  proof (intro allI impI)
    fix k
    assume "k \<noteq> ACTION_FINISH"
    then show "consumed_for_action (usage_shell 0) k \<le> consumed_for_action (usage_shell 1) k"
      by (cases k) (simp_all add: usage_shell_def zero_budgets_def)
  qed
qed

end
