(* ===== verification/SexprLex.thy ===== *)
theory SexprLex
  imports Sexpr
begin

text \<open>
  The tokenizer's contract: whatever the input and the outcome, the tokens in the caller's
  array lie inside the text, do not overlap, come in source order, fit the array, and each
  has the form of its kind. Every consumer reads the text through these spans.
\<close>

section \<open>The inner scans\<close>

lemma skip_comment_le:
  "skip_comment input i col = (i', col') \<Longrightarrow> i \<le> length input \<Longrightarrow> i' \<le> length input"
proof (induction input i col rule: skip_comment.induct)
  case (1 input i col)
  then show ?case by (auto simp: skip_comment.simps [of input i col] split: if_splits)
qed

lemma scan_string_closed:
  "scan_string input i col = Inr (True, i', col') \<Longrightarrow>
   i < i' \<and> i' \<le> length input \<and> input ! (i' - 1) = ch_quote"
proof (induction input i col rule: scan_string.induct)
  case (1 input i col)
  from "1.prems" "1.IH" show ?case
    by (fastforce simp: scan_string.simps [of input i col] Let_def split: if_splits)
qed

lemma scan_symbol_munch:
  "scan_symbol input i col = Inr (i', col') \<Longrightarrow> i \<le> length input \<Longrightarrow>
   i' \<le> length input \<and> (\<forall>j. i \<le> j \<and> j < i' \<longrightarrow> valid_symbol_char (input ! j)) \<and>
   (i' < length input \<longrightarrow> is_delim (input ! i'))"
proof (induction input i col rule: scan_symbol.induct)
  case (1 input i col)
  show ?case
  proof (cases "i < length input \<and> \<not> is_delim (input ! i)")
    case True
    with "1.prems"(1) have v: "valid_symbol_char (input ! i)"
      and run: "scan_symbol input (Suc i) (Suc col) = Inr (i', col')"
      by (auto simp: scan_symbol.simps [of input i col] split: if_splits)
    have "i' \<le> length input \<and> (\<forall>j. Suc i \<le> j \<and> j < i' \<longrightarrow> valid_symbol_char (input ! j)) \<and>
          (i' < length input \<longrightarrow> is_delim (input ! i'))"
      using "1.IH" True v run by simp
    with v show ?thesis by (metis Suc_leI le_neq_implies_less)
  next
    case False
    with "1.prems" show ?thesis by (auto simp: scan_symbol.simps [of input i col])
  qed
qed

section \<open>Well-formed tokens\<close>

definition tk_start :: "sexpr_token \<Rightarrow> nat" where
  "tk_start t = sp_offset (tk_span t)"

definition tk_end :: "sexpr_token \<Rightarrow> nat" where
  "tk_end t = sp_offset (tk_span t) + sp_length (tk_span t)"

fun token_form :: "string \<Rightarrow> token_kind \<Rightarrow> nat \<Rightarrow> nat \<Rightarrow> bool" where
  "token_form input TOKEN_LPAREN a b = (b = Suc a \<and> input ! a = CHR ''('')"
| "token_form input TOKEN_RPAREN a b = (b = Suc a \<and> input ! a = CHR '')'')"
| "token_form input TOKEN_STRING a b =
     (Suc a < b \<and> input ! a = ch_quote \<and> input ! (b - 1) = ch_quote)"
| "token_form input TOKEN_SYMBOL a b =
     (a < b \<and> (\<forall>j. a \<le> j \<and> j < b \<longrightarrow> valid_symbol_char (input ! j)) \<and>
      (b < length input \<longrightarrow> is_delim (input ! b)))"

definition token_ok :: "string \<Rightarrow> sexpr_token \<Rightarrow> bool" where
  "token_ok input t \<longleftrightarrow>
     tk_end t \<le> length input \<and> token_form input (tk_kind t) (tk_start t) (tk_end t)"

definition tokens_ok :: "string \<Rightarrow> sexpr_token list \<Rightarrow> bool" where
  "tokens_ok input toks \<longleftrightarrow>
     list_all (token_ok input) toks \<and> sorted_wrt (\<lambda>s t. tk_end s \<le> tk_start t) toks"

lemma token_ok_span:
  assumes "token_ok input t"
  shows "spg_sexpr_span_valid (length input) (tk_span t)" "0 < sp_length (tk_span t)"
proof -
  show "spg_sexpr_span_valid (length input) (tk_span t)"
    using assms by (auto simp: token_ok_def tk_end_def spg_sexpr_span_valid_def)
  show "0 < sp_length (tk_span t)"
    using assms by (cases "tk_kind t") (auto simp: token_ok_def tk_end_def tk_start_def)
qed

definition lex_inv :: "string \<Rightarrow> nat \<Rightarrow> nat \<Rightarrow> sexpr_token list \<Rightarrow> bool" where
  "lex_inv input cap i toks \<longleftrightarrow>
     i \<le> length input \<and> length toks \<le> cap \<and> tokens_ok input toks \<and> list_all (\<lambda>t. tk_end t \<le> i) toks"

lemma lex_inv_skip: "lex_inv input cap i toks \<Longrightarrow> i \<le> j \<Longrightarrow> j \<le> length input \<Longrightarrow> lex_inv input cap j toks"
  by (auto simp: lex_inv_def list_all_iff)

lemma lex_inv_emit:
  assumes "lex_inv input cap i toks" "i \<le> j" "j \<le> length input" "length toks < cap"
    and "token_form input kind i j"
  shows "lex_inv input cap j
           (toks @ [\<lparr>tk_kind = kind, tk_span = mk_span i (j - i), tk_line = l, tk_column = c\<rparr>])"
  using assms
  by (auto simp: lex_inv_def tokens_ok_def list_all_iff sorted_wrt_append token_ok_def
      tk_end_def tk_start_def)

lemma emit_token_inv:
  assumes "lex_inv input cap i toks" "i \<le> j" "j \<le> length input" "token_form input kind i j"
    and "emit_token kind i j line col col' cap toks = Tok_next i' line' k toks'"
  shows "lex_inv input cap i' toks'"
  using emit_token_next [OF assms(5)] lex_inv_emit [OF assms(1-3) _ assms(4)] by simp

lemma tokenize_step_inv:
  assumes inv: "lex_inv input cap i toks" and i: "i < length input"
    and step: "tokenize_step input cap i line col toks = Tok_next i' line' col' toks'"
  shows "lex_inv input cap i' toks'"
proof -
  let ?c = "input ! i"
  note step' = step [unfolded tokenize_step_def Let_def]
  consider
      (blank) "i' = Suc i" "toks' = toks"
    | (comment) k where "skip_comment input i col = (i', k)" "toks' = toks"
    | (paren) "?c = CHR ''('' \<or> ?c = CHR '')''"
        "emit_token (if ?c = CHR ''('' then TOKEN_LPAREN else TOKEN_RPAREN)
           i (Suc i) line col (Suc col) cap toks = Tok_next i' line' col' toks'"
    | (str) j k where "?c = ch_quote" "scan_string input (Suc i) (Suc col) = Inr (True, j, k)"
        "emit_token TOKEN_STRING i j line col k cap toks = Tok_next i' line' col' toks'"
    | (sym) j k where "valid_symbol_char ?c" "scan_symbol input i col = Inr (j, k)"
        "emit_token TOKEN_SYMBOL i j line col k cap toks = Tok_next i' line' col' toks'"
    using step' by (simp split: if_splits prod.splits sum.splits)
  then show ?thesis
  proof cases
    case blank
    then show ?thesis using lex_inv_skip [OF inv] i by simp
  next
    case comment
    then show ?thesis using lex_inv_skip [OF inv] skip_comment_ge skip_comment_le i by simp
  next
    case paren
    then have "token_form input (if ?c = CHR ''('' then TOKEN_LPAREN else TOKEN_RPAREN) i (Suc i)"
      by auto
    then show ?thesis using emit_token_inv [OF inv _ _ _ paren(2)] i by simp
  next
    case (str j k)
    then show ?thesis
      using emit_token_inv [OF inv _ _ _ str(3)] scan_string_closed [OF str(2)] by simp
  next
    case (sym j k)
    have "token_form input TOKEN_SYMBOL i j" "i \<le> j" "j \<le> length input"
      using scan_symbol_munch [OF sym(2)] scan_symbol_gt [OF sym(2) i sym(1)] i by simp_all
    then show ?thesis using emit_token_inv [OF inv _ _ _ sym(3)] by simp
  qed
qed

text \<open>A step that ends the call hands back the tokens it was given.\<close>

lemma emit_token_done:
  "emit_token kind i j line col col' cap toks = Tok_done r \<Longrightarrow>
   r = tokenize_fail toks (set_error SPG_E_LIMIT i line col)"
  by (auto simp: emit_token_def push_token_def split: sum.splits if_splits)

lemma tokenize_step_done:
  assumes "tokenize_step input cap i line col toks = Tok_done r"
  shows "\<exists>st off l c. r = tokenize_fail toks (set_error st off l c) \<and>
           (st = SPG_E_FORMAT \<or> st = SPG_E_LIMIT)"
  using assms
  by (simp add: tokenize_step_def Let_def split: if_splits prod.splits sum.splits)
     (blast dest: emit_token_done)+

lemma tokenize_loop_inv:
  "lex_inv input cap i toks \<Longrightarrow> tokenize_loop input cap i line col toks = (st, toks', e) \<Longrightarrow>
   \<exists>j. lex_inv input cap j toks'"
proof (induction input cap i line col toks rule: tokenize_loop.induct)
  case (1 input cap i line col toks)
  show ?case
  proof (cases "i < length input")
    case False
    with "1.prems" show ?thesis by (auto simp: tokenize_loop.simps [of input cap i])
  next
    case i: True
    show ?thesis
    proof (cases "tokenize_step input cap i line col toks")
      case (Inl r)
      with "1.prems" i tokenize_step_done [OF Inl] show ?thesis
        by (auto simp: tokenize_loop.simps [of input cap i] tokenize_fail_def)
    next
      case (Inr r)
      obtain i' l' c' t' where r: "r = (i', l', c', t')" by (cases r) auto
      have "lex_inv input cap i' t'"
        using tokenize_step_inv [OF "1.prems"(1) i] Inr r by blast
      with "1.IH" i Inr r "1.prems"(2) show ?thesis
        by (auto simp: tokenize_loop.simps [of input cap i])
    qed
  qed
qed

lemma tokenize_loop_status:
  "tokenize_loop input cap i line col toks = (st, toks', e) \<Longrightarrow>
   st = SPG_OK \<or> st = SPG_E_FORMAT \<or> st = SPG_E_LIMIT"
proof (induction input cap i line col toks rule: tokenize_loop.induct)
  case (1 input cap i line col toks)
  show ?case
  proof (cases "i < length input")
    case False
    with "1.prems" show ?thesis by (auto simp: tokenize_loop.simps [of input cap i])
  next
    case i: True
    show ?thesis
    proof (cases "tokenize_step input cap i line col toks")
      case (Inl r)
      with "1.prems" i tokenize_step_done [OF Inl] show ?thesis
        by (auto simp: tokenize_loop.simps [of input cap i] tokenize_fail_def set_error_def)
    next
      case (Inr r)
      obtain i' l' c' t' where "r = (i', l', c', t')" by (cases r) auto
      with "1.IH" i Inr "1.prems" show ?thesis
        by (auto simp: tokenize_loop.simps [of input cap i])
    qed
  qed
qed

text \<open>
  for every text, capacity and outcome, the tokens written to the caller's array fit
  it, lie inside the text in source order without overlap, and have the form of their kind
  (a parenthesis is that character, a string is quoted at both ends, a symbol is a maximal
  run of symbol characters).
\<close>

theorem spg_sexpr_tokenize_spans:
  assumes "spg_sexpr_tokenize input cap = (st, toks, e)"
  shows "length toks \<le> cap \<and> tokens_ok input toks"
proof (cases "cap = 0")
  case True
  with assms show ?thesis
    by (simp add: spg_sexpr_tokenize_def tokenize_fail_def tokens_ok_def)
next
  case False
  then have "tokenize_loop input cap 0 1 1 [] = (st, toks, e)"
    using assms by (simp add: spg_sexpr_tokenize_def)
  moreover have "lex_inv input cap 0 []" by (simp add: lex_inv_def tokens_ok_def)
  ultimately obtain j where "lex_inv input cap j toks" using tokenize_loop_inv by blast
  then show ?thesis by (simp add: lex_inv_def)
qed

definition sample_text :: string where
  "sample_text = ''(a b)''"

lemma sample_text_tokens:
  "spg_sexpr_tokenize sample_text 2 =
     (SPG_E_LIMIT,
      [\<lparr>tk_kind = TOKEN_LPAREN, tk_span = mk_span 0 1, tk_line = 1, tk_column = 1\<rparr>,
       \<lparr>tk_kind = TOKEN_SYMBOL, tk_span = mk_span 1 1, tk_line = 1, tk_column = 2\<rparr>],
      set_error SPG_E_LIMIT 3 1 4)"
  by (simp add: spg_sexpr_tokenize_def sample_text_def tokenize_loop.simps tokenize_step_def
      emit_token_def push_token_def scan_symbol.simps valid_symbol_char_def is_delim_def
      is_space_def tokenize_fail_def set_error_def Let_def)

lemma spg_sexpr_tokenize_spans_witness:
  "fst (spg_sexpr_tokenize sample_text 2) = SPG_E_LIMIT \<and>
   length (fst (snd (spg_sexpr_tokenize sample_text 2))) \<le> 2 \<and>
   tokens_ok sample_text (fst (snd (spg_sexpr_tokenize sample_text 2)))"
  using spg_sexpr_tokenize_spans [OF sample_text_tokens]
  by (simp only: sample_text_tokens fst_conv snd_conv)

end
