(* ===== verification/Hash.thy ===== *)
theory Hash
  imports Status
begin

unbundle bit_operations_syntax

text \<open>
  The incremental BLAKE3 of \<open>src/core/hash.c\<close>, over 32-bit words. The chaining-value stack is
  a list with its top first; the chunk buffer is the list of the \<open>chunk_len\<close> bytes in use.
  The block words are read as on a little-endian host, which is also what the portable
  branch of \<open>words_from_block\<close> computes.
\<close>

definition HASH_BYTES :: nat where "HASH_BYTES = 32"
definition HASH_BLOCK_BYTES :: nat where "HASH_BLOCK_BYTES = 64"
definition HASH_CHUNK_BYTES :: nat where "HASH_CHUNK_BYTES = 1024"
definition HASH_MAX_DEPTH :: nat where "HASH_MAX_DEPTH = 54"

definition CHUNK_START :: u32 where "CHUNK_START = 1"
definition CHUNK_END :: u32 where "CHUNK_END = 2"
definition PARENT :: u32 where "PARENT = 4"
definition ROOT :: u32 where "ROOT = 8"

record blake3_output =
  bo_input_cv :: "u32 list"
  bo_block_words :: "u32 list"
  bo_counter :: u64
  bo_block_len :: u32
  bo_flags :: u32

record hash_state =
  hs_cv_stack :: "u32 list list"
  hs_chunk :: "u8 list"
  hs_chunk_counter :: u64

definition iv :: "u32 list" where
  "iv = [0x6A09E667, 0xBB67AE85, 0x3C6EF372, 0xA54FF53A,
         0x510E527F, 0x9B05688C, 0x1F83D9AB, 0x5BE0CD19]"

definition msg_permutation :: "nat list" where
  "msg_permutation = [2, 6, 3, 10, 7, 0, 4, 13, 1, 11, 12, 5, 9, 14, 15, 8]"

definition rotr32 :: "u32 \<Rightarrow> nat \<Rightarrow> u32" where
  "rotr32 x n = drop_bit n x OR push_bit (32 - n) x"

definition store32 :: "u32 \<Rightarrow> u8 list" where
  "store32 word = [ucast (word AND 0xff), ucast (drop_bit 8 word AND 0xff),
                   ucast (drop_bit 16 word AND 0xff), ucast (drop_bit 24 word AND 0xff)]"

definition load32 :: "u8 list \<Rightarrow> nat \<Rightarrow> u32" where
  "load32 bytes i = ucast (bytes ! (4 * i)) OR push_bit 8 (ucast (bytes ! (4 * i + 1))) OR
     push_bit 16 (ucast (bytes ! (4 * i + 2))) OR push_bit 24 (ucast (bytes ! (4 * i + 3)))"

definition words_from_block :: "u8 list \<Rightarrow> u32 list" where
  "words_from_block block =
     (let padded = block @ replicate (64 - length block) 0
      in map (load32 padded) [0..<16])"

definition g :: "nat \<Rightarrow> nat \<Rightarrow> nat \<Rightarrow> nat \<Rightarrow> u32 \<Rightarrow> u32 \<Rightarrow> u32 list \<Rightarrow> u32 list" where
  "g a b c d mx my s0 =
     (let s1 = s0[a := s0 ! a + s0 ! b + mx];
          s2 = s1[d := rotr32 (s1 ! d XOR s1 ! a) 16];
          s3 = s2[c := s2 ! c + s2 ! d];
          s4 = s3[b := rotr32 (s3 ! b XOR s3 ! c) 12];
          s5 = s4[a := s4 ! a + s4 ! b + my];
          s6 = s5[d := rotr32 (s5 ! d XOR s5 ! a) 8];
          s7 = s6[c := s6 ! c + s6 ! d]
      in s7[b := rotr32 (s7 ! b XOR s7 ! c) 7])"

definition round_fn :: "u32 list \<Rightarrow> u32 list \<Rightarrow> u32 list" where
  "round_fn msg s0 =
     (let s1 = g 0 4 8 12 (msg ! 0) (msg ! 1) s0;
          s2 = g 1 5 9 13 (msg ! 2) (msg ! 3) s1;
          s3 = g 2 6 10 14 (msg ! 4) (msg ! 5) s2;
          s4 = g 3 7 11 15 (msg ! 6) (msg ! 7) s3;
          s5 = g 0 5 10 15 (msg ! 8) (msg ! 9) s4;
          s6 = g 1 6 11 12 (msg ! 10) (msg ! 11) s5;
          s7 = g 2 7 8 13 (msg ! 12) (msg ! 13) s6
      in g 3 4 9 14 (msg ! 14) (msg ! 15) s7)"

definition permute :: "u32 list \<Rightarrow> u32 list" where
  "permute msg = map (\<lambda>i. msg ! (msg_permutation ! i)) [0..<16]"

fun rounds :: "nat \<Rightarrow> u32 list \<Rightarrow> u32 list \<Rightarrow> u32 list" where
  "rounds 0 msg s = s"
| "rounds (Suc n) msg s =
     (let s' = round_fn msg s in rounds n (if n \<noteq> 0 then permute msg else msg) s')"

definition compress :: "u32 list \<Rightarrow> u32 list \<Rightarrow> u64 \<Rightarrow> u32 \<Rightarrow> u32 \<Rightarrow> u32 list" where
  "compress cv block_words counter block_len flags =
     (let s = rounds 7 block_words
                (take 8 cv @ take 4 iv @
                 [ucast counter, ucast (drop_bit 32 counter), block_len, flags])
      in map (\<lambda>i. s ! i XOR s ! (i + 8)) [0..<8] @ map (\<lambda>i. s ! (i + 8) XOR cv ! i) [0..<8])"

definition output_chaining_value :: "blake3_output \<Rightarrow> u32 list" where
  "output_chaining_value out =
     take 8 (compress (bo_input_cv out) (bo_block_words out) (bo_counter out)
               (bo_block_len out) (bo_flags out))"

function output_root_loop :: "blake3_output \<Rightarrow> u64 \<Rightarrow> nat \<Rightarrow> nat \<Rightarrow> u8 list" where
  "output_root_loop out counter produced out_n =
     (if produced < out_n then
        let words = compress (bo_input_cv out) (bo_block_words out) counter (bo_block_len out)
                      (bo_flags out OR ROOT);
            block = concat (map store32 words);
            n = (if out_n - produced < 64 then out_n - produced else 64)
        in take n block @ output_root_loop out (counter + 1) (produced + n) out_n
      else [])"
  by pat_completeness auto
termination by (relation "measure (\<lambda>(_, _, p, n). n - p)") auto

declare output_root_loop.simps [simp del]

definition output_root_bytes :: "blake3_output \<Rightarrow> nat \<Rightarrow> u8 list" where
  "output_root_bytes out out_n = output_root_loop out 0 0 out_n"

text \<open>The loop over the blocks of a chunk; an empty chunk is one empty block.\<close>

function chunk_loop ::
  "u8 list \<Rightarrow> u64 \<Rightarrow> nat \<Rightarrow> u32 list \<Rightarrow> blake3_output \<Rightarrow> blake3_output" where
  "chunk_loop chunk counter offset cv output =
     (if offset < length chunk \<or> (chunk = [] \<and> offset = 0) then
        let remaining = length chunk - offset;
            block_len = (if remaining < HASH_BLOCK_BYTES then remaining else HASH_BLOCK_BYTES);
            is_start = (offset = 0);
            is_end = (offset + block_len = length chunk);
            out = \<lparr>bo_input_cv = cv,
                   bo_block_words = words_from_block (take block_len (drop offset chunk)),
                   bo_counter = counter, bo_block_len = of_nat block_len,
                   bo_flags = (if is_start then CHUNK_START else 0) OR
                              (if is_end then CHUNK_END else 0)\<rparr>;
            cv' = (if \<not> is_end then output_chaining_value out else cv)
        in if chunk = [] then out else chunk_loop chunk counter (offset + block_len) cv' out
      else output)"
  by pat_completeness auto
termination
  by (relation "measure (\<lambda>(chunk, _, offset, _). length chunk - offset)")
     (auto simp: HASH_BLOCK_BYTES_def)

declare chunk_loop.simps [simp del]

definition chunk_output :: "u8 list \<Rightarrow> u64 \<Rightarrow> blake3_output" where
  "chunk_output chunk chunk_counter =
     chunk_loop chunk chunk_counter 0 iv
       \<lparr>bo_input_cv = replicate 8 0, bo_block_words = replicate 16 0,
        bo_counter = chunk_counter, bo_block_len = 0, bo_flags = CHUNK_START OR CHUNK_END\<rparr>"

definition parent_output :: "u32 list \<Rightarrow> u32 list \<Rightarrow> blake3_output" where
  "parent_output left right =
     \<lparr>bo_input_cv = iv, bo_block_words = left @ right, bo_counter = 0, bo_block_len = 64,
      bo_flags = PARENT\<rparr>"

definition parent_cv :: "u32 list \<Rightarrow> u32 list \<Rightarrow> u32 list" where
  "parent_cv left right = output_chaining_value (parent_output left right)"

text \<open>The merge loop: while the chunk count is even, pop and combine; then push.\<close>

fun push_cv :: "u32 list list \<Rightarrow> u32 list \<Rightarrow> u64 \<Rightarrow> spg_status \<times> u32 list list" where
  "push_cv [] cv chunks =
     (if chunks AND 1 = 0 then (SPG_E_INTERNAL, []) else (SPG_OK, [cv]))"
| "push_cv (left # stack) cv chunks =
     (if chunks AND 1 = 0 then push_cv stack (parent_cv left cv) (drop_bit 1 chunks)
      else if length (left # stack) \<ge> HASH_MAX_DEPTH then (SPG_E_LIMIT, left # stack)
      else (SPG_OK, cv # left # stack))"

definition flush_chunk :: "hash_state \<Rightarrow> spg_status \<times> hash_state" where
  "flush_chunk st =
     (if hs_chunk st = [] then (SPG_OK, st)
      else let cv = output_chaining_value (chunk_output (hs_chunk st) (hs_chunk_counter st));
               counter = hs_chunk_counter st + 1
           in case push_cv (hs_cv_stack st) cv counter of
                (status, stack) \<Rightarrow>
                  (status, \<lparr>hs_cv_stack = stack, hs_chunk = [], hs_chunk_counter = counter\<rparr>))"

lemma flush_chunk_empties: "flush_chunk st = (status, st') \<Longrightarrow> hs_chunk st' = []"
  by (auto simp: flush_chunk_def Let_def split: prod.splits if_splits)

definition spg_hash_init :: hash_state where
  "spg_hash_init = \<lparr>hs_cv_stack = [], hs_chunk = [], hs_chunk_counter = 0\<rparr>"

text \<open>
  The update loop. The test \<open>HASH_CHUNK_BYTES < length (hs_chunk st)\<close> stands for the array
  bound of \<open>chunk\<close>; \<open>hash_ok\<close> below shows that no reachable state meets it.
\<close>

function spg_hash_update :: "hash_state \<Rightarrow> u8 list \<Rightarrow> spg_status \<times> hash_state" where
  "spg_hash_update st data =
     (if data = [] \<or> HASH_CHUNK_BYTES < length (hs_chunk st) then (SPG_OK, st)
      else let space = HASH_CHUNK_BYTES - length (hs_chunk st);
               n = (if length data < space then length data else space);
               st1 = st\<lparr>hs_chunk := hs_chunk st @ take n data\<rparr>;
               rest = drop n data
           in if length (hs_chunk st1) = HASH_CHUNK_BYTES \<and> rest \<noteq> [] then
                (case flush_chunk st1 of
                   (status, st2) \<Rightarrow>
                     if status \<noteq> SPG_OK then (status, st2) else spg_hash_update st2 rest)
              else spg_hash_update st1 rest)"
  by pat_completeness auto
termination
proof (relation "inv_image (less_than <*lex*> less_than)
    (\<lambda>(st, data). (length data, length (hs_chunk st)))", goal_cases)
  case 1
  then show ?case by (intro wf_inv_image wf_lex_prod wf_less_than)
next
  case (2 st data space n st1 rest x y)
  have "hs_chunk y = []" using flush_chunk_empties 2(7) by metis
  moreover have "length (hs_chunk st1) = HASH_CHUNK_BYTES" using 2(6) by simp
  then have "n = 0 \<longrightarrow> hs_chunk st \<noteq> []" using 2(4) by (auto simp: HASH_CHUNK_BYTES_def)
  moreover have "length rest < length data \<or> (n = 0 \<and> rest = data)"
    using 2(1,5) by (cases "n = 0") auto
  ultimately show ?case by auto
next
  case (3 st data space n st1 rest)
  have "length data > 0" using 3(1) by simp
  moreover have "n \<noteq> 0"
  proof
    assume "n = 0"
    with 3(3) \<open>length data > 0\<close> have "space = 0" by (simp split: if_splits)
    then have "length (hs_chunk st) = HASH_CHUNK_BYTES" using 3(1,2) by simp
    then show False using 3(1,4,5,6) \<open>n = 0\<close> by simp
  qed
  ultimately show ?case using 3(5) by simp
qed

declare spg_hash_update.simps [simp del]

fun final_loop :: "u32 list list \<Rightarrow> blake3_output \<Rightarrow> blake3_output" where
  "final_loop [] output = output"
| "final_loop (left # stack) output =
     final_loop stack (parent_output left (output_chaining_value output))"

definition spg_hash_final :: "hash_state \<Rightarrow> nat \<Rightarrow> spg_status \<times> u8 list" where
  "spg_hash_final st out_n =
     (if out_n = 0 then (SPG_E_INVALID_ARG, [])
      else (SPG_OK, output_root_bytes
              (final_loop (hs_cv_stack st) (chunk_output (hs_chunk st) (hs_chunk_counter st))) out_n))"

definition spg_hash_bytes :: "u8 list \<Rightarrow> nat \<Rightarrow> spg_status \<times> u8 list" where
  "spg_hash_bytes input out_n =
     (if out_n = 0 then (SPG_E_INVALID_ARG, [])
      else case spg_hash_update spg_hash_init input of
             (status, st) \<Rightarrow> if status \<noteq> SPG_OK then (status, []) else spg_hash_final st out_n)"

end
