(* ===== verification/HashTree.thy ===== *)
theory HashTree
  imports Hash
begin

text \<open>
  The incremental hash is the tree hash. The reference is BLAKE3's definition: the input is
  cut into 1024-byte chunks, and the chunk outputs are combined by a binary tree whose left
  part is the largest power of two below their number. The stack of \<open>push_cv\<close> is shown to hold
  the complete subtrees of the binary representation of the chunk count.
\<close>

section \<open>Feeding byte by byte\<close>

fun feed :: "hash_state \<Rightarrow> u8 list \<Rightarrow> spg_status \<times> hash_state" where
  "feed st [] = (SPG_OK, st)"
| "feed st (b # bs) =
     (if length (hs_chunk st) = HASH_CHUNK_BYTES
      then (case flush_chunk st of
              (status, st2) \<Rightarrow>
                if status \<noteq> SPG_OK then (status, st2) else feed (st2\<lparr>hs_chunk := [b]\<rparr>) bs)
      else feed (st\<lparr>hs_chunk := hs_chunk st @ [b]\<rparr>) bs)"

lemma feed_take:
  "length (hs_chunk st) + n \<le> HASH_CHUNK_BYTES \<Longrightarrow> n \<le> length xs \<Longrightarrow>
   feed st xs = feed (st\<lparr>hs_chunk := hs_chunk st @ take n xs\<rparr>) (drop n xs)"
proof (induction n arbitrary: st xs)
  case (Suc n)
  obtain b bs where xs: "xs = b # bs" using Suc.prems(2) by (cases xs) auto
  have "feed st xs = feed (st\<lparr>hs_chunk := hs_chunk st @ [b]\<rparr>) bs" using Suc.prems xs by simp
  also have "\<dots> = feed (st\<lparr>hs_chunk := hs_chunk st @ take (Suc n) xs\<rparr>) (drop (Suc n) xs)"
    using Suc.IH [of "st\<lparr>hs_chunk := hs_chunk st @ [b]\<rparr>" bs] Suc.prems xs by simp
  finally show ?case .
qed simp

lemma update_feed:
  "length (hs_chunk st) \<le> HASH_CHUNK_BYTES \<Longrightarrow> spg_hash_update st xs = feed st xs"
proof (induction st xs rule: spg_hash_update.induct)
  case (1 st xs)
  let ?space = "HASH_CHUNK_BYTES - length (hs_chunk st)"
  let ?n = "if length xs < ?space then length xs else ?space"
  let ?st1 = "st\<lparr>hs_chunk := hs_chunk st @ take ?n xs\<rparr>"
  let ?rest = "drop ?n xs"
  show ?case
  proof (cases "xs = []")
    case True
    then show ?thesis by (simp add: spg_hash_update.simps)
  next
    case False
    have upd: "spg_hash_update st xs =
      (if length (hs_chunk ?st1) = HASH_CHUNK_BYTES \<and> ?rest \<noteq> [] then
         (case flush_chunk ?st1 of (status, st2) \<Rightarrow>
            if status \<noteq> SPG_OK then (status, st2) else spg_hash_update st2 ?rest)
       else spg_hash_update ?st1 ?rest)"
      using False "1.prems" by (subst spg_hash_update.simps) (simp only: Let_def not_less [symmetric] simp_thms if_False)
    have len1: "length (hs_chunk ?st1) \<le> HASH_CHUNK_BYTES" using "1.prems" by auto
    have split: "feed st xs = feed ?st1 ?rest"
      using "1.prems" by (intro feed_take) auto
    show ?thesis
    proof (cases "length (hs_chunk ?st1) = HASH_CHUNK_BYTES \<and> ?rest \<noteq> []")
      case False2: False
      then have "spg_hash_update ?st1 ?rest = feed ?st1 ?rest"
        using "1.IH"(2) [OF _ refl refl refl refl False2 len1] False "1.prems" by simp
      then show ?thesis using upd split False2 by presburger
    next
      case True
      obtain b bs where rest: "?rest = b # bs" using True by (cases ?rest) auto
      obtain status st2 where fl: "flush_chunk ?st1 = (status, st2)" by (cases "flush_chunk ?st1")
      have "feed ?st1 ?rest = (if status \<noteq> SPG_OK then (status, st2) else feed st2 ?rest)"
        using True fl flush_chunk_empties [OF fl] unfolding rest
        by (simp add: HASH_CHUNK_BYTES_def)
      moreover have "spg_hash_update st2 ?rest = feed st2 ?rest" if "status = SPG_OK"
        using "1.IH"(1) [OF _ refl refl refl refl True fl [symmetric]] False "1.prems"
          flush_chunk_empties [OF fl] that by simp
      ultimately show ?thesis using upd split True fl by simp
    qed
  qed
qed

lemma feed_append:
  "feed st (xs @ ys) =
     (case feed st xs of (status, st') \<Rightarrow> if status \<noteq> SPG_OK then (status, st') else feed st' ys)"
  by (induction st xs rule: feed.induct) (auto split: prod.split)

lemma feed_chunk_bound:
  "length (hs_chunk st) \<le> HASH_CHUNK_BYTES \<Longrightarrow> feed st xs = (status, st') \<Longrightarrow>
   length (hs_chunk st') \<le> HASH_CHUNK_BYTES"
proof (induction st xs rule: feed.induct)
  case (2 st b bs)
  show ?case
  proof (cases "length (hs_chunk st) = HASH_CHUNK_BYTES")
    case True
    obtain s2 st2 where f: "flush_chunk st = (s2, st2)" by (cases "flush_chunk st")
    show ?thesis
    proof (cases "s2 = SPG_OK")
      case True2: True
      have "length (hs_chunk (st2\<lparr>hs_chunk := [b]\<rparr>)) \<le> HASH_CHUNK_BYTES"
        by (simp add: HASH_CHUNK_BYTES_def)
      with "2.IH"(1) [OF True f [symmetric]] "2.prems"(2) True f True2 show ?thesis by simp
    next
      case False
      with "2.prems"(2) True f flush_chunk_empties [OF f] show ?thesis by simp
    qed
  next
    case False
    with "2.IH"(2) "2.prems" show ?thesis by simp
  qed
qed simp

section \<open>Chunks\<close>

function chunk_list :: "u8 list \<Rightarrow> u8 list list" where
  "chunk_list xs =
     (if length xs \<le> HASH_CHUNK_BYTES then [xs]
      else take HASH_CHUNK_BYTES xs # chunk_list (drop HASH_CHUNK_BYTES xs))"
  by pat_completeness auto
termination by (relation "measure length") (auto simp: HASH_CHUNK_BYTES_def)

declare chunk_list.simps [simp del]

lemma chunk_list_ne [simp]: "chunk_list xs \<noteq> []"
  by (simp add: chunk_list.simps)

lemma chunk_list_nonempty_last: "xs \<noteq> [] \<Longrightarrow> last (chunk_list xs) \<noteq> []"
  by (induction xs rule: chunk_list.induct) (subst chunk_list.simps, auto)

lemma chunk_list_last_len: "length (last (chunk_list xs)) \<le> HASH_CHUNK_BYTES"
  by (induction xs rule: chunk_list.induct) (subst chunk_list.simps, auto)

lemma chunk_list_snoc:
  "chunk_list (xs @ [b]) =
     (if length (last (chunk_list xs)) = HASH_CHUNK_BYTES then chunk_list xs @ [[b]]
      else butlast (chunk_list xs) @ [last (chunk_list xs) @ [b]])"
proof (induction xs rule: chunk_list.induct)
  case (1 xs)
  let ?C = HASH_CHUNK_BYTES
  have pos: "0 < ?C" by (simp add: HASH_CHUNK_BYTES_def)
  consider "length xs < ?C" | "length xs = ?C" | "length xs > ?C" by linarith
  then show ?case
  proof cases
    case 1
    then show ?thesis by (simp add: chunk_list.simps)
  next
    case 2
    then show ?thesis using pos by (simp add: chunk_list.simps)
  next
    case 3
    then have "chunk_list (xs @ [b]) = take ?C xs # chunk_list (drop ?C xs @ [b])"
      by (subst chunk_list.simps) simp
    moreover have "chunk_list xs = take ?C xs # chunk_list (drop ?C xs)"
      using 3 by (subst chunk_list.simps) simp
    ultimately show ?thesis using "1.IH" 3 by simp
  qed
qed

lemma chunk_list_count: "(length (chunk_list xs) - 1) * HASH_CHUNK_BYTES \<le> length xs"
proof (induction xs rule: chunk_list.induct)
  case (1 xs)
  show ?case
  proof (cases "length xs \<le> HASH_CHUNK_BYTES")
    case True
    then show ?thesis by (simp add: chunk_list.simps)
  next
    case False
    then have "length (chunk_list xs) = Suc (length (chunk_list (drop HASH_CHUNK_BYTES xs)))"
      by (subst chunk_list.simps) simp
    moreover obtain k where "length (chunk_list (drop HASH_CHUNK_BYTES xs)) = Suc k"
      by (cases "chunk_list (drop HASH_CHUNK_BYTES xs)") auto
    ultimately show ?thesis using 1 False by simp
  qed
qed

section \<open>The tree\<close>

text \<open>The largest power of two below \<open>n\<close> (for \<open>n \<ge> 2\<close>), the size of a left subtree.\<close>

function left_len :: "nat \<Rightarrow> nat" where
  "left_len n = (if n \<le> 2 then 1 else 2 * left_len ((n + 1) div 2))"
  by pat_completeness auto
termination by (relation "measure id") auto

declare left_len.simps [simp del]

lemma left_len_between: "2 \<le> n \<Longrightarrow> left_len n < n \<and> n \<le> 2 * left_len n"
proof (induction n rule: left_len.induct)
  case (1 n)
  show ?case
  proof (cases "n \<le> 2")
    case True
    with "1.prems" show ?thesis by (simp add: left_len.simps)
  next
    case False
    have "2 \<le> (n + 1) div 2" using False by simp
    from "1.IH" [OF False this] have "left_len ((n + 1) div 2) < (n + 1) div 2"
      "(n + 1) div 2 \<le> 2 * left_len ((n + 1) div 2)" by simp_all
    moreover have "left_len n = 2 * left_len ((n + 1) div 2)" using False by (subst left_len.simps) simp
    moreover have "2 * ((n + 1) div 2) \<le> n + 1" "n \<le> 2 * ((n + 1) div 2)" by presburger+
    ultimately show ?thesis by linarith
  qed
qed

lemma left_len_pow: "\<exists>h. left_len n = 2 ^ h"
proof (induction n rule: left_len.induct)
  case (1 n)
  show ?case
  proof (cases "n \<le> 2")
    case True
    then show ?thesis by (auto simp: left_len.simps intro: exI [of _ 0])
  next
    case False
    with "1.IH" obtain h where "left_len ((n + 1) div 2) = 2 ^ h" by blast
    then have "left_len n = 2 ^ Suc h" using False by (subst left_len.simps) simp
    then show ?thesis by blast
  qed
qed

lemma left_len_eq:
  assumes "2 ^ h < n" "n \<le> 2 ^ Suc h"
  shows "left_len n = 2 ^ h"
proof -
  have "2 \<le> n" using assms(1) one_le_power [of "2 :: nat" h] by linarith
  from left_len_between [OF this] obtain "left_len n < n" "n \<le> 2 * left_len n" by blast
  moreover obtain k where k: "left_len n = 2 ^ k" using left_len_pow by blast
  ultimately have "2 ^ k < (2 :: nat) ^ Suc h" "(2 :: nat) ^ h < 2 ^ Suc k"
    using assms by simp_all
  then have "k < Suc h" "h < Suc k" by (simp_all del: power_Suc)
  then have "k = h" by simp
  with k show ?thesis by simp
qed

function tree_output :: "blake3_output list \<Rightarrow> blake3_output" where
  "tree_output os =
     (if length os < 2 then hd os
      else parent_output
             (output_chaining_value (tree_output (take (left_len (length os)) os)))
             (output_chaining_value (tree_output (drop (left_len (length os)) os))))"
  by pat_completeness auto
termination
proof (relation "measure length", goal_cases)
  case (2 os)
  then show ?case using left_len_between [of "length os"] by simp
next
  case (3 os)
  obtain h where "left_len (length os) = 2 ^ h" using left_len_pow by blast
  moreover have "length os - 2 ^ h < length os" using 3 by (intro diff_less) auto
  ultimately show ?case by simp
qed simp

declare tree_output.simps [simp del]

lemma tree_output_one [simp]: "tree_output [out] = out"
  by (simp add: tree_output.simps)

section \<open>The stack holds the complete subtrees\<close>

text \<open>\<open>ctree j cvs\<close>: the chaining value of the complete tree over \<open>2 ^ j\<close> leaves.\<close>

fun ctree :: "nat \<Rightarrow> u32 list list \<Rightarrow> u32 list" where
  "ctree 0 cvs = hd cvs"
| "ctree (Suc j) cvs = parent_cv (ctree j (take (2 ^ j) cvs)) (ctree j (drop (2 ^ j) cvs))"

text \<open>\<open>rep j m stack cvs\<close>: the stack holds, top first, the complete subtrees of \<open>m * 2 ^ j\<close>
  leaves, one for each one-bit of \<open>m\<close>.\<close>

function rep :: "nat \<Rightarrow> nat \<Rightarrow> u32 list list \<Rightarrow> u32 list list \<Rightarrow> bool" where
  "rep j m stack cvs =
     (if m = 0 then stack = [] \<and> cvs = []
      else if even m then rep (Suc j) (m div 2) stack cvs
      else (case stack of
              [] \<Rightarrow> False
            | tp # rest \<Rightarrow> 2 ^ j \<le> length cvs \<and>
                tp = ctree j (drop (length cvs - 2 ^ j) cvs) \<and>
                rep (Suc j) (m div 2) rest (take (length cvs - 2 ^ j) cvs)))"
  by pat_completeness auto
termination by (relation "measure (\<lambda>(_, m, _). m)") auto

declare rep.simps [simp del]

lemma rep_even: "rep j (2 * m) stack cvs = rep (Suc j) m stack cvs"
  by (cases "m = 0") (auto simp: rep.simps [of j] rep.simps [of "Suc j" 0])

lemma rep_odd_append:
  "length blk = 2 ^ j \<Longrightarrow>
   rep j (Suc (2 * m)) (cv # stack) (cvs @ blk) = (cv = ctree j blk \<and> rep (Suc j) m stack cvs)"
  by (subst rep.simps) simp

lemma rep_oddE:
  assumes "rep j (Suc (2 * m)) stack cvs"
  obtains rest pre blk where "stack = ctree j blk # rest" "cvs = pre @ blk" "length blk = 2 ^ j"
    "rep (Suc j) m rest pre"
proof -
  let ?k = "length cvs - 2 ^ j"
  obtain t rest where s: "stack = t # rest" "2 ^ j \<le> length cvs"
    "t = ctree j (drop ?k cvs)" "rep (Suc j) m rest (take ?k cvs)"
    using assms by (subst (asm) rep.simps) (auto split: list.splits)
  show thesis
    by (rule that [of "drop ?k cvs" rest "take ?k cvs"]) (use s in simp_all)
qed

lemma rep_length: "rep j m stack cvs \<Longrightarrow> m < 2 ^ k \<Longrightarrow> length stack \<le> k"
proof (induction j m stack cvs arbitrary: k rule: rep.induct)
  case (1 j m stack cvs)
  show ?case
  proof (cases "m = 0")
    case True
    with 1 show ?thesis by (simp add: rep.simps)
  next
    case False
    with "1.prems"(2) obtain k' where k: "k = Suc k'" by (cases k) auto
    have half: "m div 2 < 2 ^ k'" using "1.prems"(2) k by simp
    show ?thesis
    proof (cases "even m")
      case True
      with "1.prems"(1) False have "rep (Suc j) (m div 2) stack cvs" by (subst (asm) rep.simps) simp
      from "1.IH"(1) [OF False True this half] k show ?thesis by simp
    next
      case odd: False
      with "1.prems"(1) False obtain t rest where s: "stack = t # rest"
        "rep (Suc j) (m div 2) rest (take (length cvs - 2 ^ j) cvs)"
        by (subst (asm) rep.simps) (auto split: list.splits)
      from "1.IH"(2) [OF False odd s(1) s(2) half] s(1) k show ?thesis by simp
    qed
  qed
qed

lemma word_even_unat: "even (unat (w :: u64)) \<longleftrightarrow> even w"
proof -
  have "bit (unat w) 0 = bit w 0" by (simp add: bit_unsigned_iff)
  then show ?thesis by (simp add: bit_0)
qed

lemma and_one_even: "(w :: u64) AND 1 = 0 \<longleftrightarrow> even (unat w)"
  unfolding and_one_eq word_even_unat by (rule even_iff_mod_2_eq_zero [symmetric])

lemma push_cv_rep:
  assumes "rep j (unat chunks - 1) stack cvs" "0 < unat chunks" "unat chunks < 2 ^ k"
    "k \<le> HASH_MAX_DEPTH" "length blk = 2 ^ j"
  shows "\<exists>stack'. push_cv stack (ctree j blk) chunks = (SPG_OK, stack') \<and>
                  rep j (unat chunks) stack' (cvs @ blk)"
  using assms
proof (induction stack arbitrary: j chunks cvs blk k)
  case Nil
  note N = Nil
  show ?case
  proof (cases "even (unat chunks)")
    case False
    then obtain m where m: "unat chunks = Suc (2 * m)" by (elim oddE) simp
    with N(1) have "rep (Suc j) m [] cvs" by (simp add: rep_even)
    moreover have "chunks AND 1 \<noteq> 0" using False by (simp add: and_one_even)
    ultimately show ?thesis using m N(5) by (simp add: rep_odd_append)
  next
    case True
    then obtain m where "unat chunks = 2 * m" by (elim evenE)
    with N(2) obtain m' where "unat chunks - 1 = Suc (2 * m')" by (cases m) auto
    with N(1) have False by (auto elim: rep_oddE)
    then show ?thesis ..
  qed
next
  case (Cons left rest)
  note C = Cons
  show ?case
  proof (cases "even (unat chunks)")
    case False
    then obtain m where m: "unat chunks = Suc (2 * m)" by (elim oddE) simp
    with C(2) have r: "rep (Suc j) m (left # rest) cvs" by (simp add: rep_even)
    obtain k' where k: "k = Suc k'" using C(3,4) by (cases k) auto
    have "m < 2 ^ k'" using C(4) m k by simp
    from rep_length [OF r this] k C(5) have "\<not> HASH_MAX_DEPTH \<le> length (left # rest)" by simp
    moreover have "chunks AND 1 \<noteq> 0" using False by (simp add: and_one_even)
    ultimately show ?thesis using m r C(6) by (simp add: rep_odd_append)
  next
    case True
    then obtain m where m: "unat chunks = 2 * m" by (elim evenE)
    with C(3) obtain m' where m': "m = Suc m'" by (cases m) auto
    with m C(2) have "rep j (Suc (2 * m')) (left # rest) cvs" by simp
    then obtain pre blk' where b: "left = ctree j blk'" "cvs = pre @ blk'" "length blk' = 2 ^ j"
      "rep (Suc j) m' rest pre"
      by (elim rep_oddE) auto
    have half: "unat (drop_bit 1 chunks) = m" using m by (simp only: unat_drop_bit_eq) (simp add: drop_bit_eq_div)
    obtain k' where k: "k = Suc k'" using C(3,4) by (cases k) auto
    have lim: "0 < unat (drop_bit 1 chunks)" "unat (drop_bit 1 chunks) < 2 ^ k'" "k' \<le> HASH_MAX_DEPTH"
      using half m m' k C(4,5) by simp_all
    have "rep (Suc j) (unat (drop_bit 1 chunks) - 1) rest pre" using half m' b(4) by simp
    from C(1) [OF this lim, of "blk' @ blk"] b(3) C(6) obtain stack' where
      "push_cv rest (ctree (Suc j) (blk' @ blk)) (drop_bit 1 chunks) = (SPG_OK, stack')"
      "rep (Suc j) m stack' (pre @ blk' @ blk)"
      using half by auto
    moreover have "chunks AND 1 = 0" using True by (simp add: and_one_even)
    ultimately show ?thesis using b m C(6) by (simp add: rep_even)
  qed
qed

section \<open>The state after an input\<close>

definition leaves :: "u8 list list \<Rightarrow> blake3_output list" where
  "leaves cs = map (\<lambda>i. chunk_output (cs ! i) (of_nat i)) [0..<length cs]"

lemma leaves_length [simp]: "length (leaves cs) = length cs"
  by (simp add: leaves_def)

lemma leaves_snoc: "leaves (cs @ [c]) = leaves cs @ [chunk_output c (of_nat (length cs))]"
  by (simp add: leaves_def nth_append)

definition hash_inv :: "u8 list \<Rightarrow> hash_state \<Rightarrow> bool" where
  "hash_inv xs st \<longleftrightarrow>
     (let cs = chunk_list xs
      in hs_chunk st = last cs \<and> unat (hs_chunk_counter st) = length (butlast cs) \<and>
         rep 0 (length (butlast cs)) (hs_cv_stack st)
           (map output_chaining_value (leaves (butlast cs))))"

lemma hash_inv_init: "hash_inv [] spg_hash_init"
  by (simp add: hash_inv_def spg_hash_init_def chunk_list.simps leaves_def rep.simps)

lemma feed_step:
  assumes "hash_inv xs st" "length (xs @ [b]) < 2 ^ 64"
  shows "\<exists>st'. feed st [b] = (SPG_OK, st') \<and> hash_inv (xs @ [b]) st'"
proof (cases "length (hs_chunk st) = HASH_CHUNK_BYTES")
  case False
  have "length (last (chunk_list xs)) \<noteq> HASH_CHUNK_BYTES"
    using assms(1) False by (simp add: hash_inv_def Let_def)
  then show ?thesis using assms(1) False by (simp add: hash_inv_def Let_def chunk_list_snoc)
next
  case True
  let ?cs = "chunk_list xs"
  have inv: "hs_chunk st = last ?cs" "unat (hs_chunk_counter st) = length (butlast ?cs)"
    "rep 0 (length (butlast ?cs)) (hs_cv_stack st) (map output_chaining_value (leaves (butlast ?cs)))"
    using assms(1) by (simp_all add: hash_inv_def Let_def)
  have snoc: "chunk_list (xs @ [b]) = ?cs @ [[b]]" using True inv(1) by (simp add: chunk_list_snoc)
  have split: "butlast ?cs @ [last ?cs] = ?cs" by simp
  have len: "Suc (length (butlast ?cs)) = length ?cs" using split by (metis length_append_singleton)
  have "length ?cs * HASH_CHUNK_BYTES \<le> length (xs @ [b])"
    using chunk_list_count [of "xs @ [b]"] snoc by simp
  then have bound: "length ?cs < 2 ^ HASH_MAX_DEPTH"
    using assms(2) by (simp add: HASH_CHUNK_BYTES_def HASH_MAX_DEPTH_def)
  let ?counter = "hs_chunk_counter st + 1"
  have cnt: "unat ?counter = length ?cs"
    using inv(2) len bound u64_plus_exact [of "hs_chunk_counter st" 1]
    by (simp add: HASH_MAX_DEPTH_def)
  let ?cv = "output_chaining_value (chunk_output (last ?cs) (hs_chunk_counter st))"
  have "hs_chunk_counter st = of_nat (length (butlast ?cs))"
    using arg_cong [OF inv(2), of "of_nat :: nat \<Rightarrow> u64"] by simp
  then have leaf: "map output_chaining_value (leaves ?cs) =
      map output_chaining_value (leaves (butlast ?cs)) @ [?cv]"
    using leaves_snoc [of "butlast ?cs" "last ?cs"] split by simp
  have "rep 0 (unat ?counter - 1) (hs_cv_stack st)
      (map output_chaining_value (leaves (butlast ?cs)))"
    using inv(3) by (simp only: cnt len [symmetric] diff_Suc_1)
  moreover have "0 < unat ?counter" "unat ?counter < 2 ^ HASH_MAX_DEPTH" "length [?cv] = 2 ^ 0"
    using cnt len bound by simp_all
  ultimately obtain stack' where push: "push_cv (hs_cv_stack st) (ctree 0 [?cv]) ?counter = (SPG_OK, stack')"
    "rep 0 (unat ?counter) stack' (map output_chaining_value (leaves (butlast ?cs)) @ [?cv])"
    using push_cv_rep [of 0 ?counter _ _ HASH_MAX_DEPTH "[?cv]"] by blast
  have "flush_chunk st =
      (SPG_OK, \<lparr>hs_cv_stack = stack', hs_chunk = [], hs_chunk_counter = ?counter\<rparr>)"
    using True inv(1) push(1) by (auto simp: flush_chunk_def Let_def HASH_CHUNK_BYTES_def)
  then have "feed st [b] =
      (SPG_OK, \<lparr>hs_cv_stack = stack', hs_chunk = [b], hs_chunk_counter = ?counter\<rparr>)"
    using True by simp
  moreover have "hash_inv (xs @ [b]) \<lparr>hs_cv_stack = stack', hs_chunk = [b], hs_chunk_counter = ?counter\<rparr>"
    using push(2) cnt leaf by (simp add: hash_inv_def snoc)
  ultimately show ?thesis by blast
qed

section \<open>The final fold is the tree\<close>

lemma ctree_tree_output:
  "length os = 2 ^ j \<Longrightarrow> ctree j (map output_chaining_value os) = output_chaining_value (tree_output os)"
proof (induction j arbitrary: os)
  case 0
  then obtain out where "os = [out]" by (cases os) auto
  then show ?case by simp
next
  case (Suc j)
  have "left_len (length os) = 2 ^ j" using Suc.prems by (intro left_len_eq) simp_all
  moreover have "\<not> length os < 2" using Suc.prems one_le_power [of "2 :: nat" j] by simp
  ultimately have "tree_output os = parent_output
      (output_chaining_value (tree_output (take (2 ^ j) os)))
      (output_chaining_value (tree_output (drop (2 ^ j) os)))"
    by (subst tree_output.simps) simp
  with Suc show ?case by (simp add: parent_cv_def take_map drop_map)
qed

text \<open>The bottom of the stack is the subtree of the highest one-bit.\<close>

lemma rep_bottom:
  "rep j m stack cvs \<Longrightarrow> 0 < m \<Longrightarrow>
   \<exists>h b stack'. 2 ^ h \<le> m \<and> m < 2 ^ Suc h \<and> stack = stack' @ [b] \<and>
     length cvs = m * 2 ^ j \<and> b = ctree (h + j) (take (2 ^ (h + j)) cvs) \<and>
     rep j (m - 2 ^ h) stack' (drop (2 ^ (h + j)) cvs)"
proof (induction m arbitrary: j stack cvs rule: less_induct)
  case (less m)
  show ?case
  proof (cases "even m")
    case True
    then obtain k where m: "m = 2 * k" by (elim evenE)
    with less.prems have r: "rep (Suc j) k stack cvs" "0 < k" "k < m" by (simp_all add: rep_even)
    from less.IH [OF r(3,1,2)] obtain h b stack' where h: "2 ^ h \<le> k" "k < 2 ^ Suc h"
      "stack = stack' @ [b]" "length cvs = k * 2 ^ Suc j"
      "b = ctree (h + Suc j) (take (2 ^ (h + Suc j)) cvs)"
      "rep (Suc j) (k - 2 ^ h) stack' (drop (2 ^ (h + Suc j)) cvs)" by blast
    have "rep j (2 * (k - 2 ^ h)) stack' (drop (2 ^ (h + Suc j)) cvs)" using h(6) by (simp add: rep_even)
    moreover have "2 * (k - 2 ^ h) = m - 2 ^ Suc h" using m by simp
    ultimately have "rep j (m - 2 ^ Suc h) stack' (drop (2 ^ (Suc h + j)) cvs)" by simp
    moreover have "2 ^ Suc h \<le> m" "m < 2 ^ Suc (Suc h)" "length cvs = m * 2 ^ j" using h m by simp_all
    ultimately show ?thesis using h(3,5)
      by (intro exI [of _ "Suc h"] exI [of _ b] exI [of _ stack']) simp
  next
    case False
    then obtain k where m: "m = Suc (2 * k)" by (elim oddE) simp
    from less.prems(1) [unfolded m] obtain rest pre blk where r: "stack = ctree j blk # rest"
      "cvs = pre @ blk" "length blk = 2 ^ j" "rep (Suc j) k rest pre" by (elim rep_oddE)
    show ?thesis
    proof (cases "k = 0")
      case True
      with r(4) have "rest = []" "pre = []" by (simp_all add: rep.simps)
      then show ?thesis using r m True
        by (intro exI [of _ 0] exI [of _ "ctree j blk"] exI [of _ "[]"]) (simp add: rep.simps)
    next
      case nz: False
      then have "k < m" "0 < k" using m by simp_all
      from less.IH [OF this(1) r(4) this(2)] obtain h b stack' where h: "2 ^ h \<le> k" "k < 2 ^ Suc h"
        "rest = stack' @ [b]" "length pre = k * 2 ^ Suc j"
        "b = ctree (h + Suc j) (take (2 ^ (h + Suc j)) pre)"
        "rep (Suc j) (k - 2 ^ h) stack' (drop (2 ^ (h + Suc j)) pre)" by blast
      have "2 ^ (h + Suc j) \<le> length pre"
        using h(1,4) by (simp add: power_add mult.commute mult.left_commute)
      then have "take (2 ^ (h + Suc j)) cvs = take (2 ^ (h + Suc j)) pre"
        "drop (2 ^ (h + Suc j)) cvs = drop (2 ^ (h + Suc j)) pre @ blk"
        using r(2) by simp_all
      moreover have "rep j (Suc (2 * (k - 2 ^ h))) (ctree j blk # stack')
          (drop (2 ^ (h + Suc j)) pre @ blk)"
        using h(6) r(3) by (simp add: rep_odd_append)
      moreover have "Suc (2 * (k - 2 ^ h)) = m - 2 ^ Suc h" using m h(1) by simp
      moreover have "2 ^ Suc h \<le> m" "m < 2 ^ Suc (Suc h)" using h m by simp_all
      moreover have "length cvs = m * 2 ^ j" using r(2,3) h(4) m by simp
      ultimately show ?thesis using r(1) h(3,5)
        by (intro exI [of _ "Suc h"] exI [of _ b] exI [of _ "ctree j blk # stack'"]) simp
    qed
  qed
qed

lemma final_loop_snoc:
  "final_loop (stack @ [b]) out = parent_output b (output_chaining_value (final_loop stack out))"
  by (induction stack arbitrary: out) simp_all

lemma final_loop_tree:
  "rep 0 (length os) stack (map output_chaining_value os) \<Longrightarrow>
   final_loop stack out = tree_output (os @ [out])"
proof (induction "length os" arbitrary: os stack rule: less_induct)
  case less
  show ?case
  proof (cases "os = []")
    case True
    with less.prems show ?thesis by (simp add: rep.simps)
  next
    case False
    then obtain h b stack' where h: "2 ^ h \<le> length os" "length os < 2 ^ Suc h"
      "stack = stack' @ [b]" "b = ctree h (take (2 ^ h) (map output_chaining_value os))"
      "rep 0 (length os - 2 ^ h) stack' (drop (2 ^ h) (map output_chaining_value os))"
      using rep_bottom [OF less.prems] by auto
    let ?l = "take (2 ^ h) os" and ?r = "drop (2 ^ h) os"
    have "b = output_chaining_value (tree_output ?l)"
      using h(1,4) by (simp add: take_map ctree_tree_output)
    moreover have "final_loop stack' out = tree_output (?r @ [out])"
      using h(1,5) False by (intro less.hyps) (simp_all add: drop_map)
    moreover have "tree_output (os @ [out]) = parent_output
        (output_chaining_value (tree_output ?l)) (output_chaining_value (tree_output (?r @ [out])))"
      using h(1,2) False left_len_eq [of h "length (os @ [out])"]
      by (subst tree_output.simps) simp
    ultimately show ?thesis using h(3) by (simp add: final_loop_snoc)
  qed
qed

section \<open>The contract\<close>

lemma hash_inv_final:
  assumes "hash_inv xs st"
  shows "final_loop (hs_cv_stack st) (chunk_output (hs_chunk st) (hs_chunk_counter st)) =
    tree_output (leaves (chunk_list xs))"
proof -
  let ?cs = "chunk_list xs"
  have inv: "hs_chunk st = last ?cs" "unat (hs_chunk_counter st) = length (butlast ?cs)"
    "rep 0 (length (butlast ?cs)) (hs_cv_stack st) (map output_chaining_value (leaves (butlast ?cs)))"
    using assms by (simp_all add: hash_inv_def Let_def)
  have "hs_chunk_counter st = of_nat (length (butlast ?cs))"
    using arg_cong [OF inv(2), of "of_nat :: nat \<Rightarrow> u64"] by simp
  then have "leaves ?cs = leaves (butlast ?cs) @ [chunk_output (hs_chunk st) (hs_chunk_counter st)]"
    using leaves_snoc [of "butlast ?cs" "last ?cs"] inv(1) by simp
  with final_loop_tree [of "leaves (butlast ?cs)" "hs_cv_stack st"] inv(3)
  show ?thesis by simp
qed

lemma hash_inv_chunk: "hash_inv xs st \<Longrightarrow> length (hs_chunk st) \<le> HASH_CHUNK_BYTES"
  by (simp add: hash_inv_def Let_def chunk_list_last_len)

text \<open>The step the clients use: an update keeps the invariant and cannot fail.\<close>

lemma hash_inv_update:
  assumes "hash_inv xs st" "length (xs @ ys) < 2 ^ 64"
  obtains st' where "spg_hash_update st ys = (SPG_OK, st')" "hash_inv (xs @ ys) st'"
proof -
  have "\<exists>st'. feed st ys = (SPG_OK, st') \<and> hash_inv (xs @ ys) st'"
    using assms(2)
  proof (induction ys rule: rev_induct)
    case Nil
    then show ?case using assms(1) by simp
  next
    case (snoc y ys)
    then obtain st1 where st1: "feed st ys = (SPG_OK, st1)" "hash_inv (xs @ ys) st1" by auto
    with feed_step [of "xs @ ys" st1 y] snoc.prems show ?case by (auto simp: feed_append)
  qed
  then show thesis using that hash_inv_chunk [OF assms(1)] by (auto simp: update_feed)
qed

lemma update_tree:
  assumes "length xs < 2 ^ 64"
  obtains st where "spg_hash_update spg_hash_init xs = (SPG_OK, st)"
    "final_loop (hs_cv_stack st) (chunk_output (hs_chunk st) (hs_chunk_counter st)) =
       tree_output (leaves (chunk_list xs))"
proof -
  have len: "length ([] @ xs) < 2 ^ 64" using assms by simp
  show thesis
    by (rule hash_inv_update [OF hash_inv_init len]) (use that hash_inv_final in auto)
qed

lemma hash_bytes_tree:
  "length xs < 2 ^ 64 \<Longrightarrow> 0 < n \<Longrightarrow>
   spg_hash_bytes xs n = (SPG_OK, output_root_bytes (tree_output (leaves (chunk_list xs))) n)"
  by (erule update_tree [of xs]) (simp add: spg_hash_bytes_def spg_hash_final_def)

lemma root_loop_length: "length (output_root_loop out counter produced n) = n - produced"
proof (induction out counter produced n rule: output_root_loop.induct)
  case (1 out counter produced n)
  have len: "length (concat (map store32 (compress (bo_input_cv out) (bo_block_words out) counter
      (bo_block_len out) (bo_flags out OR ROOT)))) = 64"
    by (simp add: compress_def store32_def length_concat o_def sum_list_triv Let_def)
  show ?case
  proof (cases "produced < n")
    case True
    then show ?thesis
      using "1.IH" [OF True refl refl refl] len
      by (subst output_root_loop.simps) (simp add: Let_def min_def)
  next
    case False
    then show ?thesis by (simp add: output_root_loop.simps)
  qed
qed

lemma hash_bytes_length: "length xs < 2 ^ 64 \<Longrightarrow> 0 < n \<Longrightarrow> length (snd (spg_hash_bytes xs n)) = n"
  by (simp only: hash_bytes_tree snd_conv output_root_bytes_def root_loop_length diff_zero)

text \<open>C10: The one-shot hash never fails on an input of fewer than \<open>2 ^ 64\<close> bytes and returns the
  BLAKE3 tree hash: the root bytes of the left-balanced tree over the 1024-byte chunks, with as
  many bytes as asked for.\<close>
theorem spg_hash_bytes_is_tree_hash:
  assumes "length xs < 2 ^ 64" "0 < n"
  shows "spg_hash_bytes xs n = (SPG_OK, output_root_bytes (tree_output (leaves (chunk_list xs))) n) \<and>
         length (snd (spg_hash_bytes xs n)) = n"
  using hash_bytes_tree [OF assms] hash_bytes_length [OF assms] by blast

theorem spg_hash_bytes_is_tree_hash_witness:
  "spg_hash_bytes [1, 2] 32 = (SPG_OK, output_root_bytes (chunk_output [1, 2] 0) 32)"
  using spg_hash_bytes_is_tree_hash [of "[1, 2]" 32]
  by (simp add: chunk_list.simps HASH_CHUNK_BYTES_def leaves_def)

text \<open>Hashing a message in pieces is hashing it whole: an update with the concatenation is
  the two updates in a row, stopping at the first that fails.\<close>
theorem spg_hash_update_append:
  assumes "length (hs_chunk st) \<le> HASH_CHUNK_BYTES"
  shows "spg_hash_update st (xs @ ys) =
     (case spg_hash_update st xs of
        (status, st') \<Rightarrow> if status \<noteq> SPG_OK then (status, st') else spg_hash_update st' ys)"
proof -
  have "length (hs_chunk st') \<le> HASH_CHUNK_BYTES" if "feed st xs = (SPG_OK, st')" for st'
    using feed_chunk_bound assms that by blast
  then show ?thesis using assms
    by (auto simp: update_feed feed_append split: prod.split)
qed

theorem spg_hash_update_append_witness:
  "spg_hash_update spg_hash_init ([1] @ [2]) =
     (case spg_hash_update spg_hash_init [1] of
        (status, st') \<Rightarrow> if status \<noteq> SPG_OK then (status, st') else spg_hash_update st' [2])"
  by (rule spg_hash_update_append) (simp add: spg_hash_init_def)

end
