(* ===== verification/Hmac.thy ===== *)
theory Hmac
  imports HashTree
begin

text \<open>
  The keyed tag of \<open>src/core/hmac.c\<close>: the HMAC construction over the project hash, and the
  comparison of tags without early exit. The digest of a message is the 32-byte hash.
\<close>

definition digest :: "u8 list \<Rightarrow> u8 list" where
  "digest xs = snd (spg_hash_bytes xs HASH_BYTES)"

lemma digest_length [simp]: "length xs < 2 ^ 64 \<Longrightarrow> length (digest xs) = HASH_BYTES"
  by (simp only: digest_def hash_bytes_length HASH_BYTES_def zero_less_numeral)

lemma hash_inv_digest:
  assumes "hash_inv xs st" "length xs < 2 ^ 64"
  shows "spg_hash_final st HASH_BYTES = (SPG_OK, digest xs)"
  using hash_bytes_tree [OF assms(2), of HASH_BYTES] hash_inv_final [OF assms(1)]
  by (simp add: spg_hash_final_def digest_def HASH_BYTES_def)

section \<open>The hash as a stream\<close>

text \<open>What the clients of the hash rely on: a state holds what was fed to it, an update adds to
  it, and finishing gives the digest of all of it.\<close>

locale stream_hash =
  fixes init :: 's
    and update :: "'s \<Rightarrow> u8 list \<Rightarrow> spg_status \<times> 's"
    and finish :: "'s \<Rightarrow> spg_status \<times> u8 list"
    and holds :: "u8 list \<Rightarrow> 's \<Rightarrow> bool"
    and H :: "u8 list \<Rightarrow> u8 list"
  assumes holds_init: "holds [] init"
    and holds_update: "holds xs st \<Longrightarrow> length (xs @ ys) < 2 ^ 64 \<Longrightarrow>
      \<exists>st'. update st ys = (SPG_OK, st') \<and> holds (xs @ ys) st'"
    and finish_digest: "holds xs st \<Longrightarrow> length xs < 2 ^ 64 \<Longrightarrow> finish st = (SPG_OK, H xs)"
begin

lemma first_update:
  assumes "length xs < 2 ^ 64"
  obtains st where "update init xs = (SPG_OK, st)" "holds xs st"
  using holds_update [OF holds_init, of xs] assms by auto

lemma next_update:
  assumes "holds xs st" "length (xs @ ys) < 2 ^ 64"
  obtains st' where "update st ys = (SPG_OK, st')" "holds (xs @ ys) st'"
  using holds_update [OF assms] by blast

lemma two_updates:
  assumes "length (xs @ ys) < 2 ^ 64"
  obtains st1 st2 where "update init xs = (SPG_OK, st1)" "update st1 ys = (SPG_OK, st2)"
    "finish st2 = (SPG_OK, H (xs @ ys))"
proof -
  have "length xs < 2 ^ 64" using assms by simp
  then obtain st1 where st1: "update init xs = (SPG_OK, st1)" "holds xs st1"
    by (rule first_update)
  obtain st2 where "update st1 ys = (SPG_OK, st2)" "holds (xs @ ys) st2"
    using st1(2) assms by (rule next_update)
  with st1(1) finish_digest [OF _ assms] that show thesis by blast
qed

end

interpretation blake: stream_hash spg_hash_init spg_hash_update "\<lambda>st. spg_hash_final st HASH_BYTES"
  hash_inv digest
proof unfold_locales
  show "hash_inv [] spg_hash_init" by (rule hash_inv_init)
  show "\<exists>st'. spg_hash_update st ys = (SPG_OK, st') \<and> hash_inv (xs @ ys) st'"
    if "hash_inv xs st" "length (xs @ ys) < 2 ^ 64" for xs st ys
    using hash_inv_update [OF that] by blast
qed (rule hash_inv_digest)

section \<open>The tag\<close>

definition hmac_pad :: "u8 \<Rightarrow> u8 list \<Rightarrow> u8 list" where
  "hmac_pad c k0 = map (\<lambda>i. k0 ! i XOR c) [0..<HASH_BLOCK_BYTES]"

text \<open>The key block: a long key is hashed, the rest of the block is zero.\<close>

definition hmac_key :: "u8 list \<Rightarrow> spg_status \<times> u8 list" where
  "hmac_key key =
     (if length key > HASH_BLOCK_BYTES
      then (case spg_hash_bytes key HASH_BYTES of
              (s, h) \<Rightarrow> if s \<noteq> SPG_OK then (s, []) else (SPG_OK, h @ replicate (HASH_BLOCK_BYTES - length h) 0))
      else (SPG_OK, key @ replicate (HASH_BLOCK_BYTES - length key) 0))"

definition hash_pair :: "u8 list \<Rightarrow> u8 list \<Rightarrow> spg_status \<times> u8 list" where
  "hash_pair pad msg =
     (case spg_hash_update spg_hash_init pad of
        (s1, st1) \<Rightarrow> if s1 \<noteq> SPG_OK then (s1, [])
          else (case spg_hash_update st1 msg of
                  (s2, st2) \<Rightarrow> if s2 \<noteq> SPG_OK then (s2, []) else spg_hash_final st2 HASH_BYTES))"

definition spg_hmac :: "u8 list \<Rightarrow> u8 list \<Rightarrow> nat \<Rightarrow> spg_status \<times> u8 list" where
  "spg_hmac key msg out_n =
     (if out_n \<noteq> HASH_BYTES then (SPG_E_INVALID_ARG, [])
      else (case hmac_key key of
              (s, k0) \<Rightarrow> if s \<noteq> SPG_OK then (s, [])
                else (case hash_pair (hmac_pad 0x36 k0) msg of
                        (s1, inner) \<Rightarrow> if s1 \<noteq> SPG_OK then (s1, [])
                          else hash_pair (hmac_pad 0x5c k0) inner)))"

definition spg_hmac_equal :: "u8 list \<Rightarrow> u8 list \<Rightarrow> bool" where
  "spg_hmac_equal a b =
     (fold (\<lambda>i diff. diff OR (a ! i XOR b ! i)) [0..<HASH_BYTES] (0 :: u8) = 0)"

lemma hash_pair_digest:
  assumes "length (pad @ msg) < 2 ^ 64"
  shows "hash_pair pad msg = (SPG_OK, digest (pad @ msg))"
proof -
  obtain st1 st2 where "spg_hash_update spg_hash_init pad = (SPG_OK, st1)"
    "spg_hash_update st1 msg = (SPG_OK, st2)"
    "spg_hash_final st2 HASH_BYTES = (SPG_OK, digest (pad @ msg))"
    by (rule blake.two_updates [OF assms])
  then show ?thesis by (simp add: hash_pair_def)
qed

lemma hmac_pad_length [simp]: "length (hmac_pad c k) = 64"
  by (simp add: hmac_pad_def HASH_BLOCK_BYTES_def)

definition key_block :: "u8 list \<Rightarrow> u8 list" where
  "key_block key =
     (let k = (if length key > 64 then digest key else key) in k @ replicate (64 - length k) 0)"

lemma hmac_key_block: "length key < 2 ^ 64 \<Longrightarrow> hmac_key key = (SPG_OK, key_block key)"
  using hash_bytes_tree [of key HASH_BYTES]
  by (auto simp: hmac_key_def key_block_def digest_def HASH_BLOCK_BYTES_def HASH_BYTES_def Let_def)

lemma hmac_digest:
  assumes "length key < 2 ^ 64" "length msg < 2 ^ 64 - 64"
  shows "spg_hmac key msg HASH_BYTES =
     (SPG_OK, digest (hmac_pad 0x5c (key_block key) @ digest (hmac_pad 0x36 (key_block key) @ msg)))"
proof -
  have "length (hmac_pad 0x36 (key_block key) @ msg) < 2 ^ 64" using assms(2) by simp
  note inner = hash_pair_digest [OF this] digest_length [OF this]
  have "length (hmac_pad 0x5c (key_block key) @ digest (hmac_pad 0x36 (key_block key) @ msg)) < 2 ^ 64"
    using inner(2) by (simp add: HASH_BYTES_def)
  from hash_pair_digest [OF this] inner show ?thesis
    by (simp add: spg_hmac_def hmac_key_block [OF assms(1)])
qed

lemma fold_or_zero:
  "fold (\<lambda>i diff. diff OR f i) is d = (0 :: u8) \<longleftrightarrow> d = 0 \<and> (\<forall>i \<in> set is. f i = 0)"
  by (induction "is" arbitrary: d) (auto simp: or_eq_0_iff)

lemma u8_xor_zero: "(x :: u8) XOR y = 0 \<longleftrightarrow> x = y"
proof
  assume "x XOR y = 0"
  then have "(x XOR y) XOR y = 0 XOR y" by simp
  then show "x = y" by (simp add: xor.assoc)
qed simp

lemma hmac_equal_iff:
  assumes "length a = HASH_BYTES" "length b = HASH_BYTES"
  shows "spg_hmac_equal a b \<longleftrightarrow> a = b"
proof -
  have "spg_hmac_equal a b \<longleftrightarrow> (\<forall>i < HASH_BYTES. a ! i XOR b ! i = 0)"
    by (auto simp: spg_hmac_equal_def fold_or_zero)
  also have "\<dots> \<longleftrightarrow> (\<forall>i < HASH_BYTES. a ! i = b ! i)" by (simp add: u8_xor_zero)
  also have "\<dots> \<longleftrightarrow> a = b" using assms by (auto intro: nth_equalityI)
  finally show ?thesis .
qed

end
