(* ===== verification/JournalRecord.thy ===== *)
theory JournalRecord
  imports Hmac
begin

text \<open>
  The record header of \<open>include/geistshell/journal.h\<close> and its bytes. The code writes and reads
  the struct as it lies in memory: 112 bytes with no padding, integers little-endian (the
  hosts the project builds for). The bytes and the fields are proved to determine each other.
\<close>

section \<open>Little-endian integers\<close>

definition le_bytes :: "nat \<Rightarrow> 'a :: len word \<Rightarrow> u8 list" where
  "le_bytes n w = map (\<lambda>i. ucast (drop_bit (8 * i) w)) [0..<n]"

fun le_word :: "u8 list \<Rightarrow> 'a :: len word" where
  "le_word [] = 0"
| "le_word (b # bs) = ucast b OR push_bit 8 (le_word bs)"

lemma le_bytes_length [simp]: "length (le_bytes n w) = n"
  by (simp add: le_bytes_def)

lemma bit_le_word:
  "bit (le_word bs :: 'a :: len word) k \<longleftrightarrow>
     k < LENGTH('a) \<and> k div 8 < length bs \<and> bit (bs ! (k div 8)) (k mod 8)"
proof (induction bs arbitrary: k)
  case (Cons b bs)
  show ?case
  proof (cases "k < 8")
    case True
    then show ?thesis by (auto simp: bit_or_iff bit_push_bit_iff bit_unsigned_iff)
  next
    case False
    then obtain j where k: "k = 8 + j" by (metis le_add_diff_inverse not_less)
    have "\<not> bit b k" using False by (auto dest: bit_imp_le_length)
    moreover have "k div 8 = Suc (j div 8)" "k mod 8 = j mod 8" using k by simp_all
    ultimately show ?thesis using Cons.IH [of j] k
      by (auto simp: bit_or_iff bit_push_bit_iff bit_unsigned_iff dest: bit_imp_le_length)
  qed
qed simp

lemma le_word_bytes: "8 * n = LENGTH('a) \<Longrightarrow> le_word (le_bytes n w) = (w :: 'a :: len word)"
proof (rule bit_word_eqI)
  fix k
  assume n: "8 * n = LENGTH('a)" and k: "k < LENGTH('a)"
  have "8 * (k div 8) + k mod 8 = k" by simp
  then show "bit (le_word (le_bytes n w) :: 'a word) k = bit w k"
    using n k by (auto simp: bit_le_word le_bytes_def bit_unsigned_iff bit_drop_bit_eq)
qed

lemma le_bytes_word:
  assumes "8 * length bs = LENGTH('a)"
  shows "le_bytes (length bs) (le_word bs :: 'a :: len word) = bs"
proof (rule nth_equalityI)
  fix i
  assume "i < length (le_bytes (length bs) (le_word bs :: 'a word))"
  then have i: "i < length bs" by simp
  show "le_bytes (length bs) (le_word bs :: 'a word) ! i = bs ! i"
  proof (rule bit_word_eqI)
    fix j
    assume "j < LENGTH(8)"
    then have j: "j < 8" by simp
    then have "8 * i + j < LENGTH('a)" using i assms by linarith
    then show "bit (le_bytes (length bs) (le_word bs :: 'a word) ! i) j = bit (bs ! i) j"
      using i j by (simp add: le_bytes_def bit_unsigned_iff bit_drop_bit_eq bit_le_word add.commute)
  qed
qed simp

section \<open>The header\<close>

definition JOURNAL_MAGIC :: u32 where "JOURNAL_MAGIC = 0x53474a31"
definition JOURNAL_VERSION :: "16 word" where "JOURNAL_VERSION = 1"
definition JOURNAL_HASH_BYTES :: nat where "JOURNAL_HASH_BYTES = 32"

datatype event_kind =
  EVENT_RUN_START | EVENT_POLICY_DECISION | EVENT_MODEL_INPUT | EVENT_MODEL_OUTPUT | EVENT_ACTION
| EVENT_RESULT | EVENT_GRAPH | EVENT_MEMORY | EVENT_SIM | EVENT_ERROR

fun event_code :: "event_kind \<Rightarrow> u32" where
  "event_code EVENT_RUN_START = 0"
| "event_code EVENT_POLICY_DECISION = 1"
| "event_code EVENT_MODEL_INPUT = 2"
| "event_code EVENT_MODEL_OUTPUT = 3"
| "event_code EVENT_ACTION = 4"
| "event_code EVENT_RESULT = 5"
| "event_code EVENT_GRAPH = 6"
| "event_code EVENT_MEMORY = 7"
| "event_code EVENT_SIM = 8"
| "event_code EVENT_ERROR = 9"

text \<open>The check of a kind read from a file, over its stored number.\<close>

definition valid_event_kind :: "u32 \<Rightarrow> bool" where
  "valid_event_kind k \<longleftrightarrow>
     k = event_code EVENT_RUN_START \<or> k = event_code EVENT_POLICY_DECISION \<or>
     k = event_code EVENT_MODEL_INPUT \<or> k = event_code EVENT_MODEL_OUTPUT \<or>
     k = event_code EVENT_ACTION \<or> k = event_code EVENT_RESULT \<or>
     k = event_code EVENT_GRAPH \<or> k = event_code EVENT_MEMORY \<or>
     k = event_code EVENT_SIM \<or> k = event_code EVENT_ERROR"

record record_header =
  jh_magic :: u32
  jh_version :: "16 word"
  jh_header_bytes :: "16 word"
  jh_sequence :: u64
  jh_timestamp_ns :: u64
  jh_parent_sequence :: u64
  jh_event_kind :: u32
  jh_status :: u32
  jh_payload_bytes :: u64
  jh_prev_hash :: "u8 list"
  jh_record_hash :: "u8 list"

definition zero_hash :: "u8 list" where
  "zero_hash = replicate JOURNAL_HASH_BYTES 0"

definition HEADER_SIZE :: nat where "HEADER_SIZE = 112"

definition header_bytes :: "record_header \<Rightarrow> u8 list" where
  "header_bytes h =
     le_bytes 4 (jh_magic h) @ le_bytes 2 (jh_version h) @ le_bytes 2 (jh_header_bytes h) @
     le_bytes 8 (jh_sequence h) @ le_bytes 8 (jh_timestamp_ns h) @
     le_bytes 8 (jh_parent_sequence h) @ le_bytes 4 (jh_event_kind h) @
     le_bytes 4 (jh_status h) @ le_bytes 8 (jh_payload_bytes h) @
     jh_prev_hash h @ jh_record_hash h"

definition slice :: "nat \<Rightarrow> nat \<Rightarrow> 'a list \<Rightarrow> 'a list" where
  "slice off n bs = take n (drop off bs)"

definition header_of_bytes :: "u8 list \<Rightarrow> record_header" where
  "header_of_bytes bs =
     \<lparr>jh_magic = le_word (slice 0 4 bs), jh_version = le_word (slice 4 2 bs),
      jh_header_bytes = le_word (slice 6 2 bs), jh_sequence = le_word (slice 8 8 bs),
      jh_timestamp_ns = le_word (slice 16 8 bs), jh_parent_sequence = le_word (slice 24 8 bs),
      jh_event_kind = le_word (slice 32 4 bs), jh_status = le_word (slice 36 4 bs),
      jh_payload_bytes = le_word (slice 40 8 bs), jh_prev_hash = slice 48 32 bs,
      jh_record_hash = slice 80 32 bs\<rparr>"

definition header_ok :: "record_header \<Rightarrow> bool" where
  "header_ok h \<longleftrightarrow> length (jh_prev_hash h) = 32 \<and> length (jh_record_hash h) = 32"

lemma header_bytes_length: "header_ok h \<Longrightarrow> length (header_bytes h) = HEADER_SIZE"
  by (simp add: header_bytes_def header_ok_def HEADER_SIZE_def)

lemma slice_skip: "length xs \<le> off \<Longrightarrow> slice off n (xs @ ys) = slice (off - length xs) n ys"
  by (simp add: slice_def)

lemma slice_hit: "length xs = n \<Longrightarrow> slice 0 n (xs @ ys) = xs"
  by (simp add: slice_def)

lemma slice_all: "length xs = n \<Longrightarrow> slice 0 n xs = xs"
  by (simp add: slice_def)

lemma header_of_bytes_bytes: "header_ok h \<Longrightarrow> header_of_bytes (header_bytes h) = h"
  by (simp add: header_of_bytes_def header_bytes_def header_ok_def slice_skip slice_hit slice_all
      le_word_bytes)

lemma slice_step: "slice off n bs @ drop (off + n) bs = drop off bs"
  using append_take_drop_id [of n "drop off bs"] by (simp add: slice_def add.commute)

lemma header_bytes_of_bytes:
  assumes "length bs = HEADER_SIZE"
  shows "header_bytes (header_of_bytes bs) = bs"
proof -
  have le: "le_bytes n (le_word (slice off n bs) :: 'a :: len word) = slice off n bs"
    if "8 * n = LENGTH('a)" "off + n \<le> 112" for off n
    using le_bytes_word [of "slice off n bs", where 'a = 'a] that assms
    by (simp add: slice_def HEADER_SIZE_def)
  have last: "slice 80 32 bs = drop 80 bs" using assms by (simp add: slice_def HEADER_SIZE_def)
  note st = slice_step [of 0 4 bs] slice_step [of 4 2 bs] slice_step [of 6 2 bs]
    slice_step [of 8 8 bs] slice_step [of 16 8 bs] slice_step [of 24 8 bs] slice_step [of 32 4 bs]
    slice_step [of 36 4 bs] slice_step [of 40 8 bs] slice_step [of 48 32 bs]
  show ?thesis using st by (simp add: header_bytes_def header_of_bytes_def le last)
qed

lemma header_of_bytes_ok: "length bs = HEADER_SIZE \<Longrightarrow> header_ok (header_of_bytes bs)"
  by (simp add: header_ok_def header_of_bytes_def slice_def HEADER_SIZE_def)

end
