(* ===== verification/Journal.thy ===== *)
theory Journal
  imports JournalRecord
begin

text \<open>
  The hash-chained journal (\<open>src/journal/journal.c\<close>). A file is the list of its bytes: what
  the writer has written, or what the reader has still to read. How many bytes each \<open>fwrite\<close>
  of one append takes and whether \<open>fflush\<close> succeeds is an argument, so that short writes are
  in the model; reads return what the file holds. \<open>None\<close> is a null \<open>FILE\<close> pointer.
\<close>

record journal_writer =
  jw_file :: "u8 list option"
  jw_next_sequence :: u64
  jw_last_hash :: "u8 list"
  jw_header_log :: "record_header list option"
  jw_header_log_capacity :: nat

record journal_reader =
  jr_file :: "u8 list option"
  jr_next_sequence :: u64
  jr_last_hash :: "u8 list"

record journal_record =
  jc_header :: record_header
  jc_payload_used :: nat

record write_outcome =
  io_header :: nat
  io_payload :: nat
  io_flush :: bool

definition closed_writer :: journal_writer where
  "closed_writer = \<lparr>jw_file = None, jw_next_sequence = 0, jw_last_hash = zero_hash,
     jw_header_log = None, jw_header_log_capacity = 0\<rparr>"

definition closed_reader :: journal_reader where
  "closed_reader = \<lparr>jr_file = None, jr_next_sequence = 0, jr_last_hash = zero_hash\<rparr>"

section \<open>Writing\<close>

definition hash_record :: "record_header \<Rightarrow> u8 list \<Rightarrow> spg_status \<times> u8 list" where
  "hash_record header payload =
     hash_pair (header_bytes (header\<lparr>jh_record_hash := zero_hash\<rparr>)) payload"

definition write_exact :: "nat \<Rightarrow> u8 list \<Rightarrow> u8 list \<Rightarrow> spg_status \<times> u8 list" where
  "write_exact taken data file =
     (if data = [] then (SPG_OK, file)
      else if taken \<ge> length data then (SPG_OK, file @ data)
      else (SPG_E_IO, file @ take taken data))"

definition spg_journal_writer_open :: "bool \<Rightarrow> spg_status \<times> journal_writer" where
  "spg_journal_writer_open opened =
     (if \<not> opened then (SPG_E_IO, closed_writer)
      else (SPG_OK, closed_writer\<lparr>jw_file := Some [], jw_next_sequence := 1, jw_last_hash := zero_hash\<rparr>))"

definition log_header :: "record_header \<Rightarrow> journal_writer \<Rightarrow> journal_writer" where
  "log_header header w =
     (case jw_header_log w of
        None \<Rightarrow> w
      | Some hs \<Rightarrow> if length hs < jw_header_log_capacity w
                   then w\<lparr>jw_header_log := Some (hs @ [header])\<rparr> else w)"

definition new_header ::
  "journal_writer \<Rightarrow> u64 \<Rightarrow> u64 \<Rightarrow> event_kind \<Rightarrow> spg_status \<Rightarrow> u8 list \<Rightarrow> record_header" where
  "new_header w timestamp_ns parent_sequence kind event_status payload =
     \<lparr>jh_magic = JOURNAL_MAGIC, jh_version = JOURNAL_VERSION, jh_header_bytes = of_nat HEADER_SIZE,
      jh_sequence = jw_next_sequence w, jh_timestamp_ns = timestamp_ns,
      jh_parent_sequence = parent_sequence, jh_event_kind = event_code kind,
      jh_status = of_nat (status_code event_status), jh_payload_bytes = of_nat (length payload),
      jh_prev_hash = jw_last_hash w, jh_record_hash = zero_hash\<rparr>"

definition spg_journal_writer_append ::
  "journal_writer \<Rightarrow> u64 \<Rightarrow> u64 \<Rightarrow> event_kind \<Rightarrow> spg_status \<Rightarrow> u8 list \<Rightarrow> write_outcome \<Rightarrow>
     spg_status \<times> journal_writer \<times> u64 option" where
  "spg_journal_writer_append w timestamp_ns parent_sequence kind event_status payload io =
     (case jw_file w of
        None \<Rightarrow> (SPG_E_INVALID_ARG, w, None)
      | Some file \<Rightarrow>
          (let header0 = new_header w timestamp_ns parent_sequence kind event_status payload
           in case hash_record header0 payload of
             (status, hash) \<Rightarrow>
               if status \<noteq> SPG_OK then (status, w, None)
               else
                 (let header = header0\<lparr>jh_record_hash := hash\<rparr>
                  in case write_exact (io_header io) (header_bytes header) file of
                    (status, file1) \<Rightarrow>
                      if status \<noteq> SPG_OK then (status, w\<lparr>jw_file := Some file1\<rparr>, None)
                      else (case write_exact (io_payload io) payload file1 of
                        (status, file2) \<Rightarrow>
                          if status \<noteq> SPG_OK then (status, w\<lparr>jw_file := Some file2\<rparr>, None)
                          else if \<not> io_flush io then (SPG_E_IO, w\<lparr>jw_file := Some file2\<rparr>, None)
                          else (SPG_OK,
                                (log_header header w)\<lparr>jw_file := Some file2, jw_last_hash := hash,
                                   jw_next_sequence := jw_next_sequence w + 1\<rparr>,
                                Some (jw_next_sequence w))))))"

definition spg_journal_writer_set_header_log :: "nat \<Rightarrow> journal_writer \<Rightarrow> journal_writer" where
  "spg_journal_writer_set_header_log capacity w =
     w\<lparr>jw_header_log := (if capacity > 0 then Some [] else None), jw_header_log_capacity := capacity\<rparr>"

definition spg_journal_writer_close :: "journal_writer \<Rightarrow> bool \<Rightarrow> spg_status \<times> journal_writer" where
  "spg_journal_writer_close w closes =
     (case jw_file w of
        None \<Rightarrow> (SPG_OK, w)
      | Some _ \<Rightarrow> (if closes then SPG_OK else SPG_E_IO, closed_writer))"

section \<open>Reading\<close>

definition read_exact :: "nat \<Rightarrow> u8 list \<Rightarrow> spg_status \<times> u8 list \<times> u8 list" where
  "read_exact n rest =
     (if n = 0 then (SPG_OK, [], rest)
      else if n \<le> length rest then (SPG_OK, take n rest, drop n rest)
      else (SPG_E_IO, rest, []))"

text \<open>A payload that does not fit is hashed through a 256-byte scratch buffer.\<close>

function scratch_loop :: "hash_state \<Rightarrow> nat \<Rightarrow> u8 list \<Rightarrow> spg_status \<times> hash_state \<times> u8 list" where
  "scratch_loop st remaining rest =
     (if remaining = 0 then (SPG_OK, st, rest)
      else let n = (if remaining < 256 then remaining else 256)
           in case read_exact n rest of
             (status, bytes, rest1) \<Rightarrow>
               if status \<noteq> SPG_OK then (SPG_E_JOURNAL_CORRUPT, st, rest1)
               else (case spg_hash_update st bytes of
                       (status, st1) \<Rightarrow>
                         if status \<noteq> SPG_OK then (status, st1, rest1)
                         else scratch_loop st1 (remaining - n) rest1))"
  by pat_completeness auto
termination by (relation "measure (\<lambda>(_, remaining, _). remaining)") auto

declare scratch_loop.simps [simp del]

text \<open>Status, rest of the file, the bytes copied out, the computed hash, and whether it fit.\<close>

definition hash_record_from_file ::
  "u8 list \<Rightarrow> record_header \<Rightarrow> nat \<Rightarrow> spg_status \<times> u8 list \<times> u8 list \<times> u8 list \<times> bool" where
  "hash_record_from_file rest header capacity =
     (case spg_hash_update spg_hash_init (header_bytes (header\<lparr>jh_record_hash := zero_hash\<rparr>)) of
        (status, st) \<Rightarrow>
          if status \<noteq> SPG_OK then (status, rest, [], [], False)
          else
            (let payload_n = unat (jh_payload_bytes header)
             in if payload_n \<le> capacity then
                  (case read_exact payload_n rest of
                     (status, payload, rest1) \<Rightarrow>
                       if status \<noteq> SPG_OK then (SPG_E_JOURNAL_CORRUPT, rest1, [], [], True)
                       else (case spg_hash_update st payload of
                               (status, st1) \<Rightarrow>
                                 if status \<noteq> SPG_OK then (status, rest1, payload, [], True)
                                 else (case spg_hash_final st1 JOURNAL_HASH_BYTES of
                                         (status, computed) \<Rightarrow> (status, rest1, payload, computed, True))))
                else
                  (case scratch_loop st payload_n rest of
                     (status, st1, rest1) \<Rightarrow>
                       if status \<noteq> SPG_OK then (status, rest1, [], [], False)
                       else (case spg_hash_final st1 JOURNAL_HASH_BYTES of
                               (status, computed) \<Rightarrow> (status, rest1, [], computed, False)))))"

definition spg_journal_reader_open :: "u8 list option \<Rightarrow> spg_status \<times> journal_reader" where
  "spg_journal_reader_open contents =
     (case contents of
        None \<Rightarrow> (SPG_E_IO, closed_reader)
      | Some bytes \<Rightarrow>
          (SPG_OK, closed_reader\<lparr>jr_file := Some bytes, jr_next_sequence := 1, jr_last_hash := zero_hash\<rparr>))"

type_synonym reader_result =
  "spg_status \<times> journal_reader \<times> journal_record option \<times> u8 list"

definition spg_journal_reader_next :: "journal_reader \<Rightarrow> nat \<Rightarrow> reader_result" where
  "spg_journal_reader_next r capacity =
     (case jr_file r of
        None \<Rightarrow> (SPG_E_INVALID_ARG, r, None, [])
      | Some file \<Rightarrow>
          if file = [] then (SPG_E_NOT_FOUND, r, None, [])
          else if length file < HEADER_SIZE
          then (SPG_E_JOURNAL_CORRUPT, r\<lparr>jr_file := Some []\<rparr>, None, [])
          else
            (let header = header_of_bytes (take HEADER_SIZE file);
                 rest = drop HEADER_SIZE file;
                 r1 = r\<lparr>jr_file := Some rest\<rparr>
             in if jh_magic header \<noteq> JOURNAL_MAGIC \<or> jh_version header \<noteq> JOURNAL_VERSION \<or>
                   unat (jh_header_bytes header) \<noteq> HEADER_SIZE \<or>
                   jh_sequence header \<noteq> jr_next_sequence r \<or>
                   \<not> valid_event_kind (jh_event_kind header)
                then (SPG_E_JOURNAL_CORRUPT, r1, None, [])
                else if unat (jh_payload_bytes header) > SIZE_MAX
                then (SPG_E_OVERFLOW, r1, None, [])
                else if jh_prev_hash header \<noteq> jr_last_hash r
                then (SPG_E_JOURNAL_CORRUPT, r1, None, [])
                else
                  (case hash_record_from_file rest header capacity of
                     (status, rest1, payload, computed, fit) \<Rightarrow>
                       (let r2 = r\<lparr>jr_file := Some rest1\<rparr>;
                            out = \<lparr>jc_header = header, jc_payload_used = unat (jh_payload_bytes header)\<rparr>
                        in if status \<noteq> SPG_OK then (status, r2, None, payload)
                           else if computed \<noteq> jh_record_hash header
                           then (SPG_E_JOURNAL_CORRUPT, r2, Some out, payload)
                           else (if fit then SPG_OK else SPG_E_LIMIT,
                                 r2\<lparr>jr_last_hash := jh_record_hash header,
                                    jr_next_sequence := jr_next_sequence r + 1\<rparr>,
                                 Some out, payload)))))"

definition spg_journal_reader_close :: "journal_reader \<Rightarrow> bool \<Rightarrow> spg_status \<times> journal_reader" where
  "spg_journal_reader_close r closes =
     (case jr_file r of
        None \<Rightarrow> (SPG_OK, r)
      | Some _ \<Rightarrow> (if closes then SPG_OK else SPG_E_IO, closed_reader))"

end
