(* ===== verification/JournalChain.thy ===== *)
theory JournalChain
  imports Journal
begin

text \<open>
  What a journal file is: the bytes of a chain of records, each with the next sequence number,
  the hash of its predecessor and its own hash. The writer extends a chain, the reader accepts
  exactly a chain, and two chains with the same head are the same bytes unless two different
  records of theirs have the same digest.
\<close>

type_synonym entry = "record_header \<times> u8 list"

definition entry_bytes :: "entry \<Rightarrow> u8 list" where
  "entry_bytes e = header_bytes (fst e) @ snd e"

text \<open>What the record's hash commits to.\<close>

definition hashed_bytes :: "entry \<Rightarrow> u8 list" where
  "hashed_bytes e = header_bytes ((fst e)\<lparr>jh_record_hash := zero_hash\<rparr>) @ snd e"

definition entry_ok :: "u64 \<Rightarrow> u8 list \<Rightarrow> entry \<Rightarrow> bool" where
  "entry_ok seq last_hash e \<longleftrightarrow>
     (let h = fst e
      in header_ok h \<and> jh_magic h = JOURNAL_MAGIC \<and> jh_version h = JOURNAL_VERSION \<and>
         unat (jh_header_bytes h) = HEADER_SIZE \<and> jh_sequence h = seq \<and>
         valid_event_kind (jh_event_kind h) \<and> unat (jh_payload_bytes h) = length (snd e) \<and>
         jh_prev_hash h = last_hash \<and> jh_record_hash h = digest (hashed_bytes e))"

inductive chain :: "u64 \<Rightarrow> u8 list \<Rightarrow> entry list \<Rightarrow> u8 list \<Rightarrow> bool" where
  chain_end: "chain seq last_hash [] last_hash"
| chain_entry: "chain seq last_hash (e # es) head"
    if "entry_ok seq last_hash e" "chain (seq + 1) (jh_record_hash (fst e)) es head"

inductive_cases chain_NilE: "chain seq last_hash [] head"
inductive_cases chain_ConsE: "chain seq last_hash (e # es) head"
inductive_simps chain_Nil [simp]: "chain seq last_hash [] head"
inductive_simps chain_Cons: "chain seq last_hash (e # es) head"

definition file_of :: "entry list \<Rightarrow> u8 list" where
  "file_of es = concat (map entry_bytes es)"

lemma file_of_simps [simp]:
  "file_of [] = []" "file_of (e # es) = entry_bytes e @ file_of es"
  "file_of (es @ es') = file_of es @ file_of es'"
  by (simp_all add: file_of_def)

lemma zero_hash_length [simp]: "length zero_hash = 32"
  by (simp add: zero_hash_def JOURNAL_HASH_BYTES_def)

lemma hashed_length:
  "header_ok (fst e) \<Longrightarrow> length (hashed_bytes e) = length (entry_bytes e)"
  by (simp add: hashed_bytes_def entry_bytes_def header_bytes_def header_ok_def)

section \<open>The reader accepts exactly the next entry of a chain\<close>

text \<open>The scratch loop is one update with the bytes it reads.\<close>

lemma scratch_loop_whole:
  "hash_inv xs st \<Longrightarrow> n \<le> length rest \<Longrightarrow> length xs + n < 2 ^ 64 \<Longrightarrow>
   \<exists>st'. scratch_loop st n rest = (SPG_OK, st', drop n rest) \<and> hash_inv (xs @ take n rest) st'"
proof (induction n arbitrary: xs st rest rule: less_induct)
  case (less n)
  show ?case
  proof (cases "n = 0")
    case True
    then show ?thesis using less.prems by (simp add: scratch_loop.simps)
  next
    case False
    let ?k = "if n < 256 then n else 256"
    have k: "0 < ?k" "?k \<le> n" using False by auto
    have len: "length (xs @ take ?k rest) < 2 ^ 64" using less.prems k by simp
    obtain st1 where st1: "spg_hash_update st (take ?k rest) = (SPG_OK, st1)"
      "hash_inv (xs @ take ?k rest) st1"
      using less.prems(1) len by (rule blake.next_update)
    have "\<exists>st'. scratch_loop st1 (n - ?k) (drop ?k rest) = (SPG_OK, st', drop (n - ?k) (drop ?k rest)) \<and>
        hash_inv ((xs @ take ?k rest) @ take (n - ?k) (drop ?k rest)) st'"
    proof (rule less.IH [OF _ st1(2)])
      show "n - ?k < n" using k by arith
      show "n - ?k \<le> length (drop ?k rest)" using less.prems(2) by simp
      show "length (xs @ take ?k rest) + (n - ?k) < 2 ^ 64" using less.prems k by simp
    qed
    moreover have "drop (n - ?k) (drop ?k rest) = drop n rest" using k by simp
    moreover have "take ?k rest @ take (n - ?k) (drop ?k rest) = take n rest"
      using k by (metis le_add_diff_inverse take_add)
    moreover have "read_exact ?k rest = (SPG_OK, take ?k rest, drop ?k rest)"
      using less.prems(2) k by (auto simp: read_exact_def)
    ultimately show ?thesis
      using False st1(1) by (subst scratch_loop.simps) (simp add: Let_def)
  qed
qed

lemma scratch_loop_short:
  "hash_inv xs st \<Longrightarrow> length rest < n \<Longrightarrow> length xs + length rest < 2 ^ 64 \<Longrightarrow>
   fst (scratch_loop st n rest) = SPG_E_JOURNAL_CORRUPT"
proof (induction n arbitrary: xs st rest rule: less_induct)
  case (less n)
  let ?k = "if n < 256 then n else 256"
  have n: "n \<noteq> 0" "0 < ?k" "?k \<le> n" using less.prems(2) by auto
  show ?case
  proof (cases "?k \<le> length rest")
    case False
    then have "read_exact ?k rest = (SPG_E_IO, rest, [])" using n by (auto simp: read_exact_def)
    then show ?thesis using n by (subst scratch_loop.simps) (simp add: Let_def)
  next
    case True
    have len: "length (xs @ take ?k rest) < 2 ^ 64" using less.prems by simp
    obtain st1 where st1: "spg_hash_update st (take ?k rest) = (SPG_OK, st1)"
      "hash_inv (xs @ take ?k rest) st1"
      using less.prems(1) len by (rule blake.next_update)
    have "fst (scratch_loop st1 (n - ?k) (drop ?k rest)) = SPG_E_JOURNAL_CORRUPT"
    proof (rule less.IH [OF _ st1(2)])
      show "n - ?k < n" using n by arith
      show "length (drop ?k rest) < n - ?k" using less.prems(2) True by simp
      show "length (xs @ take ?k rest) + length (drop ?k rest) < 2 ^ 64" using less.prems(3) True by simp
    qed
    moreover have "read_exact ?k rest = (SPG_OK, take ?k rest, drop ?k rest)"
      using True n by (auto simp: read_exact_def)
    ultimately show ?thesis
      using n st1(1) by (subst scratch_loop.simps) (simp add: Let_def)
  qed
qed

lemma hash_from_file:
  assumes "header_ok h" "HEADER_SIZE + length rest < 2 ^ 64"
  shows "unat (jh_payload_bytes h) \<le> length rest \<Longrightarrow>
     hash_record_from_file rest h capacity =
       (SPG_OK, drop (unat (jh_payload_bytes h)) rest,
        if unat (jh_payload_bytes h) \<le> capacity then take (unat (jh_payload_bytes h)) rest else [],
        digest (hashed_bytes (h, take (unat (jh_payload_bytes h)) rest)),
        unat (jh_payload_bytes h) \<le> capacity)"
    and "length rest < unat (jh_payload_bytes h) \<Longrightarrow>
     fst (hash_record_from_file rest h capacity) = SPG_E_JOURNAL_CORRUPT"
proof -
  let ?hb = "header_bytes (h\<lparr>jh_record_hash := zero_hash\<rparr>)" and ?n = "unat (jh_payload_bytes h)"
  have hb: "length ?hb = HEADER_SIZE"
    using assms(1) by (intro header_bytes_length) (simp add: header_ok_def)
  have "length ?hb < 2 ^ 64" using hb by (simp add: HEADER_SIZE_def)
  then obtain st where st: "spg_hash_update spg_hash_init ?hb = (SPG_OK, st)" "hash_inv ?hb st"
    by (rule blake.first_update)
  { assume n: "?n \<le> length rest"
    have len: "length (?hb @ take ?n rest) < 2 ^ 64" using assms(2) hb n by simp
    obtain st1 where st1: "spg_hash_update st (take ?n rest) = (SPG_OK, st1)"
      "hash_inv (?hb @ take ?n rest) st1"
      using st(2) len by (rule blake.next_update)
    obtain st2 where st2: "scratch_loop st ?n rest = (SPG_OK, st2, drop ?n rest)"
      "hash_inv (?hb @ take ?n rest) st2"
      using scratch_loop_whole [OF st(2) n] len n by auto
    have fin: "spg_hash_final st1 JOURNAL_HASH_BYTES = (SPG_OK, digest (?hb @ take ?n rest))"
      "spg_hash_final st2 JOURNAL_HASH_BYTES = (SPG_OK, digest (?hb @ take ?n rest))"
      using hash_inv_digest [OF st1(2) len] hash_inv_digest [OF st2(2) len]
      by (simp_all add: JOURNAL_HASH_BYTES_def HASH_BYTES_def)
    have rd: "read_exact ?n rest = (SPG_OK, take ?n rest, drop ?n rest)"
      using n by (simp add: read_exact_def)
    show "hash_record_from_file rest h capacity =
       (SPG_OK, drop ?n rest, if ?n \<le> capacity then take ?n rest else [],
        digest (hashed_bytes (h, take ?n rest)), ?n \<le> capacity)"
      using st(1) st1(1) st2(1) fin rd
      by (simp add: hash_record_from_file_def hashed_bytes_def Let_def) }
  { assume n: "length rest < ?n"
    have "fst (scratch_loop st ?n rest) = SPG_E_JOURNAL_CORRUPT"
      using scratch_loop_short [OF st(2) n] assms(2) hb by simp
    moreover have "read_exact ?n rest = (SPG_E_IO, rest, [])" using n by (simp add: read_exact_def)
    ultimately show "fst (hash_record_from_file rest h capacity) = SPG_E_JOURNAL_CORRUPT"
      using st(1) by (auto simp: hash_record_from_file_def Let_def split: prod.splits) }
qed

lemma entry_split:
  "header_ok (fst e) \<Longrightarrow>
   take HEADER_SIZE (entry_bytes e @ rest) = header_bytes (fst e) \<and>
   drop HEADER_SIZE (entry_bytes e @ rest) = snd e @ rest \<and>
   length (entry_bytes e) = HEADER_SIZE + length (snd e)"
  using header_bytes_length [of "fst e"] by (simp add: entry_bytes_def)

definition after_entry :: "journal_reader \<Rightarrow> entry \<Rightarrow> u8 list \<Rightarrow> journal_reader" where
  "after_entry r e rest = r\<lparr>jr_file := Some rest, jr_last_hash := jh_record_hash (fst e),
     jr_next_sequence := jr_next_sequence r + 1\<rparr>"

lemma payload_in_range: "\<not> unat (n :: u64) > SIZE_MAX"
  using u64_bound [of n] by (simp add: SIZE_MAX_def)

lemma reader_next_entry:
  assumes "jr_file r = Some (entry_bytes e @ rest)"
    and ok: "entry_ok (jr_next_sequence r) (jr_last_hash r) e"
    and len: "length (entry_bytes e @ rest) < 2 ^ 64"
  shows "spg_journal_reader_next r capacity =
    (if length (snd e) \<le> capacity then SPG_OK else SPG_E_LIMIT, after_entry r e rest,
     Some \<lparr>jc_header = fst e, jc_payload_used = length (snd e)\<rparr>,
     if length (snd e) \<le> capacity then snd e else [])"
proof -
  have h: "header_ok (fst e)" "unat (jh_payload_bytes (fst e)) = length (snd e)"
    using ok by (simp_all add: entry_ok_def Let_def)
  define f where "f = entry_bytes e @ rest"
  have sp: "take HEADER_SIZE f = header_bytes (fst e)" "drop HEADER_SIZE f = snd e @ rest"
    "length f = HEADER_SIZE + length (snd e @ rest)"
    using entry_split [OF h(1), of rest] unfolding f_def length_append by linarith+
  have hdr: "header_of_bytes (take HEADER_SIZE f) = fst e"
    by (simp only: sp header_of_bytes_bytes [OF h(1)])
  have "HEADER_SIZE + length (snd e @ rest) < 2 ^ 64" using len sp(3) by (simp only: f_def)
  note hf = hash_from_file(1) [OF h(1) this, of capacity]
  have "f \<noteq> []" "\<not> length f < HEADER_SIZE"
    using sp(3) by (auto simp: HEADER_SIZE_def)
  then show ?thesis
    using assms(1) [folded f_def] ok hdr sp(2) hf h(2)
      payload_in_range [of "jh_payload_bytes (fst e)"]
    by (simp add: spg_journal_reader_next_def entry_ok_def after_entry_def Let_def)
qed

lemma reader_next_inv:
  assumes fl: "jr_file r = Some file" "length file < 2 ^ 64"
    and step: "spg_journal_reader_next r capacity = (st, r', out, payload)"
    and ok: "st = SPG_OK \<or> st = SPG_E_LIMIT"
  shows "\<exists>e rest. file = entry_bytes e @ rest \<and>
     entry_ok (jr_next_sequence r) (jr_last_hash r) e \<and> r' = after_entry r e rest"
proof -
  let ?h = "header_of_bytes (take HEADER_SIZE file)" and ?rest = "drop HEADER_SIZE file"
  have big: "\<not> length file < HEADER_SIZE" "file \<noteq> []"
    using step fl(1) ok by (auto simp: spg_journal_reader_next_def split: if_splits)
  then have sz: "length (take HEADER_SIZE file) = HEADER_SIZE" by simp
  note hok = header_of_bytes_ok [OF sz] and hb = header_bytes_of_bytes [OF sz]
  have checks: "jh_magic ?h = JOURNAL_MAGIC" "jh_version ?h = JOURNAL_VERSION"
    "unat (jh_header_bytes ?h) = HEADER_SIZE" "jh_sequence ?h = jr_next_sequence r"
    "valid_event_kind (jh_event_kind ?h)" "jh_prev_hash ?h = jr_last_hash r"
    using step fl(1) ok big
    by (auto simp: spg_journal_reader_next_def Let_def split: if_splits)
  have rest: "HEADER_SIZE + length ?rest < 2 ^ 64" using fl(2) big by simp
  let ?n = "unat (jh_payload_bytes ?h)"
  obtain s1 rest1 p1 c1 f1 where hf: "hash_record_from_file ?rest ?h capacity = (s1, rest1, p1, c1, f1)"
    by (cases "hash_record_from_file ?rest ?h capacity") auto
  have tail: "s1 = SPG_OK \<and> c1 = jh_record_hash ?h \<and>
      r' = r\<lparr>jr_file := Some rest1, jr_last_hash := jh_record_hash ?h,
             jr_next_sequence := jr_next_sequence r + 1\<rparr>"
    using step fl(1) ok big checks payload_in_range hf hash_from_file(2) [OF hok rest, of capacity]
      hash_from_file(1) [OF hok rest, of capacity]
    by (cases "?n \<le> length ?rest")
       (auto simp: spg_journal_reader_next_def Let_def split: if_splits)
  have n: "?n \<le> length ?rest"
    using tail hf hash_from_file(2) [OF hok rest, of capacity] by (cases "?n \<le> length ?rest") auto
  let ?e = "(?h, take ?n ?rest)"
  have "rest1 = drop ?n ?rest" "c1 = digest (hashed_bytes ?e)"
    using hf hash_from_file(1) [OF hok rest n, of capacity] by auto
  moreover have "file = entry_bytes ?e @ drop ?n ?rest"
    by (simp only: entry_bytes_def hb fst_conv snd_conv append_assoc append_take_drop_id)
  moreover have "entry_ok (jr_next_sequence r) (jr_last_hash r) ?e"
    using checks tail hok n \<open>c1 = digest (hashed_bytes ?e)\<close> by (simp add: entry_ok_def Let_def)
  moreover have "r' = after_entry r ?e (drop ?n ?rest)"
    using tail \<open>rest1 = drop ?n ?rest\<close> by (simp only: after_entry_def fst_conv)
  ultimately show ?thesis by blast
qed

text \<open>The other outcomes: the end of the file, or corruption.\<close>

lemma reader_next_status:
  assumes "jr_file r = Some file" "length file < 2 ^ 64"
  shows "fst (spg_journal_reader_next r capacity) \<in>
     (if file = [] then {SPG_E_NOT_FOUND} else {SPG_OK, SPG_E_LIMIT, SPG_E_JOURNAL_CORRUPT})"
proof (cases "file = [] \<or> length file < HEADER_SIZE")
  case True
  then show ?thesis using assms by (auto simp: spg_journal_reader_next_def)
next
  case False
  let ?h = "header_of_bytes (take HEADER_SIZE file)" and ?rest = "drop HEADER_SIZE file"
  have sz: "length (take HEADER_SIZE file) = HEADER_SIZE" using False by simp
  have rest: "HEADER_SIZE + length ?rest < 2 ^ 64" using assms(2) False by simp
  obtain s1 rest1 p1 c1 f1 where hf: "hash_record_from_file ?rest ?h capacity = (s1, rest1, p1, c1, f1)"
    by (cases "hash_record_from_file ?rest ?h capacity") auto
  have "s1 = SPG_OK \<or> s1 = SPG_E_JOURNAL_CORRUPT"
    using hf hash_from_file [OF header_of_bytes_ok [OF sz] rest, of capacity]
    by (cases "unat (jh_payload_bytes ?h) \<le> length ?rest") auto
  then show ?thesis using assms(1) False hf payload_in_range
    by (auto simp: spg_journal_reader_next_def Let_def)
qed

section \<open>Chains\<close>

lemma chain_snoc:
  "chain seq last_hash (es @ [e]) head \<longleftrightarrow>
     (\<exists>mid. chain seq last_hash es mid \<and> entry_ok (seq + of_nat (length es)) mid e \<and>
            head = jh_record_hash (fst e))"
proof (induction es arbitrary: seq last_hash)
  case Nil
  then show ?case by (auto simp: chain_Cons)
next
  case (Cons x es)
  then show ?case by (auto simp: chain_Cons add.assoc)
qed

lemma chain_head_length:
  "chain seq last_hash es head \<Longrightarrow> length last_hash = 32 \<Longrightarrow> length head = 32"
  by (induction rule: chain.induct) (auto simp: entry_ok_def header_ok_def Let_def)

lemma hashed_bytes_inj:
  assumes "hashed_bytes a = hashed_bytes b" "header_ok (fst a)" "header_ok (fst b)"
    "jh_record_hash (fst a) = jh_record_hash (fst b)"
  shows "a = b"
proof -
  let ?z = "\<lambda>e :: entry. (fst e)\<lparr>jh_record_hash := zero_hash\<rparr>"
  have ok: "header_ok (?z a)" "header_ok (?z b)" using assms(2,3) by (simp_all add: header_ok_def)
  have "header_bytes (?z a) = header_bytes (?z b)" "snd a = snd b"
    using assms(1) header_bytes_length [OF ok(1)] header_bytes_length [OF ok(2)]
    by (simp_all add: hashed_bytes_def)
  then have "?z a = ?z b" using header_of_bytes_bytes ok by metis
  then have "fst a = fst b" using assms(4)
    by (cases "fst a"; cases "fst b") simp
  with \<open>snd a = snd b\<close> show ?thesis by (simp add: prod_eq_iff)
qed

text \<open>Two entries that differ under one digest, or an entry whose digest is the start value:
  the only ways in which two different chains can end in the same head.\<close>

definition collision :: "entry list \<Rightarrow> entry list \<Rightarrow> bool" where
  "collision es fs \<longleftrightarrow>
     (\<exists>a \<in> set es. \<exists>b \<in> set fs.
        hashed_bytes a \<noteq> hashed_bytes b \<and> digest (hashed_bytes a) = digest (hashed_bytes b)) \<or>
     (\<exists>a \<in> set es \<union> set fs. digest (hashed_bytes a) = zero_hash)"

lemma collision_snoc: "collision es fs \<Longrightarrow> collision (es @ [a]) (fs @ [b])"
  by (auto simp: collision_def)

lemma entry_ok_hash: "entry_ok seq last_hash e \<Longrightarrow> jh_record_hash (fst e) = digest (hashed_bytes e)"
  by (simp add: entry_ok_def Let_def)

lemma chain_same_head:
  "chain seq zero_hash es head \<Longrightarrow> chain seq zero_hash fs head \<Longrightarrow> es = fs \<or> collision es fs"
proof (induction es arbitrary: fs head rule: rev_induct)
  case Nil
  show ?case
  proof (cases fs rule: rev_cases)
    case (snoc fs' b)
    with Nil have "digest (hashed_bytes b) = zero_hash"
      by (auto simp: chain_snoc dest: entry_ok_hash)
    then show ?thesis using snoc by (auto simp: collision_def)
  qed simp
next
  case (snoc a es)
  then obtain mid where a: "chain seq zero_hash es mid" "entry_ok (seq + of_nat (length es)) mid a"
    "head = digest (hashed_bytes a)" by (auto simp: chain_snoc dest: entry_ok_hash)
  show ?case
  proof (cases fs rule: rev_cases)
    case Nil
    with snoc.prems a(3) show ?thesis by (auto simp: collision_def)
  next
    case fs: (snoc fs' b)
    with snoc.prems(2) obtain mid' where b: "chain seq zero_hash fs' mid'"
      "entry_ok (seq + of_nat (length fs')) mid' b" "head = digest (hashed_bytes b)"
      by (auto simp: chain_snoc dest: entry_ok_hash)
    show ?thesis
    proof (cases "hashed_bytes a = hashed_bytes b")
      case False
      then show ?thesis using a(3) b(3) fs by (auto simp: collision_def)
    next
      case True
      then have "a = b" using a b by (intro hashed_bytes_inj) (auto simp: entry_ok_def Let_def)
      then have "mid = mid'" using a(2) b(2) by (simp add: entry_ok_def Let_def)
      with snoc.IH [OF a(1)] b(1) have "es = fs' \<or> collision es fs'" by blast
      then show ?thesis using \<open>a = b\<close> fs collision_snoc by blast
    qed
  qed
qed

end
