(* ===== verification/JournalSign.thy ===== *)
theory JournalSign
  imports JournalChain
begin

text \<open>
  Sealing a journal (\<open>src/journal/journal_sign.c\<close>): the head of the verified chain, its keyed
  tag in hexadecimal, and the check of both. The journal file and the signature file are the
  byte lists they hold, \<open>None\<close> when they cannot be opened; what the writes to the signature
  file achieve is an argument. The writer's invariant and the round trip through a file are
  proved here too, since they speak of the same verified chain.
\<close>

section \<open>Reading a whole file\<close>

lemma read_exact_shrinks: "read_exact n rest = (st, bytes, rest') \<Longrightarrow> length rest' \<le> length rest"
  by (auto simp: read_exact_def split: if_splits)

lemma scratch_loop_shrinks:
  "scratch_loop st n rest = (s, st', rest') \<Longrightarrow> length rest' \<le> length rest"
proof (induction st n rest arbitrary: s st' rest' rule: scratch_loop.induct)
  case (1 st n rest)
  let ?k = "if n < 256 then n else 256"
  obtain s1 bytes rest1 where rd: "read_exact ?k rest = (s1, bytes, rest1)"
    by (cases "read_exact ?k rest") auto
  obtain s2 st1 where up: "spg_hash_update st bytes = (s2, st1)" by (cases "spg_hash_update st bytes")
  note short = read_exact_shrinks [OF rd]
  show ?case
  proof (cases "n = 0 \<or> s1 \<noteq> SPG_OK \<or> s2 \<noteq> SPG_OK")
    case True
    with "1.prems" rd up short show ?thesis
      by (subst (asm) scratch_loop.simps) (auto simp: Let_def split: if_splits)
  next
    case False
    with "1.prems" rd up have "scratch_loop st1 (n - ?k) rest1 = (s, st', rest')"
      by (subst (asm) scratch_loop.simps) (simp add: Let_def)
    from "1.IH" [OF _ refl rd [symmetric] refl _ up [symmetric] _ this] False short
    show ?thesis by simp
  qed
qed

lemma hash_from_file_shrinks:
  "hash_record_from_file rest h capacity = (s, rest', p, c, fit) \<Longrightarrow> length rest' \<le> length rest"
  by (auto simp: hash_record_from_file_def Let_def split: prod.splits if_splits
      dest: read_exact_shrinks scratch_loop_shrinks)

definition left_to_read :: "journal_reader \<Rightarrow> nat" where
  "left_to_read r = (case jr_file r of None \<Rightarrow> 0 | Some f \<Rightarrow> length f)"

lemma reader_next_shrinks:
  assumes "spg_journal_reader_next r capacity = (st, r', out, payload)"
    "st = SPG_OK \<or> st = SPG_E_LIMIT"
  shows "left_to_read r' < left_to_read r"
proof -
  obtain f where f: "jr_file r = Some f" "f \<noteq> []" "\<not> length f < HEADER_SIZE"
    using assms by (auto simp: spg_journal_reader_next_def split: option.splits if_splits)
  let ?h = "header_of_bytes (take HEADER_SIZE f)" and ?rest = "drop HEADER_SIZE f"
  obtain s1 rest1 p1 c1 f1 where hf: "hash_record_from_file ?rest ?h capacity = (s1, rest1, p1, c1, f1)"
    by (cases "hash_record_from_file ?rest ?h capacity") auto
  have "jr_file r' = Some rest1"
    using assms f hf by (auto simp: spg_journal_reader_next_def Let_def split: if_splits)
  moreover have "length rest1 \<le> length f - HEADER_SIZE" using hash_from_file_shrinks [OF hf] by simp
  ultimately show ?thesis using f by (simp add: left_to_read_def HEADER_SIZE_def)
qed

definition SEAL_PAYLOAD_SCRATCH :: nat where "SEAL_PAYLOAD_SCRATCH = 8192"

function chain_loop :: "journal_reader \<Rightarrow> spg_status \<times> journal_reader" where
  "chain_loop r =
     (case spg_journal_reader_next r SEAL_PAYLOAD_SCRATCH of
        (status, r', _, _) \<Rightarrow>
          if status = SPG_E_NOT_FOUND then (SPG_OK, r')
          else if status \<noteq> SPG_OK \<and> status \<noteq> SPG_E_LIMIT then (status, r')
          else chain_loop r')"
  by pat_completeness auto
termination
  by (relation "measure left_to_read") (auto dest: reader_next_shrinks [OF sym])

declare chain_loop.simps [simp del]

definition chain_head :: "u8 list option \<Rightarrow> spg_status \<times> u8 list" where
  "chain_head journal =
     (case spg_journal_reader_open journal of
        (status, r) \<Rightarrow>
          if status \<noteq> SPG_OK then (status, [])
          else (case chain_loop r of
                  (status, r') \<Rightarrow>
                    (status, if status = SPG_OK then jr_last_hash r' else zero_hash)))"

section \<open>Signatures\<close>

definition hex_char :: "u8 \<Rightarrow> u8" where
  "hex_char n = (if n < 10 then 48 + n else 87 + n)"

definition hex_pair :: "u8 \<Rightarrow> u8 list" where
  "hex_pair b = [hex_char (drop_bit 4 b), hex_char (b AND 0xf)]"

record seal_outcome =
  so_opened :: bool
  so_pairs :: nat
  so_newline :: bool
  so_closed :: bool

fun write_pairs :: "nat \<Rightarrow> u8 list \<Rightarrow> spg_status \<times> u8 list" where
  "write_pairs n [] = (SPG_OK, [])"
| "write_pairs 0 (b # bs) = (SPG_E_IO, [])"
| "write_pairs (Suc n) (b # bs) = (case write_pairs n bs of (st, out) \<Rightarrow> (st, hex_pair b @ out))"

text \<open>The signature file after the call is \<open>None\<close> when the call did not touch it.\<close>

definition spg_journal_seal ::
  "u8 list option \<Rightarrow> u8 list \<Rightarrow> seal_outcome \<Rightarrow> spg_status \<times> u8 list option" where
  "spg_journal_seal journal key io =
     (case chain_head journal of
        (status, head) \<Rightarrow>
          if status \<noteq> SPG_OK then (status, None)
          else (case spg_hmac key head HASH_BYTES of
            (status, tag) \<Rightarrow>
              if status \<noteq> SPG_OK then (status, None)
              else if \<not> so_opened io then (SPG_E_IO, None)
              else (case write_pairs (so_pairs io) tag of
                (status, text_out) \<Rightarrow>
                  if status \<noteq> SPG_OK then (SPG_E_IO, Some text_out)
                  else (if so_closed io then SPG_OK else SPG_E_IO,
                        Some (text_out @ (if so_newline io then [10] else []))))))"

definition hex_nibble :: "u8 \<Rightarrow> u8 option" where
  "hex_nibble c =
     (if 48 \<le> c \<and> c \<le> 57 then Some (c - 48)
      else if 97 \<le> c \<and> c \<le> 102 then Some (c - 97 + 10)
      else if 65 \<le> c \<and> c \<le> 70 then Some (c - 65 + 10)
      else None)"

fun read_hex :: "nat \<Rightarrow> u8 list \<Rightarrow> u8 list option" where
  "read_hex 0 cs = Some []"
| "read_hex (Suc n) (c # d # cs) =
     (case (hex_nibble c, hex_nibble d) of
        (Some hi, Some lo) \<Rightarrow> map_option (\<lambda>bs. (push_bit 4 hi OR lo) # bs) (read_hex n cs)
      | _ \<Rightarrow> None)"
| "read_hex (Suc n) [c] = None"
| "read_hex (Suc n) [] = None"

definition read_hex_tag :: "u8 list option \<Rightarrow> u8 list option" where
  "read_hex_tag sig_file = (case sig_file of None \<Rightarrow> None | Some cs \<Rightarrow> read_hex HASH_BYTES cs)"

definition spg_journal_verify_signed ::
  "u8 list option \<Rightarrow> u8 list option \<Rightarrow> u8 list \<Rightarrow> spg_status \<times> bool" where
  "spg_journal_verify_signed journal sig_file key =
     (case chain_head journal of
        (status, head) \<Rightarrow>
          if status = SPG_E_JOURNAL_CORRUPT then (SPG_OK, False)
          else if status \<noteq> SPG_OK then (status, False)
          else (case spg_hmac key head HASH_BYTES of
            (status, want) \<Rightarrow>
              if status \<noteq> SPG_OK then (status, False)
              else (case read_hex_tag sig_file of
                      None \<Rightarrow> (SPG_OK, False)
                    | Some got \<Rightarrow> (SPG_OK, spg_hmac_equal want got))))"

section \<open>The head of a file is the head of its chain\<close>

lemma chain_loop_accepts:
  "chain (jr_next_sequence r) (jr_last_hash r) es head \<Longrightarrow> jr_file r = Some (file_of es) \<Longrightarrow>
   length (file_of es) < 2 ^ 64 \<Longrightarrow>
   \<exists>r'. chain_loop r = (SPG_OK, r') \<and> jr_last_hash r' = head"
proof (induction es arbitrary: r)
  case Nil
  then have "spg_journal_reader_next r SEAL_PAYLOAD_SCRATCH = (SPG_E_NOT_FOUND, r, None, [])"
    by (simp add: spg_journal_reader_next_def)
  then show ?case using Nil by (subst chain_loop.simps) simp
next
  case (Cons e es)
  then have ok: "entry_ok (jr_next_sequence r) (jr_last_hash r) e"
    "chain (jr_next_sequence r + 1) (jh_record_hash (fst e)) es head" by (simp_all add: chain_Cons)
  have f: "jr_file r = Some (entry_bytes e @ file_of es)" using Cons.prems by simp
  have len: "length (entry_bytes e @ file_of es) < 2 ^ 64" using Cons.prems by simp
  let ?r = "after_entry r e (file_of es)"
  have "\<exists>r'. chain_loop ?r = (SPG_OK, r') \<and> jr_last_hash r' = head"
    using ok(2) len by (intro Cons.IH) (simp_all add: after_entry_def)
  moreover have "chain_loop r = chain_loop ?r"
    by (subst chain_loop.simps) (simp add: reader_next_entry [OF f ok(1) len])
  ultimately show ?case by simp
qed

lemma chain_loop_only_chains:
  "chain_loop r = (st, r') \<Longrightarrow> jr_file r = Some f \<Longrightarrow> length f < 2 ^ 64 \<Longrightarrow>
   st = SPG_E_JOURNAL_CORRUPT \<or>
   (st = SPG_OK \<and> (\<exists>es. f = file_of es \<and> chain (jr_next_sequence r) (jr_last_hash r) es (jr_last_hash r')))"
proof (induction r arbitrary: f rule: chain_loop.induct)
  case (1 r)
  obtain s r1 out p where nx: "spg_journal_reader_next r SEAL_PAYLOAD_SCRATCH = (s, r1, out, p)"
    by (cases "spg_journal_reader_next r SEAL_PAYLOAD_SCRATCH") auto
  show ?case
  proof (cases "s = SPG_OK \<or> s = SPG_E_LIMIT")
    case False
    then have s: "if f = [] then s = SPG_E_NOT_FOUND else s = SPG_E_JOURNAL_CORRUPT"
      using reader_next_status [OF "1.prems"(2,3), of SEAL_PAYLOAD_SCRATCH] nx by (simp split: if_splits)
    show ?thesis
    proof (cases "f = []")
      case True
      then have "r1 = r" "s = SPG_E_NOT_FOUND"
        using nx "1.prems"(2) by (simp_all add: spg_journal_reader_next_def)
      with "1.prems"(1) nx have "st = SPG_OK" "r' = r" by (subst (asm) chain_loop.simps; simp)+
      then show ?thesis using True by (auto intro: exI [of _ "[]"])
    next
      case False
      with s "1.prems"(1) nx show ?thesis by (subst (asm) chain_loop.simps) simp
    qed
  next
    case True
    then obtain e rest where e: "f = entry_bytes e @ rest"
      "entry_ok (jr_next_sequence r) (jr_last_hash r) e" "r1 = after_entry r e rest"
      using reader_next_inv [OF "1.prems"(2,3) nx] by blast
    have rec: "chain_loop r1 = (st, r')"
      using "1.prems"(1) nx True by (subst (asm) chain_loop.simps) auto
    have "jr_file r1 = Some rest" "length rest < 2 ^ 64" using e "1.prems"(3) by (simp_all add: after_entry_def)
    from "1.IH" [OF nx [symmetric] refl refl _ _ rec this] True
    consider "st = SPG_E_JOURNAL_CORRUPT"
      | es where "st = SPG_OK" "rest = file_of es"
        "chain (jr_next_sequence r1) (jr_last_hash r1) es (jr_last_hash r')" by auto
    then show ?thesis
    proof cases
      case (2 es)
      then have "f = file_of (e # es)" "chain (jr_next_sequence r) (jr_last_hash r) (e # es) (jr_last_hash r')"
        using e by (simp_all add: chain_Cons after_entry_def)
      with 2(1) show ?thesis by blast
    qed simp
  qed
qed

lemma chain_head_iff:
  assumes "length f < 2 ^ 64"
  shows "chain_head (Some f) = (SPG_OK, head) \<longleftrightarrow> (\<exists>es. f = file_of es \<and> chain 1 zero_hash es head)"
proof -
  let ?r = "closed_reader\<lparr>jr_file := Some f, jr_next_sequence := 1, jr_last_hash := zero_hash\<rparr>"
  obtain st r' where l: "chain_loop ?r = (st, r')" by (cases "chain_loop ?r")
  have head: "chain_head (Some f) = (st, if st = SPG_OK then jr_last_hash r' else zero_hash)"
    using l by (simp add: chain_head_def spg_journal_reader_open_def)
  show ?thesis
  proof
    assume "chain_head (Some f) = (SPG_OK, head)"
    with head have "st = SPG_OK" "jr_last_hash r' = head" by (auto split: if_splits)
    with chain_loop_only_chains [OF l _ assms] show "\<exists>es. f = file_of es \<and> chain 1 zero_hash es head"
      by auto
  next
    assume "\<exists>es. f = file_of es \<and> chain 1 zero_hash es head"
    then obtain es where es: "f = file_of es" "chain 1 zero_hash es head" by blast
    have "\<exists>r'. chain_loop ?r = (SPG_OK, r') \<and> jr_last_hash r' = head"
      by (rule chain_loop_accepts [of ?r es]) (use es assms in simp_all)
    then show "chain_head (Some f) = (SPG_OK, head)" using l head by auto
  qed
qed

lemma chain_head_status:
  assumes "length f < 2 ^ 64"
  shows "fst (chain_head (Some f)) = SPG_OK \<or> fst (chain_head (Some f)) = SPG_E_JOURNAL_CORRUPT"
proof -
  let ?r = "closed_reader\<lparr>jr_file := Some f, jr_next_sequence := 1, jr_last_hash := zero_hash\<rparr>"
  obtain st r' where l: "chain_loop ?r = (st, r')" by (cases "chain_loop ?r")
  then show ?thesis
    using chain_loop_only_chains [OF l _ assms]
    by (auto simp: chain_head_def spg_journal_reader_open_def)
qed

text \<open>C14: Two journal files that both verify and end in the same head are the same bytes, or their
  records exhibit a collision: two different records with one digest, or a record whose digest
  is the all-zero start value. So an edit anywhere changes the head that the seal signs.\<close>
theorem journal_head_commits:
  assumes "length f < 2 ^ 64" "length f2 < 2 ^ 64"
    and "chain_head (Some f) = (SPG_OK, head)" "chain_head (Some f2) = (SPG_OK, head)"
  shows "\<exists>es fs. f = file_of es \<and> f2 = file_of fs \<and> (f = f2 \<or> collision es fs)"
proof -
  obtain es fs where "f = file_of es" "chain 1 zero_hash es head"
    "f2 = file_of fs" "chain 1 zero_hash fs head"
    using chain_head_iff assms by metis
  with chain_same_head show ?thesis by metis
qed

section \<open>The writer extends the chain\<close>

definition writer_inv :: "journal_writer \<Rightarrow> entry list \<Rightarrow> bool" where
  "writer_inv w es \<longleftrightarrow> jw_file w = Some (file_of es) \<and> chain 1 zero_hash es (jw_last_hash w) \<and>
     jw_next_sequence w = 1 + of_nat (length es)"

definition new_entry ::
  "journal_writer \<Rightarrow> u64 \<Rightarrow> u64 \<Rightarrow> event_kind \<Rightarrow> spg_status \<Rightarrow> u8 list \<Rightarrow> entry" where
  "new_entry w ts parent kind st payload =
     (let h = new_header w ts parent kind st payload
      in (h\<lparr>jh_record_hash := digest (header_bytes h @ payload)\<rparr>, payload))"

lemma valid_event_code [simp]: "valid_event_kind (event_code k)"
  by (cases k) (simp_all add: valid_event_kind_def)

lemma open_writer_inv: "writer_inv (snd (spg_journal_writer_open True)) []"
  by (simp add: writer_inv_def spg_journal_writer_open_def)

lemma new_entry_ok:
  fixes ts parent :: u64 and kind :: event_kind and st :: spg_status
  assumes "writer_inv w es" "HEADER_SIZE + length payload < 2 ^ 64"
  defines "e \<equiv> new_entry w ts parent kind st payload"
  shows "entry_ok (1 + of_nat (length es)) (jw_last_hash w) e"
    and "hash_record (new_header w ts parent kind st payload) payload = (SPG_OK, jh_record_hash (fst e))"
proof -
  let ?h = "new_header w ts parent kind st payload"
  have hashes: "length (jw_last_hash w) = 32"
    using assms(1) chain_head_length [of 1 zero_hash es] by (simp add: writer_inv_def)
  have ok: "header_ok ?h" using hashes by (simp add: header_ok_def new_header_def)
  have z: "?h\<lparr>jh_record_hash := zero_hash\<rparr> = ?h" by (simp add: new_header_def)
  have len: "length (header_bytes ?h @ payload) < 2 ^ 64"
    using header_bytes_length [OF ok] assms(2) by simp
  show "hash_record ?h payload = (SPG_OK, jh_record_hash (fst e))"
    using hash_pair_digest [OF len] by (simp add: hash_record_def z e_def new_entry_def Let_def)
  have hb: "hashed_bytes e = header_bytes ?h @ payload"
    using z by (simp add: hashed_bytes_def e_def new_entry_def Let_def)
  have "length (digest (header_bytes ?h @ payload)) = 32"
    using digest_length [OF len] by (simp add: HASH_BYTES_def)
  then have "header_ok (fst e)" using ok by (simp add: e_def new_entry_def header_ok_def Let_def)
  moreover have "unat (of_nat (length payload) :: u64) = length payload"
    using assms(2) by (simp add: unsigned_of_nat take_bit_nat_eq_self)
  ultimately show "entry_ok (1 + of_nat (length es)) (jw_last_hash w) e"
    using hb assms(1) by (simp add: entry_ok_def e_def new_entry_def new_header_def Let_def
        writer_inv_def HEADER_SIZE_def)
qed

text \<open>What an append that succeeds did, whatever the writes of earlier appends achieved.\<close>

lemma append_ok:
  assumes "writer_inv w es" "HEADER_SIZE + length payload < 2 ^ 64"
    and app: "spg_journal_writer_append w ts parent kind st payload io = (SPG_OK, w', out)"
  shows "writer_inv w' (es @ [new_entry w ts parent kind st payload])"
    and "out = Some (jw_next_sequence w)"
proof -
  let ?e = "new_entry w ts parent kind st payload"
  note e = new_entry_ok [OF assms(1,2), where ts = ts and parent = parent and kind = kind and st = st]
  have f: "jw_file w = Some (file_of es)" using assms(1) by (simp add: writer_inv_def)
  have hdr: "(new_header w ts parent kind st payload)\<lparr>jh_record_hash := jh_record_hash (fst ?e)\<rparr> = fst ?e"
    by (simp add: new_entry_def Let_def)
  obtain s1 f1 where w1: "write_exact (io_header io) (header_bytes (fst ?e)) (file_of es) = (s1, f1)"
    by (cases "write_exact (io_header io) (header_bytes (fst ?e)) (file_of es)")
  obtain s2 f2 where w2: "write_exact (io_payload io) payload f1 = (s2, f2)"
    by (cases "write_exact (io_payload io) payload f1")
  note step = app [unfolded spg_journal_writer_append_def f option.case Let_def e(2) prod.case hdr w1 w2]
  have s: "s1 = SPG_OK" "s2 = SPG_OK" using step by (auto split: if_splits)
  have "f1 = file_of es @ header_bytes (fst ?e)" "f2 = f1 @ payload"
    using w1 w2 s by (auto simp: write_exact_def split: if_splits)
  then have f2: "f2 = file_of (es @ [?e])" by (simp add: entry_bytes_def new_entry_def Let_def)
  have w': "jw_file w' = Some f2 \<and> jw_last_hash w' = jh_record_hash (fst ?e) \<and>
      jw_next_sequence w' = jw_next_sequence w + 1 \<and> out = Some (jw_next_sequence w)"
    using step s by (auto split: if_splits)
  then show "out = Some (jw_next_sequence w)" by simp
  show "writer_inv w' (es @ [?e])"
    using w' f2 e(1) assms(1) by (auto simp: writer_inv_def chain_snoc)
qed

lemma appended_entry:
  assumes "writer_inv w es" "HEADER_SIZE + length payload < 2 ^ 64"
    and "spg_journal_writer_append w ts parent kind st payload io = (SPG_OK, w', out)"
  shows "\<exists>e. writer_inv w' (es @ [e]) \<and> snd e = payload \<and> jh_event_kind (fst e) = event_code kind \<and>
    jh_parent_sequence (fst e) = parent \<and> jh_status (fst e) = of_nat (status_code st) \<and>
    out = Some (jh_sequence (fst e))"
  using append_ok [OF assms]
  by (intro exI [of _ "new_entry w ts parent kind st payload"]) (simp add: new_entry_def new_header_def Let_def)

lemma append_complete:
  assumes "writer_inv w es" "HEADER_SIZE + length payload < 2 ^ 64"
    "io_header io \<ge> HEADER_SIZE" "io_payload io \<ge> length payload" "io_flush io"
  shows "\<exists>w' out. spg_journal_writer_append w ts parent kind st payload io = (SPG_OK, w', out)"
proof -
  let ?e = "new_entry w ts parent kind st payload"
  note e = new_entry_ok [OF assms(1,2), where ts = ts and parent = parent and kind = kind and st = st]
  have "length (header_bytes (fst ?e)) = HEADER_SIZE"
    using e(1) by (intro header_bytes_length) (simp add: entry_ok_def Let_def)
  then show ?thesis
    using assms e(2) by (simp add: spg_journal_writer_append_def writer_inv_def write_exact_def
        new_entry_def Let_def)
qed

text \<open>C15: An append that succeeds extends the chain by one record with the given fields and payload
  and returns its sequence number; the file then verifies, and its head is the writer's hash.\<close>
theorem journal_append_extends_chain:
  assumes "writer_inv w es" "length (file_of es) + HEADER_SIZE + length payload < 2 ^ 64"
    and "spg_journal_writer_append w ts parent kind st payload io = (SPG_OK, w', out)"
  shows "\<exists>e. writer_inv w' (es @ [e]) \<and> snd e = payload \<and> jh_timestamp_ns (fst e) = ts \<and>
    jh_parent_sequence (fst e) = parent \<and> jh_event_kind (fst e) = event_code kind \<and>
    jh_status (fst e) = of_nat (status_code st) \<and> out = Some (jh_sequence (fst e)) \<and>
    chain_head (jw_file w') = (SPG_OK, jw_last_hash w')"
proof -
  let ?e = "new_entry w ts parent kind st payload"
  have small: "HEADER_SIZE + length payload < 2 ^ 64" using assms(2) by simp
  note ok = append_ok [OF assms(1) small assms(3)]
  have "length (entry_bytes ?e) = HEADER_SIZE + length payload"
    using new_entry_ok(1) [OF assms(1) small, of ts parent kind st]
    by (simp add: entry_bytes_def new_entry_def entry_ok_def Let_def header_bytes_length)
  then have "length (file_of (es @ [?e])) < 2 ^ 64" using assms(2) by simp
  from chain_head_iff [OF this, of "jw_last_hash w'"] ok(1)
  have "chain_head (jw_file w') = (SPG_OK, jw_last_hash w')" unfolding writer_inv_def by metis
  then show ?thesis
    using ok by (intro exI [of _ ?e]) (simp add: new_entry_def new_header_def Let_def)
qed

definition fresh_writer :: journal_writer where
  "fresh_writer = snd (spg_journal_writer_open True)"

definition full_writes :: write_outcome where
  "full_writes = \<lparr>io_header = 112, io_payload = 1000, io_flush = True\<rparr>"

definition one_record :: "spg_status \<times> journal_writer \<times> u64 option" where
  "one_record = spg_journal_writer_append fresh_writer 5 0 EVENT_ACTION SPG_OK [7] full_writes"

lemma fresh_writer_inv: "writer_inv fresh_writer []"
  using open_writer_inv by (simp add: fresh_writer_def)

lemma one_record_ok: "\<exists>w' out. one_record = (SPG_OK, w', out)"
  unfolding one_record_def
  by (rule append_complete [OF fresh_writer_inv]) (simp_all add: full_writes_def HEADER_SIZE_def)

definition one_file :: "u8 list" where
  "one_file = the (jw_file (fst (snd one_record)))"

theorem journal_append_extends_chain_witness:
  "\<exists>e. writer_inv (fst (snd one_record)) [e] \<and> snd e = [7] \<and> jh_timestamp_ns (fst e) = 5 \<and>
     snd (snd one_record) = Some (jh_sequence (fst e))"
proof -
  obtain w' out where r: "one_record = (SPG_OK, w', out)" using one_record_ok by blast
  have "length (file_of []) + HEADER_SIZE + length [7 :: u8] < 2 ^ 64" by (simp add: HEADER_SIZE_def)
  from journal_append_extends_chain [OF fresh_writer_inv this r [unfolded one_record_def]]
  show ?thesis unfolding r fst_conv snd_conv append_Nil by blast
qed

lemma one_file_head: "\<exists>head. chain_head (Some one_file) = (SPG_OK, head)"
  and one_file_length: "length one_file < 2 ^ 64"
proof -
  obtain w' out where r: "one_record = (SPG_OK, w', out)" using one_record_ok by blast
  have small: "HEADER_SIZE + length [7 :: u8] < 2 ^ 64" by (simp add: HEADER_SIZE_def)
  have inv: "writer_inv w' [new_entry fresh_writer 5 0 EVENT_ACTION SPG_OK [7]]"
    using append_ok(1) [OF fresh_writer_inv small r [unfolded one_record_def]] by simp
  have "header_ok (fst (new_entry fresh_writer 5 0 EVENT_ACTION SPG_OK [7]))"
    using new_entry_ok(1) [OF fresh_writer_inv small] by (simp add: entry_ok_def Let_def)
  then have f: "one_file = file_of [new_entry fresh_writer 5 0 EVENT_ACTION SPG_OK [7]]"
    "length one_file = 113"
    using inv by (simp_all add: one_file_def r writer_inv_def entry_bytes_def header_bytes_length
        HEADER_SIZE_def new_entry_def Let_def)
  show "length one_file < 2 ^ 64" using f(2) by simp
  then show "\<exists>head. chain_head (Some one_file) = (SPG_OK, head)"
    using chain_head_iff [of one_file "jw_last_hash w'"] inv f(1) unfolding writer_inv_def by blast
qed

theorem journal_head_commits_witness:
  "\<exists>es fs. one_file = file_of es \<and> one_file = file_of fs \<and> (one_file = one_file \<or> collision es fs)"
proof -
  obtain head where "chain_head (Some one_file) = (SPG_OK, head)" using one_file_head by blast
  from journal_head_commits [OF one_file_length one_file_length this this] show ?thesis .
qed

section \<open>Seal and verify\<close>

lemma u8_below_16: "(n :: u8) < 16 \<Longrightarrow> n \<in> set (map of_nat [0..<16])"
proof -
  assume "n < 16"
  then have "unat n < 16" by (simp add: word_less_nat_alt)
  moreover have "n = of_nat (unat n)" by simp
  ultimately show ?thesis unfolding set_map by (metis atLeastLessThan_iff atLeastLessThan_upt imageI zero_le)
qed

lemma hex_nibble_char: "n < 16 \<Longrightarrow> hex_nibble (hex_char n) = Some n"
proof -
  assume "n < 16"
  then have "n \<in> set (map of_nat [0..<16])" by (rule u8_below_16)
  moreover have "\<forall>k \<in> set (map of_nat [0..<16]). hex_nibble (hex_char k) = Some (k :: u8)"
    by (simp add: upt_rec hex_nibble_def hex_char_def)
  ultimately show ?thesis by blast
qed

lemma nibbles_below: "drop_bit 4 (b :: u8) < 16" "b AND 0xf < 16"
proof -
  have "unat b < 2 ^ LENGTH(8)" by (rule unsigned_less)
  then have "unat (drop_bit 4 b) < 16" by (simp only: unat_drop_bit_eq) (simp add: drop_bit_eq_div)
  then show "drop_bit 4 b < 16" by (simp add: word_less_nat_alt)
  have "b AND 0xf \<le> 0xf" by (rule word_and_le1)
  then show "b AND 0xf < 16" by (simp add: word_le_nat_alt word_less_nat_alt)
qed

lemma nibbles_join: "push_bit 4 (drop_bit 4 b) OR (b AND 0xf) = (b :: u8)"
proof (rule bit_word_eqI)
  fix n
  assume "n < LENGTH(8)"
  have "b AND 0xf = take_bit 4 b" by (simp add: take_bit_eq_mask mask_eq_exp_minus_1)
  then show "bit (push_bit 4 (drop_bit 4 b) OR (b AND 0xf)) n = bit b n"
    using \<open>n < LENGTH(8)\<close>
    by (auto simp: bit_or_iff bit_push_bit_iff bit_drop_bit_eq bit_take_bit_iff)
qed

lemma read_hex_pairs: "read_hex (length bs) (concat (map hex_pair bs) @ rest) = Some bs"
  by (induction bs) (simp_all add: hex_pair_def hex_nibble_char nibbles_below nibbles_join)

lemma write_pairs_all: "length bs \<le> n \<Longrightarrow> write_pairs n bs = (SPG_OK, concat (map hex_pair bs))"
  by (induction n bs rule: write_pairs.induct) auto

lemma write_pairs_ok: "write_pairs n bs = (SPG_OK, cs) \<Longrightarrow> cs = concat (map hex_pair bs)"
  by (induction n bs arbitrary: cs rule: write_pairs.induct) (auto split: prod.splits)

lemma read_hex_length: "read_hex n cs = Some bs \<Longrightarrow> length bs = n"
  by (induction n cs arbitrary: bs rule: read_hex.induct) (auto split: option.splits)

lemma hmac_ok:
  assumes "length key < 2 ^ 64" "length head = 32"
  obtains tag where "spg_hmac key head HASH_BYTES = (SPG_OK, tag)" "length tag = HASH_BYTES"
proof -
  have "length head < 2 ^ 64 - 64" using assms(2) by simp
  note h = hmac_digest [OF assms(1) this]
  have "length (hmac_pad 0x36 (key_block key) @ head) < 2 ^ 64" using assms(2) by simp
  then have "length (digest (hmac_pad 0x36 (key_block key) @ head)) = HASH_BYTES" by (rule digest_length)
  then have "length (hmac_pad 0x5c (key_block key) @ digest (hmac_pad 0x36 (key_block key) @ head)) < 2 ^ 64"
    by (simp add: HASH_BYTES_def)
  from digest_length [OF this] h that show thesis by blast
qed

lemma chain_head_len: "length f < 2 ^ 64 \<Longrightarrow> chain_head (Some f) = (SPG_OK, head) \<Longrightarrow> length head = 32"
  using chain_head_iff chain_head_length [of 1 zero_hash] by (metis zero_hash_length)

definition good_seal :: seal_outcome where
  "good_seal = \<lparr>so_opened = True, so_pairs = 32, so_newline = True, so_closed = True\<rparr>"

lemma seal_ok:
  assumes "length f < 2 ^ 64" "length key < 2 ^ 64" "chain_head (Some f) = (SPG_OK, head)"
    "so_opened io" "so_closed io" "32 \<le> so_pairs io"
  shows "\<exists>tag. spg_hmac key head HASH_BYTES = (SPG_OK, tag) \<and> length tag = HASH_BYTES \<and>
    spg_journal_seal (Some f) key io =
      (SPG_OK, Some (concat (map hex_pair tag) @ (if so_newline io then [10] else [])))"
proof -
  obtain tag where t: "spg_hmac key head HASH_BYTES = (SPG_OK, tag)" "length tag = HASH_BYTES"
    using hmac_ok [OF assms(2) chain_head_len [OF assms(1,3)]] by blast
  have "write_pairs (so_pairs io) tag = (SPG_OK, concat (map hex_pair tag))"
    using assms(6) t(2) by (intro write_pairs_all) (simp add: HASH_BYTES_def)
  with t assms show ?thesis by (simp add: spg_journal_seal_def)
qed

text \<open>Whoever holds the key accepts what was sealed with it: after a seal that succeeds, the
  check of the unchanged journal with the signature file and the same key says yes.\<close>
theorem journal_seal_verifies:
  assumes "length f < 2 ^ 64" "length key < 2 ^ 64"
    and "spg_journal_seal (Some f) key io = (SPG_OK, sig_file)"
  shows "spg_journal_verify_signed (Some f) sig_file key = (SPG_OK, True)"
proof -
  obtain s head where c: "chain_head (Some f) = (s, head)" by (cases "chain_head (Some f)")
  have s: "s = SPG_OK" using assms(3) c by (auto simp: spg_journal_seal_def split: if_splits)
  obtain tag where t: "spg_hmac key head HASH_BYTES = (SPG_OK, tag)" "length tag = HASH_BYTES"
    using hmac_ok [OF assms(2) chain_head_len [OF assms(1)]] c s by blast
  obtain s2 cs where w: "write_pairs (so_pairs io) tag = (s2, cs)" by (cases "write_pairs (so_pairs io) tag")
  have out: "s2 = SPG_OK" "sig_file = Some (cs @ (if so_newline io then [10] else []))"
    using assms(3) c s t w by (auto simp: spg_journal_seal_def split: if_splits)
  have "cs = concat (map hex_pair tag)" using write_pairs_ok w out(1) by blast
  then have "read_hex_tag sig_file = Some tag"
    using out(2) read_hex_pairs [of tag] t(2) by (simp add: read_hex_tag_def)
  then show ?thesis using c s t hmac_equal_iff [OF t(2) t(2)]
    by (simp add: spg_journal_verify_signed_def)
qed

text \<open>C16: The check says yes exactly when the journal is an intact chain and the signature file
  starts with the hexadecimal tag of its head under the key.\<close>
theorem journal_verify_iff:
  assumes "length f < 2 ^ 64" "length key < 2 ^ 64"
  shows "spg_journal_verify_signed (Some f) sig_file key = (SPG_OK, True) \<longleftrightarrow>
     (\<exists>es head tag. f = file_of es \<and> chain 1 zero_hash es head \<and>
        spg_hmac key head HASH_BYTES = (SPG_OK, tag) \<and> read_hex_tag sig_file = Some tag)"
    (is "?verify \<longleftrightarrow> ?spec")
proof -
  obtain s head where c: "chain_head (Some f) = (s, head)" by (cases "chain_head (Some f)")
  show ?thesis
  proof (cases "s = SPG_OK")
    case False
    then have "\<not> ?verify" "\<not> ?spec"
      using c chain_head_iff [OF assms(1)] by (auto simp: spg_journal_verify_signed_def)
    then show ?thesis by simp
  next
    case True
    obtain tag where t: "spg_hmac key head HASH_BYTES = (SPG_OK, tag)" "length tag = HASH_BYTES"
      using hmac_ok [OF assms(2) chain_head_len [OF assms(1)]] c True by blast
    have "?verify \<longleftrightarrow> (\<exists>got. read_hex_tag sig_file = Some got \<and> spg_hmac_equal tag got)"
      using c True t by (auto simp: spg_journal_verify_signed_def split: option.splits)
    also have "\<dots> \<longleftrightarrow> read_hex_tag sig_file = Some tag"
      using hmac_equal_iff [OF t(2)] read_hex_length
      by (auto simp: read_hex_tag_def split: option.splits)
    also have "\<dots> \<longleftrightarrow> ?spec"
    proof -
      have un: "(\<exists>es. f = file_of es \<and> chain 1 zero_hash es h) \<longleftrightarrow> h = head" for h
        using chain_head_iff [OF assms(1), of h] c True by auto
      have "?spec \<longleftrightarrow> (\<exists>h t. (\<exists>es. f = file_of es \<and> chain 1 zero_hash es h) \<and>
          spg_hmac key h HASH_BYTES = (SPG_OK, t) \<and> read_hex_tag sig_file = Some t)"
        by blast
      then show ?thesis unfolding un using t(1) by auto
    qed
    finally show ?thesis .
  qed
qed

lemma one_file_seal: "\<exists>cs. spg_journal_seal (Some one_file) [1, 2, 3] good_seal = (SPG_OK, cs)"
proof -
  obtain head where "chain_head (Some one_file) = (SPG_OK, head)" using one_file_head by blast
  with seal_ok [OF one_file_length, of "[1, 2, 3]" head good_seal] show ?thesis
    by (auto simp: good_seal_def)
qed

definition one_signature :: "u8 list option" where
  "one_signature = snd (spg_journal_seal (Some one_file) [1, 2, 3] good_seal)"

lemma one_signature_seal:
  "spg_journal_seal (Some one_file) [1, 2, 3] good_seal = (SPG_OK, one_signature)"
  using one_file_seal by (auto simp: one_signature_def)

theorem journal_seal_verifies_witness:
  "spg_journal_verify_signed (Some one_file) one_signature [1, 2, 3] = (SPG_OK, True)"
  by (rule journal_seal_verifies [OF one_file_length _ one_signature_seal]) simp

theorem journal_verify_iff_witness:
  "spg_journal_verify_signed (Some one_file) None [1, 2, 3] \<noteq> (SPG_OK, True)"
  using journal_verify_iff [OF one_file_length, of "[1, 2, 3]" None] by (simp add: read_hex_tag_def)

end
