(* ===== verification/CmdExec.thy ===== *)
theory CmdExec
  imports Status
begin

text \<open>
  The bounded command runner of \<open>src/exec/cmd_executor.c\<close>, as far as it is not the operating
  system. What a child does after \<open>fork\<close> (whether it starts, the chunks it writes, how it
  ends, whether the deadline kills it) is a parameter: an \<open>os_env\<close> that may depend on every
  command spawned before. The log of spawned commands is explicit state, so that a caller's
  guarantee of the form ``refused before a fork'' is a statement about the log. The capture of
  the output into a bounded, NUL-terminated buffer is the code's own and modelled as such. All
  callers in the modelled code pass the same default resource limits, which are left out.
\<close>

definition CMD_MAX_BATCH :: nat where "CMD_MAX_BATCH = 32"
definition CMD_MAX_ARGS :: nat where "CMD_MAX_ARGS = 64"

record cmd_request =
  rq_argv :: "string list"
  rq_working_dir :: "string option"
  rq_clear_env :: bool
  rq_timeout_ms :: u64
  rq_stdout_cap :: nat
  rq_stderr_cap :: nat

record cmd_result =
  rs_status :: spg_status
  rs_started :: bool
  rs_exited :: bool
  rs_exit_code :: int
  rs_term_signal :: int
  rs_timed_out :: bool
  rs_stdout :: string
  rs_stdout_truncated :: bool
  rs_stderr :: string
  rs_stderr_truncated :: bool

definition fresh_result :: cmd_result where
  "fresh_result = \<lparr>rs_status = SPG_OK, rs_started = False, rs_exited = False, rs_exit_code = 0,
     rs_term_signal = 0, rs_timed_out = False, rs_stdout = [], rs_stdout_truncated = False,
     rs_stderr = [], rs_stderr_truncated = False\<rparr>"

section \<open>The operating system as a parameter\<close>

record spawn =
  sw_argv :: "string list"
  sw_working_dir :: "string option"
  sw_clear_env :: bool
  sw_timeout_ms :: u64

datatype child_end = Exited int | Signaled int | Unreaped

datatype child =
    Spawn_failed bool
  | Child "string list" "string list" bool child_end

type_synonym os_env = "spawn list \<Rightarrow> spawn \<Rightarrow> child"

section \<open>Capture\<close>

text \<open>
  \<open>append_capped\<close>: the buffer holds \<open>length buf\<close> bytes before its terminator and never more
  than \<open>cap - 1\<close>.
\<close>

definition append_capped :: "nat \<Rightarrow> string \<times> bool \<Rightarrow> string \<Rightarrow> string \<times> bool" where
  "append_capped cap st data =
     (case st of (buf, trunc) \<Rightarrow>
        let room = cap - 1 - length buf;
            n = min (length data) room
        in (buf @ take n data, trunc \<or> n < length data))"

definition drain :: "nat \<Rightarrow> string list \<Rightarrow> string \<times> bool" where
  "drain cap chunks = foldl (append_capped cap) ([], False) chunks"

definition request_valid :: "cmd_request \<Rightarrow> bool" where
  "request_valid rq \<longleftrightarrow> 0 < length (rq_argv rq) \<and> length (rq_argv rq) \<le> CMD_MAX_ARGS \<and>
     rq_stdout_cap rq > 0 \<and> rq_stderr_cap rq > 0"

text \<open>
  \<open>reap_all\<close> on one started child. A child that \<open>waitpid\<close> does not return leaves the exit
  fields as they were.
\<close>

definition reap :: "child_end \<Rightarrow> cmd_result \<Rightarrow> cmd_result" where
  "reap e r =
     (case e of
        Exited c \<Rightarrow> r\<lparr>rs_exited := True, rs_exit_code := c, rs_status := SPG_OK\<rparr>
      | Signaled s \<Rightarrow> r\<lparr>rs_exited := False, rs_term_signal := s, rs_status := SPG_OK\<rparr>
      | Unreaped \<Rightarrow> r\<lparr>rs_status := SPG_OK\<rparr>)"

text \<open>One request of a batch: rejected without a fork, not started, or started and drained.\<close>

definition run_one :: "os_env \<Rightarrow> spawn list \<Rightarrow> cmd_request \<Rightarrow> cmd_result \<times> spawn list" where
  "run_one env log rq =
     (if \<not> request_valid rq then (fresh_result\<lparr>rs_status := SPG_E_INVALID_ARG\<rparr>, log)
      else let sp = \<lparr>sw_argv = rq_argv rq, sw_working_dir = rq_working_dir rq,
     sw_clear_env = rq_clear_env rq, sw_timeout_ms = rq_timeout_ms rq\<rparr> in
        (case env log sp of
           Spawn_failed enoent \<Rightarrow>
             (fresh_result\<lparr>rs_status := (if enoent then SPG_E_NOT_FOUND else SPG_E_IO)\<rparr>, log @ [sp])
         | Child out_chunks err_chunks killed e \<Rightarrow>
             let (out, ot) = drain (rq_stdout_cap rq) out_chunks;
                 (err, et) = drain (rq_stderr_cap rq) err_chunks
             in (reap e (fresh_result\<lparr>rs_started := True, rs_timed_out := killed,
                   rs_stdout := out, rs_stdout_truncated := ot,
                   rs_stderr := err, rs_stderr_truncated := et\<rparr>), log @ [sp])))"

fun run_batch :: "os_env \<Rightarrow> spawn list \<Rightarrow> cmd_request list \<Rightarrow> cmd_result list \<times> spawn list" where
  "run_batch env log [] = ([], log)"
| "run_batch env log (rq # rqs) =
     (case run_one env log rq of
        (r, log1) \<Rightarrow> (case run_batch env log1 rqs of (rs, log2) \<Rightarrow> (r # rs, log2)))"

definition spg_cmd_executor_run ::
  "os_env \<Rightarrow> spawn list \<Rightarrow> cmd_request list \<Rightarrow> spg_status \<times> cmd_result list \<times> spawn list" where
  "spg_cmd_executor_run env log rqs =
     (if length rqs = 0 then (SPG_OK, [], log)
      else if length rqs > CMD_MAX_BATCH then (SPG_E_LIMIT, [], log)
      else (case run_batch env log rqs of (rs, log') \<Rightarrow> (SPG_OK, rs, log')))"

section \<open>Splitting a command line\<close>

definition is_blank :: "char \<Rightarrow> bool" where
  "is_blank c \<longleftrightarrow> c = CHR '' '' \<or> c = ch_tab"

function spg_cmd_split_ws :: "string \<Rightarrow> nat \<Rightarrow> string list" where
  "spg_cmd_split_ws s 0 = []"
| "spg_cmd_split_ws s (Suc n) =
     (let p = dropWhile is_blank s
      in if p = [] then []
         else takeWhile (\<lambda>c. \<not> is_blank c) p #
              spg_cmd_split_ws (tl (dropWhile (\<lambda>c. \<not> is_blank c) p)) n)"
  by pat_completeness auto
termination by (relation "measure snd") auto

text \<open>
  The splitting works in place: what the command line holds afterwards, each word it took ended
  by a terminator.
\<close>

function split_buffer :: "string \<Rightarrow> nat \<Rightarrow> string" where
  "split_buffer s 0 = s"
| "split_buffer s (Suc n) =
     (let blanks = takeWhile is_blank s; p = dropWhile is_blank s
      in if p = [] then s
         else blanks @ takeWhile (\<lambda>c. \<not> is_blank c) p @
              (case dropWhile (\<lambda>c. \<not> is_blank c) p of
                 [] \<Rightarrow> []
               | _ # rest \<Rightarrow> ch_nul # split_buffer rest n))"
  by pat_completeness auto
termination by (relation "measure snd") auto

section \<open>The poll timeout\<close>

text \<open>
  The soonest deadline among the commands with an open pipe, in milliseconds rounded up and
  capped at \<open>INT_MAX\<close>; \<open>-1\<close> waits without a limit. A command is its deadline (0: none) and
  whether one of its two pipes is open.
\<close>

fun soonest :: "(u64 \<times> bool) list \<Rightarrow> u64 option \<Rightarrow> u64 option" where
  "soonest [] acc = acc"
| "soonest ((d, active) # cs) acc =
     (if d = 0 \<or> \<not> active then soonest cs acc
      else soonest cs (case acc of None \<Rightarrow> Some d | Some s \<Rightarrow> if d < s then Some d else Some s))"

definition poll_timeout_ms :: "(u64 \<times> bool) list \<Rightarrow> u64 \<Rightarrow> int" where
  "poll_timeout_ms cs now =
     (case soonest cs None of
        None \<Rightarrow> -1
      | Some s \<Rightarrow> if now \<ge> s then 0
                  else let ms = (s - now + 999999) div 1000000
                       in if uint ms > 2147483647 then 2147483647 else uint ms)"

section \<open>Lemmas\<close>

lemma append_capped_len: "cap > 0 \<Longrightarrow> length (fst st) < cap \<Longrightarrow> length (fst (append_capped cap st d)) < cap"
  by (cases st) (auto simp: append_capped_def Let_def)

lemma drain_gen:
  assumes "cap > 0"
  shows "foldl (append_capped cap) (take (cap - 1) s, cap - 1 < length s) chunks =
    (take (cap - 1) (s @ concat chunks), cap - 1 < length (s @ concat chunks))"
proof (induction chunks arbitrary: s)
  case (Cons c cs)
  have "append_capped cap (take (cap - 1) s, cap - 1 < length s) c =
      (take (cap - 1) (s @ c), cap - 1 < length (s @ c))"
    by (auto simp: append_capped_def Let_def min_def)
  with Cons [of "s @ c"] show ?case by simp
qed simp

lemma drain_eq:
  "cap > 0 \<Longrightarrow> drain cap chunks = (take (cap - 1) (concat chunks), cap - 1 < length (concat chunks))"
  using drain_gen [of cap "[]" chunks] by (simp add: drain_def)

lemma run_one_log: "run_one env log rq = (r, log') \<Longrightarrow>
   log' = (if request_valid rq then log @ [\<lparr>sw_argv = rq_argv rq, sw_working_dir = rq_working_dir rq,
     sw_clear_env = rq_clear_env rq, sw_timeout_ms = rq_timeout_ms rq\<rparr>] else log)"
  by (auto simp: run_one_def Let_def split: if_splits child.splits prod.splits)

lemma run_batch_length: "run_batch env log rqs = (rs, log') \<Longrightarrow> length rs = length rqs"
  by (induction rqs arbitrary: log rs log') (auto split: prod.splits)

lemma run_batch_log: "run_batch env log rqs = (rs, log') \<Longrightarrow>
   log' = log @ map (\<lambda>rq. \<lparr>sw_argv = rq_argv rq, sw_working_dir = rq_working_dir rq,
     sw_clear_env = rq_clear_env rq, sw_timeout_ms = rq_timeout_ms rq\<rparr>) (filter request_valid rqs)"
proof (induction rqs arbitrary: log rs log')
  case (Cons rq rqs)
  obtain r log1 where 1: "run_one env log rq = (r, log1)" by (cases "run_one env log rq")
  obtain rs' log2 where 2: "run_batch env log1 rqs = (rs', log2)" by (cases "run_batch env log1 rqs")
  from Cons.prems 1 2 have "log' = log2" by simp
  with Cons.IH [OF 2] run_one_log [OF 1] show ?case by (simp split: if_splits)
qed simp

end
