(* ===== verification/Device.thy ===== *)
theory Device
  imports SexprParse SexprWriter CmdExec
begin

text \<open>
  The channel table of \<open>src/device/device.c\<close> and the one transport under it, a program. A
  channel is a \<open>device_channel\<close>, the table a list of them; \<open>int64_t\<close> values are unbounded
  integers, kept in range by \<open>strtoll\<close>'s saturation, the injected clock is a 64-bit word.
  Operations that run programs take the environment and the log of spawned commands and
  return the log they leave. An output parameter is an argument and a result, so that ``left
  untouched'' is visible.
\<close>

definition DEVICE_NAME_CAP :: nat where "DEVICE_NAME_CAP = 32"
definition DEVICE_PROGRAM_CAP :: nat where "DEVICE_PROGRAM_CAP = 256"
definition DEVICE_MAX_CHANNELS :: nat where "DEVICE_MAX_CHANNELS = 32"
definition DEVICE_TIMEOUT_MS :: u64 where "DEVICE_TIMEOUT_MS = 1000"
definition DEVICE_TOKENS :: nat where "DEVICE_TOKENS = 1024"
definition DEVICE_NODES :: nat where "DEVICE_NODES = 512"
definition DEVICE_RENDER_CAP :: nat where "DEVICE_RENDER_CAP = 2048"

record device_channel =
  ch_name :: string
  ch_program :: string
  ch_min :: i64
  ch_max :: i64
  ch_writable :: bool
  ch_safe :: i64
  ch_network :: bool
  ch_last_contact :: u64
  ch_contact_pending :: bool

record device =
  dv_watchdog_timeout :: u64
  dv_last_contact :: u64
  dv_contact_pending :: bool
  dv_sample_timeout_ms :: u64
  dv_watchdog_tripped :: bool
  dv_channels :: "device_channel list"

record device_reading =
  rd_name :: string
  rd_value :: i64
  rd_known :: bool

datatype device_watchdog = WATCHDOG_DISABLED | WATCHDOG_OK | WATCHDOG_EXPIRED

section \<open>The table\<close>

definition spg_device_init :: device where
  "spg_device_init = \<lparr>dv_watchdog_timeout = 0, dv_last_contact = 0, dv_contact_pending = False,
     dv_sample_timeout_ms = 0, dv_watchdog_tripped = False, dv_channels = []\<rparr>"

fun find_index :: "string \<Rightarrow> device_channel list \<Rightarrow> nat \<Rightarrow> nat option" where
  "find_index name [] i = None"
| "find_index name (c # cs) i = (if ch_name c = name then Some i else find_index name cs (Suc i))"

text \<open>\<open>find_mut\<close> and its \<open>const\<close> twin return the place of the channel.\<close>

definition spg_device_find :: "device \<Rightarrow> string \<Rightarrow> nat option" where
  "spg_device_find dev name = find_index name (dv_channels dev) 0"

definition spg_device_add_channel :: "device \<Rightarrow> device_channel \<Rightarrow> spg_status \<times> device" where
  "spg_device_add_channel dev ch =
     (if ch_name ch = [] \<or> ch_program ch = [] \<or> ch_min ch > ch_max ch then (SPG_E_INVALID_ARG, dev)
      else if ch_writable ch \<and> (ch_safe ch < ch_min ch \<or> ch_safe ch > ch_max ch)
        then (SPG_E_INVALID_ARG, dev)
      else if spg_device_find dev (ch_name ch) \<noteq> None then (SPG_E_INVALID_ARG, dev)
      else if length (dv_channels dev) \<ge> DEVICE_MAX_CHANNELS then (SPG_E_LIMIT, dev)
      else (SPG_OK, dev\<lparr>dv_channels := dv_channels dev @
             [ch\<lparr>ch_last_contact := dv_last_contact dev, ch_contact_pending := False\<rparr>]\<rparr>))"

section \<open>Numbers\<close>

text \<open>
  \<open>strtoll\<close> in base 10: leading white space, an optional sign, digits, the value saturated at
  the ends of \<open>long long\<close>; the second component is the number of characters consumed, 0 when
  there is no digit. The code never reads \<open>errno\<close>.
\<close>

definition I64_MIN :: int where "I64_MIN = - 9223372036854775808"
definition I64_MAX :: int where "I64_MAX = 9223372036854775807"

definition is_c_space :: "char \<Rightarrow> bool" where
  "is_c_space c \<longleftrightarrow> c = CHR '' '' \<or> (9 \<le> code_of c \<and> code_of c \<le> 13)"

definition saturate_i64 :: "int \<Rightarrow> int" where
  "saturate_i64 v = (if v < I64_MIN then I64_MIN else if v > I64_MAX then I64_MAX else v)"

definition strtoll :: "string \<Rightarrow> int \<times> nat" where
  "strtoll s =
     (let ws = takeWhile is_c_space s;
          s1 = dropWhile is_c_space s;
          neg = (s1 \<noteq> [] \<and> hd s1 = CHR ''-'');
          signed = (s1 \<noteq> [] \<and> (hd s1 = CHR ''-'' \<or> hd s1 = CHR ''+''));
          s2 = (if signed then tl s1 else s1);
          ds = takeWhile is_digit s2;
          v = int (dec_value_from 0 ds)
      in if ds = [] then (0, 0)
         else (saturate_i64 (if neg then - v else v),
               length ws + (if signed then 1 else 0) + length ds))"

function nat_dec_loop :: "nat \<Rightarrow> string \<Rightarrow> string" where
  "nat_dec_loop n acc =
     (let acc' = digit_char (n mod 10) # acc
      in if n div 10 = 0 then acc' else nat_dec_loop (n div 10) acc')"
  by pat_completeness auto
termination by (relation "measure fst") auto

declare nat_dec_loop.simps [simp del]

text \<open>\<open>printf\<close>'s \<open>%lld\<close>.\<close>

definition i64_to_dec :: "int \<Rightarrow> string" where
  "i64_to_dec v = (if v < 0 then CHR ''-'' # nat_dec_loop (nat (- v)) [] else nat_dec_loop (nat v) [])"

section \<open>The configuration form\<close>

definition span_to_i64 :: "string \<Rightarrow> text_span \<Rightarrow> int option" where
  "span_to_i64 input sp =
     (if sp_length sp = 0 \<or> sp_length sp \<ge> 24 \<or> \<not> spg_sexpr_span_valid (length input) sp then None
      else (case strtoll (span_text input sp) of
              (v, used) \<Rightarrow> if used \<noteq> sp_length sp then None else Some v))"

definition span_to_text :: "string \<Rightarrow> text_span \<Rightarrow> nat \<Rightarrow> string option" where
  "span_to_text input sp cap =
     (if sp_length sp = 0 \<or> sp_length sp + 1 > cap \<or> \<not> spg_sexpr_span_valid (length input) sp
      then None else Some (c_string (span_text input sp)))"

definition string_value :: "string \<Rightarrow> sexpr_node list \<Rightarrow> nat \<Rightarrow> nat \<Rightarrow> string option" where
  "string_value input nodes v cap =
     (if nd_kind (nodes ! v) \<noteq> NODE_STRING then None
      else (case spg_sexpr_string_payload_span (nodes ! v) of
              None \<Rightarrow> None
            | Some sp \<Rightarrow> span_to_text input sp cap))"

text \<open>The fields seen so far: name, program, range.\<close>

type_synonym channel_seen = "bool \<times> bool \<times> bool"

definition parse_channel_field ::
  "string \<Rightarrow> sexpr_node list \<Rightarrow> nat \<Rightarrow> device_channel \<times> channel_seen \<Rightarrow>
     (device_channel \<times> channel_seen) option" where
  "parse_channel_field input nodes field st =
     (case st of (c, n, p, r) \<Rightarrow>
      let key = spg_sexpr_first_child nodes field;
          v = spg_sexpr_second_child nodes field;
          is_key = (\<lambda>s. spg_sexpr_span_eq_cstr input (nd_span (nodes ! key)) s);
          is_value = (\<lambda>s. spg_sexpr_span_eq_cstr input (nd_span (nodes ! v)) s)
      in if nd_kind (nodes ! field) \<noteq> NODE_LIST then None
         else if key = INVALID_INDEX \<or> v = INVALID_INDEX \<or> nd_kind (nodes ! key) \<noteq> NODE_SYMBOL then None
         else if is_key ''name'' then
           (case string_value input nodes v DEVICE_NAME_CAP of
              None \<Rightarrow> None | Some s \<Rightarrow> Some (c\<lparr>ch_name := s\<rparr>, True, p, r))
         else if is_key ''program'' then
           (case string_value input nodes v DEVICE_PROGRAM_CAP of
              None \<Rightarrow> None | Some s \<Rightarrow> Some (c\<lparr>ch_program := s\<rparr>, n, True, r))
         else if is_key ''range'' then
           (let hi = nd_next_sibling (nodes ! v)
            in if nd_kind (nodes ! v) \<noteq> NODE_SYMBOL \<or> hi = INVALID_INDEX \<or>
                  nd_kind (nodes ! hi) \<noteq> NODE_SYMBOL then None
               else (case (span_to_i64 input (nd_span (nodes ! v)),
                           span_to_i64 input (nd_span (nodes ! hi))) of
                       (Some a, Some b) \<Rightarrow> Some (c\<lparr>ch_min := a, ch_max := b\<rparr>, n, p, True)
                     | _ \<Rightarrow> None))
         else if is_key ''safe'' then
           (if nd_kind (nodes ! v) \<noteq> NODE_SYMBOL then None
            else (case span_to_i64 input (nd_span (nodes ! v)) of
                    None \<Rightarrow> None
                  | Some a \<Rightarrow> Some (c\<lparr>ch_safe := a, ch_writable := True\<rparr>, n, p, r)))
         else if is_key ''network'' then
           (if nd_kind (nodes ! v) \<noteq> NODE_SYMBOL then None
            else if is_value ''true'' then Some (c\<lparr>ch_network := True\<rparr>, n, p, r)
            else if is_value ''false'' then Some (c\<lparr>ch_network := False\<rparr>, n, p, r)
            else None)
         else None)"

fun parse_channel_fields ::
  "string \<Rightarrow> sexpr_node list \<Rightarrow> nat list \<Rightarrow> device_channel \<times> channel_seen \<Rightarrow>
     (device_channel \<times> channel_seen) option" where
  "parse_channel_fields input nodes [] st = Some st"
| "parse_channel_fields input nodes (f # fs) st =
     (case parse_channel_field input nodes f st of
        None \<Rightarrow> None
      | Some st' \<Rightarrow> parse_channel_fields input nodes fs st')"

definition zero_channel :: device_channel where
  "zero_channel = \<lparr>ch_name = [], ch_program = [], ch_min = 0, ch_max = 0, ch_writable = False,
     ch_safe = 0, ch_network = False, ch_last_contact = 0, ch_contact_pending = False\<rparr>"

text \<open>The channel of a node, or \<open>SPG_E_SCHEMA\<close>.\<close>

definition parse_channel_node :: "string \<Rightarrow> sexpr_node list \<Rightarrow> nat \<Rightarrow> spg_status + device_channel" where
  "parse_channel_node input nodes channel =
     (let head = spg_sexpr_first_child nodes channel
      in if head = INVALID_INDEX \<or> nd_kind (nodes ! head) \<noteq> NODE_SYMBOL \<or>
            \<not> spg_sexpr_span_eq_cstr input (nd_span (nodes ! head)) ''channel'' then Inl SPG_E_SCHEMA
         else (case parse_channel_fields input nodes (siblings nodes (nd_next_sibling (nodes ! head)))
                      (zero_channel, False, False, False) of
                 Some (c, True, True, True) \<Rightarrow> Inr c
               | _ \<Rightarrow> Inl SPG_E_SCHEMA))"

definition spg_device_parse_channel :: "string \<Rightarrow> spg_status + device_channel" where
  "spg_device_parse_channel input =
     (case spg_sexpr_parse_text input DEVICE_TOKENS DEVICE_NODES of
        (st, toks, nodes, e) \<Rightarrow>
          if st \<noteq> SPG_OK then Inl st
          else if length nodes = 0 \<or> nd_kind (nodes ! 0) \<noteq> NODE_LIST then Inl SPG_E_SCHEMA
          else parse_channel_node input nodes 0)"

text \<open>The loop over the channel forms; the index of the first bad one is reported.\<close>

fun load_channels ::
  "string \<Rightarrow> sexpr_node list \<Rightarrow> nat list \<Rightarrow> nat \<Rightarrow> device \<Rightarrow> spg_status \<times> device \<times> nat option" where
  "load_channels input nodes [] index dev = (SPG_OK, dev, None)"
| "load_channels input nodes (node # ns) index dev =
     (case (if nd_kind (nodes ! node) = NODE_LIST then parse_channel_node input nodes node
            else Inl SPG_E_SCHEMA) of
        Inl st \<Rightarrow> (st, dev, Some index)
      | Inr ch \<Rightarrow>
          (case spg_device_add_channel dev ch of
             (st, dev') \<Rightarrow>
               if st \<noteq> SPG_OK then (st, dev', Some index)
               else load_channels input nodes ns (Suc index) dev'))"

definition spg_device_load :: "string \<Rightarrow> device \<Rightarrow> spg_status \<times> device \<times> nat option" where
  "spg_device_load input dev =
     (case spg_sexpr_parse_text input DEVICE_TOKENS DEVICE_NODES of
        (st, toks, nodes, e) \<Rightarrow>
          if st \<noteq> SPG_OK then (st, dev, None)
          else if length nodes = 0 \<or> nd_kind (nodes ! 0) \<noteq> NODE_LIST then (SPG_E_SCHEMA, dev, None)
          else let head = spg_sexpr_first_child nodes 0
               in if head = INVALID_INDEX \<or> nd_kind (nodes ! head) \<noteq> NODE_SYMBOL \<or>
                     \<not> spg_sexpr_span_eq_cstr input (nd_span (nodes ! head)) ''device''
                  then (SPG_E_SCHEMA, dev, None)
                  else load_channels input nodes (siblings nodes (nd_next_sibling (nodes ! head))) 0 dev)"

end
