(* ===== verification/DeviceIO.thy ===== *)
theory DeviceIO
  imports Device
begin

text \<open>
  The operations of \<open>src/device/device.c\<close> that reach the machine or judge whether it is still
  in contact: running a channel's program, single reads and writes, the watchdog, driving the
  safe state, the concurrent sampling round, and rendering a round for the model.
\<close>

section \<open>Running a program\<close>

definition device_timeout_ms :: "device \<Rightarrow> u64" where
  "device_timeout_ms dev =
     (if dv_sample_timeout_ms dev \<noteq> 0 then dv_sample_timeout_ms dev else DEVICE_TIMEOUT_MS)"

definition command_of :: "string \<Rightarrow> string option \<Rightarrow> string list" where
  "command_of program argument = (case argument of None \<Rightarrow> [program] | Some a \<Rightarrow> [program, a])"

definition run_program ::
  "os_env \<Rightarrow> spawn list \<Rightarrow> string \<Rightarrow> string option \<Rightarrow> u64 \<Rightarrow> nat \<Rightarrow>
     spg_status \<times> string \<times> spawn list" where
  "run_program env log program argument timeout_ms stdout_cap =
     (let rq = \<lparr>rq_argv = command_of program argument, rq_working_dir = None, rq_clear_env = False, rq_timeout_ms = timeout_ms,
                rq_stdout_cap = stdout_cap, rq_stderr_cap = 256\<rparr>
      in case spg_cmd_executor_run env log [rq] of
           (st, results, log') \<Rightarrow>
             let r = hd results in
             if st \<noteq> SPG_OK \<or> rs_status r \<noteq> SPG_OK then (SPG_E_IO, rs_stdout r, log')
             else if \<not> rs_started r \<or> \<not> rs_exited r \<or> rs_exit_code r \<noteq> 0
               then (SPG_E_IO, rs_stdout r, log')
             else (SPG_OK, rs_stdout r, log'))"

definition is_ws4 :: "char \<Rightarrow> bool" where
  "is_ws4 c \<longleftrightarrow> c = CHR '' '' \<or> c = ch_tab \<or> c = ch_nl \<or> c = ch_cr"

definition parse_output :: "string \<Rightarrow> int option" where
  "parse_output buf =
     (let at = dropWhile is_ws4 (c_string buf)
      in if at = [] then None
         else (case strtoll at of
                 (v, used) \<Rightarrow>
                   if used = 0 then None
                   else if dropWhile is_ws4 (drop used at) \<noteq> [] then None
                   else Some v))"

section \<open>Contact\<close>

text \<open>A successful transaction on channel \<open>i\<close> feeds that channel and the device.\<close>

definition touch :: "device \<Rightarrow> nat \<Rightarrow> device" where
  "touch dev i = dev\<lparr>dv_contact_pending := True,
     dv_channels := (dv_channels dev)[i := (dv_channels dev ! i)\<lparr>ch_contact_pending := True\<rparr>]\<rparr>"

definition spg_device_read ::
  "os_env \<Rightarrow> spawn list \<Rightarrow> device \<Rightarrow> string \<Rightarrow> int \<Rightarrow> spg_status \<times> device \<times> spawn list \<times> int" where
  "spg_device_read env log dev name out =
     (case spg_device_find dev name of
        None \<Rightarrow> (SPG_E_NOT_FOUND, dev, log, out)
      | Some i \<Rightarrow>
          let channel = dv_channels dev ! i
          in case run_program env log (ch_program channel) None (device_timeout_ms dev) 64 of
               (st, output, log') \<Rightarrow>
                 if st \<noteq> SPG_OK then (st, dev, log', out)
                 else (case parse_output output of
                         None \<Rightarrow> (SPG_E_FORMAT, dev, log', out)
                       | Some v \<Rightarrow>
                           if v < ch_min channel \<or> v > ch_max channel then (SPG_E_LIMIT, dev, log', out)
                           else (SPG_OK, touch dev i, log', v)))"

definition spg_device_write ::
  "os_env \<Rightarrow> spawn list \<Rightarrow> device \<Rightarrow> string \<Rightarrow> int \<Rightarrow> spg_status \<times> device \<times> spawn list" where
  "spg_device_write env log dev name v =
     (case spg_device_find dev name of
        None \<Rightarrow> (SPG_E_NOT_FOUND, dev, log)
      | Some i \<Rightarrow>
          let channel = dv_channels dev ! i
          in if \<not> ch_writable channel then (SPG_E_POLICY_DENIED, dev, log)
             else if v < ch_min channel \<or> v > ch_max channel then (SPG_E_LIMIT, dev, log)
             else (case run_program env log (ch_program channel) (Some (i64_to_dec v))
                          (device_timeout_ms dev) 64 of
                     (st, output, log') \<Rightarrow>
                       if st \<noteq> SPG_OK then (st, dev, log')
                       else (case parse_output output of
                               Some echo \<Rightarrow> if echo \<noteq> v then (SPG_E_IO, dev, log')
                                            else (SPG_OK, touch dev i, log')
                             | None \<Rightarrow> (SPG_OK, touch dev i, log'))))"

section \<open>The watchdog\<close>

definition spg_device_arm_watchdog :: "device \<Rightarrow> u64 \<Rightarrow> u64 \<Rightarrow> device" where
  "spg_device_arm_watchdog dev timeout now =
     dev\<lparr>dv_watchdog_timeout := timeout, dv_last_contact := now, dv_contact_pending := False,
        dv_watchdog_tripped := False,
        dv_channels := map (\<lambda>c. c\<lparr>ch_last_contact := now, ch_contact_pending := False\<rparr>)
                           (dv_channels dev)\<rparr>"

definition fold_contact :: "device \<Rightarrow> u64 \<Rightarrow> device" where
  "fold_contact dev now =
     (let dev1 = (if dv_contact_pending dev
                  then dev\<lparr>dv_contact_pending := False, dv_last_contact := now\<rparr> else dev)
      in dev1\<lparr>dv_channels :=
            map (\<lambda>c. if ch_contact_pending c
                     then c\<lparr>ch_contact_pending := False, ch_last_contact := now\<rparr> else c)
                (dv_channels dev1)\<rparr>)"

fun channel_overdue :: "device_channel list \<Rightarrow> u64 \<Rightarrow> u64 \<Rightarrow> bool" where
  "channel_overdue [] now timeout = False"
| "channel_overdue (ch # chs) now timeout =
     (if ch_writable ch \<and> now \<ge> ch_last_contact ch \<and> now - ch_last_contact ch > timeout then True
      else channel_overdue chs now timeout)"

definition spg_device_watchdog_check :: "device \<Rightarrow> u64 \<Rightarrow> device \<times> device_watchdog" where
  "spg_device_watchdog_check dev0 now =
     (let dev = fold_contact dev0 now in
      if dv_watchdog_timeout dev = 0 then (dev, WATCHDOG_DISABLED)
      else if now < dv_last_contact dev then (dev, WATCHDOG_OK)
      else if now - dv_last_contact dev > dv_watchdog_timeout dev then (dev, WATCHDOG_EXPIRED)
      else if channel_overdue (dv_channels dev) now (dv_watchdog_timeout dev)
        then (dev, WATCHDOG_EXPIRED)
      else (dev, WATCHDOG_OK))"

text \<open>The loop of \<open>spg_device_safe_state\<close> over the \<open>k\<close> channels from index \<open>i\<close> on.\<close>

fun safe_state_loop ::
  "os_env \<Rightarrow> spawn list \<Rightarrow> device \<Rightarrow> nat \<Rightarrow> nat \<Rightarrow> spg_status \<Rightarrow> spg_status \<times> device \<times> spawn list" where
  "safe_state_loop env log dev i 0 first = (first, dev, log)"
| "safe_state_loop env log dev i (Suc k) first =
     (let c = dv_channels dev ! i in
      if \<not> ch_writable c then safe_state_loop env log dev (Suc i) k first
      else (case spg_device_write env log dev (ch_name c) (ch_safe c) of
              (st, dev', log') \<Rightarrow>
                safe_state_loop env log' dev' (Suc i) k
                  (if st \<noteq> SPG_OK \<and> first = SPG_OK then st else first)))"

definition spg_device_safe_state ::
  "os_env \<Rightarrow> spawn list \<Rightarrow> device \<Rightarrow> spg_status \<times> device \<times> spawn list" where
  "spg_device_safe_state env log dev =
     safe_state_loop env log dev 0 (length (dv_channels dev)) SPG_OK"

section \<open>What the agent sees\<close>

definition sample_request :: "u64 \<Rightarrow> device_channel \<Rightarrow> cmd_request" where
  "sample_request timeout c = \<lparr>rq_argv = [ch_program c], rq_working_dir = None, rq_clear_env = False, rq_timeout_ms = timeout,
     rq_stdout_cap = 64, rq_stderr_cap = 64\<rparr>"

text \<open>The verdict on one channel's result: a status and a value.\<close>

definition judge_reading :: "spg_status \<Rightarrow> cmd_result \<Rightarrow> device_channel \<Rightarrow> spg_status \<times> int" where
  "judge_reading batch r c =
     (if batch \<noteq> SPG_OK then (batch, 0)
      else if rs_status r \<noteq> SPG_OK \<or> \<not> rs_started r \<or> \<not> rs_exited r \<or> rs_exit_code r \<noteq> 0
        then (SPG_E_IO, 0)
      else (case parse_output (rs_stdout r) of
              None \<Rightarrow> (SPG_E_FORMAT, 0)
            | Some v \<Rightarrow> if v < ch_min c \<or> v > ch_max c then (SPG_E_LIMIT, v) else (SPG_OK, v)))"

fun sample_loop ::
  "spg_status \<Rightarrow> cmd_result list \<Rightarrow> device \<Rightarrow> nat \<Rightarrow> nat \<Rightarrow> device_reading list \<Rightarrow> spg_status \<Rightarrow>
     spg_status \<times> device \<times> device_reading list" where
  "sample_loop batch results dev i 0 out first = (first, dev, out)"
| "sample_loop batch results dev i (Suc k) out first =
     (let c = dv_channels dev ! i in
      case judge_reading batch (results ! i) c of
        (st, v) \<Rightarrow>
          if st = SPG_OK then
            sample_loop batch results (touch dev i) (Suc i) k
              (out @ [\<lparr>rd_name = ch_name c, rd_value = v, rd_known = True\<rparr>]) first
          else
            sample_loop batch results dev (Suc i) k
              (out @ [\<lparr>rd_name = ch_name c, rd_value = 0, rd_known = False\<rparr>])
              (if first = SPG_OK then st else first))"

definition spg_device_sample ::
  "os_env \<Rightarrow> spawn list \<Rightarrow> device \<Rightarrow> spg_status \<times> device \<times> spawn list \<times> device_reading list" where
  "spg_device_sample env log dev =
     (let timeout = device_timeout_ms dev
      in case spg_cmd_executor_run env log (map (sample_request timeout) (dv_channels dev)) of
           (batch, results, log') \<Rightarrow>
             (case sample_loop batch results dev 0 (length (dv_channels dev)) [] SPG_OK of
                (first, dev', out) \<Rightarrow> (first, dev', log', out)))"

text \<open>
  \<open>snprintf\<close> into the rest of the block: the bytes that fit before the terminator are kept,
  and the full length is added to the count either way.
\<close>

definition block_printf :: "string \<times> nat \<Rightarrow> string \<Rightarrow> string \<times> nat" where
  "block_printf st txt =
     (case st of (block, used) \<Rightarrow>
        (if used < DEVICE_RENDER_CAP then take (DEVICE_RENDER_CAP - 1) (take used block @ txt) else block,
         used + length txt))"

definition reading_text :: "device_reading \<Rightarrow> string" where
  "reading_text r =
     (if rd_known r then '' ('' @ rd_name r @ '' '' @ i64_to_dec (rd_value r) @ '')''
      else '' ('' @ rd_name r @ '' unknown)'')"

definition spg_device_state_render ::
  "device_reading list \<Rightarrow> nat \<Rightarrow> string \<Rightarrow> spg_status \<times> string \<times> nat option" where
  "spg_device_state_render readings dst_capacity dst =
     (if dst_capacity = 0 \<or> length readings > DEVICE_MAX_CHANNELS then (SPG_E_INVALID_ARG, dst, None)
      else let st0 = block_printf ([], 0) ''(device-state'';
               st1 = foldl (\<lambda>st r. block_printf st (reading_text r)) st0 readings;
               (block, used) = block_printf st1 '')''
           in if used + 1 > dst_capacity then (SPG_E_LIMIT, dst, Some (used + 1))
              else (SPG_OK, buf_write dst 0 (block @ [ch_nul]), Some (used + 1)))"

end
