(* ===== verification/DeviceSafety.thy ===== *)
theory DeviceSafety
  imports DeviceIO
begin

text \<open>
  What the device layer promises. The static part of a channel (everything but its contact
  bookkeeping) forms the \<open>table\<close>, an abstraction every operation respects: only adding and
  loading extend it, by valid channels of new names. On it rest the safety of every program
  ever run, the safe-state drive, the sampling round and the watchdog's verdict.
\<close>

section \<open>The table as an abstraction\<close>

definition static :: "device_channel \<Rightarrow> device_channel" where
  "static c = c\<lparr>ch_last_contact := 0, ch_contact_pending := False\<rparr>"

definition table :: "device \<Rightarrow> device_channel list" where
  "table dev = map static (dv_channels dev)"

definition channel_ok :: "device_channel \<Rightarrow> bool" where
  "channel_ok c \<longleftrightarrow> ch_name c \<noteq> [] \<and> ch_program c \<noteq> [] \<and> ch_min c \<le> ch_max c \<and>
     (ch_writable c \<longrightarrow> ch_min c \<le> ch_safe c \<and> ch_safe c \<le> ch_max c)"

definition table_ok :: "device_channel list \<Rightarrow> bool" where
  "table_ok cs \<longleftrightarrow> distinct (map ch_name cs) \<and> list_all channel_ok cs \<and> length cs \<le> DEVICE_MAX_CHANNELS"

lemma static_sel [simp]:
  "ch_name (static c) = ch_name c" "ch_program (static c) = ch_program c" "ch_min (static c) = ch_min c"
  "ch_max (static c) = ch_max c" "ch_writable (static c) = ch_writable c" "ch_safe (static c) = ch_safe c"
  "static (c\<lparr>ch_last_contact := n\<rparr>) = static c" "static (c\<lparr>ch_contact_pending := b\<rparr>) = static c"
  "channel_ok (static c) = channel_ok c"
  by (simp_all add: static_def channel_ok_def)

lemma length_table [simp]: "length (table dev) = length (dv_channels dev)"
  by (simp add: table_def)

lemma nth_table [simp]: "i < length (dv_channels dev) \<Longrightarrow> table dev ! i = static (dv_channels dev ! i)"
  by (simp add: table_def)

lemma find_index_iff:
  "find_index name cs i = Some k \<longleftrightarrow>
     (i \<le> k \<and> k < i + length cs \<and> ch_name (cs ! (k - i)) = name \<and>
      (\<forall>j < k - i. ch_name (cs ! j) \<noteq> name))"
proof (induction cs arbitrary: i)
  case (Cons c cs)
  show ?case
  proof (cases "ch_name c = name")
    case True
    then have "find_index name (c # cs) i = Some i" by simp
    moreover have "(i \<le> k \<and> k < i + length (c # cs) \<and> ch_name ((c # cs) ! (k - i)) = name \<and>
      (\<forall>j < k - i. ch_name ((c # cs) ! j) \<noteq> name)) \<longleftrightarrow> k = i"
    proof
      assume *: "i \<le> k \<and> k < i + length (c # cs) \<and> ch_name ((c # cs) ! (k - i)) = name \<and>
        (\<forall>j < k - i. ch_name ((c # cs) ! j) \<noteq> name)"
      then have "\<not> 0 < k - i" using True by (metis nth_Cons_0)
      with * show "k = i" by simp
    qed (use True in simp)
    ultimately show ?thesis by auto
  next
    case False
    have *: "(\<forall>j < Suc m. ch_name ((c # cs) ! j) \<noteq> name) \<longleftrightarrow> (\<forall>j < m. ch_name (cs ! j) \<noteq> name)" for m
      using False by (auto simp: less_Suc_eq_0_disj)
    show ?thesis
    proof (cases "k \<le> i")
      case True
      then show ?thesis using False Cons.IH [of "Suc i"] by auto
    next
      case le: False
      then obtain m where m: "k = Suc (i + m)" using less_imp_Suc_add by fastforce
      have "k - i = Suc m" "k - Suc i = m" using m by simp_all
      then show ?thesis using False Cons.IH [of "Suc i"] * [of m] m by simp
    qed
  qed
qed simp

lemma find_index_None: "find_index name cs i = None \<longleftrightarrow> name \<notin> ch_name ` set cs"
  by (induction cs arbitrary: i) auto

lemma find_bound: "spg_device_find dev name = Some i \<Longrightarrow>
    i < length (dv_channels dev) \<and> ch_name (dv_channels dev ! i) = name"
  by (simp add: spg_device_find_def find_index_iff)

lemma find_nth:
  assumes "distinct (map ch_name (dv_channels dev))" "i < length (dv_channels dev)"
  shows "spg_device_find dev (ch_name (dv_channels dev ! i)) = Some i"
proof -
  have "ch_name (dv_channels dev ! j) \<noteq> ch_name (dv_channels dev ! i)" if "j < i" for j
    using assms that by (auto simp: distinct_conv_nth)
  then show ?thesis using assms(2) by (simp add: spg_device_find_def find_index_iff)
qed

lemma find_table: "table dev' = table dev \<Longrightarrow> spg_device_find dev' name = spg_device_find dev name"
proof -
  have "find_index name (map static cs) i = find_index name cs i" for cs i
    by (induction cs arbitrary: i) auto
  then show "table dev' = table dev \<Longrightarrow> spg_device_find dev' name = spg_device_find dev name"
    unfolding spg_device_find_def table_def by metis
qed

lemma table_ok_distinct: "table_ok (table dev) \<Longrightarrow> distinct (map ch_name (dv_channels dev))"
  by (simp add: table_ok_def table_def comp_def)

lemma table_touch [simp, frame]: "table (touch dev i) = table dev"
proof -
  have "(map static (dv_channels dev))[i := static (dv_channels dev ! i)] = map static (dv_channels dev)"
    by (metis list_update_id map_update)
  then show ?thesis by (simp add: table_def touch_def map_update)
qed

lemma timeout_touch [simp, frame]: "device_timeout_ms (touch dev i) = device_timeout_ms dev"
  by (simp add: device_timeout_ms_def touch_def)

lemma table_arm [simp, frame]: "table (spg_device_arm_watchdog dev t now) = table dev"
  by (simp add: table_def spg_device_arm_watchdog_def)

lemma table_fold [simp, frame]: "table (fold_contact dev now) = table dev"
  by (auto simp: table_def fold_contact_def Let_def)

lemma table_check [simp, frame]: "table (fst (spg_device_watchdog_check dev now)) = table dev"
  by (simp add: spg_device_watchdog_check_def Let_def)

lemma table_add:
  assumes "spg_device_add_channel dev ch = (st, dev')"
  shows "(st = SPG_OK \<and> table dev' = table dev @ [static ch]) \<or> (st \<noteq> SPG_OK \<and> dev' = dev)"
    and "table_ok (table dev) \<Longrightarrow> table_ok (table dev')"
proof -
  show 1: "(st = SPG_OK \<and> table dev' = table dev @ [static ch]) \<or> (st \<noteq> SPG_OK \<and> dev' = dev)"
    using assms by (auto simp: spg_device_add_channel_def table_def static_def split: if_splits)
  assume ok: "table_ok (table dev)"
  show "table_ok (table dev')"
  proof (cases "st = SPG_OK")
    case True
    with assms have *: "channel_ok ch" "spg_device_find dev (ch_name ch) = None"
        "length (dv_channels dev) < DEVICE_MAX_CHANNELS"
      by (auto simp: spg_device_add_channel_def channel_ok_def split: if_splits)
    have "ch_name ch \<notin> ch_name ` set (table dev)"
      using *(2) by (auto simp: spg_device_find_def find_index_None table_def)
    with * 1 True ok show ?thesis by (simp add: table_ok_def)
  qed (use 1 ok in simp)
qed

lemma table_load_channels:
  assumes "load_channels input nodes ns k dev = (st, dev', bad)"
  shows "\<exists>cs. table dev' = table dev @ cs" "table_ok (table dev) \<Longrightarrow> table_ok (table dev')"
  using assms
proof (induction ns arbitrary: k dev)
  case (Cons n ns)
  { case 1
    show ?case
    proof (cases "if nd_kind (nodes ! n) = NODE_LIST then parse_channel_node input nodes n else Inl SPG_E_SCHEMA")
      case (Inl e)
      then show ?thesis using 1 by simp
    next
      case (Inr ch)
      obtain s1 d1 where a: "spg_device_add_channel dev ch = (s1, d1)" by fastforce
      show ?thesis
        using 1 Inr a Cons.IH(1) [of "Suc k" d1] table_add(1) [OF a] by (auto split: if_splits)
    qed }
  { case 2
    show ?case
    proof (cases "if nd_kind (nodes ! n) = NODE_LIST then parse_channel_node input nodes n else Inl SPG_E_SCHEMA")
      case (Inl e)
      then show ?thesis using 2 by simp
    next
      case (Inr ch)
      obtain s1 d1 where a: "spg_device_add_channel dev ch = (s1, d1)" by fastforce
      show ?thesis
        using 2 Inr a Cons.IH(2) [of d1 "Suc k"] table_add(2) [OF a] by (auto split: if_splits)
    qed }
qed auto

lemma table_load:
  assumes "spg_device_load input dev = (st, dev', bad)"
  shows "\<exists>cs. table dev' = table dev @ cs" "table_ok (table dev) \<Longrightarrow> table_ok (table dev')"
  using assms table_load_channels
  unfolding spg_device_load_def Let_def by (auto split: prod.splits if_splits)


section \<open>Programs run\<close>

definition spawn_of :: "device \<Rightarrow> string \<Rightarrow> string option \<Rightarrow> spawn" where
  "spawn_of dev program argument =
     \<lparr>sw_argv = command_of program argument, sw_working_dir = None, sw_clear_env = False, sw_timeout_ms = device_timeout_ms dev\<rparr>"

lemma run_program_log:
  assumes "run_program env log program argument timeout_ms 64 = (st, out, log')"
  shows "log' = log @ [\<lparr>sw_argv = command_of program argument, sw_working_dir = None, sw_clear_env = False, sw_timeout_ms = timeout_ms\<rparr>]"
proof -
  obtain r l where r: "run_one env log \<lparr>rq_argv = command_of program argument, rq_working_dir = None, rq_clear_env = False, rq_timeout_ms = timeout_ms,
      rq_stdout_cap = 64, rq_stderr_cap = 256\<rparr> = (r, l)" by fastforce
  have "log' = l" using assms r
    by (auto simp: run_program_def spg_cmd_executor_run_def CMD_MAX_BATCH_def Let_def split: if_splits)
  moreover have "request_valid \<lparr>rq_argv = command_of program argument, rq_working_dir = None, rq_clear_env = False, rq_timeout_ms = timeout_ms,
      rq_stdout_cap = 64, rq_stderr_cap = 256\<rparr>"
    by (cases argument) (simp_all add: request_valid_def command_of_def CMD_MAX_ARGS_def)
  ultimately show ?thesis using run_one_log [OF r] by simp
qed

text \<open>Every branch of a write: refused before a fork, or run and then judged.\<close>

lemma write_cases:
  assumes "spg_device_write env log dev name v = (st, dev', log')"
  obtains (refused) "st \<noteq> SPG_OK" "dev' = dev" "log' = log"
  | (ran) i where "spg_device_find dev name = Some i" "i < length (dv_channels dev)"
      "ch_writable (dv_channels dev ! i)" "ch_min (dv_channels dev ! i) \<le> v" "v \<le> ch_max (dv_channels dev ! i)"
      "log' = log @ [spawn_of dev (ch_program (dv_channels dev ! i)) (Some (i64_to_dec v))]"
      "(st = SPG_OK \<and> dev' = touch dev i) \<or> (st \<noteq> SPG_OK \<and> dev' = dev)"
proof (cases "spg_device_find dev name")
  case None
  then show ?thesis using assms refused by (simp add: spg_device_write_def)
next
  case (Some i)
  note b = find_bound [OF Some]
  obtain s out l where r: "run_program env log (ch_program (dv_channels dev ! i)) (Some (i64_to_dec v))
      (device_timeout_ms dev) 64 = (s, out, l)" by (metis prod_cases3)
  show ?thesis
  proof (cases "\<not> ch_writable (dv_channels dev ! i) \<or> v < ch_min (dv_channels dev ! i) \<or> v > ch_max (dv_channels dev ! i)")
    case True
    then show ?thesis using assms Some refused by (auto simp: spg_device_write_def Let_def split: if_splits)
  next
    case False
    then have "log' = l" "(st = SPG_OK \<and> dev' = touch dev i) \<or> (st \<noteq> SPG_OK \<and> dev' = dev)"
      using assms Some r by (auto simp: spg_device_write_def Let_def split: if_splits option.splits)
    then show ?thesis using False Some b run_program_log [OF r] ran by (simp add: spawn_of_def not_less)
  qed
qed

lemma read_cases:
  assumes "spg_device_read env log dev name out = (st, dev', log', v)"
  obtains (unknown) "st = SPG_E_NOT_FOUND" "dev' = dev" "log' = log" "v = out"
  | (ran) i where "spg_device_find dev name = Some i" "i < length (dv_channels dev)"
      "log' = log @ [spawn_of dev (ch_program (dv_channels dev ! i)) None]"
      "(st = SPG_OK \<and> dev' = touch dev i \<and> ch_min (dv_channels dev ! i) \<le> v \<and> v \<le> ch_max (dv_channels dev ! i))
       \<or> (st \<noteq> SPG_OK \<and> dev' = dev \<and> v = out)"
proof (cases "spg_device_find dev name")
  case None
  then show ?thesis using assms unknown by (simp add: spg_device_read_def)
next
  case (Some i)
  note b = find_bound [OF Some]
  obtain s o2 l where r: "run_program env log (ch_program (dv_channels dev ! i)) None
      (device_timeout_ms dev) 64 = (s, o2, l)" by (metis prod_cases3)
  have "log' = l"
    "(st = SPG_OK \<and> dev' = touch dev i \<and> ch_min (dv_channels dev ! i) \<le> v \<and> v \<le> ch_max (dv_channels dev ! i))
       \<or> (st \<noteq> SPG_OK \<and> dev' = dev \<and> v = out)"
    using assms Some r by (auto simp: spg_device_read_def Let_def split: if_splits option.splits)
  then show ?thesis using Some b run_program_log [OF r] ran by (simp add: spawn_of_def)
qed

lemma write_table: "spg_device_write env log dev name v = (st, dev', log') \<Longrightarrow>
    table dev' = table dev \<and> device_timeout_ms dev' = device_timeout_ms dev"
  by (erule write_cases) auto

lemma read_table: "spg_device_read env log dev name out = (st, dev', log', v) \<Longrightarrow> table dev' = table dev"
  by (erule read_cases) auto

section \<open>The safe state\<close>

text \<open>The channel at \<open>i\<close> after a write: same table, its pending flag never cleared.\<close>

lemma touch_pending:
  "i < length (dv_channels dev) \<Longrightarrow> j < length (dv_channels dev) \<Longrightarrow>
   ch_contact_pending (dv_channels (touch dev i) ! j) \<longleftrightarrow> j = i \<or> ch_contact_pending (dv_channels dev ! j)"
  by (auto simp: touch_def nth_list_update)

definition safe_spawn :: "device \<Rightarrow> device_channel \<Rightarrow> spawn" where
  "safe_spawn dev c = spawn_of dev (ch_program c) (Some (i64_to_dec (ch_safe c)))"

lemma safe_write:
  assumes "table_ok (table dev)" "i < length (dv_channels dev)" "ch_writable (dv_channels dev ! i)"
    and "spg_device_write env log dev (ch_name (dv_channels dev ! i)) (ch_safe (dv_channels dev ! i)) =
           (st, dev', log')"
  shows "log' = log @ [safe_spawn dev (dv_channels dev ! i)]"
    and "(st = SPG_OK \<and> dev' = touch dev i) \<or> (st \<noteq> SPG_OK \<and> dev' = dev)"
proof -
  let ?c = "dv_channels dev ! i"
  note f = find_nth [OF table_ok_distinct [OF assms(1)] assms(2)]
  have "channel_ok (table dev ! i)" using assms(1,2) by (simp add: table_ok_def list_all_length)
  then have ok: "channel_ok ?c" using assms(2) by simp
  obtain s out l where r: "run_program env log (ch_program ?c) (Some (i64_to_dec (ch_safe ?c)))
      (device_timeout_ms dev) 64 = (s, out, l)" by (metis prod_cases3)
  have w: "log' = l" "(st = SPG_OK \<and> dev' = touch dev i) \<or> (st \<noteq> SPG_OK \<and> dev' = dev)"
    using assms(3,4) f r ok
    by (auto simp: spg_device_write_def Let_def channel_ok_def split: if_splits option.splits)
  show "log' = log @ [safe_spawn dev ?c]"
    using w(1) run_program_log [OF r] by (simp add: safe_spawn_def spawn_of_def)
  show "(st = SPG_OK \<and> dev' = touch dev i) \<or> (st \<noteq> SPG_OK \<and> dev' = dev)" by (rule w(2))
qed

lemma safe_state_loop_spec:
  assumes "safe_state_loop env log dev i k first = (st, dev', log')" "table_ok (table dev)"
    and "i + k = length (dv_channels dev)"
  shows "log' = log @ map (safe_spawn dev) (filter ch_writable (drop i (table dev)))"
    and "table dev' = table dev"
    and "first \<noteq> SPG_OK \<Longrightarrow> st = first"
    and "st = SPG_OK \<Longrightarrow> \<forall>j < length (dv_channels dev). (ch_contact_pending (dv_channels dev ! j) \<longrightarrow> ch_contact_pending (dv_channels dev' ! j)) \<and>
           (i \<le> j \<longrightarrow> ch_writable (table dev ! j) \<longrightarrow> ch_contact_pending (dv_channels dev' ! j))"
proof -
  have "log' = log @ map (safe_spawn dev) (filter ch_writable (drop i (table dev))) \<and>
    table dev' = table dev \<and> (first \<noteq> SPG_OK \<longrightarrow> st = first) \<and>
    (st = SPG_OK \<longrightarrow> (\<forall>j < length (dv_channels dev). (ch_contact_pending (dv_channels dev ! j) \<longrightarrow> ch_contact_pending (dv_channels dev' ! j)) \<and>
           (i \<le> j \<longrightarrow> ch_writable (table dev ! j) \<longrightarrow> ch_contact_pending (dv_channels dev' ! j))))"
    using assms
  proof (induction k arbitrary: i log dev first)
    case (Suc k)
    let ?c = "dv_channels dev ! i"
    have i: "i < length (dv_channels dev)" using Suc.prems(3) by simp
    have d: "drop i (table dev) = static ?c # drop (Suc i) (table dev)"
      using i by (simp add: Cons_nth_drop_Suc [symmetric])
    show ?case
    proof (cases "ch_writable ?c")
      case False
      then have "safe_state_loop env log dev (Suc i) k first = (st, dev', log')"
        using Suc.prems(1) by (simp add: Let_def)
      from Suc.IH [OF this Suc.prems(2)] Suc.prems(3) False d i show ?thesis
        by (auto simp: le_Suc_eq dest: le_neq_implies_less)
    next
      case True
      obtain s d1 l1 where w: "spg_device_write env log dev (ch_name ?c) (ch_safe ?c) = (s, d1, l1)"
        by (metis prod_cases3)
      note sw = safe_write [OF Suc.prems(2) i True w]
      note wt = write_table [OF w]
      have len: "length (dv_channels d1) = length (dv_channels dev)" using wt by (metis length_table)
      have next_run: "safe_state_loop env l1 d1 (Suc i) k (if s \<noteq> SPG_OK \<and> first = SPG_OK then s else first) = (st, dev', log')"
        using Suc.prems(1) True w by (simp add: Let_def)
      have "table_ok (table d1)" "Suc i + k = length (dv_channels d1)"
        using wt Suc.prems(2,3) len by simp_all
      note ih = Suc.IH [OF next_run this]
      have ss: "safe_spawn d1 = safe_spawn dev" using wt by (auto simp: safe_spawn_def spawn_of_def fun_eq_iff)
      have sp: "safe_spawn dev (static ?c) = safe_spawn dev ?c" by (simp add: safe_spawn_def)
      have 1: "log' = log @ map (safe_spawn dev) (filter ch_writable (drop i (table dev)))"
        using ih sw(1) ss sp d True wt by simp
      have 2: "table dev' = table dev" and 3: "first \<noteq> SPG_OK \<longrightarrow> st = first" using ih wt by auto
      have 4: "\<forall>j < length (dv_channels dev). (ch_contact_pending (dv_channels dev ! j) \<longrightarrow> ch_contact_pending (dv_channels dev' ! j)) \<and>
           (i \<le> j \<longrightarrow> ch_writable (table dev ! j) \<longrightarrow> ch_contact_pending (dv_channels dev' ! j))" if "st = SPG_OK"
      proof (intro allI impI)
        fix j assume j: "j < length (dv_channels dev)"
        have "s = SPG_OK" using ih that by (auto split: if_splits)
        then have t: "d1 = touch dev i" using sw(2) by simp
        have p: "ch_contact_pending (dv_channels d1 ! j) \<longleftrightarrow> j = i \<or> ch_contact_pending (dv_channels dev ! j)"
          unfolding t by (rule touch_pending [OF i j])
        have q: "(ch_contact_pending (dv_channels d1 ! j) \<longrightarrow> ch_contact_pending (dv_channels dev' ! j)) \<and>
           (Suc i \<le> j \<longrightarrow> ch_writable (table d1 ! j) \<longrightarrow> ch_contact_pending (dv_channels dev' ! j))"
          using ih that j len by simp
        show "(ch_contact_pending (dv_channels dev ! j) \<longrightarrow> ch_contact_pending (dv_channels dev' ! j)) \<and>
           (i \<le> j \<longrightarrow> ch_writable (table dev ! j) \<longrightarrow> ch_contact_pending (dv_channels dev' ! j))"
          using p q wt by (metis le_neq_implies_less Suc_leI)
      qed
      show ?thesis using 1 2 3 4 by blast
    qed
  qed auto
  then show "log' = log @ map (safe_spawn dev) (filter ch_writable (drop i (table dev)))"
    and "table dev' = table dev"
    and "first \<noteq> SPG_OK \<Longrightarrow> st = first"
    and "st = SPG_OK \<Longrightarrow> \<forall>j < length (dv_channels dev). (ch_contact_pending (dv_channels dev ! j) \<longrightarrow> ch_contact_pending (dv_channels dev' ! j)) \<and>
           (i \<le> j \<longrightarrow> ch_writable (table dev ! j) \<longrightarrow> ch_contact_pending (dv_channels dev' ! j))"
    by blast+
qed


section \<open>The sampling round\<close>

definition reading_of :: "spg_status \<Rightarrow> cmd_result \<Rightarrow> device_channel \<Rightarrow> device_reading" where
  "reading_of batch r c =
     (case judge_reading batch r c of
        (st, v) \<Rightarrow> if st = SPG_OK then \<lparr>rd_name = ch_name c, rd_value = v, rd_known = True\<rparr>
                   else \<lparr>rd_name = ch_name c, rd_value = 0, rd_known = False\<rparr>)"

lemma judge_static [simp]: "judge_reading batch r (static c) = judge_reading batch r c"
  by (simp add: judge_reading_def split: option.split)

lemma reading_static [simp]: "reading_of batch r (static c) = reading_of batch r c"
  by (simp add: reading_of_def split: prod.split)

lemma reading_of_sound:
  "rd_name (reading_of batch r c) = ch_name c"
  "rd_known (reading_of batch r c) \<Longrightarrow>
     ch_min c \<le> rd_value (reading_of batch r c) \<and> rd_value (reading_of batch r c) \<le> ch_max c"
  "\<not> rd_known (reading_of batch r c) \<Longrightarrow> rd_value (reading_of batch r c) = 0"
  "rd_known (reading_of batch r c) \<longleftrightarrow> fst (judge_reading batch r c) = SPG_OK"
proof -
  obtain st v where j: "judge_reading batch r c = (st, v)" by fastforce
  have "st = SPG_OK \<Longrightarrow> ch_min c \<le> v \<and> v \<le> ch_max c"
    using j by (auto simp: judge_reading_def split: if_splits option.splits)
  then show "rd_name (reading_of batch r c) = ch_name c"
    "rd_known (reading_of batch r c) \<Longrightarrow>
     ch_min c \<le> rd_value (reading_of batch r c) \<and> rd_value (reading_of batch r c) \<le> ch_max c"
    "\<not> rd_known (reading_of batch r c) \<Longrightarrow> rd_value (reading_of batch r c) = 0"
    "rd_known (reading_of batch r c) \<longleftrightarrow> fst (judge_reading batch r c) = SPG_OK"
    by (simp_all add: reading_of_def j split: if_splits)
qed

lemma sample_loop_spec:
  assumes "sample_loop batch results dev i k out first = (st, dev', out')"
    and "i + k = length (dv_channels dev)"
  shows "table dev' = table dev \<and>
    out' = out @ map (\<lambda>j. reading_of batch (results ! j) (table dev ! j)) [i..<i + k] \<and>
    (st = SPG_OK \<longleftrightarrow> first = SPG_OK \<and> (\<forall>j \<in> {i..<i + k}. rd_known (reading_of batch (results ! j) (table dev ! j)))) \<and>
    (\<forall>j < length (dv_channels dev). ch_contact_pending (dv_channels dev' ! j) \<longleftrightarrow>
       ch_contact_pending (dv_channels dev ! j) \<or>
       (i \<le> j \<and> rd_known (reading_of batch (results ! j) (table dev ! j))))"
  using assms
proof (induction k arbitrary: i dev out first)
  case 0
  then show ?case by auto
next
  case (Suc k)
  let ?c = "dv_channels dev ! i"
  have i: "i < length (dv_channels dev)" using Suc.prems(2) by simp
  obtain s v where j: "judge_reading batch (results ! i) ?c = (s, v)" by fastforce
  let ?r = "reading_of batch (results ! i) (table dev ! i)"
  let ?d = "if s = SPG_OK then touch dev i else dev"
  have r: "?r = (if s = SPG_OK then \<lparr>rd_name = ch_name ?c, rd_value = v, rd_known = True\<rparr>
       else \<lparr>rd_name = ch_name ?c, rd_value = 0, rd_known = False\<rparr>)"
    using i j by (simp add: reading_of_def)
  have next_run: "sample_loop batch results ?d (Suc i) k (out @ [?r])
      (if s \<noteq> SPG_OK \<and> first = SPG_OK then s else first) = (st, dev', out')"
    using Suc.prems(1) j r by (auto simp: Let_def split: if_splits)
  have d: "table ?d = table dev" by simp
  have d_len: "length (dv_channels ?d) = length (dv_channels dev)" by (simp add: touch_def)
  have p: "ch_contact_pending (dv_channels ?d ! m) \<longleftrightarrow>
      ch_contact_pending (dv_channels dev ! m) \<or> (m = i \<and> rd_known ?r)" if "m < length (dv_channels dev)" for m
    using touch_pending [OF i that] r by auto
  have "Suc i + k = length (dv_channels ?d)" using d_len Suc.prems(2) by simp
  note ih = Suc.IH [OF next_run this, unfolded d d_len]
  have e: "[i..<i + Suc k] = i # [Suc i..<Suc i + k]" by (simp add: upt_conv_Cons)
  have "{i..<i + Suc k} = insert i {Suc i..<Suc i + k}" by auto
  then have st: "st = SPG_OK \<longleftrightarrow> first = SPG_OK \<and> (\<forall>j \<in> {i..<i + Suc k}. rd_known (reading_of batch (results ! j) (table dev ! j)))"
    using ih r by (auto split: if_splits)
  have "\<forall>m < length (dv_channels dev). ch_contact_pending (dv_channels dev' ! m) \<longleftrightarrow>
       ch_contact_pending (dv_channels ?d ! m) \<or>
       (Suc i \<le> m \<and> rd_known (reading_of batch (results ! m) (table dev ! m)))"
    using ih by (elim conjE)
  then have pend: "\<forall>m < length (dv_channels dev). ch_contact_pending (dv_channels dev' ! m) \<longleftrightarrow>
       ch_contact_pending (dv_channels dev ! m) \<or>
       (i \<le> m \<and> rd_known (reading_of batch (results ! m) (table dev ! m)))"
    using p by (simp only: le_eq_less_or_eq [of i] Suc_le_eq) blast
  have out: "out' = out @ map (\<lambda>j. reading_of batch (results ! j) (table dev ! j)) [i..<i + Suc k]"
    unfolding e using ih by (elim conjE) (simp del: upt_Suc)
  show ?case using ih st pend out by (elim conjE) (intro conjI; assumption)
qed

lemma sample_requests_valid: "request_valid (sample_request t c)"
  by (simp add: request_valid_def sample_request_def CMD_MAX_ARGS_def)

lemma sample_run:
  assumes "length cs \<le> DEVICE_MAX_CHANNELS"
    and "spg_cmd_executor_run env log (map (sample_request (device_timeout_ms dev)) cs) = (b, rs, log')"
  shows "log' = log @ map (\<lambda>c. spawn_of dev (ch_program c) None) cs"
proof (cases cs)
  case Nil
  then show ?thesis using assms(2) by (simp add: spg_cmd_executor_run_def)
next
  case (Cons c cs')
  then have "run_batch env log (map (sample_request (device_timeout_ms dev)) cs) = (rs, log')"
    using assms by (auto simp: spg_cmd_executor_run_def CMD_MAX_BATCH_def DEVICE_MAX_CHANNELS_def split: prod.splits if_splits)
  from run_batch_log [OF this] show ?thesis
    using sample_requests_valid
    by (simp add: filter_map comp_def spawn_of_def command_of_def sample_request_def)
qed

lemma sample_spec:
  assumes "table_ok (table dev)" "spg_device_sample env log dev = (st, dev', log', out)"
  obtains batch rs where
    "table dev' = table dev"
    "out = map (\<lambda>j. reading_of batch (rs ! j) (table dev ! j)) [0..<length (dv_channels dev)]"
    "st = SPG_OK \<longleftrightarrow> (\<forall>j < length (dv_channels dev). rd_known (out ! j))"
    "\<forall>j < length (dv_channels dev). ch_contact_pending (dv_channels dev' ! j) \<longleftrightarrow>
       ch_contact_pending (dv_channels dev ! j) \<or> rd_known (out ! j)"
    "log' = log @ map (\<lambda>c. spawn_of dev (ch_program c) None) (dv_channels dev)"
proof -
  obtain b rs l where run: "spg_cmd_executor_run env log
      (map (sample_request (device_timeout_ms dev)) (dv_channels dev)) = (b, rs, l)"
    by (metis prod_cases3)
  obtain f d o2 where loop: "sample_loop b rs dev 0 (length (dv_channels dev)) [] SPG_OK = (f, d, o2)"
    by (metis prod_cases3)
  have eq: "f = st" "d = dev'" "o2 = out" "l = log'"
    using assms(2) run loop by (simp_all add: spg_device_sample_def Let_def)
  note sp = sample_loop_spec [OF loop, simplified, unfolded eq]
  have "length (dv_channels dev) \<le> DEVICE_MAX_CHANNELS" using assms(1) by (simp add: table_ok_def)
  from sample_run [OF this run] eq
  have "log' = log @ map (\<lambda>c. spawn_of dev (ch_program c) None) (dv_channels dev)" by simp
  then show thesis using that [of b rs] sp by (simp add: atLeast0LessThan lessThan_def Ball_def)
qed

section \<open>Every history of the device layer\<close>

type_synonym dev_world = "device \<times> spawn list"

inductive dev_step :: "os_env \<Rightarrow> dev_world \<Rightarrow> dev_world \<Rightarrow> bool" for env where
  do_add: "spg_device_add_channel dev ch = (st, dev') \<Longrightarrow> dev_step env (dev, log) (dev', log)"
| do_load: "spg_device_load input dev = (st, dev', bad) \<Longrightarrow> dev_step env (dev, log) (dev', log)"
| do_arm: "dev_step env (dev, log) (spg_device_arm_watchdog dev timeout now, log)"
| do_check: "dev_step env (dev, log) (fst (spg_device_watchdog_check dev now), log)"
| do_read: "spg_device_read env log dev name out = (st, dev', log', v) \<Longrightarrow> dev_step env (dev, log) (dev', log')"
| do_write: "spg_device_write env log dev name v = (st, dev', log') \<Longrightarrow> dev_step env (dev, log) (dev', log')"
| do_safe: "spg_device_safe_state env log dev = (st, dev', log') \<Longrightarrow> dev_step env (dev, log) (dev', log')"
| do_sample: "spg_device_sample env log dev = (st, dev', log', out) \<Longrightarrow> dev_step env (dev, log) (dev', log')"

text \<open>A command the table justifies: a read of a channel, or a write of an in-range value.\<close>

definition justified :: "device_channel list \<Rightarrow> spawn \<Rightarrow> bool" where
  "justified cs sp \<longleftrightarrow> (\<exists>c \<in> set cs. sw_argv sp = [ch_program c] \<or>
     (ch_writable c \<and> (\<exists>v. ch_min c \<le> v \<and> v \<le> ch_max c \<and> sw_argv sp = [ch_program c, i64_to_dec v])))"

definition world_ok :: "dev_world \<Rightarrow> bool" where
  "world_ok w \<longleftrightarrow> table_ok (table (fst w)) \<and> (\<forall>sp \<in> set (snd w). justified (table (fst w)) sp)"

lemma justified_mono: "justified cs sp \<Longrightarrow> set cs \<subseteq> set ds \<Longrightarrow> justified ds sp"
  by (auto simp: justified_def)

lemma justified_read:
  "c \<in> set (dv_channels dev) \<Longrightarrow> justified (table dev) (spawn_of dev (ch_program c) None)"
  unfolding justified_def table_def spawn_of_def command_of_def by force

lemma justified_write:
  "\<lbrakk>c \<in> set (dv_channels dev); ch_writable c; ch_min c \<le> v; v \<le> ch_max c\<rbrakk> \<Longrightarrow>
   justified (table dev) (spawn_of dev (ch_program c) (Some (i64_to_dec v)))"
  unfolding justified_def table_def spawn_of_def command_of_def by force

lemma safe_spawn_justified:
  assumes "table_ok (table dev)" "c \<in> set (filter ch_writable (table dev))"
  shows "justified (table dev) (safe_spawn dev c)"
proof -
  have "channel_ok c" "ch_writable c" "c \<in> set (table dev)"
    using assms by (auto simp: table_ok_def list_all_iff)
  then show ?thesis unfolding justified_def safe_spawn_def spawn_of_def command_of_def channel_ok_def by auto
qed

lemma world_ok_grow:
  "\<lbrakk>world_ok (dev, log); table dev' = table dev; \<forall>sp \<in> set new. justified (table dev) sp\<rbrakk> \<Longrightarrow>
   world_ok (dev', log @ new)"
  by (auto simp: world_ok_def)

lemma dev_step_ok:
  assumes "dev_step env w w'" "world_ok w"
  shows "world_ok w'"
  using assms
proof (cases rule: dev_step.cases)
  case (do_add dev ch st dev' log)
  have "set (table dev) \<subseteq> set (table dev')" using table_add(1) [OF do_add(3)] by auto
  then show ?thesis
    using assms(2) do_add table_add(2) [OF do_add(3)] by (auto simp: world_ok_def intro: justified_mono)
next
  case (do_load input dev st dev' bad log)
  have "set (table dev) \<subseteq> set (table dev')" using table_load(1) [OF do_load(3)] by auto
  then show ?thesis
    using assms(2) do_load table_load(2) [OF do_load(3)] by (auto simp: world_ok_def intro: justified_mono)
next
  case (do_read log dev name out st dev' log' v)
  from do_read(3) show ?thesis
    by (cases rule: read_cases)
       (use assms(2) do_read world_ok_grow [of dev log dev' "[_]"] justified_read nth_mem in auto)
next
  case (do_write log dev name v st dev' log')
  from do_write(3) show ?thesis
    by (cases rule: write_cases)
       (use assms(2) do_write world_ok_grow [of dev log dev' "[_]"] justified_write nth_mem in auto)
next
  case (do_safe log dev st dev' log')
  have t: "table_ok (table dev)" using assms(2) do_safe by (simp add: world_ok_def)
  have "log' = log @ map (safe_spawn dev) (filter ch_writable (drop 0 (table dev)))" "table dev' = table dev"
    using safe_state_loop_spec(1,2) [OF do_safe(3) [unfolded spg_device_safe_state_def] t] by simp_all
  then show ?thesis using safe_spawn_justified [OF t] world_ok_grow assms(2) do_safe by auto
next
  case (do_sample log dev st dev' log' out)
  have t: "table_ok (table dev)" using assms(2) do_sample by (simp add: world_ok_def)
  from sample_spec [OF t do_sample(3)]
  have "log' = log @ map (\<lambda>c. spawn_of dev (ch_program c) None) (dv_channels dev)" "table dev' = table dev"
    by metis+
  then show ?thesis using justified_read world_ok_grow assms(2) do_sample by auto
qed (auto simp: world_ok_def)

lemma init_world_ok: "world_ok (spg_device_init, [])"
  by (simp add: world_ok_def table_def table_ok_def spg_device_init_def)

lemma dev_run_ok: "(dev_step env)\<^sup>*\<^sup>* w w' \<Longrightarrow> world_ok w \<Longrightarrow> world_ok w'"
  by (induction rule: rtranclp_induct) (auto dest: dev_step_ok)

end
