(* ===== verification/DeviceText.thy ===== *)
theory DeviceText
  imports DeviceSafety
begin

text \<open>
  The texts a device exchanges: the decimal a write passes to its program and the number read
  back from a program's output, and the block a sampling round is rendered to.
\<close>

section \<open>Decimals\<close>

lemma nat_dec_loop_append: "nat_dec_loop n acc = nat_dec_loop n [] @ acc"
proof (induction n arbitrary: acc rule: less_induct)
  case (less n)
  show ?case
  proof (cases "n div 10 = 0")
    case True
    then show ?thesis by (simp add: nat_dec_loop.simps [of n] Let_def)
  next
    case False
    then have "n div 10 < n" by simp
    then have "nat_dec_loop (n div 10) (c # acc) = nat_dec_loop (n div 10) [c] @ acc" for c
      using less.IH [of "n div 10" "c # acc"] less.IH [of "n div 10" "[c]"] by simp
    then show ?thesis using False by (simp add: nat_dec_loop.simps [of n] Let_def)
  qed
qed

lemma digit_char_dec: "d < 10 \<Longrightarrow> is_digit (digit_char d) \<and> code_of (digit_char d) = 48 + d"
  by (simp add: is_digit_def digit_char_def)

lemma nat_dec_step:
  "nat_dec_loop n [] = (if n div 10 = 0 then [] else nat_dec_loop (n div 10) []) @ [digit_char (n mod 10)]"
  by (subst nat_dec_loop.simps, subst nat_dec_loop_append) (simp add: Let_def)

lemma nat_dec_digits: "list_all is_digit (nat_dec_loop n []) \<and> dec_value_from 0 (nat_dec_loop n []) = n \<and>
    nat_dec_loop n [] \<noteq> []"
proof (induction n rule: less_induct)
  case (less n)
  show ?case
  proof (cases "n div 10 = 0")
    case True
    then show ?thesis using digit_char_dec [of "n mod 10"] by (subst (1 2 3) nat_dec_step) auto
  next
    case False
    then have "n div 10 < n" by simp
    from less.IH [OF this] False show ?thesis using digit_char_dec [of "n mod 10"]
      by (subst (1 2 3) nat_dec_step) (simp add: dec_value_from_append)
  qed
qed

lemma nat_dec_length: "n < 10 ^ Suc k \<Longrightarrow> length (nat_dec_loop n []) \<le> Suc k"
proof (induction k arbitrary: n)
  case 0
  then show ?case by (subst nat_dec_step) simp
next
  case (Suc k)
  have "n div 10 < 10 ^ Suc k" using Suc.prems by (simp add: div_less_iff_less_mult mult.commute)
  from Suc.IH [OF this] show ?case by (subst nat_dec_step) simp
qed

lemma i64_to_dec_length [bounds]:
  assumes "I64_MIN \<le> v" "v \<le> I64_MAX"
  shows "length (i64_to_dec v) \<le> 20"
proof -
  have "nat \<bar>v\<bar> < 10 ^ Suc 18" using assms by (simp add: I64_MIN_def I64_MAX_def)
  from nat_dec_length [OF this] show ?thesis by (auto simp: i64_to_dec_def)
qed

lemma takeWhile_dec: "list_all P xs \<Longrightarrow> (ys = [] \<or> \<not> P (hd ys)) \<Longrightarrow> takeWhile P (xs @ ys) = xs"
  by (induction xs) (cases ys; auto)+

lemma dec_not_space: "is_digit c \<Longrightarrow> \<not> is_c_space c \<and> \<not> is_ws4 c \<and> c \<noteq> CHR ''-'' \<and> c \<noteq> CHR ''+'' \<and> c \<noteq> ch_nul"
  by (auto simp: is_digit_def is_c_space_def is_ws4_def)

lemma ws4_not_dec: "is_ws4 c \<Longrightarrow> \<not> is_digit c \<and> c \<noteq> ch_nul"
  by (auto simp: is_digit_def is_ws4_def)

text \<open>\<open>strtoll\<close> on a rendered value followed by something that is not a digit.\<close>

lemma strtoll_i64:
  assumes "I64_MIN \<le> v" "v \<le> I64_MAX" "ys = [] \<or> \<not> is_digit (hd ys)"
  shows "strtoll (i64_to_dec v @ ys) = (v, length (i64_to_dec v))"
proof -
  define ds where "ds = nat_dec_loop (nat \<bar>v\<bar>) []"
  have ds: "list_all is_digit ds" "dec_value_from 0 ds = nat \<bar>v\<bar>" "ds \<noteq> []"
    using nat_dec_digits unfolding ds_def by blast+
  then obtain d es where d: "ds = d # es" by (cases ds) auto
  have hd: "is_digit d" using ds(1) d by simp
  note sp = dec_not_space [OF hd]
  have tw: "takeWhile is_digit (ds @ ys) = ds" using takeWhile_dec ds(1) assms(3) by blast
  have sat: "saturate_i64 v = v" using assms by (simp add: saturate_i64_def)
  show ?thesis
  proof (cases "v < 0")
    case True
    then have r: "i64_to_dec v = CHR ''-'' # ds" by (simp add: i64_to_dec_def ds_def)
    have "\<not> is_c_space (CHR ''-'')" by (simp add: is_c_space_def)
    then show ?thesis using tw ds(2,3) sat True by (simp add: strtoll_def Let_def r)
  next
    case False
    then have r: "i64_to_dec v = ds" by (simp add: i64_to_dec_def ds_def)
    have "takeWhile is_c_space (ds @ ys) = []" "dropWhile is_c_space (ds @ ys) = ds @ ys" "hd (ds @ ys) = d"
      using sp d by simp_all
    then show ?thesis using tw ds(2,3) sat False sp by (simp add: strtoll_def Let_def r)
  qed
qed

lemma i64_to_dec_chars: "c \<in> set (i64_to_dec v) \<Longrightarrow> is_digit c \<or> c = CHR ''-''"
  using nat_dec_digits by (auto simp: i64_to_dec_def list_all_iff split: if_splits)

lemma i64_to_dec_no_space: "c \<in> set (i64_to_dec v) \<Longrightarrow> \<not> is_ws4 c \<and> c \<noteq> ch_nul"
  using i64_to_dec_chars [of c v] dec_not_space by (auto simp: is_ws4_def)

lemma i64_to_dec_nonempty: "i64_to_dec v \<noteq> []"
  using nat_dec_digits by (simp add: i64_to_dec_def)

text \<open>
  C39: A program that echoes its argument is understood: the text a write passes, surrounded by
  any white space the parser admits, reads back as the value that was written, for every
  \<open>int64_t\<close>.
\<close>

theorem device_value_roundtrip:
  assumes "I64_MIN \<le> v" "v \<le> I64_MAX" "list_all is_ws4 before" "list_all is_ws4 after"
  shows "parse_output (before @ i64_to_dec v @ after) = Some v"
proof -
  have "\<forall>c \<in> set (before @ i64_to_dec v @ after). c \<noteq> ch_nul"
  proof
    fix c assume "c \<in> set (before @ i64_to_dec v @ after)"
    then consider "is_ws4 c" | "c \<in> set (i64_to_dec v)" using assms(3,4) unfolding list_all_iff by auto
    then show "c \<noteq> ch_nul" by cases (blast dest: ws4_not_dec i64_to_dec_no_space)+
  qed
  then have c: "c_string (before @ i64_to_dec v @ after) = before @ i64_to_dec v @ after"
    unfolding c_string_def by (subst takeWhile_eq_all_conv)
  obtain x xs where x: "i64_to_dec v = x # xs" using i64_to_dec_nonempty by (cases "i64_to_dec v") auto
  then have "\<not> is_ws4 x" using i64_to_dec_no_space [of x v] by simp
  then have at: "dropWhile is_ws4 (before @ i64_to_dec v @ after) = i64_to_dec v @ after"
    unfolding x using dropWhile_append2 [of before is_ws4 "(x # xs) @ after"] assms(3)
    by (simp add: list_all_iff)
  have "after = [] \<or> \<not> is_digit (hd after)" using assms(4) ws4_not_dec by (cases after) auto
  note st = strtoll_i64 [OF assms(1,2) this]
  have "dropWhile is_ws4 after = []" using assms(4) by (simp add: list_all_iff)
  then show ?thesis unfolding parse_output_def Let_def c at st using x by simp
qed

theorem device_value_roundtrip_witness:
  "parse_output ([ch_nl] @ i64_to_dec (- 400) @ [CHR '' '']) = Some (- 400)"
  by (rule device_value_roundtrip) (simp_all add: I64_MIN_def I64_MAX_def is_ws4_def)

section \<open>The rendered block\<close>

definition state_text :: "device_reading list \<Rightarrow> string" where
  "state_text rs = ''(device-state'' @ concat (map reading_text rs) @ '')''"

definition reading_ok :: "device_reading \<Rightarrow> bool" where
  "reading_ok r \<longleftrightarrow> length (rd_name r) < DEVICE_NAME_CAP \<and> I64_MIN \<le> rd_value r \<and> rd_value r \<le> I64_MAX"

lemma reading_text_length [bounds]: "reading_ok r \<Longrightarrow> length (reading_text r) \<le> 55"
  using i64_to_dec_length [of "rd_value r"]
  by (auto simp: reading_text_def reading_ok_def DEVICE_NAME_CAP_def)

lemma readings_length: "list_all reading_ok rs \<Longrightarrow> length (concat (map reading_text rs)) \<le> 55 * length rs"
  by (induction rs) (auto dest!: reading_text_length)

lemma block_printf_fits:
  "length b + length t < DEVICE_RENDER_CAP \<Longrightarrow> block_printf (b, length b) t = (b @ t, length (b @ t))"
  by (simp add: block_printf_def)

lemma block_printf_fold:
  "length b + length (concat (map reading_text rs)) < DEVICE_RENDER_CAP \<Longrightarrow>
   foldl (\<lambda>st r. block_printf st (reading_text r)) (b, length b) rs =
     (b @ concat (map reading_text rs), length (b @ concat (map reading_text rs)))"
proof (induction rs arbitrary: b)
  case (Cons r rs)
  then show ?case using block_printf_fits [of b "reading_text r"] Cons.IH [of "b @ reading_text r"] by simp
qed simp

lemma state_text_bound [bounds]:
  "\<lbrakk>length rs \<le> DEVICE_MAX_CHANNELS; list_all reading_ok rs\<rbrakk> \<Longrightarrow> length (state_text rs) + 1 \<le> 1776"
  using readings_length [of rs] by (simp add: state_text_def DEVICE_MAX_CHANNELS_def)

text \<open>
  Rendering a sampling round never truncates: for a full table of the longest names and
  values the block needs at most 1776 of the 2048 bytes set aside, and the destination receives
  the whole record with its terminator, or nothing when it is too small; the size needed is
  reported either way.
\<close>

theorem device_state_render_exact:
  assumes "length rs \<le> DEVICE_MAX_CHANNELS" "list_all reading_ok rs" "0 < cap"
  shows "spg_device_state_render rs cap dst =
      (if length (state_text rs) + 1 \<le> cap
       then (SPG_OK, buf_write dst 0 (state_text rs @ [ch_nul]), Some (length (state_text rs) + 1))
       else (SPG_E_LIMIT, dst, Some (length (state_text rs) + 1))) \<and>
    length (state_text rs) + 1 \<le> 1776"
proof -
  let ?h = "''(device-state''"
  note b = state_text_bound [OF assms(1,2)]
  have len: "length (state_text rs) = length ?h + length (concat (map reading_text rs)) + 1"
    by (simp add: state_text_def)
  have 0: "block_printf ([], 0) ?h = (?h, length ?h)"
    using block_printf_fits [of "[]" ?h] by (simp add: DEVICE_RENDER_CAP_def)
  have 1: "foldl (\<lambda>st r. block_printf st (reading_text r)) (?h, length ?h) rs =
     (?h @ concat (map reading_text rs), length (?h @ concat (map reading_text rs)))"
    by (rule block_printf_fold) (use b len in \<open>simp add: DEVICE_RENDER_CAP_def\<close>)
  have 2: "block_printf (?h @ concat (map reading_text rs), length (?h @ concat (map reading_text rs))) '')'' =
     (state_text rs, length (state_text rs))"
    using block_printf_fits [of "?h @ concat (map reading_text rs)" "'')''"] b len
    by (simp add: DEVICE_RENDER_CAP_def state_text_def)
  have n: "\<not> (cap = 0 \<or> length rs > DEVICE_MAX_CHANNELS)" using assms by simp
  show ?thesis unfolding spg_device_state_render_def Let_def if_not_P [OF n] 0 1 2 using b by simp
qed

theorem device_state_render_exact_witness:
  "spg_device_state_render [\<lparr>rd_name = ''t'', rd_value = 0, rd_known = False\<rparr>] 5 [] =
     (SPG_E_LIMIT, [], Some 27)"
  using device_state_render_exact [of "[\<lparr>rd_name = ''t'', rd_value = 0, rd_known = False\<rparr>]" 5 "[]"]
  by (simp add: state_text_def reading_text_def reading_ok_def DEVICE_MAX_CHANNELS_def
        DEVICE_NAME_CAP_def I64_MIN_def I64_MAX_def)

end
