(* ===== verification/DeviceProps.thy ===== *)
theory DeviceProps
  imports DeviceText
begin

text \<open>
  The properties of the device layer: what any history of its operations can have run, what the
  safe state and a sampling round guarantee, and when the watchdog reports expiry. The last
  section pins down two behaviours in which the code and its header disagree.
\<close>

section \<open>A small plant\<close>

definition heater :: device_channel where
  "heater = zero_channel\<lparr>ch_name := ''h'', ch_program := ''p'', ch_max := 100, ch_writable := True\<rparr>"

definition plant :: device where
  "plant = spg_device_init\<lparr>dv_channels := [heater]\<rparr>"

text \<open>Every program starts, prints a fixed text and exits with 0.\<close>

definition prints :: "string \<Rightarrow> os_env" where
  "prints out log sp = Child [out] [] False (Exited 0)"

lemmas plant_defs = plant_def heater_def spg_device_init_def zero_channel_def

lemma plant_ok: "table_ok (table plant)"
  by (simp add: plant_defs table_def table_ok_def channel_ok_def static_def DEVICE_MAX_CHANNELS_def)

lemma plant_added: "spg_device_add_channel spg_device_init heater = (SPG_OK, plant)"
  by (simp add: plant_defs spg_device_add_channel_def spg_device_find_def DEVICE_MAX_CHANNELS_def)

section \<open>Safety of every history\<close>

text \<open>
  C17: Whatever sequence of operations the device layer performs, from an empty table, in any
  environment: the table stays valid (distinct non-empty names, ordered ranges, safe values in
  range, at most 32 channels), and every program ever run was either a read of a channel of the
  table or a write of a value inside the range of a writable channel. No refused, out-of-range
  or read-only write ever reaches a program.
\<close>

theorem device_actuation_safe:
  assumes "(dev_step env)\<^sup>*\<^sup>* (spg_device_init, []) (dev, log)"
  shows "table_ok (table dev) \<and> (\<forall>sp \<in> set log. justified (table dev) sp)"
  using dev_run_ok [OF assms init_world_ok] by (simp add: world_ok_def)

theorem device_actuation_safe_witness:
  "table_ok (table plant) \<and> justified (table plant) (spawn_of plant ''p'' None)"
proof -
  have add: "dev_step (\<lambda>_ _. Spawn_failed True) (spg_device_init, []) (plant, [])"
    by (rule do_add [OF plant_added])
  have "dev_step (\<lambda>_ _. Spawn_failed True) (plant, []) (plant, [spawn_of plant ''p'' None])"
    by (rule do_read [of _ _ _ "''h''" 0 SPG_E_IO _ _ 0])
      (simp add: plant_defs spg_device_read_def spg_device_find_def run_program_def command_of_def
        spg_cmd_executor_run_def run_one_def request_valid_def CMD_MAX_ARGS_def CMD_MAX_BATCH_def
        fresh_result_def spawn_of_def device_timeout_ms_def Let_def)
  with add have "(dev_step (\<lambda>_ _. Spawn_failed True))\<^sup>*\<^sup>* (spg_device_init, []) (plant, [spawn_of plant ''p'' None])"
    by (meson converse_rtranclp_into_rtranclp rtranclp.rtrancl_refl)
  from device_actuation_safe [OF this] show ?thesis by simp
qed

section \<open>The safe state\<close>

text \<open>
  Driving the safe state attempts every writable channel with its declared safe value, once
  each and in table order, however many of the attempts fail; it changes nothing of the table,
  and when it reports success every writable channel has accepted its value.
\<close>

theorem device_safe_state_complete:
  assumes "table_ok (table dev)" "spg_device_safe_state env log dev = (st, dev', log')"
  shows "log' = log @ map (safe_spawn dev) (filter ch_writable (table dev)) \<and> table dev' = table dev \<and>
    (st = SPG_OK \<longrightarrow> (\<forall>j < length (dv_channels dev').
       ch_writable (dv_channels dev' ! j) \<longrightarrow> ch_contact_pending (dv_channels dev' ! j)))"
proof -
  note sp = safe_state_loop_spec [OF assms(2) [unfolded spg_device_safe_state_def] assms(1), simplified]
  have len: "length (dv_channels dev') = length (dv_channels dev)" using sp(2) by (metis length_table)
  have "ch_writable (dv_channels dev' ! j) = ch_writable (table dev ! j)" if "j < length (dv_channels dev')" for j
    using sp(2) that len by (metis nth_table static_sel(5))
  then show ?thesis using sp(1,2,4) len by (metis nth_table static_sel(5))
qed

theorem device_safe_state_complete_witness:
  "\<exists>dev'. spg_device_safe_state (prints ''0'') [] plant = (SPG_OK, dev', [safe_spawn plant heater]) \<and>
     ch_contact_pending (dv_channels dev' ! 0)"
proof -
  obtain st dev' log' where r: "spg_device_safe_state (prints ''0'') [] plant = (st, dev', log')"
    by (metis prod_cases3)
  note c = device_safe_state_complete [OF plant_ok r]
  have st: "st = SPG_OK" using r
    by (auto simp: spg_device_safe_state_def plant_defs spg_device_write_def spg_device_find_def
        run_program_def command_of_def spg_cmd_executor_run_def run_one_def request_valid_def prints_def
        CMD_MAX_ARGS_def CMD_MAX_BATCH_def fresh_result_def drain_eq reap_def parse_output_def c_string_def
        is_ws4_def strtoll_def is_c_space_def is_digit_def saturate_i64_def I64_MIN_def I64_MAX_def
        Let_def split: if_splits option.splits prod.splits)
  have w: "table plant = [static heater]" "ch_writable heater" "dv_channels plant = [heater]"
    by (simp_all add: plant_defs table_def)
  have "log' = [safe_spawn plant heater]"
    using c w by (simp add: safe_spawn_def)
  moreover have "length (dv_channels dev') = 1" "table dev' = [static heater]"
    using c w by (metis length_table One_nat_def length_0_conv length_Cons list.size(3), simp)
  then have "ch_contact_pending (dv_channels dev' ! 0)"
    using c st w nth_table [of 0 dev'] by (metis less_one nth_Cons_0 static_sel(5))
  ultimately show ?thesis using r st by blast
qed

section \<open>Sampling\<close>

text \<open>
  A sampling round runs every channel's program once, without an argument, and returns one
  reading per channel in table order: a known reading lies in the channel's range and feeds the
  channel's contact, an unknown one carries no number and feeds nothing; the round succeeds
  exactly when every reading is known.
\<close>

theorem device_sample_complete:
  assumes "table_ok (table dev)" "spg_device_sample env log dev = (st, dev', log', out)"
  shows "map rd_name out = map ch_name (dv_channels dev) \<and>
    (\<forall>j < length out. if rd_known (out ! j)
       then ch_min (table dev ! j) \<le> rd_value (out ! j) \<and> rd_value (out ! j) \<le> ch_max (table dev ! j) \<and>
            ch_contact_pending (dv_channels dev' ! j)
       else rd_value (out ! j) = 0 \<and>
            ch_contact_pending (dv_channels dev' ! j) = ch_contact_pending (dv_channels dev ! j)) \<and>
    (st = SPG_OK \<longleftrightarrow> list_all rd_known out) \<and>
    log' = log @ map (\<lambda>c. spawn_of dev (ch_program c) None) (dv_channels dev) \<and> table dev' = table dev"
proof (rule sample_spec [OF assms], goal_cases)
  case (1 batch rs)
  note sp = this
  have n: "length out = length (dv_channels dev)" using sp(2) by simp
  have names: "map rd_name out = map ch_name (dv_channels dev)"
    using sp(2) by (intro nth_equalityI) (simp_all add: reading_of_sound(1))
  have each: "if rd_known (out ! j)
       then ch_min (table dev ! j) \<le> rd_value (out ! j) \<and> rd_value (out ! j) \<le> ch_max (table dev ! j) \<and>
            ch_contact_pending (dv_channels dev' ! j)
       else rd_value (out ! j) = 0 \<and>
            ch_contact_pending (dv_channels dev' ! j) = ch_contact_pending (dv_channels dev ! j)"
    if j: "j < length out" for j
  proof -
    have o: "out ! j = reading_of batch (rs ! j) (table dev ! j)" using sp(2) n j by simp
    have p: "ch_contact_pending (dv_channels dev' ! j) \<longleftrightarrow> ch_contact_pending (dv_channels dev ! j) \<or> rd_known (out ! j)"
      using sp(4) n j by simp
    show ?thesis
    proof (cases "rd_known (out ! j)")
      case True
      with reading_of_sound(2) [of batch "rs ! j" "table dev ! j"] o p show ?thesis by presburger
    next
      case False
      with reading_of_sound(3) [of batch "rs ! j" "table dev ! j"] o p show ?thesis by presburger
    qed
  qed
  have "st = SPG_OK \<longleftrightarrow> list_all rd_known out" using sp(3) n by (simp add: list_all_length)
  with names each sp(1,5) show ?thesis by blast
qed

theorem device_sample_complete_witness:
  "\<exists>st dev' log' out. spg_device_sample (prints ''101'') [] plant = (st, dev', log', out) \<and>
     map rd_name out = [''h'']"
proof -
  obtain st dev' log' out where r: "spg_device_sample (prints ''101'') [] plant = (st, dev', log', out)"
    by (metis prod_cases4)
  have "map rd_name out = map ch_name (dv_channels plant)" using device_sample_complete [OF plant_ok r] by blast
  with r show ?thesis by (simp add: plant_defs)
qed

section \<open>The watchdog\<close>

lemma channel_overdue_iff:
  "channel_overdue cs now timeout \<longleftrightarrow>
     (\<exists>c \<in> set cs. ch_writable c \<and> ch_last_contact c \<le> now \<and> timeout < now - ch_last_contact c)"
  by (induction cs) auto

definition heard_at :: "bool \<Rightarrow> u64 \<Rightarrow> u64 \<Rightarrow> u64" where
  "heard_at pending since now = (if pending then now else since)"

lemma fold_contact_sel:
  "dv_watchdog_timeout (fold_contact dev now) = dv_watchdog_timeout dev"
  "dv_last_contact (fold_contact dev now) = heard_at (dv_contact_pending dev) (dv_last_contact dev) now"
  "dv_channels (fold_contact dev now) =
     map (\<lambda>c. if ch_contact_pending c then c\<lparr>ch_contact_pending := False, ch_last_contact := now\<rparr> else c)
       (dv_channels dev)"
  by (simp_all add: fold_contact_def heard_at_def)

text \<open>
  The watchdog reports expiry exactly when it is armed, the clock has not gone back behind
  the last contact, and either the device as a whole or some writable channel, without a
  transaction waiting to be counted, has been silent for longer than the timeout.
\<close>

theorem watchdog_expired_iff:
  "snd (spg_device_watchdog_check dev now) = WATCHDOG_EXPIRED \<longleftrightarrow>
     dv_watchdog_timeout dev \<noteq> 0 \<and>
     heard_at (dv_contact_pending dev) (dv_last_contact dev) now \<le> now \<and>
     (dv_watchdog_timeout dev < now - heard_at (dv_contact_pending dev) (dv_last_contact dev) now \<or>
      (\<exists>c \<in> set (dv_channels dev). ch_writable c \<and> \<not> ch_contact_pending c \<and>
         ch_last_contact c \<le> now \<and> dv_watchdog_timeout dev < now - ch_last_contact c))"
proof -
  have "channel_overdue (dv_channels (fold_contact dev now)) now (dv_watchdog_timeout dev) \<longleftrightarrow>
      (\<exists>c \<in> set (dv_channels dev). ch_writable c \<and> \<not> ch_contact_pending c \<and>
         ch_last_contact c \<le> now \<and> dv_watchdog_timeout dev < now - ch_last_contact c)"
    unfolding channel_overdue_iff fold_contact_sel by (auto split: if_splits)
  then show ?thesis
    by (auto simp: spg_device_watchdog_check_def Let_def fold_contact_sel not_less)
qed

section \<open>Where the code and its header differ\<close>

text \<open>
  The header says a writable channel is fed only by a successful write. A successful read of it
  feeds it too: an armed actuator that is only read, and never accepts a write, keeps the
  watchdog silent.
\<close>

lemma read_feeds_writable_channel:
  assumes "spg_device_read env log dev name out = (SPG_OK, dev', log', v)"
    and "spg_device_find dev name = Some i"
  shows "ch_contact_pending (dv_channels dev' ! i)"
  using assms(1)
proof (cases rule: read_cases)
  case (ran j)
  then have "j = i" "dev' = touch dev i" using assms(2) by auto
  then show ?thesis using touch_pending [of i dev i] ran(2) by simp
qed simp

text \<open>
  The runner's truncation flag is not consulted: a program that prints a number, enough white
  space to fill the 63 bytes captured, and then anything else is read as that number.
\<close>

lemma truncated_output_trusted:
  "parse_output (fst (drain 64 [''5'' @ replicate 62 (CHR '' '') @ ''garbage''])) = Some 5 \<and>
   parse_output (''5'' @ replicate 62 (CHR '' '') @ ''garbage'') = None"
  by (simp add: drain_eq) code_simp

end
