(* ===== verification/SexprSpans.thy ===== *)
theory SexprSpans
  imports SexprLex SexprParse
begin

text \<open>
  Spans of parsed nodes. An atom's span is its token's, so it lies in the text; hence so does
  every value a loader or the recommendation parser keeps as a span into the text.
\<close>

definition atoms_ok :: "(text_span \<Rightarrow> bool) \<Rightarrow> sexpr_node list \<Rightarrow> bool" where
  "atoms_ok P nodes \<longleftrightarrow> (\<forall>i < length nodes. nd_kind (nodes ! i) \<noteq> NODE_LIST \<longrightarrow> P (nd_span (nodes ! i)))"

lemma atoms_ok_push:
  assumes "push_node kind sp p cap nodes = Some (idx, nodes')" "atoms_ok P nodes" "kind \<noteq> NODE_LIST \<longrightarrow> P sp"
  shows "atoms_ok P nodes'"
  unfolding atoms_ok_def
proof (intro allI impI)
  fix i assume i: "i < length nodes'" "nd_kind (nodes' ! i) \<noteq> NODE_LIST"
  show "P (nd_span (nodes' ! i))"
  proof (cases "i < length nodes")
    case True
    then show ?thesis using assms(2) i push_node_old [OF assms(1)] by (simp add: atoms_ok_def)
  next
    case False
    then have "i = length nodes" using i push_node_eq(3) [OF assms(1)] by simp
    then show ?thesis using assms(3) i push_node_new [OF assms(1)] by simp
  qed
qed

lemma parse_loop_atoms:
  "parse_inv cap nodes st p \<Longrightarrow> parse_loop cap ts p nodes = (SPG_OK, ns, e) \<Longrightarrow>
   atoms_ok P nodes \<Longrightarrow> list_all (\<lambda>t. P (tk_span t)) ts \<Longrightarrow> atoms_ok P ns"
proof (induction ts arbitrary: nodes st p)
  case Nil
  then show ?case by (auto simp: parse_fail_def set_error_def split: if_splits)
next
  case (Cons t ts)
  from Cons.prems(1,2) show ?case
  proof (cases rule: parse_loop_cases)
    case (lpar nodes')
    then show ?thesis using Cons.IH [OF lpar(3,4)] atoms_ok_push [OF lpar(2)] Cons.prems by simp
  next
    case (rpar s st' sp)
    have "nd_kind (nodes ! p) = NODE_LIST"
      using Cons.prems(1) rpar(2,3) by (simp add: parse_inv_def)
    then have "atoms_ok P (nodes[p := (nodes ! p)\<lparr>nd_span := sp\<rparr>])"
      using Cons.prems(3) by (auto simp: atoms_ok_def upd_nth)
    then show ?thesis using Cons.IH [OF rpar(4,5)] Cons.prems by simp
  next
    case (atom nodes')
    then show ?thesis using Cons.IH [OF atom(3,4)] atoms_ok_push [OF atom(2)] Cons.prems by simp
  qed
qed

lemma parse_text_tokens:
  assumes "spg_sexpr_parse_text input tcap ncap = (SPG_OK, toks, nodes, e)"
  shows "tokens_ok input toks"
proof -
  obtain e' where t: "spg_sexpr_tokenize input tcap = (SPG_OK, toks, e')"
    using assms by (auto simp: spg_sexpr_parse_text_def split: if_splits prod.splits)
  then have "tcap \<noteq> 0" by (auto simp: spg_sexpr_tokenize_def tokenize_fail_def set_error_def split: if_splits)
  with t have "tokenize_loop input tcap 0 1 1 [] = (SPG_OK, toks, e')"
    by (simp add: spg_sexpr_tokenize_def)
  moreover have "lex_inv input tcap 0 []" by (simp add: lex_inv_def tokens_ok_def)
  ultimately show ?thesis using tokenize_loop_inv by (metis lex_inv_def)
qed

lemma parse_text_atoms:
  assumes "ncap \<le> INVALID_INDEX" "spg_sexpr_parse_text input tcap ncap = (SPG_OK, toks, nodes, e)"
  shows "atoms_ok (spg_sexpr_span_valid (length input)) nodes"
proof -
  have "parse_loop ncap toks INVALID_INDEX [] = (SPG_OK, nodes, e)"
    using assms(2) by (auto simp: spg_sexpr_parse_text_def spg_sexpr_parse_def parse_fail_def set_error_def
        split: if_splits prod.splits)
  moreover have "list_all (\<lambda>t. spg_sexpr_span_valid (length input) (tk_span t)) toks"
    using parse_text_tokens [OF assms(2)] token_ok_span(1) by (auto simp: tokens_ok_def list_all_iff)
  ultimately show ?thesis
    using parse_loop_atoms [OF parse_inv_start [OF assms(1)]] by (simp add: atoms_ok_def)
qed

text \<open>The value node of a field reached from the root is a node of the array.\<close>

lemma kids_range: "c \<in> set (kids nodes p) \<Longrightarrow> c < length nodes"
  by (simp add: kids_def)

lemma second_child_range:
  assumes "forest_ok nodes" "p < length nodes" "spg_sexpr_second_child nodes p \<noteq> INVALID_INDEX"
  shows "spg_sexpr_second_child nodes p < length nodes"
proof -
  have "tl (kids nodes p) \<noteq> []" "spg_sexpr_second_child nodes p = head_or_invalid (tl (kids nodes p))"
    using assms second_child_kids [OF assms(1,2)] by (auto simp: head_or_invalid_def)
  then have "spg_sexpr_second_child nodes p \<in> set (tl (kids nodes p))"
    by (cases "tl (kids nodes p)") (auto simp: head_or_invalid_def)
  then show ?thesis using kids_range list.set_sel(2) by (metis list.sel(2) list.set_cases)
qed

lemma siblings_range:
  assumes "forest_ok nodes" "p < length nodes" "spg_sexpr_first_child nodes p \<noteq> INVALID_INDEX"
    and "f \<in> set (siblings nodes (nd_next_sibling (nodes ! spg_sexpr_first_child nodes p)))"
  shows "f < length nodes"
proof -
  have "spg_sexpr_second_child nodes p = nd_next_sibling (nodes ! spg_sexpr_first_child nodes p)"
    using assms(3) by (simp add: spg_sexpr_second_child_def spg_sexpr_first_child_def)
  then have "f \<in> set (tl (kids nodes p))" using assms(4) siblings_second [OF assms(1,2)] by simp
  then show ?thesis using kids_range by (metis list.sel(2) list.set_sel(2))
qed

lemma payload_valid:
  assumes "spg_sexpr_string_payload_span nd = Some sp" "spg_sexpr_span_valid n (nd_span nd)"
  shows "spg_sexpr_span_valid n sp"
  using assms by (auto simp: spg_sexpr_string_payload_span_def spg_sexpr_span_valid_def split: if_splits)

end
