(* ===== verification/FormText.thy ===== *)
theory FormText
  imports SexprSpans
begin

text \<open>
  The text of a flat form, \<open>(name (field value) ... (field value))\<close>, and what the tokenizer and the
  parser make of it: the converse of the span contracts, so that what a renderer writes can be
  followed through to what a loader reads.
\<close>

section \<open>Lexemes\<close>

datatype lexeme = LX_open | LX_close | LX_space | LX_symbol string | LX_quoted string

definition clean :: "string \<Rightarrow> bool" where
  "clean s \<longleftrightarrow> set s \<inter> {ch_nul, ch_nl, ch_cr, ch_bslash, ch_quote} = {}"

definition symbolic :: "string \<Rightarrow> bool" where
  "symbolic s \<longleftrightarrow> s \<noteq> [] \<and> list_all valid_symbol_char s"

fun lexeme_text :: "lexeme \<Rightarrow> string" where
  "lexeme_text LX_open = ''(''"
| "lexeme_text LX_close = '')''"
| "lexeme_text LX_space = '' ''"
| "lexeme_text (LX_symbol s) = s"
| "lexeme_text (LX_quoted s) = ch_quote # s @ [ch_quote]"

definition lexemes_text :: "lexeme list \<Rightarrow> string" where
  "lexemes_text ls = concat (map lexeme_text ls)"

lemma lexemes_text_simps [simp]:
  "lexemes_text [] = []" "lexemes_text (l # ls) = lexeme_text l @ lexemes_text ls"
  "lexemes_text (ls @ ls') = lexemes_text ls @ lexemes_text ls'"
  by (simp_all add: lexemes_text_def)

fun lexemes_ok :: "lexeme list \<Rightarrow> bool" where
  "lexemes_ok [] = True"
| "lexemes_ok (LX_symbol s # ls) =
     (symbolic s \<and> (case ls of l # _ \<Rightarrow> l \<in> {LX_open, LX_close, LX_space} | [] \<Rightarrow> False) \<and> lexemes_ok ls)"
| "lexemes_ok (LX_quoted s # ls) = (clean s \<and> lexemes_ok ls)"
| "lexemes_ok (LX_open # ls) = lexemes_ok ls"
| "lexemes_ok (LX_close # ls) = lexemes_ok ls"
| "lexemes_ok (LX_space # ls) = lexemes_ok ls"

fun lexeme_tokens :: "nat \<Rightarrow> lexeme list \<Rightarrow> (token_kind \<times> text_span) list" where
  "lexeme_tokens i [] = []"
| "lexeme_tokens i (LX_open # ls) = (TOKEN_LPAREN, mk_span i 1) # lexeme_tokens (i + 1) ls"
| "lexeme_tokens i (LX_close # ls) = (TOKEN_RPAREN, mk_span i 1) # lexeme_tokens (i + 1) ls"
| "lexeme_tokens i (LX_space # ls) = lexeme_tokens (i + 1) ls"
| "lexeme_tokens i (LX_symbol s # ls) = (TOKEN_SYMBOL, mk_span i (length s)) # lexeme_tokens (i + length s) ls"
| "lexeme_tokens i (LX_quoted s # ls) =
     (TOKEN_STRING, mk_span i (length s + 2)) # lexeme_tokens (i + (length s + 2)) ls"

lemma drop_Cons_nth: "drop i xs = y # ys \<Longrightarrow> i < length xs \<and> xs ! i = y \<and> drop (Suc i) xs = ys"
  by (metis Cons_nth_drop_Suc drop_eq_Nil list.inject list.simps(3) not_less)

lemma scan_symbol_text:
  "drop i input = s @ d # rest \<Longrightarrow> list_all valid_symbol_char s \<Longrightarrow> is_delim d \<Longrightarrow>
   scan_symbol input i col = Inr (i + length s, col + length s)"
proof (induction s arbitrary: i col)
  case Nil
  then show ?case using drop_Cons_nth [of i input d rest] by (simp add: scan_symbol.simps [of input i col])
next
  case (Cons c s)
  then have i: "i < length input" "input ! i = c" "drop (Suc i) input = s @ d # rest"
    using drop_Cons_nth [of i input c "s @ d # rest"] by simp_all
  with Cons valid_symbol_not_delim [of c] show ?case by (simp add: scan_symbol.simps [of input i col])
qed

lemma scan_string_text:
  "drop i input = s @ ch_quote # rest \<Longrightarrow> clean s \<Longrightarrow>
   scan_string input i col = Inr (True, i + length s + 1, col + length s + 1)"
proof (induction s arbitrary: i col)
  case Nil
  then show ?case using drop_Cons_nth [of i input ch_quote rest]
    by (simp add: scan_string.simps [of input i col] Let_def)
next
  case (Cons c s)
  then have i: "i < length input" "input ! i = c" "drop (Suc i) input = s @ ch_quote # rest"
    using drop_Cons_nth [of i input c "s @ ch_quote # rest"] by simp_all
  moreover have "clean s" "c \<notin> {ch_nul, ch_nl, ch_cr, ch_bslash, ch_quote}" using Cons.prems(2) by (auto simp: clean_def)
  ultimately show ?case using Cons.IH [of "Suc i" "Suc col"] by (simp add: scan_string.simps [of input i col] Let_def)
qed

definition tok_view :: "sexpr_token \<Rightarrow> token_kind \<times> text_span" where
  "tok_view t = (tk_kind t, tk_span t)"

lemma valid_symbol_plain:
  assumes "valid_symbol_char c"
  shows "c \<noteq> ch_nul \<and> c \<noteq> ch_nl \<and> c \<noteq> CHR '' '' \<and> c \<noteq> ch_tab \<and> c \<noteq> ch_cr \<and> c \<noteq> CHR '';'' \<and>
    c \<noteq> CHR ''('' \<and> c \<noteq> CHR '')'' \<and> c \<noteq> ch_quote"
  by (intro conjI notI) (use assms in \<open>simp_all add: valid_symbol_char_def\<close>)

lemma quoted_step:
  assumes "drop i input = ch_quote # s @ ch_quote # rest" "clean s" "length toks < cap"
  shows "\<exists>t col'. tokenize_step input cap i line col toks = Tok_next (i + (length s + 2)) line col' (toks @ [t]) \<and>
    tok_view t = (TOKEN_STRING, mk_span i (length s + 2))"
  using drop_Cons_nth [OF assms(1)] scan_string_text [of "Suc i" input s rest "Suc col"] assms(2,3)
  by (simp add: tokenize_step_def Let_def emit_token_def push_token_def tok_view_def)

lemma symbol_step:
  assumes "drop i input = s @ d # rest" "symbolic s" "is_delim d" "length toks < cap"
  shows "\<exists>t col'. tokenize_step input cap i line col toks = Tok_next (i + length s) line col' (toks @ [t]) \<and>
    tok_view t = (TOKEN_SYMBOL, mk_span i (length s))"
proof -
  obtain c s' where s: "s = c # s'" using assms(2) by (cases s) (auto simp: symbolic_def)
  have i: "input ! i = c" using drop_Cons_nth [of i input c "s' @ d # rest"] assms(1) s by simp
  have l: "list_all valid_symbol_char s" using assms(2) by (simp add: symbolic_def)
  then have v: "valid_symbol_char c" using s by simp
  note plain = valid_symbol_plain [OF v]
  have "tokenize_step input cap i line col toks = emit_token TOKEN_SYMBOL i (i + length s) line col (col + length s) cap toks"
    unfolding tokenize_step_def Let_def i scan_symbol_text [OF assms(1) l assms(3)]
    by (simp only: plain v simp_thms if_False if_True sum.case prod.case)
  then show ?thesis using assms(4) by (simp add: emit_token_def push_token_def tok_view_def)
qed

lemma lexemes_delim:
  "l \<in> {LX_open, LX_close, LX_space} \<Longrightarrow> \<exists>d. lexeme_text l = [d] \<and> is_delim d"
  by (auto simp: is_delim_def is_space_def)

lemma tokenize_lexemes:
  "lexemes_ok ls \<Longrightarrow> drop i input = lexemes_text ls \<Longrightarrow> i \<le> length input \<Longrightarrow>
   length toks + length (lexeme_tokens i ls) \<le> cap \<Longrightarrow>
   \<exists>ts e. tokenize_loop input cap i line col toks = (SPG_OK, toks @ ts, e) \<and> map tok_view ts = lexeme_tokens i ls"
proof (induction ls arbitrary: i line col toks rule: lexemes_ok.induct)
  case 1
  then show ?case by (simp add: tokenize_loop.simps [of input cap i])
next
  case (2 s ls)
  obtain l ls' where ls: "ls = l # ls'" "l \<in> {LX_open, LX_close, LX_space}" "symbolic s"
    using "2.prems"(1) by (cases ls) auto
  obtain d where d: "lexeme_text l = [d]" "is_delim d" using lexemes_delim [OF ls(2)] by blast
  have dr: "drop i input = s @ d # lexemes_text ls'" using "2.prems"(2) ls(1) d(1) by simp
  obtain t col' where t: "tokenize_step input cap i line col toks = Tok_next (i + length s) line col' (toks @ [t])"
    "tok_view t = (TOKEN_SYMBOL, mk_span i (length s))"
    using symbol_step [OF dr ls(3) d(2), of toks cap line col] "2.prems"(4) by auto
  have il: "i < length input" using dr by (metis drop_all append_is_Nil_conv list.distinct(1) not_less)
  have dr': "drop (i + length s) input = lexemes_text ls"
    using arg_cong [OF "2.prems"(2), of "drop (length s)"] by (simp add: add.commute)
  have le: "i + length s \<le> length input"
    using arg_cong [OF dr, of length] by simp
  show ?case
    using "2.IH" [of "i + length s" "toks @ [t]" line col'] "2.prems"(1,4) dr' le t il
    by (subst tokenize_loop.simps) (auto simp: Cons_eq_map_conv)
next
  case (3 s ls)
  have dr: "drop i input = ch_quote # s @ ch_quote # lexemes_text ls" using "3.prems"(2) by simp
  obtain t col' where t: "tokenize_step input cap i line col toks = Tok_next (i + (length s + 2)) line col' (toks @ [t])"
    "tok_view t = (TOKEN_STRING, mk_span i (length s + 2))"
    using quoted_step [OF dr, of toks cap line col] "3.prems"(1,4) by auto
  have il: "i < length input" using drop_Cons_nth [OF dr] by simp
  have dr': "drop (i + (length s + 2)) input = lexemes_text ls"
    using arg_cong [OF dr, of "drop (length s + 2)"] by (simp add: add.commute)
  have le: "i + (length s + 2) \<le> length input"
    using arg_cong [OF dr, of length] by simp
  show ?case
    using "3.IH" [of "i + (length s + 2)" "toks @ [t]" line col'] "3.prems"(1,4) dr' le t il
    by (subst tokenize_loop.simps) (auto simp: Cons_eq_map_conv)
next
  case (4 ls)
  have d: "i < length input" "input ! i = CHR ''(''" "drop (Suc i) input = lexemes_text ls"
    using drop_Cons_nth [of i input] "4.prems"(2) by simp_all
  obtain t where "tokenize_step input cap i line col toks = Tok_next (Suc i) line (Suc col) (toks @ [t])"
    "tok_view t = (TOKEN_LPAREN, mk_span i 1)"
    using d "4.prems"(4) by (auto simp: tokenize_step_def Let_def emit_token_def push_token_def tok_view_def)
  then show ?case
    using "4.IH" [of "Suc i" "toks @ [t]" line "Suc col"] "4.prems"(1,4) d
    by (subst tokenize_loop.simps) (auto simp: Cons_eq_map_conv)
next
  case (5 ls)
  have d: "i < length input" "input ! i = CHR '')''" "drop (Suc i) input = lexemes_text ls"
    using drop_Cons_nth [of i input] "5.prems"(2) by simp_all
  obtain t where "tokenize_step input cap i line col toks = Tok_next (Suc i) line (Suc col) (toks @ [t])"
    "tok_view t = (TOKEN_RPAREN, mk_span i 1)"
    using d "5.prems"(4) by (auto simp: tokenize_step_def Let_def emit_token_def push_token_def tok_view_def)
  then show ?case
    using "5.IH" [of "Suc i" "toks @ [t]" line "Suc col"] "5.prems"(1,4) d
    by (subst tokenize_loop.simps) (auto simp: Cons_eq_map_conv)
next
  case (6 ls)
  have d: "i < length input" "input ! i = CHR '' ''" "drop (Suc i) input = lexemes_text ls"
    using drop_Cons_nth [of i input] "6.prems"(2) by simp_all
  then have "tokenize_step input cap i line col toks = Tok_next (Suc i) line (Suc col) toks"
    by (simp add: tokenize_step_def Let_def)
  then show ?case
    using "6.IH" [of "Suc i" toks line "Suc col"] "6.prems"(1,4) d
    by (subst tokenize_loop.simps) simp
qed


text \<open>A comment in front is skipped up to its line end.\<close>

lemma skip_comment_text:
  "drop i input = s @ ch_nl # rest \<Longrightarrow> ch_nl \<notin> set s \<Longrightarrow> skip_comment input i col = (i + length s, col + length s)"
proof (induction s arbitrary: i col)
  case Nil
  then show ?case using drop_Cons_nth [of i input ch_nl rest] by (simp add: skip_comment.simps [of input i col])
next
  case (Cons c s)
  then show ?case using drop_Cons_nth [of i input c "s @ ch_nl # rest"]
    by (auto simp: skip_comment.simps [of input i col])
qed

lemma tokenize_comment:
  assumes "drop i input = CHR '';'' # s @ ch_nl # rest" "ch_nl \<notin> set s"
  shows "tokenize_loop input cap i line col toks = tokenize_loop input cap (i + (length s + 2)) (Suc line) 1 toks"
proof -
  have c: "i < length input" "input ! i = CHR '';''" using drop_Cons_nth [OF assms(1)] by simp_all
  have "drop i input = (CHR '';'' # s) @ ch_nl # rest" "ch_nl \<notin> set (CHR '';'' # s)" using assms by simp_all
  note sk = skip_comment_text [OF this, of col]
  have d: "drop (i + Suc (length s)) input = ch_nl # rest"
    using arg_cong [OF assms(1), of "drop (Suc (length s))"] by (simp add: add.commute)
  note n = drop_Cons_nth [OF d]
  have 1: "tokenize_step input cap i line col toks = Tok_next (i + Suc (length s)) line (col + Suc (length s)) toks"
    using sk c(2) by (simp add: tokenize_step_def Let_def)
  have 2: "tokenize_step input cap (i + Suc (length s)) line (col + Suc (length s)) toks =
      Tok_next (i + (length s + 2)) (Suc line) 1 toks"
    using n by (simp add: tokenize_step_def Let_def)
  show ?thesis
    by (subst tokenize_loop.simps, simp only: c if_True 1 sum.case prod.case)
       (subst tokenize_loop.simps, simp only: n if_True 2 sum.case prod.case)
qed

section \<open>Nodes of lexemes\<close>

fun lexeme_kind :: "lexeme \<Rightarrow> node_kind" where
  "lexeme_kind (LX_symbol s) = NODE_SYMBOL"
| "lexeme_kind (LX_quoted s) = NODE_STRING"
| "lexeme_kind _ = NODE_LIST"

definition node_lexemes :: "lexeme list \<Rightarrow> lexeme list" where
  "node_lexemes ls = filter (\<lambda>l. l \<notin> {LX_close, LX_space}) ls"

definition shows_text :: "string \<Rightarrow> text_span \<Rightarrow> string \<Rightarrow> bool" where
  "shows_text input sp txt \<longleftrightarrow>
     spg_sexpr_span_valid (length input) sp \<and> sp_length sp = length txt \<and> span_text input sp = txt"

definition reads :: "string \<Rightarrow> lexeme \<Rightarrow> sexpr_node \<Rightarrow> bool" where
  "reads input l nd \<longleftrightarrow> nd_kind nd = lexeme_kind l \<and> (l \<noteq> LX_open \<longrightarrow> shows_text input (nd_span nd) (lexeme_text l))"

lemma shows_text_at:
  "drop i input = txt @ rest \<Longrightarrow> i \<le> length input \<Longrightarrow> n = length txt \<Longrightarrow> shows_text input (mk_span i n) txt"
proof -
  assume a: "drop i input = txt @ rest" "i \<le> length input" "n = length txt"
  have "length input - i = length txt + length rest" using arg_cong [OF a(1), of length] by simp
  then show ?thesis using a by (simp add: shows_text_def spg_sexpr_span_valid_def span_text_def)
qed

lemma span_eq_shows: "shows_text input sp txt \<Longrightarrow> spg_sexpr_span_eq_cstr input sp t \<longleftrightarrow> txt = t"
  by (auto simp: shows_text_def spg_sexpr_span_eq_cstr_def)

lemma lexeme_tokens_read:
  "drop i input = lexemes_text ls \<Longrightarrow> i \<le> length input \<Longrightarrow>
   list_all2 (\<lambda>l (k, sp). node_kind_of k = lexeme_kind l \<and> (k = TOKEN_LPAREN \<longleftrightarrow> l = LX_open) \<and>
       shows_text input sp (lexeme_text l))
     (node_lexemes ls) (filter (\<lambda>t. fst t \<noteq> TOKEN_RPAREN) (lexeme_tokens i ls))"
proof (induction ls arbitrary: i)
  case (Cons l ls)
  have d: "drop (i + length (lexeme_text l)) input = lexemes_text ls"
    using arg_cong [OF Cons.prems(1), of "drop (length (lexeme_text l))"] by (simp add: add.commute)
  have le: "i + length (lexeme_text l) \<le> length input"
    using arg_cong [OF Cons.prems(1), of length] Cons.prems(2) by simp
  note ih = Cons.IH [OF d le]
  have sh: "shows_text input (mk_span i n) (lexeme_text l)" if "n = length (lexeme_text l)" for n
    using shows_text_at Cons.prems that by simp
  show ?case using ih sh by (cases l) (simp_all add: node_lexemes_def)
qed (simp add: node_lexemes_def)

definition spans_of :: "sexpr_token \<Rightarrow> sexpr_node \<Rightarrow> bool" where
  "spans_of t nd \<longleftrightarrow> nd_kind nd = node_kind_of (tk_kind t) \<and> (nd_kind nd \<noteq> NODE_LIST \<longrightarrow> nd_span nd = tk_span t)"

lemma spans_of_push:
  assumes "list_all2 spans_of ts nodes" "push_node (node_kind_of (tk_kind t)) (tk_span t) p cap nodes = Some (i, nodes')"
  shows "list_all2 spans_of (ts @ [t]) nodes'"
proof -
  have len: "length ts = length nodes" using assms(1) by (rule list_all2_lengthD)
  have "spans_of ((ts @ [t]) ! j) (nodes' ! j)" if "j < length nodes'" for j
  proof (cases "j < length nodes")
    case True
    then show ?thesis
      using list_all2_nthD2 [OF assms(1) True] push_node_old [OF assms(2) True] len by (simp add: spans_of_def nth_append)
  next
    case False
    then have "j = length nodes" using that push_node_eq(3) [OF assms(2)] by simp
    then show ?thesis using push_node_new [OF assms(2)] len by (simp add: spans_of_def nth_append)
  qed
  then show ?thesis using len push_node_eq(3) [OF assms(2)] by (simp add: list_all2_conv_all_nth)
qed

lemma parse_loop_spans:
  "parse_inv cap nodes st p \<Longrightarrow> parse_loop cap ts p nodes = (SPG_OK, ns, e) \<Longrightarrow>
   list_all2 spans_of pre nodes \<Longrightarrow> list_all2 spans_of (pre @ node_tokens ts) ns"
proof (induction ts arbitrary: nodes st p pre)
  case Nil
  then show ?case by (auto simp: parse_fail_def set_error_def split: if_splits)
next
  case (Cons t ts)
  from Cons.prems(1,2) show ?case
  proof (cases rule: parse_loop_cases)
    case (lpar nodes')
    then show ?thesis
      using Cons.IH [OF lpar(3,4) spans_of_push [OF Cons.prems(3), of t]] by simp
  next
    case (rpar s st' sp)
    have p: "nd_kind (nodes ! p) = NODE_LIST" "p < length nodes"
      using Cons.prems(1) rpar(2,3) by (auto simp: parse_inv_def)
    have "list_all2 spans_of pre (nodes[p := (nodes ! p)\<lparr>nd_span := sp\<rparr>])"
      using Cons.prems(3) p(1) by (auto simp: list_all2_conv_all_nth upd_nth spans_of_def)
    then show ?thesis using Cons.IH [OF rpar(4,5)] rpar(1) by simp
  next
    case (atom nodes')
    then show ?thesis
      using Cons.IH [OF atom(3,4) spans_of_push [OF Cons.prems(3), of t]] by auto
  qed
qed


section \<open>Flat forms\<close>

type_synonym form_field = "string \<times> lexeme"

definition field_lexemes :: "form_field \<Rightarrow> lexeme list" where
  "field_lexemes f = [LX_space, LX_open, LX_symbol (fst f), LX_space, snd f, LX_close]"

definition form_lexemes :: "string \<Rightarrow> form_field list \<Rightarrow> lexeme list" where
  "form_lexemes name fs = [LX_open, LX_symbol name] @ concat (map field_lexemes fs) @ [LX_close]"

fun value_ok :: "lexeme \<Rightarrow> bool" where
  "value_ok (LX_symbol s) = symbolic s"
| "value_ok (LX_quoted s) = clean s"
| "value_ok _ = False"

definition field_ok :: "form_field \<Rightarrow> bool" where
  "field_ok f \<longleftrightarrow> symbolic (fst f) \<and> value_ok (snd f)"

lemma fields_lexemes_ok:
  "list_all field_ok fs \<Longrightarrow> lexemes_ok ls \<Longrightarrow> lexemes_ok (concat (map field_lexemes fs) @ ls)"
proof (induction fs)
  case (Cons f fs)
  then show ?case by (cases "snd f") (simp_all add: field_lexemes_def field_ok_def)
qed simp

lemma form_lexemes_ok: "symbolic name \<Longrightarrow> list_all field_ok fs \<Longrightarrow> lexemes_ok (form_lexemes name fs)"
  using fields_lexemes_ok [of fs "[LX_close]"]
  by (cases fs) (simp_all add: form_lexemes_def, simp_all add: field_lexemes_def)

fun lexeme_token_kinds :: "lexeme \<Rightarrow> token_kind list" where
  "lexeme_token_kinds LX_open = [TOKEN_LPAREN]"
| "lexeme_token_kinds LX_close = [TOKEN_RPAREN]"
| "lexeme_token_kinds LX_space = []"
| "lexeme_token_kinds (LX_symbol s) = [TOKEN_SYMBOL]"
| "lexeme_token_kinds (LX_quoted s) = [TOKEN_STRING]"

lemma lexeme_tokens_kinds: "map fst (lexeme_tokens i ls) = concat (map lexeme_token_kinds ls)"
  by (induction i ls rule: lexeme_tokens.induct) simp_all

abbreviation fields_kinds :: "form_field list \<Rightarrow> token_kind list" where
  "fields_kinds fs \<equiv> concat (map lexeme_token_kinds (concat (map field_lexemes fs)))"

lemma fields_kinds_Cons: "value_ok v \<Longrightarrow> \<exists>k \<in> {TOKEN_SYMBOL, TOKEN_STRING}.
   fields_kinds ((n, v) # fs) = TOKEN_LPAREN # TOKEN_SYMBOL # k # TOKEN_RPAREN # fields_kinds fs"
  by (cases v) (simp_all add: field_lexemes_def)

lemma field_okE:
  assumes "list_all field_ok (f # fs)"
  obtains k where "k \<in> {TOKEN_SYMBOL, TOKEN_STRING}" "list_all field_ok fs"
    "fields_kinds (f # fs) = TOKEN_LPAREN # TOKEN_SYMBOL # k # TOKEN_RPAREN # fields_kinds fs"
  using fields_kinds_Cons [of "snd f" "fst f" fs] assms that by (auto simp: field_ok_def)

lemma fields_balanced: "list_all field_ok fs \<Longrightarrow> balanced_from (Suc 0) (fields_kinds fs @ [TOKEN_RPAREN])"
proof (induction fs)
  case (Cons f fs)
  from Cons.prems obtain k where "k \<in> {TOKEN_SYMBOL, TOKEN_STRING}" "list_all field_ok fs"
    "fields_kinds (f # fs) = TOKEN_LPAREN # TOKEN_SYMBOL # k # TOKEN_RPAREN # fields_kinds fs" by (rule field_okE)
  then show ?case using Cons.IH by auto
qed simp

lemma fields_tokens: "list_all field_ok fs \<Longrightarrow> length (fields_kinds fs) = 4 * length fs \<and>
    length (filter (\<lambda>k. k \<noteq> TOKEN_RPAREN) (fields_kinds fs)) = 3 * length fs"
proof (induction fs)
  case (Cons f fs)
  from Cons.prems obtain k where "k \<in> {TOKEN_SYMBOL, TOKEN_STRING}" "list_all field_ok fs"
    "fields_kinds (f # fs) = TOKEN_LPAREN # TOKEN_SYMBOL # k # TOKEN_RPAREN # fields_kinds fs" by (rule field_okE)
  then show ?case using Cons.IH by auto
qed simp

text \<open>The parent of every node, and the children of the root and of each field.\<close>

fun flat_parents :: "nat \<Rightarrow> 'a list \<Rightarrow> nat list" where
  "flat_parents m [] = []"
| "flat_parents m (f # fs) = 0 # m # m # flat_parents (m + 3) fs"

lemma fields_parents: "list_all field_ok fs \<Longrightarrow>
   parents_of m [0] (fields_kinds fs @ [TOKEN_RPAREN]) = flat_parents m fs"
proof (induction fs arbitrary: m)
  case (Cons f fs)
  from Cons.prems obtain k where "k \<in> {TOKEN_SYMBOL, TOKEN_STRING}" "list_all field_ok fs"
    "fields_kinds (f # fs) = TOKEN_LPAREN # TOKEN_SYMBOL # k # TOKEN_RPAREN # fields_kinds fs" by (rule field_okE)
  then show ?case using Cons.IH [of "m + 3"] by (auto simp: head_or_invalid_def numeral_3_eq_3)
qed simp

fun kids_from :: "nat \<Rightarrow> nat list \<Rightarrow> nat \<Rightarrow> nat list" where
  "kids_from m [] q = []"
| "kids_from m (p # ps) q = (if p = q then m # kids_from (Suc m) ps q else kids_from (Suc m) ps q)"

lemma kids_from_filter: "kids_from m ps q = filter (\<lambda>i. ps ! (i - m) = q) [m..<m + length ps]"
proof (induction ps arbitrary: m)
  case (Cons p ps)
  have "filter (\<lambda>i. (p # ps) ! (i - m) = q) [Suc m..<Suc m + length ps] = filter (\<lambda>i. ps ! (i - Suc m) = q) [Suc m..<Suc m + length ps]"
    by (rule filter_cong) (auto simp: nth_Cons')
  moreover have "[m..<m + length (p # ps)] = m # [Suc m..<Suc m + length ps]" by (simp add: upt_conv_Cons del: upt_Suc)
  ultimately show ?case using Cons.IH [of "Suc m"] by (cases "p = q") (simp_all del: upt_Suc)
qed simp

lemma kids_parents: "kids nodes q = kids_from 0 (map nd_parent nodes) q"
  unfolding kids_from_filter kids_def by (rule filter_cong) simp_all

fun field_heads :: "nat \<Rightarrow> 'a list \<Rightarrow> nat list" where
  "field_heads m [] = []"
| "field_heads m (f # fs) = m # field_heads (m + 3) fs"

lemma field_heads_nth: "k < length fs \<Longrightarrow> field_heads m fs ! k = m + 3 * k"
proof (induction fs arbitrary: m k)
  case (Cons f fs)
  then show ?case by (cases k) simp_all
qed simp

lemma field_heads_length [simp]: "length (field_heads m fs) = length fs"
  by (induction fs arbitrary: m) simp_all

lemma flat_root_kids: "m \<noteq> 0 \<Longrightarrow> kids_from m (flat_parents m fs) 0 = field_heads m fs"
  by (induction fs arbitrary: m) (simp_all add: numeral_3_eq_3)

lemma flat_no_kids: "q \<noteq> 0 \<Longrightarrow> q < m \<Longrightarrow> kids_from m' (flat_parents m fs) q = []"
  by (induction fs arbitrary: m m') simp_all

lemma flat_field_kids: "m \<noteq> 0 \<Longrightarrow> k < length fs \<Longrightarrow>
   kids_from m (flat_parents m fs) (m + 3 * k) = [m + 3 * k + 1, m + 3 * k + 2]"
proof (induction fs arbitrary: m k)
  case (Cons f fs)
  show ?case
  proof (cases k)
    case 0
    then show ?thesis using Cons.prems(1) flat_no_kids [of m "m + 3" "m + 3" fs] by (simp add: numeral_3_eq_3)
  next
    case (Suc j)
    then show ?thesis using Cons.IH [of "m + 3" j] Cons.prems by (simp add: numeral_3_eq_3)
  qed
qed simp

lemma nth_triples: "k < length xs \<Longrightarrow>
   concat (map (\<lambda>x. [a x, b x, c x]) xs) ! (3 * k) = a (xs ! k) \<and>
   concat (map (\<lambda>x. [a x, b x, c x]) xs) ! (3 * k + 1) = b (xs ! k) \<and>
   concat (map (\<lambda>x. [a x, b x, c x]) xs) ! (3 * k + 2) = c (xs ! k)"
proof (induction xs arbitrary: k)
  case (Cons x xs)
  then show ?case by (cases k) (simp_all add: numeral_3_eq_3 numeral_2_eq_2)
qed simp

lemma form_node_lexemes: "list_all field_ok fs \<Longrightarrow>
   node_lexemes (form_lexemes name fs) =
     LX_open # LX_symbol name # concat (map (\<lambda>f. [LX_open, LX_symbol (fst f), snd f]) fs)"
proof -
  assume ok: "list_all field_ok fs"
  have v: "l \<noteq> LX_close \<and> l \<noteq> LX_space" if "value_ok l" for l using that by (cases l) auto
  have "node_lexemes (concat (map field_lexemes fs)) = concat (map (\<lambda>f. [LX_open, LX_symbol (fst f), snd f]) fs)"
    using ok v by (induction fs) (auto simp: node_lexemes_def field_lexemes_def field_ok_def)
  then show ?thesis by (simp add: form_lexemes_def node_lexemes_def)
qed


section \<open>The parse of a form\<close>

definition field_at :: "string \<Rightarrow> sexpr_node list \<Rightarrow> nat \<Rightarrow> form_field \<Rightarrow> bool" where
  "field_at input nodes f fd \<longleftrightarrow>
     f < length nodes \<and> nd_kind (nodes ! f) = NODE_LIST \<and>
     (\<exists>i j. kids nodes f = [i, j] \<and> i < length nodes \<and> j < length nodes \<and>
        reads input (LX_symbol (fst fd)) (nodes ! i) \<and> reads input (snd fd) (nodes ! j))"

definition form_at :: "string \<Rightarrow> sexpr_node list \<Rightarrow> string \<Rightarrow> form_field list \<Rightarrow> bool" where
  "form_at input nodes name fs \<longleftrightarrow>
     forest_ok nodes \<and> length nodes = 2 + 3 * length fs \<and> nd_kind (nodes ! 0) = NODE_LIST \<and>
     nd_parent (nodes ! 0) = INVALID_INDEX \<and> reads input (LX_symbol name) (nodes ! 1) \<and>
     kids nodes 0 = 1 # field_heads 2 fs \<and> list_all2 (field_at input nodes) (field_heads 2 fs) fs"

lemma tok_view_kinds: "map tok_view ts = lexeme_tokens i ls \<Longrightarrow>
   map tk_kind ts = concat (map lexeme_token_kinds ls) \<and>
   map tok_view (node_tokens ts) = filter (\<lambda>t. fst t \<noteq> TOKEN_RPAREN) (lexeme_tokens i ls)"
proof -
  assume a: "map tok_view ts = lexeme_tokens i ls"
  have "map tk_kind ts = map fst (map tok_view ts)" by (simp add: tok_view_def)
  moreover have "map tok_view (node_tokens ts) = filter (\<lambda>t. fst t \<noteq> TOKEN_RPAREN) (map tok_view ts)"
    by (simp add: node_tokens_def filter_map comp_def tok_view_def)
  ultimately show ?thesis unfolding a lexeme_tokens_kinds by simp
qed

lemma nodes_read:
  assumes "drop i input = lexemes_text ls" "i \<le> length input" "map tok_view ts = lexeme_tokens i ls"
    and "list_all2 spans_of (node_tokens ts) nodes"
  shows "list_all2 (reads input) (node_lexemes ls) nodes"
proof -
  note r = lexeme_tokens_read [OF assms(1,2)]
  have v: "map tok_view (node_tokens ts) = filter (\<lambda>t. fst t \<noteq> TOKEN_RPAREN) (lexeme_tokens i ls)"
    using tok_view_kinds [OF assms(3)] by simp
  have "list_all2 (\<lambda>l t. node_kind_of (tk_kind t) = lexeme_kind l \<and> (tk_kind t = TOKEN_LPAREN \<longleftrightarrow> l = LX_open) \<and>
      shows_text input (tk_span t) (lexeme_text l)) (node_lexemes ls) (node_tokens ts)"
    using r unfolding v [symmetric] by (simp add: list_all2_map2 tok_view_def)
  then have "list_all2 (\<lambda>l nd. nd_kind nd = lexeme_kind l \<and> (nd_kind nd \<noteq> NODE_LIST \<longrightarrow> shows_text input (nd_span nd) (lexeme_text l)))
      (node_lexemes ls) nodes"
    by (rule list_all2_trans [OF _ _ assms(4), rotated]) (auto simp: spans_of_def)
  moreover have "lexeme_kind l \<noteq> NODE_LIST" if "l \<in> set (node_lexemes ls)" "l \<noteq> LX_open" for l
  proof -
    have "l \<noteq> LX_close" "l \<noteq> LX_space" using that(1) unfolding node_lexemes_def by simp_all
    then show ?thesis using that(2) by (cases l) simp_all
  qed
  ultimately show ?thesis unfolding reads_def
    by (auto simp: list_all2_conv_all_nth)
qed

theorem form_parses:
  assumes "symbolic name" "list_all field_ok fs"
    and "tokenize_loop input tcap 0 1 1 [] = tokenize_loop input tcap i line col []" "tcap \<noteq> 0"
    and "drop i input = lexemes_text (form_lexemes name fs)" "i \<le> length input"
    and "3 + 4 * length fs \<le> tcap" "2 + 3 * length fs \<le> ncap" "ncap \<le> INVALID_INDEX"
  obtains toks nodes e where "spg_sexpr_parse_text input tcap ncap = (SPG_OK, toks, nodes, e)"
    "form_at input nodes name fs"
proof -
  let ?ls = "form_lexemes name fs"
  have kinds: "concat (map lexeme_token_kinds ?ls) = TOKEN_LPAREN # TOKEN_SYMBOL # fields_kinds fs @ [TOKEN_RPAREN]"
    by (simp add: form_lexemes_def)
  note cnt = fields_tokens [OF assms(2)]
  have "length (lexeme_tokens i ?ls) = length (concat (map lexeme_token_kinds ?ls))"
    by (metis lexeme_tokens_kinds length_map)
  then have len: "length (lexeme_tokens i ?ls) = 3 + 4 * length fs" unfolding kinds using cnt by simp
  obtain ts e where ts: "tokenize_loop input tcap i line col [] = (SPG_OK, ts, e)" "map tok_view ts = lexeme_tokens i ?ls"
    using tokenize_lexemes [OF form_lexemes_ok [OF assms(1,2)] assms(5,6), of "[]" tcap line col] len assms(7) by auto
  note tv = tok_view_kinds [OF ts(2), unfolded kinds]
  have nt: "length (node_tokens ts) = 2 + 3 * length fs"
  proof -
    have "length (node_tokens ts) = length (filter (\<lambda>k. k \<noteq> TOKEN_RPAREN) (map tk_kind ts))"
      by (simp add: node_tokens_def filter_map comp_def)
    then show ?thesis using tv cnt by simp
  qed
  have inv: "parse_inv ncap [] [] INVALID_INDEX" by (rule parse_inv_start [OF assms(9)])
  have "fst (parse_loop ncap ts INVALID_INDEX []) = SPG_OK"
    using parse_loop_status [OF inv, of ts] fields_balanced [OF assms(2)] tv nt assms(8) by simp
  then obtain nodes e' where run: "parse_loop ncap ts INVALID_INDEX [] = (SPG_OK, nodes, e')"
    by (metis prod.collapse)
  have "spg_sexpr_parse_text input tcap ncap = (SPG_OK, ts, nodes, e')"
    using assms(3,4,8) ts(1) run by (simp add: spg_sexpr_parse_text_def spg_sexpr_tokenize_def spg_sexpr_parse_def)
  moreover have "form_at input nodes name fs"
  proof -
    have forest: "forest_ok nodes" using parse_loop_forest [OF inv run] by blast
    have view: "node_view nodes = zip (map (node_kind_of \<circ> tk_kind) (node_tokens ts)) (INVALID_INDEX # 0 # flat_parents 2 fs)"
      using parse_loop_view [OF inv run] tv fields_parents [OF assms(2), of 2]
      by (simp add: node_view_def head_or_invalid_def numeral_2_eq_2)
    have nl: "length nodes = 2 + 3 * length fs"
      using parse_loop_spans [OF inv run, of "[]"] nt by (auto dest: list_all2_lengthD)
    have fl: "length (flat_parents m fs) = 3 * length fs" for m by (induction fs arbitrary: m) simp_all
    have "map nd_parent nodes = map snd (node_view nodes)" by (simp add: node_view_def)
    also have "\<dots> = INVALID_INDEX # 0 # flat_parents 2 fs"
      unfolding view using nt fl by (intro map_snd_zip) simp
    finally have par: "map nd_parent nodes = INVALID_INDEX # 0 # flat_parents 2 fs" .
    have reads: "list_all2 (reads input) (LX_open # LX_symbol name # concat (map (\<lambda>f. [LX_open, LX_symbol (fst f), snd f]) fs)) nodes"
      using nodes_read [OF assms(5,6) ts(2)] parse_loop_spans [OF inv run, of "[]"] form_node_lexemes [OF assms(2)] by simp
    have k0: "kids nodes 0 = 1 # field_heads 2 fs"
      unfolding kids_parents par using flat_root_kids [of 2 fs] by (simp add: INVALID_INDEX_def numeral_2_eq_2)
    have fk: "kids nodes (2 + 3 * k) = [2 + 3 * k + 1, 2 + 3 * k + 2]" if "k < length fs" for k
    proof -
      have "2 + 3 * k < INVALID_INDEX" using that nl forest_okD(1) [OF forest] by simp
      then show ?thesis unfolding kids_parents par using flat_field_kids [of 2 k fs] that by (simp add: numeral_2_eq_2)
    qed
    have at: "field_at input nodes (2 + 3 * k) (fs ! k)" if "k < length fs" for k
    proof -
      have b: "2 + 3 * k + 2 < length nodes" using that nl by simp
      have "reads input ((LX_open # LX_symbol name # concat (map (\<lambda>f. [LX_open, LX_symbol (fst f), snd f]) fs)) ! j) (nodes ! j)"
        if "j < length nodes" for j using list_all2_nthD2 [OF reads that] .
      from this [of "2 + 3 * k"] this [of "2 + 3 * k + 1"] this [of "2 + 3 * k + 2"]
      have "reads input LX_open (nodes ! (2 + 3 * k))" "reads input (LX_symbol (fst (fs ! k))) (nodes ! (2 + 3 * k + 1))"
        "reads input (snd (fs ! k)) (nodes ! (2 + 3 * k + 2))"
        using b nth_triples [OF that, of "\<lambda>f. LX_open" "\<lambda>f. LX_symbol (fst f)" snd] by simp_all
      then show ?thesis using fk [OF that] b by (auto simp: field_at_def reads_def)
    qed
    have "list_all2 (field_at input nodes) (field_heads 2 fs) fs"
      using at by (simp add: list_all2_conv_all_nth field_heads_nth)
    moreover have "nd_kind (nodes ! 0) = NODE_LIST" "reads input (LX_symbol name) (nodes ! 1)" "nd_parent (nodes ! 0) = INVALID_INDEX"
      using list_all2_nthD2 [OF reads, of 0] list_all2_nthD2 [OF reads, of 1] nl arg_cong [OF par, of "\<lambda>l. l ! 0"]
      by (simp_all add: reads_def)
    ultimately show ?thesis using forest nl k0 by (simp add: form_at_def)
  qed
  ultimately show thesis by (rule that)
qed

end
