(* ===== verification/Recommendation.thy ===== *)
theory Recommendation
  imports Policy SexprLex
begin

text \<open>
  The parser of what the model says, \<open>src/actor/recommendation.c\<close>: a \<open>(recommend ...)\<close> form
  with one field per name becomes a typed action request, or a rejection with its reason. A
  recommendation is a record as in \<open>include/geistshell/recommendation.h\<close>; every \<open>reject\<close> of the
  code is a branch that yields the zeroed record.
\<close>

datatype recommendation_state = RECOMMENDATION_REJECTED | RECOMMENDATION_VALID

datatype reject_reason =
  REJECT_NONE | REJECT_EMPTY | REJECT_SYNTAX | REJECT_SCHEMA | REJECT_UNKNOWN_KIND
| REJECT_MISSING_FIELD | REJECT_DUPLICATE_FIELD | REJECT_WRONG_VALUE | REJECT_KIND_MISMATCH

datatype field_id =
  FIELD_KIND | FIELD_CAPABILITY | FIELD_COST | FIELD_USES_NETWORK | FIELD_CONFIDENCE_BP
| FIELD_REASON | FIELD_COMMAND | FIELD_TARGET | FIELD_SLUG | FIELD_DESCRIPTION | FIELD_BODY
| FIELD_VALUE | FIELD_UNKNOWN

record recommendation =
  rm_state :: recommendation_state
  rm_reject_reason :: reject_reason
  rm_action_kind :: action_kind
  rm_action :: action_request
  rm_kind :: text_span
  rm_capability :: text_span
  rm_command :: text_span
  rm_target :: text_span
  rm_reason :: text_span
  rm_slug :: text_span
  rm_description :: text_span
  rm_body :: text_span
  rm_confidence_bp :: u64
  rm_device_value :: i64
  rm_has_device_value :: bool
  rm_has_command :: bool
  rm_has_target :: bool
  rm_has_slug :: bool
  rm_has_description :: bool
  rm_has_body :: bool

record recommendation_error =
  re_status :: spg_status
  re_reject_reason :: reject_reason
  re_node_index :: nat
  re_offset :: nat

abbreviation no_span :: text_span where "no_span \<equiv> mk_span 0 0"

definition rejected :: "reject_reason \<Rightarrow> recommendation" where
  "rejected reason =
     \<lparr>rm_state = RECOMMENDATION_REJECTED, rm_reject_reason = reason,
      rm_action_kind = ACTION_LOCAL_SHELL,
      rm_action = \<lparr>rq_kind = ACTION_LOCAL_SHELL, rq_capability = no_span, rq_uses_network = False,
                   rq_cost = 0\<rparr>,
      rm_kind = no_span, rm_capability = no_span, rm_command = no_span, rm_target = no_span,
      rm_reason = no_span, rm_slug = no_span, rm_description = no_span, rm_body = no_span,
      rm_confidence_bp = 0, rm_device_value = 0, rm_has_device_value = False,
      rm_has_command = False, rm_has_target = False, rm_has_slug = False,
      rm_has_description = False, rm_has_body = False\<rparr>"

type_synonym parse_outcome = "spg_status \<times> recommendation \<times> recommendation_error"

definition reject ::
  "spg_status \<Rightarrow> reject_reason \<Rightarrow> spg_status \<Rightarrow> nat \<Rightarrow> nat \<Rightarrow> parse_outcome" where
  "reject ret reason st node off =
     (ret, rejected reason,
      \<lparr>re_status = st, re_reject_reason = reason, re_node_index = node, re_offset = off\<rparr>)"

definition has_third_child :: "sexpr_node list \<Rightarrow> nat \<Rightarrow> bool" where
  "has_third_child nodes node =
     (let second = spg_sexpr_second_child nodes node
      in second \<noteq> INVALID_INDEX \<and> nd_next_sibling (nodes ! second) \<noteq> INVALID_INDEX)"

definition field_for_name :: "string \<Rightarrow> text_span \<Rightarrow> field_id" where
  "field_for_name input name =
     (let is = spg_sexpr_span_eq_cstr input name in
      if is ''kind'' then FIELD_KIND
      else if is ''capability'' then FIELD_CAPABILITY
      else if is ''cost'' then FIELD_COST
      else if is ''uses_network'' then FIELD_USES_NETWORK
      else if is ''confidence_bp'' then FIELD_CONFIDENCE_BP
      else if is ''reason'' then FIELD_REASON
      else if is ''command'' then FIELD_COMMAND
      else if is ''target'' then FIELD_TARGET
      else if is ''slug'' then FIELD_SLUG
      else if is ''description'' then FIELD_DESCRIPTION
      else if is ''body'' then FIELD_BODY
      else if is ''value'' then FIELD_VALUE
      else FIELD_UNKNOWN)"

definition parse_bool_symbol :: "string \<Rightarrow> text_span \<Rightarrow> bool option" where
  "parse_bool_symbol input sp =
     (if spg_sexpr_span_eq_cstr input sp ''true'' then Some True
      else if spg_sexpr_span_eq_cstr input sp ''false'' then Some False
      else None)"

definition parse_action_kind :: "string \<Rightarrow> text_span \<Rightarrow> action_kind option" where
  "parse_action_kind input sp =
     (let is = spg_sexpr_span_eq_cstr input sp in
      if is ''simulator'' then Some ACTION_SIMULATOR
      else if is ''local_shell'' then Some ACTION_LOCAL_SHELL
      else if is ''ssh_auth_probe'' then Some ACTION_SSH_AUTH_PROBE
      else if is ''memory_save'' then Some ACTION_MEMORY_SAVE
      else if is ''memory_delete'' then Some ACTION_MEMORY_DELETE
      else if is ''memory_read'' then Some ACTION_MEMORY_READ
      else if is ''machine_pause_process'' then Some ACTION_MACHINE_PAUSE
      else if is ''machine_resume_process'' then Some ACTION_MACHINE_RESUME
      else if is ''device_write'' then Some ACTION_DEVICE_WRITE
      else if is ''finish'' then Some ACTION_FINISH
      else None)"

definition required_fields_seen :: "field_id list \<Rightarrow> action_kind \<Rightarrow> bool" where
  "required_fields_seen seen kind =
     (if kind = ACTION_FINISH then FIELD_KIND \<in> set seen \<and> FIELD_REASON \<in> set seen
      else FIELD_KIND \<in> set seen \<and> FIELD_CAPABILITY \<in> set seen \<and> FIELD_COST \<in> set seen \<and>
           FIELD_USES_NETWORK \<in> set seen \<and> FIELD_CONFIDENCE_BP \<in> set seen \<and> FIELD_REASON \<in> set seen)"

definition kind_fields_match :: "recommendation \<Rightarrow> bool" where
  "kind_fields_match r =
     (if rm_has_device_value r \<and> rm_action_kind r \<noteq> ACTION_DEVICE_WRITE then False
      else case rm_action_kind r of
        ACTION_SIMULATOR \<Rightarrow> \<not> rq_uses_network (rm_action r) \<and> \<not> rm_has_command r
      | ACTION_LOCAL_SHELL \<Rightarrow>
          \<not> rq_uses_network (rm_action r) \<and> rm_has_command r \<and> \<not> rm_has_target r
      | ACTION_SSH_AUTH_PROBE \<Rightarrow>
          rq_uses_network (rm_action r) \<and> \<not> rm_has_command r \<and> rm_has_target r
      | ACTION_MEMORY_SAVE \<Rightarrow>
          \<not> rq_uses_network (rm_action r) \<and> \<not> rm_has_command r \<and> \<not> rm_has_target r \<and>
          rm_has_slug r \<and> rm_has_description r \<and> rm_has_body r
      | ACTION_MEMORY_DELETE \<Rightarrow>
          \<not> rq_uses_network (rm_action r) \<and> \<not> rm_has_command r \<and> \<not> rm_has_target r \<and>
          rm_has_slug r \<and> \<not> rm_has_description r \<and> \<not> rm_has_body r
      | ACTION_MEMORY_READ \<Rightarrow>
          \<not> rq_uses_network (rm_action r) \<and> \<not> rm_has_command r \<and> \<not> rm_has_target r \<and>
          rm_has_slug r \<and> \<not> rm_has_description r \<and> \<not> rm_has_body r
      | ACTION_MACHINE_PAUSE \<Rightarrow>
          \<not> rq_uses_network (rm_action r) \<and> \<not> rm_has_command r \<and> rm_has_target r \<and>
          \<not> rm_has_slug r \<and> \<not> rm_has_description r \<and> \<not> rm_has_body r
      | ACTION_MACHINE_RESUME \<Rightarrow>
          \<not> rq_uses_network (rm_action r) \<and> \<not> rm_has_command r \<and> rm_has_target r \<and>
          \<not> rm_has_slug r \<and> \<not> rm_has_description r \<and> \<not> rm_has_body r
      | ACTION_DEVICE_WRITE \<Rightarrow>
          \<not> rq_uses_network (rm_action r) \<and> \<not> rm_has_command r \<and> rm_has_target r \<and>
          rm_has_device_value r \<and> \<not> rm_has_slug r \<and> \<not> rm_has_description r \<and> \<not> rm_has_body r
      | ACTION_FINISH \<Rightarrow>
          \<not> rm_has_command r \<and> \<not> rm_has_target r \<and> \<not> rm_has_slug r \<and>
          \<not> rm_has_description r \<and> \<not> rm_has_body r)"

fun spg_recommendation_reject_reason_to_string :: "reject_reason \<Rightarrow> string" where
  "spg_recommendation_reject_reason_to_string REJECT_NONE = ''SPG_RECOMMENDATION_REJECT_NONE''"
| "spg_recommendation_reject_reason_to_string REJECT_EMPTY = ''SPG_RECOMMENDATION_REJECT_EMPTY''"
| "spg_recommendation_reject_reason_to_string REJECT_SYNTAX = ''SPG_RECOMMENDATION_REJECT_SYNTAX''"
| "spg_recommendation_reject_reason_to_string REJECT_SCHEMA = ''SPG_RECOMMENDATION_REJECT_SCHEMA''"
| "spg_recommendation_reject_reason_to_string REJECT_UNKNOWN_KIND =
     ''SPG_RECOMMENDATION_REJECT_UNKNOWN_KIND''"
| "spg_recommendation_reject_reason_to_string REJECT_MISSING_FIELD =
     ''SPG_RECOMMENDATION_REJECT_MISSING_FIELD''"
| "spg_recommendation_reject_reason_to_string REJECT_DUPLICATE_FIELD =
     ''SPG_RECOMMENDATION_REJECT_DUPLICATE_FIELD''"
| "spg_recommendation_reject_reason_to_string REJECT_WRONG_VALUE =
     ''SPG_RECOMMENDATION_REJECT_WRONG_VALUE''"
| "spg_recommendation_reject_reason_to_string REJECT_KIND_MISMATCH =
     ''SPG_RECOMMENDATION_REJECT_KIND_MISMATCH''"

section \<open>One field\<close>

definition INT64_MAX :: u64 where "INT64_MAX = 9223372036854775807"

text \<open>The signed value of \<open>device_write\<close>: an optional minus and at most \<open>INT64_MAX\<close>.\<close>

definition device_value_of :: "string \<Rightarrow> sexpr_node \<Rightarrow> i64 option" where
  "device_value_of input nd =
     (let sp = nd_span nd;
          negative = (sp_length sp > 0 \<and> input ! sp_offset sp = CHR ''-'');
          digits = (if negative then mk_span (sp_offset sp + 1) (sp_length sp - 1) else sp)
      in if nd_kind nd \<noteq> NODE_SYMBOL \<or> sp_length digits = 0 then None
         else (case spg_sexpr_parse_uint64_span input digits of
                 Inl _ \<Rightarrow> None
               | Inr magnitude \<Rightarrow>
                   if magnitude > INT64_MAX then None
                   else Some (if negative then - uint magnitude else uint magnitude)))"

text \<open>The switch on the field: the record with the value stored, or why it is rejected.\<close>

definition store_field ::
  "string \<Rightarrow> field_id \<Rightarrow> sexpr_node \<Rightarrow> recommendation \<Rightarrow> reject_reason + recommendation" where
  "store_field input fid v r =
     (let payload = (\<lambda>store. case spg_sexpr_string_payload_span v of
                        None \<Rightarrow> Inl REJECT_WRONG_VALUE | Some sp \<Rightarrow> Inr (store sp))
      in case fid of
        FIELD_KIND \<Rightarrow>
          if nd_kind v \<noteq> NODE_SYMBOL then Inl REJECT_WRONG_VALUE
          else (case parse_action_kind input (nd_span v) of
                  None \<Rightarrow> Inl REJECT_UNKNOWN_KIND
                | Some k \<Rightarrow> Inr (r\<lparr>rm_kind := nd_span v, rm_action_kind := k\<rparr>))
      | FIELD_CAPABILITY \<Rightarrow> payload (\<lambda>sp. r\<lparr>rm_capability := sp\<rparr>)
      | FIELD_COST \<Rightarrow>
          if nd_kind v \<noteq> NODE_SYMBOL then Inl REJECT_WRONG_VALUE
          else (case spg_sexpr_parse_uint64_span input (nd_span v) of
                  Inl _ \<Rightarrow> Inl REJECT_WRONG_VALUE
                | Inr n \<Rightarrow> if n = 0 then Inl REJECT_WRONG_VALUE
                           else Inr (r\<lparr>rm_action := (rm_action r)\<lparr>rq_cost := n\<rparr>\<rparr>))
      | FIELD_VALUE \<Rightarrow>
          (case device_value_of input v of
             None \<Rightarrow> Inl REJECT_WRONG_VALUE
           | Some n \<Rightarrow> Inr (r\<lparr>rm_device_value := n, rm_has_device_value := True\<rparr>))
      | FIELD_USES_NETWORK \<Rightarrow>
          if nd_kind v \<noteq> NODE_SYMBOL then Inl REJECT_WRONG_VALUE
          else (case parse_bool_symbol input (nd_span v) of
                  None \<Rightarrow> Inl REJECT_WRONG_VALUE
                | Some b \<Rightarrow> Inr (r\<lparr>rm_action := (rm_action r)\<lparr>rq_uses_network := b\<rparr>\<rparr>))
      | FIELD_CONFIDENCE_BP \<Rightarrow>
          if nd_kind v \<noteq> NODE_SYMBOL then Inl REJECT_WRONG_VALUE
          else (case spg_sexpr_parse_uint64_span input (nd_span v) of
                  Inl _ \<Rightarrow> Inl REJECT_WRONG_VALUE
                | Inr n \<Rightarrow> if n > 10000 then Inl REJECT_WRONG_VALUE
                           else Inr (r\<lparr>rm_confidence_bp := n\<rparr>))
      | FIELD_REASON \<Rightarrow> payload (\<lambda>sp. r\<lparr>rm_reason := sp\<rparr>)
      | FIELD_COMMAND \<Rightarrow> payload (\<lambda>sp. r\<lparr>rm_command := sp, rm_has_command := True\<rparr>)
      | FIELD_TARGET \<Rightarrow> payload (\<lambda>sp. r\<lparr>rm_target := sp, rm_has_target := True\<rparr>)
      | FIELD_SLUG \<Rightarrow> payload (\<lambda>sp. r\<lparr>rm_slug := sp, rm_has_slug := True\<rparr>)
      | FIELD_DESCRIPTION \<Rightarrow> payload (\<lambda>sp. r\<lparr>rm_description := sp, rm_has_description := True\<rparr>)
      | FIELD_BODY \<Rightarrow> payload (\<lambda>sp. r\<lparr>rm_body := sp, rm_has_body := True\<rparr>)
      | FIELD_UNKNOWN \<Rightarrow> Inl REJECT_SCHEMA)"

text \<open>One iteration of the field loop; a rejection names its reason and node.\<close>

definition field_step ::
  "string \<Rightarrow> sexpr_node list \<Rightarrow> nat \<Rightarrow> recommendation \<times> field_id list \<Rightarrow>
     (reject_reason \<times> nat) + (recommendation \<times> field_id list)" where
  "field_step input nodes field st =
     (case st of (r, seen) \<Rightarrow>
      let name_node = spg_sexpr_first_child nodes field;
          value_node = spg_sexpr_second_child nodes field
      in if nd_kind (nodes ! field) \<noteq> NODE_LIST then Inl (REJECT_SCHEMA, field)
         else if name_node = INVALID_INDEX \<or> value_node = INVALID_INDEX \<or>
                 has_third_child nodes field \<or> nd_kind (nodes ! name_node) \<noteq> NODE_SYMBOL
           then Inl (REJECT_SCHEMA, field)
         else let fid = field_for_name input (nd_span (nodes ! name_node)) in
           if fid = FIELD_UNKNOWN then Inl (REJECT_SCHEMA, name_node)
           else if fid \<in> set seen then Inl (REJECT_DUPLICATE_FIELD, name_node)
           else (case store_field input fid (nodes ! value_node) r of
                   Inl reason \<Rightarrow> Inl (reason, value_node)
                 | Inr r' \<Rightarrow> Inr (r', fid # seen)))"

fun field_loop ::
  "string \<Rightarrow> sexpr_node list \<Rightarrow> nat list \<Rightarrow> recommendation \<times> field_id list \<Rightarrow>
     (reject_reason \<times> nat) + (recommendation \<times> field_id list)" where
  "field_loop input nodes [] st = Inr st"
| "field_loop input nodes (f # fs) st =
     (case field_step input nodes f st of
        Inl e \<Rightarrow> Inl e
      | Inr st' \<Rightarrow> field_loop input nodes fs st')"

section \<open>The parser\<close>

definition recommend_form :: "string \<Rightarrow> sexpr_node list \<Rightarrow> bool" where
  "recommend_form input nodes \<longleftrightarrow>
     (let form_name = spg_sexpr_first_child nodes 0
      in form_name \<noteq> INVALID_INDEX \<and> nd_kind (nodes ! form_name) = NODE_SYMBOL \<and>
         spg_sexpr_span_eq_cstr input (nd_span (nodes ! form_name)) ''recommend'')"

definition form_fields :: "sexpr_node list \<Rightarrow> nat list" where
  "form_fields nodes = siblings nodes (nd_next_sibling (nodes ! spg_sexpr_first_child nodes 0))"

definition with_action :: "recommendation \<Rightarrow> recommendation" where
  "with_action r = r\<lparr>rm_action := (rm_action r)\<lparr>rq_kind := rm_action_kind r,
     rq_capability := rm_capability r\<rparr>\<rparr>"

definition parse_form :: "string \<Rightarrow> sexpr_node list \<Rightarrow> parse_outcome" where
  "parse_form input nodes =
     (let off0 = sp_offset (nd_span (nodes ! 0)) in
      if \<not> recommend_form input nodes then reject SPG_OK REJECT_SCHEMA SPG_E_SCHEMA 0 off0
      else (case field_loop input nodes (form_fields nodes) (rejected REJECT_SCHEMA, []) of
        Inl (reason, node) \<Rightarrow>
          reject SPG_OK reason SPG_E_SCHEMA node (sp_offset (nd_span (nodes ! node)))
      | Inr (r, seen) \<Rightarrow>
          if \<not> required_fields_seen seen (rm_action_kind r)
            then reject SPG_OK REJECT_MISSING_FIELD SPG_E_SCHEMA 0 off0
          else if \<not> kind_fields_match (with_action r)
            then reject SPG_OK REJECT_KIND_MISMATCH SPG_E_SCHEMA 0 off0
          else (SPG_OK,
                (with_action r)\<lparr>rm_state := RECOMMENDATION_VALID, rm_reject_reason := REJECT_NONE\<rparr>,
                \<lparr>re_status = SPG_OK, re_reject_reason = REJECT_NONE, re_node_index = 0,
                 re_offset = off0\<rparr>)))"

definition spg_recommendation_parse :: "string \<Rightarrow> nat \<Rightarrow> nat \<Rightarrow> parse_outcome" where
  "spg_recommendation_parse input token_capacity node_capacity =
     (if token_capacity = 0 \<or> node_capacity = 0
      then reject SPG_E_INVALID_ARG REJECT_SCHEMA SPG_E_INVALID_ARG INVALID_INDEX 0
      else (case spg_sexpr_parse_text input token_capacity node_capacity of
        (st, toks, nodes, e) \<Rightarrow>
          if st = SPG_E_LIMIT then reject st REJECT_SCHEMA st INVALID_INDEX (er_offset e)
          else if st \<noteq> SPG_OK then reject SPG_OK REJECT_SYNTAX st INVALID_INDEX (er_offset e)
          else if length nodes = 0 then reject SPG_OK REJECT_EMPTY SPG_OK INVALID_INDEX 0
          else if length nodes > 4294967295 \<or> nd_kind (nodes ! 0) \<noteq> NODE_LIST \<or>
                  nd_parent (nodes ! 0) \<noteq> INVALID_INDEX
            then reject SPG_OK REJECT_SCHEMA SPG_E_SCHEMA 0 (sp_offset (nd_span (nodes ! 0)))
          else parse_form input nodes))"

end
