(* ===== verification/FormRecommend.thy ===== *)
theory FormRecommend
  imports FormText Recommendation
begin

text \<open>
  The recommendation parser on the text of a flat form: what it stores is decided by the field names
  and the value texts alone.
\<close>

section \<open>One field\<close>

lemma field_children:
  assumes "forest_ok nodes" "field_at input nodes f fd"
  obtains i j where "spg_sexpr_first_child nodes f = i" "spg_sexpr_second_child nodes f = j"
    "i \<noteq> INVALID_INDEX" "j \<noteq> INVALID_INDEX" "\<not> has_third_child nodes f"
    "reads input (LX_symbol (fst fd)) (nodes ! i)" "reads input (snd fd) (nodes ! j)"
proof -
  obtain i j where k: "f < length nodes" "kids nodes f = [i, j]" "i < length nodes" "j < length nodes"
    "reads input (LX_symbol (fst fd)) (nodes ! i)" "reads input (snd fd) (nodes ! j)"
    using assms(2) by (auto simp: field_at_def)
  note D = forest_okD [OF assms(1)]
  have l: "nd_first_child (nodes ! f) = i" "linked nodes [i, j]"
    using D(4,5) [OF k(1)] k(2) by (simp_all add: head_or_invalid_def)
  have n: "i \<noteq> INVALID_INDEX" "j \<noteq> INVALID_INDEX" using D(1) k(3,4) by auto
  have "spg_sexpr_first_child nodes f = i" "spg_sexpr_second_child nodes f = j"
    using l n by (simp_all add: spg_sexpr_first_child_def spg_sexpr_second_child_def)
  moreover have "\<not> has_third_child nodes f" using l calculation(2) by (simp add: has_third_child_def)
  ultimately show thesis using that n k(5,6) by blast
qed

text \<open>The value of a field, as the parser stores it.\<close>

definition inner :: "sexpr_node \<Rightarrow> text_span" where
  "inner nd = mk_span (sp_offset (nd_span nd) + 1) (sp_length (nd_span nd) - 2)"

lemma quoted_payload:
  assumes "reads input (LX_quoted s) nd"
  shows "spg_sexpr_string_payload_span nd = Some (inner nd)" "shows_text input (inner nd) s"
proof -
  have r: "nd_kind nd = NODE_STRING" "spg_sexpr_span_valid (length input) (nd_span nd)"
    "sp_length (nd_span nd) = length s + 2" "span_text input (nd_span nd) = ch_quote # s @ [ch_quote]"
    using assms by (simp_all add: reads_def shows_text_def)
  then show "spg_sexpr_string_payload_span nd = Some (inner nd)"
    by (simp add: spg_sexpr_string_payload_span_def inner_def)
  have d: "take (length s + 2) (drop (sp_offset (nd_span nd)) input) = ch_quote # s @ [ch_quote]"
    using r(3,4) by (simp add: span_text_def)
  have "take (length s) (drop (sp_offset (nd_span nd) + 1) input) =
      take (length s) (drop 1 (take (length s + 2) (drop (sp_offset (nd_span nd)) input)))"
    by (simp add: drop_take)
  also have "\<dots> = s" unfolding d by simp
  finally show "shows_text input (inner nd) s"
    using r(2,3) by (auto simp: shows_text_def inner_def span_text_def spg_sexpr_span_valid_def)
qed

fun field_named :: "string \<Rightarrow> field_id" where
  "field_named n =
     (if n = ''kind'' then FIELD_KIND
      else if n = ''capability'' then FIELD_CAPABILITY
      else if n = ''cost'' then FIELD_COST
      else if n = ''uses_network'' then FIELD_USES_NETWORK
      else if n = ''confidence_bp'' then FIELD_CONFIDENCE_BP
      else if n = ''reason'' then FIELD_REASON
      else if n = ''command'' then FIELD_COMMAND
      else if n = ''target'' then FIELD_TARGET
      else if n = ''slug'' then FIELD_SLUG
      else if n = ''description'' then FIELD_DESCRIPTION
      else if n = ''body'' then FIELD_BODY
      else if n = ''value'' then FIELD_VALUE
      else FIELD_UNKNOWN)"

declare field_named.simps [simp del]

lemma field_for_shown: "shows_text input sp n \<Longrightarrow> field_for_name input sp = field_named n"
  unfolding field_for_name_def field_named.simps Let_def by (simp only: span_eq_shows)

lemma field_step_at:
  assumes "forest_ok nodes" "field_at input nodes f fd" "field_named (fst fd) = fid" "fid \<noteq> FIELD_UNKNOWN" "fid \<notin> set seen"
    and "\<And>nd. reads input (snd fd) nd \<Longrightarrow> \<exists>r'. store_field input fid nd r = Inr r' \<and> Q r'"
  shows "\<exists>r'. field_step input nodes f (r, seen) = Inr (r', fid # seen) \<and> Q r'"
proof -
  obtain i j where c: "spg_sexpr_first_child nodes f = i" "spg_sexpr_second_child nodes f = j"
    "i \<noteq> INVALID_INDEX" "j \<noteq> INVALID_INDEX" "\<not> has_third_child nodes f"
    "reads input (LX_symbol (fst fd)) (nodes ! i)" "reads input (snd fd) (nodes ! j)"
    by (rule field_children [OF assms(1,2)])
  have k: "nd_kind (nodes ! f) = NODE_LIST" "nd_kind (nodes ! i) = NODE_SYMBOL"
    using assms(2) c(6) by (auto simp: field_at_def reads_def)
  have n: "field_for_name input (nd_span (nodes ! i)) = fid"
    using field_for_shown [of input "nd_span (nodes ! i)" "fst fd"] c(6) assms(3) by (simp add: reads_def)
  obtain r' where "store_field input fid (nodes ! j) r = Inr r'" "Q r'" using assms(6) [OF c(7)] by blast
  then show ?thesis using c k n assms(4,5) by (simp add: field_step_def Let_def)
qed

section \<open>What a field means\<close>

text \<open>The record as its readers see it: the texts of its spans instead of the spans.\<close>

record form_view =
  fv_kind :: action_kind
  fv_cost :: u64
  fv_network :: bool
  fv_confidence :: u64
  fv_value :: "int option"
  fv_texts :: "field_id \<Rightarrow> string option"

definition empty_view :: form_view where
  "empty_view = \<lparr>fv_kind = ACTION_LOCAL_SHELL, fv_cost = 0, fv_network = False, fv_confidence = 0,
     fv_value = None, fv_texts = Map.empty\<rparr>"

definition text_fields :: "(field_id \<times> (recommendation \<Rightarrow> text_span)) list" where
  "text_fields = [(FIELD_CAPABILITY, rm_capability), (FIELD_COMMAND, rm_command), (FIELD_TARGET, rm_target),
     (FIELD_REASON, rm_reason), (FIELD_SLUG, rm_slug), (FIELD_DESCRIPTION, rm_description), (FIELD_BODY, rm_body)]"

definition shown :: "string \<Rightarrow> recommendation \<Rightarrow> form_view \<Rightarrow> bool" where
  "shown input r v \<longleftrightarrow>
     rm_action_kind r = fv_kind v \<and> rq_cost (rm_action r) = fv_cost v \<and> rq_uses_network (rm_action r) = fv_network v \<and>
     rm_confidence_bp r = fv_confidence v \<and>
     (rm_has_device_value r \<longleftrightarrow> fv_value v \<noteq> None) \<and> (fv_value v \<noteq> None \<longrightarrow> rm_device_value r = the (fv_value v)) \<and>
     (rm_has_command r \<longleftrightarrow> fv_texts v FIELD_COMMAND \<noteq> None) \<and> (rm_has_target r \<longleftrightarrow> fv_texts v FIELD_TARGET \<noteq> None) \<and>
     (rm_has_slug r \<longleftrightarrow> fv_texts v FIELD_SLUG \<noteq> None) \<and> (rm_has_description r \<longleftrightarrow> fv_texts v FIELD_DESCRIPTION \<noteq> None) \<and>
     (rm_has_body r \<longleftrightarrow> fv_texts v FIELD_BODY \<noteq> None) \<and>
     (\<forall>(fid, sel) \<in> set text_fields. fv_texts v fid \<noteq> None \<longrightarrow> shows_text input (sel r) (the (fv_texts v fid)))"

definition kind_named :: "string \<Rightarrow> action_kind option" where
  "kind_named s =
     (if s = ''simulator'' then Some ACTION_SIMULATOR
      else if s = ''local_shell'' then Some ACTION_LOCAL_SHELL
      else if s = ''ssh_auth_probe'' then Some ACTION_SSH_AUTH_PROBE
      else if s = ''memory_save'' then Some ACTION_MEMORY_SAVE
      else if s = ''memory_delete'' then Some ACTION_MEMORY_DELETE
      else if s = ''memory_read'' then Some ACTION_MEMORY_READ
      else if s = ''machine_pause_process'' then Some ACTION_MACHINE_PAUSE
      else if s = ''machine_resume_process'' then Some ACTION_MACHINE_RESUME
      else if s = ''device_write'' then Some ACTION_DEVICE_WRITE
      else if s = ''finish'' then Some ACTION_FINISH
      else None)"

definition number_named :: "string \<Rightarrow> u64 option" where
  "number_named s = (if s = [] then None else case parse_digits 0 s of Inl _ \<Rightarrow> None | Inr n \<Rightarrow> Some n)"

definition value_named :: "string \<Rightarrow> int option" where
  "value_named s =
     (let negative = (s \<noteq> [] \<and> hd s = CHR ''-'')
      in case number_named (if negative then tl s else s) of
           None \<Rightarrow> None
         | Some m \<Rightarrow> if m > INT64_MAX then None else Some (if negative then - uint m else uint m))"

fun view_step :: "form_field \<Rightarrow> form_view \<Rightarrow> form_view option" where
  "view_step (n, LX_quoted s) v =
     (let fid = field_named n
      in if fid \<in> {FIELD_CAPABILITY, FIELD_COMMAND, FIELD_TARGET, FIELD_REASON, FIELD_SLUG, FIELD_DESCRIPTION, FIELD_BODY}
         then Some (v\<lparr>fv_texts := (fv_texts v)(fid \<mapsto> s)\<rparr>) else None)"
| "view_step (n, LX_symbol s) v =
     (case field_named n of
        FIELD_KIND \<Rightarrow> map_option (\<lambda>k. v\<lparr>fv_kind := k\<rparr>) (kind_named s)
      | FIELD_COST \<Rightarrow> (case number_named s of None \<Rightarrow> None | Some m \<Rightarrow> if m = 0 then None else Some (v\<lparr>fv_cost := m\<rparr>))
      | FIELD_CONFIDENCE_BP \<Rightarrow>
          (case number_named s of None \<Rightarrow> None | Some m \<Rightarrow> if m > 10000 then None else Some (v\<lparr>fv_confidence := m\<rparr>))
      | FIELD_USES_NETWORK \<Rightarrow>
          (if s = ''true'' then Some (v\<lparr>fv_network := True\<rparr>)
           else if s = ''false'' then Some (v\<lparr>fv_network := False\<rparr>) else None)
      | FIELD_VALUE \<Rightarrow> map_option (\<lambda>x. v\<lparr>fv_value := Some x\<rparr>) (value_named s)
      | _ \<Rightarrow> None)"
| "view_step (n, _) v = None"

lemma number_shown: "shows_text input sp s \<Longrightarrow> spg_sexpr_parse_uint64_span input sp = Inr m \<longleftrightarrow> number_named s = Some m"
  by (auto simp: spg_sexpr_parse_uint64_span_def number_named_def shows_text_def split: sum.splits)

lemma kind_shown: "shows_text input sp s \<Longrightarrow> parse_action_kind input sp = kind_named s"
  unfolding parse_action_kind_def kind_named_def Let_def by (simp only: span_eq_shows)

lemma bool_shown: "shows_text input sp s \<Longrightarrow> parse_bool_symbol input sp =
    (if s = ''true'' then Some True else if s = ''false'' then Some False else None)"
  unfolding parse_bool_symbol_def by (simp only: span_eq_shows)

lemma shows_text_tail:
  assumes "shows_text input sp (c # s)"
  shows "shows_text input (mk_span (sp_offset sp + 1) (sp_length sp - 1)) s" "input ! sp_offset sp = c"
proof -
  have r: "sp_length sp = Suc (length s)" "span_text input sp = c # s" "sp_offset sp \<le> length input"
    "Suc (length s) \<le> length input - sp_offset sp"
    using assms by (auto simp: shows_text_def spg_sexpr_span_valid_def)
  have "drop (sp_offset sp) input = input ! sp_offset sp # drop (Suc (sp_offset sp)) input"
    using r(3,4) by (intro Cons_nth_drop_Suc [symmetric]) simp
  then have "input ! sp_offset sp # take (length s) (drop (Suc (sp_offset sp)) input) = c # s"
    using r(1,2) by (simp add: span_text_def)
  then show "shows_text input (mk_span (sp_offset sp + 1) (sp_length sp - 1)) s" "input ! sp_offset sp = c"
    using r by (auto simp: shows_text_def spg_sexpr_span_valid_def span_text_def)
qed

lemma magnitude_shown:
  assumes "shows_text input sp t"
  shows "(if sp_length sp = 0 then None
      else (case spg_sexpr_parse_uint64_span input sp of Inl x \<Rightarrow> None | Inr m \<Rightarrow> F m)) =
    (case number_named t of None \<Rightarrow> None | Some m \<Rightarrow> F m)"
proof (cases "t = []")
  case True
  then have "sp_length sp = 0" using assms by (simp add: shows_text_def)
  then show ?thesis using True by (simp add: number_named_def)
next
  case False
  then have "sp_length sp \<noteq> 0" using assms by (simp add: shows_text_def)
  then show ?thesis
    by (cases "spg_sexpr_parse_uint64_span input sp") (use number_shown [OF assms] in \<open>force split: option.split\<close>)+
qed

lemma value_shown:
  assumes "reads input (LX_symbol s) nd"
  shows "device_value_of input nd = value_named s"
proof -
  let ?sp = "nd_span nd"
  have r: "nd_kind nd = NODE_SYMBOL" "shows_text input ?sp s" using assms by (simp_all add: reads_def)
  have neg: "(sp_length ?sp > 0 \<and> input ! sp_offset ?sp = CHR ''-'') \<longleftrightarrow> (s \<noteq> [] \<and> hd s = CHR ''-'')"
    using r(2) shows_text_tail(2) [of input ?sp "hd s" "tl s"] by (cases s) (auto simp: shows_text_def)
  have dig: "shows_text input (if s \<noteq> [] \<and> hd s = CHR ''-'' then mk_span (sp_offset ?sp + 1) (sp_length ?sp - 1) else ?sp)
      (if s \<noteq> [] \<and> hd s = CHR ''-'' then tl s else s)"
    using r(2) shows_text_tail(1) [of input ?sp "hd s" "tl s"] by (cases s) auto
  show ?thesis
    unfolding device_value_of_def Let_def neg value_named_def magnitude_shown [OF dig, symmetric] r(1)
    by (simp only: simp_thms)
qed


lemma store_quoted:
  assumes "reads input (LX_quoted s) nd" "view_step (n, LX_quoted s) v = Some v'" "shown input r v"
  shows "\<exists>r'. store_field input (field_named n) nd r = Inr r' \<and> shown input r' v'"
proof -
  note p = quoted_payload [OF assms(1)]
  have fid: "field_named n \<in> {FIELD_CAPABILITY, FIELD_COMMAND, FIELD_TARGET, FIELD_REASON, FIELD_SLUG, FIELD_DESCRIPTION, FIELD_BODY}"
    and v': "v' = v\<lparr>fv_texts := (fv_texts v)(field_named n \<mapsto> s)\<rparr>"
    using assms(2) by (simp_all add: Let_def split: if_splits)
  show ?thesis
    using fid p assms(3) unfolding v' shown_def text_fields_def
    by (cases "field_named n") (simp_all add: store_field_def Let_def)
qed

lemma store_symbol:
  assumes "reads input (LX_symbol s) nd" "view_step (n, LX_symbol s) v = Some v'" "shown input r v"
  shows "\<exists>r'. store_field input (field_named n) nd r = Inr r' \<and> shown input r' v'"
proof -
  have k: "nd_kind nd = NODE_SYMBOL" "shows_text input (nd_span nd) s" using assms(1) by (simp_all add: reads_def)
  consider "field_named n = FIELD_KIND" | "field_named n = FIELD_COST" | "field_named n = FIELD_CONFIDENCE_BP"
    | "field_named n = FIELD_USES_NETWORK" | "field_named n = FIELD_VALUE"
    using assms(2) by (cases "field_named n") simp_all
  then show ?thesis
  proof cases
    case 1
    then obtain x where x: "kind_named s = Some x" "v' = v\<lparr>fv_kind := x\<rparr>" using assms(2) by auto
    then have "parse_action_kind input (nd_span nd) = Some x" using kind_shown [OF k(2)] by simp
    then show ?thesis using 1 x assms(3) k(1) unfolding shown_def text_fields_def by (simp add: store_field_def Let_def)
  next
    case 2
    then obtain m where m: "number_named s = Some m" "m \<noteq> 0" "v' = v\<lparr>fv_cost := m\<rparr>"
      using assms(2) by (auto split: option.splits if_splits)
    have "spg_sexpr_parse_uint64_span input (nd_span nd) = Inr m" using number_shown [OF k(2)] m(1) by blast
    then show ?thesis using 2 m assms(3) k(1) unfolding shown_def text_fields_def by (simp add: store_field_def Let_def)
  next
    case 3
    then obtain m where m: "number_named s = Some m" "\<not> m > 10000" "v' = v\<lparr>fv_confidence := m\<rparr>"
      using assms(2) by (auto split: option.splits if_splits)
    have "spg_sexpr_parse_uint64_span input (nd_span nd) = Inr m" using number_shown [OF k(2)] m(1) by blast
    then show ?thesis using 3 m assms(3) k(1) unfolding shown_def text_fields_def by (simp add: store_field_def Let_def)
  next
    case 4
    then obtain x where x: "(if s = ''true'' then Some True else if s = ''false'' then Some False else None) = Some x"
      "v' = v\<lparr>fv_network := x\<rparr>" using assms(2) by (auto split: if_splits)
    then have "parse_bool_symbol input (nd_span nd) = Some x" using bool_shown [OF k(2)] by simp
    then show ?thesis using 4 x(2) assms(3) k(1) unfolding shown_def text_fields_def by (simp add: store_field_def Let_def)
  next
    case 5
    then obtain x where x: "value_named s = Some x" "v' = v\<lparr>fv_value := Some x\<rparr>" using assms(2) by auto
    then have "device_value_of input nd = Some x" using value_shown [OF assms(1)] by simp
    then show ?thesis using 5 x assms(3) k(1) unfolding shown_def text_fields_def by (simp add: store_field_def Let_def)
  qed
qed

lemma store_shown:
  assumes "reads input (snd fd) nd" "view_step fd v = Some v'" "shown input r v"
  shows "\<exists>r'. store_field input (field_named (fst fd)) nd r = Inr r' \<and> shown input r' v'"
proof -
  obtain n l where fd: "fd = (n, l)" by fastforce
  show ?thesis using assms store_quoted [of input _ nd n v v' r] store_symbol [of input _ nd n v v' r]
    unfolding fd by (cases l) simp_all
qed

section \<open>Names and literals\<close>

lemma field_names [simp]:
  "field_named ''kind'' = FIELD_KIND" "field_named ''capability'' = FIELD_CAPABILITY" "field_named ''cost'' = FIELD_COST"
  "field_named ''uses_network'' = FIELD_USES_NETWORK" "field_named ''confidence_bp'' = FIELD_CONFIDENCE_BP"
  "field_named ''reason'' = FIELD_REASON" "field_named ''command'' = FIELD_COMMAND" "field_named ''target'' = FIELD_TARGET"
  "field_named ''slug'' = FIELD_SLUG" "field_named ''description'' = FIELD_DESCRIPTION" "field_named ''body'' = FIELD_BODY"
  "field_named ''value'' = FIELD_VALUE"
  by (simp_all add: field_named.simps)

lemma symbolic_names [simp]:
  "symbolic ''kind''" "symbolic ''capability''" "symbolic ''cost''" "symbolic ''uses_network''" "symbolic ''confidence_bp''"
  "symbolic ''reason''" "symbolic ''command''" "symbolic ''target''" "symbolic ''slug''" "symbolic ''description''"
  "symbolic ''body''" "symbolic ''value''" "symbolic ''1''" "symbolic ''5000''" "symbolic ''true''" "symbolic ''false''"
  by (simp_all add: symbolic_def valid_symbol_char_def)

lemma symbolic_kind [simp]: "symbolic (spg_action_kind_to_string k)"
  by (cases k) (simp_all add: symbolic_def valid_symbol_char_def)

lemma kind_named_string [simp]: "kind_named (spg_action_kind_to_string k) = Some k"
  by (cases k) (simp_all add: kind_named_def)

lemma literal_numbers [simp]: "number_named ''1'' = Some 1" "number_named ''5000'' = Some 5000"
  by (code_simp, code_simp)

section \<open>The whole form\<close>

text \<open>The loop over the fields simulates the fold of their meanings.\<close>

fun view_fold :: "form_field list \<Rightarrow> form_view \<Rightarrow> form_view option" where
  "view_fold [] v = Some v"
| "view_fold (f # fs) v = (case view_step f v of None \<Rightarrow> None | Some v' \<Rightarrow> view_fold fs v')"

lemma view_step_known: "view_step fd v = Some v' \<Longrightarrow> field_named (fst fd) \<noteq> FIELD_UNKNOWN"
proof (cases fd)
  case (Pair n l)
  then show "view_step fd v = Some v' \<Longrightarrow> field_named (fst fd) \<noteq> FIELD_UNKNOWN" by (cases l) (auto simp: Let_def)
qed

lemma field_loop_shown:
  assumes "forest_ok nodes"
  shows "list_all2 (field_at input nodes) is fs \<Longrightarrow> distinct (map (field_named \<circ> fst) fs @ seen) \<Longrightarrow>
    view_fold fs v = Some v' \<Longrightarrow> shown input r v \<Longrightarrow>
    \<exists>r'. field_loop input nodes is (r, seen) = Inr (r', rev (map (field_named \<circ> fst) fs) @ seen) \<and> shown input r' v'"
proof (induction "is" fs arbitrary: r v seen rule: list_all2_induct)
  case Nil
  then show ?case by simp
next
  case (Cons i "is" f fs)
  obtain v1 where v1: "view_step f v = Some v1" "view_fold fs v1 = Some v'"
    using Cons.prems(2) by (auto split: option.splits)
  obtain r1 where "field_step input nodes i (r, seen) = Inr (r1, field_named (fst f) # seen)" "shown input r1 v1"
    using field_step_at [OF assms Cons.hyps(1) refl view_step_known [OF v1(1)], of seen r "\<lambda>r'. shown input r' v1"]
      store_shown [OF _ v1(1) Cons.prems(3)] Cons.prems(1) by auto
  then show ?case using Cons.IH [of "field_named (fst f) # seen" v1 r1] v1(2) Cons.prems(1) by auto
qed

definition view_match :: "form_view \<Rightarrow> bool" where
  "view_match v \<longleftrightarrow>
     (fv_value v \<noteq> None \<longrightarrow> fv_kind v = ACTION_DEVICE_WRITE) \<and>
     (let has = (\<lambda>fid. fv_texts v fid \<noteq> None) in
      case fv_kind v of
        ACTION_SIMULATOR \<Rightarrow> \<not> fv_network v \<and> \<not> has FIELD_COMMAND
      | ACTION_LOCAL_SHELL \<Rightarrow> \<not> fv_network v \<and> has FIELD_COMMAND \<and> \<not> has FIELD_TARGET
      | ACTION_SSH_AUTH_PROBE \<Rightarrow> fv_network v \<and> \<not> has FIELD_COMMAND \<and> has FIELD_TARGET
      | ACTION_MEMORY_SAVE \<Rightarrow> \<not> fv_network v \<and> \<not> has FIELD_COMMAND \<and> \<not> has FIELD_TARGET \<and> has FIELD_SLUG \<and>
          has FIELD_DESCRIPTION \<and> has FIELD_BODY
      | ACTION_FINISH \<Rightarrow> \<not> has FIELD_COMMAND \<and> \<not> has FIELD_TARGET \<and> \<not> has FIELD_SLUG \<and> \<not> has FIELD_DESCRIPTION \<and>
          \<not> has FIELD_BODY
      | ACTION_DEVICE_WRITE \<Rightarrow> \<not> fv_network v \<and> \<not> has FIELD_COMMAND \<and> has FIELD_TARGET \<and> fv_value v \<noteq> None \<and>
          \<not> has FIELD_SLUG \<and> \<not> has FIELD_DESCRIPTION \<and> \<not> has FIELD_BODY
      | k \<Rightarrow> \<not> fv_network v \<and> \<not> has FIELD_COMMAND \<and>
          (if k \<in> {ACTION_MACHINE_PAUSE, ACTION_MACHINE_RESUME} then has FIELD_TARGET \<and> \<not> has FIELD_SLUG
           else \<not> has FIELD_TARGET \<and> has FIELD_SLUG) \<and> \<not> has FIELD_DESCRIPTION \<and> \<not> has FIELD_BODY)"

lemma match_shown: "shown input r v \<Longrightarrow> view_match v \<Longrightarrow> kind_fields_match (with_action r)"
  by (cases "fv_kind v") (simp_all add: shown_def view_match_def kind_fields_match_def with_action_def Let_def)


lemma shown_with_action: "shown input ((with_action r)\<lparr>rm_state := a, rm_reject_reason := b\<rparr>) v = shown input r v"
  by (simp add: shown_def with_action_def text_fields_def)

lemma shown_start: "shown input (rejected REJECT_SCHEMA) empty_view"
  by (simp add: shown_def rejected_def empty_view_def text_fields_def)

definition required_ids :: "action_kind \<Rightarrow> field_id list" where
  "required_ids k = (if k = ACTION_FINISH then [FIELD_KIND, FIELD_REASON]
     else [FIELD_KIND, FIELD_CAPABILITY, FIELD_COST, FIELD_USES_NETWORK, FIELD_CONFIDENCE_BP, FIELD_REASON])"

definition complete_form :: "form_field list \<Rightarrow> form_view \<Rightarrow> bool" where
  "complete_form fs v \<longleftrightarrow> list_all field_ok fs \<and> distinct (map (field_named \<circ> fst) fs) \<and>
     view_fold fs empty_view = Some v \<and> set (required_ids (fv_kind v)) \<subseteq> set (map (field_named \<circ> fst) fs) \<and> view_match v"

lemma form_accepted:
  assumes "form_at input nodes ''recommend'' fs" "complete_form fs v"
  shows "\<exists>r e. parse_form input nodes = (SPG_OK, r, e) \<and> rm_state r = RECOMMENDATION_VALID \<and> shown input r v"
proof -
  have f: "forest_ok nodes" "0 < length nodes" "kids nodes 0 = 1 # field_heads 2 fs"
    "reads input (LX_symbol ''recommend'') (nodes ! 1)" "list_all2 (field_at input nodes) (field_heads 2 fs) fs"
    using assms(1) by (auto simp: form_at_def)
  note D = forest_okD [OF f(1)]
  have c: "spg_sexpr_first_child nodes 0 = 1"
    using D(5) [OF f(2)] f(3) by (simp add: spg_sexpr_first_child_def head_or_invalid_def)
  have i: "(1 :: nat) \<noteq> INVALID_INDEX" by (simp add: INVALID_INDEX_def)
  have rf: "recommend_form input nodes"
    using f(4) c i span_eq_shows [of input "nd_span (nodes ! 1)" "''recommend''"]
    by (simp add: recommend_form_def reads_def)
  have ff: "form_fields nodes = field_heads 2 fs"
    using siblings_second [OF f(1,2)] f(3) c i
    by (simp add: form_fields_def spg_sexpr_second_child_def spg_sexpr_first_child_def)
  obtain r where r: "field_loop input nodes (field_heads 2 fs) (rejected REJECT_SCHEMA, []) =
      Inr (r, rev (map (field_named \<circ> fst) fs))" "shown input r v"
    using field_loop_shown [OF f(1,5), of "[]" empty_view v "rejected REJECT_SCHEMA"] shown_start assms(2)
    by (auto simp: complete_form_def)
  have k: "rm_action_kind r = fv_kind v" using r(2) by (simp add: shown_def)
  have q: "required_fields_seen (rev (map (field_named \<circ> fst) fs)) (rm_action_kind r)"
    using assms(2) unfolding k complete_form_def required_fields_seen_def required_ids_def
    by (auto split: if_splits)
  have m: "kind_fields_match (with_action r)" using match_shown [OF r(2)] assms(2) by (simp add: complete_form_def)
  show ?thesis using rf ff r q m by (simp add: parse_form_def Let_def shown_with_action)
qed

lemma form_recommended:
  assumes "complete_form fs v"
    and "tokenize_loop input tcap 0 1 1 [] = tokenize_loop input tcap i line col []"
    and "drop i input = lexemes_text (form_lexemes ''recommend'' fs)" "i \<le> length input"
    and "3 + 4 * length fs \<le> tcap" "2 + 3 * length fs \<le> ncap" "ncap \<le> INVALID_INDEX"
  shows "\<exists>r e. spg_recommendation_parse input tcap ncap = (SPG_OK, r, e) \<and> rm_state r = RECOMMENDATION_VALID \<and> shown input r v"
proof -
  have s: "symbolic ''recommend''" by (simp add: symbolic_def valid_symbol_char_def)
  have ok: "list_all field_ok fs" using assms(1) by (simp add: complete_form_def)
  have t: "tcap \<noteq> 0" "ncap \<noteq> 0" using assms(5,6) by auto
  obtain toks nodes e where p: "spg_sexpr_parse_text input tcap ncap = (SPG_OK, toks, nodes, e)"
    "form_at input nodes ''recommend'' fs"
    by (rule form_parses [OF s ok assms(2) t(1) assms(3-7)])
  have n: "length nodes \<noteq> 0" "\<not> length nodes > 4294967295" "nd_kind (nodes ! 0) = NODE_LIST" "nd_parent (nodes ! 0) = INVALID_INDEX"
    using p(2) assms(6,7) by (auto simp: form_at_def forest_ok_def INVALID_INDEX_def)
  show ?thesis using form_accepted [OF p(2) assms(1)] p(1) n t by (simp add: spg_recommendation_parse_def)
qed

end
