(* ===== verification/RecommendationProps.thy ===== *)
theory RecommendationProps
  imports FormRecommend
begin

text \<open>
  What a valid recommendation guarantees to the gate and the executors behind it. The field
  loop keeps \<open>rec_inv\<close>: the presence flags record exactly the fields seen, values are within
  their bounds, and every span kept lies in the text.
\<close>

section \<open>The invariant of the field loop\<close>

definition spans_in :: "string \<Rightarrow> recommendation \<Rightarrow> bool" where
  "spans_in input r \<longleftrightarrow> list_all (spg_sexpr_span_valid (length input))
     [rm_kind r, rm_capability r, rm_command r, rm_target r, rm_reason r, rm_slug r,
      rm_description r, rm_body r]"

definition flags_ok :: "recommendation \<Rightarrow> field_id list \<Rightarrow> bool" where
  "flags_ok r seen \<longleftrightarrow>
     (rm_has_command r \<longleftrightarrow> FIELD_COMMAND \<in> set seen) \<and> (rm_has_target r \<longleftrightarrow> FIELD_TARGET \<in> set seen) \<and>
     (rm_has_slug r \<longleftrightarrow> FIELD_SLUG \<in> set seen) \<and> (rm_has_description r \<longleftrightarrow> FIELD_DESCRIPTION \<in> set seen) \<and>
     (rm_has_body r \<longleftrightarrow> FIELD_BODY \<in> set seen) \<and> (rm_has_device_value r \<longleftrightarrow> FIELD_VALUE \<in> set seen)"

definition values_ok :: "recommendation \<Rightarrow> field_id list \<Rightarrow> bool" where
  "values_ok r seen \<longleftrightarrow>
     (FIELD_COST \<in> set seen \<longrightarrow> rq_cost (rm_action r) \<noteq> 0) \<and> rm_confidence_bp r \<le> 10000 \<and>
     - 9223372036854775807 \<le> rm_device_value r \<and> rm_device_value r \<le> 9223372036854775807"

lemma device_value_bound:
  assumes "device_value_of input nd = Some v"
  shows "- 9223372036854775807 \<le> v \<and> v \<le> 9223372036854775807"
proof -
  obtain m :: u64 where m: "m \<le> INT64_MAX" "v = uint m \<or> v = - uint m"
    using assms by (auto simp: device_value_of_def Let_def not_less split: if_splits sum.splits)
  have "uint m \<le> 9223372036854775807"
    using m(1) by (simp add: word_le_def INT64_MAX_def)
  moreover have "0 \<le> uint m" by simp
  ultimately show ?thesis using m(2) by linarith
qed

lemma store_field_flags:
  "store_field input fid v r = Inr r' \<Longrightarrow> flags_ok r seen \<Longrightarrow> flags_ok r' (fid # seen)"
  by (cases fid)
     (clarsimp simp: store_field_def Let_def flags_ok_def
       split: option.split_asm if_split_asm sum.split_asm)+

lemma store_field_values:
  "store_field input fid v r = Inr r' \<Longrightarrow> values_ok r seen \<Longrightarrow> values_ok r' (fid # seen)"
  by (cases fid)
     (auto simp: store_field_def Let_def values_ok_def not_less split: if_splits option.splits sum.splits
       dest: device_value_bound)

lemma store_field_spans:
  assumes "store_field input fid v r = Inr r'" "spans_in input r"
    and "nd_kind v \<noteq> NODE_LIST \<longrightarrow> spg_sexpr_span_valid (length input) (nd_span v)"
  shows "spans_in input r'"
proof -
  have pay: "spg_sexpr_string_payload_span v = Some sp \<Longrightarrow> spg_sexpr_span_valid (length input) sp" for sp
    using payload_valid assms(3) by (metis node_kind.distinct(3) option.distinct(1) spg_sexpr_string_payload_span_def)
  show ?thesis
    using assms pay
    by (cases fid) (auto simp: store_field_def Let_def spans_in_def split: if_splits option.splits sum.splits)
qed

definition field_ids :: "string \<Rightarrow> sexpr_node list \<Rightarrow> nat list \<Rightarrow> field_id list" where
  "field_ids input nodes fs =
     map (\<lambda>f. field_for_name input (nd_span (nodes ! spg_sexpr_first_child nodes f))) fs"

definition rec_inv :: "string \<Rightarrow> recommendation \<times> field_id list \<Rightarrow> bool" where
  "rec_inv input st \<longleftrightarrow> flags_ok (fst st) (snd st) \<and> values_ok (fst st) (snd st) \<and> spans_in input (fst st) \<and>
     distinct (snd st) \<and> FIELD_UNKNOWN \<notin> set (snd st)"

lemma field_step_ok:
  assumes "field_step input nodes f st = Inr st'" "rec_inv input st"
    and "forest_ok nodes" "atoms_ok (spg_sexpr_span_valid (length input)) nodes" "f < length nodes"
  shows "rec_inv input st' \<and> snd st' = hd (field_ids input nodes [f]) # snd st"
proof -
  obtain r seen where st: "st = (r, seen)" by fastforce
  let ?v = "spg_sexpr_second_child nodes f"
  let ?fid = "field_for_name input (nd_span (nodes ! spg_sexpr_first_child nodes f))"
  obtain r' where step: "?v \<noteq> INVALID_INDEX" "?fid \<noteq> FIELD_UNKNOWN" "?fid \<notin> set seen"
      "store_field input ?fid (nodes ! ?v) r = Inr r'" "st' = (r', ?fid # seen)"
    using assms(1) by (auto simp: field_step_def st Let_def split: if_splits sum.splits)
  have "nd_kind (nodes ! ?v) \<noteq> NODE_LIST \<longrightarrow> spg_sexpr_span_valid (length input) (nd_span (nodes ! ?v))"
    using second_child_range [OF assms(3,5) step(1)] assms(4) by (simp add: atoms_ok_def)
  from store_field_spans [OF step(4) _ this] store_field_flags [OF step(4)] store_field_values [OF step(4)]
    assms(2) step st show ?thesis
    by (simp add: rec_inv_def field_ids_def)
qed

lemma field_loop_ok:
  assumes "field_loop input nodes fs st = Inr st'" "rec_inv input st"
    and "forest_ok nodes" "atoms_ok (spg_sexpr_span_valid (length input)) nodes" "\<forall>f \<in> set fs. f < length nodes"
  shows "rec_inv input st' \<and> snd st' = rev (field_ids input nodes fs) @ snd st"
  using assms(1,2,5)
proof (induction fs arbitrary: st)
  case (Cons f fs)
  obtain st1 where 1: "field_step input nodes f st = Inr st1" "field_loop input nodes fs st1 = Inr st'"
    using Cons.prems(1) by (auto split: sum.splits)
  have "rec_inv input st1 \<and> snd st1 = hd (field_ids input nodes [f]) # snd st"
    using field_step_ok [OF 1(1) Cons.prems(2) assms(3,4)] Cons.prems(3) by simp
  with Cons.IH [OF 1(2)] Cons.prems(3) show ?case by (simp add: field_ids_def)
qed (simp add: field_ids_def)

lemma rec_inv_start: "rec_inv input (rejected REJECT_SCHEMA, [])"
  by (simp add: rec_inv_def flags_ok_def values_ok_def spans_in_def rejected_def spg_sexpr_span_valid_def)

text \<open>A valid result comes from a form whose loop ended in an invariant state.\<close>

lemma parse_form_reject:
  "parse_form input nodes = (st, r, e) \<Longrightarrow> rm_state r = RECOMMENDATION_VALID \<Longrightarrow>
   \<exists>r0 seen. recommend_form input nodes \<and>
     field_loop input nodes (form_fields nodes) (rejected REJECT_SCHEMA, []) = Inr (r0, seen) \<and>
     required_fields_seen seen (rm_action_kind r0) \<and> kind_fields_match (with_action r0) \<and>
     r = (with_action r0)\<lparr>rm_state := RECOMMENDATION_VALID, rm_reject_reason := REJECT_NONE\<rparr>"
  by (auto simp: parse_form_def Let_def reject_def rejected_def split: if_splits sum.splits)

lemma required_rev: "required_fields_seen (rev xs) k = required_fields_seen xs k"
  by (simp add: required_fields_seen_def)

lemma parse_valid:
  assumes "spg_recommendation_parse input tcap ncap = (st, r, e)" "rm_state r = RECOMMENDATION_VALID"
    and "ncap \<le> INVALID_INDEX"
  obtains toks nodes err r0 where
    "spg_sexpr_parse_text input tcap ncap = (SPG_OK, toks, nodes, err)"
    "rec_inv input (r0, rev (field_ids input nodes (form_fields nodes)))"
    "required_fields_seen (field_ids input nodes (form_fields nodes)) (rm_action_kind r0)"
    "kind_fields_match (with_action r0)"
    "r = (with_action r0)\<lparr>rm_state := RECOMMENDATION_VALID, rm_reject_reason := REJECT_NONE\<rparr>"
proof -
  obtain s toks nodes err where p: "spg_sexpr_parse_text input tcap ncap = (s, toks, nodes, err)"
    by (metis prod_cases4)
  have s: "s = SPG_OK" "nodes \<noteq> []" "parse_form input nodes = (st, r, e)"
    using assms(1,2) p by (auto simp: spg_recommendation_parse_def reject_def rejected_def split: if_splits)
  note p = p [unfolded s(1)]
  obtain r0 seen where f: "recommend_form input nodes"
     "field_loop input nodes (form_fields nodes) (rejected REJECT_SCHEMA, []) = Inr (r0, seen)"
     "required_fields_seen seen (rm_action_kind r0)" "kind_fields_match (with_action r0)"
     "r = (with_action r0)\<lparr>rm_state := RECOMMENDATION_VALID, rm_reject_reason := REJECT_NONE\<rparr>"
    using parse_form_reject [OF s(3) assms(2)] by blast
  note forest = parse_text_forest [OF assms(3) p]
  have "\<forall>f \<in> set (form_fields nodes). f < length nodes"
    using siblings_range [OF forest, of 0] s(2) f(1) by (auto simp: form_fields_def recommend_form_def Let_def)
  from field_loop_ok [OF f(2) rec_inv_start forest parse_text_atoms [OF assms(3) p] this]
  have "rec_inv input (r0, seen)" "seen = rev (field_ids input nodes (form_fields nodes))" by (elim conjE; simp)+
  with that [OF p, of r0] f(3,4,5) show thesis unfolding required_rev by (simp add: required_rev)
qed


section \<open>The contract of a valid recommendation\<close>

text \<open>
  The table of the kinds: the parts an action of the kind must carry, and those it may. A part is
  named by its field.
\<close>

fun carries :: "recommendation \<Rightarrow> field_id \<Rightarrow> bool" where
  "carries r FIELD_COMMAND = rm_has_command r"
| "carries r FIELD_TARGET = rm_has_target r"
| "carries r FIELD_SLUG = rm_has_slug r"
| "carries r FIELD_DESCRIPTION = rm_has_description r"
| "carries r FIELD_BODY = rm_has_body r"
| "carries r FIELD_VALUE = rm_has_device_value r"
| "carries r _ = False"

fun required_parts :: "action_kind \<Rightarrow> field_id list" where
  "required_parts ACTION_LOCAL_SHELL = [FIELD_COMMAND]"
| "required_parts ACTION_SSH_AUTH_PROBE = [FIELD_TARGET]"
| "required_parts ACTION_SIMULATOR = []"
| "required_parts ACTION_MEMORY_SAVE = [FIELD_SLUG, FIELD_DESCRIPTION, FIELD_BODY]"
| "required_parts ACTION_MEMORY_DELETE = [FIELD_SLUG]"
| "required_parts ACTION_MEMORY_READ = [FIELD_SLUG]"
| "required_parts ACTION_MACHINE_PAUSE = [FIELD_TARGET]"
| "required_parts ACTION_MACHINE_RESUME = [FIELD_TARGET]"
| "required_parts ACTION_DEVICE_WRITE = [FIELD_TARGET, FIELD_VALUE]"
| "required_parts ACTION_FINISH = []"

fun ignored_parts :: "action_kind \<Rightarrow> field_id list" where
  "ignored_parts ACTION_LOCAL_SHELL = [FIELD_SLUG, FIELD_DESCRIPTION, FIELD_BODY]"
| "ignored_parts ACTION_SSH_AUTH_PROBE = [FIELD_SLUG, FIELD_DESCRIPTION, FIELD_BODY]"
| "ignored_parts ACTION_SIMULATOR = [FIELD_TARGET, FIELD_SLUG, FIELD_DESCRIPTION, FIELD_BODY]"
| "ignored_parts _ = []"

lemma match_required: "kind_fields_match r \<Longrightarrow> list_all (carries r) (required_parts (rm_action_kind r))"
  by (cases "rm_action_kind r") (simp_all add: kind_fields_match_def split: if_splits)

lemma match_permitted:
  "kind_fields_match r \<Longrightarrow> carries r fid \<Longrightarrow> fid \<in> set (required_parts (rm_action_kind r) @ ignored_parts (rm_action_kind r))"
  by (cases fid; cases "rm_action_kind r") (simp_all add: kind_fields_match_def split: if_split_asm)

lemma match_network:
  "kind_fields_match r \<Longrightarrow> rm_action_kind r \<noteq> ACTION_FINISH \<Longrightarrow>
   rq_uses_network (rm_action r) \<longleftrightarrow> rm_action_kind r = ACTION_SSH_AUTH_PROBE"
  by (cases "rm_action_kind r") (simp_all add: kind_fields_match_def split: if_splits)

lemmas kind_fields_match_contract = match_required match_permitted match_network

text \<open>
  C22: What reaches the gate as a valid recommendation is typed by its kind: it carries every part
  its kind needs (a command, a target, a slug, a description and a body, a value) and no part
  of another kind, except that shell and probe actions may carry the memory fields and a simulator
  action those and a target, which their executors ignore. Every action but \<open>finish\<close> (which never
  reaches the gate and may leave them out) has a positive cost and uses the network exactly if it is
  the SSH probe. The confidence is at most 10000 basis points, the device value an \<open>int64_t\<close> whose
  negation is one too; the request repeats the parsed kind and capability, and every span kept lies
  inside the model's output.
\<close>

theorem recommendation_valid_contract:
  assumes "spg_recommendation_parse input tcap ncap = (st, r, e)" "rm_state r = RECOMMENDATION_VALID"
    and "ncap \<le> INVALID_INDEX"
  shows "list_all (carries r) (required_parts (rm_action_kind r)) \<and>
    {fid. carries r fid} \<subseteq> set (required_parts (rm_action_kind r) @ ignored_parts (rm_action_kind r)) \<and>
    (rm_action_kind r \<noteq> ACTION_FINISH \<longrightarrow>
       rq_cost (rm_action r) \<noteq> 0 \<and>
       (rq_uses_network (rm_action r) \<longleftrightarrow> rm_action_kind r = ACTION_SSH_AUTH_PROBE)) \<and>
    rm_confidence_bp r \<le> 10000 \<and>
    - 9223372036854775807 \<le> rm_device_value r \<and> rm_device_value r \<le> 9223372036854775807 \<and>
    rq_kind (rm_action r) = rm_action_kind r \<and> rq_capability (rm_action r) = rm_capability r \<and>
    spans_in input r"
proof (rule parse_valid [OF assms], goal_cases)
  case (1 toks nodes err r0)
  have r: "r = (with_action r0)\<lparr>rm_state := RECOMMENDATION_VALID, rm_reject_reason := REJECT_NONE\<rparr>"
    by (rule 1(5))
  have v: "values_ok r0 (rev (field_ids input nodes (form_fields nodes)))" "spans_in input r0"
    using 1(2) by (simp_all add: rec_inv_def)
  have cost: "rm_action_kind r0 \<noteq> ACTION_FINISH \<Longrightarrow> rq_cost (rm_action r0) \<noteq> 0"
    using 1(3) v(1) by (simp add: values_ok_def required_fields_seen_def)
  have sel: "rm_action_kind r = rm_action_kind r0" "rm_action_kind (with_action r0) = rm_action_kind r0"
    "rq_cost (rm_action r) = rq_cost (rm_action r0)" "rm_confidence_bp r = rm_confidence_bp r0"
    "rm_device_value r = rm_device_value r0" "rq_kind (rm_action r) = rm_action_kind r0"
    "rq_capability (rm_action r) = rm_capability r" "rq_uses_network (rm_action r) = rq_uses_network (rm_action (with_action r0))"
    "spans_in input r = spans_in input r0"
    by (simp_all add: r with_action_def spans_in_def)
  have c: "carries r = carries (with_action r0)"
  proof
    show "carries r fid = carries (with_action r0) fid" for fid by (cases fid) (simp_all add: r)
  qed
  note kf = kind_fields_match_contract [OF 1(4), unfolded sel(2)]
  show ?case
    unfolding sel c using kf(1,2,3) cost v by (auto simp: values_ok_def)
qed

text \<open>
  A valid recommendation has one field of each name: the names of its fields are known and
  pairwise distinct, and every field its kind requires is among them.
\<close>

theorem recommendation_valid_fields:
  assumes "spg_recommendation_parse input tcap ncap = (st, r, e)" "rm_state r = RECOMMENDATION_VALID"
    and "ncap \<le> INVALID_INDEX"
  shows "\<exists>toks nodes err. spg_sexpr_parse_text input tcap ncap = (SPG_OK, toks, nodes, err) \<and>
    distinct (field_ids input nodes (form_fields nodes)) \<and>
    FIELD_UNKNOWN \<notin> set (field_ids input nodes (form_fields nodes)) \<and>
    required_fields_seen (field_ids input nodes (form_fields nodes)) (rm_action_kind r)"
proof (rule parse_valid [OF assms], goal_cases)
  case (1 toks nodes err r0)
  then show ?case by (auto simp: rec_inv_def with_action_def)
qed

text \<open>
  A rejection leaves nothing behind: unless the result is valid, the whole recommendation is
  the zeroed record with the reason in it (no kind, no command, no target, cost 0), whatever the
  fields read before the fault held; only exhausted or missing buffers are reported as a failing
  status, everything the model could have written is a rejection with status OK.
\<close>

theorem recommendation_rejected_is_empty:
  "case spg_recommendation_parse input tcap ncap of (st, r, e) \<Rightarrow>
     (rm_state r = RECOMMENDATION_VALID \<and> st = SPG_OK) \<or>
     (\<exists>reason. reason \<noteq> REJECT_NONE \<and> r = rejected reason \<and> re_reject_reason e = reason \<and>
        (st = SPG_OK \<or> st = SPG_E_LIMIT \<or> (st = SPG_E_INVALID_ARG \<and> (tcap = 0 \<or> ncap = 0))))"
proof -
  have step: "field_step input nodes f s = Inl (reason, n) \<Longrightarrow> reason \<noteq> REJECT_NONE" for nodes f s reason n
    by (cases "field_for_name input (nd_span (nodes ! spg_sexpr_first_child nodes f))")
       (auto simp: field_step_def store_field_def Let_def split: if_splits sum.splits prod.splits option.splits)
  have loop: "field_loop input nodes fs s = Inl (reason, n) \<Longrightarrow> reason \<noteq> REJECT_NONE" for nodes fs s reason n
    by (induction fs arbitrary: s) (auto split: sum.splits dest: step)
  have form: "case parse_form input nodes of (st, r, e) \<Rightarrow> st = SPG_OK \<and> (rm_state r = RECOMMENDATION_VALID \<or>
     (\<exists>reason. reason \<noteq> REJECT_NONE \<and> r = rejected reason \<and> re_reject_reason e = reason))" for nodes
    using loop by (auto simp: parse_form_def Let_def reject_def split: sum.splits prod.splits)
  show ?thesis
  proof (cases "tcap = 0 \<or> ncap = 0")
    case True
    then show ?thesis by (simp add: spg_recommendation_parse_def reject_def)
  next
    case False
    obtain s toks nodes err where p: "spg_sexpr_parse_text input tcap ncap = (s, toks, nodes, err)"
      by (metis prod_cases4)
    show ?thesis using False p form [of nodes]
      by (auto simp: spg_recommendation_parse_def reject_def split: prod.splits)
  qed
qed


section \<open>A concrete recommendation\<close>

definition finish_text :: string where
  "finish_text = ''(recommend(kind finish)(reason '' @ [ch_quote, ch_quote] @ ''))''"

definition finish_result :: parse_outcome where
  "finish_result = spg_recommendation_parse finish_text 16 16"

lemma finish_valid: "rm_state (fst (snd finish_result)) = RECOMMENDATION_VALID"
  by code_simp

lemma finish_eq: "spg_recommendation_parse finish_text 16 16 =
    (fst finish_result, fst (snd finish_result), snd (snd finish_result))"
  by (simp add: finish_result_def)

lemma cap_16: "(16 :: nat) \<le> INVALID_INDEX"
  by (simp add: INVALID_INDEX_def)

text \<open>A request to save a memory, with every part.\<close>

definition save_fields :: "form_field list" where
  "save_fields = [(''kind'', LX_symbol ''memory_save''), (''capability'', LX_quoted ''mem''), (''cost'', LX_symbol ''1''),
     (''uses_network'', LX_symbol ''false''), (''confidence_bp'', LX_symbol ''5000''), (''slug'', LX_quoted ''a''),
     (''description'', LX_quoted ''d''), (''body'', LX_quoted ''b''), (''reason'', LX_quoted ''r'')]"

definition save_text :: string where
  "save_text = lexemes_text (form_lexemes ''recommend'' save_fields)"

definition save_view :: form_view where
  "save_view = \<lparr>fv_kind = ACTION_MEMORY_SAVE, fv_cost = 1, fv_network = False, fv_confidence = 5000, fv_value = None,
     fv_texts = [FIELD_CAPABILITY \<mapsto> ''mem'', FIELD_SLUG \<mapsto> ''a'', FIELD_DESCRIPTION \<mapsto> ''d'', FIELD_BODY \<mapsto> ''b'',
       FIELD_REASON \<mapsto> ''r'']\<rparr>"

lemma save_complete: "complete_form save_fields save_view"
proof -
  have k: "kind_named ''memory_save'' = Some ACTION_MEMORY_SAVE" "symbolic ''memory_save''"
    by (simp_all add: kind_named_def symbolic_def valid_symbol_char_def)
  show ?thesis
    by (simp add: complete_form_def save_fields_def save_view_def field_ok_def clean_def k Let_def required_ids_def
        view_match_def empty_view_def)
qed

lemma save_parsed: "\<exists>r e. spg_recommendation_parse save_text 64 64 = (SPG_OK, r, e) \<and> rm_state r = RECOMMENDATION_VALID \<and>
    shown save_text r save_view"
  by (rule form_recommended [OF save_complete refl]) (simp_all add: save_text_def save_fields_def INVALID_INDEX_def)

lemma cap_64: "(64 :: nat) \<le> INVALID_INDEX"
  by (simp add: INVALID_INDEX_def)

theorem recommendation_valid_contract_witness:
  "\<exists>r e. spg_recommendation_parse save_text 64 64 = (SPG_OK, r, e) \<and> rm_action_kind r = ACTION_MEMORY_SAVE \<and>
     list_all (carries r) [FIELD_SLUG, FIELD_DESCRIPTION, FIELD_BODY] \<and> \<not> carries r FIELD_COMMAND \<and>
     rq_cost (rm_action r) \<noteq> 0 \<and> \<not> rq_uses_network (rm_action r) \<and> spans_in save_text r"
proof -
  obtain r e where p: "spg_recommendation_parse save_text 64 64 = (SPG_OK, r, e)" "rm_state r = RECOMMENDATION_VALID"
    "shown save_text r save_view" using save_parsed by blast
  have k: "rm_action_kind r = ACTION_MEMORY_SAVE" using p(3) by (simp add: shown_def save_view_def)
  note c = recommendation_valid_contract [OF p(1,2) cap_64, unfolded k]
  then have "{fid. carries r fid} \<subseteq> {FIELD_SLUG, FIELD_DESCRIPTION, FIELD_BODY}" by simp
  then have "\<not> carries r FIELD_COMMAND" by blast
  then show ?thesis using p(1) k c by auto
qed

theorem recommendation_valid_fields_witness:
  "\<exists>toks nodes err. spg_sexpr_parse_text finish_text 16 16 = (SPG_OK, toks, nodes, err) \<and>
     distinct (field_ids finish_text nodes (form_fields nodes))"
  using recommendation_valid_fields [OF finish_eq finish_valid cap_16] by blast

end
