(* ===== verification/DeviceExec.thy ===== *)
theory DeviceExec
  imports DeviceProps RecommendationProps Journal
begin

text \<open>
  The executor of device writes and the tick-level watchdog service of
  \<open>src/executor/device_executor.c\<close>. Both act on the attached device, the log of programs run
  and the journal; each call takes the journal's write outcome as a parameter. A device or a
  journal that is not attached is \<open>None\<close>.
\<close>

datatype device_outcome =
  OUTCOME_NOT_EXECUTED | OUTCOME_WRITTEN | OUTCOME_NO_DEVICE | OUTCOME_UNKNOWN_CHANNEL
| OUTCOME_REFUSED | OUTCOME_WATCHDOG_EXPIRED | OUTCOME_IO_FAILED

record device_exec_config =
  dx_actor_id :: u64
  dx_timestamp_ns :: u64
  dx_parent_sequence :: u64
  dx_write_journal :: bool
  dx_execution_enabled :: bool

record device_exec_result =
  dr_outcome :: device_outcome
  dr_channel :: string
  dr_value :: i64
  dr_write_status :: spg_status
  dr_safe_state_driven :: bool
  dr_safe_state_status :: spg_status
  dr_sequence :: u64

text \<open>What the executor works on: the machine, the programs run so far, the journal.\<close>

record plant_state =
  pl_device :: "device option"
  pl_log :: "spawn list"
  pl_journal :: "journal_writer option"

fun spg_device_outcome_to_string :: "device_outcome \<Rightarrow> string" where
  "spg_device_outcome_to_string OUTCOME_WRITTEN = ''written''"
| "spg_device_outcome_to_string OUTCOME_NO_DEVICE = ''no_device''"
| "spg_device_outcome_to_string OUTCOME_UNKNOWN_CHANNEL = ''unknown_channel''"
| "spg_device_outcome_to_string OUTCOME_REFUSED = ''refused''"
| "spg_device_outcome_to_string OUTCOME_WATCHDOG_EXPIRED = ''watchdog_expired''"
| "spg_device_outcome_to_string OUTCOME_IO_FAILED = ''io_failed''"
| "spg_device_outcome_to_string OUTCOME_NOT_EXECUTED = ''not_executed''"

definition empty_result :: device_exec_result where
  "empty_result = \<lparr>dr_outcome = OUTCOME_NOT_EXECUTED, dr_channel = [], dr_value = 0,
     dr_write_status = SPG_OK, dr_safe_state_driven = False, dr_safe_state_status = SPG_OK,
     dr_sequence = 0\<rparr>"

definition copy_span :: "string \<Rightarrow> text_span \<Rightarrow> nat \<Rightarrow> string option" where
  "copy_span output sp cap =
     (if sp_length sp = 0 \<or> sp_length sp + 1 > cap \<or> sp_offset sp + sp_length sp > length output
      then None else Some (c_string (span_text output sp)))"

definition classify_write :: "spg_status \<Rightarrow> device_outcome" where
  "classify_write st =
     (if st = SPG_OK then OUTCOME_WRITTEN
      else if st = SPG_E_LIMIT \<or> st = SPG_E_POLICY_DENIED \<or> st = SPG_E_OVERFLOW then OUTCOME_REFUSED
      else OUTCOME_IO_FAILED)"

text \<open>The decision what to do with the machine, in the order of the code's checks.\<close>

definition drive_device ::
  "os_env \<Rightarrow> device_exec_config \<Rightarrow> plant_state \<Rightarrow> device_exec_result \<Rightarrow> plant_state \<times> device_exec_result"
where
  "drive_device env cfg pl out =
     (case pl_device pl of
        None \<Rightarrow> (pl, out\<lparr>dr_outcome := OUTCOME_NO_DEVICE\<rparr>)
      | Some dev \<Rightarrow>
          if spg_device_find dev (dr_channel out) = None
            then (pl, out\<lparr>dr_outcome := OUTCOME_UNKNOWN_CHANNEL\<rparr>)
          else (case spg_device_watchdog_check dev (dx_timestamp_ns cfg) of
            (dev1, wd) \<Rightarrow>
              if wd = WATCHDOG_EXPIRED then
                (case spg_device_safe_state env (pl_log pl) dev1 of
                   (st, dev2, log2) \<Rightarrow>
                     (pl\<lparr>pl_device := Some dev2, pl_log := log2\<rparr>,
                      out\<lparr>dr_outcome := OUTCOME_WATCHDOG_EXPIRED, dr_safe_state_status := st,
                          dr_safe_state_driven := True\<rparr>))
              else if \<not> dx_execution_enabled cfg then
                (pl\<lparr>pl_device := Some dev1\<rparr>, out\<lparr>dr_outcome := OUTCOME_NOT_EXECUTED\<rparr>)
              else
                (case spg_device_write env (pl_log pl) dev1 (dr_channel out) (dr_value out) of
                   (st, dev2, log2) \<Rightarrow>
                     (pl\<lparr>pl_device := Some dev2, pl_log := log2\<rparr>,
                      out\<lparr>dr_outcome := classify_write st, dr_write_status := st\<rparr>))))"

definition device_record :: "device_exec_result \<Rightarrow> string" where
  "device_record out =
     ''(device (channel '' @ [ch_quote] @ dr_channel out @ [ch_quote] @ '') (value '' @
     i64_to_dec (dr_value out) @ '') (outcome '' @ spg_device_outcome_to_string (dr_outcome out) @
     '') (executed '' @ (if dr_outcome out = OUTCOME_WRITTEN then ''true'' else ''false'') @ ''))''"

definition journal_device ::
  "device_exec_config \<Rightarrow> journal_writer \<Rightarrow> device_exec_result \<Rightarrow> write_outcome \<Rightarrow>
     spg_status \<times> journal_writer \<times> u64" where
  "journal_device cfg jw out io =
     (if length (device_record out) \<ge> 512 then (SPG_E_LIMIT, jw, 0)
      else (case spg_journal_writer_append jw (dx_timestamp_ns cfg) (dx_parent_sequence cfg) EVENT_ACTION
                   (if dr_outcome out = OUTCOME_WRITTEN then SPG_OK else SPG_E_INVALID_STATE)
                   (bytes_of (device_record out)) io of
              (st, jw', sq) \<Rightarrow> (st, jw', case sq of None \<Rightarrow> 0 | Some n \<Rightarrow> n)))"

definition spg_device_executor_step ::
  "os_env \<Rightarrow> device_exec_config \<Rightarrow> plant_state \<Rightarrow> string \<Rightarrow> recommendation \<Rightarrow> policy_decision \<Rightarrow>
     write_outcome \<Rightarrow> spg_status \<times> plant_state \<times> device_exec_result" where
  "spg_device_executor_step env cfg pl output rec decision io =
     (if rm_action_kind rec \<noteq> ACTION_DEVICE_WRITE \<or> dc_kind decision \<noteq> DECISION_ALLOW
      then (SPG_OK, pl, empty_result)
      else (case copy_span output (rm_target rec) DEVICE_NAME_CAP of
        None \<Rightarrow> (SPG_E_SCHEMA, pl, empty_result)
      | Some name \<Rightarrow>
          (case drive_device env cfg pl
                  (empty_result\<lparr>dr_channel := name, dr_value := rm_device_value rec\<rparr>) of
             (pl1, out) \<Rightarrow>
               (case pl_journal pl1 of
                  None \<Rightarrow> (SPG_OK, pl1, out)
                | Some jw \<Rightarrow>
                    if \<not> dx_write_journal cfg then (SPG_OK, pl1, out)
                    else (case journal_device cfg jw out io of
                            (st, jw', sq) \<Rightarrow>
                              (st, pl1\<lparr>pl_journal := Some jw'\<rparr>, out\<lparr>dr_sequence := sq\<rparr>))))))"

definition watchdog_record :: "spg_status \<Rightarrow> string" where
  "watchdog_record safe =
     ''(device_watchdog (outcome expired) (safe_state '' @
       (if safe = SPG_OK then ''ok'' else ''failed'') @ ''))''"

text \<open>The result and the sequence number written, 0 when nothing was.\<close>

definition spg_device_watchdog_service ::
  "os_env \<Rightarrow> device_exec_config \<Rightarrow> plant_state \<Rightarrow> write_outcome \<Rightarrow>
     spg_status \<times> plant_state \<times> device_exec_result \<times> u64" where
  "spg_device_watchdog_service env cfg pl io =
     (case pl_device pl of
        None \<Rightarrow> (SPG_OK, pl, empty_result, 0)
      | Some dev \<Rightarrow>
          (case spg_device_watchdog_check dev (dx_timestamp_ns cfg) of
            (dev1, wd) \<Rightarrow>
              if wd = WATCHDOG_OK then
                (SPG_OK, pl\<lparr>pl_device := Some (dev1\<lparr>dv_watchdog_tripped := False\<rparr>)\<rparr>, empty_result, 0)
              else if wd \<noteq> WATCHDOG_EXPIRED \<or> dv_watchdog_tripped dev1 then
                (SPG_OK, pl\<lparr>pl_device := Some dev1\<rparr>, empty_result, 0)
              else
                (case spg_device_safe_state env (pl_log pl) (dev1\<lparr>dv_watchdog_tripped := True\<rparr>) of
                   (safe, dev2, log2) \<Rightarrow>
                     let pl1 = pl\<lparr>pl_device := Some dev2, pl_log := log2\<rparr>;
                         out = empty_result\<lparr>dr_outcome := OUTCOME_WATCHDOG_EXPIRED,
                                 dr_safe_state_driven := True, dr_safe_state_status := safe\<rparr>
                     in (case pl_journal pl of
                           None \<Rightarrow> (SPG_OK, pl1, out, 0)
                         | Some jw \<Rightarrow>
                             if \<not> dx_write_journal cfg then (SPG_OK, pl1, out, 0)
                             else if length (watchdog_record safe) \<ge> 128 then (SPG_E_LIMIT, pl1, out, 0)
                             else (case spg_journal_writer_append jw (dx_timestamp_ns cfg)
                                          (dx_parent_sequence cfg) EVENT_ACTION SPG_E_INVALID_STATE
                                          (bytes_of (watchdog_record safe)) io of
                                     (st, jw', sq) \<Rightarrow>
                                       (st, pl1\<lparr>pl_journal := Some jw'\<rparr>, out,
                                        case sq of None \<Rightarrow> 0 | Some n \<Rightarrow> n))))))"

end
