(* ===== verification/DeviceExecProps.thy ===== *)
theory DeviceExecProps
  imports DeviceExec
begin

text \<open>
  Mediation at the machine: what the executor and the watchdog service can have run, and when.
\<close>

lemma spawn_of_check:
  "spawn_of (fst (spg_device_watchdog_check dev now)) p a = spawn_of dev p a"
  by (simp add: spawn_of_def device_timeout_ms_def spg_device_watchdog_check_def fold_contact_def Let_def)

lemma safe_spawn_check: "safe_spawn (fst (spg_device_watchdog_check dev now)) = safe_spawn dev"
  by (simp add: fun_eq_iff safe_spawn_def spawn_of_check)

lemma tripped_check: "dv_watchdog_tripped (fst (spg_device_watchdog_check dev now)) = dv_watchdog_tripped dev"
  by (simp add: spg_device_watchdog_check_def fold_contact_def Let_def)

lemma safe_spawn_tripped: "safe_spawn (dev\<lparr>dv_watchdog_tripped := b\<rparr>) = safe_spawn dev"
  by (simp add: fun_eq_iff safe_spawn_def spawn_of_def device_timeout_ms_def)

lemma table_tripped [simp, frame]: "table (dev\<lparr>dv_watchdog_tripped := b\<rparr>) = table dev"
  by (simp add: table_def)

lemma find_Some_table:
  assumes "spg_device_find dev name = Some i"
  shows "i < length (table dev)" "ch_name (table dev ! i) = name"
  using find_bound [OF assms] by simp_all

definition safe_spawns :: "device \<Rightarrow> spawn list" where
  "safe_spawns dev = map (safe_spawn dev) (filter ch_writable (table dev))"

lemma safe_state_log:
  assumes "table_ok (table dev)" "spg_device_safe_state env log dev = (st, dev', log')"
  shows "log' = log @ safe_spawns dev \<and> table dev' = table dev"
  using safe_state_loop_spec(1,2) [OF assms(2) [unfolded spg_device_safe_state_def] assms(1)]
  by (simp add: safe_spawns_def)

lemma write_tripped: "spg_device_write env log dev name v = (st, dev', log') \<Longrightarrow>
    dv_watchdog_tripped dev' = dv_watchdog_tripped dev"
  by (erule write_cases) (auto simp: touch_def)

lemma safe_state_loop_tripped:
  "safe_state_loop env log dev i k first = (st, dev', log') \<Longrightarrow>
   dv_watchdog_tripped dev' = dv_watchdog_tripped dev"
  by (induction k arbitrary: log dev i first)
     (auto simp: Let_def write_tripped split: if_splits prod.splits)

lemma safe_state_tripped: "spg_device_safe_state env log dev = (st, dev', log') \<Longrightarrow>
    dv_watchdog_tripped dev' = dv_watchdog_tripped dev"
  unfolding spg_device_safe_state_def by (rule safe_state_loop_tripped)

text \<open>The channel a write went to, its value in range.\<close>

definition wrote_to :: "device \<Rightarrow> string \<Rightarrow> int \<Rightarrow> spawn list \<Rightarrow> bool" where
  "wrote_to dev name v new \<longleftrightarrow>
     (\<exists>c \<in> set (table dev). ch_name c = name \<and> ch_writable c \<and> ch_min c \<le> v \<and> v \<le> ch_max c \<and>
        new = [spawn_of dev (ch_program c) (Some (i64_to_dec v))])"

lemma drive_cases:
  assumes "drive_device env cfg pl out0 = (pl', out)" "pl_device pl = Some dev" "table_ok (table dev)"
  obtains (idle) "pl_log pl' = pl_log pl" "dr_outcome out \<noteq> OUTCOME_WRITTEN"
  | (safe) "snd (spg_device_watchdog_check dev (dx_timestamp_ns cfg)) = WATCHDOG_EXPIRED"
      "pl_log pl' = pl_log pl @ safe_spawns dev" "dr_outcome out = OUTCOME_WATCHDOG_EXPIRED"
  | (wrote) new where "snd (spg_device_watchdog_check dev (dx_timestamp_ns cfg)) \<noteq> WATCHDOG_EXPIRED"
      "dx_execution_enabled cfg" "wrote_to dev (dr_channel out0) (dr_value out0) new"
      "pl_log pl' = pl_log pl @ new"
proof -
  obtain dev1 wd where c: "spg_device_watchdog_check dev (dx_timestamp_ns cfg) = (dev1, wd)" by fastforce
  have t: "table dev1 = table dev" using table_check [of dev "dx_timestamp_ns cfg"] c by simp
  have sp: "spawn_of dev1 = spawn_of dev" "safe_spawn dev1 = safe_spawn dev"
    using spawn_of_check [of dev "dx_timestamp_ns cfg"] safe_spawn_check [of dev "dx_timestamp_ns cfg"] c
    by (simp_all add: fun_eq_iff)
  show thesis
  proof (cases "spg_device_find dev (dr_channel out0) = None")
    case True
    then show thesis using assms(1,2) idle by (auto simp: drive_device_def)
  next
    case found: False
    show thesis
    proof (cases "wd = WATCHDOG_EXPIRED")
      case True
      obtain st dev2 log2 where s: "spg_device_safe_state env (pl_log pl) dev1 = (st, dev2, log2)"
        by (metis prod_cases3)
      have "log2 = pl_log pl @ safe_spawns dev"
        using safe_state_log [OF _ s] assms(3) t sp(2) by (simp add: safe_spawns_def)
      then show thesis using assms(1,2) found True c s safe by (auto simp: drive_device_def)
    next
      case not_expired: False
      show thesis
      proof (cases "dx_execution_enabled cfg")
        case False
        then show thesis using assms(1,2) found not_expired c idle by (auto simp: drive_device_def)
      next
        case True
        obtain st dev2 log2 where w: "spg_device_write env (pl_log pl) dev1 (dr_channel out0) (dr_value out0) = (st, dev2, log2)"
          by (metis prod_cases3)
        have pl': "pl_log pl' = log2" "dr_outcome out = classify_write st"
          using assms(1,2) found not_expired c True w by (auto simp: drive_device_def)
        from w show thesis
        proof (cases rule: write_cases)
          case refused
          then show thesis using idle pl' by (simp add: classify_write_def)
        next
          case (ran i)
          have "table dev1 ! i \<in> set (table dev1)" using ran(2) by (intro nth_mem) simp
          moreover have "table dev ! i = static (dv_channels dev1 ! i)" using nth_table [OF ran(2)] t by simp
          ultimately have "wrote_to dev (dr_channel out0) (dr_value out0)
              [spawn_of dev1 (ch_program (dv_channels dev1 ! i)) (Some (i64_to_dec (dr_value out0)))]"
            unfolding wrote_to_def using ran(2-5) find_Some_table(2) [OF ran(1)] sp(1) t
            by (intro bexI [of _ "table dev1 ! i"]) simp_all
          then show thesis using wrote not_expired c True pl' ran(6) by simp
        qed
      qed
    qed
  qed
qed

text \<open>
  C18: Complete mediation at the machine. The executor runs a program only for an allowed device
  write; and then either the watchdog has expired and exactly the writable channels are driven
  to their safe values, or execution is enabled, contact is fresh, and exactly one program runs:
  that of the channel the recommendation names, which is writable, with the recommended value,
  which lies in its range. An outcome \<open>written\<close> is only reported for the latter.
\<close>

theorem device_executor_mediated:
  assumes "pl_device pl = Some dev" "table_ok (table dev)"
    and "spg_device_executor_step env cfg pl output rec decision io = (st, pl', out)"
  shows "(pl_log pl' = pl_log pl \<and> dr_outcome out \<noteq> OUTCOME_WRITTEN) \<or>
    (rm_action_kind rec = ACTION_DEVICE_WRITE \<and> dc_kind decision = DECISION_ALLOW \<and>
     (\<exists>name. copy_span output (rm_target rec) DEVICE_NAME_CAP = Some name \<and>
       (if snd (spg_device_watchdog_check dev (dx_timestamp_ns cfg)) = WATCHDOG_EXPIRED
        then pl_log pl' = pl_log pl @ safe_spawns dev \<and> dr_outcome out = OUTCOME_WATCHDOG_EXPIRED
        else dx_execution_enabled cfg \<and>
          (\<exists>new. pl_log pl' = pl_log pl @ new \<and> wrote_to dev name (rm_device_value rec) new))))"
proof (cases "rm_action_kind rec \<noteq> ACTION_DEVICE_WRITE \<or> dc_kind decision \<noteq> DECISION_ALLOW \<or>
    copy_span output (rm_target rec) DEVICE_NAME_CAP = None")
  case True
  then show ?thesis using assms(3)
    by (auto simp: spg_device_executor_step_def empty_result_def split: if_splits option.splits)
next
  case False
  then obtain name where n: "copy_span output (rm_target rec) DEVICE_NAME_CAP = Some name"
    and k: "rm_action_kind rec = ACTION_DEVICE_WRITE" "dc_kind decision = DECISION_ALLOW" by auto
  obtain pl1 out1 where d: "drive_device env cfg pl
      (empty_result\<lparr>dr_channel := name, dr_value := rm_device_value rec\<rparr>) = (pl1, out1)" by fastforce
  have same: "pl_log pl' = pl_log pl1" "dr_outcome out = dr_outcome out1"
    using assms(3) n k d
    by (auto simp: spg_device_executor_step_def split: if_splits option.splits prod.splits)
  from d assms(1,2) show ?thesis
    by (cases rule: drive_cases) (use n k same in auto)
qed

text \<open>
  Contact with one channel does not re-arm the latch while another is overdue: with a deadline set, a
  sensor that has just answered and a writable channel past its deadline, the service leaves a set
  latch set. The headers say that any successful contact re-arms it.
\<close>

lemma sensor_contact_keeps_latch:
  assumes "pl_device pl = Some dev" "dv_watchdog_tripped dev" "dv_contact_pending dev" "dv_watchdog_timeout dev \<noteq> 0"
    and "channel_overdue (dv_channels (fold_contact dev (dx_timestamp_ns cfg))) (dx_timestamp_ns cfg) (dv_watchdog_timeout dev)"
  shows "case spg_device_watchdog_service env cfg pl io of (st, pl', out, sq) \<Rightarrow>
    (\<exists>dev'. pl_device pl' = Some dev' \<and> dv_watchdog_tripped dev' \<and> \<not> dv_contact_pending dev') \<and> pl_log pl' = pl_log pl"
  using assms by (simp add: spg_device_watchdog_service_def spg_device_watchdog_check_def fold_contact_def Let_def)

text \<open>
  Every deadline is met: contact since the last check counts as contact now, the last contact at all and
  the last one with each writable channel are at most a timeout ago; a clock that has gone back counts
  as met.
\<close>

definition within_timeout :: "u64 \<Rightarrow> u64 \<Rightarrow> u64 \<Rightarrow> bool" where
  "within_timeout now contact timeout \<longleftrightarrow> now < contact \<or> now - contact \<le> timeout"

definition deadlines_met :: "device \<Rightarrow> u64 \<Rightarrow> bool" where
  "deadlines_met dev now \<longleftrightarrow>
     (let contact = (if dv_contact_pending dev then now else dv_last_contact dev);
          fed = (\<lambda>c. if ch_contact_pending c then now else ch_last_contact c)
      in now < contact \<or>
         (now - contact \<le> dv_watchdog_timeout dev \<and>
          (\<forall>c \<in> set (dv_channels dev). ch_writable c \<longrightarrow> within_timeout now (fed c) (dv_watchdog_timeout dev))))"

lemma channel_overdue_fed:
  "channel_overdue chs now timeout \<longleftrightarrow> (\<exists>c \<in> set chs. ch_writable c \<and> \<not> within_timeout now (ch_last_contact c) timeout)"
  by (induction chs) (auto simp: within_timeout_def)

lemma check_outcome:
  "snd (spg_device_watchdog_check dev now) =
     (if dv_watchdog_timeout dev = 0 then WATCHDOG_DISABLED else if deadlines_met dev now then WATCHDOG_OK else WATCHDOG_EXPIRED)"
  by (auto simp: spg_device_watchdog_check_def fold_contact_def Let_def deadlines_met_def channel_overdue_fed
      within_timeout_def not_less split: if_splits)

text \<open>
  C26: The watchdog service acts once per expiry. With a deadline set, it drives the safe state (every
  writable channel, and nothing else) exactly when a deadline is missed and the latch is not set, and
  then sets the latch; while a deadline is missed and the latch is set it runs no program and the
  latch stays, whichever other channels answer; the latch is cleared exactly when the service
  finds every deadline met. Without a deadline it does nothing.
\<close>

theorem watchdog_service_latch:
  assumes "pl_device pl = Some dev" "table_ok (table dev)"
    and "spg_device_watchdog_service env cfg pl io = (st, pl', out, sq)"
  shows "\<exists>dev'. pl_device pl' = Some dev' \<and> table dev' = table dev \<and>
    (if dv_watchdog_timeout dev = 0 then pl_log pl' = pl_log pl \<and> dv_watchdog_tripped dev' = dv_watchdog_tripped dev
     else if deadlines_met dev (dx_timestamp_ns cfg) then pl_log pl' = pl_log pl \<and> \<not> dv_watchdog_tripped dev'
     else dv_watchdog_tripped dev' \<and>
       pl_log pl' = pl_log pl @ (if dv_watchdog_tripped dev then [] else safe_spawns dev) \<and>
       (dr_outcome out = OUTCOME_WATCHDOG_EXPIRED \<longleftrightarrow> \<not> dv_watchdog_tripped dev))"
proof -
  obtain dev1 wd where c: "spg_device_watchdog_check dev (dx_timestamp_ns cfg) = (dev1, wd)" by fastforce
  have t: "table dev1 = table dev" using table_check [of dev "dx_timestamp_ns cfg"] c by simp
  have tr: "dv_watchdog_tripped dev1 = dv_watchdog_tripped dev"
    using tripped_check [of dev "dx_timestamp_ns cfg"] c by simp
  have wd: "wd = (if dv_watchdog_timeout dev = 0 then WATCHDOG_DISABLED
      else if deadlines_met dev (dx_timestamp_ns cfg) then WATCHDOG_OK else WATCHDOG_EXPIRED)"
    using check_outcome [of dev "dx_timestamp_ns cfg"] c by simp
  show ?thesis
  proof (cases "wd = WATCHDOG_EXPIRED \<and> \<not> dv_watchdog_tripped dev")
    case False
    then show ?thesis using assms(1,3) c t tr
      by (auto simp: spg_device_watchdog_service_def empty_result_def wd split: if_splits)
  next
    case True
    let ?dev1 = "dev1\<lparr>dv_watchdog_tripped := True\<rparr>"
    obtain safe dev2 log2 where s: "spg_device_safe_state env (pl_log pl) ?dev1 = (safe, dev2, log2)"
      by (metis prod_cases3)
    have "safe_spawns ?dev1 = safe_spawns dev"
      using safe_spawn_check [of dev "dx_timestamp_ns cfg"] c t by (simp add: safe_spawns_def safe_spawn_tripped)
    then have l: "log2 = pl_log pl @ safe_spawns dev" "table dev2 = table dev"
      using safe_state_log [OF _ s] assms(2) t by simp_all
    have tr2: "dv_watchdog_tripped dev2" using safe_state_tripped [OF s] by simp
    have "pl_device pl' = Some dev2 \<and> pl_log pl' = log2 \<and> dr_outcome out = OUTCOME_WATCHDOG_EXPIRED"
      using assms(1,3) c True tr s
      by (auto simp: spg_device_watchdog_service_def Let_def split: if_splits option.splits prod.splits)
    then show ?thesis using l tr2 True wd by (auto split: if_splits)
  qed
qed


section \<open>Concrete runs\<close>

definition heater_rec :: recommendation where
  "heater_rec = (rejected REJECT_NONE)\<lparr>rm_action_kind := ACTION_DEVICE_WRITE, rm_target := mk_span 0 1,
     rm_device_value := 40\<rparr>"

definition plant_cfg :: device_exec_config where
  "plant_cfg = \<lparr>dx_actor_id = 0, dx_timestamp_ns = 9, dx_parent_sequence = 0, dx_write_journal = False,
     dx_execution_enabled = True\<rparr>"

definition plant_world :: plant_state where
  "plant_world = \<lparr>pl_device = Some plant, pl_log = [], pl_journal = None\<rparr>"

lemma heater_step:
  "\<exists>st pl' out. spg_device_executor_step (prints ''40'') plant_cfg plant_world ''h'' heater_rec (allow 0)
      \<lparr>io_header = 0, io_payload = 0, io_flush = False\<rparr> = (st, pl', out)"
  by (metis prod_cases3)

theorem device_executor_mediated_witness:
  "case spg_device_executor_step (prints ''40'') plant_cfg plant_world ''h'' heater_rec (allow 0)
      \<lparr>io_header = 0, io_payload = 0, io_flush = False\<rparr> of (st, pl', out) \<Rightarrow>
    pl_log pl' = [] \<or> pl_log pl' = [spawn_of plant ''p'' (Some (i64_to_dec 40))]"
proof -
  obtain st pl' out where s: "spg_device_executor_step (prints ''40'') plant_cfg plant_world ''h'' heater_rec (allow 0)
      \<lparr>io_header = 0, io_payload = 0, io_flush = False\<rparr> = (st, pl', out)" by (metis prod_cases3)
  have d: "pl_device plant_world = Some plant" "pl_log plant_world = []" by (simp_all add: plant_world_def)
  have w: "snd (spg_device_watchdog_check plant 9) = WATCHDOG_DISABLED"
    by (simp add: plant_defs spg_device_watchdog_check_def fold_contact_def Let_def)
  have r: "wrote_to plant name 40 new \<Longrightarrow> new = [spawn_of plant ''p'' (Some (i64_to_dec 40))]" for name new
    by (auto simp: wrote_to_def table_def plant_def heater_def static_def zero_channel_def spg_device_init_def)
  from device_executor_mediated [OF d(1) plant_ok s]
  have "pl_log pl' = [] \<or> pl_log pl' = [spawn_of plant ''p'' (Some (i64_to_dec 40))]"
    using r by (auto simp: d(2) w plant_cfg_def heater_rec_def)
  then show ?thesis by (simp add: s)
qed

theorem watchdog_service_latch_witness:
  "case spg_device_watchdog_service (prints ''0'') plant_cfg
      (plant_world\<lparr>pl_device := Some (spg_device_arm_watchdog plant 3 1)\<rparr>)
      \<lparr>io_header = 0, io_payload = 0, io_flush = False\<rparr> of (st, pl', out, sq) \<Rightarrow>
    dr_outcome out = OUTCOME_WATCHDOG_EXPIRED"
proof -
  let ?dev = "spg_device_arm_watchdog plant 3 1"
  obtain st pl' out sq where s: "spg_device_watchdog_service (prints ''0'') plant_cfg (plant_world\<lparr>pl_device := Some ?dev\<rparr>)
      \<lparr>io_header = 0, io_payload = 0, io_flush = False\<rparr> = (st, pl', out, sq)" by (metis prod_cases4)
  have "pl_device (plant_world\<lparr>pl_device := Some ?dev\<rparr>) = Some ?dev" "table_ok (table ?dev)"
    using plant_ok by simp_all
  note l = watchdog_service_latch [OF this s]
  have "dv_watchdog_timeout ?dev \<noteq> 0" "\<not> deadlines_met ?dev 9" "\<not> dv_watchdog_tripped ?dev"
    by (simp_all add: plant_defs spg_device_arm_watchdog_def deadlines_met_def Let_def)
  with l have "dr_outcome out = OUTCOME_WATCHDOG_EXPIRED" by (auto simp: plant_cfg_def)
  then show ?thesis by (simp add: s)
qed

end
