(* ===== verification/Graph.thy ===== *)
theory Graph
  imports Sexpr Complex_Main
begin

text \<open>
  The reasoning graph of \<open>src/graph/graph.c\<close>: bounded arrays of nodes and edges named by
  generational ids, scores, flags, and the reachability search that keeps new edges from closing
  a cycle. The arrays are lists whose length is the code's count. A \<open>float\<close> is only ever compared
  with 0 and 1, so it is a finite real or not finite. Enumerations have no values outside their
  constructors here, so the kind checks are the constant truth.
\<close>

definition GRAPH_MAX_NODES :: nat where "GRAPH_MAX_NODES = 512"
definition GRAPH_MAX_EDGES :: nat where "GRAPH_MAX_EDGES = 2048"

datatype float32 = Finite real | NonFinite

datatype graph_node_kind =
  NODE_OBSERVATION | NODE_HYPOTHESIS | NODE_GOAL | NODE_PLAN | NODE_ACTION | NODE_RESULT
| NODE_MEMORY | NODE_POLICY_DECISION | NODE_EVAL_MARK

datatype graph_edge_kind =
  EDGE_DERIVED_FROM | EDGE_SUPPORTS | EDGE_CONTRADICTS | EDGE_REFINES | EDGE_PROPOSES_ACTION
| EDGE_ACTION_RESULT | EDGE_BLOCKED_BY_POLICY | EDGE_UPDATES_MEMORY

record handle =
  hd_index :: nat
  hd_generation :: nat

record graph_scores =
  sc_confidence :: float32
  sc_utility :: float32
  sc_risk :: float32
  sc_novelty :: float32
  sc_cost_estimate :: float32

record graph_node =
  gn_id :: handle
  gn_kind :: graph_node_kind
  gn_flags :: u32
  gn_actor_id :: u32
  gn_payload :: text_span
  gn_scores :: graph_scores
  gn_live :: bool

record graph_edge =
  ge_id :: handle
  ge_kind :: graph_edge_kind
  ge_from :: handle
  ge_to :: handle
  ge_live :: bool

record graph =
  gr_nodes :: "graph_node list"
  gr_edges :: "graph_edge list"

definition NODE_OPEN :: u32 where "NODE_OPEN = 1"
definition NODE_CLOSED :: u32 where "NODE_CLOSED = 2"
definition NODE_BLOCKED :: u32 where "NODE_BLOCKED = 4"

fun score_valid :: "float32 \<Rightarrow> bool" where
  "score_valid (Finite v) = (0 \<le> v \<and> v \<le> 1)"
| "score_valid NonFinite = False"

definition scores_valid :: "graph_scores \<Rightarrow> bool" where
  "scores_valid s \<longleftrightarrow> score_valid (sc_confidence s) \<and> score_valid (sc_utility s) \<and>
     score_valid (sc_risk s) \<and> score_valid (sc_novelty s) \<and> score_valid (sc_cost_estimate s)"

definition zero_scores :: graph_scores where
  "zero_scores = \<lparr>sc_confidence = Finite 0, sc_utility = Finite 0, sc_risk = Finite 0,
     sc_novelty = Finite 0, sc_cost_estimate = Finite 0\<rparr>"

definition mk_handle :: "nat \<Rightarrow> nat \<Rightarrow> handle" where
  "mk_handle i gen = \<lparr>hd_index = i, hd_generation = gen\<rparr>"

definition spg_graph_init :: graph where
  "spg_graph_init = \<lparr>gr_nodes = [], gr_edges = []\<rparr>"

definition spg_graph_node_valid :: "graph \<Rightarrow> handle \<Rightarrow> bool" where
  "spg_graph_node_valid gr node \<longleftrightarrow>
     hd_index node < length (gr_nodes gr) \<and>
     (let slot = gr_nodes gr ! hd_index node
      in gn_live slot \<and> hd_generation (gn_id slot) = hd_generation node)"

definition spg_graph_edge_valid :: "graph \<Rightarrow> handle \<Rightarrow> bool" where
  "spg_graph_edge_valid gr edge \<longleftrightarrow>
     hd_index edge < length (gr_edges gr) \<and>
     (let slot = gr_edges gr ! hd_index edge
      in ge_live slot \<and> hd_generation (ge_id slot) = hd_generation edge)"

definition spg_graph_add_node ::
  "graph \<Rightarrow> graph_node_kind \<Rightarrow> u32 \<Rightarrow> text_span \<Rightarrow> spg_status \<times> graph \<times> handle option" where
  "spg_graph_add_node gr kind actor_id payload =
     (if length (gr_nodes gr) \<ge> GRAPH_MAX_NODES then (SPG_E_LIMIT, gr, None)
      else let nid = mk_handle (length (gr_nodes gr)) 1
           in (SPG_OK,
               gr\<lparr>gr_nodes := gr_nodes gr @ [\<lparr>gn_id = nid, gn_kind = kind, gn_flags = NODE_OPEN,
                    gn_actor_id = actor_id, gn_payload = payload, gn_scores = zero_scores,
                    gn_live = True\<rparr>]\<rparr>, Some nid))"

section \<open>The search\<close>

text \<open>
  The scan of the edge array for one node: successors not seen yet are pushed, and a full stack
  ends the whole search (\<open>None\<close>). The top of the stack is the head of the list.
\<close>

fun push_succs :: "nat \<Rightarrow> nat \<Rightarrow> nat list \<Rightarrow> graph_edge list \<Rightarrow> nat list \<Rightarrow> nat list option" where
  "push_succs n node seen [] stack = Some stack"
| "push_succs n node seen (e # es) stack =
     (if \<not> ge_live e \<or> hd_index (ge_from e) \<noteq> node then push_succs n node seen es stack
      else if hd_index (ge_to e) \<ge> n \<or> hd_index (ge_to e) \<in> set seen then push_succs n node seen es stack
      else if length stack \<ge> GRAPH_MAX_NODES then None
      else push_succs n node seen es (hd_index (ge_to e) # stack))"

lemma push_succs_set: "push_succs n node seen es stack = Some st \<Longrightarrow>
    set st \<subseteq> {..<n} \<union> set stack"
  by (induction es arbitrary: stack) (fastforce split: if_splits)+

function reaches_loop ::
  "graph_edge list \<Rightarrow> nat \<Rightarrow> nat \<Rightarrow> nat list \<Rightarrow> nat list \<Rightarrow> bool" where
  "reaches_loop es n target seen [] = False"
| "reaches_loop es n target seen (node # rest) =
     (if node = target then True
      else if node \<in> set seen then reaches_loop es n target seen rest
      else (case push_succs n node (node # seen) es rest of
              None \<Rightarrow> False
            | Some st \<Rightarrow> reaches_loop es n target (node # seen) st))"
  by pat_completeness auto
termination
proof (relation "(\<lambda>(es, n, target, seen, stack). card (({..<n} \<union> set stack) - set seen)) <*mlex*>
    measure (\<lambda>(es, n, target, seen, stack). length stack)", goal_cases)
  case 1
  show ?case by (simp add: wf_mlex)
next
  case (2 es n target seen node rest)
  have "({..<n} \<union> set rest) - set seen \<subseteq> ({..<n} \<union> set (node # rest)) - set seen" by auto
  then have "card (({..<n} \<union> set rest) - set seen) \<le> card (({..<n} \<union> set (node # rest)) - set seen)"
    by (rule card_mono [rotated]) simp
  then show ?case by (intro mlex_leq) simp_all
next
  case (3 es n target seen node rest st)
  have "({..<n} \<union> set st) - set (node # seen) \<subset> ({..<n} \<union> set (node # rest)) - set seen"
    using push_succs_set [OF 3(3)] 3(2) by auto
  then have "card (({..<n} \<union> set st) - set (node # seen)) < card (({..<n} \<union> set (node # rest)) - set seen)"
    by (rule psubset_card_mono [rotated]) simp
  then show ?case by (intro mlex_less) simp
qed

definition reaches :: "graph \<Rightarrow> nat \<Rightarrow> nat \<Rightarrow> bool" where
  "reaches gr start target = reaches_loop (gr_edges gr) (length (gr_nodes gr)) target [] [start]"

definition spg_graph_add_edge ::
  "graph \<Rightarrow> graph_edge_kind \<Rightarrow> handle \<Rightarrow> handle \<Rightarrow> spg_status \<times> graph \<times> handle option" where
  "spg_graph_add_edge gr kind from_id to_id =
     (if \<not> spg_graph_node_valid gr from_id \<or> \<not> spg_graph_node_valid gr to_id
        then (SPG_E_INVALID_ARG, gr, None)
      else if hd_index from_id = hd_index to_id \<or> reaches gr (hd_index to_id) (hd_index from_id)
        then (SPG_E_INVALID_STATE, gr, None)
      else if length (gr_edges gr) \<ge> GRAPH_MAX_EDGES then (SPG_E_LIMIT, gr, None)
      else let eid = mk_handle (length (gr_edges gr)) 1
           in (SPG_OK,
               gr\<lparr>gr_edges := gr_edges gr @ [\<lparr>ge_id = eid, ge_kind = kind, ge_from = from_id,
                    ge_to = to_id, ge_live = True\<rparr>]\<rparr>, Some eid))"

definition spg_graph_set_scores :: "graph \<Rightarrow> handle \<Rightarrow> graph_scores \<Rightarrow> spg_status \<times> graph" where
  "spg_graph_set_scores gr node scores =
     (if \<not> spg_graph_node_valid gr node \<or> \<not> scores_valid scores then (SPG_E_INVALID_ARG, gr)
      else (SPG_OK, gr\<lparr>gr_nodes := (gr_nodes gr)[hd_index node :=
              (gr_nodes gr ! hd_index node)\<lparr>gn_scores := scores\<rparr>]\<rparr>))"

unbundle bit_operations_syntax

definition spg_graph_set_flags :: "graph \<Rightarrow> handle \<Rightarrow> u32 \<Rightarrow> spg_status \<times> graph" where
  "spg_graph_set_flags gr node flags =
     (let known = NODE_OPEN OR NODE_CLOSED OR NODE_BLOCKED in
      if \<not> spg_graph_node_valid gr node \<or> flags AND NOT known \<noteq> 0 then (SPG_E_INVALID_ARG, gr)
      else if flags AND NODE_OPEN \<noteq> 0 \<and> flags AND NODE_CLOSED \<noteq> 0 then (SPG_E_INVALID_ARG, gr)
      else (SPG_OK, gr\<lparr>gr_nodes := (gr_nodes gr)[hd_index node :=
              (gr_nodes gr ! hd_index node)\<lparr>gn_flags := flags\<rparr>]\<rparr>))"

end
