(* ===== verification/GraphProps.thy ===== *)
theory GraphProps
  imports Graph
begin

text \<open>
  The reachability search and the acyclicity it is for. The search is exact, and the graph stays
  acyclic, as long as the edge array holds at most 512 edges; one edge more and the search can
  give up on a full stack and answer ``not reachable'', which lets a cycle in.
\<close>

section \<open>The edge relation\<close>

definition edge_rel :: "nat \<Rightarrow> graph_edge list \<Rightarrow> (nat \<times> nat) set" where
  "edge_rel n es = {(a, b). \<exists>e \<in> set es. ge_live e \<and> hd_index (ge_from e) = a \<and> hd_index (ge_to e) = b \<and> b < n}"

definition links :: "graph \<Rightarrow> (nat \<times> nat) set" where
  "links gr = edge_rel (length (gr_nodes gr)) (gr_edges gr)"

lemma push_succs_mono: "push_succs n node seen es stack = Some st \<Longrightarrow> set stack \<subseteq> set st"
  by (induction es arbitrary: stack) (fastforce split: if_splits)+

lemma push_succs_sound: "push_succs n node seen es stack = Some st \<Longrightarrow>
   b \<in> set st \<Longrightarrow> b \<in> set stack \<or> (node, b) \<in> edge_rel n es"
proof (induction es arbitrary: stack)
  case (Cons e es)
  have sub: "edge_rel n es \<subseteq> edge_rel n (e # es)" by (auto simp: edge_rel_def)
  show ?case
  proof (cases "ge_live e \<and> hd_index (ge_from e) = node \<and> hd_index (ge_to e) < n \<and> hd_index (ge_to e) \<notin> set seen")
    case True
    then have "push_succs n node seen es (hd_index (ge_to e) # stack) = Some st"
      using Cons.prems(1) by (auto split: if_splits)
    from Cons.IH [OF this Cons.prems(2)] True sub show ?thesis by (auto simp: edge_rel_def)
  next
    case False
    then have "push_succs n node seen es stack = Some st" using Cons.prems(1) by (auto split: if_splits)
    from Cons.IH [OF this Cons.prems(2)] sub show ?thesis by auto
  qed
qed simp

lemma push_succs_complete: "push_succs n node seen es stack = Some st \<Longrightarrow>
   (node, b) \<in> edge_rel n es \<Longrightarrow> b \<in> set seen \<union> set st"
proof (induction es arbitrary: stack)
  case (Cons e es)
  show ?case
  proof (cases "ge_live e \<and> hd_index (ge_from e) = node \<and> hd_index (ge_to e) < n \<and> hd_index (ge_to e) \<notin> set seen")
    case True
    then have p: "push_succs n node seen es (hd_index (ge_to e) # stack) = Some st"
      using Cons.prems(1) by (auto split: if_splits)
    show ?thesis using Cons.IH [OF p] push_succs_mono [OF p] Cons.prems(2) by (auto simp: edge_rel_def)
  next
    case False
    then have p: "push_succs n node seen es stack = Some st" using Cons.prems(1) by (auto split: if_splits)
    show ?thesis using Cons.IH [OF p] False Cons.prems(2) by (auto simp: edge_rel_def)
  qed
qed (simp add: edge_rel_def)

text \<open>Pushes are counted by the edges that leave the node.\<close>

definition out_count :: "nat list \<Rightarrow> graph_edge list \<Rightarrow> nat" where
  "out_count seen es = length (filter (\<lambda>e. hd_index (ge_from e) \<in> set seen) es)"

lemma push_succs_room:
  "length stack + length (filter (\<lambda>e. hd_index (ge_from e) = node) es) \<le> GRAPH_MAX_NODES \<Longrightarrow>
   \<exists>st. push_succs n node seen es stack = Some st \<and>
     length st \<le> length stack + length (filter (\<lambda>e. hd_index (ge_from e) = node) es)"
proof (induction es arbitrary: stack)
  case (Cons e es)
  show ?case
  proof (cases "ge_live e \<and> hd_index (ge_from e) = node \<and> hd_index (ge_to e) < n \<and> hd_index (ge_to e) \<notin> set seen")
    case True
    then have "length (hd_index (ge_to e) # stack) + length (filter (\<lambda>e. hd_index (ge_from e) = node) es) \<le> GRAPH_MAX_NODES"
      using Cons.prems by simp
    from Cons.IH [OF this] True Cons.prems show ?thesis by (auto simp: not_le)
  next
    case False
    have "length stack + length (filter (\<lambda>e. hd_index (ge_from e) = node) es) \<le> GRAPH_MAX_NODES"
      using Cons.prems by (simp split: if_splits)
    from Cons.IH [OF this] obtain st where "push_succs n node seen es stack = Some st"
      "length st \<le> length stack + length (filter (\<lambda>e. hd_index (ge_from e) = node) es)" by blast
    then show ?thesis using False by (auto simp: not_le)
  qed
qed simp

lemma out_count_new:
  "node \<notin> set seen \<Longrightarrow>
   out_count (node # seen) es = out_count seen es + length (filter (\<lambda>e. hd_index (ge_from e) = node) es)"
  by (induction es) (auto simp: out_count_def)

lemma out_count_le: "out_count seen es \<le> length es"
  by (simp add: out_count_def)

section \<open>The search is exact while its stack suffices\<close>

lemma reaches_loop_sound:
  "reaches_loop es n target seen stack \<Longrightarrow> \<exists>a \<in> set stack. (a, target) \<in> (edge_rel n es)\<^sup>*"
proof (induction es n target seen stack rule: reaches_loop.induct)
  case (2 es n target seen node rest)
  consider "node = target" | "node \<noteq> target" "node \<in> set seen" | "node \<noteq> target" "node \<notin> set seen" by blast
  then show ?case
  proof cases
    case 3
    then obtain st where st: "push_succs n node (node # seen) es rest = Some st"
        "reaches_loop es n target (node # seen) st" using 2(3) by (auto split: option.splits)
    from 2(2) [OF 3 st] obtain a where a: "a \<in> set st" "(a, target) \<in> (edge_rel n es)\<^sup>*" by blast
    show ?thesis using push_succs_sound [OF st(1) a(1)] a(2)
      by (auto intro: converse_rtrancl_into_rtrancl)
  qed (use 2 in auto)
qed simp

lemma reaches_loop_complete:
  "\<not> reaches_loop es n target seen stack \<Longrightarrow>
    length stack \<le> out_count seen es + (if seen = [] then 1 else 0) \<Longrightarrow>
    target \<notin> set seen \<Longrightarrow> (\<forall>a \<in> set seen. \<forall>b. (a, b) \<in> edge_rel n es \<longrightarrow> b \<in> set seen \<union> set stack) \<Longrightarrow>
    length es \<le> GRAPH_MAX_NODES \<Longrightarrow>
    \<exists>C. set seen \<union> set stack \<subseteq> C \<and> target \<notin> C \<and> (\<forall>a \<in> C. \<forall>b. (a, b) \<in> edge_rel n es \<longrightarrow> b \<in> C)"
proof (induction es n target seen stack rule: reaches_loop.induct)
  case (1 es n target seen)
  then show ?case by (intro exI [of _ "set seen"]) auto
next
  case (2 es n target seen node rest)
  have nt: "node \<noteq> target" using 2(3) by auto
  show ?case
  proof (cases "node \<in> set seen")
    case True
    then have ne: "seen \<noteq> []" by auto
    have "\<not> reaches_loop es n target seen rest" using 2(3) nt True by simp
    moreover have "length rest \<le> out_count seen es + (if seen = [] then 1 else 0)" using 2(4) ne by simp
    moreover have "\<forall>a \<in> set seen. \<forall>b. (a, b) \<in> edge_rel n es \<longrightarrow> b \<in> set seen \<union> set rest"
      using 2(6) True by auto
    ultimately obtain C where "set seen \<union> set rest \<subseteq> C" "target \<notin> C"
        "\<forall>a \<in> C. \<forall>b. (a, b) \<in> edge_rel n es \<longrightarrow> b \<in> C"
      using 2(1) [OF nt True] 2(5,7) by blast
    then show ?thesis using True by (intro exI [of _ C]) auto
  next
    case False
    have "length rest \<le> out_count seen es" using 2(4) by (auto split: if_splits simp: out_count_def)
    moreover have "out_count (node # seen) es \<le> GRAPH_MAX_NODES"
      using out_count_le [of "node # seen" es] 2(7) by simp
    ultimately have fits: "length rest + length (filter (\<lambda>e. hd_index (ge_from e) = node) es) \<le> GRAPH_MAX_NODES"
      and room: "length rest + length (filter (\<lambda>e. hd_index (ge_from e) = node) es) \<le> out_count (node # seen) es"
      using out_count_new [OF False, of es] by simp_all
    obtain st where st: "push_succs n node (node # seen) es rest = Some st"
      "length st \<le> length rest + length (filter (\<lambda>e. hd_index (ge_from e) = node) es)"
      using push_succs_room [OF fits] by blast
    have "\<not> reaches_loop es n target (node # seen) st" using 2(3) nt False st(1) by simp
    moreover have "length st \<le> out_count (node # seen) es + (if node # seen = [] then 1 else 0)"
      using st(2) room by simp
    moreover have "target \<notin> set (node # seen)" using nt 2(5) by simp
    moreover have "\<forall>a \<in> set (node # seen). \<forall>b. (a, b) \<in> edge_rel n es \<longrightarrow> b \<in> set (node # seen) \<union> set st"
      using 2(6) push_succs_complete [OF st(1)] push_succs_mono [OF st(1)] by auto
    ultimately obtain C where "set (node # seen) \<union> set st \<subseteq> C" "target \<notin> C"
        "\<forall>a \<in> C. \<forall>b. (a, b) \<in> edge_rel n es \<longrightarrow> b \<in> C"
      using 2(2) [OF nt False st(1)] 2(7) by blast
    then show ?thesis using push_succs_mono [OF st(1)] by (intro exI [of _ C]) auto
  qed
qed


lemma reaches_iff:
  assumes "length (gr_edges gr) \<le> GRAPH_MAX_NODES"
  shows "reaches gr a b \<longleftrightarrow> (a, b) \<in> (links gr)\<^sup>*"
proof
  assume "reaches gr a b"
  then show "(a, b) \<in> (links gr)\<^sup>*"
    using reaches_loop_sound [of "gr_edges gr" "length (gr_nodes gr)" b "[]" "[a]"]
    by (simp add: reaches_def links_def)
next
  assume ab: "(a, b) \<in> (links gr)\<^sup>*"
  show "reaches gr a b"
  proof (rule ccontr)
    assume "\<not> reaches gr a b"
    then obtain C where C: "a \<in> C" "b \<notin> C" "\<forall>x \<in> C. \<forall>y. (x, y) \<in> links gr \<longrightarrow> y \<in> C"
      using reaches_loop_complete [of "gr_edges gr" "length (gr_nodes gr)" b "[]" "[a]"] assms
      by (auto simp: reaches_def links_def out_count_def)
    from ab C(1,3) have "b \<in> C" by (induction rule: rtrancl_induct) auto
    with C(2) show False by simp
  qed
qed

section \<open>Every graph\<close>

inductive graph_step :: "graph \<Rightarrow> graph \<Rightarrow> bool" where
  step_add_node: "spg_graph_add_node gr kind actor payload = (st, gr', out) \<Longrightarrow> graph_step gr gr'"
| step_add_edge: "spg_graph_add_edge gr k a b = (st, gr', out) \<Longrightarrow> graph_step gr gr'"
| step_scores: "spg_graph_set_scores gr nd sc = (st, gr') \<Longrightarrow> graph_step gr gr'"
| step_flags: "spg_graph_set_flags gr nd fl = (st, gr') \<Longrightarrow> graph_step gr gr'"

inductive_simps graph_step_simps: "graph_step gr gr'"

text \<open>Edges end at nodes of the graph, and the relation they form has no cycle.\<close>

definition graph_ok :: "graph \<Rightarrow> bool" where
  "graph_ok gr \<longleftrightarrow> list_all (\<lambda>e. hd_index (ge_from e) < length (gr_nodes gr) \<and>
       hd_index (ge_to e) < length (gr_nodes gr)) (gr_edges gr) \<and>
     acyclic (links gr)"

lemma links_nodes:
  assumes "list_all (\<lambda>e. hd_index (ge_from e) < n \<and> hd_index (ge_to e) < n) es" "n \<le> m"
  shows "edge_rel m es = edge_rel n es"
  using assms by (force simp: edge_rel_def list_all_iff)

lemma add_edge_cases:
  assumes "spg_graph_add_edge gr k a b = (st, gr', out)"
  obtains (no) "st \<noteq> SPG_OK" "gr' = gr"
  | (yes) e where "st = SPG_OK" "gr' = gr\<lparr>gr_edges := gr_edges gr @ [e]\<rparr>" "ge_from e = a" "ge_to e = b"
      "ge_live e" "hd_index a < length (gr_nodes gr)" "hd_index b < length (gr_nodes gr)"
      "hd_index a \<noteq> hd_index b" "\<not> reaches gr (hd_index b) (hd_index a)"
  using assms
  by (auto simp: spg_graph_add_edge_def spg_graph_node_valid_def Let_def split: if_splits)

text \<open>A step adds an edge that passed the search, or leaves the edges alone.\<close>

lemma graph_step_frame:
  assumes "graph_step gr gr'"
  obtains (same) "gr_edges gr' = gr_edges gr" "length (gr_nodes gr) \<le> length (gr_nodes gr')"
  | (edge) e where "gr' = gr\<lparr>gr_edges := gr_edges gr @ [e]\<rparr>" "ge_live e"
      "hd_index (ge_from e) < length (gr_nodes gr)" "hd_index (ge_to e) < length (gr_nodes gr)"
      "\<not> reaches gr (hd_index (ge_to e)) (hd_index (ge_from e))"
  using assms
proof (cases rule: graph_step.cases)
  case (step_add_node kind actor payload st out)
  then show ?thesis using same by (auto simp: spg_graph_add_node_def Let_def split: if_splits)
next
  case (step_add_edge k a b st out)
  then show ?thesis by (cases rule: add_edge_cases) (use same edge in auto)
next
  case (step_scores nd sc st)
  then show ?thesis using same by (auto simp: spg_graph_set_scores_def split: if_splits)
next
  case (step_flags nd fl st)
  then show ?thesis using same by (auto simp: spg_graph_set_flags_def Let_def split: if_splits)
qed

lemma graph_ok_same:
  assumes "graph_ok gr" "gr_edges gr' = gr_edges gr" "length (gr_nodes gr) \<le> length (gr_nodes gr')"
  shows "graph_ok gr'"
proof -
  have "links gr' = links gr"
    using links_nodes [of "length (gr_nodes gr)" "gr_edges gr" "length (gr_nodes gr')"] assms
    by (simp add: graph_ok_def links_def)
  then show ?thesis using assms unfolding graph_ok_def list_all_iff by fastforce
qed

lemma graph_step_ok:
  assumes "graph_step gr gr'" "graph_ok gr" "length (gr_edges gr) \<le> GRAPH_MAX_NODES"
  shows "graph_ok gr'"
  using assms(1)
proof (cases rule: graph_step_frame)
  case same
  then show ?thesis by (rule graph_ok_same [OF assms(2)])
next
  case (edge e)
  have l: "links gr' = insert (hd_index (ge_from e), hd_index (ge_to e)) (links gr)"
    using edge by (auto simp: links_def edge_rel_def)
  have "(hd_index (ge_to e), hd_index (ge_from e)) \<notin> (links gr)\<^sup>*"
    using reaches_iff [OF assms(3)] edge(5) by simp
  then have "acyclic (links gr')" unfolding l using assms(2) by (simp add: acyclic_insert graph_ok_def)
  then show ?thesis using edge assms(2) by (simp add: graph_ok_def)
qed

lemma graph_init_ok: "graph_ok spg_graph_init"
  by (simp add: graph_ok_def links_def edge_rel_def spg_graph_init_def acyclic_def)

lemma graph_run_ok:
  "graph_step\<^sup>*\<^sup>* spg_graph_init gr \<Longrightarrow> length (gr_edges gr) \<le> Suc GRAPH_MAX_NODES \<Longrightarrow> graph_ok gr"
proof (induction rule: rtranclp_induct)
  case (step gr gr')
  from step(2) show ?case
  proof (cases rule: graph_step_frame)
    case same
    then show ?thesis using step graph_ok_same by simp
  next
    case (edge e)
    then have "length (gr_edges gr) \<le> GRAPH_MAX_NODES" using step(4) by simp
    then show ?thesis using graph_step_ok [OF step(2)] step(3) by simp
  qed
qed (rule graph_init_ok)

text \<open>
  C21: The graph the operations build never contains a cycle as long as it has at most 513
  edges: the search that guards a new edge is exact on every graph of at most 512.
\<close>

theorem graph_acyclic:
  assumes "graph_step\<^sup>*\<^sup>* spg_graph_init gr" "length (gr_edges gr) \<le> 513"
  shows "acyclic (links gr) \<and> (length (gr_edges gr) \<le> 512 \<longrightarrow>
    (\<forall>a b. reaches gr a b \<longleftrightarrow> (a, b) \<in> (links gr)\<^sup>*))"
proof -
  have "length (gr_edges gr) \<le> Suc GRAPH_MAX_NODES" using assms(2) by (simp add: GRAPH_MAX_NODES_def)
  from graph_run_ok [OF assms(1) this] show ?thesis
    using reaches_iff [of gr] by (simp add: graph_ok_def GRAPH_MAX_NODES_def)
qed

theorem graph_acyclic_witness: "acyclic (links spg_graph_init)"
  using graph_acyclic [OF rtranclp.rtrancl_refl] by (simp add: spg_graph_init_def)


section \<open>One edge too many\<close>

lemma push_succs_skip:
  "\<forall>e \<in> set es. hd_index (ge_from e) \<noteq> node \<Longrightarrow> push_succs n node seen es stack = Some stack"
  by (induction es) auto

lemma push_succs_append:
  "push_succs n node seen (es @ fs) stack = Option.bind (push_succs n node seen es stack) (push_succs n node seen fs)"
  by (induction es arbitrary: stack) auto

lemma push_succs_flood:
  "\<lbrakk>\<forall>e \<in> set es. ge_live e \<and> hd_index (ge_from e) = node \<and> hd_index (ge_to e) = x; x < n; x \<notin> set seen;
    length stack + length es \<le> GRAPH_MAX_NODES\<rbrakk> \<Longrightarrow>
   push_succs n node seen es stack = Some (replicate (length es) x @ stack)"
proof (induction es arbitrary: stack)
  case (Cons e es)
  then show ?case using Cons.IH [of "x # stack"] by (simp add: replicate_app_Cons_same)
qed simp

definition fresh_node :: "nat \<Rightarrow> graph_node" where
  "fresh_node i = \<lparr>gn_id = mk_handle i 1, gn_kind = NODE_GOAL, gn_flags = NODE_OPEN, gn_actor_id = 0,
     gn_payload = mk_span 0 0, gn_scores = zero_scores, gn_live = True\<rparr>"

definition flood_edge :: "nat \<Rightarrow> nat \<Rightarrow> graph_edge" where
  "flood_edge to i = \<lparr>ge_id = mk_handle i 1, ge_kind = EDGE_SUPPORTS, ge_from = mk_handle 0 1,
     ge_to = mk_handle to 1, ge_live = True\<rparr>"

text \<open>Three nodes, and \<open>k\<close> parallel edges from the first to the second.\<close>

definition flood :: "nat \<Rightarrow> graph" where
  "flood k = \<lparr>gr_nodes = map fresh_node [0..<3], gr_edges = map (flood_edge 1) [0..<k]\<rparr>"

definition flooded :: graph where
  "flooded = \<lparr>gr_nodes = map fresh_node [0..<3], gr_edges = map (flood_edge 1) [0..<512] @ [flood_edge 2 512]\<rparr>"

lemma flood_valid: "i < 3 \<Longrightarrow> gr_nodes gr = map fresh_node [0..<3] \<Longrightarrow> spg_graph_node_valid gr (mk_handle i 1)"
  by (simp add: spg_graph_node_valid_def mk_handle_def fresh_node_def)

lemma flood_unreached:
  assumes "\<forall>e \<in> set (gr_edges gr). hd_index (ge_from e) = 0" "i \<noteq> 0"
  shows "\<not> reaches gr i 0"
  using assms push_succs_skip [of "gr_edges gr" i] by (simp add: reaches_def)

lemma flood_from: "\<forall>e \<in> set (gr_edges (flood k)). hd_index (ge_from e) = 0"
  by (simp add: flood_def flood_edge_def mk_handle_def)

lemma flood_add: "k < 2048 \<Longrightarrow>
  spg_graph_add_edge (flood k) EDGE_SUPPORTS (mk_handle 0 1) (mk_handle 1 1) =
    (SPG_OK, flood (Suc k), Some (mk_handle k 1))"
  using flood_unreached [OF flood_from, of 1 k] flood_valid [of 0 "flood k"] flood_valid [of 1 "flood k"]
  by (simp add: spg_graph_add_edge_def GRAPH_MAX_EDGES_def mk_handle_def flood_def flood_edge_def Let_def)

lemma flooded_add:
  "spg_graph_add_edge (flood 512) EDGE_SUPPORTS (mk_handle 0 1) (mk_handle 2 1) =
    (SPG_OK, flooded, Some (mk_handle 512 1))"
  using flood_unreached [OF flood_from, of 2 512] flood_valid [of 0 "flood 512"] flood_valid [of 2 "flood 512"]
  by (simp add: spg_graph_add_edge_def GRAPH_MAX_EDGES_def mk_handle_def flood_def flooded_def flood_edge_def
      Let_def del: upt_Suc)

lemma flood_nodes: "graph_step\<^sup>*\<^sup>* spg_graph_init (flood 0)"
proof -
  have "graph_step \<lparr>gr_nodes = map fresh_node [0..<i], gr_edges = []\<rparr>
      \<lparr>gr_nodes = map fresh_node [0..<Suc i], gr_edges = []\<rparr>" if "i < 3" for i
    by (rule step_add_node [of _ NODE_GOAL 0 "mk_span 0 0" SPG_OK _ "Some (mk_handle i 1)"])
       (use that in \<open>simp add: spg_graph_add_node_def GRAPH_MAX_NODES_def fresh_node_def Let_def\<close>)
  from this [of 0] this [of 1] this [of 2] have
    "graph_step\<^sup>*\<^sup>* \<lparr>gr_nodes = map fresh_node [0..<0], gr_edges = []\<rparr> \<lparr>gr_nodes = map fresh_node [0..<3], gr_edges = []\<rparr>"
    by (metis (no_types, lifting) One_nat_def Suc_1 converse_rtranclp_into_rtranclp lessI numeral_3_eq_3
        rtranclp.rtrancl_refl less_SucI zero_less_Suc)
  then show ?thesis by (simp add: spg_graph_init_def flood_def)
qed

lemma flood_run: "k \<le> 2048 \<Longrightarrow> graph_step\<^sup>*\<^sup>* spg_graph_init (flood k)"
proof (induction k)
  case (Suc k)
  then show ?case using step_add_edge [OF flood_add [of k]] by simp
qed (rule flood_nodes)

lemma flooded_run: "graph_step\<^sup>*\<^sup>* spg_graph_init flooded"
  using flood_run [of 512] step_add_edge [OF flooded_add] by simp

lemma flooded_blind: "\<not> reaches flooded 0 2"
proof -
  have "push_succs 3 0 [0] (map (flood_edge 1) [0..<512]) [] = Some (replicate 512 1)"
    using push_succs_flood [of "map (flood_edge 1) [0..<512]" 0 1 3 "[0]" "[]"]
    by (simp add: flood_edge_def mk_handle_def GRAPH_MAX_NODES_def)
  then have "push_succs 3 0 [0] (gr_edges flooded) [] = None"
    by (simp add: flooded_def push_succs_append flood_edge_def mk_handle_def GRAPH_MAX_NODES_def)
  then show ?thesis by (simp add: reaches_def flooded_def)
qed

definition looped :: graph where
  "looped = flooded\<lparr>gr_edges := gr_edges flooded @ [\<lparr>ge_id = mk_handle 513 1, ge_kind = EDGE_REFINES,
     ge_from = mk_handle 2 1, ge_to = mk_handle 0 1, ge_live = True\<rparr>]\<rparr>"

lemma looped_add:
  "spg_graph_add_edge flooded EDGE_REFINES (mk_handle 2 1) (mk_handle 0 1) =
    (SPG_OK, looped, Some (mk_handle 513 1))"
  using flooded_blind flood_valid [of 0 flooded] flood_valid [of 2 flooded]
  by (simp add: spg_graph_add_edge_def GRAPH_MAX_EDGES_def mk_handle_def looped_def Let_def)
     (simp add: flooded_def mk_handle_def)

lemma looped_cycle: "\<not> acyclic (links looped)"
proof -
  have "(0, 2) \<in> links looped" "(2, 0) \<in> links looped"
    by (auto simp: links_def edge_rel_def looped_def flooded_def flood_edge_def mk_handle_def)
  then show ?thesis unfolding acyclic_def by (meson r_into_trancl trancl_trans)
qed

text \<open>
  The bound of 513 edges is tight: there is a graph, built by the operations alone, with 513
  edges and no cycle, to which the code adds one more edge although its source is reachable from
  its target. The search's stack of 512 fills with repeated pushes of one node, and a full stack
  is answered as ``not reachable''.
\<close>

theorem graph_cycle_admitted:
  "\<exists>gr gr' out. graph_step\<^sup>*\<^sup>* spg_graph_init gr \<and> length (gr_edges gr) = 513 \<and> acyclic (links gr) \<and>
     spg_graph_add_edge gr EDGE_REFINES (mk_handle 2 1) (mk_handle 0 1) = (SPG_OK, gr', out) \<and>
     \<not> acyclic (links gr')"
proof (intro exI conjI)
  show "graph_step\<^sup>*\<^sup>* spg_graph_init flooded" by (rule flooded_run)
  show "length (gr_edges flooded) = 513" by (simp add: flooded_def)
  then show "acyclic (links flooded)"
    using graph_run_ok [OF flooded_run] by (simp add: graph_ok_def GRAPH_MAX_NODES_def)
qed (rule looped_add looped_cycle)+

end
