(* ===== verification/Handles.thy ===== *)
theory Handles
  imports Graph
begin

text \<open>
  The contract of the code's handle tables, shared by the graph's nodes and edges and the fact
  memory: a table only grows, a handle given out names the item just stored, and no operation
  makes a handle stale or changes what its owner cannot change through it.
\<close>

locale handle_table =
  fixes step :: "'s \<Rightarrow> 's \<Rightarrow> bool"
    and valid :: "'s \<Rightarrow> handle \<Rightarrow> bool"
    and core :: "'s \<Rightarrow> handle \<Rightarrow> 'c"
    and count :: "'s \<Rightarrow> nat"
    and capacity :: nat
  assumes step_valid: "step s s' \<Longrightarrow> valid s h \<Longrightarrow> valid s' h"
    and step_core: "step s s' \<Longrightarrow> valid s h \<Longrightarrow> core s' h = core s h"
    and step_count: "step s s' \<Longrightarrow> count s \<le> capacity \<Longrightarrow> count s \<le> count s' \<and> count s' \<le> capacity"
    and valid_index: "valid s h \<Longrightarrow> hd_index h < count s"
begin

text \<open>Handles outlive every run, name the same thing throughout, and the table is bounded.\<close>

lemma run_valid: "step\<^sup>*\<^sup>* s s' \<Longrightarrow> valid s h \<Longrightarrow> valid s' h \<and> core s' h = core s h"
  by (induction rule: rtranclp_induct) (auto simp: step_core intro: step_valid)

lemma run_count: "step\<^sup>*\<^sup>* s s' \<Longrightarrow> count s \<le> capacity \<Longrightarrow> count s \<le> count s' \<and> count s' \<le> capacity"
proof (induction rule: rtranclp_induct)
  case (step s' s'')
  with step_count [of s' s''] show ?case by simp
qed simp

lemma run_index: "step\<^sup>*\<^sup>* s s' \<Longrightarrow> valid s h \<Longrightarrow> count s \<le> capacity \<Longrightarrow> hd_index h < count s'"
  using run_count valid_index by fastforce

end

end
