(* ===== verification/MemoryFacts.thy ===== *)
theory MemoryFacts
  imports Handles GraphProps
begin

text \<open>
  The fact memory of \<open>src/memory/memory.c\<close>: typed facts with a source event, an optional graph
  node, a status and a confidence, in a bounded table of generational handles. The graph's node
  and edge tables and this one satisfy the same contract.
\<close>

definition MEMORY_MAX_FACTS :: nat where "MEMORY_MAX_FACTS = 1024"

datatype fact_kind = FACT_ENTITY | FACT_RELATION | FACT_OBSERVATION | FACT_CONSTRAINT | FACT_ARTIFACT

datatype fact_status = FACT_ACTIVE | FACT_SUPERSEDED | FACT_REJECTED

record memory_fact =
  mf_id :: handle
  mf_kind :: fact_kind
  mf_status :: fact_status
  mf_subject :: text_span
  mf_predicate :: text_span
  mf_object :: text_span
  mf_source_event_id :: u64
  mf_graph_node :: handle
  mf_has_graph_node :: bool
  mf_confidence :: float32
  mf_live :: bool

type_synonym fact_memory = "memory_fact list"

definition spg_memory_init :: fact_memory where "spg_memory_init = []"

definition spg_memory_fact_valid :: "fact_memory \<Rightarrow> handle \<Rightarrow> bool" where
  "spg_memory_fact_valid mem fh \<longleftrightarrow>
     hd_index fh < length mem \<and>
     (let slot = mem ! hd_index fh
      in mf_live slot \<and> hd_generation (mf_id slot) = hd_generation fh)"

definition spg_memory_add_fact ::
  "fact_memory \<Rightarrow> fact_kind \<Rightarrow> text_span \<Rightarrow> text_span \<Rightarrow> text_span \<Rightarrow> u64 \<Rightarrow> bool \<Rightarrow> handle \<Rightarrow> float32 \<Rightarrow>
     spg_status \<times> fact_memory \<times> handle option" where
  "spg_memory_add_fact mem kind subject predicate object source_event_id has_node node confidence =
     (if \<not> score_valid confidence \<or> source_event_id = 0 then (SPG_E_INVALID_ARG, mem, None)
      else if has_node \<and> hd_generation node = 0 then (SPG_E_INVALID_ARG, mem, None)
      else if length mem \<ge> MEMORY_MAX_FACTS then (SPG_E_LIMIT, mem, None)
      else let fid = mk_handle (length mem) 1
           in (SPG_OK, mem @ [\<lparr>mf_id = fid, mf_kind = kind, mf_status = FACT_ACTIVE,
                 mf_subject = subject, mf_predicate = predicate, mf_object = object,
                 mf_source_event_id = source_event_id, mf_graph_node = node,
                 mf_has_graph_node = has_node, mf_confidence = confidence, mf_live = True\<rparr>], Some fid))"

definition spg_memory_set_status :: "fact_memory \<Rightarrow> handle \<Rightarrow> fact_status \<Rightarrow> spg_status \<times> fact_memory" where
  "spg_memory_set_status mem fh st =
     (if \<not> spg_memory_fact_valid mem fh then (SPG_E_INVALID_ARG, mem)
      else (SPG_OK, mem[hd_index fh := (mem ! hd_index fh)\<lparr>mf_status := st\<rparr>]))"

definition spg_memory_set_confidence :: "fact_memory \<Rightarrow> handle \<Rightarrow> float32 \<Rightarrow> spg_status \<times> fact_memory" where
  "spg_memory_set_confidence mem fh confidence =
     (if \<not> spg_memory_fact_valid mem fh \<or> \<not> score_valid confidence then (SPG_E_INVALID_ARG, mem)
      else (SPG_OK, mem[hd_index fh := (mem ! hd_index fh)\<lparr>mf_confidence := confidence\<rparr>]))"

inductive memory_step :: "fact_memory \<Rightarrow> fact_memory \<Rightarrow> bool" where
  memory_add: "spg_memory_add_fact mem k s p ob ev hn nd c = (st, mem', out) \<Longrightarrow> memory_step mem mem'"
| memory_status: "spg_memory_set_status mem f st' = (st, mem') \<Longrightarrow> memory_step mem mem'"
| memory_confidence: "spg_memory_set_confidence mem f c = (st, mem') \<Longrightarrow> memory_step mem mem'"

section \<open>The handle contract\<close>

text \<open>What a handle's item keeps: everything but scores, flags, status and confidence.\<close>

definition node_core :: "graph \<Rightarrow> handle \<Rightarrow> handle \<times> graph_node_kind \<times> u32 \<times> text_span" where
  "node_core gr h = (let nd = gr_nodes gr ! hd_index h in (gn_id nd, gn_kind nd, gn_actor_id nd, gn_payload nd))"

definition fact_core :: "fact_memory \<Rightarrow> handle \<Rightarrow> memory_fact" where
  "fact_core mem h = (mem ! hd_index h)\<lparr>mf_status := FACT_ACTIVE, mf_confidence := NonFinite\<rparr>"

lemma memory_step_shape:
  assumes "memory_step mem mem'"
  obtains (same) "mem' = mem"
  | (grow) f where "mem' = mem @ [f]" "length mem < MEMORY_MAX_FACTS"
  | (upd) i f where "mem' = mem[i := f]" "i < length mem" "mf_live f = mf_live (mem ! i)"
      "mf_id f = mf_id (mem ! i)"
      "f\<lparr>mf_status := FACT_ACTIVE, mf_confidence := NonFinite\<rparr> =
       (mem ! i)\<lparr>mf_status := FACT_ACTIVE, mf_confidence := NonFinite\<rparr>"
  using assms
proof (cases rule: memory_step.cases)
  case (memory_add k s p ob ev hn nd c st out)
  then show ?thesis using same grow
    by (auto simp: spg_memory_add_fact_def Let_def not_le split: if_splits)
next
  case (memory_status f st' st)
  then show ?thesis using same upd [of "hd_index f" "(mem ! hd_index f)\<lparr>mf_status := st'\<rparr>"]
    by (auto simp: spg_memory_set_status_def spg_memory_fact_valid_def Let_def split: if_splits)
next
  case (memory_confidence f c st)
  then show ?thesis using same upd [of "hd_index f" "(mem ! hd_index f)\<lparr>mf_confidence := c\<rparr>"]
    by (auto simp: spg_memory_set_confidence_def spg_memory_fact_valid_def Let_def split: if_splits)
qed

interpretation facts: handle_table memory_step spg_memory_fact_valid fact_core length MEMORY_MAX_FACTS
proof
  fix mem mem' h
  assume s: "memory_step mem mem'"
  show "spg_memory_fact_valid mem h \<Longrightarrow> spg_memory_fact_valid mem' h"
    using s by (cases rule: memory_step_shape)
      (auto simp: spg_memory_fact_valid_def Let_def nth_append upd_nth)
  show "spg_memory_fact_valid mem h \<Longrightarrow> fact_core mem' h = fact_core mem h"
    using s by (cases rule: memory_step_shape)
      (auto simp: spg_memory_fact_valid_def fact_core_def nth_append upd_nth)
  show "length mem \<le> MEMORY_MAX_FACTS \<Longrightarrow> length mem \<le> length mem' \<and> length mem' \<le> MEMORY_MAX_FACTS"
    using s by (cases rule: memory_step_shape) auto
qed (simp add: spg_memory_fact_valid_def)

lemma graph_nodes_shape:
  assumes "graph_step gr gr'"
  obtains (same) "gr_nodes gr' = gr_nodes gr"
  | (grow) nd where "gr_nodes gr' = gr_nodes gr @ [nd]" "length (gr_nodes gr) < GRAPH_MAX_NODES"
  | (upd) i nd where "gr_nodes gr' = (gr_nodes gr)[i := nd]" "i < length (gr_nodes gr)"
      "gn_live nd = gn_live (gr_nodes gr ! i)" "gn_id nd = gn_id (gr_nodes gr ! i)"
      "gn_kind nd = gn_kind (gr_nodes gr ! i)" "gn_actor_id nd = gn_actor_id (gr_nodes gr ! i)"
      "gn_payload nd = gn_payload (gr_nodes gr ! i)"
  using assms
proof (cases rule: graph_step.cases)
  case (step_add_node kind actor payload st out)
  then show ?thesis using same grow by (auto simp: spg_graph_add_node_def Let_def not_le split: if_splits)
next
  case (step_add_edge k a b st out)
  then show ?thesis using same by (auto simp: spg_graph_add_edge_def Let_def split: if_splits)
next
  case (step_scores nd sc st)
  then show ?thesis using same upd [of "hd_index nd" "(gr_nodes gr ! hd_index nd)\<lparr>gn_scores := sc\<rparr>"]
    by (auto simp: spg_graph_set_scores_def spg_graph_node_valid_def Let_def split: if_splits)
next
  case (step_flags nd fl st)
  then show ?thesis using same upd [of "hd_index nd" "(gr_nodes gr ! hd_index nd)\<lparr>gn_flags := fl\<rparr>"]
    by (auto simp: spg_graph_set_flags_def spg_graph_node_valid_def Let_def split: if_splits)
qed

interpretation nodes: handle_table graph_step spg_graph_node_valid node_core "length \<circ> gr_nodes" GRAPH_MAX_NODES
proof
  fix gr gr' h
  assume s: "graph_step gr gr'"
  show "spg_graph_node_valid gr h \<Longrightarrow> spg_graph_node_valid gr' h"
    using s by (cases rule: graph_nodes_shape)
      (auto simp: spg_graph_node_valid_def Let_def nth_append upd_nth)
  show "spg_graph_node_valid gr h \<Longrightarrow> node_core gr' h = node_core gr h"
    using s by (cases rule: graph_nodes_shape)
      (auto simp: spg_graph_node_valid_def node_core_def Let_def nth_append upd_nth)
  show "(length \<circ> gr_nodes) gr \<le> GRAPH_MAX_NODES \<Longrightarrow>
      (length \<circ> gr_nodes) gr \<le> (length \<circ> gr_nodes) gr' \<and> (length \<circ> gr_nodes) gr' \<le> GRAPH_MAX_NODES"
    using s by (cases rule: graph_nodes_shape) auto
qed (simp add: spg_graph_node_valid_def)

text \<open>
  A fact's handle never goes stale: once a fact is stored, whatever operations follow, its
  handle stays valid and names the same fact (kind, subject, predicate, object, source event and
  graph node), only its status and confidence can have changed; and the table never holds more
  than 1024 facts.
\<close>

theorem memory_fact_handle_stable:
  assumes "spg_memory_add_fact mem k s p ob ev hn nd c = (SPG_OK, mem', Some h)"
    and "length mem \<le> MEMORY_MAX_FACTS" "memory_step\<^sup>*\<^sup>* mem' mem''"
  shows "spg_memory_fact_valid mem'' h \<and> fact_core mem'' h = fact_core mem' h \<and>
    mf_subject (mem'' ! hd_index h) = s \<and> mf_object (mem'' ! hd_index h) = ob \<and>
    length mem'' \<le> MEMORY_MAX_FACTS"
proof -
  have v: "spg_memory_fact_valid mem' h" and o: "mf_subject (mem' ! hd_index h) = s" "mf_object (mem' ! hd_index h) = ob"
    using assms(1) by (auto simp: spg_memory_add_fact_def spg_memory_fact_valid_def mk_handle_def Let_def split: if_splits)
  have n: "length mem' \<le> MEMORY_MAX_FACTS"
    using facts.step_count [OF memory_add [OF assms(1)] assms(2)] by simp
  have core: "fact_core mem'' h = fact_core mem' h" using facts.run_valid [OF assms(3) v] by simp
  have sel: "mf_subject (m ! hd_index h) = mf_subject (fact_core m h)"
    "mf_object (m ! hd_index h) = mf_object (fact_core m h)" for m
    by (simp_all add: fact_core_def)
  have "mf_subject (mem'' ! hd_index h) = s" "mf_object (mem'' ! hd_index h) = ob"
    using o core unfolding sel by simp_all
  then show ?thesis using facts.run_valid [OF assms(3) v] facts.run_count [OF assms(3) n] by simp
qed

theorem memory_fact_handle_stable_witness:
  "\<exists>mem h. spg_memory_add_fact [] FACT_ENTITY (mk_span 0 1) (mk_span 0 1) (mk_span 2 1) 1 False (mk_handle 0 0)
       (Finite 1) = (SPG_OK, mem, Some h) \<and> spg_memory_fact_valid mem h"
proof -
  obtain mem h where a: "spg_memory_add_fact [] FACT_ENTITY (mk_span 0 1) (mk_span 0 1) (mk_span 2 1) 1 False
      (mk_handle 0 0) (Finite 1) = (SPG_OK, mem, Some h)"
    by (simp add: spg_memory_add_fact_def MEMORY_MAX_FACTS_def Let_def)
  have "length ([] :: fact_memory) \<le> MEMORY_MAX_FACTS" by simp
  from memory_fact_handle_stable [OF a this rtranclp.rtrancl_refl] a show ?thesis by blast
qed

end
