(* ===== verification/ProcessProfile.thy ===== *)
theory ProcessProfile
  imports SexprSpans
begin

text \<open>
  The process profile of \<open>src/machine/process_profile.c\<close>, which gives observed processes a
  role and permissions, and the snapshot records of \<open>include/geistshell/machine_state.h\<close> it
  applies to. Strings copied into fixed buffers are \<open>string\<close>s.
\<close>

definition PROCESS_NAME_CAP :: nat where "PROCESS_NAME_CAP = 16"
definition PROCESS_ID_CAP :: nat where "PROCESS_ID_CAP = 32"
definition PROCESS_MATCH_CAP :: nat where "PROCESS_MATCH_CAP = 64"
definition PROCESS_PROFILE_CAP :: nat where "PROCESS_PROFILE_CAP = 16"
definition PROCESS_NO_PROFILE :: nat where "PROCESS_NO_PROFILE = 4294967295"

datatype process_role = ROLE_UNKNOWN | ROLE_CRITICAL | ROLE_BATCH

record process_sample =
  ps_pid :: u64
  ps_start_identity :: u64
  ps_name :: string
  ps_state :: char
  ps_nice :: i64
  ps_cpu_time :: u64
  ps_cpu_bp :: u64
  ps_rss_bytes :: u64
  ps_profile_index :: nat
  ps_profile_id :: string
  ps_role :: process_role
  ps_may_pause :: bool
  ps_may_stop :: bool

datatype throttle_state = THROTTLE_UNKNOWN | THROTTLE_NONE | THROTTLE_ACTIVE | THROTTLE_PAST

record memory_sample =
  ms_total_bytes :: u64
  ms_used_bytes :: u64
  ms_swap_used_bytes :: u64

record cpu_sample =
  cs_idle :: u64
  cs_total :: u64

record machine_state =
  mc_timestamp_ns :: u64
  mc_cpu_utilisation_bp :: u64
  mc_load_1_cbp :: u64
  mc_memory :: memory_sample
  mc_temperature_mc :: i64
  mc_cpu_freq_khz :: u64
  mc_throttle :: throttle_state
  mc_process_count :: u64
  mc_cpu :: cpu_sample
  mc_processes_truncated :: bool
  mc_processes :: "process_sample list"

record profile_entry =
  pe_id :: string
  pe_match :: string
  pe_role :: process_role
  pe_may_pause :: bool
  pe_may_stop :: bool

type_synonym process_profile = "profile_entry list"

record profile_error =
  pf_status :: spg_status
  pf_node_index :: nat
  pf_offset :: nat

section \<open>The loader\<close>

definition copy_payload :: "string \<Rightarrow> text_span \<Rightarrow> nat \<Rightarrow> string option" where
  "copy_payload input sp cap =
     (if \<not> spg_sexpr_span_valid (length input) sp \<or> sp_length sp + 1 > cap then None
      else Some (c_string (span_text input sp)))"

fun field_value_in :: "string \<Rightarrow> sexpr_node list \<Rightarrow> string \<Rightarrow> nat list \<Rightarrow> nat" where
  "field_value_in input nodes name [] = INVALID_INDEX"
| "field_value_in input nodes name (f # fs) =
     (if nd_kind (nodes ! f) = NODE_LIST \<and> spg_sexpr_first_child nodes f \<noteq> INVALID_INDEX \<and>
         spg_sexpr_span_eq_cstr input (nd_span (nodes ! spg_sexpr_first_child nodes f)) name
      then spg_sexpr_second_child nodes f
      else field_value_in input nodes name fs)"

definition field_value :: "string \<Rightarrow> sexpr_node list \<Rightarrow> nat \<Rightarrow> string \<Rightarrow> nat" where
  "field_value input nodes entry name =
     field_value_in input nodes name (siblings nodes (spg_sexpr_first_child nodes entry))"

definition parse_bool :: "string \<Rightarrow> text_span \<Rightarrow> bool option" where
  "parse_bool input sp =
     (if spg_sexpr_span_eq_cstr input sp ''true'' then Some True
      else if spg_sexpr_span_eq_cstr input sp ''false'' then Some False
      else None)"

definition parse_role :: "string \<Rightarrow> text_span \<Rightarrow> process_role option" where
  "parse_role input sp =
     (if spg_sexpr_span_eq_cstr input sp ''critical'' then Some ROLE_CRITICAL
      else if spg_sexpr_span_eq_cstr input sp ''batch'' then Some ROLE_BATCH
      else None)"

text \<open>A required string field of an entry: present, quoted, fitting, not empty.\<close>

definition string_field :: "string \<Rightarrow> sexpr_node list \<Rightarrow> nat \<Rightarrow> nat \<Rightarrow> string option" where
  "string_field input nodes v cap =
     (if v = INVALID_INDEX then None
      else (case spg_sexpr_string_payload_span (nodes ! v) of
              None \<Rightarrow> None
            | Some sp \<Rightarrow> (case copy_payload input sp cap of
                            None \<Rightarrow> None
                          | Some s \<Rightarrow> if s = [] then None else Some s)))"

definition parse_entry :: "string \<Rightarrow> sexpr_node list \<Rightarrow> nat \<Rightarrow> profile_entry option" where
  "parse_entry input nodes entry =
     (case string_field input nodes (spg_sexpr_second_child nodes entry) PROCESS_ID_CAP of
        None \<Rightarrow> None
      | Some pid \<Rightarrow>
     (case string_field input nodes (field_value input nodes entry ''match'') PROCESS_MATCH_CAP of
        None \<Rightarrow> None
      | Some pmatch \<Rightarrow>
        let role_node = field_value input nodes entry ''role'';
            pause_node = field_value input nodes entry ''may_pause'';
            stop_node = field_value input nodes entry ''may_stop''
        in if role_node = INVALID_INDEX then None
           else (case parse_role input (nd_span (nodes ! role_node)) of
             None \<Rightarrow> None
           | Some role \<Rightarrow>
               if pause_node = INVALID_INDEX \<or> stop_node = INVALID_INDEX then None
               else (case (parse_bool input (nd_span (nodes ! pause_node)),
                           parse_bool input (nd_span (nodes ! stop_node))) of
                 (Some may_pause, Some may_stop) \<Rightarrow>
                   if role = ROLE_CRITICAL \<and> (may_pause \<or> may_stop) then None
                   else Some \<lparr>pe_id = pid, pe_match = pmatch, pe_role = role,
                              pe_may_pause = may_pause, pe_may_stop = may_stop\<rparr>
               | _ \<Rightarrow> None))))"

definition profile_error_at :: "sexpr_node list \<Rightarrow> spg_status \<Rightarrow> nat \<Rightarrow> profile_error" where
  "profile_error_at nodes st node =
     \<lparr>pf_status = st, pf_node_index = node, pf_offset = sp_offset (nd_span (nodes ! node))\<rparr>"

text \<open>The loop over the entries; a failure keeps the entries stored before it, as \<open>*out\<close> does.\<close>

fun load_entries ::
  "string \<Rightarrow> sexpr_node list \<Rightarrow> nat list \<Rightarrow> process_profile \<Rightarrow>
     spg_status \<times> process_profile \<times> profile_error option" where
  "load_entries input nodes [] out = (SPG_OK, out, None)"
| "load_entries input nodes (entry # es) out =
     (let entry_head = spg_sexpr_first_child nodes entry in
      if nd_kind (nodes ! entry) \<noteq> NODE_LIST \<or> entry_head = INVALID_INDEX \<or>
         \<not> spg_sexpr_span_eq_cstr input (nd_span (nodes ! entry_head)) ''process''
      then (SPG_E_SCHEMA, out, Some (profile_error_at nodes SPG_E_SCHEMA entry))
      else if length out \<ge> PROCESS_PROFILE_CAP
      then (SPG_E_LIMIT, out, Some (profile_error_at nodes SPG_E_LIMIT entry))
      else (case parse_entry input nodes entry of
              None \<Rightarrow> (SPG_E_SCHEMA, out, Some (profile_error_at nodes SPG_E_SCHEMA entry))
            | Some parsed \<Rightarrow>
                if list_ex (\<lambda>e. pe_id e = pe_id parsed) out
                then (SPG_E_SCHEMA, out, Some (profile_error_at nodes SPG_E_SCHEMA entry))
                else load_entries input nodes es (out @ [parsed])))"

definition spg_process_profile_load ::
  "string \<Rightarrow> nat \<Rightarrow> nat \<Rightarrow> spg_status \<times> process_profile \<times> profile_error option" where
  "spg_process_profile_load input token_capacity node_capacity =
     (case spg_sexpr_parse_text input token_capacity node_capacity of
        (st, toks, nodes, e) \<Rightarrow>
          if st \<noteq> SPG_OK
          then (st, [], Some \<lparr>pf_status = st, pf_node_index = INVALID_INDEX, pf_offset = er_offset e\<rparr>)
          else if length nodes = 0 then (SPG_OK, [], None)
          else let head = spg_sexpr_first_child nodes 0
               in if nd_kind (nodes ! 0) \<noteq> NODE_LIST \<or> head = INVALID_INDEX \<or>
                     \<not> spg_sexpr_span_eq_cstr input (nd_span (nodes ! head)) ''process-profile''
                  then (SPG_E_SCHEMA, [], Some (profile_error_at nodes SPG_E_SCHEMA 0))
                  else load_entries input nodes (siblings nodes (nd_next_sibling (nodes ! head))) [])"

section \<open>Matching and applying\<close>

definition COMM_VISIBLE :: nat where "COMM_VISIBLE = PROCESS_NAME_CAP - 1"

definition name_matches :: "string \<Rightarrow> string \<Rightarrow> bool" where
  "name_matches m name \<longleftrightarrow> m = name \<or>
     (length m > COMM_VISIBLE \<and> take COMM_VISIBLE m = take COMM_VISIBLE name \<and> length name = COMM_VISIBLE)"

fun match_from :: "process_profile \<Rightarrow> string \<Rightarrow> nat \<Rightarrow> nat" where
  "match_from [] name i = PROCESS_NO_PROFILE"
| "match_from (e # es) name i =
     (if name_matches (pe_match e) name then i else match_from es name (Suc i))"

definition spg_process_profile_match :: "process_profile \<Rightarrow> string \<Rightarrow> nat" where
  "spg_process_profile_match profile name =
     (if name = [] then PROCESS_NO_PROFILE else match_from profile name 0)"

definition apply_one :: "process_profile \<Rightarrow> process_sample \<Rightarrow> process_sample" where
  "apply_one profile p =
     (let index = spg_process_profile_match profile (ps_name p);
          q = p\<lparr>ps_profile_index := index\<rparr>
      in if index = PROCESS_NO_PROFILE
         then q\<lparr>ps_role := ROLE_UNKNOWN, ps_may_pause := False, ps_may_stop := False, ps_profile_id := []\<rparr>
         else let e = profile ! index
              in q\<lparr>ps_profile_id := pe_id e, ps_role := pe_role e, ps_may_pause := pe_may_pause e,
                   ps_may_stop := pe_may_stop e\<rparr>)"

definition spg_process_apply_profile :: "process_profile \<Rightarrow> process_sample list \<Rightarrow> process_sample list" where
  "spg_process_apply_profile profile procs = map (apply_one profile) procs"

section \<open>What a loaded profile grants\<close>

definition entry_ok :: "profile_entry \<Rightarrow> bool" where
  "entry_ok e \<longleftrightarrow> pe_id e \<noteq> [] \<and> length (pe_id e) < PROCESS_ID_CAP \<and> pe_match e \<noteq> [] \<and>
     length (pe_match e) < PROCESS_MATCH_CAP \<and> pe_role e \<noteq> ROLE_UNKNOWN \<and>
     (pe_role e = ROLE_CRITICAL \<longrightarrow> \<not> pe_may_pause e \<and> \<not> pe_may_stop e)"

definition profile_ok :: "process_profile \<Rightarrow> bool" where
  "profile_ok es \<longleftrightarrow> list_all entry_ok es \<and> distinct (map pe_id es) \<and> length es \<le> PROCESS_PROFILE_CAP"

lemma copy_payload_length: "copy_payload input sp cap = Some s \<Longrightarrow> length s < cap"
  using c_string_length [of "span_text input sp"]
  by (auto simp: copy_payload_def span_text_def spg_sexpr_span_valid_def split: if_splits)

lemma string_field_ok: "string_field input nodes v cap = Some s \<Longrightarrow> s \<noteq> [] \<and> length s < cap"
  by (auto simp: string_field_def dest: copy_payload_length split: if_splits option.splits)

lemma parse_entry_ok:
  assumes "parse_entry input nodes entry = Some e"
  shows "entry_ok e"
proof -
  obtain pid pmatch where s:
    "string_field input nodes (spg_sexpr_second_child nodes entry) PROCESS_ID_CAP = Some pid"
    "string_field input nodes (field_value input nodes entry ''match'') PROCESS_MATCH_CAP = Some pmatch"
    using assms by (auto simp: parse_entry_def split: option.splits)
  show ?thesis
    using assms s string_field_ok [OF s(1)] string_field_ok [OF s(2)]
    by (auto simp: parse_entry_def Let_def entry_ok_def parse_role_def
        split: option.splits if_splits)
qed

lemma load_entries_ok:
  "load_entries input nodes es out = (st, out', err) \<Longrightarrow> profile_ok out \<Longrightarrow> profile_ok out'"
proof (induction es arbitrary: out)
  case (Cons entry es)
  show ?case
  proof (cases "out' = out")
    case False
    then obtain parsed where p: "parse_entry input nodes entry = Some parsed" "length out < PROCESS_PROFILE_CAP"
        "\<not> list_ex (\<lambda>e. pe_id e = pe_id parsed) out" "load_entries input nodes es (out @ [parsed]) = (st, out', err)"
      using Cons.prems(1) by (auto simp: Let_def not_le split: if_splits option.splits)
    have "profile_ok (out @ [parsed])"
      using Cons.prems(2) parse_entry_ok [OF p(1)] p(2,3) by (auto simp: profile_ok_def list_ex_iff)
    then show ?thesis using Cons.IH [OF p(4)] by simp
  qed (use Cons.prems in simp)
qed simp

lemma profile_load_ok:
  assumes "spg_process_profile_load input tcap ncap = (st, out, err)"
  shows "profile_ok out"
proof -
  have "profile_ok []" by (simp add: profile_ok_def)
  then show ?thesis using assms load_entries_ok
    by (auto simp: spg_process_profile_load_def Let_def split: prod.splits if_splits)
qed

lemma match_from_sound:
  "match_from es name i = k \<Longrightarrow> k \<noteq> PROCESS_NO_PROFILE \<Longrightarrow>
   i \<le> k \<and> k < i + length es \<and> name_matches (pe_match (es ! (k - i))) name"
proof (induction es arbitrary: i)
  case (Cons e es)
  show ?case
  proof (cases "name_matches (pe_match e) name")
    case False
    then have "match_from es name (Suc i) = k" using Cons.prems(1) by simp
    from Cons.IH [OF this Cons.prems(2)] have *: "Suc i \<le> k" "k < Suc i + length es"
      "name_matches (pe_match (es ! (k - Suc i))) name" by auto
    then have "(e # es) ! (k - i) = es ! (k - Suc i)" by (simp add: nth_Cons' )
    with * show ?thesis by simp
  qed (use Cons.prems in auto)
qed simp

text \<open>What justifies the permissions of a sample: none, or those of a matching batch entry.\<close>

definition permission_ok :: "process_profile \<Rightarrow> process_sample \<Rightarrow> bool" where
  "permission_ok profile q \<longleftrightarrow> (\<not> ps_may_pause q \<and> \<not> ps_may_stop q) \<or>
     (\<exists>e \<in> set profile. name_matches (pe_match e) (ps_name q) \<and> pe_role e = ROLE_BATCH \<and>
        ps_profile_id q = pe_id e \<and> ps_role q = pe_role e \<and>
        ps_may_pause q = pe_may_pause e \<and> ps_may_stop q = pe_may_stop e)"

text \<open>
  C32: No text can make a profile grant too much: whatever is loaded, and whether or not the load
  succeeds, the entries are at most 16, have distinct non-empty ids, and no critical one grants
  anything; and a process is marked pausable or stoppable only by an entry that matches its
  name, has the batch role and grants exactly that, and whose id it then carries.
\<close>

theorem process_permissions_granted:
  "case spg_process_profile_load input tcap ncap of (st, profile, err) \<Rightarrow>
     profile_ok profile \<and> list_all (permission_ok profile) (spg_process_apply_profile profile procs)"
proof -
  obtain st profile err where l: "spg_process_profile_load input tcap ncap = (st, profile, err)"
    by (metis prod_cases3)
  note ok = profile_load_ok [OF l]
  have "permission_ok profile (apply_one profile p)" for p
  proof (cases "ps_may_pause (apply_one profile p) \<or> ps_may_stop (apply_one profile p)")
    case g: True
    let ?k = "spg_process_profile_match profile (ps_name p)"
    have k: "?k \<noteq> PROCESS_NO_PROFILE" using g by (auto simp: apply_one_def Let_def)
    then have "match_from profile (ps_name p) 0 = ?k" by (simp add: spg_process_profile_match_def split: if_splits)
    from match_from_sound [OF this k] have m: "profile ! ?k \<in> set profile" "name_matches (pe_match (profile ! ?k)) (ps_name p)"
      by simp_all
    have a: "ps_profile_id (apply_one profile p) = pe_id (profile ! ?k)"
      "ps_role (apply_one profile p) = pe_role (profile ! ?k)"
      "ps_may_pause (apply_one profile p) = pe_may_pause (profile ! ?k)"
      "ps_may_stop (apply_one profile p) = pe_may_stop (profile ! ?k)"
      using k by (simp_all add: apply_one_def Let_def)
    have "entry_ok (profile ! ?k)" using ok m(1) by (simp add: profile_ok_def list_all_iff)
    then have "pe_role (profile ! ?k) = ROLE_BATCH"
      using g a by (cases "pe_role (profile ! ?k)") (auto simp: entry_ok_def)
    moreover have "ps_name (apply_one profile p) = ps_name p" by (simp add: apply_one_def Let_def)
    ultimately show ?thesis using m a unfolding permission_ok_def by metis
  qed (simp add: permission_ok_def)
  then show ?thesis using ok l by (simp add: list_all_iff spg_process_apply_profile_def)
qed

end
