(* ===== verification/MachineExec.thy ===== *)
theory MachineExec
  imports ProcessProfile Policy Journal SexprWriter
begin

text \<open>
  The executor of machine actions, \<open>src/executor/machine_executor.c\<close>: stopping and continuing
  processes, the ledger of pauses owed a resume, its release, and the recovery from a journal.
  The kernel is a parameter: a \<open>kernel\<close> answers each query and signal from the history of all
  earlier ones, so a pid may change owner between any two of them. The history is explicit
  state. The model is of the POSIX build (\<open>SPG_MACHINE_SIGNALS\<close>).
\<close>

section \<open>The kernel as a parameter\<close>

datatype sig = SIGSTOP | SIGCONT

text \<open>
  What happened, with the kernel's answers: an identity read, a probe with signal 0, a signal to a
  pid meant for an identity and whether it was delivered, a guardian forked, one dismissed.
\<close>

datatype sys_event =
    Ev_identity u64 "u64 option"
  | Ev_probe u64 bool
  | Ev_kill u64 u64 sig bool
  | Ev_guard u64 u64 int
  | Ev_dismiss int

datatype kill_result = Kill_ok | Kill_ESRCH | Kill_EPERM | Kill_other

record kernel =
  kn_self :: u64
  kn_parent :: u64
  kn_identity :: "sys_event list \<Rightarrow> u64 \<Rightarrow> u64 option"
  kn_alive :: "sys_event list \<Rightarrow> u64 \<Rightarrow> bool"
  kn_kill :: "sys_event list \<Rightarrow> u64 \<Rightarrow> sig \<Rightarrow> kill_result"
  kn_guard :: "sys_event list \<Rightarrow> u64 \<Rightarrow> int"

section \<open>Data\<close>

definition MACHINE_MAX_PAUSED :: nat where "MACHINE_MAX_PAUSED = 16"

datatype machine_outcome =
  EXEC_OK | EXEC_IDENTITY_CHANGED | EXEC_ALREADY_PAUSED | EXEC_GONE | EXEC_FORBIDDEN
| EXEC_NOT_FOUND | EXEC_REFUSED | EXEC_UNSUPPORTED

record paused_entry =
  pz_pid :: u64
  pz_guard_fd :: int
  pz_start_identity :: u64
  pz_profile_id :: string

type_synonym pause_ledger = "paused_entry list"

record machine_exec_config =
  mx_actor_id :: u32
  mx_timestamp_ns :: u64
  mx_parent_sequence :: u64
  mx_write_journal :: bool
  mx_execution_enabled :: bool

record machine_exec_result =
  mr_outcome :: machine_outcome
  mr_pid :: u64
  mr_identity :: u64
  mr_sequence :: u64
  mr_payload_used :: nat
  mr_payload_truncated :: bool

text \<open>What a step changes: the history, the ledger, the journal.\<close>

record exec_world =
  xw_events :: "sys_event list"
  xw_ledger :: "pause_ledger option"
  xw_journal :: "journal_writer option"

definition zero_machine_result :: machine_exec_result where
  "zero_machine_result = \<lparr>mr_outcome = EXEC_OK, mr_pid = 0, mr_identity = 0, mr_sequence = 0,
     mr_payload_used = 0, mr_payload_truncated = False\<rparr>"

fun spg_machine_exec_outcome_to_string :: "machine_outcome \<Rightarrow> string" where
  "spg_machine_exec_outcome_to_string EXEC_OK = ''ok''"
| "spg_machine_exec_outcome_to_string EXEC_IDENTITY_CHANGED = ''identity_changed''"
| "spg_machine_exec_outcome_to_string EXEC_ALREADY_PAUSED = ''already_paused''"
| "spg_machine_exec_outcome_to_string EXEC_GONE = ''gone''"
| "spg_machine_exec_outcome_to_string EXEC_FORBIDDEN = ''forbidden''"
| "spg_machine_exec_outcome_to_string EXEC_NOT_FOUND = ''not_found''"
| "spg_machine_exec_outcome_to_string EXEC_REFUSED = ''refused''"
| "spg_machine_exec_outcome_to_string EXEC_UNSUPPORTED = ''unsupported''"

fun find_sample :: "string \<Rightarrow> process_sample list \<Rightarrow> process_sample option" where
  "find_sample target [] = None"
| "find_sample target (p # ps) = (if ps_profile_id p = target then Some p else find_sample target ps)"

definition find_target :: "machine_state option \<Rightarrow> string \<Rightarrow> process_sample option" where
  "find_target machine target =
     (case machine of None \<Rightarrow> None
      | Some m \<Rightarrow> if target = [] then None else find_sample target (mc_processes m))"

section \<open>The ledger\<close>

fun ledger_index :: "u64 \<Rightarrow> u64 \<Rightarrow> pause_ledger \<Rightarrow> nat \<Rightarrow> nat option" where
  "ledger_index pid ident [] i = None"
| "ledger_index pid ident (e # es) i =
     (if pz_pid e = pid \<and> pz_start_identity e = ident then Some i else ledger_index pid ident es (Suc i))"

definition ledger_holds :: "pause_ledger option \<Rightarrow> process_sample \<Rightarrow> bool" where
  "ledger_holds ledger p =
     (case ledger of None \<Rightarrow> False | Some es \<Rightarrow> ledger_index (ps_pid p) (ps_start_identity p) es 0 \<noteq> None)"

definition ledger_remember :: "pause_ledger option \<Rightarrow> process_sample \<Rightarrow> pause_ledger option \<times> bool" where
  "ledger_remember ledger p =
     (case ledger of
        None \<Rightarrow> (None, False)
      | Some es \<Rightarrow>
          if ledger_index (ps_pid p) (ps_start_identity p) es 0 \<noteq> None then (Some es, False)
          else if length es \<ge> MACHINE_MAX_PAUSED then (Some es, False)
          else (Some (es @ [\<lparr>pz_pid = ps_pid p, pz_guard_fd = -1,
                   pz_start_identity = ps_start_identity p, pz_profile_id = ps_profile_id p\<rparr>]), True))"

definition ledger_set_guard :: "pause_ledger option \<Rightarrow> u64 \<Rightarrow> u64 \<Rightarrow> int \<Rightarrow> pause_ledger option" where
  "ledger_set_guard ledger pid ident fd =
     map_option (\<lambda>es. case ledger_index pid ident es 0 of
                    None \<Rightarrow> es | Some i \<Rightarrow> es[i := (es ! i)\<lparr>pz_guard_fd := fd\<rparr>]) ledger"

definition dismiss_guardian :: "int \<Rightarrow> sys_event list \<Rightarrow> sys_event list" where
  "dismiss_guardian fd hist = (if fd < 0 then hist else hist @ [Ev_dismiss fd])"

text \<open>The removed entry is replaced by the last one.\<close>

definition ledger_forget :: "u64 \<Rightarrow> u64 \<Rightarrow> exec_world \<Rightarrow> exec_world" where
  "ledger_forget pid ident w =
     (case xw_ledger w of
        None \<Rightarrow> w
      | Some es \<Rightarrow>
          (case ledger_index pid ident es 0 of
             None \<Rightarrow> w
           | Some i \<Rightarrow> w\<lparr>xw_events := dismiss_guardian (pz_guard_fd (es ! i)) (xw_events w),
                         xw_ledger := Some (butlast (es[i := last es]))\<rparr>))"

section \<open>Signals\<close>

definition identity_still_matches ::
  "kernel \<Rightarrow> sys_event list \<Rightarrow> u64 \<Rightarrow> u64 \<Rightarrow> bool \<times> sys_event list" where
  "identity_still_matches kn hist pid ident =
     (kn_identity kn hist pid = Some ident, hist @ [Ev_identity pid (kn_identity kn hist pid)])"

definition send_signal ::
  "kernel \<Rightarrow> sys_event list \<Rightarrow> u64 \<Rightarrow> u64 \<Rightarrow> action_kind \<Rightarrow> machine_outcome \<times> sys_event list" where
  "send_signal kn hist pid ident kind =
     (if pid \<le> 1 \<or> pid = kn_self kn \<or> pid = kn_parent kn \<or> pid > 2147483647 then (EXEC_REFUSED, hist)
      else (case identity_still_matches kn hist pid ident of
        (same, hist1) \<Rightarrow>
          if \<not> same then
            (if kn_alive kn hist1 pid then EXEC_IDENTITY_CHANGED else EXEC_GONE, hist1 @ [Ev_probe pid (kn_alive kn hist1 pid)])
          else let s = (if kind = ACTION_MACHINE_PAUSE then SIGSTOP else SIGCONT);
                   k = kn_kill kn hist1 pid s
               in ((case k of
                      Kill_ok \<Rightarrow> EXEC_OK | Kill_ESRCH \<Rightarrow> EXEC_GONE
                    | Kill_EPERM \<Rightarrow> EXEC_FORBIDDEN | Kill_other \<Rightarrow> EXEC_REFUSED),
                   hist1 @ [Ev_kill pid ident s (k = Kill_ok)])))"

section \<open>The journal entry\<close>

definition machine_texts :: "action_kind \<Rightarrow> string \<Rightarrow> machine_exec_result \<Rightarrow> string list" where
  "machine_texts kind target r =
     [''(machine_action (kind '', spg_action_kind_to_string kind, '') (target '' @ [ch_quote], target,
      [ch_quote] @ '') (pid '', u64_to_dec (mr_pid r), '') (identity '', u64_to_dec (mr_identity r),
      '') (outcome '', spg_machine_exec_outcome_to_string (mr_outcome r), ''))'']"

definition journal_action ::
  "machine_exec_config \<Rightarrow> action_kind \<Rightarrow> string \<Rightarrow> nat \<Rightarrow> write_outcome \<Rightarrow>
     exec_world \<times> machine_exec_result \<Rightarrow> exec_world \<times> machine_exec_result" where
  "journal_action cfg kind target capacity io st =
     (case st of (w, r) \<Rightarrow>
      let wr = foldl (\<lambda>wr t. fst (spg_sexpr_writer_append_text wr t))
                 (spg_sexpr_writer_init capacity (replicate capacity ch_nul)) (machine_texts kind target r);
          r1 = r\<lparr>mr_payload_used := wr_used wr, mr_payload_truncated := wr_truncated wr\<rparr>
      in (case xw_journal w of
            None \<Rightarrow> (w, r1)
          | Some jw \<Rightarrow>
              if \<not> mx_write_journal cfg then (w, r1)
              else (case spg_journal_writer_append jw (mx_timestamp_ns cfg) (mx_parent_sequence cfg)
                           EVENT_ACTION (if mr_outcome r = EXEC_OK then SPG_OK else SPG_E_INVALID_STATE)
                           (bytes_of (take (wr_used wr) (wr_buffer wr))) io of
                      (st, jw', sq) \<Rightarrow>
                        (w\<lparr>xw_journal := Some jw'\<rparr>,
                         r1\<lparr>mr_sequence := (case sq of None \<Rightarrow> 0 | Some n \<Rightarrow> n)\<rparr>))))"

section \<open>One action\<close>

definition set_target :: "process_sample \<Rightarrow> machine_outcome \<Rightarrow> machine_exec_result" where
  "set_target p outcome = zero_machine_result\<lparr>mr_pid := ps_pid p, mr_identity := ps_start_identity p,
     mr_outcome := outcome\<rparr>"

text \<open>The last branch of the step: arm the guardian of a pause, signal, settle the ledger.\<close>

definition perform ::
  "kernel \<Rightarrow> action_kind \<Rightarrow> process_sample \<Rightarrow> exec_world \<Rightarrow> exec_world \<times> machine_outcome" where
  "perform kn kind p w =
     (let pid = ps_pid p; ident = ps_start_identity p;
          guarded = (if kind \<noteq> ACTION_MACHINE_PAUSE then Some w
                     else let fd = kn_guard kn (xw_events w) pid;
                              w1 = w\<lparr>xw_events := xw_events w @ [Ev_guard pid ident fd]\<rparr>
                          in if fd < 0 then None
                             else Some (w1\<lparr>xw_ledger := ledger_set_guard (xw_ledger w1) pid ident fd\<rparr>))
      in case guarded of
           None \<Rightarrow> (ledger_forget pid ident
                      (w\<lparr>xw_events := xw_events w @ [Ev_guard pid ident (kn_guard kn (xw_events w) pid)]\<rparr>),
                    EXEC_REFUSED)
         | Some w2 \<Rightarrow>
             (case send_signal kn (xw_events w2) pid ident kind of
                (outcome, hist) \<Rightarrow>
                  let w3 = w2\<lparr>xw_events := hist\<rparr>
                  in (if (kind = ACTION_MACHINE_PAUSE \<and> outcome \<noteq> EXEC_OK) \<or>
                         (kind = ACTION_MACHINE_RESUME \<and> outcome = EXEC_OK)
                      then ledger_forget pid ident w3 else w3, outcome)))"

definition act_on_target ::
  "kernel \<Rightarrow> machine_exec_config \<Rightarrow> machine_state option \<Rightarrow> action_kind \<Rightarrow> string \<Rightarrow> exec_world \<Rightarrow>
     exec_world \<times> machine_exec_result" where
  "act_on_target kn cfg machine kind target w =
     (case find_target machine target of
        None \<Rightarrow> (w, zero_machine_result\<lparr>mr_outcome := EXEC_NOT_FOUND\<rparr>)
      | Some p \<Rightarrow>
          if \<not> mx_execution_enabled cfg
            then (w, zero_machine_result\<lparr>mr_pid := ps_pid p, mr_outcome := EXEC_UNSUPPORTED\<rparr>)
          else if kind = ACTION_MACHINE_PAUSE \<and> ledger_holds (xw_ledger w) p
            then (w, set_target p EXEC_ALREADY_PAUSED)
          else (case (if kind = ACTION_MACHINE_PAUSE then ledger_remember (xw_ledger w) p
                      else (xw_ledger w, True)) of
                  (ledger, ok) \<Rightarrow>
                    if \<not> ok then (w\<lparr>xw_ledger := ledger\<rparr>, set_target p EXEC_REFUSED)
                    else (case perform kn kind p (w\<lparr>xw_ledger := ledger\<rparr>) of
                            (w', outcome) \<Rightarrow> (w', set_target p outcome))))"

definition spg_machine_executor_step ::
  "kernel \<Rightarrow> machine_exec_config \<Rightarrow> machine_state option \<Rightarrow> action_kind \<Rightarrow> string \<Rightarrow> nat \<Rightarrow>
     write_outcome \<Rightarrow> exec_world \<Rightarrow> spg_status \<times> exec_world \<times> machine_exec_result option" where
  "spg_machine_executor_step kn cfg machine kind target capacity io w =
     (if capacity = 0 \<or> (kind \<noteq> ACTION_MACHINE_PAUSE \<and> kind \<noteq> ACTION_MACHINE_RESUME)
      then (SPG_E_INVALID_ARG, w, None)
      else (case journal_action cfg kind target capacity io (act_on_target kn cfg machine kind target w) of
              (w', r) \<Rightarrow> (SPG_OK, w', Some r)))"

text \<open>A batch stops after the first action that did not land.\<close>

fun spg_machine_executor_run ::
  "kernel \<Rightarrow> machine_exec_config \<Rightarrow> machine_state option \<Rightarrow> (action_kind \<times> string) list \<Rightarrow> nat \<Rightarrow>
     write_outcome list \<Rightarrow> exec_world \<Rightarrow> spg_status \<times> exec_world \<times> machine_exec_result list" where
  "spg_machine_executor_run kn cfg machine [] capacity ios w = (SPG_OK, w, [])"
| "spg_machine_executor_run kn cfg machine ((kind, target) # as) capacity ios w =
     (case spg_machine_executor_step kn cfg machine kind target capacity (hd ios) w of
        (st, w', None) \<Rightarrow> (st, w', [])
      | (st, w', Some r) \<Rightarrow>
          if mr_outcome r \<noteq> EXEC_OK then (SPG_OK, w', [r])
          else (case spg_machine_executor_run kn cfg machine as capacity (tl ios) w' of
                  (st', w'', rs) \<Rightarrow> (st', w'', r # rs)))"

section \<open>Release\<close>

definition resume_entry ::
  "kernel \<Rightarrow> machine_exec_config \<Rightarrow> nat \<Rightarrow> write_outcome \<Rightarrow> paused_entry \<Rightarrow> exec_world \<Rightarrow>
     exec_world \<times> machine_outcome" where
  "resume_entry kn cfg capacity io e w =
     (case (if mx_execution_enabled cfg
            then send_signal kn (xw_events w) (pz_pid e) (pz_start_identity e) ACTION_MACHINE_RESUME
            else (EXEC_UNSUPPORTED, xw_events w)) of
        (outcome, hist) \<Rightarrow>
          (fst (journal_action cfg ACTION_MACHINE_RESUME (pz_profile_id e) capacity io
                  (w\<lparr>xw_events := hist\<rparr>,
                   zero_machine_result\<lparr>mr_pid := pz_pid e, mr_identity := pz_start_identity e,
                     mr_outcome := outcome\<rparr>)), outcome))"

fun release_loop ::
  "kernel \<Rightarrow> machine_exec_config \<Rightarrow> nat \<Rightarrow> write_outcome list \<Rightarrow> pause_ledger \<Rightarrow> exec_world \<Rightarrow> nat \<Rightarrow>
     exec_world \<times> nat" where
  "release_loop kn cfg capacity ios [] w n = (w, n)"
| "release_loop kn cfg capacity ios (e # es) w n =
     (case resume_entry kn cfg capacity (hd ios) e w of
        (w1, outcome) \<Rightarrow>
          release_loop kn cfg capacity (tl ios) es
            (w1\<lparr>xw_events := dismiss_guardian (pz_guard_fd e) (xw_events w1)\<rparr>)
            (if outcome = EXEC_OK then n + 1 else n))"

definition spg_machine_ledger_release ::
  "kernel \<Rightarrow> machine_exec_config \<Rightarrow> nat \<Rightarrow> write_outcome list \<Rightarrow> exec_world \<Rightarrow>
     spg_status \<times> exec_world \<times> nat" where
  "spg_machine_ledger_release kn cfg capacity ios w =
     (if capacity = 0 then (SPG_E_INVALID_ARG, w, 0)
      else (case xw_ledger w of
              None \<Rightarrow> (SPG_OK, w, 0)
            | Some es \<Rightarrow> (case release_loop kn cfg capacity ios es w 0 of
                            (w', n) \<Rightarrow> (SPG_OK, w'\<lparr>xw_ledger := Some []\<rparr>, n))))"

section \<open>Recovery from a journal\<close>

definition pending_add :: "(u64 \<times> u64) list \<Rightarrow> u64 \<times> u64 \<Rightarrow> (u64 \<times> u64) list" where
  "pending_add pending e =
     (if e \<in> set pending then pending
      else if length pending < MACHINE_MAX_PAUSED then pending @ [e] else pending)"

fun pending_index :: "u64 \<times> u64 \<Rightarrow> (u64 \<times> u64) list \<Rightarrow> nat \<Rightarrow> nat option" where
  "pending_index e [] i = None"
| "pending_index e (p # ps) i = (if p = e then Some i else pending_index e ps (Suc i))"

definition pending_remove :: "(u64 \<times> u64) list \<Rightarrow> u64 \<times> u64 \<Rightarrow> (u64 \<times> u64) list" where
  "pending_remove pending e =
     (case pending_index e pending 0 of
        None \<Rightarrow> pending | Some i \<Rightarrow> butlast (pending[i := last pending]))"

text \<open>The digits at a place: \<open>None\<close> is the overflow that ends the whole search.\<close>

fun scan_u64 :: "string \<Rightarrow> u64 \<Rightarrow> bool \<Rightarrow> (u64 \<times> bool) option" where
  "scan_u64 [] v any = Some (v, any)"
| "scan_u64 (c # cs) v any =
     (if \<not> (code_of (CHR ''0'') \<le> code_of c \<and> code_of c \<le> code_of (CHR ''9'')) then Some (v, any)
      else let d = of_nat (code_of c - code_of (CHR ''0'')) :: u64
           in if v > (UINT64_MAX - d) div 10 then None else scan_u64 cs (v * 10 + d) True)"

fun payload_u64_from :: "string \<Rightarrow> string \<Rightarrow> u64 option" where
  "payload_u64_from needle [] = None"
| "payload_u64_from needle (c # cs) =
     (if length needle < length (c # cs) then
        (if take (length needle) (c # cs) \<noteq> needle then payload_u64_from needle cs
         else (case scan_u64 (drop (length needle) (c # cs)) 0 False of
                 None \<Rightarrow> None
               | Some (v, any) \<Rightarrow> if any then Some v else payload_u64_from needle cs))
      else None)"

definition payload_u64 :: "string \<Rightarrow> string \<Rightarrow> u64 option" where
  "payload_u64 txt field = payload_u64_from (take 31 (''('' @ field @ '' '')) txt"

fun payload_has :: "string \<Rightarrow> string \<Rightarrow> bool" where
  "payload_has [] what = (what = [])"
| "payload_has (c # cs) what = (take (length what) (c # cs) = what \<or> payload_has cs what)"

definition text_of :: "u8 list \<Rightarrow> string" where
  "text_of bs = map (\<lambda>b. char_of (unat b)) bs"

definition recover_record :: "journal_record \<Rightarrow> u8 list \<Rightarrow> (u64 \<times> u64) list \<Rightarrow> (u64 \<times> u64) list" where
  "recover_record rec raw pending =
     (let payload = text_of (take (jc_payload_used rec) raw) in
      if jh_event_kind (jc_header rec) \<noteq> event_code EVENT_ACTION \<or>
         \<not> payload_has payload ''(machine_action '' \<or> \<not> payload_has payload ''(outcome ok)''
      then pending
      else (case (payload_u64 payload ''pid'', payload_u64 payload ''identity'') of
              (Some pid, Some ident) \<Rightarrow>
                if payload_has payload ''machine_pause_process'' then pending_add pending (pid, ident)
                else if payload_has payload ''machine_resume_process'' then pending_remove pending (pid, ident)
                else pending
            | _ \<Rightarrow> pending))"

end
