(* ===== verification/MachineExecProps.thy ===== *)
theory MachineExecProps
  imports MachineExec
begin

text \<open>
  What the machine executor owes the processes it stops. The history determines the pauses that
  are \<open>outstanding\<close>; the ledger is proved to hold all of them after any sequence of actions, and
  the release at the end of a run to attend to each.
\<close>

section \<open>Outstanding pauses\<close>

type_synonym process_key = "u64 \<times> u64"

fun after_event :: "process_key set \<Rightarrow> sys_event \<Rightarrow> process_key set" where
  "after_event S (Ev_kill pid ident SIGSTOP True) = insert (pid, ident) S"
| "after_event S (Ev_kill pid ident SIGCONT True) = S - {(pid, ident)}"
| "after_event S _ = S"

definition outstanding :: "sys_event list \<Rightarrow> process_key set" where
  "outstanding hist = foldl after_event {} hist"

lemma outstanding_append: "outstanding (hist @ evs) = foldl after_event (outstanding hist) evs"
  by (simp add: outstanding_def)

definition key :: "paused_entry \<Rightarrow> process_key" where
  "key e = (pz_pid e, pz_start_identity e)"

definition keys_of :: "pause_ledger option \<Rightarrow> process_key list" where
  "keys_of ledger = (case ledger of None \<Rightarrow> [] | Some es \<Rightarrow> map key es)"

lemma ledger_index_Some:
  "ledger_index pid ident es i = Some k \<Longrightarrow> i \<le> k \<and> k < i + length es \<and> key (es ! (k - i)) = (pid, ident)"
proof (induction es arbitrary: i)
  case (Cons e es)
  show ?case
  proof (cases "pz_pid e = pid \<and> pz_start_identity e = ident")
    case False
    then have "ledger_index pid ident es (Suc i) = Some k" using Cons.prems by (auto split: if_splits)
    from Cons.IH [OF this] show ?thesis by (auto simp: nth_Cons' Suc_diff_Suc Suc_le_eq)
  qed (use Cons.prems in \<open>auto simp: key_def\<close>)
qed simp

lemma ledger_index_None: "ledger_index pid ident es i = None \<longleftrightarrow> (pid, ident) \<notin> set (map key es)"
  by (induction es arbitrary: i) (auto simp: key_def)

lemma swap_remove:
  assumes "distinct xs" "i < length xs"
  shows "distinct (butlast (xs[i := last xs]))" "set (butlast (xs[i := last xs])) = set xs - {xs ! i}"
proof -
  obtain ys z where x: "xs = ys @ [z]" using assms(2) by (cases xs rule: rev_cases) auto
  have both: "distinct (butlast (xs[i := last xs])) \<and> set (butlast (xs[i := last xs])) = set xs - {xs ! i}"
  proof (cases "i < length ys")
    case True
    have "z \<notin> set ys" "distinct ys" using assms(1) x by auto
    then show ?thesis
      using True x by (auto simp: list_update_append1 nth_append distinct_list_update set_update_distinct
        dest: set_update_subset_insert [THEN subsetD])
  next
    case False
    then have "i = length ys" using assms(2) x by simp
    then show ?thesis using assms(1) x by auto
  qed
  then show "distinct (butlast (xs[i := last xs]))" "set (butlast (xs[i := last xs])) = set xs - {xs ! i}"
    by blast+
qed

lemma forget_keys:
  assumes "distinct (keys_of (xw_ledger w))"
  shows "distinct (keys_of (xw_ledger (ledger_forget pid ident w)))"
    and "set (keys_of (xw_ledger (ledger_forget pid ident w))) = set (keys_of (xw_ledger w)) - {(pid, ident)}"
    and "length (keys_of (xw_ledger (ledger_forget pid ident w))) \<le> length (keys_of (xw_ledger w))"
proof -
  have all: "distinct (keys_of (xw_ledger (ledger_forget pid ident w))) \<and>
    set (keys_of (xw_ledger (ledger_forget pid ident w))) = set (keys_of (xw_ledger w)) - {(pid, ident)} \<and>
    length (keys_of (xw_ledger (ledger_forget pid ident w))) \<le> length (keys_of (xw_ledger w))"
  proof (cases "xw_ledger w")
    case (Some es)
    show ?thesis
    proof (cases "ledger_index pid ident es 0")
      case None
      then have "(pid, ident) \<notin> set (map key es)" using ledger_index_None by blast
      then show ?thesis using Some None assms by (auto simp: ledger_forget_def keys_of_def)
    next
      case i: (Some i)
      note b = ledger_index_Some [OF i]
      have m: "map key (butlast (es[i := last es])) = butlast ((map key es)[i := last (map key es)])"
        using b by (cases es rule: rev_cases) (simp_all add: map_butlast map_update)
      have n: "map key es ! i = (pid, ident)" using b by simp
      show ?thesis using swap_remove [of "map key es" i] assms Some i b n
        by (simp add: ledger_forget_def keys_of_def m)
    qed
  qed (use assms in \<open>simp add: ledger_forget_def keys_of_def\<close>)
  then show "distinct (keys_of (xw_ledger (ledger_forget pid ident w)))"
    "set (keys_of (xw_ledger (ledger_forget pid ident w))) = set (keys_of (xw_ledger w)) - {(pid, ident)}"
    "length (keys_of (xw_ledger (ledger_forget pid ident w))) \<le> length (keys_of (xw_ledger w))"
    by blast+
qed

lemma forget_events: "\<exists>fd. xw_events (ledger_forget pid ident w) = xw_events w \<or>
    xw_events (ledger_forget pid ident w) = xw_events w @ [Ev_dismiss fd]"
  by (auto simp: ledger_forget_def dismiss_guardian_def split: option.splits)

lemma outstanding_forget [simp]: "outstanding (xw_events (ledger_forget pid ident w)) = outstanding (xw_events w)"
  using forget_events [of pid ident w] by (auto simp: outstanding_append)

lemma set_guard_keys: "keys_of (ledger_set_guard l pid ident fd) = keys_of l"
proof (cases l)
  case (Some es)
  have "map key (es[i := (es ! i)\<lparr>pz_guard_fd := fd\<rparr>]) = map key es" for i
    by (rule nth_equalityI) (simp_all add: upd_nth key_def)
  then show ?thesis using Some by (simp add: ledger_set_guard_def keys_of_def split: option.split)
qed (simp add: ledger_set_guard_def keys_of_def)

lemma remember_keys:
  "ledger_remember l p = (l', True) \<Longrightarrow>
     keys_of l' = keys_of l @ [(ps_pid p, ps_start_identity p)] \<and>
     (ps_pid p, ps_start_identity p) \<notin> set (keys_of l) \<and> length (keys_of l) < MACHINE_MAX_PAUSED"
  "ledger_remember l p = (l', False) \<Longrightarrow> l' = l"
  by (auto simp: ledger_remember_def keys_of_def key_def ledger_index_None
      split: option.splits if_splits)

section \<open>Signals are guarded\<close>

definition may_signal :: "kernel \<Rightarrow> u64 \<Rightarrow> bool" where
  "may_signal kn pid \<longleftrightarrow> 1 < pid \<and> pid \<noteq> kn_self kn \<and> pid \<noteq> kn_parent kn \<and> pid \<le> 2147483647"

text \<open>Every signal of a history follows directly on a read that confirmed the identity.\<close>

fun guarded_from :: "kernel \<Rightarrow> sys_event option \<Rightarrow> sys_event list \<Rightarrow> bool" where
  "guarded_from kn prev [] = True"
| "guarded_from kn prev (e # es) =
     ((case e of Ev_kill pid ident s ok \<Rightarrow> may_signal kn pid \<and> prev = Some (Ev_identity pid (Some ident))
       | _ \<Rightarrow> True) \<and> guarded_from kn (Some e) es)"

definition guarded :: "kernel \<Rightarrow> sys_event list \<Rightarrow> bool" where
  "guarded kn hist = guarded_from kn None hist"

lemma guarded_from_append:
  "guarded_from kn prev (xs @ ys) \<longleftrightarrow>
   guarded_from kn prev xs \<and> guarded_from kn (if xs = [] then prev else Some (last xs)) ys"
  by (induction xs arbitrary: prev) auto

lemma guarded_snoc: "(\<And>pid ident s ok. e \<noteq> Ev_kill pid ident s ok) \<Longrightarrow> guarded kn (hist @ [e]) = guarded kn hist"
  by (cases e) (auto simp: guarded_def guarded_from_append)

lemma guarded_forget: "guarded kn (xw_events w) \<Longrightarrow> guarded kn (xw_events (ledger_forget pid ident w))"
  using forget_events [of pid ident w] by (auto simp: guarded_snoc)

text \<open>All there is to know about a signal sent.\<close>

lemma send_signal_cases:
  assumes "send_signal kn hist pid ident kind = (outcome, hist')"
  obtains (refused) "\<not> may_signal kn pid" "outcome = EXEC_REFUSED" "hist' = hist"
  | (changed) x a where "may_signal kn pid" "outcome \<noteq> EXEC_OK" "x \<noteq> Some ident"
      "hist' = hist @ [Ev_identity pid x, Ev_probe pid a]"
  | (sent) ok where "may_signal kn pid"
      "hist' = hist @ [Ev_identity pid (Some ident),
                       Ev_kill pid ident (if kind = ACTION_MACHINE_PAUSE then SIGSTOP else SIGCONT) ok]"
      "outcome = EXEC_OK \<longleftrightarrow> ok"
proof (cases "may_signal kn pid")
  case False
  then show thesis using assms refused by (auto simp: send_signal_def may_signal_def not_less not_le)
next
  case True
  then have nr: "\<not> (pid \<le> 1 \<or> pid = kn_self kn \<or> pid = kn_parent kn \<or> pid > 2147483647)"
    by (auto simp: may_signal_def not_less not_le)
  show thesis
  proof (cases "kn_identity kn hist pid = Some ident")
    case False
    then show thesis
      using assms nr True changed [of "kn_identity kn hist pid"]
      by (auto simp: send_signal_def identity_still_matches_def split: if_splits)
  next
    case same: True
    define s where "s = (if kind = ACTION_MACHINE_PAUSE then SIGSTOP else SIGCONT)"
    define k where "k = kn_kill kn (hist @ [Ev_identity pid (Some ident)]) pid s"
    have "hist' = hist @ [Ev_identity pid (Some ident), Ev_kill pid ident s (k = Kill_ok)]"
      "outcome = (case k of Kill_ok \<Rightarrow> EXEC_OK | Kill_ESRCH \<Rightarrow> EXEC_GONE | Kill_EPERM \<Rightarrow> EXEC_FORBIDDEN
         | Kill_other \<Rightarrow> EXEC_REFUSED)"
      using assms nr same by (simp_all add: send_signal_def identity_still_matches_def Let_def s_def k_def)
    then show thesis using sent [of "k = Kill_ok"] True by (cases k) (simp_all add: s_def)
  qed
qed

lemma send_signal_guarded:
  "send_signal kn hist pid ident kind = (outcome, hist') \<Longrightarrow> guarded kn hist \<Longrightarrow> guarded kn hist'"
  by (erule send_signal_cases) (auto simp: guarded_def guarded_from_append)

lemma send_signal_outstanding:
  assumes "send_signal kn hist pid ident kind = (outcome, hist')"
  shows "outstanding hist' =
    (if outcome = EXEC_OK then (if kind = ACTION_MACHINE_PAUSE then insert (pid, ident) (outstanding hist)
                                else outstanding hist - {(pid, ident)})
     else outstanding hist)"
  using assms
proof (cases rule: send_signal_cases)
  case (sent ok)
  then show ?thesis by (cases ok) (auto simp: outstanding_append)
qed (auto simp: outstanding_append)

section \<open>The ledger holds every outstanding pause\<close>

definition tracked :: "kernel \<Rightarrow> exec_world \<Rightarrow> bool" where
  "tracked kn w \<longleftrightarrow> outstanding (xw_events w) \<subseteq> set (keys_of (xw_ledger w)) \<and>
     distinct (keys_of (xw_ledger w)) \<and> length (keys_of (xw_ledger w)) \<le> MACHINE_MAX_PAUSED \<and>
     guarded kn (xw_events w)"

lemma perform_tracked:
  assumes "perform kn kind p w = (w', outcome)" "tracked kn w" "kind = ACTION_MACHINE_PAUSE \<or> kind = ACTION_MACHINE_RESUME"
    and "kind = ACTION_MACHINE_PAUSE \<Longrightarrow> (ps_pid p, ps_start_identity p) \<in> set (keys_of (xw_ledger w)) - outstanding (xw_events w)"
  shows "tracked kn w'"
proof -
  let ?pid = "ps_pid p" and ?ident = "ps_start_identity p"
  let ?fd = "kn_guard kn (xw_events w) ?pid"
  let ?wg = "w\<lparr>xw_events := xw_events w @ [Ev_guard ?pid ?ident ?fd]\<rparr>"
  have tg: "tracked kn ?wg" using assms(2) by (simp add: tracked_def outstanding_append guarded_snoc)
  show ?thesis
  proof (cases "kind = ACTION_MACHINE_PAUSE \<and> ?fd < 0")
    case True
    then have "w' = ledger_forget ?pid ?ident ?wg" using assms(1) by (simp add: perform_def Let_def)
    then show ?thesis
      using tg assms(4) True forget_keys [of ?wg ?pid ?ident] guarded_forget [of kn ?wg ?pid ?ident]
      by (auto simp: tracked_def outstanding_append)
  next
    case False
    define w2 where "w2 = (if kind = ACTION_MACHINE_PAUSE
       then ?wg\<lparr>xw_ledger := ledger_set_guard (xw_ledger w) ?pid ?ident ?fd\<rparr> else w)"
    have t2: "tracked kn w2" using tg assms(2) by (simp add: w2_def tracked_def set_guard_keys)
    have k2: "keys_of (xw_ledger w2) = keys_of (xw_ledger w)" "outstanding (xw_events w2) = outstanding (xw_events w)"
      by (simp_all add: w2_def set_guard_keys outstanding_append)
    obtain o2 hist where s: "send_signal kn (xw_events w2) ?pid ?ident kind = (o2, hist)" by fastforce
    let ?w3 = "w2\<lparr>xw_events := hist\<rparr>"
    have w': "w' = (if (kind = ACTION_MACHINE_PAUSE \<and> o2 \<noteq> EXEC_OK) \<or> (kind = ACTION_MACHINE_RESUME \<and> o2 = EXEC_OK)
        then ledger_forget ?pid ?ident ?w3 else ?w3)"
      using assms(1) False s by (auto simp: perform_def Let_def w2_def split: if_splits)
    have g3: "guarded kn hist" using send_signal_guarded [OF s] t2 by (simp add: tracked_def)
    note o3 = send_signal_outstanding [OF s]
    have d3: "distinct (keys_of (xw_ledger ?w3))" using t2 by (simp add: tracked_def)
    show ?thesis
      using w' g3 o3 t2 k2 assms(3,4) forget_keys [OF d3, of ?pid ?ident] guarded_forget [of kn ?w3 ?pid ?ident]
      by (auto simp: tracked_def split: if_splits)
  qed
qed

lemma journal_action_frame:
  "journal_action cfg kind target cap io (w, r) = (w', r') \<Longrightarrow>
   xw_events w' = xw_events w \<and> xw_ledger w' = xw_ledger w \<and> mr_outcome r' = mr_outcome r"
  by (auto simp: journal_action_def Let_def split: option.splits if_splits prod.splits)

lemma act_tracked:
  assumes "act_on_target kn cfg machine kind target w = (w', r)" "tracked kn w"
    and "kind = ACTION_MACHINE_PAUSE \<or> kind = ACTION_MACHINE_RESUME"
  shows "tracked kn w'"
proof (cases "find_target machine target")
  case None
  then show ?thesis using assms by (simp add: act_on_target_def)
next
  case (Some p)
  show ?thesis
  proof (cases "\<not> mx_execution_enabled cfg \<or> (kind = ACTION_MACHINE_PAUSE \<and> ledger_holds (xw_ledger w) p)")
    case True
    then show ?thesis using assms Some by (auto simp: act_on_target_def split: if_splits)
  next
    case go: False
    show ?thesis
    proof (cases "kind = ACTION_MACHINE_PAUSE")
      case False
      obtain w1 out where p: "perform kn kind p w = (w1, out)" by fastforce
      have "w' = w1" using assms(1) Some go False p by (auto simp: act_on_target_def)
      then show ?thesis using perform_tracked [OF p assms(2,3)] False by simp
    next
      case True
      obtain l ok where m: "ledger_remember (xw_ledger w) p = (l, ok)" by fastforce
      show ?thesis
      proof (cases ok)
        case False
        then have "w' = w\<lparr>xw_ledger := l\<rparr>" using assms(1) Some go True m by (auto simp: act_on_target_def)
        moreover have "l = xw_ledger w" using remember_keys(2) [of "xw_ledger w" p l] m False by simp
        ultimately show ?thesis using assms(2) by (simp add: tracked_def)
      next
        case ok: True
        note rk = remember_keys(1) [OF m [unfolded eqTrueI [OF ok]]]
        let ?w = "w\<lparr>xw_ledger := l\<rparr>"
        obtain w1 out where p: "perform kn kind p ?w = (w1, out)" by fastforce
        have "w' = w1" using assms(1) Some go True m ok p by (auto simp: act_on_target_def)
        moreover have "tracked kn ?w" using rk assms(2) by (auto simp: tracked_def)
        moreover have "(ps_pid p, ps_start_identity p) \<in> set (keys_of (xw_ledger ?w)) - outstanding (xw_events ?w)"
          using rk assms(2) by (auto simp: tracked_def)
        ultimately show ?thesis using perform_tracked [OF p _ assms(3)] by simp
      qed
    qed
  qed
qed

lemma step_tracked:
  assumes "spg_machine_executor_step kn cfg machine kind target cap io w = (st, w', r)" "tracked kn w"
  shows "tracked kn w'"
proof (cases "cap = 0 \<or> (kind \<noteq> ACTION_MACHINE_PAUSE \<and> kind \<noteq> ACTION_MACHINE_RESUME)")
  case True
  then show ?thesis using assms by (auto simp: spg_machine_executor_step_def)
next
  case False
  obtain w1 r1 where a: "act_on_target kn cfg machine kind target w = (w1, r1)" by fastforce
  obtain w2 r2 where j: "journal_action cfg kind target cap io (w1, r1) = (w2, r2)" by fastforce
  have "w' = w2" using assms(1) False a j by (auto simp: spg_machine_executor_step_def)
  then show ?thesis
    using act_tracked [OF a assms(2)] False journal_action_frame [OF j] by (auto simp: tracked_def)
qed


section \<open>Every run of actions\<close>

inductive exec_step :: "kernel \<Rightarrow> exec_world \<Rightarrow> exec_world \<Rightarrow> bool" for kn where
  exec_step: "spg_machine_executor_step kn cfg machine kind target cap io w = (st, w', r) \<Longrightarrow>
     exec_step kn w w'"

inductive_cases exec_stepE: "exec_step kn w w'"

lemma exec_run_tracked: "(exec_step kn)\<^sup>*\<^sup>* w w' \<Longrightarrow> tracked kn w \<Longrightarrow> tracked kn w'"
  by (induction rule: rtranclp_induct) (auto elim!: exec_stepE dest: step_tracked)

lemma batch_run: "spg_machine_executor_run kn cfg machine as cap ios w = (st, w', rs) \<Longrightarrow> (exec_step kn)\<^sup>*\<^sup>* w w'"
proof (induction as arbitrary: ios w rs)
  case (Cons a as)
  obtain kind target where a: "a = (kind, target)" by fastforce
  obtain st1 w1 r where s: "spg_machine_executor_step kn cfg machine kind target cap (hd ios) w = (st1, w1, r)"
    by (metis prod_cases3)
  have 1: "exec_step kn w w1" by (rule exec_step [OF s])
  show ?case
  proof (cases "r = None \<or> mr_outcome (the r) \<noteq> EXEC_OK")
    case True
    then have "w' = w1" using Cons.prems a s by (auto split: option.splits if_splits)
    then show ?thesis using 1 by blast
  next
    case False
    then obtain rs' where "spg_machine_executor_run kn cfg machine as cap (tl ios) w1 = (st, w', rs')"
      using Cons.prems a s by (auto split: option.splits if_splits prod.splits)
    from Cons.IH [OF this] 1 show ?thesis by (rule converse_rtranclp_into_rtranclp [rotated])
  qed
qed auto

definition fresh_world :: "journal_writer option \<Rightarrow> exec_world" where
  "fresh_world jw = \<lparr>xw_events = [], xw_ledger = Some [], xw_journal = jw\<rparr>"

lemma fresh_tracked: "tracked kn (fresh_world jw)"
  by (simp add: tracked_def fresh_world_def outstanding_def guarded_def keys_of_def)

text \<open>
  C24: No pause is forgotten and no signal goes astray. After any sequence of actions of a run,
  with any snapshots and a kernel that answers as it likes, every process this run stopped and
  has not continued is in the ledger, under its pid and start identity, and the ledger's at most
  16 entries are distinct; and every signal ever sent was sent to a pid above 1 that is neither
  the agent nor its parent, immediately after the kernel confirmed that the pid still has the
  identity of the process that was decided about.
\<close>

theorem machine_pauses_tracked:
  assumes "(exec_step kn)\<^sup>*\<^sup>* (fresh_world jw) w"
  shows "outstanding (xw_events w) \<subseteq> set (keys_of (xw_ledger w)) \<and>
    distinct (keys_of (xw_ledger w)) \<and> length (keys_of (xw_ledger w)) \<le> 16 \<and> guarded kn (xw_events w)"
  using exec_run_tracked [OF assms fresh_tracked] by (simp add: tracked_def MACHINE_MAX_PAUSED_def)

section \<open>The release\<close>

text \<open>A key is attended to by a continue signal, or by an identity read that shows it gone.\<close>

definition attended :: "sys_event list \<Rightarrow> process_key \<Rightarrow> bool" where
  "attended evs k \<longleftrightarrow> (\<exists>ok. Ev_kill (fst k) (snd k) SIGCONT ok \<in> set evs) \<or>
     (\<exists>x. Ev_identity (fst k) x \<in> set evs \<and> x \<noteq> Some (snd k))"

lemma attended_mono: "attended evs k \<Longrightarrow> attended (xs @ evs @ ys) k"
  by (auto simp: attended_def)

lemma resume_entry_events:
  assumes "resume_entry kn cfg cap io e w = (w', outcome)"
  shows "xw_events w' = snd (if mx_execution_enabled cfg
            then send_signal kn (xw_events w) (pz_pid e) (pz_start_identity e) ACTION_MACHINE_RESUME
            else (EXEC_UNSUPPORTED, xw_events w))"
proof -
  obtain o1 hist where s: "(if mx_execution_enabled cfg
            then send_signal kn (xw_events w) (pz_pid e) (pz_start_identity e) ACTION_MACHINE_RESUME
            else (EXEC_UNSUPPORTED, xw_events w)) = (o1, hist)" by fastforce
  let ?r = "zero_machine_result\<lparr>mr_pid := pz_pid e, mr_identity := pz_start_identity e, mr_outcome := o1\<rparr>"
  obtain w2 r2 where j: "journal_action cfg ACTION_MACHINE_RESUME (pz_profile_id e) cap io (w\<lparr>xw_events := hist\<rparr>, ?r) = (w2, r2)"
    by fastforce
  have "w' = w2" using assms unfolding resume_entry_def s by (simp add: j)
  then show ?thesis using journal_action_frame [OF j] s by simp
qed

lemma resume_entry_grow:
  assumes "resume_entry kn cfg cap io e w = (w', outcome)"
  shows "\<exists>new. xw_events w' = xw_events w @ new"
proof (cases "mx_execution_enabled cfg")
  case True
  obtain o1 hist where s: "send_signal kn (xw_events w) (pz_pid e) (pz_start_identity e) ACTION_MACHINE_RESUME = (o1, hist)"
    by fastforce
  then have "\<exists>new. hist = xw_events w @ new" by (cases rule: send_signal_cases) auto
  then show ?thesis using resume_entry_events [OF assms] s True by simp
qed (use resume_entry_events [OF assms] in simp)

lemma resume_attends:
  assumes "resume_entry kn cfg cap io e w = (w', outcome)" "mx_execution_enabled cfg" "may_signal kn (pz_pid e)"
  shows "\<exists>new. xw_events w' = xw_events w @ new \<and> attended new (key e)"
proof -
  obtain o1 hist where s: "send_signal kn (xw_events w) (pz_pid e) (pz_start_identity e) ACTION_MACHINE_RESUME = (o1, hist)"
    by fastforce
  have "xw_events w' = hist" using resume_entry_events [OF assms(1)] assms(2) s by simp
  with s show ?thesis
    by (cases rule: send_signal_cases) (use assms(3) in \<open>auto simp: attended_def key_def\<close>)
qed

lemma release_grow:
  "release_loop kn cfg cap ios es w n = (w', m) \<Longrightarrow> \<exists>new. xw_events w' = xw_events w @ new"
proof (induction es arbitrary: ios w n)
  case (Cons e es)
  obtain w1 o1 where r: "resume_entry kn cfg cap (hd ios) e w = (w1, o1)" by fastforce
  obtain new where "xw_events w1 = xw_events w @ new" using resume_entry_grow [OF r] by blast
  then show ?case
    using Cons.IH [of "tl ios" "w1\<lparr>xw_events := dismiss_guardian (pz_guard_fd e) (xw_events w1)\<rparr>"] Cons.prems r
    by (fastforce simp: dismiss_guardian_def split: if_splits)
qed simp

lemma release_attends:
  assumes "release_loop kn cfg cap ios es w n = (w', m)" "mx_execution_enabled cfg"
    and "\<forall>e \<in> set es. k = key e \<longrightarrow> may_signal kn (pz_pid e)" "k \<in> set (map key es)"
  shows "\<exists>new. xw_events w' = xw_events w @ new \<and> attended new k"
proof -
  show ?thesis
    using assms(1,3,4)
  proof (induction es arbitrary: ios w n)
    case (Cons e es)
    obtain w1 o1 where r: "resume_entry kn cfg cap (hd ios) e w = (w1, o1)" by fastforce
    let ?w2 = "w1\<lparr>xw_events := dismiss_guardian (pz_guard_fd e) (xw_events w1)\<rparr>"
    have rest: "release_loop kn cfg cap (tl ios) es ?w2 (if o1 = EXEC_OK then n + 1 else n) = (w', m)"
      using Cons.prems(1) r by simp
    have dis: "\<exists>d. xw_events ?w2 = xw_events w1 @ d" by (simp add: dismiss_guardian_def)
    obtain new1 where n1: "xw_events w1 = xw_events w @ new1"
      using resume_entry_grow [OF r] by blast
    show ?case
    proof (cases "key e = k")
      case True
      then have "may_signal kn (pz_pid e)" using Cons.prems(2) by simp
      from resume_attends [OF r assms(2) this] True obtain new where
        "xw_events w1 = xw_events w @ new" "attended new k" by blast
      moreover obtain new2 where "xw_events w' = xw_events ?w2 @ new2" using release_grow [OF rest] by blast
      moreover obtain d where "xw_events ?w2 = xw_events w1 @ d" using dis by blast
      ultimately show ?thesis using attended_mono [of new k "[]" "d @ new2"] by (intro exI [of _ "new @ d @ new2"]) simp
    next
      case False
      from Cons.IH [OF rest] Cons.prems(2,3) False obtain new where
        "xw_events w' = xw_events ?w2 @ new" "attended new k" by auto
      moreover obtain d where "xw_events ?w2 = xw_events w1 @ d" using dis by blast
      ultimately show ?thesis using attended_mono [of new k "new1 @ d" "[]"] n1
        by (intro exI [of _ "new1 @ d @ new"]) simp
    qed
  qed simp
qed


lemma outstanding_killed: "k \<in> outstanding hist \<Longrightarrow> Ev_kill (fst k) (snd k) SIGSTOP True \<in> set hist"
proof (induction hist rule: rev_induct)
  case (snoc e hist)
  then show ?case
    by (cases "(outstanding hist, e)" rule: after_event.cases) (auto simp: outstanding_append)
qed (simp add: outstanding_def)

lemma guarded_may_signal: "guarded_from kn prev hist \<Longrightarrow> Ev_kill pid ident s ok \<in> set hist \<Longrightarrow> may_signal kn pid"
  by (induction hist arbitrary: prev) auto

text \<open>
  C25: Nothing stays paused: the release at the end of a run attends to every process the run
  stopped and has not continued, each either sent a continue signal or found to be another
  process by then (or gone), however many of the others fail; and it leaves the ledger empty.
\<close>

theorem machine_release_attends:
  assumes "(exec_step kn)\<^sup>*\<^sup>* (fresh_world jw) w" "mx_execution_enabled cfg" "0 < cap"
    and "spg_machine_ledger_release kn cfg cap ios w = (st, w', n)"
  shows "st = SPG_OK \<and> keys_of (xw_ledger w') = [] \<and>
    (\<exists>new. xw_events w' = xw_events w @ new \<and> list_all (attended new) (filter (\<lambda>k. k \<in> outstanding (xw_events w)) (keys_of (xw_ledger w))) \<and>
       outstanding (xw_events w) \<subseteq> set (keys_of (xw_ledger w)))"
proof -
  have t: "tracked kn w" using exec_run_tracked [OF assms(1) fresh_tracked] .
  show ?thesis
  proof (cases "xw_ledger w")
    case None
    then show ?thesis using assms(3,4) t by (simp add: spg_machine_ledger_release_def keys_of_def tracked_def)
  next
    case (Some es)
    obtain w1 m where l: "release_loop kn cfg cap ios es w 0 = (w1, m)" by fastforce
    have w': "st = SPG_OK" "xw_ledger w' = Some []" "xw_events w' = xw_events w1"
      using assms(3,4) Some l by (auto simp: spg_machine_ledger_release_def)
    obtain new where new: "xw_events w1 = xw_events w @ new" using release_grow [OF l] by blast
    have "attended new k" if k: "k \<in> outstanding (xw_events w)" "k \<in> set (map key es)" for k
    proof -
      have "may_signal kn (fst k)"
        using guarded_may_signal outstanding_killed [OF k(1)] t by (metis guarded_def tracked_def)
      then have "\<forall>e \<in> set es. k = key e \<longrightarrow> may_signal kn (pz_pid e)" by (auto simp: key_def)
      from release_attends [OF l assms(2) this k(2)] new show ?thesis by auto
    qed
    then show ?thesis using w' new Some t by (auto simp: keys_of_def tracked_def list_all_iff)
  qed
qed

section \<open>A concrete run\<close>

definition worker :: process_sample where
  "worker = \<lparr>ps_pid = 77, ps_start_identity = 5, ps_name = ''w'', ps_state = CHR ''R'', ps_nice = 0,
     ps_cpu_time = 0, ps_cpu_bp = 0, ps_rss_bytes = 0, ps_profile_index = 0, ps_profile_id = ''job'',
     ps_role = ROLE_BATCH, ps_may_pause = True, ps_may_stop = True\<rparr>"

definition one_machine :: machine_state where
  "one_machine = \<lparr>mc_timestamp_ns = 0, mc_cpu_utilisation_bp = 0, mc_load_1_cbp = 0,
     mc_memory = \<lparr>ms_total_bytes = 0, ms_used_bytes = 0, ms_swap_used_bytes = 0\<rparr>, mc_temperature_mc = 0,
     mc_cpu_freq_khz = 0, mc_throttle = THROTTLE_NONE, mc_process_count = 1,
     mc_cpu = \<lparr>cs_idle = 0, cs_total = 0\<rparr>, mc_processes_truncated = False, mc_processes = [worker]\<rparr>"

definition willing :: kernel where
  "willing = \<lparr>kn_self = 10, kn_parent = 9, kn_identity = \<lambda>_ _. Some 5, kn_alive = \<lambda>_ _. True,
     kn_kill = \<lambda>_ _ _. Kill_ok, kn_guard = \<lambda>_ _. 4\<rparr>"

definition exec_cfg :: machine_exec_config where
  "exec_cfg = \<lparr>mx_actor_id = 0, mx_timestamp_ns = 0, mx_parent_sequence = 0, mx_write_journal = False,
     mx_execution_enabled = True\<rparr>"

definition paused_world :: exec_world where
  "paused_world = fst (snd (spg_machine_executor_step willing exec_cfg (Some one_machine) ACTION_MACHINE_PAUSE
     ''job'' 1 \<lparr>io_header = 0, io_payload = 0, io_flush = False\<rparr> (fresh_world None)))"

lemma paused_world_eq:
  "xw_events paused_world = [Ev_guard 77 5 4, Ev_identity 77 (Some 5), Ev_kill 77 5 SIGSTOP True]"
  "keys_of (xw_ledger paused_world) = [(77, 5)]"
  by code_simp+

lemma paused_run: "(exec_step willing)\<^sup>*\<^sup>* (fresh_world None) paused_world"
proof -
  obtain st w' r where s: "spg_machine_executor_step willing exec_cfg (Some one_machine) ACTION_MACHINE_PAUSE
     ''job'' 1 \<lparr>io_header = 0, io_payload = 0, io_flush = False\<rparr> (fresh_world None) = (st, w', r)"
    by (metis prod_cases3)
  have "paused_world = w'" unfolding paused_world_def s by simp
  then show ?thesis using exec_step [OF s] by blast
qed

theorem machine_pauses_tracked_witness:
  "outstanding (xw_events paused_world) = {(77, 5)} \<and>
   outstanding (xw_events paused_world) \<subseteq> set (keys_of (xw_ledger paused_world))"
  using machine_pauses_tracked [OF paused_run] by (simp add: paused_world_eq outstanding_def)

theorem machine_release_attends_witness:
  "\<exists>st w' n new. spg_machine_ledger_release willing exec_cfg 1 [] paused_world = (st, w', n) \<and>
     xw_events w' = xw_events paused_world @ new \<and> attended new (77, 5)"
proof -
  obtain st w' n where r: "spg_machine_ledger_release willing exec_cfg 1 [] paused_world = (st, w', n)"
    by (metis prod_cases3)
  have "mx_execution_enabled exec_cfg" by (simp add: exec_cfg_def)
  from machine_release_attends [OF paused_run this _ r]
  obtain new where "xw_events w' = xw_events paused_world @ new"
    "list_all (attended new) (filter (\<lambda>k. k \<in> outstanding (xw_events paused_world)) (keys_of (xw_ledger paused_world)))"
    by auto
  then have "attended new (77, 5)" by (simp add: paused_world_eq outstanding_def)
  then show ?thesis using r \<open>xw_events w' = xw_events paused_world @ new\<close> by blast
qed

end
