(* ===== verification/MachineRecover.thy ===== *)
theory MachineRecover
  imports MachineExecProps JournalSign
begin

text \<open>
  Recovery after a crash (\<open>spg_machine_recover_journal\<close>): the journal is walked, pauses and
  resumes that landed are paired, and what is left is continued. The walk is proved to see
  exactly the records before the first payload longer than its 1024-byte buffer.
\<close>

definition RECOVER_SCRATCH :: nat where "RECOVER_SCRATCH = 1024"

function recover_loop :: "journal_reader \<Rightarrow> process_key list \<Rightarrow> process_key list" where
  "recover_loop r pending =
     (case spg_journal_reader_next r RECOVER_SCRATCH of
        (st, r', rec, raw) \<Rightarrow>
          if st \<noteq> SPG_OK then pending
          else (case rec of
                  None \<Rightarrow> recover_loop r' pending
                | Some rec \<Rightarrow> recover_loop r' (recover_record rec raw pending)))"
  by pat_completeness auto
termination
  by (relation "measure (left_to_read \<circ> fst)") (auto dest: reader_next_shrinks [OF sym])

declare recover_loop.simps [simp del]

text \<open>The entries of the walk carry no guardian and the name \<open>recovered\<close>.\<close>

definition recovered_entry :: "process_key \<Rightarrow> paused_entry" where
  "recovered_entry k = \<lparr>pz_pid = fst k, pz_guard_fd = 0, pz_start_identity = snd k,
     pz_profile_id = ''recovered''\<rparr>"

fun resume_pending ::
  "kernel \<Rightarrow> machine_exec_config \<Rightarrow> nat \<Rightarrow> write_outcome list \<Rightarrow> process_key list \<Rightarrow> exec_world \<Rightarrow> nat \<Rightarrow>
     exec_world \<times> nat" where
  "resume_pending kn cfg capacity ios [] w n = (w, n)"
| "resume_pending kn cfg capacity ios (k # ks) w n =
     (case resume_entry kn cfg capacity (hd ios) (recovered_entry k) w of
        (w1, outcome) \<Rightarrow>
          resume_pending kn cfg capacity (tl ios) ks w1 (if outcome = EXEC_OK then n + 1 else n))"

definition recover_pending :: "u8 list option \<Rightarrow> process_key list" where
  "recover_pending journal =
     (case spg_journal_reader_open journal of
        (st, r) \<Rightarrow> if st \<noteq> SPG_OK then [] else recover_loop r [])"

definition spg_machine_recover_journal ::
  "u8 list option \<Rightarrow> kernel \<Rightarrow> machine_exec_config \<Rightarrow> nat \<Rightarrow> write_outcome list \<Rightarrow> exec_world \<Rightarrow>
     spg_status \<times> exec_world \<times> nat" where
  "spg_machine_recover_journal journal kn cfg capacity ios w =
     (case resume_pending kn cfg capacity ios (recover_pending journal) w 0 of (w', n) \<Rightarrow> (SPG_OK, w', n))"

section \<open>What the walk sees\<close>

definition recover_entry :: "entry \<Rightarrow> process_key list \<Rightarrow> process_key list" where
  "recover_entry e pending = recover_record \<lparr>jc_header = fst e, jc_payload_used = length (snd e)\<rparr> (snd e) pending"

lemma recover_loop_chain:
  "chain (jr_next_sequence r) (jr_last_hash r) es head \<Longrightarrow> jr_file r = Some (file_of es) \<Longrightarrow>
   length (file_of es) < 2 ^ 64 \<Longrightarrow>
   recover_loop r pending = fold recover_entry (takeWhile (\<lambda>e. length (snd e) \<le> RECOVER_SCRATCH) es) pending"
proof (induction es arbitrary: r pending)
  case Nil
  then have "spg_journal_reader_next r RECOVER_SCRATCH = (SPG_E_NOT_FOUND, r, None, [])"
    by (simp add: spg_journal_reader_next_def)
  then show ?case by (subst recover_loop.simps) simp
next
  case (Cons e es)
  then have ok: "entry_ok (jr_next_sequence r) (jr_last_hash r) e"
    "chain (jr_next_sequence r + 1) (jh_record_hash (fst e)) es head" by (simp_all add: chain_Cons)
  have fl: "jr_file r = Some (entry_bytes e @ file_of es)" "length (entry_bytes e @ file_of es) < 2 ^ 64"
    using Cons.prems(2,3) by simp_all
  note nx = reader_next_entry [OF fl(1) ok(1) fl(2), of RECOVER_SCRATCH]
  have a: "jr_next_sequence (after_entry r e (file_of es)) = jr_next_sequence r + 1"
    "jr_last_hash (after_entry r e (file_of es)) = jh_record_hash (fst e)"
    "jr_file (after_entry r e (file_of es)) = Some (file_of es)"
    by (simp_all add: after_entry_def)
  have "length (file_of es) < 2 ^ 64" using fl(2) by simp
  note ih = Cons.IH [of "after_entry r e (file_of es)", unfolded a, OF ok(2) refl this]
  show ?case
    by (cases "length (snd e) \<le> RECOVER_SCRATCH"; subst recover_loop.simps) (simp_all add: nx ih recover_entry_def [symmetric])
qed

text \<open>
  On every intact journal the recovery works from exactly the records before the first one
  whose payload exceeds 1024 bytes, pairing pauses and resumes in their order; the rest of the
  journal is not looked at, so a process paused after one long record (a model input, say) is
  not continued, although the header promises that what was left hanging is resumed.
\<close>

theorem recovery_sees_prefix:
  assumes "chain 1 zero_hash es head" "length (file_of es) < 2 ^ 64"
  shows "recover_pending (Some (file_of es)) =
    fold recover_entry (takeWhile (\<lambda>e. length (snd e) \<le> 1024) es) []"
  using recover_loop_chain [of "closed_reader\<lparr>jr_file := Some (file_of es), jr_next_sequence := 1,
      jr_last_hash := zero_hash\<rparr>" es head "[]"] assms
  by (simp add: recover_pending_def spg_journal_reader_open_def RECOVER_SCRATCH_def)

text \<open>A pause that landed, journaled after one long record: it alone would be recovered.\<close>

definition pause_payload :: "u8 list" where
  "pause_payload = bytes_of ''(machine_action (kind machine_pause_process) (pid 77) (identity 5) (outcome ok))''"

definition long_then_pause :: "journal_writer" where
  "long_then_pause =
     (let io = \<lparr>io_header = HEADER_SIZE, io_payload = 1025, io_flush = True\<rparr>;
          (_, w, _) = spg_journal_writer_append fresh_writer 1 0 EVENT_MODEL_INPUT SPG_OK (replicate 1025 0) io;
          (_, w, _) = spg_journal_writer_append w 2 0 EVENT_ACTION SPG_OK pause_payload io
      in w)"

lemma long_then_pause_entries:
  "\<exists>e1 e2. writer_inv long_then_pause [e1, e2] \<and> length (snd e1) = 1025 \<and> snd e2 = pause_payload \<and>
     jh_event_kind (fst e2) = event_code EVENT_ACTION"
proof -
  let ?io = "\<lparr>io_header = HEADER_SIZE, io_payload = 1025, io_flush = True\<rparr>"
  have small: "length pause_payload \<le> 1025" "HEADER_SIZE + length pause_payload < 2 ^ 64"
    "HEADER_SIZE + length (replicate 1025 (0 :: u8)) < 2 ^ 64"
    by (simp_all add: pause_payload_def bytes_of_def HEADER_SIZE_def)
  obtain w1 o1 where a1: "spg_journal_writer_append fresh_writer 1 0 EVENT_MODEL_INPUT SPG_OK
      (replicate 1025 0) ?io = (SPG_OK, w1, o1)"
    using append_complete [OF fresh_writer_inv small(3), where io = ?io and ts = 1 and parent = 0
        and kind = EVENT_MODEL_INPUT and st = SPG_OK] by auto
  note i1 = append_ok(1) [OF fresh_writer_inv small(3) a1]
  obtain w2 o2 where a2: "spg_journal_writer_append w1 2 0 EVENT_ACTION SPG_OK pause_payload ?io
      = (SPG_OK, w2, o2)"
    using append_complete [OF i1 small(2), where io = ?io and ts = 2 and parent = 0
        and kind = EVENT_ACTION and st = SPG_OK] small(1) by auto
  note i2 = append_ok(1) [OF i1 small(2) a2]
  have "long_then_pause = w2" using a1 a2 by (simp add: long_then_pause_def)
  then show ?thesis
    using i2 by (intro exI) (auto simp: new_entry_def new_header_def Let_def)
qed

lemma pause_record:
  "payload_has (text_of pause_payload) ''(machine_action ''"
  "payload_has (text_of pause_payload) ''(outcome ok)''"
  "payload_has (text_of pause_payload) ''machine_pause_process''"
  "payload_u64 (text_of pause_payload) ''pid'' = Some 77"
  "payload_u64 (text_of pause_payload) ''identity'' = Some 5"
  "pending_add [] (77, 5) = [(77, 5)]"
  by code_simp+

text \<open>The pause is in the journal, it counts on its own, and the recovery has nothing to resume.\<close>

theorem recovery_sees_prefix_witness:
  "\<exists>es e head. es \<noteq> [] \<and> hd (rev es) = e \<and> jw_file long_then_pause = Some (file_of es) \<and>
     chain 1 zero_hash es head \<and> recover_entry e [] = [(77, 5)] \<and>
     recover_pending (Some (file_of es)) = []"
proof -
  obtain e1 e2 where e: "writer_inv long_then_pause [e1, e2]" "length (snd e1) = 1025"
    "snd e2 = pause_payload" "jh_event_kind (fst e2) = event_code EVENT_ACTION"
    using long_then_pause_entries by blast
  have c: "chain 1 zero_hash [e1, e2] (jw_last_hash long_then_pause)" using e(1) by (simp add: writer_inv_def)
  have "header_ok (fst e1)" "header_ok (fst e2)" using c by (auto simp: chain_Cons entry_ok_def Let_def)
  then have "length (file_of [e1, e2]) < 2 ^ 64"
    using e(2,3) by (simp add: entry_bytes_def header_bytes_length HEADER_SIZE_def pause_payload_def bytes_of_def)
  from recovery_sees_prefix [OF c this] have r: "recover_pending (Some (file_of [e1, e2])) = []"
    using e(2) by simp
  have "recover_entry e2 [] = [(77, 5)]"
    using e(3,4) pause_record by (simp add: recover_entry_def recover_record_def Let_def)
  then show ?thesis using e(1) c r by (intro exI [of _ "[e1, e2]"]) (auto simp: writer_inv_def)
qed

end
