(* ===== verification/PolicyGate.thy ===== *)
theory PolicyGate
  imports Policy DeviceExec GraphProps ProcessProfile JournalSign
begin

text \<open>
  The policy gate of \<open>src/policy/policy_gate.c\<close>: one recommendation against the process profile,
  the channel table and the policy, its decision journaled and, when it denies, recorded in the
  graph. The payload workspace is a buffer of the given capacity; a journal, graph, profile,
  snapshot or device that is not attached is \<open>None\<close>.
\<close>

record gate_state =
  gs_policy_text :: string
  gs_recommendation_text :: string
  gs_policy :: policy_config
  gs_usage :: policy_usage
  gs_journal :: "journal_writer option"
  gs_graph :: "graph option"
  gs_profile :: "process_profile option"
  gs_machine :: "machine_state option"
  gs_device :: "device option"

record gate_config =
  gc_actor_id :: u32
  gc_timestamp_ns :: u64
  gc_parent_sequence :: u64
  gc_write_journal :: bool
  gc_update_graph_on_deny :: bool
  gc_has_recommendation_node :: bool
  gc_recommendation_node :: handle

record gate_result =
  go_decision :: policy_decision
  go_policy_sequence :: u64
  go_policy_node :: "handle option"
  go_blocked_edge :: "handle option"
  go_payload_used :: nat
  go_payload_truncated :: bool

text \<open>The zeroed result: its decision is the first of each enumeration, which is an allowance.\<close>

definition zero_gate_result :: gate_result where
  "zero_gate_result = \<lparr>go_decision = \<lparr>dc_kind = DECISION_ALLOW, dc_deny_reason = DENY_NONE,
       dc_capability_index = 0\<rparr>, go_policy_sequence = 0, go_policy_node = None,
     go_blocked_edge = None, go_payload_used = 0, go_payload_truncated = False\<rparr>"

definition span_eq_texts :: "string \<Rightarrow> text_span \<Rightarrow> string \<Rightarrow> text_span \<Rightarrow> bool" where
  "span_eq_texts left left_span right right_span \<longleftrightarrow>
     spg_sexpr_span_valid (length left) left_span \<and> spg_sexpr_span_valid (length right) right_span \<and>
     sp_length left_span = sp_length right_span \<and>
     span_text left left_span = span_text right right_span"

fun resolve_span :: "string \<Rightarrow> text_span \<Rightarrow> string \<Rightarrow> capability list \<Rightarrow> text_span option" where
  "resolve_span rec_text name policy_text [] = None"
| "resolve_span rec_text name policy_text (c # cs) =
     (if span_eq_texts rec_text name policy_text (cp_name c) then Some (cp_name c)
      else resolve_span rec_text name policy_text cs)"

definition resolve_capability_span :: "gate_state \<Rightarrow> recommendation \<Rightarrow> text_span option" where
  "resolve_capability_span gs rec =
     resolve_span (gs_recommendation_text gs) (rm_capability rec) (gs_policy_text gs)
       (pc_capabilities (gs_policy gs))"

definition device_target_uses_network :: "gate_state \<Rightarrow> recommendation \<Rightarrow> bool" where
  "device_target_uses_network gs rec =
     (case gs_device gs of
        None \<Rightarrow> False
      | Some dev \<Rightarrow>
          if \<not> rm_has_target rec \<or>
             \<not> spg_sexpr_span_valid (length (gs_recommendation_text gs)) (rm_target rec) \<or>
             sp_length (rm_target rec) + 1 > DEVICE_NAME_CAP
          then False
          else (case spg_device_find dev (c_string (span_text (gs_recommendation_text gs) (rm_target rec))) of
                  None \<Rightarrow> False
                | Some i \<Rightarrow> ch_network (dv_channels dev ! i)))"

fun decision_kind_name :: "decision_kind \<Rightarrow> string" where
  "decision_kind_name DECISION_ALLOW = ''allow''"
| "decision_kind_name DECISION_DENY = ''deny''"

definition payload_texts :: "recommendation \<Rightarrow> policy_decision \<Rightarrow> string list" where
  "payload_texts rec decision =
     [''(policy_decision (decision '', decision_kind_name (dc_kind decision),
      '') (deny_reason '', spg_policy_deny_reason_to_string (dc_deny_reason decision),
      '') (action_kind '', spg_action_kind_to_string (rm_action_kind rec),
      '') (cost '', u64_to_dec (rq_cost (rm_action rec)),
      '') (uses_network '', if rq_uses_network (rm_action rec) then ''true'' else ''false'',
      '') (confidence_bp '', u64_to_dec (rm_confidence_bp rec),
      '') (capability_span '', u64_to_dec (of_nat (sp_offset (rm_capability rec))),
      '':'', u64_to_dec (of_nat (sp_length (rm_capability rec))), ''))'']"

definition render_payload ::
  "recommendation \<Rightarrow> policy_decision \<Rightarrow> nat \<Rightarrow> sexpr_writer \<times> spg_status" where
  "render_payload rec decision capacity =
     emit_all spg_sexpr_writer_append_text
       (spg_sexpr_writer_init capacity (replicate capacity ch_nul)) (payload_texts rec decision)"

definition payload_bytes :: "sexpr_writer \<Rightarrow> u8 list" where
  "payload_bytes wr = bytes_of (take (wr_used wr) (wr_buffer wr))"

section \<open>Recording a denial in the graph\<close>

definition add_deny_graph ::
  "graph \<Rightarrow> gate_config \<Rightarrow> gate_result \<Rightarrow> spg_status \<times> graph \<times> gate_result" where
  "add_deny_graph gr cfg r =
     (case spg_graph_add_node gr NODE_POLICY_DECISION (gc_actor_id cfg)
             (mk_span 0 (go_payload_used r)) of
        (st, gr, None) \<Rightarrow> (st, gr, r)
      | (st, gr, Some node) \<Rightarrow>
          if st \<noteq> SPG_OK then (st, gr, r)
          else
            (let r = r\<lparr>go_policy_node := Some node\<rparr>
             in case spg_graph_set_flags gr node NODE_BLOCKED of (st, gr) \<Rightarrow>
               if st \<noteq> SPG_OK then (st, gr, r)
               else (case spg_graph_set_scores gr node (zero_scores\<lparr>sc_confidence := Finite 1\<rparr>) of (st, gr) \<Rightarrow>
                 if st \<noteq> SPG_OK then (st, gr, r)
                 else if \<not> gc_has_recommendation_node cfg then (SPG_OK, gr, r)
                 else if \<not> spg_graph_node_valid gr (gc_recommendation_node cfg) then (SPG_E_INVALID_ARG, gr, r)
                 else (case spg_graph_add_edge gr EDGE_BLOCKED_BY_POLICY (gc_recommendation_node cfg) node of
                         (st, gr, edge) \<Rightarrow>
                           if st \<noteq> SPG_OK then (st, gr, r)
                           else (SPG_OK, gr, r\<lparr>go_blocked_edge := edge\<rparr>)))))"

section \<open>Machine actions\<close>

definition target_text :: "string \<Rightarrow> recommendation \<Rightarrow> string option" where
  "target_text rec_text rec =
     (let sp = rm_target rec
      in if sp_length sp = 0 \<or> sp_length sp + 1 > PROCESS_ID_CAP \<or>
            sp_offset sp + sp_length sp > length rec_text
         then None else Some (c_string (span_text rec_text sp)))"

definition machine_denial :: "gate_state \<Rightarrow> recommendation \<Rightarrow> deny_reason" where
  "machine_denial gs rec =
     (if rm_action_kind rec \<noteq> ACTION_MACHINE_PAUSE \<and> rm_action_kind rec \<noteq> ACTION_MACHINE_RESUME
      then DENY_NONE
      else (case (gs_profile gs, gs_machine gs) of
        (Some profile, Some machine) \<Rightarrow>
          (case target_text (gs_recommendation_text gs) rec of
             None \<Rightarrow> DENY_INVALID_REQUEST
           | Some target \<Rightarrow>
               (case find (\<lambda>e. pe_id e = target) profile of
                  None \<Rightarrow> DENY_UNMANAGED_PROCESS
                | Some entry \<Rightarrow>
                    if rm_action_kind rec = ACTION_MACHINE_PAUSE \<and> \<not> pe_may_pause entry
                      then DENY_PROCESS_PROTECTED
                    else if \<exists>p \<in> set (mc_processes machine). ps_profile_id p = target
                      then DENY_NONE
                    else DENY_PROCESS_IDENTITY))
      | _ \<Rightarrow> DENY_UNMANAGED_PROCESS))"

section \<open>The step\<close>

definition gate_request :: "gate_state \<Rightarrow> recommendation \<Rightarrow> action_request" where
  "gate_request gs rec =
     (if rm_action_kind rec = ACTION_DEVICE_WRITE \<and> device_target_uses_network gs rec
      then (rm_action rec)\<lparr>rq_uses_network := True\<rparr> else rm_action rec)"

definition gate_decision :: "gate_state \<Rightarrow> recommendation \<Rightarrow> policy_decision" where
  "gate_decision gs rec =
     (if machine_denial gs rec \<noteq> DENY_NONE then deny (machine_denial gs rec)
      else (case resolve_capability_span gs rec of
              None \<Rightarrow> deny DENY_UNKNOWN_CAPABILITY
            | Some name \<Rightarrow>
                spg_policy_decide (gs_policy_text gs) (gs_policy gs) (gs_usage gs)
                  ((gate_request gs rec)\<lparr>rq_capability := name\<rparr>)))"

definition gate_args_ok :: "gate_state \<Rightarrow> gate_config \<Rightarrow> recommendation \<Rightarrow> nat \<Rightarrow> bool" where
  "gate_args_ok gs cfg rec capacity \<longleftrightarrow>
     capacity > 0 \<and> gs_policy_text gs \<noteq> [] \<and> gs_recommendation_text gs \<noteq> [] \<and>
     rm_state rec = RECOMMENDATION_VALID \<and>
     \<not> (gc_write_journal cfg \<and> gs_journal gs = None) \<and>
     \<not> (gc_update_graph_on_deny cfg \<and> gs_graph gs = None)"

definition journal_decision ::
  "gate_config \<Rightarrow> journal_writer \<Rightarrow> policy_decision \<Rightarrow> sexpr_writer \<Rightarrow> write_outcome \<Rightarrow>
     spg_status \<times> journal_writer \<times> u64 option" where
  "journal_decision cfg jw decision wr io =
     spg_journal_writer_append jw (gc_timestamp_ns cfg) (gc_parent_sequence cfg) EVENT_POLICY_DECISION
       (if dc_kind decision = DECISION_ALLOW then SPG_OK else SPG_E_POLICY_DENIED) (payload_bytes wr) io"

definition gate_deny_graph ::
  "gate_config \<Rightarrow> gate_state \<Rightarrow> gate_result \<Rightarrow> spg_status \<times> gate_state \<times> gate_result" where
  "gate_deny_graph cfg gs r =
     (if \<not> gc_update_graph_on_deny cfg \<or> dc_kind (go_decision r) \<noteq> DECISION_DENY then (SPG_OK, gs, r)
      else (case gs_graph gs of
              None \<Rightarrow> (SPG_E_INVALID_ARG, gs, r)
            | Some gr \<Rightarrow> (case add_deny_graph gr cfg r of
                            (st, gr', r') \<Rightarrow> (st, gs\<lparr>gs_graph := Some gr'\<rparr>, r'))))"

definition spg_policy_gate_step ::
  "gate_state \<Rightarrow> gate_config \<Rightarrow> recommendation \<Rightarrow> nat \<Rightarrow> write_outcome \<Rightarrow>
     spg_status \<times> gate_state \<times> gate_result option" where
  "spg_policy_gate_step gs cfg rec capacity io =
     (if \<not> gate_args_ok gs cfg rec capacity then (SPG_E_INVALID_ARG, gs, None)
      else
        (let decision = gate_decision gs rec;
             (wr, st) = render_payload rec decision capacity;
             r = zero_gate_result\<lparr>go_decision := decision, go_payload_used := wr_used wr,
                   go_payload_truncated := wr_truncated wr\<rparr>
         in if st \<noteq> SPG_OK then (st, gs, Some r)
            else
              (case (if gc_write_journal cfg then
                       (case gs_journal gs of
                          None \<Rightarrow> (SPG_E_INVALID_ARG, gs, r)
                        | Some jw \<Rightarrow>
                            (case journal_decision cfg jw decision wr io of
                               (st, jw', sq) \<Rightarrow>
                                 (st, gs\<lparr>gs_journal := Some jw'\<rparr>,
                                  r\<lparr>go_policy_sequence := (case sq of None \<Rightarrow> 0 | Some n \<Rightarrow> n)\<rparr>)))
                     else (SPG_OK, gs, r)) of
                 (st, gs1, r1) \<Rightarrow>
                   if st \<noteq> SPG_OK then (st, gs1, Some r1)
                   else (case gate_deny_graph cfg gs1 r1 of (st, gs2, r2) \<Rightarrow> (st, gs2, Some r2)))))"

section \<open>What the gate allows\<close>

text \<open>A machine action is about a declared, observed process; a pause about one that may be paused.\<close>

definition machine_permitted :: "gate_state \<Rightarrow> recommendation \<Rightarrow> bool" where
  "machine_permitted gs rec \<longleftrightarrow>
     rm_action_kind rec \<in> {ACTION_MACHINE_PAUSE, ACTION_MACHINE_RESUME} \<longrightarrow>
     (\<exists>profile machine target entry.
        gs_profile gs = Some profile \<and> gs_machine gs = Some machine \<and>
        target_text (gs_recommendation_text gs) rec = Some target \<and>
        find (\<lambda>e. pe_id e = target) profile = Some entry \<and>
        (rm_action_kind rec = ACTION_MACHINE_PAUSE \<longrightarrow> pe_may_pause entry) \<and>
        target \<in> ps_profile_id ` set (mc_processes machine))"

lemma machine_denial_iff: "machine_denial gs rec = DENY_NONE \<longleftrightarrow> machine_permitted gs rec"
  by (auto simp: machine_denial_def machine_permitted_def image_iff split: option.splits)

lemma span_eq_texts_left:
  "span_eq_texts l ls r rs \<Longrightarrow> span_eq r rs' rs \<longleftrightarrow> span_eq_texts l ls r rs'"
  by (auto simp: span_eq_texts_def span_eq_def)

lemma resolve_span_first:
  "resolve_span l ls r caps = Some name \<Longrightarrow> span_eq_texts l ls r name"
  by (induction caps) (auto split: if_splits)

lemma resolve_span_None:
  "resolve_span l ls r caps = None \<longleftrightarrow> (\<forall>c \<in> set caps. \<not> span_eq_texts l ls r (cp_name c))"
  by (induction caps) auto

text \<open>All that an allowance under capability \<open>i\<close> takes.\<close>

definition gate_grants :: "gate_state \<Rightarrow> recommendation \<Rightarrow> nat \<Rightarrow> bool" where
  "gate_grants gs rec i \<longleftrightarrow>
     (let policy = gs_policy gs; caps = pc_capabilities policy; rq = rm_action rec;
          named = (\<lambda>k. span_eq_texts (gs_recommendation_text gs) (rm_capability rec)
                          (gs_policy_text gs) (cp_name (caps ! k)))
      in machine_permitted gs rec \<and> rq_kind rq \<noteq> ACTION_FINISH \<and> 0 < unat (rq_cost rq) \<and>
         (pc_network_default policy = NETWORK_ALLOW \<or> rq_kind rq = ACTION_SSH_AUTH_PROBE \<or>
          \<not> rq_uses_network rq \<and>
          \<not> (rm_action_kind rec = ACTION_DEVICE_WRITE \<and> device_target_uses_network gs rec)) \<and>
         i < length caps \<and> named i \<and> (\<forall>k < i. \<not> named k) \<and>
         cp_enabled (caps ! i) \<and> cp_kind (caps ! i) = cap_kind_for_action (rq_kind rq) \<and>
         unat (rq_cost rq) \<le> unat (cp_budget (caps ! i)) \<and>
         unat (consumed_for_action (gs_usage gs) (rq_kind rq)) + unat (rq_cost rq)
           \<le> unat (global_budget_for_action policy (rq_kind rq)))"

lemma gate_decision_iff:
  assumes caps: "length (pc_capabilities (gs_policy gs)) \<le> POLICY_MAX_CAPABILITIES"
  shows "gate_decision gs rec = allow i \<longleftrightarrow> gate_grants gs rec i"
proof (cases "resolve_capability_span gs rec")
  case None
  then have "\<not> gate_grants gs rec i"
    by (auto simp: resolve_capability_span_def resolve_span_None gate_grants_def Let_def)
  then show ?thesis using None by (simp add: gate_decision_def)
next
  case (Some name)
  note same = span_eq_texts_left [OF resolve_span_first [OF Some [unfolded resolve_capability_span_def]]]
  show ?thesis
    by (cases "machine_denial gs rec = DENY_NONE")
       (auto simp: gate_decision_def Some decide_allow_iff [OF caps] grant_conditions_def same
          gate_grants_def Let_def machine_denial_iff gate_request_def)
qed

lemma gate_step_decision:
  "spg_policy_gate_step gs cfg rec capacity io = (st, gs', Some r) \<Longrightarrow> go_decision r = gate_decision gs rec"
  by (auto simp: spg_policy_gate_step_def gate_deny_graph_def add_deny_graph_def Let_def
      split: if_splits prod.splits option.splits)

text \<open>
  C2: Complete mediation by the gate: a step decides to allow under capability \<open>i\<close> exactly when
  \<open>i\<close> is the first capability whose name is the text the recommendation asked for, it is enabled,
  of the action's kind and covers the cost, the run's usage plus the cost stays within the global
  budget without wrap-around, no denied network is needed (neither by the request nor by the
  channel the operator declared), and a machine action is about a declared process that was
  observed and, for a pause, may be paused.
\<close>

theorem policy_gate_allows_iff:
  assumes "length (pc_capabilities (gs_policy gs)) \<le> POLICY_MAX_CAPABILITIES"
    and "spg_policy_gate_step gs cfg rec capacity io = (st, gs', Some r)"
  shows "go_decision r = allow i \<longleftrightarrow> gate_grants gs rec i"
  using gate_decision_iff [OF assms(1)] gate_step_decision [OF assms(2)] by simp

section \<open>What the journal says\<close>

definition payload_text :: "recommendation \<Rightarrow> policy_decision \<Rightarrow> string" where
  "payload_text rec decision = concat (payload_texts rec decision)"

lemma render_payload_ok:
  assumes "0 < capacity" "render_payload rec decision capacity = (wr, SPG_OK)"
  shows "payload_bytes wr = bytes_of (payload_text rec decision)"
  using render_ok [OF assms(1) assms(2) [unfolded render_payload_def]]
  by (simp add: payload_bytes_def payload_text_def)

lemma render_payload_fits:
  "length (payload_text rec decision) < capacity \<Longrightarrow> snd (render_payload rec decision capacity) = SPG_OK"
  by (simp add: render_payload_def payload_text_def render_fits)

lemma gate_deny_graph_frame [frame]:
  "gate_deny_graph cfg gs r = (st, gs', r') \<Longrightarrow>
   gs_journal gs' = gs_journal gs \<and> go_decision r' = go_decision r \<and>
   go_policy_sequence r' = go_policy_sequence r"
  by (auto simp: gate_deny_graph_def add_deny_graph_def Let_def split: if_splits prod.splits option.splits)

text \<open>
  What the gate decides is what the journal says: with journaling on, a step that succeeds
  appends exactly one record to the hash chain, a policy decision under the given parent, whose
  status is OK for an allowance and policy-denied otherwise, whose payload is the whole rendering
  of the decision, and whose sequence number is the one reported.
\<close>

theorem policy_gate_journals:
  assumes "spg_policy_gate_step gs cfg rec capacity io = (SPG_OK, gs', Some r)"
    and "gs_journal gs = Some jw" "writer_inv jw es" "gc_write_journal cfg"
    and "HEADER_SIZE + length (payload_text rec (go_decision r)) < 2 ^ 64"
  shows "\<exists>jw' e. gs_journal gs' = Some jw' \<and> writer_inv jw' (es @ [e]) \<and>
     jh_event_kind (fst e) = event_code EVENT_POLICY_DECISION \<and>
     jh_parent_sequence (fst e) = gc_parent_sequence cfg \<and>
     jh_status (fst e) = of_nat (status_code
       (if dc_kind (go_decision r) = DECISION_ALLOW then SPG_OK else SPG_E_POLICY_DENIED)) \<and>
     snd e = bytes_of (payload_text rec (go_decision r)) \<and> go_policy_sequence r = jh_sequence (fst e)"
proof -
  note dec = gate_step_decision [OF assms(1)]
  let ?d = "gate_decision gs rec"
  let ?st = "if dc_kind ?d = DECISION_ALLOW then SPG_OK else SPG_E_POLICY_DENIED"
  obtain wr st0 where wr: "render_payload rec ?d capacity = (wr, st0)" by fastforce
  obtain st1 jw' sq where j: "journal_decision cfg jw ?d wr io = (st1, jw', sq)" by (rule prod_cases3)
  have ok: "0 < capacity" "st0 = SPG_OK" "st1 = SPG_OK" "gs_journal gs' = Some jw'"
    "go_policy_sequence r = (case sq of None \<Rightarrow> 0 | Some n \<Rightarrow> n)"
    using assms(1,2,4) wr j
    by (auto simp: spg_policy_gate_step_def gate_args_ok_def Let_def dest: gate_deny_graph_frame
        split: if_splits prod.splits)
  note pay = render_payload_ok [OF ok(1) wr [unfolded ok(2)]]
  have app: "spg_journal_writer_append jw (gc_timestamp_ns cfg) (gc_parent_sequence cfg)
      EVENT_POLICY_DECISION ?st (bytes_of (payload_text rec ?d)) io = (SPG_OK, jw', sq)"
    using j ok(3) by (simp add: journal_decision_def pay)
  have small: "HEADER_SIZE + length (bytes_of (payload_text rec ?d)) < 2 ^ 64"
    using assms(5) by (simp add: dec bytes_of_def)
  from appended_entry [OF assms(3) small app] show ?thesis using ok(4,5) dec by auto
qed

text \<open>A step with room for its payload, a journal that takes it and no graph to update succeeds.\<close>

lemma gate_step_succeeds:
  assumes "gate_args_ok gs cfg rec capacity" "length (payload_text rec (gate_decision gs rec)) < capacity"
    and "gs_journal gs = Some jw" "writer_inv jw es" "\<not> gc_update_graph_on_deny cfg"
    and "io_header io \<ge> HEADER_SIZE" "io_payload io \<ge> capacity" "io_flush io" "HEADER_SIZE + capacity < 2 ^ 64"
  shows "\<exists>gs' r. spg_policy_gate_step gs cfg rec capacity io = (SPG_OK, gs', Some r)"
proof -
  let ?d = "gate_decision gs rec"
  obtain wr where wr: "render_payload rec ?d capacity = (wr, SPG_OK)"
    using render_payload_fits [OF assms(2)] by (metis prod.collapse)
  have cap: "0 < capacity" using assms(1) by (simp add: gate_args_ok_def)
  note pay = render_payload_ok [OF cap wr]
  have small: "HEADER_SIZE + length (payload_bytes wr) < 2 ^ 64" "length (payload_bytes wr) \<le> io_payload io"
    using assms(2,7,9) by (simp_all add: pay bytes_of_def)
  obtain jw' sq where "journal_decision cfg jw ?d wr io = (SPG_OK, jw', sq)"
    using append_complete [OF assms(4) small(1) assms(6) small(2) assms(8)] unfolding journal_decision_def by blast
  then show ?thesis
    using assms(1,3,5) wr by (simp add: spg_policy_gate_step_def gate_deny_graph_def Let_def)
qed

section \<open>A gate that allows a shell action\<close>

definition shell_recommendation :: recommendation where
  "shell_recommendation = (rejected REJECT_NONE)\<lparr>rm_state := RECOMMENDATION_VALID,
     rm_action_kind := ACTION_LOCAL_SHELL, rm_capability := mk_span 0 5,
     rm_action := \<lparr>rq_kind = ACTION_LOCAL_SHELL, rq_capability = mk_span 0 5, rq_uses_network = False,
       rq_cost = 1\<rparr>\<rparr>"

definition shell_gate :: gate_state where
  "shell_gate = \<lparr>gs_policy_text = ''diskshell'', gs_recommendation_text = ''shell'',
     gs_policy = sample_policy, gs_usage = usage_shell 1, gs_journal = Some fresh_writer,
     gs_graph = None, gs_profile = None, gs_machine = None, gs_device = None\<rparr>"

definition shell_gate_config :: gate_config where
  "shell_gate_config = \<lparr>gc_actor_id = 1, gc_timestamp_ns = 7, gc_parent_sequence = 0,
     gc_write_journal = True, gc_update_graph_on_deny = False, gc_has_recommendation_node = False,
     gc_recommendation_node = mk_handle 0 0\<rparr>"

lemma shell_gate_decision: "gate_decision shell_gate shell_recommendation = allow 1"
  by code_simp

lemma shell_payload: "length (payload_text shell_recommendation (allow 1)) < 512"
  by code_simp

lemma shell_gate_step:
  "\<exists>gs' r. spg_policy_gate_step shell_gate shell_gate_config shell_recommendation 512 full_writes =
     (SPG_OK, gs', Some r)"
  by (rule gate_step_succeeds [OF _ _ _ fresh_writer_inv], simp_all only: shell_gate_decision shell_payload)
     (simp_all add: gate_args_ok_def shell_gate_def
       shell_gate_config_def shell_recommendation_def full_writes_def HEADER_SIZE_def)

theorem policy_gate_allows_iff_witness:
  "gate_grants shell_gate shell_recommendation 1"
proof -
  obtain gs' r where s: "spg_policy_gate_step shell_gate shell_gate_config shell_recommendation 512 full_writes =
      (SPG_OK, gs', Some r)" using shell_gate_step by blast
  have "length (pc_capabilities (gs_policy shell_gate)) \<le> POLICY_MAX_CAPABILITIES"
    by (simp add: shell_gate_def sample_policy_caps)
  from policy_gate_allows_iff [OF this s, of 1] show ?thesis
    using gate_step_decision [OF s] shell_gate_decision by simp
qed

theorem policy_gate_journals_witness:
  "case spg_policy_gate_step shell_gate shell_gate_config shell_recommendation 512 full_writes of
     (st, gs', out) \<Rightarrow> \<exists>jw' e. st = SPG_OK \<and> gs_journal gs' = Some jw' \<and> writer_inv jw' [e] \<and>
     jh_event_kind (fst e) = event_code EVENT_POLICY_DECISION \<and> jh_status (fst e) = 0 \<and>
     snd e = bytes_of (payload_text shell_recommendation (allow 1))"
proof -
  obtain gs' r where s: "spg_policy_gate_step shell_gate shell_gate_config shell_recommendation 512 full_writes =
      (SPG_OK, gs', Some r)" using shell_gate_step by blast
  have d: "go_decision r = allow 1" using gate_step_decision [OF s] shell_gate_decision by simp
  obtain jw' e where "gs_journal gs' = Some jw'" "writer_inv jw' ([] @ [e])"
    "jh_event_kind (fst e) = event_code EVENT_POLICY_DECISION"
    "jh_status (fst e) = of_nat (status_code (if dc_kind (allow 1) = DECISION_ALLOW then SPG_OK else SPG_E_POLICY_DENIED))"
    "snd e = bytes_of (payload_text shell_recommendation (allow 1))"
    using policy_gate_journals [OF s _ fresh_writer_inv, unfolded d] shell_payload
    by (fastforce simp: shell_gate_def shell_gate_config_def HEADER_SIZE_def)
  then show ?thesis
    by (cases e) (auto simp: s allow_def)
qed

end
