(* ===== verification/ShellExec.thy ===== *)
theory ShellExec
  imports CmdExec Policy Recommendation JournalSign SexprWriter Device
begin

text \<open>
  The execution boundary of \<open>src/executor/executor_boundary.c\<close> and the governed local shell of
  \<open>src/exec/shell_executor.c\<close>. \<open>realpath(3)\<close> is a parameter, as is what a started command does;
  the log of started commands is explicit. Working directories that are null are \<open>None\<close>.
\<close>

section \<open>The boundary\<close>

datatype boundary_reason =
  BOUNDARY_OK | BOUNDARY_EXECUTION_DISABLED | BOUNDARY_POLICY_DENIED | BOUNDARY_UNSUPPORTED_ACTION
| BOUNDARY_NETWORK_FORBIDDEN | BOUNDARY_MISSING_COMMAND | BOUNDARY_BAD_WORKDIR
| BOUNDARY_BAD_TIMEOUT | BOUNDARY_BAD_OUTPUT_LIMIT | BOUNDARY_ENV_NOT_CLEARED

record boundary_config =
  bc_execution_enabled :: bool
  bc_allowed_workdir_prefix :: "string option"
  bc_max_timeout_ms :: u64
  bc_max_stdout_bytes :: nat
  bc_max_stderr_bytes :: nat
  bc_require_clean_env :: bool

record boundary_request =
  br_working_dir :: "string option"
  br_timeout_ms :: u64
  br_stdout_limit_bytes :: nat
  br_stderr_limit_bytes :: nat
  br_env_cleared :: bool

record boundary_plan =
  bp_approved :: bool
  bp_reason :: boundary_reason

type_synonym realpath = "string \<Rightarrow> string option"

definition deny_plan :: "boundary_reason \<Rightarrow> boundary_plan" where
  "deny_plan reason = \<lparr>bp_approved = False, bp_reason = reason\<rparr>"

definition allow_plan :: boundary_plan where
  "allow_plan = \<lparr>bp_approved = True, bp_reason = BOUNDARY_OK\<rparr>"

abbreviation ch_slash :: char where "ch_slash \<equiv> CHR ''/''"

definition within_allowed_dir :: "realpath \<Rightarrow> string option \<Rightarrow> string option \<Rightarrow> bool" where
  "within_allowed_dir realpath dir allowed =
     (case (dir, allowed) of
        (Some d, Some a) \<Rightarrow>
          a \<noteq> [] \<and>
          (case (realpath d, realpath a) of
             (Some real_dir, Some real_allowed) \<Rightarrow>
               let n = length real_allowed
               in take n real_dir = real_allowed \<and>
                  (length real_dir = n \<or> real_dir ! n = ch_slash \<or> real_allowed = [ch_slash])
           | _ \<Rightarrow> False)
      | _ \<Rightarrow> False)"

fun spg_executor_boundary_reason_to_string :: "boundary_reason \<Rightarrow> string" where
  "spg_executor_boundary_reason_to_string BOUNDARY_OK = ''ok''"
| "spg_executor_boundary_reason_to_string BOUNDARY_EXECUTION_DISABLED = ''execution_disabled''"
| "spg_executor_boundary_reason_to_string BOUNDARY_POLICY_DENIED = ''policy_denied''"
| "spg_executor_boundary_reason_to_string BOUNDARY_UNSUPPORTED_ACTION = ''unsupported_action''"
| "spg_executor_boundary_reason_to_string BOUNDARY_NETWORK_FORBIDDEN = ''network_forbidden''"
| "spg_executor_boundary_reason_to_string BOUNDARY_MISSING_COMMAND = ''missing_command''"
| "spg_executor_boundary_reason_to_string BOUNDARY_BAD_WORKDIR = ''bad_workdir''"
| "spg_executor_boundary_reason_to_string BOUNDARY_BAD_TIMEOUT = ''bad_timeout''"
| "spg_executor_boundary_reason_to_string BOUNDARY_BAD_OUTPUT_LIMIT = ''bad_output_limit''"
| "spg_executor_boundary_reason_to_string BOUNDARY_ENV_NOT_CLEARED = ''env_not_cleared''"

text \<open>\<open>None\<close>: the call is refused with an invalid argument and the plan not written.\<close>

definition spg_executor_boundary_check ::
  "realpath \<Rightarrow> boundary_config \<Rightarrow> recommendation \<Rightarrow> policy_decision \<Rightarrow> boundary_request \<Rightarrow>
     boundary_plan option" where
  "spg_executor_boundary_check realpath config rec decision request =
     (if rm_state rec \<noteq> RECOMMENDATION_VALID then None
      else Some
       (if \<not> bc_execution_enabled config then deny_plan BOUNDARY_EXECUTION_DISABLED
        else if dc_kind decision \<noteq> DECISION_ALLOW then deny_plan BOUNDARY_POLICY_DENIED
        else if rm_action_kind rec \<noteq> ACTION_LOCAL_SHELL then deny_plan BOUNDARY_UNSUPPORTED_ACTION
        else if rq_uses_network (rm_action rec) then deny_plan BOUNDARY_NETWORK_FORBIDDEN
        else if \<not> rm_has_command rec \<or> sp_length (rm_command rec) = 0
          then deny_plan BOUNDARY_MISSING_COMMAND
        else if \<not> within_allowed_dir realpath (br_working_dir request) (bc_allowed_workdir_prefix config)
          then deny_plan BOUNDARY_BAD_WORKDIR
        else if br_timeout_ms request = 0 \<or> br_timeout_ms request > bc_max_timeout_ms config
          then deny_plan BOUNDARY_BAD_TIMEOUT
        else if br_stdout_limit_bytes request = 0 \<or> br_stderr_limit_bytes request = 0 \<or>
                br_stdout_limit_bytes request > bc_max_stdout_bytes config \<or>
                br_stderr_limit_bytes request > bc_max_stderr_bytes config
          then deny_plan BOUNDARY_BAD_OUTPUT_LIMIT
        else if bc_require_clean_env config \<and> \<not> br_env_cleared request
          then deny_plan BOUNDARY_ENV_NOT_CLEARED
        else allow_plan))"

definition shell_recommendation_of :: "string \<Rightarrow> bool \<Rightarrow> recommendation" where
  "shell_recommendation_of command uses_network =
     (rejected REJECT_NONE)\<lparr>rm_state := RECOMMENDATION_VALID, rm_action_kind := ACTION_LOCAL_SHELL,
        rm_action := \<lparr>rq_kind = ACTION_LOCAL_SHELL, rq_capability = mk_span 0 0,
          rq_uses_network = uses_network, rq_cost = 0\<rparr>,
        rm_command := mk_span 0 (length command), rm_has_command := (command \<noteq> [])\<rparr>"

definition spg_executor_boundary_check_shell ::
  "realpath \<Rightarrow> boundary_config \<Rightarrow> string \<Rightarrow> bool \<Rightarrow> boundary_request \<Rightarrow> boundary_plan option" where
  "spg_executor_boundary_check_shell realpath config command uses_network request =
     spg_executor_boundary_check realpath config (shell_recommendation_of command uses_network)
       \<lparr>dc_kind = DECISION_ALLOW, dc_deny_reason = DENY_NONE, dc_capability_index = 0\<rparr> request"

section \<open>The shell executor\<close>

definition SHELL_CMDLINE_MAX :: nat where "SHELL_CMDLINE_MAX = 2048"

record shell_exec_config =
  sx_actor_id :: u32
  sx_timestamp_ns :: u64
  sx_parent_sequence :: u64
  sx_write_journal :: bool
  sx_execution_enabled :: bool
  sx_working_dir :: "string option"
  sx_allowed_workdir_prefix :: "string option"
  sx_timeout_ms :: u64
  sx_max_stdout_bytes :: nat
  sx_max_stderr_bytes :: nat

record shell_workspace =
  sk_payload_capacity :: nat
  sk_observation_capacity :: nat
  sk_stdout_capacity :: nat
  sk_stderr_capacity :: nat

record shell_exec_result =
  sr_approved :: bool
  sr_boundary_reason :: boundary_reason
  sr_run_status :: spg_status
  sr_started :: bool
  sr_exited :: bool
  sr_exit_code :: int
  sr_timed_out :: bool
  sr_stdout_len :: nat
  sr_stdout_truncated :: bool
  sr_observation_len :: nat
  sr_action_sequence :: u64
  sr_payload_used :: nat
  sr_payload_truncated :: bool

text \<open>The commands started so far, the journal, and the observation buffer's text.\<close>

record shell_world =
  sh_log :: "spawn list"
  sh_journal :: "journal_writer option"
  sh_observation :: string

definition zero_shell_result :: shell_exec_result where
  "zero_shell_result = \<lparr>sr_approved = False, sr_boundary_reason = BOUNDARY_OK, sr_run_status = SPG_OK,
     sr_started = False, sr_exited = False, sr_exit_code = 0, sr_timed_out = False, sr_stdout_len = 0,
     sr_stdout_truncated = False, sr_observation_len = 0, sr_action_sequence = 0,
     sr_payload_used = 0, sr_payload_truncated = False\<rparr>"

definition copy_command :: "string \<Rightarrow> text_span \<Rightarrow> string option" where
  "copy_command source sp =
     (if \<not> spg_sexpr_span_valid (length source) sp \<or> sp_length sp + 1 > SHELL_CMDLINE_MAX then None
      else Some (c_string (span_text source sp)))"

text \<open>What \<open>snprintf\<close> leaves in a buffer of the given capacity.\<close>

definition bounded_text :: "nat \<Rightarrow> string \<Rightarrow> string" where
  "bounded_text cap s = take (cap - 1) s"

definition shell_texts :: "string \<Rightarrow> shell_exec_result \<Rightarrow> string list" where
  "shell_texts cmd r =
     [''(local_shell (command '', [ch_quote], cmd, [ch_quote] @ '') (approved '',
      if sr_approved r then ''true'' else ''false''] @
     (if sr_approved r
      then ['') (exit '', u64_to_dec (of_int (sr_exit_code r mod 256)),
            '') (stdout_len '', u64_to_dec (of_nat (sr_stdout_len r))]
      else []) @
     [if sr_approved r then ''))'' else '')'']"

definition shell_journal_action ::
  "shell_exec_config \<Rightarrow> shell_workspace \<Rightarrow> string \<Rightarrow> write_outcome \<Rightarrow> shell_world \<Rightarrow> shell_exec_result \<Rightarrow>
     spg_status \<times> shell_world \<times> shell_exec_result" where
  "shell_journal_action cfg ws cmd io w r =
     (let cap = sk_payload_capacity ws;
          wr = fst (emit_all spg_sexpr_writer_append_text
                 (spg_sexpr_writer_init cap (replicate cap ch_nul)) (shell_texts (c_string cmd) r));
          r = r\<lparr>sr_payload_used := wr_used wr, sr_payload_truncated := wr_truncated wr\<rparr>
      in (case sh_journal w of
            None \<Rightarrow> (SPG_OK, w, r)
          | Some jw \<Rightarrow>
              if \<not> sx_write_journal cfg then (SPG_OK, w, r)
              else (case spg_journal_writer_append jw (sx_timestamp_ns cfg) (sx_parent_sequence cfg)
                           EVENT_ACTION (sr_run_status r) (bytes_of (take (wr_used wr) (wr_buffer wr))) io of
                      (st, jw', sq) \<Rightarrow>
                        (st, w\<lparr>sh_journal := Some jw'\<rparr>,
                         r\<lparr>sr_action_sequence := (case sq of None \<Rightarrow> 0 | Some n \<Rightarrow> n)\<rparr>))))"

definition observe :: "shell_workspace \<Rightarrow> string \<Rightarrow> shell_world \<times> shell_exec_result \<Rightarrow> shell_world \<times> shell_exec_result" where
  "observe ws s st =
     (let obs = bounded_text (sk_observation_capacity ws) s
      in ((fst st)\<lparr>sh_observation := obs\<rparr>, (snd st)\<lparr>sr_observation_len := length obs\<rparr>))"

definition shell_output_text :: "cmd_result \<Rightarrow> string" where
  "shell_output_text res =
     (let out = c_string (rs_stdout res); err = c_string (rs_stderr res)
      in ''exit '' @ i64_to_dec (rs_exit_code res) @
         (if out \<noteq> [] then [ch_nl] else []) @ out @
         (if err \<noteq> [] then [ch_nl] @ ''[stderr] '' else []) @ err)"

text \<open>The last part: the approved command runs, its result and observation are recorded.\<close>

definition shell_run ::
  "os_env \<Rightarrow> shell_exec_config \<Rightarrow> shell_workspace \<Rightarrow> string list \<Rightarrow> shell_world \<Rightarrow> shell_exec_result \<Rightarrow>
     shell_world \<times> shell_exec_result" where
  "shell_run env cfg ws argv w r =
     (let rq = \<lparr>rq_argv = argv, rq_working_dir = sx_working_dir cfg, rq_clear_env = False,
               rq_timeout_ms = sx_timeout_ms cfg, rq_stdout_cap = sk_stdout_capacity ws,
               rq_stderr_cap = sk_stderr_capacity ws\<rparr>;
          (st, rs, log') = spg_cmd_executor_run env (sh_log w) [rq];
          res = hd rs;
          r = r\<lparr>sr_approved := True, sr_run_status := rs_status res, sr_started := rs_started res,
                sr_exited := rs_exited res, sr_exit_code := rs_exit_code res,
                sr_timed_out := rs_timed_out res, sr_stdout_len := length (rs_stdout res),
                sr_stdout_truncated := rs_stdout_truncated res\<rparr>
      in observe ws (if \<not> rs_started res then ''exec error: cannot run '' @ hd argv
                     else shell_output_text res)
           (w\<lparr>sh_log := log'\<rparr>, r))"

definition shell_boundary_config :: "shell_exec_config \<Rightarrow> boundary_config" where
  "shell_boundary_config cfg =
     \<lparr>bc_execution_enabled = sx_execution_enabled cfg,
      bc_allowed_workdir_prefix = sx_allowed_workdir_prefix cfg, bc_max_timeout_ms = sx_timeout_ms cfg,
      bc_max_stdout_bytes = sx_max_stdout_bytes cfg, bc_max_stderr_bytes = sx_max_stderr_bytes cfg,
      bc_require_clean_env = False\<rparr>"

definition shell_boundary_request :: "shell_exec_config \<Rightarrow> boundary_request" where
  "shell_boundary_request cfg =
     \<lparr>br_working_dir = sx_working_dir cfg, br_timeout_ms = sx_timeout_ms cfg,
      br_stdout_limit_bytes = sx_max_stdout_bytes cfg, br_stderr_limit_bytes = sx_max_stderr_bytes cfg,
      br_env_cleared = False\<rparr>"

text \<open>
  The command line is split in place, so that \<open>cmd\<close> afterwards holds the split buffer, and it is
  that buffer the journal record is rendered from.
\<close>

definition shell_attempt ::
  "realpath \<Rightarrow> os_env \<Rightarrow> shell_exec_config \<Rightarrow> shell_workspace \<Rightarrow> recommendation \<Rightarrow> string option \<Rightarrow>
     shell_world \<times> shell_exec_result \<Rightarrow> (shell_world \<times> shell_exec_result) option" where
  "shell_attempt realpath env cfg ws rec command st =
     (let missing = (fst st, (snd st)\<lparr>sr_run_status := SPG_E_INVALID_ARG,
                       sr_boundary_reason := BOUNDARY_MISSING_COMMAND\<rparr>)
      in case command of
           None \<Rightarrow> Some (observe ws ''exec error: command too long or invalid'' missing)
         | Some cmd \<Rightarrow>
             let argv = spg_cmd_split_ws cmd CMD_MAX_ARGS
             in if argv = [] then Some (observe ws ''exec error: empty command'' missing)
                else (case spg_executor_boundary_check_shell realpath (shell_boundary_config cfg) (hd argv)
                             (rq_uses_network (rm_action rec)) (shell_boundary_request cfg) of
                  None \<Rightarrow> None
                | Some plan \<Rightarrow>
                    let r = (snd st)\<lparr>sr_boundary_reason := bp_reason plan\<rparr>
                    in if \<not> bp_approved plan
                       then Some (observe ws (''exec denied: '' @
                              spg_executor_boundary_reason_to_string (bp_reason plan)) (fst st, r))
                       else Some (shell_run env cfg ws argv (fst st) r)))"

definition spg_shell_executor_step ::
  "realpath \<Rightarrow> os_env \<Rightarrow> shell_exec_config \<Rightarrow> shell_workspace \<Rightarrow> shell_world \<Rightarrow> string \<Rightarrow>
     recommendation \<Rightarrow> policy_decision \<Rightarrow> write_outcome \<Rightarrow> spg_status \<times> shell_world \<times> shell_exec_result"
where
  "spg_shell_executor_step realpath env cfg ws w source rec decision io =
     (if sk_payload_capacity ws = 0 \<or> sk_observation_capacity ws = 0 \<or> sk_stdout_capacity ws = 0 \<or>
         sk_stderr_capacity ws = 0
      then (SPG_E_INVALID_ARG, w, zero_shell_result)
      else
        (let w = w\<lparr>sh_observation := []\<rparr>
         in if dc_kind decision \<noteq> DECISION_ALLOW \<or> rm_action_kind rec \<noteq> ACTION_LOCAL_SHELL
            then (SPG_E_INVALID_ARG, w, zero_shell_result)
            else
              (let command = copy_command source (rm_command rec)
               in case shell_attempt realpath env cfg ws rec command (w, zero_shell_result) of
                    None \<Rightarrow> (SPG_E_INVALID_ARG, w, zero_shell_result)
                  | Some (w', r) \<Rightarrow>
                      shell_journal_action cfg ws
                        (case command of None \<Rightarrow> [] | Some cmd \<Rightarrow> split_buffer cmd CMD_MAX_ARGS) io w' r)))"

end
