(* ===== verification/ShellProps.thy ===== *)
theory ShellProps
  imports ShellExec
begin

text \<open>
  What the boundary and the shell executor guarantee: containment of the working directory in
  terms of path components, complete mediation of command execution, and what the journal
  records of a command.
\<close>

section \<open>Containment\<close>

text \<open>
  A canonical absolute path, as \<open>realpath\<close> returns it, is the root or slash-separated
  components.
\<close>

definition component :: "string \<Rightarrow> bool" where
  "component c \<longleftrightarrow> c \<noteq> [] \<and> ch_slash \<notin> set c"

definition slashed :: "string list \<Rightarrow> string" where
  "slashed cs = concat (map (\<lambda>c. ch_slash # c) cs)"

definition path_of :: "string list \<Rightarrow> string" where
  "path_of cs = (if cs = [] then [ch_slash] else slashed cs)"

lemma slashed_simps [simp]: "slashed [] = []" "slashed (c # cs) = ch_slash # c @ slashed cs"
  "slashed (cs @ ds) = slashed cs @ slashed ds"
  by (simp_all add: slashed_def)

definition slash_or_end :: "string \<Rightarrow> bool" where
  "slash_or_end t \<longleftrightarrow> t = [] \<or> hd t = ch_slash"

lemma slash_or_end_slashed [simp]: "slash_or_end t \<Longrightarrow> slash_or_end (slashed cs @ t)"
  by (cases cs) (auto simp: slash_or_end_def)

lemma slash_or_end_self [simp]: "slash_or_end (slashed cs)"
  by (cases cs) (auto simp: slash_or_end_def)

lemma same_component:
  assumes "a @ s = d @ t" "component a" "component d" "slash_or_end s" "slash_or_end t"
  shows "a = d \<and> s = t"
proof -
  have w: "takeWhile (\<lambda>c. c \<noteq> ch_slash) (x @ u) = x" if "component x" "slash_or_end u" for x u
    using that by (cases u) (auto simp: component_def slash_or_end_def takeWhile_append)
  from w [OF assms(2,4)] w [OF assms(3,5)] assms(1) have "a = d" by metis
  with assms(1) show ?thesis by simp
qed

lemma slashed_prefix_iff:
  "list_all component as \<Longrightarrow> list_all component ds \<Longrightarrow>
   (\<exists>t. slashed ds = slashed as @ t \<and> slash_or_end t) \<longleftrightarrow> (\<exists>rest. ds = as @ rest)"
proof (induction as arbitrary: ds)
  case Nil
  show ?case by auto
next
  case (Cons a as)
  show ?case
  proof
    assume "\<exists>t. slashed ds = slashed (a # as) @ t \<and> slash_or_end t"
    then obtain t where t: "slashed ds = ch_slash # a @ slashed as @ t" "slash_or_end t" by auto
    then obtain d ds' where d: "ds = d # ds'" by (cases ds) auto
    have e: "slash_or_end (slashed as @ t)" "slash_or_end (slashed ds')"
      using t(2) by simp_all
    have "a @ (slashed as @ t) = d @ slashed ds'" using t(1) d by simp
    from same_component [OF this _ _ e] Cons.prems d have "a = d" "slashed ds' = slashed as @ t" by auto
    with Cons.IH [of ds'] Cons.prems t(2) d show "\<exists>rest. ds = (a # as) @ rest" by auto
  next
    assume "\<exists>rest. ds = (a # as) @ rest"
    then obtain rest where "ds = a # as @ rest" by auto
    then show "\<exists>t. slashed ds = slashed (a # as) @ t \<and> slash_or_end t" by auto
  qed
qed

lemma prefix_test_iff:
  "(take (length a) d = a \<and> (length d = length a \<or> d ! length a = ch_slash)) \<longleftrightarrow>
   (\<exists>t. d = a @ t \<and> slash_or_end t)"
proof
  assume h: "take (length a) d = a \<and> (length d = length a \<or> d ! length a = ch_slash)"
  then have d: "d = a @ drop (length a) d" by (metis append_take_drop_id)
  have "slash_or_end (drop (length a) d)"
  proof (cases "drop (length a) d")
    case (Cons x xs)
    then have "d ! length a = x" using d by (metis nth_append_length)
    moreover have "length d \<noteq> length a" using Cons by auto
    ultimately show ?thesis using h Cons by (auto simp: slash_or_end_def)
  qed (simp add: slash_or_end_def)
  with d show "\<exists>t. d = a @ t \<and> slash_or_end t" by blast
next
  assume "\<exists>t. d = a @ t \<and> slash_or_end t"
  then obtain t where "d = a @ t" "slash_or_end t" by blast
  then show "take (length a) d = a \<and> (length d = length a \<or> d ! length a = ch_slash)"
    by (cases t) (auto simp: slash_or_end_def)
qed

lemma hd_path_of: "\<exists>t. path_of ds = ch_slash # t"
  by (cases ds) (auto simp: path_of_def)

text \<open>
  C19: The working-directory test is containment: between canonical paths it holds exactly when
  the components of the allowed directory are the first components of the working directory; a
  sibling whose name merely begins with the allowed one's is refused, the root allows all.
\<close>

theorem boundary_contains_iff:
  assumes "realpath d = Some (path_of ds)" "realpath a = Some (path_of as)" "a \<noteq> []"
    and "list_all component ds" "list_all component as"
  shows "within_allowed_dir realpath (Some d) (Some a) \<longleftrightarrow> (\<exists>rest. ds = as @ rest)"
proof (cases "as = []")
  case True
  obtain t where "path_of ds = ch_slash # t" using hd_path_of by blast
  then show ?thesis using True assms(1-3) by (simp add: within_allowed_dir_def path_of_def Let_def)
next
  case False
  then have pa: "path_of as = slashed as" "slashed as \<noteq> [ch_slash]"
    using assms(5) by (auto simp: path_of_def component_def neq_Nil_conv)
  have "within_allowed_dir realpath (Some d) (Some a) \<longleftrightarrow>
      (\<exists>t. path_of ds = slashed as @ t \<and> slash_or_end t)"
    using assms(1-3) pa by (simp add: within_allowed_dir_def Let_def flip: prefix_test_iff)
  also have "\<dots> \<longleftrightarrow> (\<exists>t. slashed ds = slashed as @ t \<and> slash_or_end t)"
  proof (cases "ds = []")
    case True
    have "path_of ds \<noteq> slashed as @ t" for t
      using True False assms(5) by (cases as) (auto simp: path_of_def component_def)
    moreover have "slashed ds \<noteq> slashed as @ t" for t using True False by (cases as) auto
    ultimately show ?thesis by blast
  qed (simp add: path_of_def)
  finally show ?thesis using slashed_prefix_iff [OF assms(5,4)] by simp
qed

theorem boundary_contains_iff_witness:
  "\<not> within_allowed_dir Some (Some ''/scratch/ab'') (Some ''/scratch/a'') \<and>
   within_allowed_dir Some (Some ''/scratch/a/b'') (Some ''/scratch/a'')"
  using boundary_contains_iff [of Some "''/scratch/ab''" "[''scratch'', ''ab'']" "''/scratch/a''" "[''scratch'', ''a'']"]
    boundary_contains_iff [of Some "''/scratch/a/b''" "[''scratch'', ''a'', ''b'']" "''/scratch/a''" "[''scratch'', ''a'']"]
  by (simp add: path_of_def component_def)

section \<open>Mediation\<close>

lemma split_ws_length [bounds]: "length (spg_cmd_split_ws s n) \<le> n"
  by (induction s n rule: spg_cmd_split_ws.induct) (auto simp: Let_def)

lemma split_ws_words: "w \<in> set (spg_cmd_split_ws s n) \<Longrightarrow> w \<noteq> [] \<and> list_all (\<lambda>c. \<not> is_blank c) w"
proof (induction s n rule: spg_cmd_split_ws.induct)
  case (2 s n)
  let ?p = "dropWhile is_blank s"
  have "takeWhile (\<lambda>c. \<not> is_blank c) ?p \<noteq> []" if "?p \<noteq> []"
    using that hd_dropWhile [of is_blank s] by (cases ?p) auto
  moreover have "list_all (\<lambda>c. \<not> is_blank c) (takeWhile (\<lambda>c. \<not> is_blank c) ?p)"
    by (auto simp: list_all_iff dest: set_takeWhileD)
  ultimately show ?case using 2 by (auto simp: Let_def split: if_splits)
qed simp

definition workspace_ok :: "shell_workspace \<Rightarrow> bool" where
  "workspace_ok ws \<longleftrightarrow> 0 < sk_payload_capacity ws \<and> 0 < sk_observation_capacity ws \<and>
     0 < sk_stdout_capacity ws \<and> 0 < sk_stderr_capacity ws"

text \<open>The words of the recommended command, and all that starting it takes.\<close>

definition command_words :: "string \<Rightarrow> recommendation \<Rightarrow> string list" where
  "command_words source rec =
     (case copy_command source (rm_command rec) of None \<Rightarrow> [] | Some c \<Rightarrow> spg_cmd_split_ws c CMD_MAX_ARGS)"

definition shell_permitted ::
  "realpath \<Rightarrow> shell_exec_config \<Rightarrow> string \<Rightarrow> recommendation \<Rightarrow> policy_decision \<Rightarrow> bool" where
  "shell_permitted realpath cfg source rec decision \<longleftrightarrow>
     dc_kind decision = DECISION_ALLOW \<and> rm_action_kind rec = ACTION_LOCAL_SHELL \<and>
     sx_execution_enabled cfg \<and> \<not> rq_uses_network (rm_action rec) \<and>
     within_allowed_dir realpath (sx_working_dir cfg) (sx_allowed_workdir_prefix cfg) \<and>
     sx_timeout_ms cfg \<noteq> 0 \<and> sx_max_stdout_bytes cfg \<noteq> 0 \<and> sx_max_stderr_bytes cfg \<noteq> 0 \<and>
     command_words source rec \<noteq> []"

definition shell_spawn :: "shell_exec_config \<Rightarrow> string list \<Rightarrow> spawn" where
  "shell_spawn cfg argv = \<lparr>sw_argv = argv, sw_working_dir = sx_working_dir cfg, sw_clear_env = False,
     sw_timeout_ms = sx_timeout_ms cfg\<rparr>"

lemma observe_simps [simp]:
  "sh_log (fst (observe ws s st)) = sh_log (fst st)" "sh_journal (fst (observe ws s st)) = sh_journal (fst st)"
  "sr_approved (snd (observe ws s st)) = sr_approved (snd st)"
  "sh_observation (fst (observe ws s st)) = bounded_text (sk_observation_capacity ws) s"
  by (simp_all add: observe_def Let_def)

lemma bounded_text_length [bounds]: "0 < cap \<Longrightarrow> length (bounded_text cap s) < cap"
  by (simp add: bounded_text_def)

lemma shell_journal_frame [frame]:
  "shell_journal_action cfg ws cmd io w r = (st, w', r') \<Longrightarrow>
   sh_log w' = sh_log w \<and> sh_observation w' = sh_observation w \<and> sr_approved r' = sr_approved r"
  by (auto simp: shell_journal_action_def Let_def split: option.splits if_splits prod.splits)

lemma shell_run_log:
  assumes "workspace_ok ws" "argv \<noteq> []" "length argv \<le> CMD_MAX_ARGS" "shell_run env cfg ws argv w r = (w', r')"
  shows "sh_log w' = sh_log w @ [shell_spawn cfg argv] \<and> sh_journal w' = sh_journal w \<and> sr_approved r' \<and>
    length (sh_observation w') < sk_observation_capacity ws"
proof -
  let ?rq = "\<lparr>rq_argv = argv, rq_working_dir = sx_working_dir cfg, rq_clear_env = False,
     rq_timeout_ms = sx_timeout_ms cfg, rq_stdout_cap = sk_stdout_capacity ws,
     rq_stderr_cap = sk_stderr_capacity ws\<rparr>"
  have "request_valid ?rq" using assms(1-3) by (auto simp: request_valid_def workspace_ok_def)
  moreover obtain res l where r1: "run_one env (sh_log w) ?rq = (res, l)" by fastforce
  ultimately have "l = sh_log w @ [shell_spawn cfg argv]"
    using run_one_log [OF r1] by (simp add: shell_spawn_def)
  with r1 assms(1,4) show ?thesis
    by (auto simp: shell_run_def spg_cmd_executor_run_def CMD_MAX_BATCH_def Let_def workspace_ok_def
        observe_def intro!: bounded_text_length)
qed

lemma boundary_shell_approved:
  "\<exists>plan. spg_executor_boundary_check_shell realpath (shell_boundary_config cfg) command net
     (shell_boundary_request cfg) = Some plan \<and>
     (bp_approved plan \<longleftrightarrow> sx_execution_enabled cfg \<and> \<not> net \<and> command \<noteq> [] \<and>
       within_allowed_dir realpath (sx_working_dir cfg) (sx_allowed_workdir_prefix cfg) \<and>
       sx_timeout_ms cfg \<noteq> 0 \<and> sx_max_stdout_bytes cfg \<noteq> 0 \<and> sx_max_stderr_bytes cfg \<noteq> 0)"
  by (simp add: spg_executor_boundary_check_shell_def spg_executor_boundary_check_def
      shell_recommendation_of_def shell_boundary_config_def shell_boundary_request_def
      deny_plan_def allow_plan_def)

text \<open>The attempt starts exactly the permitted command.\<close>

lemma shell_attempt_spec:
  fixes source :: string
  assumes "workspace_ok ws" "dc_kind decision = DECISION_ALLOW" "rm_action_kind rec = ACTION_LOCAL_SHELL"
    and "\<not> sr_approved r"
  defines "argv \<equiv> command_words source rec"
  shows "\<exists>w' r'. shell_attempt realpath env cfg ws rec (copy_command source (rm_command rec)) (w, r) = Some (w', r') \<and>
     sh_log w' = sh_log w @ (if shell_permitted realpath cfg source rec decision then [shell_spawn cfg argv] else []) \<and>
     sh_journal w' = sh_journal w \<and> (sr_approved r' \<longleftrightarrow> shell_permitted realpath cfg source rec decision) \<and>
     length (sh_observation w') < sk_observation_capacity ws"
proof -
  have cap: "0 < sk_observation_capacity ws" using assms(1) by (simp add: workspace_ok_def)
  note obs = bounded_text_length [OF cap]
  show ?thesis
  proof (cases "argv = []")
    case True
    then have "\<not> shell_permitted realpath cfg source rec decision" by (simp add: shell_permitted_def argv_def)
    then show ?thesis using True assms(4) obs
      by (cases "copy_command source (rm_command rec)")
         (simp_all add: argv_def command_words_def shell_attempt_def Let_def observe_def)
  next
    case False
    then obtain cmd where cmd: "copy_command source (rm_command rec) = Some cmd"
      "argv = spg_cmd_split_ws cmd CMD_MAX_ARGS"
      by (auto simp: argv_def command_words_def split: option.splits)
    have word: "hd argv \<noteq> []" "length argv \<le> CMD_MAX_ARGS"
      using False cmd(2) split_ws_words [of "hd argv" cmd CMD_MAX_ARGS] split_ws_length [of cmd CMD_MAX_ARGS]
      by (auto simp: hd_in_set)
    obtain plan where plan: "spg_executor_boundary_check_shell realpath (shell_boundary_config cfg) (hd argv)
        (rq_uses_network (rm_action rec)) (shell_boundary_request cfg) = Some plan"
      "bp_approved plan \<longleftrightarrow> shell_permitted realpath cfg source rec decision"
      using boundary_shell_approved [of realpath cfg "hd argv" "rq_uses_network (rm_action rec)"]
        assms(2,3) False word(1) by (auto simp: shell_permitted_def argv_def)
    let ?r = "r\<lparr>sr_boundary_reason := bp_reason plan\<rparr>"
    obtain w1 r1 where run: "shell_run env cfg ws argv w ?r = (w1, r1)" by fastforce
    show ?thesis
      using False cmd plan assms(4) obs shell_run_log [OF assms(1) False word(2) run] run
      by (simp add: shell_attempt_def Let_def observe_def)
  qed
qed

text \<open>The step is the attempt followed by its record.\<close>

lemma shell_step_parts:
  assumes "workspace_ok ws" "dc_kind decision = DECISION_ALLOW" "rm_action_kind rec = ACTION_LOCAL_SHELL"
  obtains w1 r1 where
    "spg_shell_executor_step realpath env cfg ws w source rec decision io =
       shell_journal_action cfg ws (case copy_command source (rm_command rec) of None \<Rightarrow> []
         | Some cmd \<Rightarrow> split_buffer cmd CMD_MAX_ARGS) io w1 r1"
    "sh_log w1 = sh_log w @ (if shell_permitted realpath cfg source rec decision
       then [shell_spawn cfg (command_words source rec)] else [])"
    "sh_journal w1 = sh_journal w" "sr_approved r1 \<longleftrightarrow> shell_permitted realpath cfg source rec decision"
    "length (sh_observation w1) < sk_observation_capacity ws"
proof -
  have "\<not> sr_approved zero_shell_result" by (simp add: zero_shell_result_def)
  with shell_attempt_spec [OF assms, where w = "w\<lparr>sh_observation := []\<rparr>"]
  obtain w1 r1 where a: "shell_attempt realpath env cfg ws rec (copy_command source (rm_command rec))
      (w\<lparr>sh_observation := []\<rparr>, zero_shell_result) = Some (w1, r1)"
    "sh_log w1 = sh_log w @ (if shell_permitted realpath cfg source rec decision
       then [shell_spawn cfg (command_words source rec)] else [])"
    "sh_journal w1 = sh_journal w" "sr_approved r1 \<longleftrightarrow> shell_permitted realpath cfg source rec decision"
    "length (sh_observation w1) < sk_observation_capacity ws" by fastforce
  show ?thesis
    by (rule that [OF _ a(2-5)]) (use assms a(1) in \<open>simp add: spg_shell_executor_step_def workspace_ok_def Let_def\<close>)
qed

lemma shell_step_log:
  assumes "spg_shell_executor_step realpath env cfg ws w source rec decision io = (st, w', r)"
    and "workspace_ok ws"
  shows "sh_log w' = sh_log w @
       (if shell_permitted realpath cfg source rec decision then [shell_spawn cfg (command_words source rec)] else []) \<and>
     length (command_words source rec) \<le> CMD_MAX_ARGS \<and>
     (sr_approved r \<longleftrightarrow> shell_permitted realpath cfg source rec decision) \<and>
     length (sh_observation w') < sk_observation_capacity ws"
proof -
  have few: "length (command_words source rec) \<le> CMD_MAX_ARGS"
    by (simp add: command_words_def bounds split: option.split)
  show ?thesis
  proof (cases "dc_kind decision = DECISION_ALLOW \<and> rm_action_kind rec = ACTION_LOCAL_SHELL")
    case False
    then show ?thesis using assms few
      by (auto simp: spg_shell_executor_step_def shell_permitted_def workspace_ok_def zero_shell_result_def Let_def)
  next
    case True
    obtain w1 r1 where j: "spg_shell_executor_step realpath env cfg ws w source rec decision io =
         shell_journal_action cfg ws (case copy_command source (rm_command rec) of None \<Rightarrow> []
           | Some cmd \<Rightarrow> split_buffer cmd CMD_MAX_ARGS) io w1 r1"
      and a: "sh_log w1 = sh_log w @ (if shell_permitted realpath cfg source rec decision
         then [shell_spawn cfg (command_words source rec)] else [])"
      "sr_approved r1 \<longleftrightarrow> shell_permitted realpath cfg source rec decision"
      "length (sh_observation w1) < sk_observation_capacity ws"
      using shell_step_parts [OF assms(2) conjunct1 [OF True] conjunct2 [OF True]] by metis
    from shell_journal_frame [OF j [unfolded assms(1), symmetric]] a few show ?thesis by simp
  qed
qed

text \<open>
  C9: Complete mediation of command execution: a shell step starts the split words of the
  recommended command, once, in the configured directory under the configured deadline, exactly
  when the decision allows, the action is a local shell one that uses no network, execution is
  enabled, the directory lies in the allowed one, the limits are set and there is a word; in every
  other case it starts nothing. The result says which; the observation fits its buffer.
\<close>

theorem shell_executor_mediated:
  assumes "spg_shell_executor_step realpath env cfg ws w source rec decision io = (st, w', r)"
    and "workspace_ok ws"
  shows "sh_log w' = sh_log w @
       (if shell_permitted realpath cfg source rec decision then [shell_spawn cfg (command_words source rec)] else []) \<and>
     length (command_words source rec) \<le> CMD_MAX_ARGS \<and>
     (sr_approved r \<longleftrightarrow> shell_permitted realpath cfg source rec decision) \<and>
     length (sh_observation w') < sk_observation_capacity ws"
  using shell_step_log [OF assms] .

section \<open>What the journal records\<close>

lemma c_string_free: "\<forall>c \<in> set s. c \<noteq> ch_nul \<Longrightarrow> c_string (s @ t) = s @ c_string t"
  by (simp add: c_string_def takeWhile_append2)

lemma c_string_no_nul: "c \<in> set (c_string s) \<Longrightarrow> c \<noteq> ch_nul"
  by (auto simp: c_string_def dest: set_takeWhileD)

lemma shell_texts_frame [simp]:
  "shell_texts c (r\<lparr>sr_payload_used := n\<rparr>) = shell_texts c r"
  "shell_texts c (r\<lparr>sr_payload_truncated := b\<rparr>) = shell_texts c r"
  "shell_texts c (r\<lparr>sr_action_sequence := q\<rparr>) = shell_texts c r"
  by (simp_all add: shell_texts_def)

lemma shell_journal_texts:
  "shell_journal_action cfg ws cmd io w r = (st, w', r') \<Longrightarrow> shell_texts c r' = shell_texts c r"
  by (auto simp: shell_journal_action_def Let_def split: option.splits if_splits prod.splits)

text \<open>The split line, read as a C string, ends at its first word.\<close>

definition first_word :: "string \<Rightarrow> string" where
  "first_word cmd = takeWhile is_blank cmd @ takeWhile (\<lambda>c. \<not> is_blank c) (dropWhile is_blank cmd)"

lemma split_buffer_text:
  assumes "\<forall>c \<in> set cmd. c \<noteq> ch_nul"
  shows "c_string (split_buffer cmd (Suc n)) = first_word cmd"
proof -
  let ?p = "dropWhile is_blank cmd"
  have free: "\<forall>c \<in> set (first_word cmd). c \<noteq> ch_nul"
    using assms unfolding first_word_def by (auto dest: set_takeWhileD set_dropWhileD)
  have "c_string (first_word cmd @ (case dropWhile (\<lambda>c. \<not> is_blank c) ?p of [] \<Rightarrow> []
      | _ # rest \<Rightarrow> ch_nul # split_buffer rest n)) = first_word cmd"
    by (subst c_string_free [OF free]) (simp add: c_string_def split: list.split)
  moreover have "c_string cmd = cmd" using c_string_free [of cmd "[]"] assms by (simp add: c_string_def)
  moreover have "?p = [] \<Longrightarrow> first_word cmd = cmd"
    using takeWhile_dropWhile_id [of is_blank cmd] by (metis append_Nil2 first_word_def takeWhile.simps(1))
  ultimately show ?thesis by (simp add: Let_def first_word_def)
qed

lemma shell_journal_record:
  assumes "shell_journal_action cfg ws cmd io w r = (SPG_OK, w', r')" "sx_write_journal cfg"
    and "sh_journal w = Some jw" "writer_inv jw es" "0 < sk_payload_capacity ws"
    and "length (concat (shell_texts (c_string cmd) r)) < sk_payload_capacity ws"
    and "HEADER_SIZE + sk_payload_capacity ws < 2 ^ 64"
  shows "\<exists>jw' e. sh_journal w' = Some jw' \<and> writer_inv jw' (es @ [e]) \<and>
    jh_event_kind (fst e) = event_code EVENT_ACTION \<and> jh_parent_sequence (fst e) = sx_parent_sequence cfg \<and>
    jh_status (fst e) = of_nat (status_code (sr_run_status r)) \<and>
    snd e = bytes_of (concat (shell_texts (c_string cmd) r))"
proof -
  let ?cap = "sk_payload_capacity ws" and ?ts = "shell_texts (c_string cmd) r"
  let ?init = "spg_sexpr_writer_init ?cap (replicate ?cap ch_nul)"
  obtain wr st where wr: "emit_all spg_sexpr_writer_append_text ?init ?ts = (wr, st)" by fastforce
  have "st = SPG_OK" using render_fits [OF assms(6)] wr by simp
  with render_ok [OF assms(5), of ?ts wr] wr have pay: "take (wr_used wr) (wr_buffer wr) = concat ?ts" by simp
  obtain jw' sq where app: "spg_journal_writer_append jw (sx_timestamp_ns cfg) (sx_parent_sequence cfg)
      EVENT_ACTION (sr_run_status r) (bytes_of (concat ?ts)) io = (SPG_OK, jw', sq)"
      "sh_journal w' = Some jw'"
    using assms(1-3) wr by (auto simp: shell_journal_action_def Let_def pay split: prod.splits)
  have small: "HEADER_SIZE + length (bytes_of (concat ?ts)) < 2 ^ 64"
    using assms(6,7) by (simp add: bytes_of_def)
  from appended_entry [OF assms(4) small app(1)] show ?thesis using app(2) by auto
qed

text \<open>
  The journal does not hold the command that ran: a successful step with journaling appends one
  action record whose command is what the line holds after it was split in place, its first word.
  Two commands with the same program and different arguments leave the same record.
\<close>

theorem shell_record_first_word:
  assumes "spg_shell_executor_step realpath env cfg ws w source rec decision io = (SPG_OK, w', r)"
    and "copy_command source (rm_command rec) = Some cmd" "workspace_ok ws" "sx_write_journal cfg"
    and "sh_journal w = Some jw" "writer_inv jw es" "HEADER_SIZE + sk_payload_capacity ws < 2 ^ 64"
    and "length (first_word cmd) + 120 \<le> sk_payload_capacity ws"
  shows "\<exists>jw' e. sh_journal w' = Some jw' \<and> writer_inv jw' (es @ [e]) \<and>
     jh_event_kind (fst e) = event_code EVENT_ACTION \<and>
     snd e = bytes_of (concat (shell_texts (first_word cmd) r))"
proof -
  have al: "dc_kind decision = DECISION_ALLOW" "rm_action_kind rec = ACTION_LOCAL_SHELL"
    using assms(1) by (auto simp: spg_shell_executor_step_def Let_def split: if_splits)
  obtain w1 r1 where j: "shell_journal_action cfg ws (split_buffer cmd CMD_MAX_ARGS) io w1 r1 = (SPG_OK, w', r)"
    and a: "sh_journal w1 = sh_journal w"
    using shell_step_parts [OF assms(3) al, of realpath env cfg w source io] assms(1,2) by (metis option.simps(5))
  have "\<forall>c \<in> set cmd. c \<noteq> ch_nul"
    using assms(2) c_string_no_nul by (auto simp: copy_command_def split: if_splits)
  then have line: "c_string (split_buffer cmd CMD_MAX_ARGS) = first_word cmd"
    using split_buffer_text [of cmd 63] by (simp add: CMD_MAX_ARGS_def eval_nat_numeral)
  have "length (concat (shell_texts (first_word cmd) r1)) < sk_payload_capacity ws"
    using assms(8) u64_to_dec_value(4) [of "of_int (sr_exit_code r1 mod 256)"] u64_to_dec_value(4) [of "of_nat (sr_stdout_len r1)"]
    by (simp add: shell_texts_def)
  then have fits: "length (concat (shell_texts (c_string (split_buffer cmd CMD_MAX_ARGS)) r1)) < sk_payload_capacity ws"
    by (simp add: line)
  have "0 < sk_payload_capacity ws" "sh_journal w1 = Some jw"
    using assms(3,5) a by (simp_all add: workspace_ok_def)
  note rec = shell_journal_record [OF j assms(4) this(2) assms(6) this(1) fits assms(7)]
  have "\<exists>jw' e. sh_journal w' = Some jw' \<and> writer_inv jw' (es @ [e]) \<and>
      jh_event_kind (fst e) = event_code EVENT_ACTION \<and> snd e = bytes_of (concat (shell_texts (first_word cmd) r1))"
    using rec unfolding line by blast
  then show ?thesis using shell_journal_texts [OF j] by simp
qed

section \<open>A command that runs\<close>

definition echo_config :: shell_exec_config where
  "echo_config = \<lparr>sx_actor_id = 1, sx_timestamp_ns = 7, sx_parent_sequence = 0, sx_write_journal = True,
     sx_execution_enabled = True, sx_working_dir = Some ''/w'', sx_allowed_workdir_prefix = Some ''/w'',
     sx_timeout_ms = 100, sx_max_stdout_bytes = 64, sx_max_stderr_bytes = 64\<rparr>"

definition echo_workspace :: shell_workspace where
  "echo_workspace = \<lparr>sk_payload_capacity = 256, sk_observation_capacity = 64, sk_stdout_capacity = 64,
     sk_stderr_capacity = 64\<rparr>"

definition echo_world :: shell_world where
  "echo_world = \<lparr>sh_log = [], sh_journal = Some fresh_writer, sh_observation = []\<rparr>"

definition echo_recommendation :: recommendation where
  "echo_recommendation = shell_recommendation_of ''rm -r x'' False"

text \<open>A system on which every command exits with 0 and writes nothing.\<close>

definition quiet :: os_env where
  "quiet log sp = Child [] [] False (Exited 0)"

lemma echo_command: "copy_command ''rm -r x'' (rm_command echo_recommendation) = Some ''rm -r x''"
  by code_simp

lemma echo_permitted:
  "shell_permitted Some echo_config ''rm -r x'' echo_recommendation (allow 0)"
  "command_words ''rm -r x'' echo_recommendation = [''rm'', ''-r'', ''x'']"
  by code_simp+

lemma echo_workspace_ok: "workspace_ok echo_workspace"
  by (simp add: workspace_ok_def echo_workspace_def)

theorem shell_executor_mediated_witness:
  "case spg_shell_executor_step Some quiet echo_config echo_workspace echo_world ''rm -r x''
     echo_recommendation (allow 0) full_writes of (st, w', r) \<Rightarrow>
   sr_approved r \<and> sh_log w' = [shell_spawn echo_config [''rm'', ''-r'', ''x'']]"
proof -
  obtain st w' r where s: "spg_shell_executor_step Some quiet echo_config echo_workspace echo_world ''rm -r x''
     echo_recommendation (allow 0) full_writes = (st, w', r)" by (rule prod_cases3)
  have "sh_log echo_world = []" by (simp add: echo_world_def)
  with shell_executor_mediated [OF s echo_workspace_ok] show ?thesis by (simp add: s echo_permitted)
qed

text \<open>The step succeeds when the journal takes the record.\<close>

lemma shell_journal_succeeds:
  assumes "sh_journal w = Some jw" "writer_inv jw es" "HEADER_SIZE + sk_payload_capacity ws < 2 ^ 64"
    and "0 < sk_payload_capacity ws" "length (concat (shell_texts (c_string cmd) r)) < sk_payload_capacity ws"
    and "io_header io \<ge> HEADER_SIZE" "io_payload io \<ge> sk_payload_capacity ws" "io_flush io"
  shows "fst (shell_journal_action cfg ws cmd io w r) = SPG_OK"
proof -
  let ?cap = "sk_payload_capacity ws" and ?ts = "shell_texts (c_string cmd) r"
  obtain wr where wr: "emit_all spg_sexpr_writer_append_text
      (spg_sexpr_writer_init ?cap (replicate ?cap ch_nul)) ?ts = (wr, SPG_OK)"
    using render_fits [OF assms(5)] by (metis prod.collapse)
  note pay = render_ok [OF assms(4) wr]
  have "HEADER_SIZE + length (bytes_of (concat ?ts)) < 2 ^ 64" "length (bytes_of (concat ?ts)) \<le> io_payload io"
    using assms(3,5,7) by (simp_all add: bytes_of_def)
  from append_complete [OF assms(2) this(1) assms(6) this(2) assms(8)]
  obtain w' out where "spg_journal_writer_append jw (sx_timestamp_ns cfg) (sx_parent_sequence cfg) EVENT_ACTION
      (sr_run_status r) (bytes_of (concat ?ts)) io = (SPG_OK, w', out)" by blast
  then show ?thesis by (simp add: shell_journal_action_def assms(1) wr pay Let_def)
qed

lemma echo_step:
  "fst (spg_shell_executor_step Some quiet echo_config echo_workspace echo_world ''rm -r x''
     echo_recommendation (allow 0) full_writes) = SPG_OK"
proof -
  have al: "dc_kind (allow 0) = DECISION_ALLOW" "rm_action_kind echo_recommendation = ACTION_LOCAL_SHELL"
    by (simp_all add: allow_def echo_recommendation_def shell_recommendation_of_def)
  obtain w1 r1 where j: "spg_shell_executor_step Some quiet echo_config echo_workspace echo_world ''rm -r x''
      echo_recommendation (allow 0) full_writes =
      shell_journal_action echo_config echo_workspace (split_buffer ''rm -r x'' CMD_MAX_ARGS) full_writes w1 r1"
    "sh_journal w1 = Some fresh_writer"
    using shell_step_parts [OF echo_workspace_ok al, of Some quiet echo_config echo_world "''rm -r x''" full_writes]
      echo_command by (metis option.simps(5) echo_world_def shell_world.select_convs(2))
  have line: "c_string (split_buffer ''rm -r x'' CMD_MAX_ARGS) = ''rm''" by code_simp
  have "length (concat (shell_texts ''rm'' r1)) < 256"
    using u64_to_dec_value(4) [of "of_int (sr_exit_code r1 mod 256)"] u64_to_dec_value(4) [of "of_nat (sr_stdout_len r1)"]
    by (simp add: shell_texts_def)
  then show ?thesis unfolding j(1)
    by (intro shell_journal_succeeds [OF j(2) fresh_writer_inv])
       (simp_all add: line echo_workspace_def full_writes_def HEADER_SIZE_def)
qed

theorem shell_record_first_word_witness:
  "case spg_shell_executor_step Some quiet echo_config echo_workspace echo_world ''rm -r x''
     echo_recommendation (allow 0) full_writes of (st, w', r) \<Rightarrow>
   \<exists>jw' e. sh_journal w' = Some jw' \<and> writer_inv jw' [e] \<and>
     snd e = bytes_of (concat (shell_texts ''rm'' r))"
proof -
  obtain w' r where s: "spg_shell_executor_step Some quiet echo_config echo_workspace echo_world ''rm -r x''
     echo_recommendation (allow 0) full_writes = (SPG_OK, w', r)" using echo_step by (metis prod_cases3 fst_conv)
  have w: "sh_journal echo_world = Some fresh_writer" "sx_write_journal echo_config"
    "first_word ''rm -r x'' = ''rm''"
    by (simp_all add: echo_world_def echo_config_def first_word_def is_blank_def)
  have "HEADER_SIZE + sk_payload_capacity echo_workspace < 2 ^ 64"
    "length (first_word ''rm -r x'') + 120 \<le> sk_payload_capacity echo_workspace"
    by (simp_all add: w(3) echo_workspace_def HEADER_SIZE_def)
  from shell_record_first_word [OF s echo_command echo_workspace_ok w(2,1) fresh_writer_inv this]
  show ?thesis unfolding w(3) s append_Nil prod.case by blast
qed

text \<open>The record of a denied command closes one parenthesis too few and does not parse.\<close>

lemma denial_record_unparsable:
  "fst (spg_sexpr_parse_text (concat (shell_texts ''a'' zero_shell_result)) 32 32) \<noteq> SPG_OK"
  by code_simp

end
