(* ===== verification/SimConfig.thy ===== *)
theory SimConfig
  imports RunConfig
begin

text \<open>
  The simulated network of \<open>include/geistshell/sim_config.h\<close> and its loader
  \<open>src/sim/sim_config.c\<close>. Each fixed array with its count is the list of the entries in use;
  indices into them are \<open>nat\<close>, basis points and ports 32-bit words. The loader is proved to
  build only networks whose indices, rates and counts are in range.
\<close>

definition SIM_MAX_HOSTS :: nat where "SIM_MAX_HOSTS = 64"
definition SIM_MAX_SERVICES :: nat where "SIM_MAX_SERVICES = 128"
definition SIM_MAX_ACCOUNTS :: nat where "SIM_MAX_ACCOUNTS = 128"
definition SIM_MAX_CREDENTIALS :: nat where "SIM_MAX_CREDENTIALS = 128"
definition SIM_MAX_VULNERABILITIES :: nat where "SIM_MAX_VULNERABILITIES = 128"
definition SIM_MAX_NETWORK_EDGES :: nat where "SIM_MAX_NETWORK_EDGES = 256"
definition SIM_MAX_BASIS_POINTS :: nat where "SIM_MAX_BASIS_POINTS = 10000"

record sim_host =
  ho_id :: text_span
  ho_criticality_bp :: u32

record sim_service =
  sv_id :: text_span
  sv_host_index :: nat
  sv_name :: text_span
  sv_port :: u32
  sv_exposure_bp :: u32

record sim_account =
  ac_id :: text_span
  ac_host_index :: nat
  ac_username :: text_span
  ac_enabled :: bool

record sim_credential =
  cr_id :: text_span
  cr_account_index :: nat
  cr_strength_bp :: u32

record sim_vulnerability =
  vu_id :: text_span
  vu_service_index :: nat
  vu_severity_bp :: u32
  vu_patched :: bool

record sim_network_edge =
  ne_from_host_index :: nat
  ne_to_host_index :: nat
  ne_reachability_bp :: u32

record sim_config =
  sm_hosts :: "sim_host list"
  sm_services :: "sim_service list"
  sm_accounts :: "sim_account list"
  sm_credentials :: "sim_credential list"
  sm_vulnerabilities :: "sim_vulnerability list"
  sm_network_edges :: "sim_network_edge list"

definition empty_sim :: sim_config where
  "empty_sim = \<lparr>sm_hosts = [], sm_services = [], sm_accounts = [], sm_credentials = [],
     sm_vulnerabilities = [], sm_network_edges = []\<rparr>"

section \<open>The schema\<close>

definition scenario_field :: "string \<Rightarrow> nat \<Rightarrow> field_rule" where
  "scenario_field name n = \<lparr>fr_name = name, fr_value_kind = VALUE_ANY, fr_min_values = n,
     fr_max_values = n, fr_required = False, fr_unique = False\<rparr>"

definition scenario_fields :: "field_rule list" where
  "scenario_fields =
     [scenario_field ''host'' 2, scenario_field ''service'' 5, scenario_field ''account'' 4,
      scenario_field ''credential'' 3, scenario_field ''vulnerability'' 4, scenario_field ''network_edge'' 3]"

definition scenario_form :: form_rule where
  "scenario_form = \<lparr>fo_name = ''scenario'', fo_field_rules = scenario_fields,
     fo_allow_unknown_fields = False, fo_min_fields = 1,
     fo_max_fields = SIM_MAX_HOSTS + SIM_MAX_SERVICES + SIM_MAX_ACCOUNTS + SIM_MAX_CREDENTIALS +
       SIM_MAX_VULNERABILITIES + SIM_MAX_NETWORK_EDGES\<rparr>"

definition scenario_schema :: schema where
  "scenario_schema = \<lparr>sc_form_rules = [scenario_form], sc_allow_unknown_top_level_forms = False,
     sc_max_top_level_forms = 1, sc_max_depth = 4\<rparr>"

section \<open>Helpers\<close>

definition span_same :: "string \<Rightarrow> text_span \<Rightarrow> text_span \<Rightarrow> bool" where
  "span_same input a b \<longleftrightarrow>
     spg_sexpr_span_valid (length input) a \<and> spg_sexpr_span_valid (length input) b \<and>
     sp_length a = sp_length b \<and> span_text input a = span_text input b"

fun find_span :: "string \<Rightarrow> text_span \<Rightarrow> text_span list \<Rightarrow> nat \<Rightarrow> nat option" where
  "find_span input sp [] i = None"
| "find_span input sp (s # ss) i = (if span_same input s sp then Some i else find_span input sp ss (Suc i))"

definition find_host :: "string \<Rightarrow> sim_config \<Rightarrow> text_span \<Rightarrow> nat option" where
  "find_host input c sp = find_span input sp (map ho_id (sm_hosts c)) 0"

definition find_service :: "string \<Rightarrow> sim_config \<Rightarrow> text_span \<Rightarrow> nat option" where
  "find_service input c sp = find_span input sp (map sv_id (sm_services c)) 0"

definition find_account :: "string \<Rightarrow> sim_config \<Rightarrow> text_span \<Rightarrow> nat option" where
  "find_account input c sp = find_span input sp (map ac_id (sm_accounts c)) 0"

definition credential_id_exists :: "string \<Rightarrow> sim_config \<Rightarrow> text_span \<Rightarrow> bool" where
  "credential_id_exists input c sp = list_ex (\<lambda>cr. span_same input (cr_id cr) sp) (sm_credentials c)"

definition vulnerability_id_exists :: "string \<Rightarrow> sim_config \<Rightarrow> text_span \<Rightarrow> bool" where
  "vulnerability_id_exists input c sp = list_ex (\<lambda>v. span_same input (vu_id v) sp) (sm_vulnerabilities c)"

fun obj_value_in :: "string \<Rightarrow> sexpr_node list \<Rightarrow> string \<Rightarrow> nat list \<Rightarrow> nat" where
  "obj_value_in input nodes name [] = INVALID_INDEX"
| "obj_value_in input nodes name (f # fs) =
     (if spg_sexpr_first_child nodes f \<noteq> INVALID_INDEX \<and> spg_sexpr_second_child nodes f \<noteq> INVALID_INDEX \<and>
         nd_kind (nodes ! spg_sexpr_first_child nodes f) = NODE_SYMBOL \<and>
         spg_sexpr_span_eq_cstr input (nd_span (nodes ! spg_sexpr_first_child nodes f)) name
      then spg_sexpr_second_child nodes f
      else obj_value_in input nodes name fs)"

definition find_obj_value :: "string \<Rightarrow> sexpr_node list \<Rightarrow> nat \<Rightarrow> string \<Rightarrow> nat" where
  "find_obj_value input nodes obj name =
     obj_value_in input nodes name (siblings nodes (spg_sexpr_second_child nodes obj))"

definition node_offset_or :: "sexpr_node list \<Rightarrow> nat \<Rightarrow> nat \<Rightarrow> nat" where
  "node_offset_or nodes node fallback = (if node = INVALID_INDEX then fallback else offset_of nodes node)"

definition UINT32_MAX :: nat where "UINT32_MAX = 4294967295"

fun u32_digits :: "string \<Rightarrow> nat \<Rightarrow> spg_status + nat" where
  "u32_digits [] v = Inr v"
| "u32_digits (c # cs) v =
     (if \<not> (48 \<le> code_of c \<and> code_of c \<le> 57) then Inl SPG_E_FORMAT
      else let v' = v * 10 + (code_of c - 48)
           in if v' > UINT32_MAX then Inl SPG_E_OVERFLOW else u32_digits cs v')"

definition parse_uint32_span :: "string \<Rightarrow> text_span \<Rightarrow> spg_status + nat" where
  "parse_uint32_span input sp =
     (if sp_length sp = 0 \<or> \<not> spg_sexpr_span_valid (length input) sp then Inl SPG_E_INVALID_ARG
      else u32_digits (span_text input sp) 0)"

definition parse_bp :: "string \<Rightarrow> sexpr_node list \<Rightarrow> nat \<Rightarrow> spg_status + nat" where
  "parse_bp input nodes v =
     (if v = INVALID_INDEX \<or> nd_kind (nodes ! v) \<noteq> NODE_SYMBOL then Inl SPG_E_SCHEMA
      else (case parse_uint32_span input (nd_span (nodes ! v)) of
              Inl st \<Rightarrow> Inl st
            | Inr n \<Rightarrow> if n \<le> SIM_MAX_BASIS_POINTS then Inr n else Inl SPG_E_LIMIT))"

definition sim_parse_bool :: "string \<Rightarrow> text_span \<Rightarrow> bool option" where
  "sim_parse_bool input sp =
     (if spg_sexpr_span_eq_cstr input sp ''true'' then Some True
      else if spg_sexpr_span_eq_cstr input sp ''false'' then Some False else None)"

definition is_symbol_value :: "sexpr_node list \<Rightarrow> nat \<Rightarrow> bool" where
  "is_symbol_value nodes v \<longleftrightarrow> v \<noteq> INVALID_INDEX \<and> nd_kind (nodes ! v) = NODE_SYMBOL"

section \<open>The loaders of the objects\<close>

text \<open>A failure at a node, and the checks that lead to one, in the order of the code.\<close>

definition fail_at :: "sexpr_node list \<Rightarrow> spg_status \<Rightarrow> nat \<Rightarrow> schema_error option" where
  "fail_at nodes st node = Some (st, node, offset_of nodes node)"

definition bp_error :: "sexpr_node list \<Rightarrow> nat \<Rightarrow> spg_status \<Rightarrow> nat \<Rightarrow> schema_error option" where
  "bp_error nodes obj st node = Some (st, node, node_offset_or nodes node (offset_of nodes obj))"

definition load_host :: "string \<Rightarrow> sexpr_node list \<Rightarrow> nat \<Rightarrow> sim_config load_step" where
  "load_host input nodes obj c =
     (if length (sm_hosts c) \<ge> SIM_MAX_HOSTS then (fail_at nodes SPG_E_LIMIT obj, c)
      else
        (let id_node = find_obj_value input nodes obj ''id'';
             crit_node = find_obj_value input nodes obj ''criticality_bp''
         in if \<not> is_symbol_value nodes id_node then (fail_at nodes SPG_E_SCHEMA obj, c)
            else if find_host input c (nd_span (nodes ! id_node)) \<noteq> None
              then (fail_at nodes SPG_E_SCHEMA id_node, c)
            else (case parse_bp input nodes crit_node of
              Inl st \<Rightarrow> (bp_error nodes obj st crit_node, c)
            | Inr bp \<Rightarrow>
                (None, c\<lparr>sm_hosts := sm_hosts c @
                   [\<lparr>ho_id = nd_span (nodes ! id_node), ho_criticality_bp = of_nat bp\<rparr>]\<rparr>))))"

definition load_service :: "string \<Rightarrow> sexpr_node list \<Rightarrow> nat \<Rightarrow> sim_config load_step" where
  "load_service input nodes obj c =
     (if length (sm_services c) \<ge> SIM_MAX_SERVICES then (fail_at nodes SPG_E_LIMIT obj, c)
      else
        (let id_node = find_obj_value input nodes obj ''id'';
             host_node = find_obj_value input nodes obj ''host'';
             name_node = find_obj_value input nodes obj ''name'';
             port_node = find_obj_value input nodes obj ''port'';
             exp_node = find_obj_value input nodes obj ''exposure_bp''
         in if \<not> list_all (is_symbol_value nodes) [id_node, host_node, name_node, port_node]
              then (fail_at nodes SPG_E_SCHEMA obj, c)
            else if find_service input c (nd_span (nodes ! id_node)) \<noteq> None
              then (fail_at nodes SPG_E_SCHEMA id_node, c)
            else (case find_host input c (nd_span (nodes ! host_node)) of
              None \<Rightarrow> (fail_at nodes SPG_E_SCHEMA host_node, c)
            | Some host \<Rightarrow>
                (case parse_uint32_span input (nd_span (nodes ! port_node)) of
                   Inl st \<Rightarrow> (fail_at nodes st port_node, c)
                 | Inr port \<Rightarrow>
                     if port > 65535 then (fail_at nodes SPG_E_LIMIT port_node, c)
                     else (case parse_bp input nodes exp_node of
                       Inl st \<Rightarrow> (bp_error nodes obj st exp_node, c)
                     | Inr exposure \<Rightarrow>
                         (None, c\<lparr>sm_services := sm_services c @
                            [\<lparr>sv_id = nd_span (nodes ! id_node), sv_host_index = host,
                              sv_name = nd_span (nodes ! name_node), sv_port = of_nat port,
                              sv_exposure_bp = of_nat exposure\<rparr>]\<rparr>))))))"

definition load_account :: "string \<Rightarrow> sexpr_node list \<Rightarrow> nat \<Rightarrow> sim_config load_step" where
  "load_account input nodes obj c =
     (if length (sm_accounts c) \<ge> SIM_MAX_ACCOUNTS then (fail_at nodes SPG_E_LIMIT obj, c)
      else
        (let id_node = find_obj_value input nodes obj ''id'';
             host_node = find_obj_value input nodes obj ''host'';
             user_node = find_obj_value input nodes obj ''username'';
             enabled_node = find_obj_value input nodes obj ''enabled''
         in if \<not> list_all (is_symbol_value nodes) [id_node, host_node, user_node, enabled_node]
              then (fail_at nodes SPG_E_SCHEMA obj, c)
            else if find_account input c (nd_span (nodes ! id_node)) \<noteq> None
              then (fail_at nodes SPG_E_SCHEMA id_node, c)
            else (case find_host input c (nd_span (nodes ! host_node)) of
              None \<Rightarrow> (fail_at nodes SPG_E_SCHEMA host_node, c)
            | Some host \<Rightarrow>
                (case sim_parse_bool input (nd_span (nodes ! enabled_node)) of
                   None \<Rightarrow> (fail_at nodes SPG_E_SCHEMA enabled_node, c)
                 | Some enabled \<Rightarrow>
                     (None, c\<lparr>sm_accounts := sm_accounts c @
                        [\<lparr>ac_id = nd_span (nodes ! id_node), ac_host_index = host,
                          ac_username = nd_span (nodes ! user_node), ac_enabled = enabled\<rparr>]\<rparr>)))))"

definition load_credential :: "string \<Rightarrow> sexpr_node list \<Rightarrow> nat \<Rightarrow> sim_config load_step" where
  "load_credential input nodes obj c =
     (if length (sm_credentials c) \<ge> SIM_MAX_CREDENTIALS then (fail_at nodes SPG_E_LIMIT obj, c)
      else
        (let id_node = find_obj_value input nodes obj ''id'';
             account_node = find_obj_value input nodes obj ''account'';
             strength_node = find_obj_value input nodes obj ''strength_bp''
         in if \<not> list_all (is_symbol_value nodes) [id_node, account_node]
              then (fail_at nodes SPG_E_SCHEMA obj, c)
            else if credential_id_exists input c (nd_span (nodes ! id_node))
              then (fail_at nodes SPG_E_SCHEMA id_node, c)
            else (case find_account input c (nd_span (nodes ! account_node)) of
              None \<Rightarrow> (fail_at nodes SPG_E_SCHEMA account_node, c)
            | Some account \<Rightarrow>
                (case parse_bp input nodes strength_node of
                   Inl st \<Rightarrow> (bp_error nodes obj st strength_node, c)
                 | Inr strength \<Rightarrow>
                     (None, c\<lparr>sm_credentials := sm_credentials c @
                        [\<lparr>cr_id = nd_span (nodes ! id_node), cr_account_index = account,
                          cr_strength_bp = of_nat strength\<rparr>]\<rparr>)))))"

definition load_vulnerability :: "string \<Rightarrow> sexpr_node list \<Rightarrow> nat \<Rightarrow> sim_config load_step" where
  "load_vulnerability input nodes obj c =
     (if length (sm_vulnerabilities c) \<ge> SIM_MAX_VULNERABILITIES then (fail_at nodes SPG_E_LIMIT obj, c)
      else
        (let id_node = find_obj_value input nodes obj ''id'';
             service_node = find_obj_value input nodes obj ''service'';
             sev_node = find_obj_value input nodes obj ''severity_bp'';
             patched_node = find_obj_value input nodes obj ''patched''
         in if \<not> list_all (is_symbol_value nodes) [id_node, service_node, patched_node]
              then (fail_at nodes SPG_E_SCHEMA obj, c)
            else if vulnerability_id_exists input c (nd_span (nodes ! id_node))
              then (fail_at nodes SPG_E_SCHEMA id_node, c)
            else (case find_service input c (nd_span (nodes ! service_node)) of
              None \<Rightarrow> (fail_at nodes SPG_E_SCHEMA service_node, c)
            | Some service \<Rightarrow>
                (case parse_bp input nodes sev_node of
                   Inl st \<Rightarrow> (bp_error nodes obj st sev_node, c)
                 | Inr severity \<Rightarrow>
                     (case sim_parse_bool input (nd_span (nodes ! patched_node)) of
                        None \<Rightarrow> (fail_at nodes SPG_E_SCHEMA patched_node, c)
                      | Some patched \<Rightarrow>
                          (None, c\<lparr>sm_vulnerabilities := sm_vulnerabilities c @
                             [\<lparr>vu_id = nd_span (nodes ! id_node), vu_service_index = service,
                               vu_severity_bp = of_nat severity, vu_patched = patched\<rparr>]\<rparr>))))))"

definition load_network_edge :: "string \<Rightarrow> sexpr_node list \<Rightarrow> nat \<Rightarrow> sim_config load_step" where
  "load_network_edge input nodes obj c =
     (if length (sm_network_edges c) \<ge> SIM_MAX_NETWORK_EDGES then (fail_at nodes SPG_E_LIMIT obj, c)
      else
        (let from_node = find_obj_value input nodes obj ''from'';
             to_node = find_obj_value input nodes obj ''to'';
             reach_node = find_obj_value input nodes obj ''reachability_bp''
         in if \<not> list_all (is_symbol_value nodes) [from_node, to_node]
              then (fail_at nodes SPG_E_SCHEMA obj, c)
            else (case (find_host input c (nd_span (nodes ! from_node)),
                        find_host input c (nd_span (nodes ! to_node))) of
              (None, _) \<Rightarrow> (fail_at nodes SPG_E_SCHEMA from_node, c)
            | (Some _, None) \<Rightarrow> (fail_at nodes SPG_E_SCHEMA to_node, c)
            | (Some a, Some b) \<Rightarrow>
                (case parse_bp input nodes reach_node of
                   Inl st \<Rightarrow> (bp_error nodes obj st reach_node, c)
                 | Inr reachability \<Rightarrow>
                     (None, c\<lparr>sm_network_edges := sm_network_edges c @
                        [\<lparr>ne_from_host_index = a, ne_to_host_index = b,
                          ne_reachability_bp = of_nat reachability\<rparr>]\<rparr>)))))"

definition load_object :: "string \<Rightarrow> sexpr_node list \<Rightarrow> nat \<Rightarrow> sim_config load_step" where
  "load_object input nodes obj =
     (let name = spg_sexpr_first_child nodes obj;
          is_a = (\<lambda>kind. spg_sexpr_span_eq_cstr input (nd_span (nodes ! name)) kind)
      in if name = INVALID_INDEX \<or> nd_kind (nodes ! name) \<noteq> NODE_SYMBOL
           then (\<lambda>c. (fail_at nodes SPG_E_SCHEMA obj, c))
         else if is_a ''host'' then load_host input nodes obj
         else if is_a ''service'' then load_service input nodes obj
         else if is_a ''account'' then load_account input nodes obj
         else if is_a ''credential'' then load_credential input nodes obj
         else if is_a ''vulnerability'' then load_vulnerability input nodes obj
         else if is_a ''network_edge'' then load_network_edge input nodes obj
         else (\<lambda>c. (fail_at nodes SPG_E_SCHEMA name, c)))"

definition scenario_objects :: "sexpr_node list \<Rightarrow> nat list" where
  "scenario_objects nodes = siblings nodes (nd_next_sibling (nodes ! spg_sexpr_first_child nodes 0))"

definition spg_sim_config_load ::
  "string \<Rightarrow> nat \<Rightarrow> nat \<Rightarrow> sim_config \<Rightarrow> sim_config \<times> schema_error" where
  "spg_sim_config_load input token_capacity node_capacity out =
     (if token_capacity = 0 \<or> node_capacity = 0 then (out, SPG_E_INVALID_ARG, INVALID_INDEX, 0)
      else (case spg_sexpr_parse_text input token_capacity node_capacity of
        (st, _, nodes, e) \<Rightarrow>
          if st \<noteq> SPG_OK then (empty_sim, st, INVALID_INDEX, er_offset e)
          else if nodes = [] then (empty_sim, SPG_E_SCHEMA, INVALID_INDEX, 0)
          else (let serr = spg_schema_validate input nodes scenario_schema
                in if fst serr \<noteq> SPG_OK then (empty_sim, serr)
                   else (case run_steps (map (load_object input nodes) (scenario_objects nodes)) empty_sim of
                           (Some err, c) \<Rightarrow> (empty_sim, err)
                         | (None, c) \<Rightarrow>
                             if sm_hosts c = [] then (c, SPG_E_SCHEMA, 0, offset_of nodes 0)
                             else (c, SPG_OK, INVALID_INDEX, 0)))))"

section \<open>What the loader guarantees\<close>

definition in_range :: "sim_config \<Rightarrow> bool" where
  "in_range c \<longleftrightarrow>
     list_all (\<lambda>h. unat (ho_criticality_bp h) \<le> SIM_MAX_BASIS_POINTS) (sm_hosts c) \<and>
     list_all (\<lambda>s. sv_host_index s < length (sm_hosts c) \<and> unat (sv_port s) \<le> 65535 \<and>
        unat (sv_exposure_bp s) \<le> SIM_MAX_BASIS_POINTS) (sm_services c) \<and>
     list_all (\<lambda>a. ac_host_index a < length (sm_hosts c)) (sm_accounts c) \<and>
     list_all (\<lambda>r. cr_account_index r < length (sm_accounts c) \<and>
        unat (cr_strength_bp r) \<le> SIM_MAX_BASIS_POINTS) (sm_credentials c) \<and>
     list_all (\<lambda>v. vu_service_index v < length (sm_services c) \<and>
        unat (vu_severity_bp v) \<le> SIM_MAX_BASIS_POINTS) (sm_vulnerabilities c) \<and>
     list_all (\<lambda>e. ne_from_host_index e < length (sm_hosts c) \<and> ne_to_host_index e < length (sm_hosts c) \<and>
        unat (ne_reachability_bp e) \<le> SIM_MAX_BASIS_POINTS) (sm_network_edges c)"

definition within_caps :: "sim_config \<Rightarrow> bool" where
  "within_caps c \<longleftrightarrow>
     length (sm_hosts c) \<le> SIM_MAX_HOSTS \<and> length (sm_services c) \<le> SIM_MAX_SERVICES \<and>
     length (sm_accounts c) \<le> SIM_MAX_ACCOUNTS \<and> length (sm_credentials c) \<le> SIM_MAX_CREDENTIALS \<and>
     length (sm_vulnerabilities c) \<le> SIM_MAX_VULNERABILITIES \<and>
     length (sm_network_edges c) \<le> SIM_MAX_NETWORK_EDGES"

definition distinct_names :: "string \<Rightarrow> text_span list \<Rightarrow> bool" where
  "distinct_names input sps \<longleftrightarrow> (\<forall>i < length sps. \<forall>j < i. \<not> span_same input (sps ! j) (sps ! i))"

definition names_ok :: "string \<Rightarrow> sim_config \<Rightarrow> bool" where
  "names_ok input c \<longleftrightarrow>
     distinct_names input (map ho_id (sm_hosts c)) \<and> distinct_names input (map sv_id (sm_services c)) \<and>
     distinct_names input (map ac_id (sm_accounts c)) \<and> distinct_names input (map cr_id (sm_credentials c)) \<and>
     distinct_names input (map vu_id (sm_vulnerabilities c))"

definition sim_ok :: "string \<Rightarrow> sim_config \<Rightarrow> bool" where
  "sim_ok input c \<longleftrightarrow> in_range c \<and> within_caps c \<and> names_ok input c"

lemma find_span_bound: "find_span input sp ss i = Some k \<Longrightarrow> k < i + length ss"
  by (induction ss arbitrary: i) (fastforce split: if_splits)+

lemma find_span_None: "find_span input sp ss i = None \<longleftrightarrow> (\<forall>s \<in> set ss. \<not> span_same input s sp)"
  by (induction ss arbitrary: i) auto

lemma found_bounds [bounds]:
  "find_host input c sp = Some i \<Longrightarrow> i < length (sm_hosts c)"
  "find_service input c sp = Some i \<Longrightarrow> i < length (sm_services c)"
  "find_account input c sp = Some i \<Longrightarrow> i < length (sm_accounts c)"
  using find_span_bound [of input sp _ 0]
  by (fastforce simp: find_host_def find_service_def find_account_def)+

lemma distinct_names_snoc:
  "distinct_names input (sps @ [sp]) \<longleftrightarrow>
   distinct_names input sps \<and> (\<forall>s \<in> set sps. \<not> span_same input s sp)"
  by (auto simp: distinct_names_def nth_append less_Suc_eq all_set_conv_all_nth)

lemma parse_bp_bound: "parse_bp input nodes v = Inr n \<Longrightarrow> n \<le> SIM_MAX_BASIS_POINTS"
  by (auto simp: parse_bp_def split: if_splits sum.splits)

lemma bp_word: "n \<le> SIM_MAX_BASIS_POINTS \<Longrightarrow> unat (of_nat n :: u32) \<le> SIM_MAX_BASIS_POINTS"
  by (simp add: SIM_MAX_BASIS_POINTS_def unat_of_nat take_bit_nat_eq_self)

lemma port_word: "n \<le> 65535 \<Longrightarrow> unat (of_nat n :: u32) \<le> 65535"
  by (simp add: unat_of_nat take_bit_nat_eq_self)

lemmas sim_ok_defs = sim_ok_def in_range_def within_caps_def names_ok_def
lemmas loader_simps = Let_def fail_at_def bp_error_def

text \<open>Adding one object that fits, is new and points into the network keeps it in order.\<close>

lemma add_host_ok:
  assumes "sim_ok input c" "length (sm_hosts c) < SIM_MAX_HOSTS" "find_host input c (ho_id h) = None"
    "unat (ho_criticality_bp h) \<le> SIM_MAX_BASIS_POINTS"
  shows "sim_ok input (c\<lparr>sm_hosts := sm_hosts c @ [h]\<rparr>)"
proof -
  have "list_all (\<lambda>s. sv_host_index s < Suc (length (sm_hosts c)) \<and> unat (sv_port s) \<le> 65535 \<and>
      unat (sv_exposure_bp s) \<le> SIM_MAX_BASIS_POINTS) (sm_services c)"
    "list_all (\<lambda>a. ac_host_index a < Suc (length (sm_hosts c))) (sm_accounts c)"
    "list_all (\<lambda>e. ne_from_host_index e < Suc (length (sm_hosts c)) \<and> ne_to_host_index e < Suc (length (sm_hosts c)) \<and>
      unat (ne_reachability_bp e) \<le> SIM_MAX_BASIS_POINTS) (sm_network_edges c)"
    using assms(1) by (simp_all add: sim_ok_def in_range_def list_all_iff less_Suc_eq)
  then show ?thesis using assms
    by (simp add: sim_ok_defs distinct_names_snoc find_host_def find_span_None)
qed

lemma add_service_ok:
  assumes "sim_ok input c" "length (sm_services c) < SIM_MAX_SERVICES" "find_service input c (sv_id x) = None"
    "sv_host_index x < length (sm_hosts c)" "unat (sv_port x) \<le> 65535" "unat (sv_exposure_bp x) \<le> SIM_MAX_BASIS_POINTS"
  shows "sim_ok input (c\<lparr>sm_services := sm_services c @ [x]\<rparr>)"
proof -
  have "list_all (\<lambda>v. vu_service_index v < Suc (length (sm_services c)) \<and>
      unat (vu_severity_bp v) \<le> SIM_MAX_BASIS_POINTS) (sm_vulnerabilities c)"
    using assms(1) by (simp add: sim_ok_def in_range_def list_all_iff less_Suc_eq)
  then show ?thesis using assms
    by (simp add: sim_ok_defs distinct_names_snoc find_service_def find_span_None)
qed

lemma add_account_ok:
  assumes "sim_ok input c" "length (sm_accounts c) < SIM_MAX_ACCOUNTS" "find_account input c (ac_id x) = None"
    "ac_host_index x < length (sm_hosts c)"
  shows "sim_ok input (c\<lparr>sm_accounts := sm_accounts c @ [x]\<rparr>)"
proof -
  have "list_all (\<lambda>r. cr_account_index r < Suc (length (sm_accounts c)) \<and>
      unat (cr_strength_bp r) \<le> SIM_MAX_BASIS_POINTS) (sm_credentials c)"
    using assms(1) by (simp add: sim_ok_def in_range_def list_all_iff less_Suc_eq)
  then show ?thesis using assms
    by (simp add: sim_ok_defs distinct_names_snoc find_account_def find_span_None)
qed

lemma add_credential_ok:
  "sim_ok input c \<Longrightarrow> length (sm_credentials c) < SIM_MAX_CREDENTIALS \<Longrightarrow>
   \<not> credential_id_exists input c (cr_id x) \<Longrightarrow> cr_account_index x < length (sm_accounts c) \<Longrightarrow>
   unat (cr_strength_bp x) \<le> SIM_MAX_BASIS_POINTS \<Longrightarrow>
   sim_ok input (c\<lparr>sm_credentials := sm_credentials c @ [x]\<rparr>)"
  by (simp add: sim_ok_defs distinct_names_snoc credential_id_exists_def list_ex_iff)

lemma add_vulnerability_ok:
  "sim_ok input c \<Longrightarrow> length (sm_vulnerabilities c) < SIM_MAX_VULNERABILITIES \<Longrightarrow>
   \<not> vulnerability_id_exists input c (vu_id x) \<Longrightarrow> vu_service_index x < length (sm_services c) \<Longrightarrow>
   unat (vu_severity_bp x) \<le> SIM_MAX_BASIS_POINTS \<Longrightarrow>
   sim_ok input (c\<lparr>sm_vulnerabilities := sm_vulnerabilities c @ [x]\<rparr>)"
  by (simp add: sim_ok_defs distinct_names_snoc vulnerability_id_exists_def list_ex_iff)

lemma add_network_edge_ok:
  "sim_ok input c \<Longrightarrow> length (sm_network_edges c) < SIM_MAX_NETWORK_EDGES \<Longrightarrow>
   ne_from_host_index x < length (sm_hosts c) \<Longrightarrow> ne_to_host_index x < length (sm_hosts c) \<Longrightarrow>
   unat (ne_reachability_bp x) \<le> SIM_MAX_BASIS_POINTS \<Longrightarrow>
   sim_ok input (c\<lparr>sm_network_edges := sm_network_edges c @ [x]\<rparr>)"
  by (simp add: sim_ok_defs)

lemma load_host_ok: "sim_ok input c \<Longrightarrow> sim_ok input (snd (load_host input nodes obj c))"
  by (simp add: load_host_def loader_simps split: sum.split)
     (auto intro!: add_host_ok bp_word dest: parse_bp_bound)

lemma load_service_ok: "sim_ok input c \<Longrightarrow> sim_ok input (snd (load_service input nodes obj c))"
  by (simp add: load_service_def loader_simps split: sum.split option.split)
     (auto intro!: add_service_ok bp_word port_word dest: parse_bp_bound found_bounds)

lemma load_account_ok: "sim_ok input c \<Longrightarrow> sim_ok input (snd (load_account input nodes obj c))"
  by (simp add: load_account_def loader_simps split: sum.split option.split)
     (auto intro!: add_account_ok dest: found_bounds)

lemma load_credential_ok: "sim_ok input c \<Longrightarrow> sim_ok input (snd (load_credential input nodes obj c))"
  by (simp add: load_credential_def loader_simps split: sum.split option.split)
     (auto intro!: add_credential_ok bp_word dest: parse_bp_bound found_bounds)

lemma load_vulnerability_ok: "sim_ok input c \<Longrightarrow> sim_ok input (snd (load_vulnerability input nodes obj c))"
  by (simp add: load_vulnerability_def loader_simps split: sum.split option.split)
     (auto intro!: add_vulnerability_ok bp_word dest: parse_bp_bound found_bounds)

lemma load_network_edge_ok: "sim_ok input c \<Longrightarrow> sim_ok input (snd (load_network_edge input nodes obj c))"
  by (simp add: load_network_edge_def loader_simps split: sum.split option.split)
     (auto intro!: add_network_edge_ok bp_word dest: parse_bp_bound found_bounds)

lemma load_object_ok: "sim_ok input c \<Longrightarrow> sim_ok input (snd (load_object input nodes obj c))"
  by (simp add: load_object_def Let_def load_host_ok load_service_ok load_account_ok load_credential_ok
      load_vulnerability_ok load_network_edge_ok)

text \<open>A step that fails says so: its status is never \<open>SPG_OK\<close>.\<close>

definition says_failed :: "schema_error option \<times> sim_config \<Rightarrow> bool" where
  "says_failed r \<longleftrightarrow> (case fst r of Some err \<Rightarrow> fst err \<noteq> SPG_OK | None \<Rightarrow> True)"

lemma u32_digits_failed: "u32_digits cs v = Inl st \<Longrightarrow> st \<noteq> SPG_OK"
  by (induction cs v rule: u32_digits.induct) (auto simp: Let_def split: if_splits)

lemma parse_uint32_failed: "parse_uint32_span input sp = Inl st \<Longrightarrow> st \<noteq> SPG_OK"
  by (auto simp: parse_uint32_span_def split: if_splits dest: u32_digits_failed)

lemma parse_bp_failed: "parse_bp input nodes v = Inl st \<Longrightarrow> st \<noteq> SPG_OK"
  by (auto simp: parse_bp_def split: if_splits sum.splits dest: parse_uint32_failed)

lemmas failed_simps = says_failed_def fail_at_def bp_error_def Let_def

lemma load_host_failed: "says_failed (load_host input nodes obj c)"
  by (simp add: load_host_def failed_simps split: sum.split) (auto dest: parse_bp_failed)

lemma load_service_failed: "says_failed (load_service input nodes obj c)"
  by (simp add: load_service_def failed_simps split: sum.split option.split)
     (auto dest: parse_bp_failed parse_uint32_failed)

lemma load_account_failed: "says_failed (load_account input nodes obj c)"
  by (simp add: load_account_def failed_simps split: option.split)

lemma load_credential_failed: "says_failed (load_credential input nodes obj c)"
  by (simp add: load_credential_def failed_simps split: sum.split option.split) (auto dest: parse_bp_failed)

lemma load_vulnerability_failed: "says_failed (load_vulnerability input nodes obj c)"
  by (simp add: load_vulnerability_def failed_simps split: sum.split option.split) (auto dest: parse_bp_failed)

lemma load_network_edge_failed: "says_failed (load_network_edge input nodes obj c)"
  by (simp add: load_network_edge_def failed_simps split: sum.split option.split) (auto dest: parse_bp_failed)

lemma load_object_failed: "says_failed (load_object input nodes obj c)"
  by (simp add: load_object_def load_host_failed load_service_failed load_account_failed
      load_credential_failed load_vulnerability_failed load_network_edge_failed Let_def)
     (simp add: failed_simps)

lemma run_load_failed:
  "run_steps (map (load_object input nodes) objs) c = (Some err, c') \<Longrightarrow> fst err \<noteq> SPG_OK"
proof (induction objs arbitrary: c)
  case (Cons obj objs)
  then show ?case
    using load_object_failed [of input nodes obj c]
    by (auto simp: says_failed_def split: prod.splits option.splits)
qed simp

lemma empty_sim_ok: "sim_ok input empty_sim"
  by (simp add: sim_ok_defs empty_sim_def distinct_names_def)

text \<open>
  Whatever the text, the network the loader leaves behind can be walked safely: every index
  into hosts, services and accounts is in range, every rate is at most 10000 basis points, every
  port at most 65535, every count within its array, and no two objects of a kind share a name;
  a load that succeeds has a host.
\<close>

theorem sim_config_well_indexed:
  "case spg_sim_config_load input tcap ncap empty_sim of (c, st, err) \<Rightarrow>
     in_range c \<and> within_caps c \<and> names_ok input c \<and> \<not> (st = SPG_OK \<and> sm_hosts c = [])"
proof -
  have run: "sim_ok input (snd (run_steps (map (load_object input nodes) objs) empty_sim))" for nodes objs
    by (rule run_steps_inv [where P = "sim_ok input"]) (auto simp: load_object_ok empty_sim_ok)
  then have run': "run_steps (map (load_object input nodes) objs) empty_sim = (e, c) \<Longrightarrow> sim_ok input c"
    for nodes objs e c by (metis snd_conv)
  have "sim_ok input (fst (spg_sim_config_load input tcap ncap empty_sim)) \<and>
      \<not> (fst (snd (spg_sim_config_load input tcap ncap empty_sim)) = SPG_OK \<and>
         sm_hosts (fst (spg_sim_config_load input tcap ncap empty_sim)) = [])"
    unfolding spg_sim_config_load_def Let_def
    by (auto simp: empty_sim_ok split: prod.split option.split simp del: run_steps.simps
        dest: run' run_load_failed)
  then show ?thesis
    by (cases "spg_sim_config_load input tcap ncap empty_sim") (auto simp: sim_ok_def)
qed

end
