(* ===== verification/SimExec.thy ===== *)
theory SimExec
  imports SimConfig Recommendation Policy JournalSign MemoryFacts
begin

text \<open>
  Risk and the simulated executor, \<open>src/sim/risk.c\<close> and \<open>src/sim/sim_executor.c\<close>: the score of a
  network in 64-bit arithmetic over basis points, the greedy mutation that patches the worst
  vulnerability or disables the worst account, and the step that journals it and records it in
  the graph and the fact memory. What is proved of it is in \<open>SimProps\<close>.
\<close>

section \<open>Risk\<close>

definition bp_mul :: "u32 \<Rightarrow> u32 \<Rightarrow> u64" where
  "bp_mul a b = (ucast a * ucast b) div 10000"

record risk_score =
  rk_asset :: u64
  rk_exposure :: u64
  rk_vulnerability :: u64
  rk_credential :: u64
  rk_reachability :: u64
  rk_total :: u64

definition service_exposed :: "sim_config \<Rightarrow> sim_service \<Rightarrow> u64" where
  "service_exposed c s = bp_mul (ho_criticality_bp (sm_hosts c ! sv_host_index s)) (sv_exposure_bp s)"

definition weakness_bp :: "sim_credential \<Rightarrow> u32" where
  "weakness_bp cr = 10000 - cr_strength_bp cr"

definition add_vulnerability :: "sim_config \<Rightarrow> u64 \<Rightarrow> sim_vulnerability \<Rightarrow> u64" where
  "add_vulnerability c acc v =
     (if vu_patched v then acc
      else acc + (service_exposed c (sm_services c ! vu_service_index v) * ucast (vu_severity_bp v)) div 10000)"

definition add_credential :: "sim_config \<Rightarrow> u64 \<Rightarrow> sim_credential \<Rightarrow> u64" where
  "add_credential c acc cr =
     (let acct = sm_accounts c ! cr_account_index cr
      in if \<not> ac_enabled acct then acc
         else acc + bp_mul (ho_criticality_bp (sm_hosts c ! ac_host_index acct)) (weakness_bp cr))"

definition edge_risk :: "sim_config \<Rightarrow> sim_network_edge \<Rightarrow> u64" where
  "edge_risk c e =
     (let pair = (ucast (ho_criticality_bp (sm_hosts c ! ne_from_host_index e)) +
                  ucast (ho_criticality_bp (sm_hosts c ! ne_to_host_index e))) div (2 :: u64)
      in (pair * ucast (ne_reachability_bp e)) div 10000)"

definition spg_risk_evaluate :: "sim_config \<Rightarrow> risk_score" where
  "spg_risk_evaluate c =
     (let asset = foldl (\<lambda>acc h. acc + ucast (ho_criticality_bp h)) 0 (sm_hosts c);
          exposure = foldl (\<lambda>acc s. acc + service_exposed c s) 0 (sm_services c);
          vulnerability = foldl (add_vulnerability c) 0 (sm_vulnerabilities c);
          credential = foldl (add_credential c) 0 (sm_credentials c);
          reachability = foldl (\<lambda>acc e. acc + edge_risk c e) 0 (sm_network_edges c)
      in \<lparr>rk_asset = asset, rk_exposure = exposure, rk_vulnerability = vulnerability,
          rk_credential = credential, rk_reachability = reachability,
          rk_total = asset + exposure + vulnerability + credential + reachability\<rparr>)"

section \<open>The mutation\<close>

datatype sim_action = SIM_NOOP | SIM_PATCH_VULNERABILITY | SIM_DISABLE_ACCOUNT

fun spg_sim_exec_action_to_string :: "sim_action \<Rightarrow> string" where
  "spg_sim_exec_action_to_string SIM_NOOP = ''noop''"
| "spg_sim_exec_action_to_string SIM_PATCH_VULNERABILITY = ''patch_vulnerability''"
| "spg_sim_exec_action_to_string SIM_DISABLE_ACCOUNT = ''disable_account''"

definition vulnerability_contribution :: "sim_config \<Rightarrow> nat \<Rightarrow> u64" where
  "vulnerability_contribution c i =
     (let v = sm_vulnerabilities c ! i
      in if vu_patched v then 0
         else (service_exposed c (sm_services c ! vu_service_index v) * ucast (vu_severity_bp v)) div 10000)"

definition worse :: "sim_config \<Rightarrow> nat \<Rightarrow> u64 \<Rightarrow> sim_credential \<Rightarrow> u64" where
  "worse c i worst cr =
     (if cr_account_index cr \<noteq> i then worst
      else (let contribution = bp_mul (ho_criticality_bp (sm_hosts c ! ac_host_index (sm_accounts c ! i)))
                   (weakness_bp cr)
            in if contribution > worst then contribution else worst))"

definition account_contribution :: "sim_config \<Rightarrow> nat \<Rightarrow> u64" where
  "account_contribution c i =
     (if \<not> ac_enabled (sm_accounts c ! i) then 0 else foldl (worse c i) 0 (sm_credentials c))"

text \<open>The scan for the first index with the largest contribution above \<open>best\<close>.\<close>

definition better :: "(nat \<Rightarrow> u64) \<Rightarrow> u64 \<times> nat option \<Rightarrow> nat \<Rightarrow> u64 \<times> nat option" where
  "better contribution st i =
     (if contribution i > fst st then (contribution i, Some i) else st)"

definition worst_index :: "(nat \<Rightarrow> u64) \<Rightarrow> nat \<Rightarrow> nat option" where
  "worst_index contribution n = snd (foldl (better contribution) (0, None) [0..<n])"

text \<open>\<open>None\<close> is the index \<open>SIZE_MAX\<close>. The second scan starts where the first ended: at 0.\<close>

record sim_choice =
  cs_action :: sim_action
  cs_index :: "nat option"
  cs_mutated :: bool

definition mutate_sim :: "sim_config \<Rightarrow> sim_config \<times> sim_choice" where
  "mutate_sim c =
     (case worst_index (vulnerability_contribution c) (length (sm_vulnerabilities c)) of
        Some i \<Rightarrow>
          (c\<lparr>sm_vulnerabilities := (sm_vulnerabilities c)[i := (sm_vulnerabilities c ! i)\<lparr>vu_patched := True\<rparr>]\<rparr>,
           \<lparr>cs_action = SIM_PATCH_VULNERABILITY, cs_index = Some i, cs_mutated = True\<rparr>)
      | None \<Rightarrow>
          (case worst_index (account_contribution c) (length (sm_accounts c)) of
             Some i \<Rightarrow>
               (c\<lparr>sm_accounts := (sm_accounts c)[i := (sm_accounts c ! i)\<lparr>ac_enabled := False\<rparr>]\<rparr>,
                \<lparr>cs_action = SIM_DISABLE_ACCOUNT, cs_index = Some i, cs_mutated = True\<rparr>)
           | None \<Rightarrow> (c, \<lparr>cs_action = SIM_NOOP, cs_index = None, cs_mutated = False\<rparr>)))"

section \<open>The step\<close>

record sim_state =
  ss_sim :: sim_config
  ss_journal :: "journal_writer option"
  ss_graph :: "graph option"
  ss_memory :: "fact_memory option"

record sim_exec_config =
  sg_actor_id :: u32
  sg_timestamp_ns :: u64
  sg_parent_sequence :: u64
  sg_write_journal :: bool
  sg_update_graph :: bool
  sg_update_memory :: bool
  sg_recommendation_node :: "handle option"

record sim_result =
  sz_choice :: sim_choice
  sz_risk_before :: risk_score
  sz_risk_after :: risk_score
  sz_sim_sequence :: u64
  sz_graph_sequence :: u64
  sz_memory_sequence :: u64
  sz_result_node :: "handle option"
  sz_result_edge :: "handle option"
  sz_memory_fact :: "handle option"
  sz_payload_used :: nat
  sz_payload_truncated :: bool

definition sim_texts :: "sim_choice \<Rightarrow> risk_score \<Rightarrow> risk_score \<Rightarrow> string list" where
  "sim_texts ch before after =
     [''(sim_result (action '', spg_sim_exec_action_to_string (cs_action ch), '') (selected_index '',
      (case cs_index ch of None \<Rightarrow> ''none'' | Some i \<Rightarrow> u64_to_dec (of_nat i)),
      '') (mutated '', if cs_mutated ch then ''true'' else ''false'',
      '') (risk_before '', u64_to_dec (rk_total before),
      '') (risk_after '', u64_to_dec (rk_total after), ''))'']"

definition sim_payload :: "sim_choice \<Rightarrow> risk_score \<Rightarrow> risk_score \<Rightarrow> nat \<Rightarrow> sexpr_writer \<times> spg_status" where
  "sim_payload ch before after capacity =
     emit_all spg_sexpr_writer_append_text
       (spg_sexpr_writer_init capacity (replicate capacity ch_nul)) (sim_texts ch before after)"

text \<open>The continuation of a call whose status is checked: the rest runs after \<open>SPG_OK\<close> only.\<close>

definition and_then ::
  "spg_status \<times> sim_state \<times> sim_result \<Rightarrow>
     (sim_state \<Rightarrow> sim_result \<Rightarrow> spg_status \<times> sim_state \<times> sim_result) \<Rightarrow>
     spg_status \<times> sim_state \<times> sim_result" where
  "and_then r k = (case r of (st, s, o') \<Rightarrow> if st = SPG_OK then k s o' else (st, s, o'))"

definition sim_append ::
  "sim_exec_config \<Rightarrow> u64 \<Rightarrow> event_kind \<Rightarrow> u8 list \<Rightarrow> write_outcome \<Rightarrow> (u64 \<Rightarrow> sim_result \<Rightarrow> sim_result) \<Rightarrow>
     sim_state \<Rightarrow> sim_result \<Rightarrow> spg_status \<times> sim_state \<times> sim_result" where
  "sim_append cfg parent kind payload io store s r =
     (if \<not> sg_write_journal cfg then (SPG_OK, s, r)
      else (case ss_journal s of
              None \<Rightarrow> (SPG_E_INVALID_ARG, s, r)
            | Some jw \<Rightarrow>
                (case spg_journal_writer_append jw (sg_timestamp_ns cfg) parent kind SPG_OK payload io of
                   (st, jw', sq) \<Rightarrow>
                     (st, s\<lparr>ss_journal := Some jw'\<rparr>, (case sq of None \<Rightarrow> r | Some n \<Rightarrow> store n r)))))"

definition result_scores :: "bool \<Rightarrow> graph_scores" where
  "result_scores mutated = \<lparr>sc_confidence = Finite 1, sc_utility = Finite (if mutated then 3 / 4 else 0),
     sc_risk = Finite 0, sc_novelty = Finite (1 / 4), sc_cost_estimate = Finite 0\<rparr>"

definition add_graph_result ::
  "graph \<Rightarrow> sim_exec_config \<Rightarrow> sim_result \<Rightarrow> spg_status \<times> graph \<times> sim_result" where
  "add_graph_result gr cfg r =
     (case spg_graph_add_node gr NODE_RESULT (sg_actor_id cfg) (mk_span 0 (sz_payload_used r)) of
        (st, gr, None) \<Rightarrow> (st, gr, r)
      | (st, gr, Some node) \<Rightarrow>
          if st \<noteq> SPG_OK then (st, gr, r)
          else
            (let r = r\<lparr>sz_result_node := Some node\<rparr>
             in case spg_graph_set_scores gr node (result_scores (cs_mutated (sz_choice r))) of (st, gr) \<Rightarrow>
               if st \<noteq> SPG_OK then (st, gr, r)
               else (case sg_recommendation_node cfg of
                       None \<Rightarrow> (SPG_OK, gr, r)
                     | Some rnode \<Rightarrow>
                         if \<not> spg_graph_node_valid gr rnode then (SPG_E_INVALID_ARG, gr, r)
                         else (case spg_graph_add_edge gr EDGE_ACTION_RESULT rnode node of
                                 (st, gr, edge) \<Rightarrow>
                                   if st \<noteq> SPG_OK then (st, gr, r)
                                   else (SPG_OK, gr, r\<lparr>sz_result_edge := edge\<rparr>)))))"

definition sim_graph ::
  "sim_exec_config \<Rightarrow> sim_state \<Rightarrow> sim_result \<Rightarrow> spg_status \<times> sim_state \<times> sim_result" where
  "sim_graph cfg s r =
     (case ss_graph s of
        None \<Rightarrow> (SPG_E_INVALID_ARG, s, r)
      | Some gr \<Rightarrow> (case add_graph_result gr cfg r of (st, gr', r') \<Rightarrow> (st, s\<lparr>ss_graph := Some gr'\<rparr>, r')))"

definition add_memory_fact ::
  "u64 \<Rightarrow> sim_state \<Rightarrow> sim_result \<Rightarrow> spg_status \<times> sim_state \<times> sim_result" where
  "add_memory_fact source_event_id s r =
     (case ss_memory s of
        None \<Rightarrow> (SPG_E_INVALID_ARG, s, r)
      | Some mem \<Rightarrow>
          (case spg_memory_add_fact mem FACT_ARTIFACT no_span no_span (mk_span 0 (sz_payload_used r))
                  source_event_id (sz_result_node r \<noteq> None)
                  (case sz_result_node r of None \<Rightarrow> mk_handle 0 0 | Some n \<Rightarrow> n) (Finite 1) of
             (st, mem', _) \<Rightarrow>
               if st \<noteq> SPG_OK then (st, s\<lparr>ss_memory := Some mem'\<rparr>, r)
               else (SPG_OK, s\<lparr>ss_memory := Some mem'\<rparr>,
                     if mem' = [] then r else r\<lparr>sz_memory_fact := Some (mf_id (last mem'))\<rparr>)))"

text \<open>The parent of the next record: the last record of this step, else the configured one.\<close>

definition parent_of :: "sim_exec_config \<Rightarrow> sim_result \<Rightarrow> u64" where
  "parent_of cfg r = (if sz_sim_sequence r \<noteq> 0 then sz_sim_sequence r else sg_parent_sequence cfg)"

definition sim_graph_stage ::
  "sim_exec_config \<Rightarrow> u8 list \<Rightarrow> write_outcome \<Rightarrow> sim_state \<Rightarrow> sim_result \<Rightarrow> spg_status \<times> sim_state \<times> sim_result" where
  "sim_graph_stage cfg payload io s r =
     (if \<not> sg_update_graph cfg then (SPG_OK, s, r)
      else and_then (sim_graph cfg s r)
             (sim_append cfg (parent_of cfg r) EVENT_GRAPH payload io (\<lambda>n. sz_graph_sequence_update (\<lambda>_. n))))"

definition memory_parent :: "sim_exec_config \<Rightarrow> sim_result \<Rightarrow> u64" where
  "memory_parent cfg r =
     (if sg_update_graph cfg \<and> sg_write_journal cfg then sz_graph_sequence r else parent_of cfg r)"

definition sim_memory_stage ::
  "sim_exec_config \<Rightarrow> u8 list \<Rightarrow> write_outcome \<Rightarrow> sim_state \<Rightarrow> sim_result \<Rightarrow> spg_status \<times> sim_state \<times> sim_result" where
  "sim_memory_stage cfg payload io s r =
     (if \<not> sg_update_memory cfg then (SPG_OK, s, r)
      else and_then (add_memory_fact (if sz_sim_sequence r \<noteq> 0 then sz_sim_sequence r else 1) s r)
             (sim_append cfg (memory_parent cfg r) EVENT_MEMORY payload io (\<lambda>n. sz_memory_sequence_update (\<lambda>_. n))))"

definition sim_args_ok :: "sim_state \<Rightarrow> sim_exec_config \<Rightarrow> recommendation \<Rightarrow> policy_decision \<Rightarrow> nat \<Rightarrow> bool" where
  "sim_args_ok s cfg rec decision capacity \<longleftrightarrow>
     capacity > 0 \<and> rm_state rec = RECOMMENDATION_VALID \<and> rm_action_kind rec = ACTION_SIMULATOR \<and>
     dc_kind decision = DECISION_ALLOW \<and>
     \<not> (sg_write_journal cfg \<and> ss_journal s = None) \<and> \<not> (sg_update_graph cfg \<and> ss_graph s = None) \<and>
     \<not> (sg_update_memory cfg \<and> ss_memory s = None)"

definition start_result :: "sim_choice \<Rightarrow> risk_score \<Rightarrow> risk_score \<Rightarrow> sexpr_writer \<Rightarrow> sim_result" where
  "start_result ch before after wr =
     \<lparr>sz_choice = ch, sz_risk_before = before, sz_risk_after = after, sz_sim_sequence = 0,
      sz_graph_sequence = 0, sz_memory_sequence = 0, sz_result_node = None, sz_result_edge = None,
      sz_memory_fact = None, sz_payload_used = wr_used wr, sz_payload_truncated = wr_truncated wr\<rparr>"

text \<open>The writes of the three records may each fail: \<open>io1\<close>, \<open>io2\<close>, \<open>io3\<close>.\<close>

definition spg_sim_executor_step ::
  "sim_state \<Rightarrow> sim_exec_config \<Rightarrow> recommendation \<Rightarrow> policy_decision \<Rightarrow> nat \<Rightarrow>
     write_outcome \<Rightarrow> write_outcome \<Rightarrow> write_outcome \<Rightarrow> spg_status \<times> sim_state \<times> sim_result option" where
  "spg_sim_executor_step s cfg rec decision capacity io1 io2 io3 =
     (if \<not> sim_args_ok s cfg rec decision capacity then (SPG_E_INVALID_ARG, s, None)
      else
        (let (next_sim, ch) = mutate_sim (ss_sim s);
             before = spg_risk_evaluate (ss_sim s);
             after = spg_risk_evaluate next_sim;
             (wr, st) = sim_payload ch before after capacity;
             r = start_result ch before after wr;
             payload = bytes_of (take (wr_used wr) (wr_buffer wr))
         in if st \<noteq> SPG_OK then (st, s, Some r)
            else (case and_then
                    (and_then
                      (sim_append cfg (sg_parent_sequence cfg) EVENT_SIM payload io1
                         (\<lambda>n. sz_sim_sequence_update (\<lambda>_. n)) (s\<lparr>ss_sim := next_sim\<rparr>) r)
                      (sim_graph_stage cfg payload io2))
                    (sim_memory_stage cfg payload io3) of
                   (st, s', r') \<Rightarrow> (st, s', Some r'))))"

end
