(* ===== verification/SimProps.thy ===== *)
theory SimProps
  imports SimExec
begin

text \<open>
  What the simulated executor promises: its 64-bit risk score is the score over the natural
  numbers, nothing overflowing on a loaded network; the mutation it picks never raises the risk
  and lowers it strictly whenever it changes anything; and steps end in a network whose
  vulnerability and credential risk is nil.
\<close>

section \<open>The score over the natural numbers\<close>

definition crit_at :: "sim_config \<Rightarrow> nat \<Rightarrow> nat" where
  "crit_at c h = unat (ho_criticality_bp (sm_hosts c ! h))"

definition exposed_nat :: "sim_config \<Rightarrow> sim_service \<Rightarrow> nat" where
  "exposed_nat c s = crit_at c (sv_host_index s) * unat (sv_exposure_bp s) div 10000"

definition vulnerability_nat :: "sim_config \<Rightarrow> sim_vulnerability \<Rightarrow> nat" where
  "vulnerability_nat c v =
     (if vu_patched v then 0
      else exposed_nat c (sm_services c ! vu_service_index v) * unat (vu_severity_bp v) div 10000)"

definition weak_nat :: "sim_config \<Rightarrow> sim_credential \<Rightarrow> nat" where
  "weak_nat c cr =
     crit_at c (ac_host_index (sm_accounts c ! cr_account_index cr)) * (10000 - unat (cr_strength_bp cr)) div 10000"

definition credential_nat :: "sim_config \<Rightarrow> sim_credential \<Rightarrow> nat" where
  "credential_nat c cr = (if ac_enabled (sm_accounts c ! cr_account_index cr) then weak_nat c cr else 0)"

definition edge_nat :: "sim_config \<Rightarrow> sim_network_edge \<Rightarrow> nat" where
  "edge_nat c e =
     (crit_at c (ne_from_host_index e) + crit_at c (ne_to_host_index e)) div 2 * unat (ne_reachability_bp e) div 10000"

definition risk_nat :: "sim_config \<Rightarrow> nat" where
  "risk_nat c =
     (\<Sum>h \<leftarrow> sm_hosts c. unat (ho_criticality_bp h)) + (\<Sum>s \<leftarrow> sm_services c. exposed_nat c s) +
     (\<Sum>v \<leftarrow> sm_vulnerabilities c. vulnerability_nat c v) + (\<Sum>cr \<leftarrow> sm_credentials c. credential_nat c cr) +
     (\<Sum>e \<leftarrow> sm_network_edges c. edge_nat c e)"

definition sound_sim :: "sim_config \<Rightarrow> bool" where
  "sound_sim c \<longleftrightarrow> in_range c \<and> within_caps c"

subsection \<open>Exactness of the word arithmetic\<close>

lemma unat_widen: "unat (ucast (a :: u32) :: u64) = unat a"
proof -
  have "unat a < 2 ^ LENGTH(32)" by (rule unsigned_less)
  then show ?thesis by (simp add: unsigned_ucast_eq take_bit_nat_eq_self)
qed

lemma bp_product: "a \<le> 10000 \<Longrightarrow> b \<le> 10000 \<Longrightarrow> a * b div 10000 \<le> (10000 :: nat)"
  by (metis div_le_mono mult_le_mono nonzero_mult_div_cancel_right zero_neq_numeral)

lemma small_mult:
  fixes a b :: u64
  assumes "unat a \<le> 10000" "unat b \<le> 10000"
  shows "unat (a * b div 10000) = unat a * unat b div 10000"
proof -
  have "unat a * unat b \<le> 10000 * 10000" using assms by (intro mult_le_mono)
  then have "unat (a * b) = unat a * unat b" by (simp add: unat_word_ariths)
  then show ?thesis by (simp add: unat_div)
qed

lemma unat_bp_mul: "unat a \<le> 10000 \<Longrightarrow> unat b \<le> 10000 \<Longrightarrow> unat (bp_mul a b) = unat a * unat b div 10000"
  unfolding bp_mul_def by (subst small_mult) (simp_all add: unat_widen)

lemma foldl_exact:
  fixes f :: "'a \<Rightarrow> u64"
  assumes "\<forall>x \<in> set xs. unat (f x) = gn x \<and> gn x \<le> 10000"
    and "unat acc + 10000 * length xs < 2 ^ 64"
  shows "unat (foldl (\<lambda>acc x. acc + f x) acc xs) = unat acc + sum_list (map gn xs)"
  using assms
proof (induction xs arbitrary: acc)
  case (Cons x xs)
  have "unat (acc + f x) = unat acc + gn x" using Cons.prems by (simp add: u64_plus_exact)
  then show ?case using Cons by simp
qed simp

lemma sum_bounded: "\<forall>x \<in> set xs. gn x \<le> (10000 :: nat) \<Longrightarrow> sum_list (map gn xs) \<le> 10000 * length xs"
  by (induction xs) auto

lemma in_range_bounds:
  assumes "in_range c"
  shows "h < length (sm_hosts c) \<Longrightarrow> crit_at c h \<le> 10000"
    and "x \<in> set (sm_services c) \<Longrightarrow> sv_host_index x < length (sm_hosts c) \<and> unat (sv_exposure_bp x) \<le> 10000"
    and "a \<in> set (sm_accounts c) \<Longrightarrow> ac_host_index a < length (sm_hosts c)"
    and "r \<in> set (sm_credentials c) \<Longrightarrow> cr_account_index r < length (sm_accounts c) \<and> unat (cr_strength_bp r) \<le> 10000"
    and "v \<in> set (sm_vulnerabilities c) \<Longrightarrow> vu_service_index v < length (sm_services c) \<and> unat (vu_severity_bp v) \<le> 10000"
    and "e \<in> set (sm_network_edges c) \<Longrightarrow> ne_from_host_index e < length (sm_hosts c) \<and>
           ne_to_host_index e < length (sm_hosts c) \<and> unat (ne_reachability_bp e) \<le> 10000"
  using assms by (auto simp: in_range_def list_all_iff crit_at_def SIM_MAX_BASIS_POINTS_def)

lemma service_exact:
  assumes "in_range c" "x \<in> set (sm_services c)"
  shows "unat (service_exposed c x) = exposed_nat c x \<and> exposed_nat c x \<le> 10000"
  using in_range_bounds(1) [OF assms(1), of "sv_host_index x"] in_range_bounds(2) [OF assms]
  by (simp add: service_exposed_def exposed_nat_def crit_at_def unat_bp_mul bp_product)

definition vulnerability_term :: "sim_config \<Rightarrow> sim_vulnerability \<Rightarrow> u64" where
  "vulnerability_term c v = (if vu_patched v then 0
     else (service_exposed c (sm_services c ! vu_service_index v) * ucast (vu_severity_bp v)) div 10000)"

definition weak_term :: "sim_config \<Rightarrow> sim_credential \<Rightarrow> u64" where
  "weak_term c cr = bp_mul (ho_criticality_bp (sm_hosts c !
     ac_host_index (sm_accounts c ! cr_account_index cr))) (weakness_bp cr)"

definition credential_term :: "sim_config \<Rightarrow> sim_credential \<Rightarrow> u64" where
  "credential_term c cr = (if ac_enabled (sm_accounts c ! cr_account_index cr) then weak_term c cr else 0)"

lemma add_terms:
  "add_vulnerability c = (\<lambda>acc v. acc + vulnerability_term c v)"
  "add_credential c = (\<lambda>acc cr. acc + credential_term c cr)"
  by (auto simp: add_vulnerability_def vulnerability_term_def add_credential_def credential_term_def
      weak_term_def Let_def fun_eq_iff)

lemma vulnerability_exact:
  assumes "in_range c" "v \<in> set (sm_vulnerabilities c)"
  shows "unat (vulnerability_term c v) = vulnerability_nat c v \<and> vulnerability_nat c v \<le> 10000"
proof -
  note v = in_range_bounds(5) [OF assms]
  note s = service_exact [OF assms(1) nth_mem [OF conjunct1 [OF v]]]
  show ?thesis using v s
    by (simp add: vulnerability_term_def vulnerability_nat_def small_mult bp_product unat_widen)
qed

lemma unat_weakness: "unat (cr_strength_bp cr) \<le> 10000 \<Longrightarrow> unat (weakness_bp cr) = 10000 - unat (cr_strength_bp cr)"
  by (simp add: weakness_bp_def unat_sub word_le_nat_alt)

lemma weak_exact:
  assumes "in_range c" "cr \<in> set (sm_credentials c)"
  shows "unat (weak_term c cr) = weak_nat c cr \<and> weak_nat c cr \<le> 10000"
proof -
  note cr = in_range_bounds(4) [OF assms]
  note acct = in_range_bounds(3) [OF assms(1) nth_mem [OF conjunct1 [OF cr]]]
  show ?thesis using cr in_range_bounds(1) [OF assms(1) acct]
    by (simp add: weak_term_def weak_nat_def crit_at_def unat_bp_mul unat_weakness bp_product)
qed

lemma credential_exact:
  assumes "in_range c" "cr \<in> set (sm_credentials c)"
  shows "unat (credential_term c cr) = credential_nat c cr \<and> credential_nat c cr \<le> 10000"
  using weak_exact [OF assms] by (simp add: credential_term_def credential_nat_def)

lemma edge_exact:
  assumes "in_range c" "e \<in> set (sm_network_edges c)"
  shows "unat (edge_risk c e) = edge_nat c e \<and> edge_nat c e \<le> 10000"
proof -
  note e = in_range_bounds(6) [OF assms]
  define a b where "a = (ucast (ho_criticality_bp (sm_hosts c ! ne_from_host_index e)) :: u64)"
    and "b = (ucast (ho_criticality_bp (sm_hosts c ! ne_to_host_index e)) :: u64)"
  have ab: "unat a = crit_at c (ne_from_host_index e)" "unat b = crit_at c (ne_to_host_index e)"
    "unat a \<le> 10000" "unat b \<le> 10000"
    using e in_range_bounds(1) [OF assms(1)] by (simp_all add: a_def b_def crit_at_def unat_widen)
  then have pair: "unat ((a + b) div 2) = (unat a + unat b) div 2" "(unat a + unat b) div 2 \<le> 10000"
    by (simp_all add: unat_div u64_plus_exact)
  define p :: u64 where "p = (a + b) div 2"
  have p: "unat p \<le> 10000" "unat p = (unat a + unat b) div 2" using pair by (simp_all only: p_def)
  have "unat (p * ucast (ne_reachability_bp e) div 10000) = unat p * unat (ne_reachability_bp e) div 10000"
    using small_mult [OF p(1), of "ucast (ne_reachability_bp e)"] e by (simp add: unat_widen)
  moreover have "edge_risk c e = p * ucast (ne_reachability_bp e) div 10000"
    by (simp add: edge_risk_def Let_def p_def a_def b_def)
  moreover have "edge_nat c e = unat p * unat (ne_reachability_bp e) div 10000"
    by (simp add: edge_nat_def p(2) ab)
  ultimately show ?thesis using bp_product [OF p(1)] e by simp
qed

text \<open>Every component, and their sum, is what it is over the natural numbers.\<close>

lemma risk_components:
  assumes "sound_sim c"
  shows "unat (rk_vulnerability (spg_risk_evaluate c)) = (\<Sum>v \<leftarrow> sm_vulnerabilities c. vulnerability_nat c v)"
    and "unat (rk_credential (spg_risk_evaluate c)) = (\<Sum>cr \<leftarrow> sm_credentials c. credential_nat c cr)"
    and "unat (rk_total (spg_risk_evaluate c)) = risk_nat c"
proof -
  have r: "in_range c" and caps: "length (sm_hosts c) \<le> 64" "length (sm_services c) \<le> 128"
    "length (sm_credentials c) \<le> 128" "length (sm_vulnerabilities c) \<le> 128" "length (sm_network_edges c) \<le> 256"
    using assms by (simp_all add: sound_sim_def within_caps_def SIM_MAX_HOSTS_def SIM_MAX_SERVICES_def
        SIM_MAX_CREDENTIALS_def SIM_MAX_VULNERABILITIES_def SIM_MAX_NETWORK_EDGES_def)
  have h: "\<forall>h \<in> set (sm_hosts c). unat (ucast (ho_criticality_bp h) :: u64) = unat (ho_criticality_bp h) \<and>
      unat (ho_criticality_bp h) \<le> 10000"
    using r by (auto simp: in_range_def list_all_iff SIM_MAX_BASIS_POINTS_def unat_widen)
  note exact = foldl_exact [OF h, of 0] foldl_exact [of "sm_services c" "service_exposed c" "exposed_nat c" 0]
    foldl_exact [of "sm_vulnerabilities c" "vulnerability_term c" "vulnerability_nat c" 0]
    foldl_exact [of "sm_credentials c" "credential_term c" "credential_nat c" 0]
    foldl_exact [of "sm_network_edges c" "edge_risk c" "edge_nat c" 0]
  let ?R = "spg_risk_evaluate c"
  have a: "unat (rk_asset ?R) = (\<Sum>h \<leftarrow> sm_hosts c. unat (ho_criticality_bp h))"
    using exact(1) caps by (simp add: spg_risk_evaluate_def Let_def)
  have b: "unat (rk_exposure ?R) = (\<Sum>s \<leftarrow> sm_services c. exposed_nat c s)"
    using exact(2) caps service_exact [OF r] by (simp add: spg_risk_evaluate_def Let_def)
  show v: "unat (rk_vulnerability ?R) = (\<Sum>v \<leftarrow> sm_vulnerabilities c. vulnerability_nat c v)"
    using exact(3) caps vulnerability_exact [OF r] by (simp add: spg_risk_evaluate_def Let_def add_terms)
  show cr: "unat (rk_credential ?R) = (\<Sum>cr \<leftarrow> sm_credentials c. credential_nat c cr)"
    using exact(4) caps credential_exact [OF r] by (simp add: spg_risk_evaluate_def Let_def add_terms)
  have e: "unat (rk_reachability ?R) = (\<Sum>e \<leftarrow> sm_network_edges c. edge_nat c e)"
    using exact(5) caps edge_exact [OF r] by (simp add: spg_risk_evaluate_def Let_def)
  have le: "unat (rk_asset ?R) \<le> 640000" "unat (rk_exposure ?R) \<le> 1280000"
    "unat (rk_vulnerability ?R) \<le> 1280000" "unat (rk_credential ?R) \<le> 1280000" "unat (rk_reachability ?R) \<le> 2560000"
    using sum_bounded [of "sm_hosts c" "\<lambda>h. unat (ho_criticality_bp h)"] sum_bounded [of "sm_services c" "exposed_nat c"]
      sum_bounded [of "sm_vulnerabilities c" "vulnerability_nat c"] sum_bounded [of "sm_credentials c" "credential_nat c"]
      sum_bounded [of "sm_network_edges c" "edge_nat c"] h service_exact [OF r] vulnerability_exact [OF r]
      credential_exact [OF r] edge_exact [OF r] caps a b v cr e
    by fastforce+
  have "unat (rk_total ?R) = unat (rk_asset ?R) + unat (rk_exposure ?R) + unat (rk_vulnerability ?R) +
      unat (rk_credential ?R) + unat (rk_reachability ?R)"
  proof -
    have "rk_total ?R = rk_asset ?R + rk_exposure ?R + rk_vulnerability ?R + rk_credential ?R + rk_reachability ?R"
      by (simp add: spg_risk_evaluate_def Let_def)
    then show ?thesis using le by (simp add: u64_plus_exact)
  qed
  then show "unat (rk_total ?R) = risk_nat c" by (simp add: risk_nat_def a b v cr e)
qed

section \<open>The choice\<close>

definition scan_ok :: "(nat \<Rightarrow> u64) \<Rightarrow> nat \<Rightarrow> u64 \<times> nat option \<Rightarrow> bool" where
  "scan_ok f n st \<longleftrightarrow> (\<forall>i < n. f i \<le> fst st) \<and>
     (case snd st of None \<Rightarrow> fst st = 0 | Some j \<Rightarrow> j < n \<and> f j = fst st \<and> 0 < fst st)"

lemma u64_pos: "0 < x \<longleftrightarrow> 0 < unat (x :: u64)"
  by (simp add: word_less_nat_alt)

lemma better_scan_ok: "scan_ok f n st \<Longrightarrow> scan_ok f (Suc n) (better f st n)"
proof (cases "f n > fst st")
  case True
  assume ok: "scan_ok f n st"
  then have "\<forall>i < Suc n. f i \<le> f n" using True by (auto simp: scan_ok_def less_Suc_eq)
  moreover have "0 < f n" using True word_gt_0 by fastforce
  ultimately show ?thesis using True by (simp add: scan_ok_def better_def)
next
  case False
  assume "scan_ok f n st"
  then show ?thesis using False by (auto simp: scan_ok_def better_def less_Suc_eq not_less split: option.splits)
qed

lemma worst_scan: "scan_ok f n (foldl (better f) (0, None) [0..<n])"
  by (induction n) (simp_all add: better_scan_ok, simp add: scan_ok_def)

lemma worst_index_Some:
  "worst_index f n = Some j \<Longrightarrow> j < n \<and> 0 < f j \<and> (\<forall>i < n. f i \<le> f j)"
  using worst_scan [of f n] by (auto simp: worst_index_def scan_ok_def)

lemma worst_index_None: "worst_index f n = None \<Longrightarrow> i < n \<Longrightarrow> f i = 0"
  using worst_scan [of f n] by (auto simp: worst_index_def scan_ok_def)

lemma vulnerability_contribution_term:
  "vulnerability_contribution c i = vulnerability_term c (sm_vulnerabilities c ! i)"
  by (simp add: vulnerability_contribution_def vulnerability_term_def Let_def)

lemma worse_scan:
  assumes "w = foldl (worse c i) w0 crs"
  shows "w0 \<le> w \<and> (\<forall>cr \<in> set crs. cr_account_index cr = i \<longrightarrow> weak_term c cr \<le> w) \<and>
    (w = w0 \<or> (\<exists>cr \<in> set crs. cr_account_index cr = i \<and> weak_term c cr = w))"
  using assms
proof (induction crs arbitrary: w0)
  case (Cons cr crs)
  have "w = foldl (worse c i) (worse c i w0 cr) crs" using Cons.prems by simp
  from Cons.IH [OF this] show ?case
    by (auto simp: worse_def weak_term_def Let_def split: if_splits)
qed simp

lemma account_contribution_zero:
  assumes "account_contribution c i = 0" "cr \<in> set (sm_credentials c)" "cr_account_index cr = i"
  shows "credential_term c cr = 0"
  using assms worse_scan [of "foldl (worse c i) 0 (sm_credentials c)" c i 0 "sm_credentials c"]
  by (auto simp: account_contribution_def credential_term_def split: if_splits)

lemma account_contribution_pos:
  assumes "0 < account_contribution c i"
  shows "\<exists>cr \<in> set (sm_credentials c). cr_account_index cr = i \<and> 0 < credential_term c cr"
proof -
  have on: "ac_enabled (sm_accounts c ! i)" using assms by (auto simp: account_contribution_def split: if_splits)
  then have "0 < foldl (worse c i) 0 (sm_credentials c)" using assms by (simp add: account_contribution_def)
  then obtain cr where "cr \<in> set (sm_credentials c)" "cr_account_index cr = i" "0 < weak_term c cr"
    using worse_scan [of "foldl (worse c i) 0 (sm_credentials c)" c i 0 "sm_credentials c"] by auto
  then show ?thesis using on by (auto simp: credential_term_def)
qed

section \<open>The two mutations\<close>

definition patched :: "sim_config \<Rightarrow> nat \<Rightarrow> sim_config" where
  "patched c i = c\<lparr>sm_vulnerabilities :=
     (sm_vulnerabilities c)[i := (sm_vulnerabilities c ! i)\<lparr>vu_patched := True\<rparr>]\<rparr>"

definition disabled :: "sim_config \<Rightarrow> nat \<Rightarrow> sim_config" where
  "disabled c i = c\<lparr>sm_accounts := (sm_accounts c)[i := (sm_accounts c ! i)\<lparr>ac_enabled := False\<rparr>]\<rparr>"

lemma sound_patched: "sound_sim c \<Longrightarrow> i < length (sm_vulnerabilities c) \<Longrightarrow> sound_sim (patched c i)"
  by (auto simp: sound_sim_def in_range_def within_caps_def patched_def list_all_iff
      dest!: set_update_subset_insert [THEN subsetD])

lemma sound_disabled: "sound_sim c \<Longrightarrow> i < length (sm_accounts c) \<Longrightarrow> sound_sim (disabled c i)"
  by (auto simp: sound_sim_def in_range_def within_caps_def disabled_def list_all_iff
      dest!: set_update_subset_insert [THEN subsetD])

lemma sum_list_upd:
  "i < length xs \<Longrightarrow> sum_list (map gn (xs[i := x])) + gn (xs ! i) = sum_list (map gn xs) + (gn x :: nat)"
proof (induction xs arbitrary: i)
  case (Cons y ys)
  then show ?case by (cases i) (simp_all add: ac_simps)
qed simp

lemma exposed_frame [frame]:
  "exposed_nat (patched c i) = exposed_nat c" "exposed_nat (disabled c i) = exposed_nat c"
  "edge_nat (patched c i) = edge_nat c" "edge_nat (disabled c i) = edge_nat c"
  "credential_nat (patched c i) = credential_nat c"
  "vulnerability_nat (patched c i) = vulnerability_nat c" "vulnerability_nat (disabled c i) = vulnerability_nat c"
  by (simp_all add: fun_eq_iff exposed_nat_def edge_nat_def credential_nat_def vulnerability_nat_def weak_nat_def
      crit_at_def patched_def disabled_def)

text \<open>A patch lowers the risk by exactly what the vulnerability contributed.\<close>

lemma patched_risk:
  assumes "i < length (sm_vulnerabilities c)"
  shows "risk_nat (patched c i) + vulnerability_nat c (sm_vulnerabilities c ! i) = risk_nat c"
proof -
  have "sum_list (map (vulnerability_nat c) (sm_vulnerabilities (patched c i))) +
      vulnerability_nat c (sm_vulnerabilities c ! i) = sum_list (map (vulnerability_nat c) (sm_vulnerabilities c))"
    using sum_list_upd [OF assms, of "vulnerability_nat c" "(sm_vulnerabilities c ! i)\<lparr>vu_patched := True\<rparr>"]
    by (simp add: patched_def vulnerability_nat_def [of c "(sm_vulnerabilities c ! i)\<lparr>vu_patched := True\<rparr>"])
  moreover have "sm_hosts (patched c i) = sm_hosts c" "sm_services (patched c i) = sm_services c"
    "sm_credentials (patched c i) = sm_credentials c" "sm_network_edges (patched c i) = sm_network_edges c"
    by (simp_all add: patched_def)
  ultimately show ?thesis by (simp add: risk_nat_def frame)
qed

text \<open>Disabling an account lowers it by the sum over its credentials.\<close>

lemma disabled_credential:
  assumes "in_range c" "cr \<in> set (sm_credentials c)" "i < length (sm_accounts c)"
  shows "credential_nat (disabled c i) cr = (if cr_account_index cr = i then 0 else credential_nat c cr)"
  using in_range_bounds(4) [OF assms(1,2)] assms(3)
  by (simp add: credential_nat_def weak_nat_def crit_at_def disabled_def nth_list_update)

lemma disabled_risk:
  assumes "in_range c" "i < length (sm_accounts c)"
  shows "risk_nat (disabled c i) + (\<Sum>cr \<leftarrow> filter (\<lambda>cr. cr_account_index cr = i) (sm_credentials c). credential_nat c cr)
    = risk_nat c"
proof -
  have "(\<Sum>cr \<leftarrow> crs. credential_nat (disabled c i) cr) +
      (\<Sum>cr \<leftarrow> filter (\<lambda>cr. cr_account_index cr = i) crs. credential_nat c cr) = (\<Sum>cr \<leftarrow> crs. credential_nat c cr)"
    if "set crs \<subseteq> set (sm_credentials c)" for crs
    using that disabled_credential [OF assms(1) _ assms(2)] by (induction crs) auto
  moreover have "sm_hosts (disabled c i) = sm_hosts c" "sm_services (disabled c i) = sm_services c"
    "sm_vulnerabilities (disabled c i) = sm_vulnerabilities c" "sm_credentials (disabled c i) = sm_credentials c"
    "sm_network_edges (disabled c i) = sm_network_edges c"
    by (simp_all add: disabled_def)
  ultimately show ?thesis by (simp add: risk_nat_def frame)
qed

text \<open>What can still be hardened.\<close>

definition open_count :: "sim_config \<Rightarrow> nat" where
  "open_count c = length (filter (\<lambda>v. \<not> vu_patched v) (sm_vulnerabilities c)) +
     length (filter ac_enabled (sm_accounts c))"

lemma length_filter_upd:
  "i < length xs \<Longrightarrow> P (xs ! i) \<Longrightarrow> \<not> P x \<Longrightarrow> Suc (length (filter P (xs[i := x]))) = length (filter P xs)"
proof (induction xs arbitrary: i)
  case (Cons y ys)
  then show ?case by (cases i) auto
qed simp

definition hardened :: "sim_config \<Rightarrow> bool" where
  "hardened c \<longleftrightarrow> rk_vulnerability (spg_risk_evaluate c) = 0 \<and> rk_credential (spg_risk_evaluate c) = 0"

lemma foldl_zero: "\<forall>x \<in> set xs. f x = (0 :: u64) \<Longrightarrow> foldl (\<lambda>acc x. acc + f x) 0 xs = 0"
  by (induction xs) auto

text \<open>The cases of a mutation: it lowers the risk, or there is nothing left to lower.\<close>

lemma mutate_cases:
  assumes "sound_sim c" "mutate_sim c = (c', ch)"
  shows "sound_sim c' \<and>
    (if cs_mutated ch then risk_nat c' < risk_nat c \<and> Suc (open_count c') = open_count c
     else c' = c \<and> hardened c)"
proof (cases "worst_index (vulnerability_contribution c) (length (sm_vulnerabilities c))")
  case (Some i)
  note w = worst_index_Some [OF Some, unfolded vulnerability_contribution_term]
  have c': "c' = patched c i" "cs_mutated ch" using assms(2) Some by (auto simp: mutate_sim_def patched_def)
  have "0 < vulnerability_nat c (sm_vulnerabilities c ! i)"
  proof -
    have "in_range c" "sm_vulnerabilities c ! i \<in> set (sm_vulnerabilities c)"
      using assms(1) w by (simp_all add: sound_sim_def)
    then show ?thesis using vulnerability_exact w u64_pos by metis
  qed
  moreover have "\<not> vu_patched (sm_vulnerabilities c ! i)"
    using w by (auto simp: vulnerability_term_def)
  then have "Suc (open_count c') = open_count c"
    using length_filter_upd [of i "sm_vulnerabilities c" "\<lambda>v. \<not> vu_patched v"] w
    by (simp add: c' open_count_def patched_def)
  ultimately show ?thesis using patched_risk [of i c] w sound_patched [OF assms(1)] c' by simp
next
  case None
  note none = worst_index_None [OF None, unfolded vulnerability_contribution_term]
  show ?thesis
  proof (cases "worst_index (account_contribution c) (length (sm_accounts c))")
    case (Some i)
    note w = worst_index_Some [OF Some]
    have c': "c' = disabled c i" "cs_mutated ch"
      using assms(2) None Some by (auto simp: mutate_sim_def disabled_def)
    obtain cr where cr: "cr \<in> set (sm_credentials c)" "cr_account_index cr = i" "0 < credential_term c cr"
      using account_contribution_pos w by blast
    have "0 < credential_nat c cr"
      using credential_exact [of c cr] assms(1) cr by (metis sound_sim_def u64_pos)
    then have "0 < (\<Sum>cr \<leftarrow> filter (\<lambda>cr. cr_account_index cr = i) (sm_credentials c). credential_nat c cr)"
      using cr member_le_sum_list [of "credential_nat c cr"
          "map (credential_nat c) (filter (\<lambda>cr. cr_account_index cr = i) (sm_credentials c))"] by fastforce
    moreover have "ac_enabled (sm_accounts c ! i)"
      using w by (auto simp: account_contribution_def split: if_splits)
    then have "Suc (open_count c') = open_count c"
      using length_filter_upd [of i "sm_accounts c" ac_enabled] w by (simp add: c' open_count_def disabled_def)
    ultimately show ?thesis
      using disabled_risk [of c i] w sound_disabled [OF assms(1)] c' assms(1) by (simp add: sound_sim_def)
  next
    case none2: None
    have c': "c' = c" "\<not> cs_mutated ch" using assms(2) None none2 by (auto simp: mutate_sim_def)
    have "\<forall>v \<in> set (sm_vulnerabilities c). vulnerability_term c v = 0"
      using none by (auto simp: in_set_conv_nth)
    moreover have "\<forall>cr \<in> set (sm_credentials c). credential_term c cr = 0"
      using account_contribution_zero worst_index_None [OF none2] in_range_bounds(4) assms(1)
      by (metis sound_sim_def)
    ultimately have "hardened c"
      by (simp add: hardened_def spg_risk_evaluate_def Let_def add_terms foldl_zero)
    then show ?thesis using c' assms(1) by simp
  qed
qed

section \<open>The step\<close>

lemma sim_append_frame [frame]:
  "sim_append cfg parent kind payload io store s r = (st, s', r') \<Longrightarrow> ss_sim s' = ss_sim s"
  by (auto simp: sim_append_def split: if_splits option.splits prod.splits)

text \<open>What the records of a step cannot change: the network and the report about it.\<close>

definition same_report :: "sim_result \<Rightarrow> sim_result \<Rightarrow> bool" where
  "same_report r r' \<longleftrightarrow> sz_choice r' = sz_choice r \<and> sz_risk_before r' = sz_risk_before r \<and>
     sz_risk_after r' = sz_risk_after r"

definition keeps_sim :: "sim_state \<Rightarrow> sim_result \<Rightarrow> spg_status \<times> sim_state \<times> sim_result \<Rightarrow> bool" where
  "keeps_sim s r out \<longleftrightarrow> (case out of (st, s', r') \<Rightarrow> ss_sim s' = ss_sim s \<and> same_report r r')"

lemma keeps_then:
  assumes "keeps_sim s r out" "\<And>s' r'. keeps_sim s' r' (k s' r')"
  shows "keeps_sim s r (and_then out k)"
proof (cases out)
  case (fields st s1 r1)
  then show ?thesis using assms(1) assms(2) [of s1 r1]
    by (auto simp: keeps_sim_def and_then_def same_report_def)
qed

lemma keeps_append:
  assumes "\<And>n r. same_report r (store n r)"
  shows "keeps_sim s r (sim_append cfg parent kind payload io store s r)"
  using assms by (auto simp: keeps_sim_def sim_append_def same_report_def split: option.split prod.split)

lemma keeps_graph: "keeps_sim s r (sim_graph cfg s r)"
  by (auto simp: keeps_sim_def sim_graph_def add_graph_result_def same_report_def Let_def split: option.split prod.split)

lemma keeps_memory: "keeps_sim s r (add_memory_fact ev s r)"
  by (auto simp: keeps_sim_def add_memory_fact_def same_report_def split: option.split prod.split)

lemma keeps_stages:
  "keeps_sim s r (sim_graph_stage cfg payload io s r)" "keeps_sim s r (sim_memory_stage cfg payload io s r)"
  unfolding sim_graph_stage_def sim_memory_stage_def
  by (auto intro!: keeps_then keeps_graph keeps_memory keeps_append simp: same_report_def,
      auto simp: keeps_sim_def same_report_def)

text \<open>A step that gets past its payload commits the mutation, whatever its records then return.\<close>

lemma sim_step_mutates:
  assumes "spg_sim_executor_step s cfg rec decision capacity io1 io2 io3 = (st, s', Some r)"
  shows "(ss_sim s' = fst (mutate_sim (ss_sim s)) \<or> s' = s \<and> st \<noteq> SPG_OK) \<and>
    sz_choice r = snd (mutate_sim (ss_sim s)) \<and> sz_risk_before r = spg_risk_evaluate (ss_sim s) \<and>
    sz_risk_after r = spg_risk_evaluate (fst (mutate_sim (ss_sim s)))"
proof -
  obtain next_sim ch where m: "mutate_sim (ss_sim s) = (next_sim, ch)" by fastforce
  let ?before = "spg_risk_evaluate (ss_sim s)" and ?after = "spg_risk_evaluate next_sim"
  obtain wr st0 where p: "sim_payload ch ?before ?after capacity = (wr, st0)" by fastforce
  let ?r = "start_result ch ?before ?after wr" and ?pay = "bytes_of (take (wr_used wr) (wr_buffer wr))"
  let ?out = "and_then (and_then (sim_append cfg (sg_parent_sequence cfg) EVENT_SIM ?pay io1
      (\<lambda>n. sz_sim_sequence_update (\<lambda>_. n)) (s\<lparr>ss_sim := next_sim\<rparr>) ?r) (sim_graph_stage cfg ?pay io2))
      (sim_memory_stage cfg ?pay io3)"
  have "keeps_sim (s\<lparr>ss_sim := next_sim\<rparr>) ?r ?out"
    by (intro keeps_then keeps_append keeps_stages) (simp add: same_report_def)
  then show ?thesis using assms m p
    by (auto simp: spg_sim_executor_step_def Let_def keeps_sim_def same_report_def start_result_def
        split: if_splits prod.splits)
qed

text \<open>
  C27: An allowed simulator step on a loaded network only ever hardens it: the scores it reports
  are the exact risks before and after, computed without overflow; when it changes the network
  the risk strictly falls and one vulnerability fewer is open or one account fewer enabled;
  when it changes nothing, no vulnerability and no credential carries risk. The network stays
  well indexed.
\<close>

theorem sim_step_lowers_risk:
  assumes "sound_sim (ss_sim s)"
    and "spg_sim_executor_step s cfg rec decision capacity io1 io2 io3 = (SPG_OK, s', Some r)"
  shows "sound_sim (ss_sim s') \<and>
    unat (rk_total (sz_risk_before r)) = risk_nat (ss_sim s) \<and>
    unat (rk_total (sz_risk_after r)) = risk_nat (ss_sim s') \<and>
    (if cs_mutated (sz_choice r)
     then risk_nat (ss_sim s') < risk_nat (ss_sim s) \<and> Suc (open_count (ss_sim s')) = open_count (ss_sim s)
     else ss_sim s' = ss_sim s \<and> hardened (ss_sim s))"
proof -
  obtain next_sim ch where m: "mutate_sim (ss_sim s) = (next_sim, ch)" by fastforce
  note step = sim_step_mutates [OF assms(2), unfolded m]
  note mut = mutate_cases [OF assms(1) m]
  then have "sound_sim (ss_sim s')" using step by auto
  then show ?thesis using step mut risk_components(3) assms(1) by simp
qed

text \<open>The network after \<open>n\<close> allowed steps in a row.\<close>

primrec after_steps :: "nat \<Rightarrow> sim_config \<Rightarrow> sim_config" where
  "after_steps 0 c = c"
| "after_steps (Suc n) c = after_steps n (fst (mutate_sim c))"

lemma after_steps_fix: "fst (mutate_sim c) = c \<Longrightarrow> after_steps n c = c"
  by (induction n) auto

lemma after_steps_hardened:
  "sound_sim c \<Longrightarrow> open_count c \<le> n \<Longrightarrow> hardened (after_steps n c)"
proof (induction n arbitrary: c)
  case 0
  obtain c' ch where m: "mutate_sim c = (c', ch)" by fastforce
  show ?case using mutate_cases [OF 0(1) m] 0(2) by (simp split: if_splits)
next
  case (Suc n)
  obtain c' ch where m: "mutate_sim c = (c', ch)" by fastforce
  note mut = mutate_cases [OF Suc.prems(1) m]
  show ?case
  proof (cases "cs_mutated ch")
    case True
    then show ?thesis using mut m Suc.IH [of c'] Suc.prems(2) by simp
  next
    case False
    then show ?thesis using mut m after_steps_fix [of c n] by simp
  qed
qed

lemma open_count_bound:
  assumes "sound_sim c"
  shows "open_count c \<le> 256"
proof -
  have "length (filter (\<lambda>v. \<not> vu_patched v) (sm_vulnerabilities c)) \<le> 128"
    using assms by (intro order_trans [OF length_filter_le])
      (simp add: sound_sim_def within_caps_def SIM_MAX_VULNERABILITIES_def)
  moreover have "length (filter ac_enabled (sm_accounts c)) \<le> 128"
    using assms by (intro order_trans [OF length_filter_le])
      (simp add: sound_sim_def within_caps_def SIM_MAX_ACCOUNTS_def)
  ultimately show ?thesis by (simp add: open_count_def)
qed

text \<open>
  C28: The hardening ends: on any loaded network, 256 allowed steps leave no vulnerability and no
  credential with risk, whatever order the greedy choice takes.
\<close>

theorem sim_hardening_ends:
  assumes "sound_sim c" "256 \<le> n"
  shows "rk_vulnerability (spg_risk_evaluate (after_steps n c)) = 0 \<and>
    rk_credential (spg_risk_evaluate (after_steps n c)) = 0"
  using after_steps_hardened [of c n] open_count_bound [OF assms(1)] assms by (simp add: hardened_def)

section \<open>A small network\<close>

definition small_sim :: sim_config where
  "small_sim = \<lparr>sm_hosts = [\<lparr>ho_id = mk_span 0 2, ho_criticality_bp = 8000\<rparr>],
     sm_services = [\<lparr>sv_id = mk_span 2 2, sv_host_index = 0, sv_name = mk_span 4 3, sv_port = 443, sv_exposure_bp = 5000\<rparr>],
     sm_accounts = [\<lparr>ac_id = mk_span 7 2, ac_host_index = 0, ac_username = mk_span 9 4, ac_enabled = True\<rparr>],
     sm_credentials = [\<lparr>cr_id = mk_span 13 2, cr_account_index = 0, cr_strength_bp = 2000\<rparr>],
     sm_vulnerabilities = [\<lparr>vu_id = mk_span 15 2, vu_service_index = 0, vu_severity_bp = 9000, vu_patched = False\<rparr>],
     sm_network_edges = []\<rparr>"

definition small_state :: sim_state where
  "small_state = \<lparr>ss_sim = small_sim, ss_journal = None, ss_graph = None, ss_memory = None\<rparr>"

definition small_config :: sim_exec_config where
  "small_config = \<lparr>sg_actor_id = 1, sg_timestamp_ns = 5, sg_parent_sequence = 0, sg_write_journal = False,
     sg_update_graph = False, sg_update_memory = False, sg_recommendation_node = None\<rparr>"

definition sim_recommendation :: recommendation where
  "sim_recommendation = (rejected REJECT_NONE)\<lparr>rm_state := RECOMMENDATION_VALID, rm_action_kind := ACTION_SIMULATOR\<rparr>"

definition full_io :: write_outcome where
  "full_io = \<lparr>io_header = 112, io_payload = 1000, io_flush = True\<rparr>"

definition small_step :: "spg_status \<times> sim_state \<times> sim_result option" where
  "small_step = spg_sim_executor_step small_state small_config sim_recommendation (allow 0) 256 full_io full_io full_io"

lemma small_sound: "sound_sim small_sim"
  by (simp add: sound_sim_def in_range_def within_caps_def small_sim_def SIM_MAX_BASIS_POINTS_def
      SIM_MAX_HOSTS_def SIM_MAX_SERVICES_def SIM_MAX_ACCOUNTS_def SIM_MAX_CREDENTIALS_def
      SIM_MAX_VULNERABILITIES_def SIM_MAX_NETWORK_EDGES_def)

lemma small_vulnerable: "rk_vulnerability (spg_risk_evaluate small_sim) \<noteq> 0"
proof -
  have "(\<Sum>v \<leftarrow> sm_vulnerabilities small_sim. vulnerability_nat small_sim v) = 3600"
    by (simp add: small_sim_def vulnerability_nat_def exposed_nat_def crit_at_def)
  then show ?thesis using risk_components(1) [OF small_sound] by auto
qed

lemma sim_texts_length: "length (concat (sim_texts ch before after)) \<le> 200"
  using u64_to_dec_value(4) [of "rk_total before"] u64_to_dec_value(4) [of "rk_total after"]
    u64_to_dec_value(4) [of "of_nat (the (cs_index ch))"]
  by (cases "cs_action ch") (auto simp: sim_texts_def split: option.splits)

lemma small_step_ok: "\<exists>s' r. small_step = (SPG_OK, s', Some r)"
proof -
  obtain next_sim ch where m: "mutate_sim small_sim = (next_sim, ch)" by fastforce
  let ?texts = "sim_texts ch (spg_risk_evaluate small_sim) (spg_risk_evaluate next_sim)"
  have "snd (sim_payload ch (spg_risk_evaluate small_sim) (spg_risk_evaluate next_sim) 256) = SPG_OK"
    unfolding sim_payload_def
    by (rule render_fits) (rule le_less_trans [OF sim_texts_length], simp)
  then show ?thesis
    using m by (auto simp: small_step_def spg_sim_executor_step_def sim_args_ok_def small_state_def small_config_def
        sim_recommendation_def allow_def Let_def and_then_def sim_append_def sim_graph_stage_def sim_memory_stage_def
        split: prod.splits)
qed

theorem sim_step_lowers_risk_witness:
  "case small_step of (st, s', r) \<Rightarrow> st = SPG_OK \<and> risk_nat (ss_sim s') < risk_nat small_sim"
proof -
  obtain s' r where e: "small_step = (SPG_OK, s', Some r)" using small_step_ok by blast
  have "sound_sim (ss_sim small_state)" using small_sound by (simp add: small_state_def)
  note step = sim_step_lowers_risk [OF this e [unfolded small_step_def]]
  have "\<not> hardened small_sim" using small_vulnerable by (simp add: hardened_def)
  with step have "risk_nat (ss_sim s') < risk_nat small_sim" by (simp add: small_state_def split: if_splits)
  then show ?thesis by (simp add: e)
qed

theorem sim_hardening_ends_witness:
  "rk_vulnerability (spg_risk_evaluate small_sim) \<noteq> 0 \<and>
   rk_vulnerability (spg_risk_evaluate (after_steps 256 small_sim)) = 0"
  using sim_hardening_ends [OF small_sound, of 256] small_vulnerable by simp

end
