(* ===== verification/MemStore.thy ===== *)
theory MemStore
  imports SexprWriter "HOL-Library.AList"
begin

text \<open>
  The long-term memory of \<open>src/memory/mem_store.c\<close>: one Markdown file per slug in a directory and
  a generated index. The directory is the list of its files (name and contents); the order in
  which \<open>readdir\<close> returns their names is a parameter, as is which file operations succeed. Texts
  are C strings, so they hold no terminator.
\<close>

definition MEM_MAX_FILES :: nat where "MEM_MAX_FILES = 128"
definition MEM_SLUG_MAX :: nat where "MEM_SLUG_MAX = 64"
definition MEM_DESC_MAX :: nat where "MEM_DESC_MAX = 256"
definition MEM_BODY_MAX :: nat where "MEM_BODY_MAX = 65536"
definition MEM_INDEX_TOPK :: nat where "MEM_INDEX_TOPK = 24"
definition MEM_PATH_MAX :: nat where "MEM_PATH_MAX = 4096"
definition LINEBUF :: nat where "LINEBUF = 1024"

definition MEM_INDEX_CACHE_BYTES :: nat where
  "MEM_INDEX_CACHE_BYTES = MEM_INDEX_TOPK * (MEM_SLUG_MAX + MEM_DESC_MAX + 8) + 64"

type_synonym mem_dir = "(string \<times> string) list"
type_synonym readdir = "mem_dir \<Rightarrow> string list"

record mem_store =
  ms_dir_length :: nat
  ms_files :: mem_dir
  ms_index_cache :: string
  ms_index_truncated :: bool
  ms_index_valid :: bool

text \<open>Which calls succeed on the temporary file, and how much of the index reaches its own.\<close>

record file_io =
  fi_opened :: bool
  fi_written :: bool
  fi_renamed :: bool
  ix_opened :: bool
  ix_bytes :: nat
  ix_closed :: bool
  ix_renamed :: bool

section \<open>Names\<close>

definition slug_char :: "char \<Rightarrow> bool" where
  "slug_char c \<longleftrightarrow>
     (97 \<le> code_of c \<and> code_of c \<le> 122) \<or> (48 \<le> code_of c \<and> code_of c \<le> 57) \<or> c = CHR ''-''"

definition spg_mem_slug_valid :: "string \<Rightarrow> bool" where
  "spg_mem_slug_valid slug \<longleftrightarrow> list_all slug_char slug \<and> 1 \<le> length slug \<and> length slug \<le> MEM_SLUG_MAX"

definition reserved_prefixes :: "string list" where
  "reserved_prefixes = [''lesson-'', ''skill-'', ''pref-'']"

definition spg_mem_slug_reserved :: "string \<Rightarrow> bool" where
  "spg_mem_slug_reserved slug \<longleftrightarrow> list_ex (\<lambda>p. take (length p) slug = p) reserved_prefixes"

text \<open>The path is the directory, a slash and this name; it has to fit with its terminator.\<close>

definition build_path :: "mem_store \<Rightarrow> string \<Rightarrow> string \<Rightarrow> string option" where
  "build_path store slug suffix =
     (if ms_dir_length store + 1 + length (slug @ suffix) \<ge> MEM_PATH_MAX then None
      else Some (slug @ suffix))"

definition spg_mem_store_open :: "string \<Rightarrow> mem_dir option \<Rightarrow> mem_store \<Rightarrow> spg_status \<times> mem_store" where
  "spg_mem_store_open dir files store =
     (if dir = [] then (SPG_E_INVALID_ARG, store)
      else if length dir + 1 > MEM_PATH_MAX then (SPG_E_LIMIT, store)
      else (let store' = store\<lparr>ms_dir_length := length dir, ms_index_cache := [],
                  ms_index_truncated := False, ms_index_valid := False\<rparr>
            in case files of
                 None \<Rightarrow> (SPG_E_IO, store')
               | Some fs \<Rightarrow> (SPG_OK, store'\<lparr>ms_files := fs\<rparr>)))"

definition file_exists :: "mem_store \<Rightarrow> string \<Rightarrow> bool" where
  "file_exists store path \<longleftrightarrow> map_of (ms_files store) path \<noteq> None"

definition is_memory_file :: "string \<Rightarrow> bool" where
  "is_memory_file name \<longleftrightarrow>
     length name \<ge> 4 \<and> drop (length name - 3) name = ''.md'' \<and> name \<noteq> ''MEMORY.md''"

section \<open>Front matter\<close>

text \<open>The pieces \<open>fgets\<close> returns: up to a newline, at most \<open>LINEBUF - 1\<close> characters.\<close>

fun fgets_line :: "nat \<Rightarrow> string \<Rightarrow> string \<times> string" where
  "fgets_line n [] = ([], [])"
| "fgets_line n (c # cs) =
     (if n = 0 then ([], c # cs)
      else if c = ch_nl then ([c], cs) else (case fgets_line (n - 1) cs of (l, rest) \<Rightarrow> (c # l, rest)))"

lemma fgets_line_append: "fgets_line n s = (l, rest) \<Longrightarrow> s = l @ rest"
  by (induction n s arbitrary: l rest rule: fgets_line.induct) (auto split: if_splits prod.splits)

lemma fgets_line_nonempty: "fgets_line n s = (l, rest) \<Longrightarrow> n \<noteq> 0 \<Longrightarrow> s \<noteq> [] \<Longrightarrow> l \<noteq> []"
  by (cases n; cases s) (auto split: if_splits prod.splits)

function fgets_lines :: "string \<Rightarrow> string list" where
  "fgets_lines s =
     (if s = [] then []
      else (case fgets_line (LINEBUF - 1) s of (l, rest) \<Rightarrow> l # fgets_lines rest))"
  by pat_completeness auto
termination
proof (relation "measure length", goal_cases)
  case (2 s l rest)
  then show ?case
    using fgets_line_append [of "LINEBUF - 1" s l rest] fgets_line_nonempty [of "LINEBUF - 1" s l rest]
    by (auto simp: LINEBUF_def)
qed simp

declare fgets_lines.simps [simp del]

definition line_of :: "string \<Rightarrow> string" where
  "line_of raw =
     (let line = c_string raw
      in if line \<noteq> [] \<and> last line = ch_nl then butlast line else line)"

definition drop_spaces :: "string \<Rightarrow> string" where
  "drop_spaces s = dropWhile (\<lambda>c. c = CHR '' '') s"

fun leading_number :: "string \<Rightarrow> u64 \<Rightarrow> u64" where
  "leading_number [] n = n"
| "leading_number (c # cs) n =
     (if 48 \<le> code_of c \<and> code_of c \<le> 57 then leading_number cs (n * 10 + of_nat (code_of c - 48)) else n)"

definition meta_line :: "string \<Rightarrow> string \<times> u64 \<Rightarrow> string \<times> u64" where
  "meta_line line meta =
     (if take 12 line = ''description:'' then (take MEM_DESC_MAX (drop_spaces (drop 12 line)), snd meta)
      else if take 8 line = ''updated:'' then (fst meta, leading_number (drop_spaces (drop 8 line)) 0)
      else meta)"

fun meta_lines :: "bool \<Rightarrow> string list \<Rightarrow> string \<times> u64 \<Rightarrow> string \<times> u64" where
  "meta_lines in_fm [] meta = meta"
| "meta_lines in_fm (raw # raws) meta =
     (if line_of raw = ''---'' then (if in_fm then meta else meta_lines True raws meta)
      else if \<not> in_fm then meta_lines in_fm raws meta
      else meta_lines in_fm raws (meta_line (line_of raw) meta))"

definition read_meta :: "mem_store \<Rightarrow> string \<Rightarrow> string \<times> u64" where
  "read_meta store path =
     (case map_of (ms_files store) path of
        None \<Rightarrow> ([], 0)
      | Some contents \<Rightarrow> meta_lines False (fgets_lines contents) ([], 0))"

section \<open>Scans of the directory\<close>

record mem_entry =
  me_slug :: string
  me_desc :: string
  me_updated :: u64

text \<open>\<open>strcmp(a, b) < 0\<close>, on unsigned characters.\<close>

fun strcmp_less :: "string \<Rightarrow> string \<Rightarrow> bool" where
  "strcmp_less [] ys = (ys \<noteq> [])"
| "strcmp_less (x # xs) [] = False"
| "strcmp_less (x # xs) (y # ys) =
     (if code_of x = code_of y then strcmp_less xs ys else code_of x < code_of y)"

definition entry_before :: "mem_entry \<Rightarrow> mem_entry \<Rightarrow> bool" where
  "entry_before a b =
     (if me_updated a \<noteq> me_updated b then me_updated a > me_updated b
      else strcmp_less (me_slug a) (me_slug b))"

text \<open>The insertion of the scans: shift from the end while the new element goes before.\<close>

definition insert_back :: "('a \<Rightarrow> 'a \<Rightarrow> bool) \<Rightarrow> 'a \<Rightarrow> 'a list \<Rightarrow> 'a list" where
  "insert_back before x xs =
     rev (dropWhile (before x) (rev xs)) @ [x] @ rev (takeWhile (before x) (rev xs))"

definition slug_of_file :: "string \<Rightarrow> string option" where
  "slug_of_file name =
     (if \<not> is_memory_file name \<or> length name - 3 + 1 > MEM_SLUG_MAX + 1 then None
      else Some (take (length name - 3) name))"

fun collect_loop :: "(string \<Rightarrow> 'e option) \<Rightarrow> ('e \<Rightarrow> 'e \<Rightarrow> bool) \<Rightarrow> nat \<Rightarrow> string list \<Rightarrow> 'e list \<Rightarrow> 'e list" where
  "collect_loop entry before cap [] es = es"
| "collect_loop entry before cap (name # names) es =
     (if length es \<ge> cap then es
      else (case entry name of
              None \<Rightarrow> collect_loop entry before cap names es
            | Some e \<Rightarrow> collect_loop entry before cap names (insert_back before e es)))"

definition entry_of_file :: "mem_store \<Rightarrow> string \<Rightarrow> mem_entry option" where
  "entry_of_file store name =
     (case slug_of_file name of
        None \<Rightarrow> None
      | Some slug \<Rightarrow>
          (case build_path store slug ''.md'' of
             None \<Rightarrow> None
           | Some path \<Rightarrow>
               (case read_meta store path of
                  (desc, updated) \<Rightarrow> Some \<lparr>me_slug = slug, me_desc = desc, me_updated = updated\<rparr>)))"

definition collect_by_recency :: "readdir \<Rightarrow> mem_store \<Rightarrow> nat \<Rightarrow> mem_entry list" where
  "collect_by_recency rd store cap =
     collect_loop (entry_of_file store) entry_before cap (rd (ms_files store)) []"

definition collect_sorted :: "readdir \<Rightarrow> mem_store \<Rightarrow> nat \<Rightarrow> string list" where
  "collect_sorted rd store cap = collect_loop slug_of_file strcmp_less cap (rd (ms_files store)) []"

section \<open>The index\<close>

definition index_line :: "string \<Rightarrow> string \<Rightarrow> string" where
  "index_line slug desc = ''- '' @ slug @ '': '' @ desc @ [ch_nl]"

definition write_index ::
  "file_io \<Rightarrow> mem_entry list \<Rightarrow> (string \<times> string) option \<Rightarrow> mem_store \<Rightarrow> mem_store" where
  "write_index io entries upsert store =
     (case (build_path store ''MEMORY'' ''.md.tmp'', build_path store ''MEMORY'' ''.md'') of
        (Some tmp, Some dst) \<Rightarrow>
          if \<not> ix_opened io then store
          else
            (let first = (case upsert of None \<Rightarrow> [] | Some (slug, desc) \<Rightarrow> index_line slug (drop_spaces desc));
                 others = filter (\<lambda>e. case upsert of None \<Rightarrow> True | Some (slug, desc) \<Rightarrow> me_slug e \<noteq> slug) entries;
                 contents = first @ concat (map (\<lambda>e. index_line (me_slug e) (me_desc e)) others);
                 written = take (ix_bytes io) contents
             in if \<not> ix_closed io then store\<lparr>ms_files := AList.delete tmp (ms_files store)\<rparr>
                else if ix_renamed io
                  then store\<lparr>ms_files := AList.update dst written (AList.delete tmp (ms_files store))\<rparr>
                else store\<lparr>ms_files := AList.update tmp written (ms_files store)\<rparr>)
      | _ \<Rightarrow> store)"

definition regenerate_index :: "readdir \<Rightarrow> file_io \<Rightarrow> mem_store \<Rightarrow> mem_store" where
  "regenerate_index rd io store =
     write_index io (collect_by_recency rd store MEM_MAX_FILES) None store"

section \<open>Save and delete\<close>

definition memory_text :: "string \<Rightarrow> string \<Rightarrow> u64 \<Rightarrow> string \<Rightarrow> string" where
  "memory_text slug description updated body =
     ''---'' @ [ch_nl] @ ''name: '' @ slug @ [ch_nl] @ ''description: '' @ description @ [ch_nl] @
     ''updated: '' @ u64_to_dec updated @ [ch_nl] @ ''---'' @ [ch_nl] @ body @
     (if body = [] \<or> last body = ch_nl then [] else [ch_nl])"

definition spg_mem_save_reserved ::
  "readdir \<Rightarrow> file_io \<Rightarrow> string \<Rightarrow> string \<Rightarrow> string \<Rightarrow> mem_store \<Rightarrow> spg_status \<times> mem_store" where
  "spg_mem_save_reserved rd io slug description body store =
     (if \<not> spg_mem_slug_valid slug then (SPG_E_INVALID_ARG, store)
      else if ch_nl \<in> set description then (SPG_E_INVALID_ARG, store)
      else if length description > MEM_DESC_MAX \<or> length body > MEM_BODY_MAX then (SPG_E_LIMIT, store)
      else (case (build_path store slug ''.md'', build_path store slug ''.md.tmp'') of
        (Some path, Some tmp) \<Rightarrow>
          (let entries = collect_by_recency rd store MEM_MAX_FILES
           in if \<not> file_exists store path \<and> length entries \<ge> MEM_MAX_FILES then (SPG_E_LIMIT, store)
              else
                (let updated = (if entries \<noteq> [] then me_updated (hd entries) else 0) + 1;
                     contents = memory_text slug description updated body;
                     removed = store\<lparr>ms_files := AList.delete tmp (ms_files store)\<rparr>
                 in if \<not> fi_opened io then (SPG_E_IO, store)
                    else if \<not> fi_written io \<or> \<not> fi_renamed io then (SPG_E_IO, removed)
                    else (SPG_OK,
                      (write_index io entries (Some (slug, description))
                        (removed\<lparr>ms_files := AList.update path contents (ms_files removed)\<rparr>))
                      \<lparr>ms_index_valid := False\<rparr>)))
      | _ \<Rightarrow> (SPG_E_LIMIT, store)))"

definition spg_mem_save ::
  "readdir \<Rightarrow> file_io \<Rightarrow> string \<Rightarrow> string \<Rightarrow> string \<Rightarrow> mem_store \<Rightarrow> spg_status \<times> mem_store" where
  "spg_mem_save rd io slug description body store =
     (if spg_mem_slug_reserved slug then (SPG_E_POLICY_DENIED, store)
      else spg_mem_save_reserved rd io slug description body store)"

text \<open>For a removal \<open>fi_renamed\<close> says whether \<open>remove\<close> succeeds.\<close>

definition spg_mem_delete_reserved ::
  "readdir \<Rightarrow> file_io \<Rightarrow> string \<Rightarrow> mem_store \<Rightarrow> spg_status \<times> mem_store" where
  "spg_mem_delete_reserved rd io slug store =
     (if \<not> spg_mem_slug_valid slug then (SPG_E_INVALID_ARG, store)
      else (case build_path store slug ''.md'' of
              None \<Rightarrow> (SPG_E_LIMIT, store)
            | Some path \<Rightarrow>
                if \<not> file_exists store path then (SPG_E_NOT_FOUND, store)
                else if \<not> fi_renamed io then (SPG_E_IO, store)
                else (SPG_OK,
                  (regenerate_index rd io (store\<lparr>ms_files := AList.delete path (ms_files store)\<rparr>))
                  \<lparr>ms_index_valid := False\<rparr>)))"

definition spg_mem_delete ::
  "readdir \<Rightarrow> file_io \<Rightarrow> string \<Rightarrow> mem_store \<Rightarrow> spg_status \<times> mem_store" where
  "spg_mem_delete rd io slug store =
     (if spg_mem_slug_reserved slug then (SPG_E_POLICY_DENIED, store)
      else spg_mem_delete_reserved rd io slug store)"

section \<open>Reading\<close>

text \<open>The status, what is left in the buffer and the full length, when the call gets that far.\<close>

definition spg_mem_read :: "mem_store \<Rightarrow> string \<Rightarrow> nat \<Rightarrow> spg_status \<times> (string \<times> nat) option" where
  "spg_mem_read store slug dst_cap =
     (if \<not> spg_mem_slug_valid slug \<or> dst_cap = 0 then (SPG_E_INVALID_ARG, None)
      else (case build_path store slug ''.md'' of
              None \<Rightarrow> (SPG_E_LIMIT, None)
            | Some path \<Rightarrow>
                (case map_of (ms_files store) path of
                   None \<Rightarrow> (SPG_E_NOT_FOUND, None)
                 | Some contents \<Rightarrow>
                     (if length contents > dst_cap - 1 then SPG_E_LIMIT else SPG_OK,
                      Some (take (dst_cap - 1) contents, length contents)))))"

definition cache_add :: "string \<Rightarrow> string \<Rightarrow> string" where
  "cache_add cache line =
     (if length cache + length line \<le> MEM_INDEX_CACHE_BYTES then cache @ line else cache)"

definition rebuild_index_cache :: "readdir \<Rightarrow> mem_store \<Rightarrow> mem_store" where
  "rebuild_index_cache rd store =
     (let entries = collect_by_recency rd store MEM_MAX_FILES;
          lines = map (\<lambda>e. index_line (me_slug e) (me_desc e)) (take MEM_INDEX_TOPK entries);
          cache = foldl cache_add [] lines;
          more = length entries > MEM_INDEX_TOPK
      in store\<lparr>ms_index_cache :=
             (if more then cache_add cache (''- ... '' @
                 u64_to_dec (of_nat (length entries - MEM_INDEX_TOPK)) @ '' more (memory list)'' @ [ch_nl])
              else cache),
           ms_index_truncated := more, ms_index_valid := True\<rparr>)"

definition spg_mem_index ::
  "readdir \<Rightarrow> nat \<Rightarrow> mem_store \<Rightarrow> spg_status \<times> mem_store \<times> (string \<times> nat \<times> bool) option" where
  "spg_mem_index rd dst_cap store =
     (if dst_cap = 0 then (SPG_E_INVALID_ARG, store, None)
      else (let store = (if ms_index_valid store then store else rebuild_index_cache rd store);
                len = length (ms_index_cache store)
            in (if len > dst_cap - 1 then SPG_E_LIMIT else SPG_OK, store,
                Some (take (dst_cap - 1) (ms_index_cache store), len, ms_index_truncated store))))"

definition spg_mem_list :: "readdir \<Rightarrow> nat \<Rightarrow> mem_store \<Rightarrow> spg_status \<times> string list" where
  "spg_mem_list rd cap store =
     (let slugs = collect_sorted rd store MEM_MAX_FILES
      in (if length slugs > cap then SPG_E_LIMIT else SPG_OK, take cap slugs))"

text \<open>\<open>strstr\<close>: what follows the first occurrence of the key.\<close>

fun after_key :: "string \<Rightarrow> string \<Rightarrow> string option" where
  "after_key key [] = (if key = [] then Some [] else None)"
| "after_key key (c # cs) =
     (if take (length key) (c # cs) = key then Some (drop (length key) (c # cs)) else after_key key cs)"

definition spg_mem_directive :: "mem_store \<Rightarrow> string \<Rightarrow> nat \<Rightarrow> nat \<Rightarrow> string" where
  "spg_mem_directive store slug budget_bytes dst_cap =
     (if dst_cap = 0 then []
      else (case spg_mem_read store slug (MEM_BODY_MAX + MEM_DESC_MAX + 256) of
        (SPG_OK, Some (contents, _)) \<Rightarrow>
          (case after_key ([ch_nl] @ ''description: '') (c_string contents) of
             None \<Rightarrow> []
           | Some rest \<Rightarrow>
               let desc = takeWhile (\<lambda>c. c \<noteq> ch_nl) rest;
                   budget = (if budget_bytes > 0 then budget_bytes else MEM_DESC_MAX)
               in if desc = [] \<or> length desc > budget \<or> length desc + 1 > dst_cap then [] else desc)
      | _ \<Rightarrow> []))"

end
