(* ===== verification/MemExec.thy ===== *)
theory MemExec
  imports MemStore Recommendation Policy JournalSign
begin

text \<open>
  The executor of memory actions, \<open>src/memory/mem_executor.c\<close>: a save, delete or read the policy
  allowed, carried out on the store of \<open>MemStore\<close> and journaled. A recall buffer that is null or
  empty has capacity 0.
\<close>

record mem_exec_config =
  mg_actor_id :: u32
  mg_timestamp_ns :: u64
  mg_parent_sequence :: u64
  mg_write_journal :: bool

record mem_exec_state =
  mw_store :: mem_store
  mw_journal :: "journal_writer option"
  mw_recall :: string

record mem_exec_result =
  mq_save_status :: spg_status
  mq_was_read :: bool
  mq_read_len :: nat
  mq_memory_sequence :: u64
  mq_payload_used :: nat
  mq_payload_truncated :: bool

definition zero_mem_result :: mem_exec_result where
  "zero_mem_result = \<lparr>mq_save_status = SPG_OK, mq_was_read = False, mq_read_len = 0,
     mq_memory_sequence = 0, mq_payload_used = 0, mq_payload_truncated = False\<rparr>"

definition copy_field :: "string \<Rightarrow> text_span \<Rightarrow> nat \<Rightarrow> string option" where
  "copy_field source sp cap =
     (if \<not> spg_sexpr_span_valid (length source) sp \<or> sp_length sp + 1 > cap then None
      else Some (c_string (span_text source sp)))"

definition memory_event_texts :: "string \<Rightarrow> string \<Rightarrow> nat option \<Rightarrow> spg_status \<Rightarrow> string list" where
  "memory_event_texts label slug len st =
     [''('', label, '' (slug '', slug] @
     (case len of None \<Rightarrow> [] | Some n \<Rightarrow> ['') (bytes '', u64_to_dec (of_nat n)]) @
     [if st = SPG_OK then '') (status ok))'' else '') (status error))'']"

definition journal_memory ::
  "mem_exec_config \<Rightarrow> string \<Rightarrow> string \<Rightarrow> nat option \<Rightarrow> nat \<Rightarrow> write_outcome \<Rightarrow> mem_exec_state \<Rightarrow>
     mem_exec_result \<Rightarrow> spg_status \<times> mem_exec_state \<times> mem_exec_result" where
  "journal_memory cfg label slug len capacity io s r =
     (let wr = fst (emit_all spg_sexpr_writer_append_text
                 (spg_sexpr_writer_init capacity (replicate capacity ch_nul))
                 (memory_event_texts label slug len (mq_save_status r)));
          r = r\<lparr>mq_payload_used := wr_used wr, mq_payload_truncated := wr_truncated wr\<rparr>
      in case mw_journal s of
           None \<Rightarrow> (SPG_OK, s, r)
         | Some jw \<Rightarrow>
             if \<not> mg_write_journal cfg then (SPG_OK, s, r)
             else (case spg_journal_writer_append jw (mg_timestamp_ns cfg) (mg_parent_sequence cfg) EVENT_MEMORY
                          (mq_save_status r) (bytes_of (take (wr_used wr) (wr_buffer wr))) io of
                     (st, jw', sq) \<Rightarrow>
                       (st, s\<lparr>mw_journal := Some jw'\<rparr>,
                        (case sq of None \<Rightarrow> r | Some n \<Rightarrow> r\<lparr>mq_memory_sequence := n\<rparr>))))"

text \<open>What a step does to the store: the result so far, the store, the recall buffer, the size reported.\<close>

definition memory_act ::
  "readdir \<Rightarrow> file_io \<Rightarrow> nat \<Rightarrow> string \<Rightarrow> recommendation \<Rightarrow> string \<Rightarrow> mem_exec_state \<Rightarrow>
     mem_exec_state \<times> mem_exec_result \<times> string \<times> nat option" where
  "memory_act rd fio recall_capacity source rec slug s =
     (if rm_action_kind rec = ACTION_MEMORY_DELETE then
        (case spg_mem_delete rd fio slug (mw_store s) of
           (st, store) \<Rightarrow> (s\<lparr>mw_store := store\<rparr>, zero_mem_result\<lparr>mq_save_status := st\<rparr>, ''memory_delete'', None))
      else if rm_action_kind rec = ACTION_MEMORY_READ then
        (if recall_capacity = 0
         then (s, zero_mem_result\<lparr>mq_was_read := True, mq_save_status := SPG_E_INVALID_ARG\<rparr>, ''memory_read'', Some 0)
         else (case spg_mem_read (mw_store s) slug recall_capacity of
                 (st, None) \<Rightarrow>
                   (s, zero_mem_result\<lparr>mq_was_read := True, mq_save_status := st\<rparr>, ''memory_read'', Some 0)
               | (st, Some (got, full)) \<Rightarrow>
                   (s\<lparr>mw_recall := got\<rparr>,
                    zero_mem_result\<lparr>mq_was_read := True, mq_save_status := st, mq_read_len := full\<rparr>,
                    ''memory_read'', Some full)))
      else
        (case (copy_field source (rm_description rec) (MEM_DESC_MAX + 1),
               copy_field source (rm_body rec) (MEM_BODY_MAX + 1)) of
           (Some description, Some body) \<Rightarrow>
             (case spg_mem_save rd fio slug description body (mw_store s) of
                (st, store) \<Rightarrow>
                  (s\<lparr>mw_store := store\<rparr>, zero_mem_result\<lparr>mq_save_status := st\<rparr>, ''memory_save'', Some (length body)))
         | _ \<Rightarrow> (s, zero_mem_result\<lparr>mq_save_status := SPG_E_INVALID_ARG\<rparr>, ''memory_save'', Some 0)))"

definition is_memory_action :: "action_kind \<Rightarrow> bool" where
  "is_memory_action kind \<longleftrightarrow>
     kind = ACTION_MEMORY_SAVE \<or> kind = ACTION_MEMORY_DELETE \<or> kind = ACTION_MEMORY_READ"

definition spg_mem_executor_step ::
  "readdir \<Rightarrow> file_io \<Rightarrow> mem_exec_config \<Rightarrow> nat \<Rightarrow> nat \<Rightarrow> string \<Rightarrow> recommendation \<Rightarrow> policy_decision \<Rightarrow>
     write_outcome \<Rightarrow> mem_exec_state \<Rightarrow> spg_status \<times> mem_exec_state \<times> mem_exec_result option" where
  "spg_mem_executor_step rd fio cfg capacity recall_capacity source rec decision io s =
     (if capacity = 0 then (SPG_E_INVALID_ARG, s, None)
      else if dc_kind decision \<noteq> DECISION_ALLOW \<or> \<not> is_memory_action (rm_action_kind rec)
        then (SPG_E_INVALID_ARG, s, Some zero_mem_result)
      else (case copy_field source (rm_slug rec) (MEM_SLUG_MAX + 1) of
              None \<Rightarrow>
                (case journal_memory cfg (spg_action_kind_to_string (rm_action_kind rec)) [] None capacity io s
                        (zero_mem_result\<lparr>mq_save_status := SPG_E_INVALID_ARG\<rparr>) of
                   (st, s', r) \<Rightarrow> (st, s', Some r))
            | Some slug \<Rightarrow>
                (case memory_act rd fio recall_capacity source rec slug s of
                   (s1, r1, label, len) \<Rightarrow>
                     (case journal_memory cfg label slug len capacity io s1 r1 of
                        (st, s', r) \<Rightarrow> (st, s', Some r)))))"

end
