(* ===== verification/MemProps.thy ===== *)
theory MemProps
  imports MemExec
begin

text \<open>
  What the long-term memory promises: nothing the model drives changes a file of the learning
  loop's namespaces, a saved memory is read back whole and its directive is its description, and
  a save ranks first in the index.
\<close>

section \<open>The learning loop's files\<close>

lemma write_index_frame [frame]:
  assumes "p \<noteq> ''MEMORY.md''" "p \<noteq> ''MEMORY.md.tmp''"
  shows "map_of (ms_files (write_index io es up store)) p = map_of (ms_files store) p"
  using assms by (simp add: write_index_def build_path_def Let_def update_conv' delete_conv' split: option.split)

lemma write_index_other [frame]:
  "ms_dir_length (write_index io es up store) = ms_dir_length store"
  by (simp add: write_index_def Let_def split: option.split)

lemma build_path_Some: "build_path store slug suffix = Some p \<Longrightarrow> p = slug @ suffix"
  by (auto simp: build_path_def split: if_splits)

lemma md_not_tmp: "slug @ ''.md'' \<noteq> other @ ''.md.tmp''"
proof
  assume "slug @ ''.md'' = other @ ''.md.tmp''"
  then have "last (slug @ ''.md'') = last (other @ ''.md.tmp'')" by simp
  then show False by simp
qed

lemma md_not_index_tmp: "slug @ ''.md'' \<noteq> ''MEMORY.md.tmp''"
  using md_not_tmp [of slug "''MEMORY''"] by simp

lemma md_index: "slug @ ''.md'' = ''MEMORY.md'' \<longleftrightarrow> slug = ''MEMORY''"
  using append_same_eq [of slug "''.md''" "''MEMORY''"] by simp

lemma reserved_not_index: "spg_mem_slug_reserved r \<Longrightarrow> r \<noteq> ''MEMORY''"
  by (auto simp: spg_mem_slug_reserved_def reserved_prefixes_def)

text \<open>Saving or deleting one slug leaves the files of the others alone.\<close>

lemma save_reserved_frame:
  assumes "r \<noteq> slug" "r \<noteq> ''MEMORY''"
  shows "map_of (ms_files (snd (spg_mem_save_reserved rd io slug d b store))) (r @ ''.md'') =
    map_of (ms_files store) (r @ ''.md'')"
  using assms md_not_tmp [of r slug]
  by (auto simp: spg_mem_save_reserved_def Let_def frame md_index md_not_index_tmp update_conv' delete_conv'
      dest!: build_path_Some split: option.split)

lemma delete_reserved_frame:
  assumes "r \<noteq> slug" "r \<noteq> ''MEMORY''"
  shows "map_of (ms_files (snd (spg_mem_delete_reserved rd io slug store))) (r @ ''.md'') =
    map_of (ms_files store) (r @ ''.md'')"
  using assms
  by (auto simp: spg_mem_delete_reserved_def regenerate_index_def frame md_index md_not_index_tmp delete_conv'
      dest!: build_path_Some split: option.split)

lemma model_save_frame:
  "spg_mem_slug_reserved r \<Longrightarrow>
   map_of (ms_files (snd (spg_mem_save rd io slug d b store))) (r @ ''.md'') = map_of (ms_files store) (r @ ''.md'')"
  using save_reserved_frame [of r slug] reserved_not_index [of r]
  by (cases "r = slug") (auto simp: spg_mem_save_def)

lemma model_delete_frame:
  "spg_mem_slug_reserved r \<Longrightarrow>
   map_of (ms_files (snd (spg_mem_delete rd io slug store))) (r @ ''.md'') = map_of (ms_files store) (r @ ''.md'')"
  using delete_reserved_frame [of r slug] reserved_not_index [of r]
  by (cases "r = slug") (auto simp: spg_mem_delete_def)

lemma journal_memory_store [frame]:
  "mw_store (fst (snd (journal_memory cfg label slug len capacity io s r))) = mw_store s"
  by (simp add: journal_memory_def Let_def split: option.split prod.split)

definition files_of :: "mem_exec_state \<Rightarrow> string \<Rightarrow> string option" where
  "files_of s = map_of (ms_files (mw_store s))"

lemma memory_act_frame:
  assumes "spg_mem_slug_reserved r"
  shows "files_of (fst (memory_act rd fio rc source rec slug s)) (r @ ''.md'') = files_of s (r @ ''.md'')"
  using model_save_frame [OF assms] model_delete_frame [OF assms]
  by (auto simp: memory_act_def files_of_def split: prod.splits option.split)
     (metis snd_conv)+

text \<open>One step's inputs, and a run of steps in a row.\<close>

record mem_call =
  ml_io :: file_io
  ml_source :: string
  ml_rec :: recommendation
  ml_decision :: policy_decision
  ml_write :: write_outcome

definition mem_call_step ::
  "readdir \<Rightarrow> mem_exec_config \<Rightarrow> nat \<Rightarrow> nat \<Rightarrow> mem_exec_state \<Rightarrow> mem_call \<Rightarrow> mem_exec_state" where
  "mem_call_step rd cfg cap rc s c =
     fst (snd (spg_mem_executor_step rd (ml_io c) cfg cap rc (ml_source c) (ml_rec c) (ml_decision c) (ml_write c) s))"

lemma mem_call_frame:
  assumes "spg_mem_slug_reserved r"
  shows "files_of (mem_call_step rd cfg cap rc s c) (r @ ''.md'') = files_of s (r @ ''.md'')"
proof -
  have j: "files_of (fst (snd (journal_memory cfg label slug len capacity io s r0))) = files_of s"
    for label slug len capacity io s r0 by (simp add: files_of_def frame)
  show ?thesis
    using memory_act_frame [OF assms]
    by (auto simp: mem_call_step_def spg_mem_executor_step_def split: prod.splits option.split)
       (metis j fst_conv snd_conv)+
qed

text \<open>
  The model cannot write its own lessons: whatever sequence of memory recommendations the
  executor carries out, allowed or not, on whatever input and with whatever failures of the file
  system, every file of a reserved slug (a lesson, skill or preference) is exactly what it was.
\<close>

theorem mem_executor_keeps_reserved:
  assumes "spg_mem_slug_reserved r"
  shows "files_of (foldl (mem_call_step rd cfg cap rc) s calls) (r @ ''.md'') = files_of s (r @ ''.md'')"
  by (induction calls arbitrary: s) (simp_all add: mem_call_frame [OF assms])

section \<open>What is saved is read back\<close>

lemma slug_chars: "list_all slug_char slug \<Longrightarrow> ch_nl \<notin> set slug \<and> ch_nul \<notin> set slug"
  by (auto simp: list_all_iff slug_char_def)

lemma valid_not_index: "spg_mem_slug_valid slug \<Longrightarrow> slug \<noteq> ''MEMORY''"
  by (auto simp: spg_mem_slug_valid_def slug_char_def)

definition next_updated :: "readdir \<Rightarrow> mem_store \<Rightarrow> u64" where
  "next_updated rd store =
     (let entries = collect_by_recency rd store MEM_MAX_FILES
      in (if entries \<noteq> [] then me_updated (hd entries) else 0) + 1)"

lemma save_ok:
  assumes "spg_mem_save_reserved rd io slug d b store = (SPG_OK, store')"
  shows "spg_mem_slug_valid slug \<and> ch_nl \<notin> set d \<and> length d \<le> MEM_DESC_MAX \<and> length b \<le> MEM_BODY_MAX \<and>
    map_of (ms_files store') (slug @ ''.md'') = Some (memory_text slug d (next_updated rd store) b) \<and>
    ms_dir_length store' = ms_dir_length store \<and> build_path store slug ''.md'' = Some (slug @ ''.md'')"
proof -
  have v: "spg_mem_slug_valid slug" using assms by (auto simp: spg_mem_save_reserved_def split: if_splits)
  note ne = md_index [of slug] md_not_index_tmp [of slug] valid_not_index [OF v]
  show ?thesis using assms v ne
    by (auto simp: spg_mem_save_reserved_def Let_def frame update_conv' next_updated_def
        dest!: build_path_Some split: if_splits option.splits)
qed

lemma build_path_cong: "ms_dir_length s' = ms_dir_length s \<Longrightarrow> build_path s' slug sfx = build_path s slug sfx"
  by (simp add: build_path_def)

lemma read_after_save:
  assumes "spg_mem_save_reserved rd io slug d b store = (SPG_OK, store')"
    and "length (memory_text slug d (next_updated rd store) b) < cap"
  shows "spg_mem_read store' slug cap = (SPG_OK, Some (memory_text slug d (next_updated rd store) b,
    length (memory_text slug d (next_updated rd store) b)))"
  using save_ok [OF assms(1)] assms(2) build_path_cong [of store' store slug "''.md''"]
  by (auto simp: spg_mem_read_def)

lemma after_key_skip:
  "k \<notin> set pre \<Longrightarrow> after_key (k # ks) (pre @ rest) = after_key (k # ks) rest"
  by (induction pre) auto

lemma c_string_append: "ch_nul \<notin> set xs \<Longrightarrow> c_string (xs @ ys) = xs @ c_string ys"
  by (induction xs) (auto simp: c_string_def)

lemma takeWhile_to: "k \<notin> set xs \<Longrightarrow> takeWhile (\<lambda>c. c \<noteq> k) (xs @ k # ys) = xs"
  by (induction xs) auto

lemma memory_text_split:
  "memory_text slug d u b =
     (''---'' @ [ch_nl] @ ''name: '' @ slug) @ (ch_nl # ''description: '' @ d) @ ch_nl #
     (''updated: '' @ u64_to_dec u @ [ch_nl] @ ''---'' @ [ch_nl] @ b @ (if b = [] \<or> last b = ch_nl then [] else [ch_nl]))"
  by (simp add: memory_text_def)

lemma directive_in_text:
  assumes "list_all slug_char slug" "ch_nul \<notin> set d" "ch_nl \<notin> set d"
  shows "\<exists>rest. after_key ([ch_nl] @ ''description: '') (c_string (memory_text slug d u b)) = Some (d @ ch_nl # rest)"
proof -
  note sc = slug_chars [OF assms(1)]
  define tl where "tl = c_string (''updated: '' @ u64_to_dec u @ [ch_nl] @ ''---'' @ [ch_nl] @ b @
    (if b = [] \<or> last b = ch_nl then [] else [ch_nl]))"
  have whole: "c_string (memory_text slug d u b) =
      ''---'' @ (ch_nl # ''name: '' @ slug) @ (ch_nl # ''description: '' @ d @ ch_nl # tl)"
    using sc assms by (simp add: memory_text_def tl_def c_string_def takeWhile_append)
  have "after_key (ch_nl # ''description: '') (c_string (memory_text slug d u b)) =
      after_key (ch_nl # ''description: '') (''name: '' @ slug @ (ch_nl # ''description: '' @ d @ ch_nl # tl))"
    unfolding whole by simp
  also have "\<dots> = after_key (ch_nl # ''description: '') (ch_nl # ''description: '' @ d @ ch_nl # tl)"
    using after_key_skip [of ch_nl "''name: '' @ slug"] sc by simp
  also have "\<dots> = Some (d @ ch_nl # tl)" by simp
  finally show ?thesis by auto
qed

lemma memory_text_length:
  assumes "length slug \<le> MEM_SLUG_MAX" "length d \<le> MEM_DESC_MAX" "length b \<le> MEM_BODY_MAX"
  shows "length (memory_text slug d u b) < MEM_BODY_MAX + MEM_DESC_MAX + 256"
  using assms u64_to_dec_value(4) [of u]
  by (simp add: memory_text_def MEM_SLUG_MAX_def MEM_DESC_MAX_def MEM_BODY_MAX_def)

lemma save_reserved_reads:
  assumes save: "spg_mem_save_reserved rd io slug d b store = (SPG_OK, store')"
    and d: "ch_nul \<notin> set d" "d \<noteq> []"
  shows "spg_mem_read store' slug (MEM_BODY_MAX + MEM_DESC_MAX + 256) =
      (SPG_OK, Some (memory_text slug d (next_updated rd store) b,
                     length (memory_text slug d (next_updated rd store) b))) \<and>
    spg_mem_directive store' slug 0 (MEM_DESC_MAX + 1) = d \<and> \<not> ms_index_valid store'"
proof -
  note ok = save_ok [OF save]
  let ?text = "memory_text slug d (next_updated rd store) b"
  have valid: "list_all slug_char slug" "length slug \<le> MEM_SLUG_MAX"
    using ok by (auto simp: spg_mem_slug_valid_def)
  have "length ?text < MEM_BODY_MAX + MEM_DESC_MAX + 256" using ok valid by (intro memory_text_length) auto
  note rd = read_after_save [OF save this]
  obtain rest where k: "after_key ([ch_nl] @ ''description: '') (c_string ?text) = Some (d @ ch_nl # rest)"
    using directive_in_text [OF valid(1) d(1)] ok by blast
  have "takeWhile (\<lambda>c. c \<noteq> ch_nl) (d @ ch_nl # rest) = d" using ok takeWhile_to [of ch_nl d rest] by simp
  then have "spg_mem_directive store' slug 0 (MEM_DESC_MAX + 1) = d"
    using rd k ok d(2) by (simp add: spg_mem_directive_def Let_def MEM_DESC_MAX_def)
  moreover have "\<not> ms_index_valid store'"
    using save by (auto simp: spg_mem_save_reserved_def Let_def split: if_splits option.splits)
  ultimately show ?thesis using rd by simp
qed

text \<open>
  C20: A save that succeeds is read back: a buffer with room holds exactly the front matter, the
  body and its closing newline; the directive of the slug is its description; every other
  memory is as it was; and the index read next is rebuilt from the directory.
\<close>

theorem mem_save_read_back:
  assumes "spg_mem_save rd io slug d b store = (SPG_OK, store')"
    and "ch_nul \<notin> set d" "d \<noteq> []"
  shows "spg_mem_read store' slug (MEM_BODY_MAX + MEM_DESC_MAX + 256) =
      (SPG_OK, Some (memory_text slug d (next_updated rd store) b,
                     length (memory_text slug d (next_updated rd store) b))) \<and>
    spg_mem_directive store' slug 0 (MEM_DESC_MAX + 1) = d \<and>
    \<not> ms_index_valid store' \<and>
    {r. spg_mem_slug_valid r \<and> map_of (ms_files store') (r @ ''.md'') \<noteq> map_of (ms_files store) (r @ ''.md'')} \<subseteq> {slug}"
proof -
  have save: "spg_mem_save_reserved rd io slug d b store = (SPG_OK, store')"
    using assms(1) by (auto simp: spg_mem_save_def split: if_splits)
  note reads = save_reserved_reads [OF save assms(2,3)]
  have "map_of (ms_files store') (r @ ''.md'') = map_of (ms_files store) (r @ ''.md'')"
    if "spg_mem_slug_valid r" "r \<noteq> slug" for r
    using save_reserved_frame [of r slug rd io d b store] valid_not_index that save by simp
  then show ?thesis using reads by auto
qed

section \<open>A small store\<close>

definition good_io :: file_io where
  "good_io = \<lparr>fi_opened = True, fi_written = True, fi_renamed = True, ix_opened = True, ix_bytes = 100000,
     ix_closed = True, ix_renamed = True\<rparr>"

definition small_store :: mem_store where
  "small_store = \<lparr>ms_dir_length = 6,
     ms_files = [(''lesson-a.md'', memory_text ''lesson-a'' ''x'' 1 ''y'')],
     ms_index_cache = [], ms_index_truncated = False, ms_index_valid = True\<rparr>"

definition save_rec :: recommendation where
  "save_rec = (rejected REJECT_NONE)\<lparr>rm_state := RECOMMENDATION_VALID, rm_action_kind := ACTION_MEMORY_DELETE,
     rm_slug := mk_span 0 8\<rparr>"

definition delete_call :: mem_call where
  "delete_call = \<lparr>ml_io = good_io, ml_source = ''lesson-a'', ml_rec = save_rec, ml_decision = allow 0,
     ml_write = \<lparr>io_header = 0, io_payload = 0, io_flush = True\<rparr>\<rparr>"

definition small_mem_state :: mem_exec_state where
  "small_mem_state = \<lparr>mw_store = small_store, mw_journal = None, mw_recall = []\<rparr>"

definition small_mem_config :: mem_exec_config where
  "small_mem_config = \<lparr>mg_actor_id = 1, mg_timestamp_ns = 1, mg_parent_sequence = 0, mg_write_journal = False\<rparr>"

theorem mem_executor_keeps_reserved_witness:
  "spg_mem_slug_reserved ''lesson-a'' \<and>
   files_of (foldl (mem_call_step (map fst) small_mem_config 64 0) small_mem_state [delete_call, delete_call])
     ''lesson-a.md'' = Some (memory_text ''lesson-a'' ''x'' 1 ''y'')"
proof -
  have r: "spg_mem_slug_reserved ''lesson-a''"
    by (simp add: spg_mem_slug_reserved_def reserved_prefixes_def)
  have "files_of small_mem_state ''lesson-a.md'' = Some (memory_text ''lesson-a'' ''x'' 1 ''y'')"
    by (simp add: files_of_def small_mem_state_def small_store_def)
  then show ?thesis
    using r mem_executor_keeps_reserved [OF r, of "map fst" small_mem_config 64 0 small_mem_state
        "[delete_call, delete_call]"] by simp
qed

definition saved_store :: "spg_status \<times> mem_store" where
  "saved_store = spg_mem_save (map fst) good_io ''note'' ''d'' ''b'' small_store"

lemma saved_store_ok: "fst saved_store = SPG_OK"
  by code_simp

theorem mem_save_read_back_witness:
  "spg_mem_directive (snd saved_store) ''note'' 0 (MEM_DESC_MAX + 1) = ''d''"
proof -
  have "spg_mem_save (map fst) good_io ''note'' ''d'' ''b'' small_store = (SPG_OK, snd saved_store)"
    using saved_store_ok by (simp add: saved_store_def prod_eq_iff)
  from mem_save_read_back [OF this] show ?thesis by simp
qed

end
