(* ===== verification/MemRank.thy ===== *)
theory MemRank
  imports MemProps
begin

text \<open>
  The order of the long-term memory's index: the front matter a save writes is read back as it was
  meant, the scan sorts by the update counter, and so the memory saved last ranks first; and the
  store never holds more memories than its bound.
\<close>

section \<open>The front matter is read back\<close>

lemma fgets_line_whole:
  "ch_nl \<notin> set line \<Longrightarrow> length line < n \<Longrightarrow> fgets_line n (line @ ch_nl # rest) = (line @ [ch_nl], rest)"
  by (induction line arbitrary: n) auto

lemma fgets_lines_cons:
  "ch_nl \<notin> set line \<Longrightarrow> length line < 1023 \<Longrightarrow>
   fgets_lines (line @ ch_nl # rest) = (line @ [ch_nl]) # fgets_lines rest"
  by (subst fgets_lines.simps) (simp add: fgets_line_whole LINEBUF_def)

lemma fgets_lines_all:
  "list_all (\<lambda>l. ch_nl \<notin> set l \<and> length l < 1023) ls \<Longrightarrow>
   fgets_lines (concat (map (\<lambda>l. l @ [ch_nl]) ls) @ rest) = map (\<lambda>l. l @ [ch_nl]) ls @ fgets_lines rest"
  by (induction ls) (simp_all add: fgets_lines_cons)

lemma line_of_whole: "ch_nul \<notin> set line \<Longrightarrow> line_of (line @ [ch_nl]) = line"
proof -
  assume "ch_nul \<notin> set line"
  then have "c_string (line @ [ch_nl]) = line @ [ch_nl]"
    by (simp add: c_string_append) (simp add: c_string_def)
  then show ?thesis by (simp add: line_of_def)
qed

lemma leading_number_digits:
  "list_all is_digit cs \<Longrightarrow> leading_number cs (of_nat k) = of_nat (dec_value_from k cs)"
proof (induction cs arbitrary: k)
  case (Cons c cs)
  have "of_nat k * 10 + of_nat (code_of c - 48) = (of_nat (k * 10 + (code_of c - 48)) :: u64)"
    by (simp only: of_nat_add of_nat_mult of_nat_numeral)
  moreover have "48 \<le> code_of c \<and> code_of c \<le> 57" using Cons.prems by (simp add: is_digit_def)
  moreover have "list_all is_digit cs" using Cons.prems by simp
  ultimately show ?case
    by (simp only: leading_number.simps dec_value_from_simps Cons.IH simp_thms if_True)
qed simp

lemma leading_number_dec: "leading_number (u64_to_dec u) 0 = u"
  using leading_number_digits [of "u64_to_dec u" 0] u64_to_dec_value(1,2) [of u] by simp

lemma digits_plain: "list_all is_digit ds \<Longrightarrow> ch_nl \<notin> set ds \<and> ch_nul \<notin> set ds \<and> drop_spaces ds = ds"
  by (cases ds) (auto simp: is_digit_def drop_spaces_def list_all_iff)

lemma meta_of_memory_text:
  assumes "list_all slug_char slug" "length slug \<le> MEM_SLUG_MAX" "ch_nl \<notin> set d" "ch_nul \<notin> set d"
    and "length d \<le> MEM_DESC_MAX"
  shows "meta_lines False (fgets_lines (memory_text slug d u b)) ([], 0) = (drop_spaces d, u)"
proof -
  note sc = slug_chars [OF assms(1)]
  note dg = digits_plain [OF u64_to_dec_value(1) [of u]]
  define tl where "tl = b @ (if b = [] \<or> last b = ch_nl then [] else [ch_nl])"
  have short: "length slug < 1000" "length d < 1000" "length (u64_to_dec u) < 1000"
    using assms u64_to_dec_value(4) [of u] by (simp_all add: MEM_SLUG_MAX_def MEM_DESC_MAX_def)
  define ls where "ls = [''---'', ''name: '' @ slug, ''description: '' @ d, ''updated: '' @ u64_to_dec u, ''---'']"
  have "memory_text slug d u b = concat (map (\<lambda>l. l @ [ch_nl]) ls) @ tl"
    by (simp add: memory_text_def tl_def ls_def)
  moreover have "list_all (\<lambda>l. ch_nl \<notin> set l \<and> length l < 1023) ls"
    using sc dg short assms(3) by (simp add: ls_def)
  ultimately have split: "fgets_lines (memory_text slug d u b) = map (\<lambda>l. l @ [ch_nl]) ls @ fgets_lines tl"
    by (simp add: fgets_lines_all)
  have whole: "line_of (l @ [ch_nl]) = l" if "l \<in> set ls" for l
    using that sc dg assms(4) by (intro line_of_whole) (auto simp: ls_def)
  note lines = whole [of "''---''", unfolded ls_def, simplified] whole [of "''name: '' @ slug", unfolded ls_def, simplified]
    whole [of "''description: '' @ d", unfolded ls_def, simplified]
    whole [of "''updated: '' @ u64_to_dec u", unfolded ls_def, simplified]
  have "take MEM_DESC_MAX (drop_spaces d) = drop_spaces d"
    using assms(5) length_dropWhile_le [of "\<lambda>c. c = CHR '' ''" d] by (simp add: drop_spaces_def)
  moreover have "drop_spaces (CHR '' '' # s) = drop_spaces s" for s by (simp add: drop_spaces_def)
  ultimately show ?thesis
    unfolding split ls_def using dg by (simp add: lines meta_line_def leading_number_dec)
qed

section \<open>The scan\<close>

text \<open>What is assumed of \<open>readdir\<close>: each name of the directory once, in some order.\<close>

definition readdir_ok :: "readdir \<Rightarrow> bool" where
  "readdir_ok rd \<longleftrightarrow> (\<forall>d. distinct (map fst d) \<longrightarrow> distinct (rd d) \<and> set (rd d) = fst ` set d)"

definition memory_names :: "mem_store \<Rightarrow> string set" where
  "memory_names store = {n \<in> fst ` set (ms_files store). entry_of_file store n \<noteq> None}"

definition store_ok :: "mem_store \<Rightarrow> bool" where
  "store_ok store \<longleftrightarrow> distinct (map fst (ms_files store)) \<and> card (memory_names store) \<le> MEM_MAX_FILES"

definition by_recency :: "mem_entry list \<Rightarrow> bool" where
  "by_recency es = sorted_wrt (\<lambda>a b. me_updated b \<le> me_updated a) es"

lemma set_insert_back [simp]: "set (insert_back before x xs) = insert x (set xs)"
proof -
  have "set (takeWhile (before x) (rev xs)) \<union> set (dropWhile (before x) (rev xs)) = set xs"
    by (metis set_append set_rev takeWhile_dropWhile_id)
  then show ?thesis by (simp add: insert_back_def Un_commute)
qed

lemma length_insert_back [simp]: "length (insert_back before x xs) = Suc (length xs)"
proof -
  have "length (takeWhile (before x) (rev xs)) + length (dropWhile (before x) (rev xs)) = length xs"
    by (metis length_append length_rev takeWhile_dropWhile_id)
  then show ?thesis by (simp add: insert_back_def)
qed

lemma insert_back_recency:
  assumes "by_recency es"
  shows "by_recency (insert_back entry_before e es)"
proof -
  let ?t = "takeWhile (entry_before e) (rev es)" and ?d = "dropWhile (entry_before e) (rev es)"
  have es: "es = rev ?d @ rev ?t"
    by (metis rev_append rev_rev_ident takeWhile_dropWhile_id)
  have t: "me_updated x \<le> me_updated e" if "x \<in> set ?t" for x
    using set_takeWhileD [OF that] by (auto simp: entry_before_def split: if_splits)
  have d: "me_updated e \<le> me_updated x" if xd: "x \<in> set ?d" for x
  proof -
    obtain y ys where yd: "?d = y # ys" using xd by (meson list.set_cases)
    have "\<not> entry_before e y" using hd_dropWhile [of "entry_before e" "rev es"] yd by auto
    then have "me_updated e \<le> me_updated y" by (auto simp: entry_before_def not_less split: if_splits)
    moreover have "sorted_wrt (\<lambda>a b. me_updated b \<le> me_updated a) (rev ?d)"
      using assms es unfolding by_recency_def by (metis sorted_wrt_append)
    then have "x = y \<or> me_updated y \<le> me_updated x" using xd yd by (auto simp: sorted_wrt_append)
    ultimately show ?thesis by auto
  qed
  have "sorted_wrt (\<lambda>a b. me_updated b \<le> me_updated a) (rev ?d @ rev ?t)"
    using assms es by (simp add: by_recency_def)
  then show ?thesis
    using t d by (simp add: by_recency_def insert_back_def sorted_wrt_append)
qed

lemma collect_recency:
  "by_recency es \<Longrightarrow> by_recency (collect_loop entry entry_before cap names es)"
  by (induction names arbitrary: es) (auto simp: insert_back_recency split: option.split)

lemma collect_set:
  "length es + length (filter (\<lambda>n. entry n \<noteq> None) names) \<le> cap \<Longrightarrow>
   set (collect_loop entry before cap names es) = set es \<union> {e. \<exists>n \<in> set names. entry n = Some e} \<and>
   length (collect_loop entry before cap names es) = length es + length (filter (\<lambda>n. entry n \<noteq> None) names)"
proof (induction names arbitrary: es)
  case (Cons n names)
  show ?case
  proof (cases "entry n")
    case None
    show ?thesis
    proof (cases "length es \<ge> cap")
      case True
      define k where "k = length (filter (\<lambda>n. entry n \<noteq> None) names)"
      have "length es + k \<le> cap" using Cons.prems None by (simp add: k_def)
      then have "k = 0" using True by simp
      then have "filter (\<lambda>n. entry n \<noteq> None) names = []" by (simp add: k_def)
      then have "\<forall>m \<in> set names. entry m = None" by (auto simp: filter_empty_conv)
      then show ?thesis using True None by auto
    next
      case False
      then show ?thesis using Cons.IH [of es] Cons.prems None by auto
    qed
  next
    case (Some e)
    then have "length es < cap" using Cons.prems by simp
    then show ?thesis using Cons.IH [of "insert_back before e es"] Cons.prems Some by auto
  qed
qed simp

lemma collect_entries:
  assumes "readdir_ok rd" "store_ok store"
  shows "set (collect_by_recency rd store MEM_MAX_FILES) =
      {e. \<exists>n \<in> fst ` set (ms_files store). entry_of_file store n = Some e} \<and>
    length (collect_by_recency rd store MEM_MAX_FILES) = card (memory_names store) \<and>
    by_recency (collect_by_recency rd store MEM_MAX_FILES)"
proof -
  let ?names = "rd (ms_files store)" and ?P = "\<lambda>n. entry_of_file store n \<noteq> None"
  have names: "distinct ?names" "set ?names = fst ` set (ms_files store)"
    using assms by (auto simp: readdir_ok_def store_ok_def)
  have "length (filter ?P ?names) = card (set (filter ?P ?names))"
    using names(1) by (metis distinct_card distinct_filter)
  also have "set (filter ?P ?names) = memory_names store" using names(2) by (auto simp: memory_names_def)
  finally have len: "length (filter ?P ?names) = card (memory_names store)" .
  have "length [] + length (filter ?P ?names) \<le> MEM_MAX_FILES"
    using len assms(2) by (simp add: store_ok_def)
  note scan = collect_set [OF this, of entry_before]
  have "by_recency (collect_by_recency rd store MEM_MAX_FILES)"
    unfolding collect_by_recency_def by (rule collect_recency) (simp add: by_recency_def)
  then show ?thesis using scan names(2) len by (simp add: collect_by_recency_def)
qed

section \<open>A save ranks first\<close>

lemma write_index_distinct:
  "distinct (map fst (ms_files store)) \<Longrightarrow> distinct (map fst (ms_files (write_index io es up store)))"
  by (simp add: write_index_def Let_def distinct_update distinct_delete split: option.split)

lemma u64_below_next:
  fixes x y :: u64
  assumes "x \<le> y" "y + 1 \<noteq> 0"
  shows "x < y + 1"
  using assms unatSuc [of y] by (simp add: word_less_nat_alt word_le_nat_alt add.commute)

lemma save_distinct:
  "distinct (map fst (ms_files store)) \<Longrightarrow>
   distinct (map fst (ms_files (snd (spg_mem_save_reserved rd io slug d b store))))"
  by (auto simp: spg_mem_save_reserved_def Let_def distinct_delete intro!: write_index_distinct distinct_update
      split: option.split)

lemma slug_of_file_Some:
  assumes "slug_of_file n = Some t"
  shows "n = t @ ''.md'' \<and> t \<noteq> ''MEMORY''"
proof -
  have n: "is_memory_file n" "t = take (length n - 3) n"
    using assms by (auto simp: slug_of_file_def split: if_splits)
  then have "n = t @ ''.md''"
    using append_take_drop_id [of "length n - 3" n] by (simp add: is_memory_file_def)
  then show ?thesis using n(1) by (auto simp: is_memory_file_def)
qed

lemma slug_of_file_md:
  assumes "spg_mem_slug_valid slug"
  shows "slug_of_file (slug @ ''.md'') = Some slug"
  using assms valid_not_index [OF assms] md_index [of slug]
  by (simp add: slug_of_file_def is_memory_file_def spg_mem_slug_valid_def)

lemma entry_of_file_Some:
  "entry_of_file store n = Some e \<Longrightarrow> slug_of_file n = Some (me_slug e)"
  by (auto simp: entry_of_file_def split: option.splits prod.splits)

lemma entry_frame:
  assumes "map_of (ms_files s') n = map_of (ms_files s) n" "ms_dir_length s' = ms_dir_length s"
  shows "entry_of_file s' n = entry_of_file s n"
proof (cases "slug_of_file n")
  case (Some t)
  have "build_path s' t ''.md'' = build_path s t ''.md''" using assms(2) by (rule build_path_cong)
  moreover have "read_meta s' n = read_meta s n" using assms(1) by (simp add: read_meta_def)
  ultimately show ?thesis using Some slug_of_file_Some [OF Some]
    by (auto simp: entry_of_file_def dest: build_path_Some split: option.split)
qed (simp add: entry_of_file_def)

lemma memory_names_map: "n \<in> memory_names store \<longleftrightarrow> map_of (ms_files store) n \<noteq> None \<and> entry_of_file store n \<noteq> None"
  by (simp add: memory_names_def map_of_eq_None_iff)

text \<open>Only the saved file's own entry can be new.\<close>

lemma save_entries:
  assumes "spg_mem_save_reserved rd io slug d b store = (SPG_OK, store')" "n \<in> memory_names store'"
    and "n \<noteq> slug @ ''.md''"
  shows "n \<in> memory_names store \<and> entry_of_file store' n = entry_of_file store n"
proof -
  obtain e where e: "entry_of_file store' n = Some e" using assms(2) by (auto simp: memory_names_map)
  note n = slug_of_file_Some [OF entry_of_file_Some [OF e]]
  have "me_slug e \<noteq> slug" using n assms(3) by auto
  then have same: "map_of (ms_files store') n = map_of (ms_files store) n"
    using save_reserved_frame [of "me_slug e" slug rd io d b store] n assms(1) by simp
  then have "entry_of_file store' n = entry_of_file store n"
    using save_ok [OF assms(1)] by (intro entry_frame) auto
  then show ?thesis using same assms(2) by (simp add: memory_names_map)
qed

lemma saved_entry:
  assumes "spg_mem_save_reserved rd io slug d b store = (SPG_OK, store')" "ch_nul \<notin> set d"
  shows "entry_of_file store' (slug @ ''.md'') =
    Some \<lparr>me_slug = slug, me_desc = drop_spaces d, me_updated = next_updated rd store\<rparr>"
proof -
  note ok = save_ok [OF assms(1)]
  have v: "spg_mem_slug_valid slug" using ok by simp
  have "read_meta store' (slug @ ''.md'') = (drop_spaces d, next_updated rd store)"
    using ok v assms(2) by (simp add: read_meta_def meta_of_memory_text spg_mem_slug_valid_def)
  moreover have "build_path store' slug ''.md'' = Some (slug @ ''.md'')"
    using ok build_path_cong [of store' store slug "''.md''"] by simp
  ultimately show ?thesis using slug_of_file_md [OF v] by (simp add: entry_of_file_def)
qed

lemma memory_names_finite: "finite (memory_names store)"
  by (simp add: memory_names_def)

lemma save_keeps_bound:
  assumes "readdir_ok rd" "store_ok store" "ch_nul \<notin> set d"
    and save: "spg_mem_save_reserved rd io slug d b store = (SPG_OK, store')"
  shows "store_ok store'"
proof -
  let ?n = "slug @ ''.md''"
  note ok = save_ok [OF save]
  have sub: "memory_names store' \<subseteq> insert ?n (memory_names store)" using save_entries [OF save] by auto
  have "card (insert ?n (memory_names store)) \<le> MEM_MAX_FILES"
  proof (cases "file_exists store ?n")
    case True
    have "slug_of_file ?n = Some slug" using ok slug_of_file_md by blast
    then have "entry_of_file store ?n \<noteq> None" using ok by (simp add: entry_of_file_def split: prod.split)
    then have "?n \<in> memory_names store" using True by (simp add: memory_names_map file_exists_def)
    then show ?thesis using assms(2) by (simp add: insert_absorb store_ok_def)
  next
    case False
    then have "length (collect_by_recency rd store MEM_MAX_FILES) < MEM_MAX_FILES"
      using save ok by (auto simp: spg_mem_save_reserved_def Let_def dest: build_path_Some split: if_splits option.splits)
    then show ?thesis
      using collect_entries [OF assms(1,2)] card_insert_le_m1 [of MEM_MAX_FILES "memory_names store" ?n]
      by (simp add: MEM_MAX_FILES_def)
  qed
  then have "card (memory_names store') \<le> MEM_MAX_FILES"
    using card_mono [OF _ sub] memory_names_finite by (meson finite_insert le_trans)
  moreover have "distinct (map fst (ms_files store'))"
    using save_distinct [of store rd io slug d b] assms(2) save by (simp add: store_ok_def)
  ultimately show ?thesis by (simp add: store_ok_def)
qed

text \<open>
  What is saved last ranks first: however the directory is enumerated, after a successful
  save of a memory in a store within its bound, and unless the 64-bit update counter has run
  out, the scan by recency starts with the saved slug and its description, and the store is
  within its bound of 128 memories again.
\<close>

theorem mem_save_ranks_first:
  assumes "readdir_ok rd" "store_ok store" "ch_nul \<notin> set d"
    and "spg_mem_save rd io slug d b store = (SPG_OK, store')" "next_updated rd store \<noteq> 0"
  shows "store_ok store' \<and>
    (case collect_by_recency rd store' MEM_MAX_FILES of
       [] \<Rightarrow> False | e # es \<Rightarrow> me_slug e = slug \<and> me_desc e = drop_spaces d)"
proof -
  have save: "spg_mem_save_reserved rd io slug d b store = (SPG_OK, store')"
    using assms(4) by (auto simp: spg_mem_save_def split: if_splits)
  have sok: "store_ok store'" using save_keeps_bound [OF assms(1-3) save] .
  let ?es = "collect_by_recency rd store MEM_MAX_FILES" and ?es' = "collect_by_recency rd store' MEM_MAX_FILES"
  let ?new = "\<lparr>me_slug = slug, me_desc = drop_spaces d, me_updated = next_updated rd store\<rparr>"
  note old = collect_entries [OF assms(1,2)] and new = collect_entries [OF assms(1) sok]
  have names: "map_of (ms_files s) n \<noteq> None \<longleftrightarrow> n \<in> fst ` set (ms_files s)" for s n
    by (simp add: map_of_eq_None_iff)
  have "slug @ ''.md'' \<in> fst ` set (ms_files store')"
    using save_ok [OF save] names [of store' "slug @ ''.md''"] by simp
  then have "?new \<in> set ?es'" using new saved_entry [OF save assms(3)] by blast
  moreover have older: "me_updated e < next_updated rd store" if el: "e \<in> set ?es'" and ne: "e \<noteq> ?new" for e
  proof -
    obtain n where n: "n \<in> memory_names store'" "entry_of_file store' n = Some e"
      using el new unfolding memory_names_def by blast
    then have "n \<noteq> slug @ ''.md''" using saved_entry [OF save assms(3)] ne by auto
    then have "e \<in> set ?es"
      using save_entries [OF save n(1)] n(2) old by (auto simp: memory_names_def)
    then obtain y ys where es: "?es = y # ys" and "e = y \<or> e \<in> set ys" by (cases ?es) auto
    then have "me_updated e \<le> me_updated y" using old by (auto simp: by_recency_def)
    moreover have "next_updated rd store = me_updated y + 1" using es by (simp add: next_updated_def)
    ultimately show ?thesis using assms(5) u64_below_next by auto
  qed
  ultimately obtain e es where es': "?es' = e # es" by (cases ?es') auto
  have "next_updated rd store \<le> me_updated e"
    using \<open>?new \<in> set ?es'\<close> new es' by (auto simp: by_recency_def)
  then have "e = ?new" using older [of e] es' by (auto simp: not_less [symmetric])
  then show ?thesis using sok es' by simp
qed

lemma fst_readdir_ok: "readdir_ok (map fst)"
  by (simp add: readdir_ok_def)

lemma small_store_ok: "store_ok small_store"
proof -
  have "memory_names small_store \<subseteq> fst ` set (ms_files small_store)" by (auto simp: memory_names_def)
  also have "\<dots> = {''lesson-a.md''}" by (simp add: small_store_def)
  finally have "memory_names small_store \<subseteq> {''lesson-a.md''}" .
  from card_mono [OF _ this] have "card (memory_names small_store) \<le> 1" by simp
  then show ?thesis by (simp add: store_ok_def small_store_def MEM_MAX_FILES_def)
qed

theorem mem_save_ranks_first_witness:
  "(case collect_by_recency (map fst) (snd saved_store) MEM_MAX_FILES of
      [] \<Rightarrow> False | e # es \<Rightarrow> me_slug e = ''note'' \<and> me_desc e = ''d'') \<and> store_ok (snd saved_store)"
proof -
  have "spg_mem_save (map fst) good_io ''note'' ''d'' ''b'' small_store = (SPG_OK, snd saved_store)"
    using saved_store_ok by (simp add: saved_store_def prod_eq_iff)
  moreover have "next_updated (map fst) small_store \<noteq> 0" by code_simp
  ultimately show ?thesis
    using mem_save_ranks_first [OF fst_readdir_ok small_store_ok, of "''d''" good_io "''note''" "''b''"]
    by (simp add: drop_spaces_def split: list.split_asm)
qed

end
