(* ===== verification/Actor.thy ===== *)
theory Actor
  imports JournalSign MemoryFacts
begin

text \<open>
  One step of the actor, \<open>src/actor/actor.c\<close>: build and render the context, journal it, ask the
  model, journal what it said, and note both in the graph and the fact memory. What the model is
  shown and what it answers are parameters of the step (\<open>actor_env\<close>): the prompt text of
  \<open>src/context/context.c\<close>, the chat template around it and the model adapter. Each journal write
  may fail; \<open>io\<close> numbers them.
\<close>

section \<open>Interfaces\<close>

record actor_state =
  as_graph :: "graph option"
  as_memory :: "fact_memory option"
  as_journal :: "journal_writer option"

record actor_config =
  ak_actor_id :: u32
  ak_timestamp_ns :: u64
  ak_parent_sequence :: u64
  ak_max_decode_tokens :: nat
  ak_reset_model_session :: bool
  ak_write_journal :: bool
  ak_update_graph :: bool
  ak_update_memory :: bool

record rendered_context =
  rx_status :: spg_status
  rx_prompt :: string
  rx_required :: nat
  rx_prefix_n :: nat

record context_view =
  cv_status :: spg_status
  cv_graph_truncated :: bool
  cv_memory_truncated :: bool
  cv_journal_truncated :: bool

record generate_request =
  gq_prompt :: string
  gq_reset_session :: bool
  gq_max_decode_tokens :: nat
  gq_prefix_n :: nat

record generate_result =
  gz_status :: spg_status
  gz_output :: string
  gz_tokens_decoded :: nat
  gz_output_truncated :: bool
  gz_stopped_by_token_limit :: bool

text \<open>\<open>ae_frame\<close> is \<open>None\<close> when no template applies or the framed prompt does not fit.\<close>

record actor_env =
  ae_context :: "actor_state \<Rightarrow> context_view"
  ae_render :: "actor_state \<Rightarrow> rendered_context"
  ae_frame :: "string \<Rightarrow> string option"
  ae_generate :: "generate_request \<Rightarrow> generate_result"

record actor_result =
  at_context_required :: nat
  at_context_prompt_n :: nat
  at_model_output :: string
  at_tokens_decoded :: nat
  at_context_graph_truncated :: bool
  at_context_memory_truncated :: bool
  at_context_journal_truncated :: bool
  at_model_output_truncated :: bool
  at_stopped_by_token_limit :: bool
  at_model_input_sequence :: u64
  at_model_output_sequence :: u64
  at_graph_sequence :: u64
  at_memory_sequence :: u64
  at_model_input_node :: "handle option"
  at_recommendation_node :: "handle option"
  at_recommendation_fact :: "handle option"

definition zero_actor_result :: actor_result where
  "zero_actor_result = \<lparr>at_context_required = 0, at_context_prompt_n = 0, at_model_output = [],
     at_tokens_decoded = 0, at_context_graph_truncated = False, at_context_memory_truncated = False,
     at_context_journal_truncated = False, at_model_output_truncated = False,
     at_stopped_by_token_limit = False, at_model_input_sequence = 0, at_model_output_sequence = 0,
     at_graph_sequence = 0, at_memory_sequence = 0, at_model_input_node = None,
     at_recommendation_node = None, at_recommendation_fact = None\<rparr>"

text \<open>A step under way: the state, the parent of the next record, the result so far.\<close>

type_synonym actor_run = "actor_state \<times> u64 \<times> actor_result"

definition then_ok :: "spg_status \<times> 'a \<Rightarrow> ('a \<Rightarrow> spg_status \<times> 'a) \<Rightarrow> spg_status \<times> 'a" where
  "then_ok r k = (if fst r = SPG_OK then k (snd r) else r)"

section \<open>Records\<close>

definition append_journal ::
  "actor_config \<Rightarrow> event_kind \<Rightarrow> spg_status \<Rightarrow> string \<Rightarrow> write_outcome \<Rightarrow>
     (u64 \<Rightarrow> actor_result \<Rightarrow> actor_result) \<Rightarrow> actor_run \<Rightarrow> spg_status \<times> actor_run" where
  "append_journal cfg kind event_status payload io store run =
     (case run of (s, parent, r) \<Rightarrow>
        if \<not> ak_write_journal cfg then (SPG_OK, s, parent, store 0 r)
        else (case as_journal s of
                None \<Rightarrow> (SPG_E_INVALID_ARG, s, parent, r)
              | Some jw \<Rightarrow>
                  (case spg_journal_writer_append jw (ak_timestamp_ns cfg) parent kind event_status
                          (bytes_of payload) io of
                     (st, jw', sq) \<Rightarrow>
                       (case sq of
                          None \<Rightarrow> (st, s\<lparr>as_journal := Some jw'\<rparr>, parent, r)
                        | Some n \<Rightarrow> (st, s\<lparr>as_journal := Some jw'\<rparr>,
                                     if st = SPG_OK then n else parent, store n r)))))"

definition plan_scores :: graph_scores where
  "plan_scores = \<lparr>sc_confidence = Finite (1 / 2), sc_utility = Finite (1 / 2), sc_risk = Finite 0,
     sc_novelty = Finite (1 / 2), sc_cost_estimate = Finite 0\<rparr>"

definition add_graph_updates ::
  "u32 \<Rightarrow> nat \<Rightarrow> nat \<Rightarrow> graph \<Rightarrow> actor_result \<Rightarrow> spg_status \<times> graph \<times> actor_result" where
  "add_graph_updates actor_id context_n output_n gr r =
     (case spg_graph_add_node gr NODE_OBSERVATION actor_id (mk_span 0 context_n) of
        (st, gr, None) \<Rightarrow> (st, gr, r)
      | (st, gr, Some input) \<Rightarrow>
          if st \<noteq> SPG_OK then (st, gr, r)
          else
            (let r = r\<lparr>at_model_input_node := Some input\<rparr>
             in case spg_graph_add_node gr NODE_PLAN actor_id (mk_span 0 output_n) of
                  (st, gr, None) \<Rightarrow> (st, gr, r)
                | (st, gr, Some plan) \<Rightarrow>
                    if st \<noteq> SPG_OK then (st, gr, r)
                    else
                      (let r = r\<lparr>at_recommendation_node := Some plan\<rparr>
                       in case spg_graph_set_scores gr plan plan_scores of (st, gr) \<Rightarrow>
                         if st \<noteq> SPG_OK then (st, gr, r)
                         else (case spg_graph_add_edge gr EDGE_DERIVED_FROM plan input of
                                 (st, gr, edge) \<Rightarrow> (st, gr, r)))))"

definition add_memory_update ::
  "u64 \<Rightarrow> handle option \<Rightarrow> nat \<Rightarrow> fact_memory \<Rightarrow> actor_result \<Rightarrow> spg_status \<times> fact_memory \<times> actor_result" where
  "add_memory_update source_event_id node output_n mem r =
     (if source_event_id = 0 then (SPG_E_INVALID_ARG, mem, r)
      else (case spg_memory_add_fact mem FACT_ARTIFACT (mk_span 0 0) (mk_span 0 0) (mk_span 0 output_n)
                   source_event_id (node \<noteq> None) (case node of None \<Rightarrow> mk_handle 0 0 | Some n \<Rightarrow> n) (Finite (1 / 2)) of
              (st, mem', fid) \<Rightarrow>
                (st, mem', if st = SPG_OK then r\<lparr>at_recommendation_fact := fid\<rparr> else r)))"

section \<open>Stages\<close>

definition context_stage :: "actor_env \<Rightarrow> actor_run \<Rightarrow> spg_status \<times> actor_run" where
  "context_stage env run =
     (case run of (s, parent, r) \<Rightarrow>
        let view = ae_context env s
        in if cv_status view \<noteq> SPG_OK then (cv_status view, s, parent, r)
           else
             (let r = r\<lparr>at_context_graph_truncated := cv_graph_truncated view,
                        at_context_memory_truncated := cv_memory_truncated view,
                        at_context_journal_truncated := cv_journal_truncated view,
                        at_context_required := rx_required (ae_render env s)\<rparr>
              in if rx_status (ae_render env s) \<noteq> SPG_OK then (rx_status (ae_render env s), s, parent, r)
                 else (SPG_OK, s, parent, r\<lparr>at_context_prompt_n := length (rx_prompt (ae_render env s))\<rparr>)))"

definition model_request :: "actor_env \<Rightarrow> actor_config \<Rightarrow> rendered_context \<Rightarrow> generate_request" where
  "model_request env cfg rendered =
     \<lparr>gq_prompt = (case ae_frame env (rx_prompt rendered) of None \<Rightarrow> rx_prompt rendered | Some framed \<Rightarrow> framed),
      gq_reset_session = ak_reset_model_session cfg,
      gq_max_decode_tokens = ak_max_decode_tokens cfg,
      gq_prefix_n = (case ae_frame env (rx_prompt rendered) of None \<Rightarrow> rx_prefix_n rendered | Some framed \<Rightarrow> 0)\<rparr>"

text \<open>What the model returned is journaled before its status is looked at.\<close>

definition model_stage ::
  "actor_env \<Rightarrow> actor_config \<Rightarrow> rendered_context \<Rightarrow> write_outcome \<Rightarrow> actor_run \<Rightarrow> spg_status \<times> actor_run" where
  "model_stage env cfg rendered io run =
     (case run of (s, parent, r) \<Rightarrow>
        let out = ae_generate env (model_request env cfg rendered);
            r = r\<lparr>at_model_output := gz_output out, at_tokens_decoded := gz_tokens_decoded out,
                  at_model_output_truncated := gz_output_truncated out,
                  at_stopped_by_token_limit := gz_stopped_by_token_limit out\<rparr>
        in then_ok (append_journal cfg EVENT_MODEL_OUTPUT (gz_status out) (gz_output out) io
                      (\<lambda>n. at_model_output_sequence_update (\<lambda>_. n)) (s, parent, r))
             (\<lambda>run. (gz_status out, run)))"

definition graph_stage :: "actor_config \<Rightarrow> write_outcome \<Rightarrow> actor_run \<Rightarrow> spg_status \<times> actor_run" where
  "graph_stage cfg io run =
     (case run of (s, parent, r) \<Rightarrow>
        if \<not> ak_update_graph cfg then (SPG_OK, run)
        else (case as_graph s of
                None \<Rightarrow> (SPG_E_INVALID_ARG, run)
              | Some gr \<Rightarrow>
                  (case add_graph_updates (ak_actor_id cfg) (at_context_prompt_n r) (length (at_model_output r)) gr r of
                     (st, gr', r') \<Rightarrow>
                       then_ok (st, s\<lparr>as_graph := Some gr'\<rparr>, parent, r')
                         (\<lambda>run. append_journal cfg EVENT_GRAPH SPG_OK (at_model_output r) io
                                  (\<lambda>n. at_graph_sequence_update (\<lambda>_. n)) run))))"

definition memory_stage :: "actor_config \<Rightarrow> write_outcome \<Rightarrow> actor_run \<Rightarrow> spg_status \<times> actor_run" where
  "memory_stage cfg io run =
     (case run of (s, parent, r) \<Rightarrow>
        if \<not> ak_update_memory cfg then (SPG_OK, run)
        else (case as_memory s of
                None \<Rightarrow> (SPG_E_INVALID_ARG, run)
              | Some mem \<Rightarrow>
                  (case add_memory_update
                          (if at_model_output_sequence r \<noteq> 0 then at_model_output_sequence r else 1)
                          (at_recommendation_node r) (length (at_model_output r)) mem r of
                     (st, mem', r') \<Rightarrow>
                       then_ok (st, s\<lparr>as_memory := Some mem'\<rparr>, parent, r')
                         (\<lambda>run. append_journal cfg EVENT_MEMORY SPG_OK (at_model_output r) io
                                  (\<lambda>n. at_memory_sequence_update (\<lambda>_. n)) run))))"

section \<open>The step\<close>

definition actor_args_ok :: "actor_config \<Rightarrow> actor_state \<Rightarrow> bool" where
  "actor_args_ok cfg s \<longleftrightarrow>
     \<not> (ak_write_journal cfg \<and> as_journal s = None) \<and> \<not> (ak_update_graph cfg \<and> as_graph s = None) \<and>
     \<not> (ak_update_memory cfg \<and> as_memory s = None)"

definition actor_stages ::
  "actor_env \<Rightarrow> actor_config \<Rightarrow> (nat \<Rightarrow> write_outcome) \<Rightarrow> rendered_context \<Rightarrow> actor_run \<Rightarrow> spg_status \<times> actor_run"
where
  "actor_stages env cfg io rendered run =
     then_ok (then_ok (then_ok (then_ok (context_stage env run)
       (append_journal cfg EVENT_MODEL_INPUT SPG_OK (rx_prompt rendered) (io 0)
          (\<lambda>n. at_model_input_sequence_update (\<lambda>_. n))))
       (model_stage env cfg rendered (io 1)))
       (graph_stage cfg (io 2)))
       (memory_stage cfg (io 3))"

definition spg_actor_step ::
  "actor_env \<Rightarrow> actor_config \<Rightarrow> (nat \<Rightarrow> write_outcome) \<Rightarrow> actor_state \<Rightarrow> spg_status \<times> actor_state \<times> actor_result"
where
  "spg_actor_step env cfg io s =
     (if \<not> actor_args_ok cfg s then (SPG_E_INVALID_ARG, s, zero_actor_result)
      else (case actor_stages env cfg io (ae_render env s) (s, ak_parent_sequence cfg, zero_actor_result) of
              (st, s', _, r) \<Rightarrow> (st, s', r)))"

section \<open>What a step records\<close>

primrec chained :: "u64 \<Rightarrow> (record_header \<times> u8 list) list \<Rightarrow> bool" where
  "chained parent [] = True"
| "chained parent (e # es) = (jh_parent_sequence (fst e) = parent \<and> chained (jh_sequence (fst e)) es)"

definition last_sequence :: "u64 \<Rightarrow> (record_header \<times> u8 list) list \<Rightarrow> u64" where
  "last_sequence parent es = (if es = [] then parent else jh_sequence (fst (last es)))"

lemma chained_snoc: "chained p (es @ [e]) \<longleftrightarrow> chained p es \<and> jh_parent_sequence (fst e) = last_sequence p es"
  by (induction es arbitrary: p) (auto simp: last_sequence_def)

text \<open>A run under way that has recorded \<open>new\<close> on top of \<open>es\<close>.\<close>

definition recorded ::
  "u64 \<Rightarrow> (record_header \<times> u8 list) list \<Rightarrow> event_kind list \<Rightarrow> string list \<Rightarrow> actor_run \<Rightarrow> bool" where
  "recorded p0 es kinds payloads run \<longleftrightarrow>
     (\<exists>jw new. as_journal (fst run) = Some jw \<and> writer_inv jw (es @ new) \<and> chained p0 new \<and>
        fst (snd run) = last_sequence p0 new \<and>
        map (\<lambda>e. jh_event_kind (fst e)) new = map event_code kinds \<and> map snd new = map bytes_of payloads)"

lemma append_records:
  assumes "recorded p0 es kinds payloads run" "ak_write_journal cfg"
    and "append_journal cfg kind st payload io store run = (SPG_OK, run')"
    and "HEADER_SIZE + length payload < 2 ^ 64"
  shows "recorded p0 es (kinds @ [kind]) (payloads @ [payload]) run'"
proof -
  obtain s parent r where run: "run = (s, parent, r)" by (rule prod_cases3)
  obtain jw new where j: "as_journal s = Some jw" "writer_inv jw (es @ new)" "chained p0 new"
    "parent = last_sequence p0 new" "map (\<lambda>e. jh_event_kind (fst e)) new = map event_code kinds"
    "map snd new = map bytes_of payloads"
    using assms(1) unfolding recorded_def run by auto
  obtain jw' sq where app: "spg_journal_writer_append jw (ak_timestamp_ns cfg) parent kind st (bytes_of payload) io =
      (SPG_OK, jw', sq)" and s': "fst run' = s\<lparr>as_journal := Some jw'\<rparr>"
      and parent': "sq = Some n \<Longrightarrow> fst (snd run') = n" for n
    using assms(2,3) j(1) by (fastforce simp: append_journal_def run split: prod.splits option.splits)
  have "HEADER_SIZE + length (bytes_of payload) < 2 ^ 64" using assms(4) by (simp add: bytes_of_def)
  from appended_entry [OF j(2) this app] obtain e where e: "writer_inv jw' ((es @ new) @ [e])" "snd e = bytes_of payload"
    "jh_event_kind (fst e) = event_code kind" "jh_parent_sequence (fst e) = parent" "sq = Some (jh_sequence (fst e))"
    by auto
  show ?thesis
    unfolding recorded_def
    by (rule exI [of _ jw'], rule exI [of _ "new @ [e]"])
       (use e j s' parent' in \<open>simp add: chained_snoc last_sequence_def\<close>)
qed

lemma then_ok_OK: "then_ok r k = (SPG_OK, x) \<longleftrightarrow> fst r = SPG_OK \<and> k (snd r) = (SPG_OK, x)"
  by (cases r) (auto simp: then_ok_def)

lemma then_okE:
  assumes "then_ok r k = (SPG_OK, x)"
  obtains y where "r = (SPG_OK, y)" "k y = (SPG_OK, x)"
  using assms by (cases r) (auto simp: then_ok_def split: if_splits)

abbreviation output_of :: "actor_run \<Rightarrow> string" where "output_of run \<equiv> at_model_output (snd (snd run))"

lemma append_output [frame]:
  assumes "\<And>n r. at_model_output (store n r) = at_model_output r"
  shows "output_of (snd (append_journal cfg kind st payload io store run)) = output_of run"
  using assms by (auto simp: append_journal_def split: prod.split option.split)

lemma recorded_frame:
  "recorded p0 es kinds payloads (s, parent, r) \<Longrightarrow> as_journal s' = as_journal s \<Longrightarrow>
   recorded p0 es kinds payloads (s', parent, r')"
  by (simp add: recorded_def)

lemma context_records:
  assumes "recorded p0 es kinds payloads run" "context_stage env run = (st, run')"
  shows "recorded p0 es kinds payloads run' \<and> fst run' = fst run"
proof (cases run)
  case (fields s parent r)
  then show ?thesis using assms
    by (auto simp: context_stage_def Let_def intro: recorded_frame split: if_splits)
qed

lemma model_records:
  assumes "recorded p0 es kinds payloads run" "ak_write_journal cfg"
    and "model_stage env cfg rendered io run = (SPG_OK, run')"
    and "HEADER_SIZE + length (gz_output (ae_generate env (model_request env cfg rendered))) < 2 ^ 64"
  shows "recorded p0 es (kinds @ [EVENT_MODEL_OUTPUT])
      (payloads @ [gz_output (ae_generate env (model_request env cfg rendered))]) run' \<and>
    output_of run' = gz_output (ae_generate env (model_request env cfg rendered))"
proof -
  let ?out = "ae_generate env (model_request env cfg rendered)"
  obtain s parent r where run: "run = (s, parent, r)" by (rule prod_cases3)
  define r1 where "r1 = r\<lparr>at_model_output := gz_output ?out, at_tokens_decoded := gz_tokens_decoded ?out,
    at_model_output_truncated := gz_output_truncated ?out,
    at_stopped_by_token_limit := gz_stopped_by_token_limit ?out\<rparr>"
  let ?app = "append_journal cfg EVENT_MODEL_OUTPUT (gz_status ?out) (gz_output ?out) io
    (\<lambda>n. at_model_output_sequence_update (\<lambda>_. n)) (s, parent, r1)"
  have m: "model_stage env cfg rendered io run = then_ok ?app (\<lambda>run. (gz_status ?out, run))"
    by (simp only: model_stage_def run prod.case Let_def r1_def)
  have app: "?app = (SPG_OK, run')"
    using assms(3) unfolding m then_ok_OK by (auto simp: prod_eq_iff)
  have "recorded p0 es kinds payloads (s, parent, r1)" using assms(1) recorded_frame [of p0 es kinds payloads s parent r s] run by simp
  note rec = append_records [OF this assms(2) app assms(4)]
  have "output_of (snd ?app) = output_of (s, parent, r1)" by (rule append_output) simp
  then have "output_of run' = gz_output ?out" unfolding app by (simp add: r1_def)
  with rec show ?thesis by blast
qed

lemma graph_records:
  assumes "recorded p0 es kinds payloads run" "ak_write_journal cfg"
    and "graph_stage cfg io run = (SPG_OK, run')" "HEADER_SIZE + length (output_of run) < 2 ^ 64"
  shows "recorded p0 es (kinds @ (if ak_update_graph cfg then [EVENT_GRAPH] else []))
      (payloads @ (if ak_update_graph cfg then [output_of run] else [])) run' \<and> output_of run' = output_of run"
proof (cases "ak_update_graph cfg")
  case False
  then show ?thesis using assms by (auto simp: graph_stage_def split: prod.splits)
next
  case True
  obtain s parent r where run: "run = (s, parent, r)" by (rule prod_cases3)
  obtain gr where gr: "as_graph s = Some gr" using assms(3) True by (auto simp: graph_stage_def run split: option.splits)
  obtain st gr' r' where upd: "add_graph_updates (ak_actor_id cfg) (at_context_prompt_n r)
      (length (at_model_output r)) gr r = (st, gr', r')" by (rule prod_cases3)
  have out': "at_model_output r' = at_model_output r"
    using upd by (auto simp: add_graph_updates_def Let_def split: prod.splits option.splits if_splits)
  let ?app = "append_journal cfg EVENT_GRAPH SPG_OK (at_model_output r) io
    (\<lambda>n. at_graph_sequence_update (\<lambda>_. n)) (s\<lparr>as_graph := Some gr'\<rparr>, parent, r')"
  have app: "?app = (SPG_OK, run')"
    using assms(3) True gr upd by (auto simp: graph_stage_def run then_ok_OK)
  have "recorded p0 es kinds payloads (s\<lparr>as_graph := Some gr'\<rparr>, parent, r')"
    using recorded_frame [of p0 es kinds payloads s parent r "s\<lparr>as_graph := Some gr'\<rparr>"] assms(1) run by simp
  note rec = append_records [OF this assms(2) app]
  have "output_of (snd ?app) = output_of (s\<lparr>as_graph := Some gr'\<rparr>, parent, r')" by (rule append_output) simp
  then have "output_of run' = at_model_output r" unfolding app by (simp add: out')
  with rec assms(4) True show ?thesis by (simp add: run)
qed

lemma memory_records:
  assumes "recorded p0 es kinds payloads run" "ak_write_journal cfg"
    and "memory_stage cfg io run = (SPG_OK, run')" "HEADER_SIZE + length (output_of run) < 2 ^ 64"
  shows "recorded p0 es (kinds @ (if ak_update_memory cfg then [EVENT_MEMORY] else []))
      (payloads @ (if ak_update_memory cfg then [output_of run] else [])) run' \<and> output_of run' = output_of run"
proof (cases "ak_update_memory cfg")
  case False
  then show ?thesis using assms by (auto simp: memory_stage_def split: prod.splits)
next
  case True
  obtain s parent r where run: "run = (s, parent, r)" by (rule prod_cases3)
  obtain mem where mem: "as_memory s = Some mem" using assms(3) True by (auto simp: memory_stage_def run split: option.splits)
  obtain st mem' r' where upd: "add_memory_update (if at_model_output_sequence r \<noteq> 0 then at_model_output_sequence r else 1)
      (at_recommendation_node r) (length (at_model_output r)) mem r = (st, mem', r')" by (rule prod_cases3)
  let ?app = "append_journal cfg EVENT_MEMORY SPG_OK (at_model_output r) io
    (\<lambda>n. at_memory_sequence_update (\<lambda>_. n)) (s\<lparr>as_memory := Some mem'\<rparr>, parent, r')"
  have app: "?app = (SPG_OK, run')"
    using assms(3) True mem upd by (auto simp: memory_stage_def run then_ok_OK)
  have "recorded p0 es kinds payloads (s\<lparr>as_memory := Some mem'\<rparr>, parent, r')"
    using recorded_frame [of p0 es kinds payloads s parent r "s\<lparr>as_memory := Some mem'\<rparr>"] assms(1) run by simp
  note rec = append_records [OF this assms(2) app]
  have out': "at_model_output r' = at_model_output r"
    using upd by (auto simp: add_memory_update_def split: prod.splits if_splits)
  have "output_of (snd ?app) = output_of (s\<lparr>as_memory := Some mem'\<rparr>, parent, r')" by (rule append_output) simp
  then have "output_of run' = at_model_output r" unfolding app by (simp add: out')
  with rec assms(4) True show ?thesis by (simp add: run)
qed

text \<open>What the model said to a request of this step.\<close>

definition said :: "actor_env \<Rightarrow> actor_config \<Rightarrow> actor_state \<Rightarrow> string" where
  "said env cfg s = gz_output (ae_generate env (model_request env cfg (ae_render env s)))"

definition step_kinds :: "actor_config \<Rightarrow> event_kind list" where
  "step_kinds cfg = [EVENT_MODEL_INPUT, EVENT_MODEL_OUTPUT] @
     (if ak_update_graph cfg then [EVENT_GRAPH] else []) @ (if ak_update_memory cfg then [EVENT_MEMORY] else [])"

definition step_payloads :: "actor_env \<Rightarrow> actor_config \<Rightarrow> actor_state \<Rightarrow> string list" where
  "step_payloads env cfg s = [rx_prompt (ae_render env s), said env cfg s] @
     (if ak_update_graph cfg then [said env cfg s] else []) @
     (if ak_update_memory cfg then [said env cfg s] else [])"

text \<open>
  C8: The journal sees what the model saw and said: a step that succeeds appends, in this order,
  the exact prompt, the exact output, and the graph and memory records when they are on, each
  record the child of the one before and the first the child of the given parent; and the output
  it hands on is the one it journaled.
\<close>

theorem actor_step_journals:
  assumes "spg_actor_step env cfg io s = (SPG_OK, s', r)"
    and "ak_write_journal cfg" "as_journal s = Some jw" "writer_inv jw es"
    and "HEADER_SIZE + length (rx_prompt (ae_render env s)) < 2 ^ 64"
    and "HEADER_SIZE + length (said env cfg s) < 2 ^ 64"
  shows "at_model_output r = said env cfg s \<and>
    (\<exists>jw' new. as_journal s' = Some jw' \<and> writer_inv jw' (es @ new) \<and> chained (ak_parent_sequence cfg) new \<and>
       map (\<lambda>e. jh_event_kind (fst e)) new = map event_code (step_kinds cfg) \<and>
       map snd new = map bytes_of (step_payloads env cfg s))"
proof -
  let ?x = "ae_render env s" and ?p = "ak_parent_sequence cfg"
  let ?run = "(s, ?p, zero_actor_result)"
  obtain parent where st: "actor_stages env cfg io ?x ?run = (SPG_OK, s', parent, r)"
    using assms(1) by (auto simp: spg_actor_step_def split: if_splits prod.splits)
  obtain r4 where t4: "then_ok (then_ok (then_ok (context_stage env ?run)
       (append_journal cfg EVENT_MODEL_INPUT SPG_OK (rx_prompt ?x) (io 0)
          (\<lambda>n. at_model_input_sequence_update (\<lambda>_. n))))
       (model_stage env cfg ?x (io 1))) (graph_stage cfg (io 2)) = (SPG_OK, r4)"
    and c5: "memory_stage cfg (io 3) r4 = (SPG_OK, s', parent, r)"
    using st unfolding actor_stages_def by (rule then_okE)
  obtain r3 where t3: "then_ok (then_ok (context_stage env ?run)
       (append_journal cfg EVENT_MODEL_INPUT SPG_OK (rx_prompt ?x) (io 0)
          (\<lambda>n. at_model_input_sequence_update (\<lambda>_. n)))) (model_stage env cfg ?x (io 1)) = (SPG_OK, r3)"
    and c4: "graph_stage cfg (io 2) r3 = (SPG_OK, r4)"
    using t4 by (rule then_okE)
  obtain r2 where t2: "then_ok (context_stage env ?run)
       (append_journal cfg EVENT_MODEL_INPUT SPG_OK (rx_prompt ?x) (io 0)
          (\<lambda>n. at_model_input_sequence_update (\<lambda>_. n))) = (SPG_OK, r2)"
    and c3: "model_stage env cfg ?x (io 1) r2 = (SPG_OK, r3)"
    using t3 by (rule then_okE)
  obtain r1 where c1: "context_stage env ?run = (SPG_OK, r1)"
    and c2: "append_journal cfg EVENT_MODEL_INPUT SPG_OK (rx_prompt ?x) (io 0)
       (\<lambda>n. at_model_input_sequence_update (\<lambda>_. n)) r1 = (SPG_OK, r2)"
    using t2 by (rule then_okE)
  have "recorded ?p es [] [] ?run" using assms(3,4) by (simp add: recorded_def last_sequence_def)
  note a = context_records [OF this c1]
  note b = append_records [OF conjunct1 [OF a] assms(2) c2 assms(5)]
  note m = model_records [OF b assms(2) c3 assms(6) [unfolded said_def], folded said_def]
  have out3: "output_of r3 = said env cfg s" using m by blast
  note g = graph_records [OF conjunct1 [OF m] assms(2) c4, unfolded out3, OF assms(6)]
  have out4: "output_of r4 = said env cfg s" using g by blast
  note f = memory_records [OF conjunct1 [OF g] assms(2) c5, unfolded out4, OF assms(6)]
  have "at_model_output r = said env cfg s" using f by simp
  moreover have "recorded ?p es (step_kinds cfg) (step_payloads env cfg s) (s', parent, r)"
    using conjunct1 [OF f] by (simp only: step_kinds_def step_payloads_def append_assoc append_Nil append_Cons)
  ultimately show ?thesis unfolding recorded_def by auto
qed

section \<open>A step of a scripted model\<close>

definition script_env :: actor_env where
  "script_env = \<lparr>ae_context = (\<lambda>_. \<lparr>cv_status = SPG_OK, cv_graph_truncated = False, cv_memory_truncated = False,
       cv_journal_truncated = False\<rparr>),
     ae_render = (\<lambda>_. \<lparr>rx_status = SPG_OK, rx_prompt = ''(run)'', rx_required = 6, rx_prefix_n = 0\<rparr>),
     ae_frame = (\<lambda>_. None),
     ae_generate = (\<lambda>_. \<lparr>gz_status = SPG_OK, gz_output = ''hi'', gz_tokens_decoded = 1,
       gz_output_truncated = False, gz_stopped_by_token_limit = False\<rparr>)\<rparr>"

definition script_config :: actor_config where
  "script_config = \<lparr>ak_actor_id = 1, ak_timestamp_ns = 1, ak_parent_sequence = 0, ak_max_decode_tokens = 8,
     ak_reset_model_session = True, ak_write_journal = True, ak_update_graph = False, ak_update_memory = False\<rparr>"

definition script_state :: actor_state where
  "script_state = \<lparr>as_graph = None, as_memory = None, as_journal = Some fresh_writer\<rparr>"

definition script_io :: "nat \<Rightarrow> write_outcome" where
  "script_io n = \<lparr>io_header = 112, io_payload = 100, io_flush = True\<rparr>"

lemma said_script: "said script_env script_config script_state = ''hi''"
  by (simp add: said_def script_env_def)

lemma append_journal_ok:
  assumes "recorded p0 es kinds payloads run" "HEADER_SIZE + length payload < 2 ^ 64"
    and "io_header io \<ge> HEADER_SIZE" "io_payload io \<ge> length payload" "io_flush io"
  shows "\<exists>run'. append_journal cfg kind st payload io store run = (SPG_OK, run')"
proof (cases "ak_write_journal cfg")
  case False
  then show ?thesis by (cases run) (simp add: append_journal_def)
next
  case True
  obtain s parent r where run: "run = (s, parent, r)" by (rule prod_cases3)
  obtain jw new where j: "as_journal s = Some jw" "writer_inv jw (es @ new)"
    using assms(1) by (auto simp: recorded_def run)
  have "HEADER_SIZE + length (bytes_of payload) < 2 ^ 64" "io_payload io \<ge> length (bytes_of payload)"
    using assms by (simp_all add: bytes_of_def)
  from append_complete [OF j(2) this(1) assms(3) this(2) assms(5)]
  obtain jw' out where "spg_journal_writer_append jw (ak_timestamp_ns cfg) parent kind st (bytes_of payload) io =
      (SPG_OK, jw', out)" by blast
  then show ?thesis using True j by (simp add: append_journal_def run split: option.split)
qed

lemma script_step: "\<exists>s' r. spg_actor_step script_env script_config script_io script_state = (SPG_OK, s', r)"
proof -
  let ?run = "(script_state, 0 :: u64, zero_actor_result)" and ?x = "ae_render script_env script_state"
  have "recorded 0 [] [] [] ?run"
    using fresh_writer_inv by (simp add: recorded_def script_state_def last_sequence_def)
  moreover obtain r1 where c1: "context_stage script_env ?run = (SPG_OK, r1)"
    by (simp add: context_stage_def script_env_def Let_def)
  ultimately have rec1: "recorded 0 [] [] [] r1" using context_records by blast
  have sizes: "HEADER_SIZE + length (rx_prompt ?x) < 2 ^ 64" "io_header (script_io k) \<ge> HEADER_SIZE"
    "io_payload (script_io k) \<ge> length (rx_prompt ?x)" "io_payload (script_io k) \<ge> length ''hi''"
    "io_flush (script_io k)" "HEADER_SIZE + length ''hi'' < 2 ^ 64" for k
    by (simp_all add: script_env_def script_io_def HEADER_SIZE_def)
  obtain r2 where c2: "append_journal script_config EVENT_MODEL_INPUT SPG_OK (rx_prompt ?x) (script_io 0)
      (\<lambda>n. at_model_input_sequence_update (\<lambda>_. n)) r1 = (SPG_OK, r2)"
    using append_journal_ok [OF rec1 sizes(1-3,5)] by blast
  have on: "ak_write_journal script_config" by (simp add: script_config_def)
  note rec2 = append_records [OF rec1 on c2 sizes(1)]
  obtain s2 p2 q2 where r2: "r2 = (s2, p2, q2)" by (rule prod_cases3)
  define q3 where "q3 = q2\<lparr>at_model_output := ''hi'', at_tokens_decoded := 1, at_model_output_truncated := False,
    at_stopped_by_token_limit := False\<rparr>"
  have "recorded 0 [] [EVENT_MODEL_INPUT] [rx_prompt ?x] (s2, p2, q3)"
    using rec2 recorded_frame [of 0 "[]" _ _ s2 p2 q2 s2] r2 by simp
  from append_journal_ok [OF this sizes(6,2,4,5)] obtain r3 where
    "append_journal script_config EVENT_MODEL_OUTPUT SPG_OK ''hi'' (script_io 1)
       (\<lambda>n. at_model_output_sequence_update (\<lambda>_. n)) (s2, p2, q3) = (SPG_OK, r3)" by blast
  then have c3: "model_stage script_env script_config ?x (script_io 1) r2 = (SPG_OK, r3)"
    by (simp add: model_stage_def r2 q3_def script_env_def then_ok_def)
  have "graph_stage script_config io r3 = (SPG_OK, r3)" "memory_stage script_config io r3 = (SPG_OK, r3)" for io
    by (simp_all add: graph_stage_def memory_stage_def script_config_def split: prod.split)
  then have "actor_stages script_env script_config script_io ?x ?run = (SPG_OK, r3)"
    using c1 c2 c3 by (simp add: actor_stages_def then_ok_def)
  then show ?thesis
    by (cases r3) (simp add: spg_actor_step_def actor_args_ok_def script_config_def script_state_def)
qed

theorem actor_step_journals_witness:
  "case spg_actor_step script_env script_config script_io script_state of (st, s', r) \<Rightarrow>
     st = SPG_OK \<and> at_model_output r = ''hi'' \<and>
     (\<exists>jw new. as_journal s' = Some jw \<and> writer_inv jw new \<and> map snd new = [bytes_of ''(run)'', bytes_of ''hi''])"
proof -
  obtain s' r where e: "spg_actor_step script_env script_config script_io script_state = (SPG_OK, s', r)"
    using script_step by blast
  have on: "ak_write_journal script_config" "as_journal script_state = Some fresh_writer"
    by (simp_all add: script_config_def script_state_def)
  have "HEADER_SIZE + length (rx_prompt (ae_render script_env script_state)) < 2 ^ 64"
    "HEADER_SIZE + length (said script_env script_config script_state) < 2 ^ 64"
    by (simp_all add: said_script) (simp_all add: script_env_def HEADER_SIZE_def)
  note step = actor_step_journals [OF e on fresh_writer_inv this]
  have "step_payloads script_env script_config script_state = [''(run)'', ''hi'']"
    by (simp add: step_payloads_def said_script) (simp add: script_env_def script_config_def)
  with step obtain jw new where "as_journal s' = Some jw" "writer_inv jw ([] @ new)"
    "map snd new = [bytes_of ''(run)'', bytes_of ''hi'']" "at_model_output r = ''hi''"
    unfolding said_script by (auto simp only: list.map)
  then show ?thesis unfolding e prod.case append_Nil by (intro conjI exI [of _ jw] exI [of _ new] refl)
qed

end
