(* ===== verification/Orchestrator.thy ===== *)
theory Orchestrator
  imports Actor PolicyGate ShellExec MachineExec SimExec MemExec
begin

text \<open>
  One tick of the orchestrator, \<open>src/run/orchestrator.c\<close>: refresh the memory index, let the actor
  speak, parse what it said, stop at a rejection or a \<open>finish\<close>, put everything else to the policy
  gate, and hand what it allows to the one executor of its kind. The world is all that a tick can
  change; the environment is what it consults. Records of one tick are written with the outcomes
  \<open>io 0\<close> to \<open>io 7\<close>.
\<close>

section \<open>The world and what is configured\<close>

record orch_world =
  ow_journal :: "journal_writer option"
  ow_graph :: "graph option"
  ow_memory :: "fact_memory option"
  ow_machine :: "machine_state option"
  ow_device :: "device option"
  ow_sim :: "sim_config option"
  ow_store :: "mem_store option"
  ow_log :: "spawn list"
  ow_events :: "sys_event list"
  ow_ledger :: "pause_ledger option"
  ow_usage :: policy_usage
  ow_observation :: string

text \<open>
  The actor's environment may depend on everything in the world and on the memory index of this
  tick; the host telemetry line is part of it.
\<close>

record orch_env =
  oe_actor :: "orch_world \<Rightarrow> string option \<Rightarrow> actor_env"
  oe_realpath :: realpath
  oe_os :: os_env
  oe_kernel :: kernel
  oe_readdir :: readdir
  oe_policy_text :: string
  oe_policy :: policy_config
  oe_profile :: "process_profile option"

record orch_config =
  oc_actor_id :: u32
  oc_timestamp_ns :: u64
  oc_parent_sequence :: u64
  oc_max_decode_tokens :: nat
  oc_reset_model_session :: bool
  oc_write_journal :: bool
  oc_update_graph :: bool
  oc_update_memory :: bool
  oc_execution_enabled :: bool
  oc_exec_working_dir :: "string option"
  oc_exec_workdir_prefix :: "string option"
  oc_exec_timeout_ms :: u64
  oc_exec_stdout_cap :: nat
  oc_exec_stderr_cap :: nat

text \<open>The capacities of the workspace; buffers that may be null are optional.\<close>

record orch_workspace =
  ob_token_capacity :: nat
  ob_node_capacity :: nat
  ob_policy_payload_capacity :: nat
  ob_sim_payload_capacity :: nat
  ob_observation_capacity :: "nat option"
  ob_shell_stdout_capacity :: "nat option"
  ob_shell_stderr_capacity :: "nat option"
  ob_memory_index_capacity :: nat

datatype orch_stage =
  STAGE_NOT_STARTED | STAGE_ACTOR_DONE | STAGE_RECOMMENDATION_REJECTED | STAGE_FINISHED
| STAGE_POLICY_GATED | STAGE_SIM_EXECUTED | STAGE_MEMORY_EXECUTED | STAGE_SHELL_EXECUTED
| STAGE_MACHINE_EXECUTED | STAGE_DEVICE_EXECUTED

fun spg_orchestrator_stage_to_string :: "orch_stage \<Rightarrow> string" where
  "spg_orchestrator_stage_to_string STAGE_NOT_STARTED = ''not_started''"
| "spg_orchestrator_stage_to_string STAGE_ACTOR_DONE = ''actor_done''"
| "spg_orchestrator_stage_to_string STAGE_RECOMMENDATION_REJECTED = ''recommendation_rejected''"
| "spg_orchestrator_stage_to_string STAGE_FINISHED = ''finished''"
| "spg_orchestrator_stage_to_string STAGE_POLICY_GATED = ''policy_gated''"
| "spg_orchestrator_stage_to_string STAGE_SIM_EXECUTED = ''sim_executed''"
| "spg_orchestrator_stage_to_string STAGE_MEMORY_EXECUTED = ''memory_executed''"
| "spg_orchestrator_stage_to_string STAGE_SHELL_EXECUTED = ''shell_executed''"
| "spg_orchestrator_stage_to_string STAGE_MACHINE_EXECUTED = ''machine_executed''"
| "spg_orchestrator_stage_to_string STAGE_DEVICE_EXECUTED = ''device_executed''"

text \<open>The enumeration's values, which the predicates compare.\<close>

fun stage_rank :: "orch_stage \<Rightarrow> nat" where
  "stage_rank STAGE_NOT_STARTED = 0"
| "stage_rank STAGE_ACTOR_DONE = 1"
| "stage_rank STAGE_RECOMMENDATION_REJECTED = 2"
| "stage_rank STAGE_FINISHED = 3"
| "stage_rank STAGE_POLICY_GATED = 4"
| "stage_rank STAGE_SIM_EXECUTED = 5"
| "stage_rank STAGE_MEMORY_EXECUTED = 6"
| "stage_rank STAGE_SHELL_EXECUTED = 7"
| "stage_rank STAGE_MACHINE_EXECUTED = 8"
| "stage_rank STAGE_DEVICE_EXECUTED = 9"

text \<open>The parts of a result that are still zero when the tick ends are \<open>None\<close>.\<close>

record tick_result =
  ot_stage :: orch_stage
  ot_actor :: actor_result
  ot_recommendation :: "recommendation option"
  ot_gate :: "gate_result option"
  ot_sim :: "sim_result option"
  ot_memory :: "mem_exec_result option"
  ot_shell :: "shell_exec_result option"
  ot_machine :: "machine_exec_result option"
  ot_device :: "device_exec_result option"

definition spg_orchestrator_recommendation_valid :: "tick_result \<Rightarrow> bool" where
  "spg_orchestrator_recommendation_valid r \<longleftrightarrow>
     ot_stage r = STAGE_FINISHED \<or> stage_rank (ot_stage r) \<ge> stage_rank STAGE_POLICY_GATED"

definition spg_orchestrator_policy_evaluated :: "tick_result \<Rightarrow> bool" where
  "spg_orchestrator_policy_evaluated r \<longleftrightarrow> stage_rank (ot_stage r) \<ge> stage_rank STAGE_POLICY_GATED"

definition spg_orchestrator_sim_executed :: "tick_result \<Rightarrow> bool" where
  "spg_orchestrator_sim_executed r \<longleftrightarrow> ot_stage r = STAGE_SIM_EXECUTED"

definition spg_orchestrator_memory_executed :: "tick_result \<Rightarrow> bool" where
  "spg_orchestrator_memory_executed r \<longleftrightarrow> ot_stage r = STAGE_MEMORY_EXECUTED"

definition spg_orchestrator_shell_executed :: "tick_result \<Rightarrow> bool" where
  "spg_orchestrator_shell_executed r \<longleftrightarrow> ot_stage r = STAGE_SHELL_EXECUTED"

definition spg_orchestrator_machine_executed :: "tick_result \<Rightarrow> bool" where
  "spg_orchestrator_machine_executed r \<longleftrightarrow> ot_stage r = STAGE_MACHINE_EXECUTED"

definition spg_orchestrator_finished :: "tick_result \<Rightarrow> bool" where
  "spg_orchestrator_finished r \<longleftrightarrow> ot_stage r = STAGE_FINISHED"

section \<open>Before the gate\<close>

definition refresh_index :: "orch_env \<Rightarrow> orch_workspace \<Rightarrow> orch_world \<Rightarrow> orch_world \<times> string option" where
  "refresh_index env ws w =
     (case ow_store w of
        None \<Rightarrow> (w, None)
      | Some store \<Rightarrow>
          if ob_memory_index_capacity ws = 0 then (w, None)
          else (case spg_mem_index (oe_readdir env) (ob_memory_index_capacity ws) store of
                  (st, store', out) \<Rightarrow> (w\<lparr>ow_store := Some store'\<rparr>, map_option fst out)))"

definition actor_config_of :: "orch_config \<Rightarrow> actor_config" where
  "actor_config_of cfg = \<lparr>ak_actor_id = oc_actor_id cfg, ak_timestamp_ns = oc_timestamp_ns cfg,
     ak_parent_sequence = oc_parent_sequence cfg, ak_max_decode_tokens = oc_max_decode_tokens cfg,
     ak_reset_model_session = oc_reset_model_session cfg, ak_write_journal = oc_write_journal cfg,
     ak_update_graph = oc_update_graph cfg, ak_update_memory = oc_update_memory cfg\<rparr>"

definition run_actor ::
  "orch_env \<Rightarrow> orch_config \<Rightarrow> orch_workspace \<Rightarrow> (nat \<Rightarrow> write_outcome) \<Rightarrow> orch_world \<Rightarrow>
     spg_status \<times> orch_world \<times> actor_result" where
  "run_actor env cfg ws io w =
     (case refresh_index env ws w of (w, index) \<Rightarrow>
        (case spg_actor_step (oe_actor env w index) (actor_config_of cfg) io
                \<lparr>as_graph = ow_graph w, as_memory = ow_memory w, as_journal = ow_journal w\<rparr> of
           (st, s, r) \<Rightarrow>
             (st, w\<lparr>ow_graph := as_graph s, ow_memory := as_memory s, ow_journal := as_journal s\<rparr>, r)))"

definition tick_parent :: "orch_config \<Rightarrow> actor_result \<Rightarrow> u64" where
  "tick_parent cfg ar =
     (if at_model_output_sequence ar \<noteq> 0 then at_model_output_sequence ar else oc_parent_sequence cfg)"

definition tick_record ::
  "orch_config \<Rightarrow> orch_workspace \<Rightarrow> actor_result \<Rightarrow> event_kind \<Rightarrow> (bool \<Rightarrow> spg_status) \<Rightarrow> string list \<Rightarrow>
     write_outcome \<Rightarrow> orch_world \<Rightarrow> spg_status \<times> orch_world" where
  "tick_record cfg ws ar kind event_status texts io w =
     (if \<not> oc_write_journal cfg then (SPG_OK, w)
      else (case ow_journal w of
              None \<Rightarrow> (SPG_E_INVALID_ARG, w)
            | Some jw \<Rightarrow>
                (let cap = ob_policy_payload_capacity ws;
                     wr = foldl (\<lambda>wr t. fst (spg_sexpr_writer_append_text wr t))
                            (spg_sexpr_writer_init cap (replicate cap ch_nul)) texts
                 in case spg_journal_writer_append jw (oc_timestamp_ns cfg) (tick_parent cfg ar) kind
                           (event_status (wr_truncated wr)) (bytes_of (take (wr_used wr) (wr_buffer wr))) io of
                      (st, jw', _) \<Rightarrow> (st, w\<lparr>ow_journal := Some jw'\<rparr>))))"

definition journal_finish ::
  "orch_config \<Rightarrow> orch_workspace \<Rightarrow> actor_result \<Rightarrow> write_outcome \<Rightarrow> orch_world \<Rightarrow> spg_status \<times> orch_world" where
  "journal_finish cfg ws ar = tick_record cfg ws ar EVENT_RESULT (\<lambda>_. SPG_OK) [''(finish)'']"

definition journal_recommendation_rejected ::
  "orch_config \<Rightarrow> orch_workspace \<Rightarrow> actor_result \<Rightarrow> reject_reason \<Rightarrow> write_outcome \<Rightarrow> orch_world \<Rightarrow>
     spg_status \<times> orch_world" where
  "journal_recommendation_rejected cfg ws ar reason =
     tick_record cfg ws ar EVENT_ERROR (\<lambda>truncated. if truncated then SPG_E_LIMIT else SPG_E_SCHEMA)
       [''(recommendation_rejected (reason '', spg_recommendation_reject_reason_to_string reason, ''))'']"

section \<open>The gate\<close>

definition gate_view :: "orch_env \<Rightarrow> orch_world \<Rightarrow> string \<Rightarrow> gate_state" where
  "gate_view env w output =
     \<lparr>gs_policy_text = oe_policy_text env, gs_recommendation_text = output, gs_policy = oe_policy env,
      gs_usage = ow_usage w, gs_journal = ow_journal w, gs_graph = ow_graph w, gs_profile = oe_profile env,
      gs_machine = ow_machine w, gs_device = ow_device w\<rparr>"

definition gate_config_of :: "orch_config \<Rightarrow> actor_result \<Rightarrow> gate_config" where
  "gate_config_of cfg ar =
     \<lparr>gc_actor_id = oc_actor_id cfg, gc_timestamp_ns = oc_timestamp_ns cfg,
      gc_parent_sequence = tick_parent cfg ar, gc_write_journal = oc_write_journal cfg,
      gc_update_graph_on_deny = oc_update_graph cfg,
      gc_has_recommendation_node = (at_recommendation_node ar \<noteq> None),
      gc_recommendation_node = (case at_recommendation_node ar of None \<Rightarrow> mk_handle 0 0 | Some n \<Rightarrow> n)\<rparr>"

definition exec_parent :: "orch_config \<Rightarrow> actor_result \<Rightarrow> gate_result \<Rightarrow> u64" where
  "exec_parent cfg ar gres =
     (if go_policy_sequence gres \<noteq> 0 then go_policy_sequence gres else tick_parent cfg ar)"

section \<open>The executors\<close>

type_synonym exec_out = "spg_status \<times> orch_world \<times> tick_result"

definition exec_memory ::
  "orch_env \<Rightarrow> orch_config \<Rightarrow> orch_workspace \<Rightarrow> file_io \<Rightarrow> write_outcome \<Rightarrow> u64 \<Rightarrow> string \<Rightarrow> recommendation \<Rightarrow>
     policy_decision \<Rightarrow> orch_world \<Rightarrow> tick_result \<Rightarrow> exec_out" where
  "exec_memory env cfg ws fio io parent output rec decision w r =
     (case ow_store w of
        None \<Rightarrow> (SPG_E_INVALID_ARG, w, r)
      | Some store \<Rightarrow>
          (case spg_mem_executor_step (oe_readdir env) fio
                  \<lparr>mg_actor_id = oc_actor_id cfg, mg_timestamp_ns = oc_timestamp_ns cfg,
                   mg_parent_sequence = parent, mg_write_journal = oc_write_journal cfg\<rparr>
                  (ob_sim_payload_capacity ws)
                  (case ob_observation_capacity ws of None \<Rightarrow> 0 | Some n \<Rightarrow> n)
                  output rec decision io
                  \<lparr>mw_store = store, mw_journal = ow_journal w, mw_recall = ow_observation w\<rparr> of
             (st, s, out) \<Rightarrow>
               (st, w\<lparr>ow_store := Some (mw_store s), ow_journal := mw_journal s, ow_observation := mw_recall s\<rparr>,
                if st = SPG_OK then r\<lparr>ot_memory := out, ot_stage := STAGE_MEMORY_EXECUTED\<rparr>
                else r\<lparr>ot_memory := out\<rparr>)))"

definition exec_device ::
  "orch_env \<Rightarrow> orch_config \<Rightarrow> write_outcome \<Rightarrow> u64 \<Rightarrow> string \<Rightarrow> recommendation \<Rightarrow> policy_decision \<Rightarrow>
     orch_world \<Rightarrow> tick_result \<Rightarrow> exec_out" where
  "exec_device env cfg io parent output rec decision w r =
     (case spg_device_executor_step (oe_os env)
             \<lparr>dx_actor_id = ucast (oc_actor_id cfg), dx_timestamp_ns = oc_timestamp_ns cfg,
              dx_parent_sequence = parent, dx_write_journal = oc_write_journal cfg,
              dx_execution_enabled = oc_execution_enabled cfg\<rparr>
             \<lparr>pl_device = ow_device w, pl_log = ow_log w, pl_journal = ow_journal w\<rparr> output rec decision io of
        (st, pl, out) \<Rightarrow>
          (st, w\<lparr>ow_device := pl_device pl, ow_log := pl_log pl, ow_journal := pl_journal pl\<rparr>,
           if st = SPG_OK then r\<lparr>ot_device := Some out, ot_stage := STAGE_DEVICE_EXECUTED\<rparr>
           else r\<lparr>ot_device := Some out\<rparr>))"

definition exec_machine ::
  "orch_env \<Rightarrow> orch_config \<Rightarrow> orch_workspace \<Rightarrow> write_outcome \<Rightarrow> u64 \<Rightarrow> string \<Rightarrow> recommendation \<Rightarrow>
     orch_world \<Rightarrow> tick_result \<Rightarrow> exec_out" where
  "exec_machine env cfg ws io parent output rec w r =
     (case target_text output rec of
        None \<Rightarrow> (SPG_E_SCHEMA, w, r)
      | Some target \<Rightarrow>
          (case spg_machine_executor_step (oe_kernel env)
                  \<lparr>mx_actor_id = oc_actor_id cfg, mx_timestamp_ns = oc_timestamp_ns cfg,
                   mx_parent_sequence = parent, mx_write_journal = oc_write_journal cfg,
                   mx_execution_enabled = oc_execution_enabled cfg\<rparr>
                  (ow_machine w) (rm_action_kind rec) target (ob_sim_payload_capacity ws) io
                  \<lparr>xw_events = ow_events w, xw_ledger = ow_ledger w, xw_journal = ow_journal w\<rparr> of
             (st, xw, out) \<Rightarrow>
               (st, w\<lparr>ow_events := xw_events xw, ow_ledger := xw_ledger xw, ow_journal := xw_journal xw\<rparr>,
                if st = SPG_OK then r\<lparr>ot_machine := out, ot_stage := STAGE_MACHINE_EXECUTED\<rparr>
                else r\<lparr>ot_machine := out\<rparr>)))"

definition exec_shell ::
  "orch_env \<Rightarrow> orch_config \<Rightarrow> orch_workspace \<Rightarrow> write_outcome \<Rightarrow> u64 \<Rightarrow> string \<Rightarrow> recommendation \<Rightarrow>
     policy_decision \<Rightarrow> orch_world \<Rightarrow> tick_result \<Rightarrow> exec_out" where
  "exec_shell env cfg ws io parent output rec decision w r =
     (case (ob_observation_capacity ws, ob_shell_stdout_capacity ws, ob_shell_stderr_capacity ws) of
        (Some obs, Some out_cap, Some err_cap) \<Rightarrow>
          (case spg_shell_executor_step (oe_realpath env) (oe_os env)
                  \<lparr>sx_actor_id = oc_actor_id cfg, sx_timestamp_ns = oc_timestamp_ns cfg,
                   sx_parent_sequence = parent, sx_write_journal = oc_write_journal cfg,
                   sx_execution_enabled = oc_execution_enabled cfg,
                   sx_working_dir = oc_exec_working_dir cfg,
                   sx_allowed_workdir_prefix = oc_exec_workdir_prefix cfg,
                   sx_timeout_ms = oc_exec_timeout_ms cfg, sx_max_stdout_bytes = oc_exec_stdout_cap cfg,
                   sx_max_stderr_bytes = oc_exec_stderr_cap cfg\<rparr>
                  \<lparr>sk_payload_capacity = ob_sim_payload_capacity ws, sk_observation_capacity = obs,
                   sk_stdout_capacity = out_cap, sk_stderr_capacity = err_cap\<rparr>
                  \<lparr>sh_log = ow_log w, sh_journal = ow_journal w, sh_observation = ow_observation w\<rparr>
                  output rec decision io of
             (st, sh, out) \<Rightarrow>
               (st, w\<lparr>ow_log := sh_log sh, ow_journal := sh_journal sh, ow_observation := sh_observation sh\<rparr>,
                if st = SPG_OK then r\<lparr>ot_shell := Some out, ot_stage := STAGE_SHELL_EXECUTED\<rparr>
                else r\<lparr>ot_shell := Some out\<rparr>))
      | _ \<Rightarrow> (SPG_E_INVALID_ARG, w, r))"

definition sim_observation :: "sim_result \<Rightarrow> string" where
  "sim_observation sr = concat (sim_texts (sz_choice sr) (sz_risk_before sr) (sz_risk_after sr))"

definition exec_sim ::
  "orch_config \<Rightarrow> orch_workspace \<Rightarrow> (nat \<Rightarrow> write_outcome) \<Rightarrow> u64 \<Rightarrow> actor_result \<Rightarrow> recommendation \<Rightarrow>
     policy_decision \<Rightarrow> orch_world \<Rightarrow> tick_result \<Rightarrow> exec_out" where
  "exec_sim cfg ws io parent ar rec decision w r =
     (case ow_sim w of
        None \<Rightarrow> (SPG_E_INVALID_ARG, w, r)
      | Some sim \<Rightarrow>
          (case spg_sim_executor_step
                  \<lparr>ss_sim = sim, ss_journal = ow_journal w, ss_graph = ow_graph w, ss_memory = ow_memory w\<rparr>
                  \<lparr>sg_actor_id = oc_actor_id cfg, sg_timestamp_ns = oc_timestamp_ns cfg,
                   sg_parent_sequence = parent, sg_write_journal = oc_write_journal cfg,
                   sg_update_graph = oc_update_graph cfg, sg_update_memory = oc_update_memory cfg,
                   sg_recommendation_node = at_recommendation_node ar\<rparr>
                  rec decision (ob_sim_payload_capacity ws) (io 5) (io 6) (io 7) of
             (st, s, out) \<Rightarrow>
               (let w' = w\<lparr>ow_sim := Some (ss_sim s), ow_journal := ss_journal s, ow_graph := ss_graph s,
                          ow_memory := ss_memory s\<rparr>
                in if st \<noteq> SPG_OK then (st, w', r\<lparr>ot_sim := out\<rparr>)
                   else (SPG_OK,
                         (case (ob_observation_capacity ws, out) of
                            (Some cap, Some sr) \<Rightarrow>
                              if cap = 0 then w' else w'\<lparr>ow_observation := take (cap - 1) (sim_observation sr)\<rparr>
                          | _ \<Rightarrow> w'),
                         r\<lparr>ot_sim := out, ot_stage := STAGE_SIM_EXECUTED\<rparr>))))"

definition dispatch ::
  "orch_env \<Rightarrow> orch_config \<Rightarrow> orch_workspace \<Rightarrow> file_io \<Rightarrow> (nat \<Rightarrow> write_outcome) \<Rightarrow> u64 \<Rightarrow> actor_result \<Rightarrow>
     recommendation \<Rightarrow> policy_decision \<Rightarrow> orch_world \<Rightarrow> tick_result \<Rightarrow> exec_out" where
  "dispatch env cfg ws fio io parent ar rec decision w r =
     (if is_memory_action (rm_action_kind rec)
        then exec_memory env cfg ws fio (io 5) parent (at_model_output ar) rec decision w r
      else if rm_action_kind rec = ACTION_DEVICE_WRITE
        then exec_device env cfg (io 5) parent (at_model_output ar) rec decision w r
      else if rm_action_kind rec = ACTION_MACHINE_PAUSE \<or> rm_action_kind rec = ACTION_MACHINE_RESUME
        then exec_machine env cfg ws (io 5) parent (at_model_output ar) rec w r
      else if rm_action_kind rec = ACTION_LOCAL_SHELL
        then exec_shell env cfg ws (io 5) parent (at_model_output ar) rec decision w r
      else if rm_action_kind rec \<noteq> ACTION_SIMULATOR then (SPG_OK, w, r)
      else exec_sim cfg ws io parent ar rec decision w r)"

section \<open>The tick\<close>

definition tick_args_ok :: "orch_env \<Rightarrow> orch_config \<Rightarrow> orch_workspace \<Rightarrow> orch_world \<Rightarrow> bool" where
  "tick_args_ok env cfg ws w \<longleftrightarrow>
     ob_policy_payload_capacity ws > 0 \<and> ob_sim_payload_capacity ws > 0 \<and> ob_token_capacity ws > 0 \<and>
     ob_node_capacity ws > 0 \<and> oe_policy_text env \<noteq> [] \<and>
     \<not> (oc_write_journal cfg \<and> ow_journal w = None) \<and> \<not> (oc_update_graph cfg \<and> ow_graph w = None) \<and>
     \<not> (oc_update_memory cfg \<and> ow_memory w = None)"

definition start_tick :: "orch_stage \<Rightarrow> actor_result \<Rightarrow> tick_result" where
  "start_tick stage ar = \<lparr>ot_stage = stage, ot_actor = ar, ot_recommendation = None, ot_gate = None,
     ot_sim = None, ot_memory = None, ot_shell = None, ot_machine = None, ot_device = None\<rparr>"

definition gate_and_execute ::
  "orch_env \<Rightarrow> orch_config \<Rightarrow> orch_workspace \<Rightarrow> file_io \<Rightarrow> (nat \<Rightarrow> write_outcome) \<Rightarrow> actor_result \<Rightarrow>
     recommendation \<Rightarrow> orch_world \<Rightarrow> tick_result \<Rightarrow> exec_out" where
  "gate_and_execute env cfg ws fio io ar rec w r =
     (case spg_policy_gate_step (gate_view env w (at_model_output ar)) (gate_config_of cfg ar) rec
             (ob_policy_payload_capacity ws) (io 4) of
        (st, gs, None) \<Rightarrow> (st, w\<lparr>ow_journal := gs_journal gs, ow_graph := gs_graph gs\<rparr>, r)
      | (st, gs, Some gres) \<Rightarrow>
          (let w = w\<lparr>ow_journal := gs_journal gs, ow_graph := gs_graph gs\<rparr>;
               r = r\<lparr>ot_gate := Some gres\<rparr>
           in if st \<noteq> SPG_OK then (st, w, r)
              else (let r = r\<lparr>ot_stage := STAGE_POLICY_GATED\<rparr>
                    in if dc_kind (go_decision gres) \<noteq> DECISION_ALLOW then (SPG_OK, w, r)
                       else dispatch env cfg ws fio io (exec_parent cfg ar gres) ar rec (go_decision gres) w r)))"

definition spg_orchestrator_tick ::
  "orch_env \<Rightarrow> orch_config \<Rightarrow> orch_workspace \<Rightarrow> file_io \<Rightarrow> (nat \<Rightarrow> write_outcome) \<Rightarrow> orch_world \<Rightarrow>
     spg_status \<times> orch_world \<times> tick_result option" where
  "spg_orchestrator_tick env cfg ws fio io w =
     (if \<not> tick_args_ok env cfg ws w then (SPG_E_INVALID_ARG, w, None)
      else (case run_actor env cfg ws io w of
        (st, w, ar) \<Rightarrow>
          if st \<noteq> SPG_OK then (st, w, Some (start_tick STAGE_NOT_STARTED ar))
          else (case spg_recommendation_parse (at_model_output ar) (ob_token_capacity ws) (ob_node_capacity ws) of
            (st, rec, _) \<Rightarrow>
              let r = (start_tick STAGE_ACTOR_DONE ar)\<lparr>ot_recommendation := Some rec\<rparr>
              in if st \<noteq> SPG_OK then (st, w, Some r)
                 else if rm_state rec \<noteq> RECOMMENDATION_VALID
                   then (case journal_recommendation_rejected cfg ws ar (rm_reject_reason rec) (io 4) w of
                           (st, w') \<Rightarrow> (st, w', Some (r\<lparr>ot_stage := STAGE_RECOMMENDATION_REJECTED\<rparr>)))
                 else if rm_action_kind rec = ACTION_FINISH
                   then (case journal_finish cfg ws ar (io 4) w of
                           (st, w') \<Rightarrow> (st, w', Some (r\<lparr>ot_stage := STAGE_FINISHED\<rparr>)))
                 else (case gate_and_execute env cfg ws fio io ar rec w r of
                         (st, w', r') \<Rightarrow> (st, w', Some r')))))"

end
