(* ===== verification/OrchProps.thy ===== *)
theory OrchProps
  imports Orchestrator RecommendationProps
begin

text \<open>
  Complete mediation by the orchestrator: what a tick changes outside its own records, it changes
  through the one executor of the recommended action, and only after the policy gate granted that
  recommendation. And what the stage of a tick says about it.
\<close>

section \<open>What a tick can change\<close>

text \<open>The world beyond the run's own records: the network, the memories, the plant, the processes.\<close>

definition effects ::
  "orch_world \<Rightarrow> sim_config option \<times> mem_dir option \<times> device option \<times> spawn list \<times> sys_event list \<times>
     pause_ledger option" where
  "effects w = (ow_sim w, map_option ms_files (ow_store w), ow_device w, ow_log w, ow_events w, ow_ledger w)"

text \<open>A change that only the executor of one kind of action makes.\<close>

definition confined :: "action_kind \<Rightarrow> orch_world \<Rightarrow> orch_world \<Rightarrow> bool" where
  "confined kind w w' \<longleftrightarrow>
     (kind = ACTION_SIMULATOR \<or> ow_sim w' = ow_sim w) \<and>
     (is_memory_action kind \<or> map_option ms_files (ow_store w') = map_option ms_files (ow_store w)) \<and>
     (kind = ACTION_DEVICE_WRITE \<or> ow_device w' = ow_device w) \<and>
     (kind = ACTION_DEVICE_WRITE \<or> kind = ACTION_LOCAL_SHELL \<or> ow_log w' = ow_log w) \<and>
     (kind = ACTION_MACHINE_PAUSE \<or> kind = ACTION_MACHINE_RESUME \<or>
        ow_events w' = ow_events w \<and> ow_ledger w' = ow_ledger w)"

text \<open>What the gate looks at besides the texts.\<close>

definition consulted :: "orch_world \<Rightarrow> policy_usage \<times> machine_state option" where
  "consulted w = (ow_usage w, ow_machine w)"

lemma effects_confined: "effects w' = effects w \<Longrightarrow> confined kind w w'"
  by (simp add: effects_def confined_def)

lemma confined_from: "effects w1 = effects w \<Longrightarrow> confined kind w1 w' \<Longrightarrow> confined kind w w'"
  by (simp add: effects_def confined_def)

lemma index_files [frame]:
  "spg_mem_index rd cap store = (st, store', out) \<Longrightarrow> ms_files store' = ms_files store"
  by (auto simp: spg_mem_index_def rebuild_index_cache_def Let_def split: if_splits)

lemma refresh_effects:
  "refresh_index env ws w = (w', index) \<Longrightarrow> effects w' = effects w \<and> consulted w' = consulted w"
  by (auto simp: refresh_index_def effects_def consulted_def frame split: option.splits if_splits prod.splits)

lemma run_actor_effects:
  assumes "run_actor env cfg ws io w = (st, w', ar)"
  shows "effects w' = effects w \<and> consulted w' = consulted w"
proof -
  obtain w1 index where r: "refresh_index env ws w = (w1, index)" by fastforce
  then have "effects w' = effects w1 \<and> consulted w' = consulted w1"
    using assms by (auto simp: run_actor_def effects_def consulted_def split: prod.splits)
  then show ?thesis using refresh_effects [OF r] by simp
qed

lemma tick_record_effects:
  "tick_record cfg ws ar kind es texts io w = (st, w') \<Longrightarrow> effects w' = effects w"
  by (auto simp: tick_record_def effects_def Let_def split: if_splits option.splits prod.splits)

lemma dispatch_confined:
  assumes "dispatch env cfg ws fio io parent ar rec decision w r = (st, w', r')"
  shows "confined (rm_action_kind rec) w w'"
proof -
  have m: "confined (rm_action_kind rec) w (fst (snd (exec_memory env cfg ws fio (io 5) parent (at_model_output ar) rec decision w r)))"
    if "is_memory_action (rm_action_kind rec)"
    using that by (auto simp: exec_memory_def confined_def is_memory_action_def split: option.split prod.split)
  have d: "confined ACTION_DEVICE_WRITE w (fst (snd (exec_device env cfg (io 5) parent (at_model_output ar) rec decision w r)))"
    by (auto simp: exec_device_def confined_def split: prod.split)
  have x: "confined (rm_action_kind rec) w (fst (snd (exec_machine env cfg ws (io 5) parent (at_model_output ar) rec w r)))"
    if "rm_action_kind rec = ACTION_MACHINE_PAUSE \<or> rm_action_kind rec = ACTION_MACHINE_RESUME"
    using that by (auto simp: exec_machine_def confined_def split: option.split prod.split)
  have s: "confined ACTION_LOCAL_SHELL w (fst (snd (exec_shell env cfg ws (io 5) parent (at_model_output ar) rec decision w r)))"
    by (auto simp: exec_shell_def confined_def split: option.split prod.split)
  have z: "confined ACTION_SIMULATOR w (fst (snd (exec_sim cfg ws io parent ar rec decision w r)))"
    by (auto simp: exec_sim_def confined_def Let_def split: option.split prod.split)
  have "confined (rm_action_kind rec) w (fst (snd (dispatch env cfg ws fio io parent ar rec decision w r)))"
    using m d x s z by (auto simp: dispatch_def effects_confined)
  then show ?thesis by (simp add: assms)
qed

text \<open>The gate's answer does not depend on the journal and the graph it writes to.\<close>

lemma gate_grants_view:
  assumes "effects w1 = effects w" "consulted w1 = consulted w"
  shows "gate_grants (gate_view env w1 output) rec i \<longleftrightarrow> gate_grants (gate_view env w output) rec i"
proof -
  have "device_target_uses_network (gate_view env w1 output) rec = device_target_uses_network (gate_view env w output) rec"
    using assms by (cases "ow_device w") (simp_all add: device_target_uses_network_def gate_view_def effects_def)
  then show ?thesis using assms
    by (simp add: gate_grants_def machine_permitted_def consulted_def Let_def) (simp add: gate_view_def)
qed

lemma gate_decision_allow: "dc_kind (gate_decision gs rec) = DECISION_ALLOW \<Longrightarrow> \<exists>i. gate_decision gs rec = allow i"
  using decide_allow_index by (fastforce simp: gate_decision_def split: if_splits option.splits)

lemma gate_execute_spec:
  assumes "gate_and_execute env cfg ws fio io ar rec w r = (st, w', r')"
    and "length (pc_capabilities (oe_policy env)) \<le> POLICY_MAX_CAPABILITIES"
  shows "effects w' = effects w \<or>
    (\<exists>i. gate_grants (gate_view env w (at_model_output ar)) rec i) \<and> confined (rm_action_kind rec) w w'"
proof -
  obtain st1 gs out where g: "spg_policy_gate_step (gate_view env w (at_model_output ar)) (gate_config_of cfg ar) rec
      (ob_policy_payload_capacity ws) (io 4) = (st1, gs, out)" by (rule prod_cases3)
  let ?w = "w\<lparr>ow_journal := gs_journal gs, ow_graph := gs_graph gs\<rparr>"
  have same: "effects ?w = effects w" by (simp add: effects_def)
  show ?thesis
  proof (cases "\<exists>gres. out = Some gres \<and> st1 = SPG_OK \<and> dc_kind (go_decision gres) = DECISION_ALLOW")
    case False
    then have "w' = ?w" using assms(1) g
      by (auto simp: gate_and_execute_def Let_def split: option.splits if_splits)
    then show ?thesis using same by simp
  next
    case True
    then obtain gres where gres: "out = Some gres" "st1 = SPG_OK" "dc_kind (go_decision gres) = DECISION_ALLOW" by blast
    have d: "go_decision gres = gate_decision (gate_view env w (at_model_output ar)) rec"
      using gate_step_decision g gres by blast
    obtain i where i: "gate_decision (gate_view env w (at_model_output ar)) rec = allow i"
      using gate_decision_allow [OF gres(3) [unfolded d]] by blast
    then have "gate_grants (gate_view env w (at_model_output ar)) rec i"
      using gate_decision_iff [of "gate_view env w (at_model_output ar)" rec i] assms(2) by (simp add: gate_view_def)
    moreover have "\<exists>r1 r2. dispatch env cfg ws fio io (exec_parent cfg ar gres) ar rec (go_decision gres) ?w r1 = (st, w', r2)"
      using assms(1) g gres by (auto simp: gate_and_execute_def Let_def)
    then have "confined (rm_action_kind rec) ?w w'" using dispatch_confined by blast
    ultimately show ?thesis using confined_from [OF same] by blast
  qed
qed

section \<open>Complete mediation\<close>

text \<open>The recommendation in a result is what the parser made of the model's output.\<close>

definition parsed :: "orch_workspace \<Rightarrow> tick_result \<Rightarrow> recommendation \<Rightarrow> bool" where
  "parsed ws r rec \<longleftrightarrow> ot_recommendation r = Some rec \<and>
     fst (snd (spg_recommendation_parse (at_model_output (ot_actor r)) (ob_token_capacity ws) (ob_node_capacity ws))) = rec"

lemma parse_request_kind:
  assumes "spg_recommendation_parse input tcap ncap = (st, rec, e)" "rm_state rec = RECOMMENDATION_VALID"
  shows "rq_kind (rm_action rec) = rm_action_kind rec"
proof -
  obtain s toks nodes err where p: "spg_sexpr_parse_text input tcap ncap = (s, toks, nodes, err)"
    by (metis prod_cases4)
  have "parse_form input nodes = (st, rec, e)"
    using assms p by (auto simp: spg_recommendation_parse_def reject_def rejected_def split: if_splits)
  from parse_form_reject [OF this assms(2)] show ?thesis by (auto simp: with_action_def)
qed

lemma parsed_request_kind:
  assumes "parsed ws r rec" "rm_state rec = RECOMMENDATION_VALID"
  shows "rq_kind (rm_action rec) = rm_action_kind rec"
proof -
  let ?p = "spg_recommendation_parse (at_model_output (ot_actor r)) (ob_token_capacity ws) (ob_node_capacity ws)"
  have "fst (snd ?p) = rec" using assms(1) by (simp add: parsed_def)
  then have "?p = (fst ?p, rec, snd (snd ?p))" by (metis prod.collapse)
  then show ?thesis using assms(2) by (rule parse_request_kind)
qed

definition keeps_head :: "tick_result \<Rightarrow> tick_result \<Rightarrow> bool" where
  "keeps_head r r' \<longleftrightarrow> ot_actor r' = ot_actor r \<and> ot_recommendation r' = ot_recommendation r"

lemma dispatch_head:
  "dispatch env cfg ws fio io parent ar rec decision w r = (st, w', r') \<Longrightarrow> keeps_head r r'"
  unfolding dispatch_def exec_memory_def exec_device_def exec_machine_def exec_shell_def exec_sim_def Let_def
  by (simp add: keeps_head_def split: if_splits option.splits prod.splits) auto

lemma gate_execute_head:
  "gate_and_execute env cfg ws fio io ar rec w r = (st, w', r') \<Longrightarrow> keeps_head r r'"
  by (auto simp: gate_and_execute_def Let_def split: prod.splits option.splits if_splits dest: dispatch_head)
     (auto simp: keeps_head_def dest: dispatch_head [unfolded keeps_head_def])

text \<open>A tick either stops before the gate, with the world as it was, or goes through it.\<close>

lemma tick_cases:
  assumes "spg_orchestrator_tick env cfg ws fio io w = (st, w', Some r)"
  shows "effects w' = effects w \<and> stage_rank (ot_stage r) < stage_rank STAGE_POLICY_GATED \<or>
    (\<exists>w1 rec r0. effects w1 = effects w \<and> consulted w1 = consulted w \<and> parsed ws r rec \<and>
       rm_state rec = RECOMMENDATION_VALID \<and> ot_stage r0 = STAGE_ACTOR_DONE \<and>
       gate_and_execute env cfg ws fio io (ot_actor r) rec w1 r0 = (st, w', r))"
proof -
  have args: "tick_args_ok env cfg ws w" using assms by (auto simp: spg_orchestrator_tick_def split: if_splits)
  obtain st1 w1 ar where a: "run_actor env cfg ws io w = (st1, w1, ar)" by (rule prod_cases3)
  note eff = run_actor_effects [OF a]
  obtain st2 rec e where p: "spg_recommendation_parse (at_model_output ar) (ob_token_capacity ws) (ob_node_capacity ws) =
      (st2, rec, e)" by (rule prod_cases3)
  let ?r = "(start_tick STAGE_ACTOR_DONE ar)\<lparr>ot_recommendation := Some rec\<rparr>"
  consider "st1 \<noteq> SPG_OK" | "st1 = SPG_OK" "st2 \<noteq> SPG_OK"
    | "st1 = SPG_OK" "st2 = SPG_OK" "rm_state rec \<noteq> RECOMMENDATION_VALID"
    | "st1 = SPG_OK" "st2 = SPG_OK" "rm_state rec = RECOMMENDATION_VALID" "rm_action_kind rec = ACTION_FINISH"
    | "st1 = SPG_OK" "st2 = SPG_OK" "rm_state rec = RECOMMENDATION_VALID" "rm_action_kind rec \<noteq> ACTION_FINISH"
    by blast
  then show ?thesis
  proof cases
    case 1
    then show ?thesis using assms args a eff by (auto simp: spg_orchestrator_tick_def start_tick_def)
  next
    case 2
    then show ?thesis using assms args a p eff by (auto simp: spg_orchestrator_tick_def start_tick_def)
  next
    case 3
    then show ?thesis using assms args a p eff
      by (auto simp: spg_orchestrator_tick_def start_tick_def journal_recommendation_rejected_def
          dest!: tick_record_effects split: prod.splits)
  next
    case 4
    then show ?thesis using assms args a p eff
      by (auto simp: spg_orchestrator_tick_def start_tick_def journal_finish_def
          dest!: tick_record_effects split: prod.splits)
  next
    case 5
    then have g: "gate_and_execute env cfg ws fio io ar rec w1 ?r = (st, w', r)"
      using assms args a p by (auto simp: spg_orchestrator_tick_def split: prod.splits)
    from gate_execute_head [OF this] have "ot_actor r = ar" "ot_recommendation r = Some rec"
      by (simp_all add: keeps_head_def start_tick_def)
    then show ?thesis using g eff p 5(3) by (auto simp: parsed_def start_tick_def)
  qed
qed

text \<open>
  C3: Complete mediation: whatever the model says and whatever fails, a tick leaves the simulated
  network, the files of the memory, the plant, the programs run and the processes exactly as they
  were, or the gate granted the very recommendation the parser read from the model's output (the
  grant evaluated on the world before the tick) and only what the executor of that kind of
  action owns has changed.
\<close>

theorem orchestrator_mediated:
  assumes "spg_orchestrator_tick env cfg ws fio io w = (st, w', Some r)"
    and "length (pc_capabilities (oe_policy env)) \<le> POLICY_MAX_CAPABILITIES"
  shows "effects w' = effects w \<or>
    (\<exists>rec i. parsed ws r rec \<and> rm_state rec = RECOMMENDATION_VALID \<and>
       gate_grants (gate_view env w (at_model_output (ot_actor r))) rec i \<and>
       confined (rm_action_kind rec) w w')"
  using tick_cases [OF assms(1)]
proof (elim disjE)
  assume "\<exists>w1 rec r0. effects w1 = effects w \<and> consulted w1 = consulted w \<and> parsed ws r rec \<and>
       rm_state rec = RECOMMENDATION_VALID \<and> ot_stage r0 = STAGE_ACTOR_DONE \<and>
       gate_and_execute env cfg ws fio io (ot_actor r) rec w1 r0 = (st, w', r)"
  then obtain w1 rec r0 where w1: "effects w1 = effects w" "consulted w1 = consulted w" "parsed ws r rec"
    "rm_state rec = RECOMMENDATION_VALID" "gate_and_execute env cfg ws fio io (ot_actor r) rec w1 r0 = (st, w', r)"
    by blast
  from gate_execute_spec [OF w1(5) assms(2)] show ?thesis
    using w1(1,3,4) gate_grants_view [OF w1(1,2)] confined_from [OF w1(1)] by auto
qed simp

section \<open>What the stage says\<close>

definition stage_kinds :: "orch_stage \<Rightarrow> action_kind set" where
  "stage_kinds stage =
     (case stage of
        STAGE_SIM_EXECUTED \<Rightarrow> {ACTION_SIMULATOR}
      | STAGE_MEMORY_EXECUTED \<Rightarrow> {ACTION_MEMORY_SAVE, ACTION_MEMORY_DELETE, ACTION_MEMORY_READ}
      | STAGE_SHELL_EXECUTED \<Rightarrow> {ACTION_LOCAL_SHELL}
      | STAGE_MACHINE_EXECUTED \<Rightarrow> {ACTION_MACHINE_PAUSE, ACTION_MACHINE_RESUME}
      | STAGE_DEVICE_EXECUTED \<Rightarrow> {ACTION_DEVICE_WRITE}
      | _ \<Rightarrow> {})"

lemma exec_stages:
  "exec_memory env cfg ws fio io1 parent output rec decision w r = (st, w', r') \<Longrightarrow>
   ot_stage r' = ot_stage r \<or> ot_stage r' = STAGE_MEMORY_EXECUTED"
  "exec_device env cfg io1 parent output rec decision w r = (st, w', r') \<Longrightarrow>
   ot_stage r' = ot_stage r \<or> ot_stage r' = STAGE_DEVICE_EXECUTED"
  "exec_machine env cfg ws io1 parent output rec w r = (st, w', r') \<Longrightarrow>
   ot_stage r' = ot_stage r \<or> ot_stage r' = STAGE_MACHINE_EXECUTED"
  "exec_shell env cfg ws io1 parent output rec decision w r = (st, w', r') \<Longrightarrow>
   ot_stage r' = ot_stage r \<or> ot_stage r' = STAGE_SHELL_EXECUTED"
  "exec_sim cfg ws io parent ar rec decision w r = (st, w', r') \<Longrightarrow>
   ot_stage r' = ot_stage r \<or> ot_stage r' = STAGE_SIM_EXECUTED"
  by (simp_all add: exec_memory_def exec_device_def exec_machine_def exec_shell_def exec_sim_def Let_def
      split: option.splits prod.splits if_splits) auto

lemma dispatch_stage:
  assumes "dispatch env cfg ws fio io parent ar rec decision w r = (st, w', r')" "ot_stage r = STAGE_POLICY_GATED"
  shows "ot_stage r' = STAGE_POLICY_GATED \<or> rm_action_kind rec \<in> stage_kinds (ot_stage r')"
proof -
  consider "is_memory_action (rm_action_kind rec)" | "rm_action_kind rec = ACTION_DEVICE_WRITE"
    | "rm_action_kind rec = ACTION_MACHINE_PAUSE \<or> rm_action_kind rec = ACTION_MACHINE_RESUME"
    | "rm_action_kind rec = ACTION_LOCAL_SHELL" | "rm_action_kind rec = ACTION_SIMULATOR"
    | "\<not> is_memory_action (rm_action_kind rec)" "rm_action_kind rec \<noteq> ACTION_DEVICE_WRITE"
      "rm_action_kind rec \<noteq> ACTION_MACHINE_PAUSE" "rm_action_kind rec \<noteq> ACTION_MACHINE_RESUME"
      "rm_action_kind rec \<noteq> ACTION_LOCAL_SHELL" "rm_action_kind rec \<noteq> ACTION_SIMULATOR"
    by blast
  then show ?thesis
  proof cases
    case 1
    then have "ot_stage r' = ot_stage r \<or> ot_stage r' = STAGE_MEMORY_EXECUTED"
      using assms(1) by (intro exec_stages(1)) (auto simp: dispatch_def)
    then show ?thesis using 1 assms(2) by (auto simp: stage_kinds_def is_memory_action_def)
  next
    case 2
    then have "ot_stage r' = ot_stage r \<or> ot_stage r' = STAGE_DEVICE_EXECUTED"
      using assms(1) by (intro exec_stages(2)) (auto simp: dispatch_def is_memory_action_def)
    then show ?thesis using 2 assms(2) by (auto simp: stage_kinds_def)
  next
    case 3
    then have "ot_stage r' = ot_stage r \<or> ot_stage r' = STAGE_MACHINE_EXECUTED"
      using assms(1) by (intro exec_stages(3)) (auto simp: dispatch_def is_memory_action_def)
    then show ?thesis using 3 assms(2) by (auto simp: stage_kinds_def)
  next
    case 4
    then have "ot_stage r' = ot_stage r \<or> ot_stage r' = STAGE_SHELL_EXECUTED"
      using assms(1) by (intro exec_stages(4)) (auto simp: dispatch_def is_memory_action_def)
    then show ?thesis using 4 assms(2) by (auto simp: stage_kinds_def)
  next
    case 5
    then have "ot_stage r' = ot_stage r \<or> ot_stage r' = STAGE_SIM_EXECUTED"
      using assms(1) by (intro exec_stages(5)) (auto simp: dispatch_def is_memory_action_def)
    then show ?thesis using 5 assms(2) by (auto simp: stage_kinds_def)
  next
    case 6
    then show ?thesis using assms by (simp add: dispatch_def)
  qed
qed

lemma gate_execute_stage:
  assumes "gate_and_execute env cfg ws fio io ar rec w r = (st, w', r')" "ot_stage r = STAGE_ACTOR_DONE"
    and "length (pc_capabilities (oe_policy env)) \<le> POLICY_MAX_CAPABILITIES"
    and "stage_rank (ot_stage r') > stage_rank STAGE_POLICY_GATED"
  shows "rm_action_kind rec \<in> stage_kinds (ot_stage r') \<and>
    (\<exists>i. gate_grants (gate_view env w (at_model_output ar)) rec i)"
proof -
  obtain st1 gs out where g: "spg_policy_gate_step (gate_view env w (at_model_output ar)) (gate_config_of cfg ar) rec
      (ob_policy_payload_capacity ws) (io 4) = (st1, gs, out)" by (rule prod_cases3)
  have gres: "\<exists>gres. out = Some gres \<and> st1 = SPG_OK \<and> dc_kind (go_decision gres) = DECISION_ALLOW"
    using assms(1,2,4) g by (auto simp: gate_and_execute_def Let_def split: option.splits if_splits)
  then obtain gres where gres: "out = Some gres" "st1 = SPG_OK" "dc_kind (go_decision gres) = DECISION_ALLOW" by blast
  have "go_decision gres = gate_decision (gate_view env w (at_model_output ar)) rec"
    using gate_step_decision g gres by blast
  then obtain i where "gate_decision (gate_view env w (at_model_output ar)) rec = allow i"
    using gate_decision_allow gres(3) by metis
  then have "gate_grants (gate_view env w (at_model_output ar)) rec i"
    using gate_decision_iff [of "gate_view env w (at_model_output ar)" rec i] assms(3) by (simp add: gate_view_def)
  moreover have "rm_action_kind rec \<in> stage_kinds (ot_stage r')"
    using assms(1,4) g gres by (auto simp: gate_and_execute_def Let_def dest!: dispatch_stage)
  ultimately show ?thesis by blast
qed

lemma tick_stage:
  assumes "spg_orchestrator_tick env cfg ws fio io w = (st, w', Some r)"
    and "length (pc_capabilities (oe_policy env)) \<le> POLICY_MAX_CAPABILITIES"
    and "stage_rank (ot_stage r) > stage_rank STAGE_POLICY_GATED"
  shows "\<exists>rec i. ot_recommendation r = Some rec \<and> rm_action_kind rec \<in> stage_kinds (ot_stage r) \<and>
    rq_kind (rm_action rec) = rm_action_kind rec \<and>
    gate_grants (gate_view env w (at_model_output (ot_actor r))) rec i"
  using tick_cases [OF assms(1)]
proof (elim disjE)
  assume "\<exists>w1 rec r0. effects w1 = effects w \<and> consulted w1 = consulted w \<and> parsed ws r rec \<and>
       rm_state rec = RECOMMENDATION_VALID \<and> ot_stage r0 = STAGE_ACTOR_DONE \<and>
       gate_and_execute env cfg ws fio io (ot_actor r) rec w1 r0 = (st, w', r)"
  then obtain w1 rec r0 where w1: "effects w1 = effects w" "consulted w1 = consulted w" "parsed ws r rec"
    "rm_state rec = RECOMMENDATION_VALID" "ot_stage r0 = STAGE_ACTOR_DONE"
    "gate_and_execute env cfg ws fio io (ot_actor r) rec w1 r0 = (st, w', r)"
    by blast
  from gate_execute_stage [OF w1(6,5) assms(2,3)] obtain i where
    "rm_action_kind rec \<in> stage_kinds (ot_stage r)" "gate_grants (gate_view env w1 (at_model_output (ot_actor r))) rec i"
    by blast
  moreover have "rq_kind (rm_action rec) = rm_action_kind rec" using parsed_request_kind [OF w1(3,4)] .
  moreover have "ot_recommendation r = Some rec" using w1(3) by (simp add: parsed_def)
  ultimately show ?thesis using gate_grants_view [OF w1(1,2)] by blast
qed (use assms(3) in simp)

section \<open>A tick of a scripted model\<close>

text \<open>The model finishes at once; nothing is recorded.\<close>

definition finish_env :: orch_env where
  "finish_env = \<lparr>oe_actor = (\<lambda>_ _. script_env\<lparr>ae_generate := (\<lambda>_. \<lparr>gz_status = SPG_OK, gz_output = finish_text,
       gz_tokens_decoded = 1, gz_output_truncated = False, gz_stopped_by_token_limit = False\<rparr>)\<rparr>),
     oe_realpath = Some, oe_os = (\<lambda>_ _. Child [] [] False (Exited 0)),
     oe_kernel = \<lparr>kn_self = 10, kn_parent = 9, kn_identity = \<lambda>_ _. Some 5, kn_alive = \<lambda>_ _. True,
       kn_kill = \<lambda>_ _ _. Kill_ok, kn_guard = \<lambda>_ _. 4\<rparr>,
     oe_readdir = map fst, oe_policy_text = ''p'', oe_policy = zero_policy_config, oe_profile = None\<rparr>"

definition finish_config :: orch_config where
  "finish_config = \<lparr>oc_actor_id = 1, oc_timestamp_ns = 1, oc_parent_sequence = 0, oc_max_decode_tokens = 8,
     oc_reset_model_session = True, oc_write_journal = False, oc_update_graph = False, oc_update_memory = False,
     oc_execution_enabled = False, oc_exec_working_dir = None, oc_exec_workdir_prefix = None,
     oc_exec_timeout_ms = 0, oc_exec_stdout_cap = 0, oc_exec_stderr_cap = 0\<rparr>"

definition finish_workspace :: orch_workspace where
  "finish_workspace = \<lparr>ob_token_capacity = 16, ob_node_capacity = 16, ob_policy_payload_capacity = 64,
     ob_sim_payload_capacity = 64, ob_observation_capacity = None, ob_shell_stdout_capacity = None,
     ob_shell_stderr_capacity = None, ob_memory_index_capacity = 0\<rparr>"

definition finish_world :: orch_world where
  "finish_world = \<lparr>ow_journal = None, ow_graph = None, ow_memory = None, ow_machine = None, ow_device = None,
     ow_sim = None, ow_store = None, ow_log = [], ow_events = [], ow_ledger = None,
     ow_usage = \<lparr>us_consumed = zero_budgets\<rparr>, ow_observation = []\<rparr>"

definition no_io :: "nat \<Rightarrow> write_outcome" where
  "no_io _ = \<lparr>io_header = 0, io_payload = 0, io_flush = False\<rparr>"

definition no_files :: file_io where
  "no_files = \<lparr>fi_opened = False, fi_written = False, fi_renamed = False, ix_opened = False, ix_bytes = 0,
     ix_closed = False, ix_renamed = False\<rparr>"

lemma finish_actor:
  "\<exists>ar. run_actor finish_env finish_config finish_workspace no_io finish_world = (SPG_OK, finish_world, ar) \<and>
     at_model_output ar = finish_text"
  by (simp add: run_actor_def refresh_index_def finish_env_def finish_config_def finish_workspace_def
      finish_world_def script_env_def spg_actor_step_def actor_args_ok_def actor_config_of_def actor_stages_def
      context_stage_def model_stage_def graph_stage_def memory_stage_def append_journal_def then_ok_def
      zero_actor_result_def)

lemma finish_tick:
  "\<exists>r. spg_orchestrator_tick finish_env finish_config finish_workspace no_files no_io finish_world
      = (SPG_OK, finish_world, Some r)"
proof -
  obtain ar where ar: "run_actor finish_env finish_config finish_workspace no_io finish_world = (SPG_OK, finish_world, ar)"
    "at_model_output ar = finish_text" using finish_actor by blast
  have caps: "ob_token_capacity finish_workspace = 16" "ob_node_capacity finish_workspace = 16"
    by (simp_all add: finish_workspace_def)
  have ok: "fst finish_result = SPG_OK" "rm_action_kind (fst (snd finish_result)) = ACTION_FINISH"
    by code_simp+
  have args: "tick_args_ok finish_env finish_config finish_workspace finish_world"
    by (simp add: tick_args_ok_def finish_env_def finish_config_def finish_workspace_def)
  have j: "journal_finish finish_config finish_workspace ar (no_io 4) finish_world = (SPG_OK, finish_world)"
    by (simp add: journal_finish_def tick_record_def finish_config_def)
  obtain rec e where f: "finish_result = (SPG_OK, rec, e)" using ok(1)
    by (metis prod.collapse)
  then have p: "spg_recommendation_parse finish_text 16 16 = (SPG_OK, rec, e)" using finish_eq by simp
  have rec: "rm_state rec = RECOMMENDATION_VALID" "rm_action_kind rec = ACTION_FINISH"
    using ok(2) finish_valid unfolding f by (simp_all only: fst_conv snd_conv)
  show ?thesis
    by (simp add: spg_orchestrator_tick_def args ar caps p rec j Let_def)
qed

theorem orchestrator_mediated_witness:
  "\<exists>st w' r. spg_orchestrator_tick finish_env finish_config finish_workspace no_files no_io finish_world
      = (st, w', Some r) \<and>
    (effects w' = effects finish_world \<or>
     (\<exists>rec i. parsed finish_workspace r rec \<and> rm_state rec = RECOMMENDATION_VALID \<and>
        gate_grants (gate_view finish_env finish_world (at_model_output (ot_actor r))) rec i \<and>
        confined (rm_action_kind rec) finish_world w'))"
proof -
  obtain r where r: "spg_orchestrator_tick finish_env finish_config finish_workspace no_files no_io finish_world
      = (SPG_OK, finish_world, Some r)" using finish_tick by blast
  have "length (pc_capabilities (oe_policy finish_env)) \<le> POLICY_MAX_CAPABILITIES"
    by (simp add: finish_env_def zero_policy_config_def)
  from orchestrator_mediated [OF r this] show ?thesis using r by blast
qed

end
