(* ===== verification/Telemetry.thy ===== *)
theory Telemetry
  imports ProcessProfile SexprWriter Device
begin

text \<open>
  Telemetry of the host, \<open>src/machine/telemetry.c\<close>: the parsers of the kernel's text files, the
  utilisation between two samples, the bounded history of snapshots, and the rendering of a
  snapshot and of the history into the context. A buffer with a position is the text that is
  left. An unknown value is the largest unsigned or the smallest signed one.
\<close>

definition MACHINE_UNKNOWN :: u64 where "MACHINE_UNKNOWN = UINT64_MAX"
definition MACHINE_UNKNOWN_S :: int where "MACHINE_UNKNOWN_S = - 9223372036854775808"
definition counter_max :: u64 where "counter_max = UINT64_MAX div 2"

section \<open>Scanning\<close>

definition tm_digit :: "char \<Rightarrow> bool" where
  "tm_digit c \<longleftrightarrow> 48 \<le> code_of c \<and> code_of c \<le> 57"

definition tm_space :: "char \<Rightarrow> bool" where
  "tm_space c \<longleftrightarrow> c = CHR '' '' \<or> c = ch_tab"

text \<open>\<open>None\<close> is overflow past \<open>counter_max\<close>; the flag says whether there were digits.\<close>

fun scan_digits :: "string \<Rightarrow> u64 \<Rightarrow> bool \<Rightarrow> (u64 \<times> bool \<times> string) option" where
  "scan_digits [] v any = Some (v, any, [])"
| "scan_digits (c # cs) v any =
     (if \<not> tm_digit c then Some (v, any, c # cs)
      else (let digit = of_nat (code_of c - 48)
            in if v > (counter_max - digit) div 10 then None else scan_digits cs (v * 10 + digit) True))"

definition tm_scan_u64 :: "string \<Rightarrow> (u64 \<times> string) option" where
  "tm_scan_u64 buf =
     (case scan_digits buf 0 False of
        Some (v, True, rest) \<Rightarrow> Some (v, rest) | _ \<Rightarrow> None)"

definition skip_spaces :: "string \<Rightarrow> string" where
  "skip_spaces buf = dropWhile tm_space buf"

text \<open>What follows the key at the first line that starts with it, empty when there is none.\<close>

definition next_line :: "string \<Rightarrow> string" where
  "next_line buf = tl (dropWhile (\<lambda>c. c \<noteq> ch_nl) buf)"

function find_line :: "string \<Rightarrow> string \<Rightarrow> string" where
  "find_line buf key =
     (if buf = [] then []
      else if take (length key) buf = key then drop (length key) buf
      else find_line (next_line buf) key)"
  by pat_completeness auto
termination
proof (relation "measure (\<lambda>(buf, _). length buf)", goal_cases)
  case (2 buf key)
  have "length (dropWhile (\<lambda>c. c \<noteq> ch_nl) buf) \<le> length buf" by (rule length_dropWhile_le)
  then show ?case using 2 by (cases buf) (auto simp: next_line_def)
qed simp

declare find_line.simps [simp del]

definition read_kb_field :: "string \<Rightarrow> string \<Rightarrow> u64 option" where
  "read_kb_field buf key =
     (let rest = find_line buf key in
      if rest = [] then None
      else (case tm_scan_u64 (skip_spaces rest) of
              None \<Rightarrow> None
            | Some (kb, _) \<Rightarrow> if kb > counter_max div 1024 then None else Some (kb * 1024)))"

section \<open>The kernel's files\<close>

lemma scan_digits_shorter:
  "scan_digits buf v any = Some (w, found, rest) \<Longrightarrow>
     length rest \<le> length buf \<and> (found \<longrightarrow> any \<or> length rest < length buf)"
  by (induction buf v any rule: scan_digits.induct) (auto simp: Let_def split: if_splits)

lemma tm_scan_u64_shorter: "tm_scan_u64 buf = Some (v, rest) \<Longrightarrow> length rest < length buf"
  using scan_digits_shorter [of buf 0 False]
  by (auto simp: tm_scan_u64_def split: option.splits prod.splits bool.splits)

lemma skip_spaces_shorter: "length (skip_spaces buf) \<le> length buf"
  unfolding skip_spaces_def by (rule length_dropWhile_le)

text \<open>The fields of the \<open>cpu\<close> line: the tot, the idle share, how many there were.\<close>

function stat_loop :: "string \<Rightarrow> u64 \<Rightarrow> u64 \<Rightarrow> nat \<Rightarrow> (u64 \<times> u64 \<times> nat) option" where
  "stat_loop buf tot idle nf =
     (if buf = [] \<or> hd buf = ch_nl then Some (tot, idle, nf)
      else (let rest = skip_spaces buf in
            if rest = [] \<or> \<not> tm_digit (hd rest) then Some (tot, idle, nf)
            else (case tm_scan_u64 rest of
                    None \<Rightarrow> None
                  | Some (v, rest') \<Rightarrow>
                      if tot > counter_max - v then None
                      else stat_loop rest' (tot + v)
                             (if nf = 3 \<or> nf = 4 then idle + v else idle) (Suc nf))))"
  by pat_completeness auto
termination
proof (relation "measure (\<lambda>(buf, _). length buf)", goal_cases)
  case (2 buf tot idle nf rest x v rest')
  then show ?case using tm_scan_u64_shorter [of rest v rest'] skip_spaces_shorter [of buf] by simp
qed simp

declare stat_loop.simps [simp del]

definition spg_telemetry_parse_stat :: "string \<Rightarrow> spg_status \<times> cpu_sample" where
  "spg_telemetry_parse_stat buf =
     (if take 4 buf \<noteq> ''cpu '' then (SPG_E_FORMAT, \<lparr>cs_idle = 0, cs_total = 0\<rparr>)
      else (case stat_loop (drop 4 buf) 0 0 0 of
              None \<Rightarrow> (SPG_E_OVERFLOW, \<lparr>cs_idle = 0, cs_total = 0\<rparr>)
            | Some (tot, idle, nf) \<Rightarrow>
                if nf < 4 then (SPG_E_FORMAT, \<lparr>cs_idle = 0, cs_total = 0\<rparr>)
                else (SPG_OK, \<lparr>cs_idle = idle, cs_total = tot\<rparr>)))"

definition spg_telemetry_parse_meminfo :: "string \<Rightarrow> spg_status \<times> memory_sample" where
  "spg_telemetry_parse_meminfo buf =
     (case read_kb_field buf ''MemTotal:'' of
        None \<Rightarrow> (SPG_E_FORMAT, \<lparr>ms_total_bytes = MACHINE_UNKNOWN, ms_used_bytes = MACHINE_UNKNOWN,
                              ms_swap_used_bytes = MACHINE_UNKNOWN\<rparr>)
      | Some tot \<Rightarrow>
          (SPG_OK, \<lparr>ms_total_bytes = tot,
             ms_used_bytes = (case read_kb_field buf ''MemAvailable:'' of
                None \<Rightarrow> MACHINE_UNKNOWN | Some available \<Rightarrow> if available > tot then 0 else tot - available),
             ms_swap_used_bytes = (case (read_kb_field buf ''SwapTotal:'', read_kb_field buf ''SwapFree:'') of
                (Some swap_total, Some swap_free) \<Rightarrow> if swap_free > swap_total then 0 else swap_total - swap_free
              | _ \<Rightarrow> MACHINE_UNKNOWN)\<rparr>))"

text \<open>The fraction: two digits count, the others are skipped.\<close>

fun frac_loop :: "string \<Rightarrow> u64 \<Rightarrow> u64 \<Rightarrow> u64" where
  "frac_loop [] scale frac = frac"
| "frac_loop (c # cs) scale frac =
     (if \<not> tm_digit c then frac
      else if scale > 1 then frac_loop cs (scale div 10) (frac + of_nat (code_of c - 48) * (scale div 10))
      else frac_loop cs scale frac)"

definition scan_cbp :: "string \<Rightarrow> u64 option" where
  "scan_cbp buf =
     (case tm_scan_u64 buf of
        None \<Rightarrow> None
      | Some (whole, rest) \<Rightarrow>
          (let frac = (if rest \<noteq> [] \<and> hd rest = CHR ''.'' then frac_loop (tl rest) 100 0 else 0)
           in if whole > (counter_max - frac) div 100 then None else Some (whole * 100 + frac)))"

definition spg_telemetry_parse_loadavg :: "string \<Rightarrow> spg_status \<times> u64" where
  "spg_telemetry_parse_loadavg buf =
     (case scan_cbp (skip_spaces buf) of
        None \<Rightarrow> (SPG_E_FORMAT, MACHINE_UNKNOWN) | Some v \<Rightarrow> (SPG_OK, v))"

definition spg_telemetry_parse_int :: "string \<Rightarrow> spg_status \<times> i64" where
  "spg_telemetry_parse_int buf =
     (let minus = buf \<noteq> [] \<and> hd buf = CHR ''-''
      in case tm_scan_u64 (if minus then tl buf else buf) of
           None \<Rightarrow> (SPG_E_FORMAT, 0)
         | Some (magnitude, _) \<Rightarrow>
             if magnitude > 9223372036854775807 then (SPG_E_OVERFLOW, 0)
             else (SPG_OK, if minus then - uint magnitude else uint magnitude))"

definition hex_digit :: "char \<Rightarrow> nat option" where
  "hex_digit c =
     (if tm_digit c then Some (code_of c - 48)
      else if 97 \<le> code_of c \<and> code_of c \<le> 102 then Some (code_of c - 97 + 10)
      else if 65 \<le> code_of c \<and> code_of c \<le> 70 then Some (code_of c - 65 + 10)
      else None)"

fun hex_loop :: "string \<Rightarrow> u64 \<Rightarrow> bool \<Rightarrow> (u64 \<times> bool) option" where
  "hex_loop [] v any = Some (v, any)"
| "hex_loop (c # cs) v any =
     (case hex_digit c of
        None \<Rightarrow> Some (v, any)
      | Some d \<Rightarrow> if v > (counter_max - of_nat d) div 16 then None else hex_loop cs (v * 16 + of_nat d) True)"

unbundle bit_operations_syntax

definition spg_telemetry_parse_throttle :: "string \<Rightarrow> throttle_state" where
  "spg_telemetry_parse_throttle buf =
     (if length buf < 3 \<or> buf ! 0 \<noteq> CHR ''0'' \<or> (buf ! 1 \<noteq> CHR ''x'' \<and> buf ! 1 \<noteq> CHR ''X'')
      then THROTTLE_UNKNOWN
      else (case hex_loop (drop 2 buf) 0 False of
              Some (v, True) \<Rightarrow>
                if v AND 15 \<noteq> 0 then THROTTLE_ACTIVE
                else if v AND 983040 \<noteq> 0 then THROTTLE_PAST else THROTTLE_NONE
            | _ \<Rightarrow> THROTTLE_UNKNOWN))"

definition spg_telemetry_utilisation_bp :: "cpu_sample option \<Rightarrow> cpu_sample \<Rightarrow> u64" where
  "spg_telemetry_utilisation_bp prev cur =
     (case prev of
        None \<Rightarrow> MACHINE_UNKNOWN
      | Some p \<Rightarrow>
          if cs_total cur < cs_total p \<or> cs_idle cur < cs_idle p then MACHINE_UNKNOWN
          else (let total_delta = cs_total cur - cs_total p; idle_delta = cs_idle cur - cs_idle p
                in if total_delta = 0 then MACHINE_UNKNOWN
                   else if idle_delta \<ge> total_delta then 0
                   else (total_delta - idle_delta) * 10000 div total_delta))"

section \<open>The history of snapshots\<close>

definition MACHINE_HISTORY_CAP :: nat where "MACHINE_HISTORY_CAP = 8"

record history_entry =
  hy_tick :: u64
  hy_cpu_utilisation_bp :: u64
  hy_load_1_cbp :: u64
  hy_memory_used_bytes :: u64
  hy_swap_used_bytes :: u64
  hy_temperature_mc :: i64
  hy_cpu_freq_khz :: u64
  hy_throttle :: throttle_state
  hy_process_count :: u64

record machine_history =
  mh_window :: nat
  mh_n :: nat
  mh_head :: nat
  mh_entries :: "history_entry list"

definition zero_entry :: history_entry where
  "zero_entry = \<lparr>hy_tick = 0, hy_cpu_utilisation_bp = 0, hy_load_1_cbp = 0, hy_memory_used_bytes = 0,
     hy_swap_used_bytes = 0, hy_temperature_mc = 0, hy_cpu_freq_khz = 0, hy_throttle = THROTTLE_UNKNOWN,
     hy_process_count = 0\<rparr>"

definition spg_machine_history_init :: "nat \<Rightarrow> machine_history" where
  "spg_machine_history_init window =
     \<lparr>mh_window = (if window > MACHINE_HISTORY_CAP then MACHINE_HISTORY_CAP else window), mh_n = 0,
      mh_head = 0, mh_entries = replicate MACHINE_HISTORY_CAP zero_entry\<rparr>"

definition entry_of_state :: "u64 \<Rightarrow> machine_state \<Rightarrow> history_entry" where
  "entry_of_state tick m =
     \<lparr>hy_tick = tick, hy_cpu_utilisation_bp = mc_cpu_utilisation_bp m, hy_load_1_cbp = mc_load_1_cbp m,
      hy_memory_used_bytes = ms_used_bytes (mc_memory m),
      hy_swap_used_bytes = ms_swap_used_bytes (mc_memory m), hy_temperature_mc = mc_temperature_mc m,
      hy_cpu_freq_khz = mc_cpu_freq_khz m, hy_throttle = mc_throttle m,
      hy_process_count = mc_process_count m\<rparr>"

definition spg_machine_history_push :: "u64 \<Rightarrow> machine_state \<Rightarrow> machine_history \<Rightarrow> machine_history" where
  "spg_machine_history_push tick m h =
     (if mh_window h = 0 \<or> mh_window h > MACHINE_HISTORY_CAP \<or> mh_head h \<ge> mh_window h then h
      else h\<lparr>mh_entries := (mh_entries h)[mh_head h := entry_of_state tick m],
             mh_head := (mh_head h + 1) mod mh_window h,
             mh_n := (if mh_n h < mh_window h then mh_n h + 1 else mh_n h)\<rparr>)"

text \<open>The entries in the order the renderer visits them.\<close>

definition history_entries :: "machine_history \<Rightarrow> history_entry list" where
  "history_entries h =
     (let start = (if mh_n h < mh_window h then 0 else mh_head h)
      in map (\<lambda>i. mh_entries h ! ((start + i) mod mh_window h)) [0..<mh_n h])"

section \<open>Rendering\<close>

fun spg_throttle_state_to_string :: "throttle_state \<Rightarrow> string" where
  "spg_throttle_state_to_string THROTTLE_UNKNOWN = ''unknown''"
| "spg_throttle_state_to_string THROTTLE_NONE = ''none''"
| "spg_throttle_state_to_string THROTTLE_ACTIVE = ''active''"
| "spg_throttle_state_to_string THROTTLE_PAST = ''past''"

text \<open>The writer that counts on past the end of its buffer and keeps no part of a record that does not fit.\<close>

definition put_u64 :: "u64 \<Rightarrow> string" where
  "put_u64 v = (if v = MACHINE_UNKNOWN then ''unknown'' else i64_to_dec (sint v))"

definition put_i64_or_unknown :: "i64 \<Rightarrow> string" where
  "put_i64_or_unknown v = (if v = MACHINE_UNKNOWN_S then ''unknown'' else i64_to_dec v)"

definition put_quoted :: "string \<Rightarrow> string" where
  "put_quoted s =
     [ch_quote] @ concat (map (\<lambda>c. if c = ch_quote \<or> c = ch_bslash then [ch_bslash, c] else [c]) s) @ [ch_quote]"

definition put_field :: "string \<Rightarrow> u64 \<Rightarrow> string" where
  "put_field name v = '' ('' @ name @ '' '' @ put_u64 v @ '')''"

definition render_out :: "string \<Rightarrow> nat \<Rightarrow> spg_status \<times> string \<times> nat" where
  "render_out txt capacity =
     (if length txt + 1 > capacity then (SPG_E_LIMIT, [], length txt + 1)
      else (SPG_OK, txt, length txt + 1))"

definition history_entry_text :: "history_entry \<Rightarrow> string" where
  "history_entry_text e =
     '' (t '' @ put_u64 (hy_tick e) @ put_field ''cpu-load-bp'' (hy_cpu_utilisation_bp e) @
     put_field ''load-1-cbp'' (hy_load_1_cbp e) @ put_field ''memory-used-bytes'' (hy_memory_used_bytes e) @
     put_field ''swap-used-bytes'' (hy_swap_used_bytes e) @ '' (temperature-mc '' @
     put_i64_or_unknown (hy_temperature_mc e) @ '')'' @ put_field ''cpu-freq-khz'' (hy_cpu_freq_khz e) @
     '' (throttle '' @ spg_throttle_state_to_string (hy_throttle e) @ '')'' @
     put_field ''process-count'' (hy_process_count e) @ '')''"

definition spg_machine_history_render :: "machine_history option \<Rightarrow> nat \<Rightarrow> spg_status \<times> string \<times> nat" where
  "spg_machine_history_render history capacity =
     (if capacity = 0 then (SPG_E_INVALID_ARG, [], 0)
      else (case history of
              None \<Rightarrow> (SPG_OK, [], 0)
            | Some h \<Rightarrow>
                if mh_window h = 0 then (SPG_OK, [], 0)
                else if mh_window h > MACHINE_HISTORY_CAP \<or> mh_n h > mh_window h \<or> mh_head h \<ge> mh_window h
                  then (SPG_E_INVALID_ARG, [], 0)
                else render_out (''(machine-history'' @ concat (map history_entry_text (history_entries h)) @ '')'')
                       capacity))"

record ablation =
  ab_role :: bool
  ab_temperature :: bool
  ab_frequency :: bool
  ab_memory :: bool
  ab_processes :: bool
  ab_load :: bool

definition ablation_of :: "u32 \<Rightarrow> ablation" where
  "ablation_of ablate = \<lparr>ab_role = (ablate AND 1 \<noteq> 0), ab_temperature = (ablate AND 2 \<noteq> 0),
     ab_frequency = (ablate AND 4 \<noteq> 0), ab_memory = (ablate AND 8 \<noteq> 0), ab_processes = (ablate AND 16 \<noteq> 0),
     ab_load = (ablate AND 32 \<noteq> 0)\<rparr>"

fun spg_process_role_to_string :: "process_role \<Rightarrow> string" where
  "spg_process_role_to_string ROLE_UNKNOWN = ''unknown''"
| "spg_process_role_to_string ROLE_CRITICAL = ''critical''"
| "spg_process_role_to_string ROLE_BATCH = ''batch''"

definition process_text :: "ablation \<Rightarrow> process_sample \<Rightarrow> string" where
  "process_text ab p =
     '' (process (id '' @ put_quoted (if ps_profile_id p \<noteq> [] then ps_profile_id p else ps_name p) @ '')'' @
     (if ab_role ab then [] else '' (role '' @ spg_process_role_to_string (ps_role p) @ '')'') @
     put_field ''cpu-bp'' (ps_cpu_bp p) @ put_field ''rss-bytes'' (ps_rss_bytes p) @ '')''"

definition machine_state_text :: "ablation \<Rightarrow> machine_state \<Rightarrow> string" where
  "machine_state_text ab m =
     ''(machine-state'' @
     (if ab_load ab then [] else put_field ''cpu-load-bp'' (mc_cpu_utilisation_bp m) @
        put_field ''load-1-cbp'' (mc_load_1_cbp m)) @
     (if ab_memory ab then [] else put_field ''memory-total-bytes'' (ms_total_bytes (mc_memory m)) @
        put_field ''memory-used-bytes'' (ms_used_bytes (mc_memory m)) @
        put_field ''swap-used-bytes'' (ms_swap_used_bytes (mc_memory m))) @
     (if ab_temperature ab then [] else '' (temperature-mc '' @ put_i64_or_unknown (mc_temperature_mc m) @ '')'') @
     (if ab_frequency ab then [] else put_field ''cpu-freq-khz'' (mc_cpu_freq_khz m)) @
     (if ab_temperature ab then [] else '' (throttle '' @ spg_throttle_state_to_string (mc_throttle m) @ '')'') @
     put_field ''process-count'' (mc_process_count m) @
     (if ab_processes ab then [] else concat (map (process_text ab) (mc_processes m))) @
     (if mc_processes_truncated m \<and> \<not> ab_processes ab
      then put_field ''processes-dropped''
             (let shown = of_nat (length (mc_processes m))
              in if mc_process_count m \<noteq> MACHINE_UNKNOWN \<and> mc_process_count m > shown
                 then mc_process_count m - shown else MACHINE_UNKNOWN)
      else []) @ '')''"

definition spg_machine_state_render_masked :: "machine_state \<Rightarrow> u32 \<Rightarrow> nat \<Rightarrow> spg_status \<times> string \<times> nat" where
  "spg_machine_state_render_masked m ablate capacity =
     (if capacity = 0 then (SPG_E_INVALID_ARG, [], 0)
      else render_out (machine_state_text (ablation_of ablate) m) capacity)"

definition spg_machine_state_render :: "machine_state \<Rightarrow> nat \<Rightarrow> spg_status \<times> string \<times> nat" where
  "spg_machine_state_render m capacity = spg_machine_state_render_masked m 0 capacity"

end
