(* ===== verification/AgentLoop.thy ===== *)
theory AgentLoop
  imports OrchProps DeviceExecProps Telemetry
begin

text \<open>
  The governed loop, \<open>src/run/agent_loop.c\<close>: tick after tick, with the watchdog serviced before
  each, the consumption charged after it, one malformed reply repaired, the world observed again
  after an action, and an end when the agent finishes, is denied, runs out of a budget or makes no
  progress. The clock, the live host and the outcomes of writes are parameters, one
  per step; so is what \<open>realpath\<close> answers, since the commands of a step may change it.
\<close>

section \<open>Configuration, state, result\<close>

datatype loop_termination =
  LOOP_FINISHED | LOOP_MAX_STEPS | LOOP_REJECTED | LOOP_DENIED | LOOP_BUDGET | LOOP_ERROR

fun spg_agent_loop_termination_to_string :: "loop_termination \<Rightarrow> string" where
  "spg_agent_loop_termination_to_string LOOP_FINISHED = ''finished''"
| "spg_agent_loop_termination_to_string LOOP_MAX_STEPS = ''max_steps''"
| "spg_agent_loop_termination_to_string LOOP_REJECTED = ''rejected''"
| "spg_agent_loop_termination_to_string LOOP_DENIED = ''denied''"
| "spg_agent_loop_termination_to_string LOOP_BUDGET = ''budget''"
| "spg_agent_loop_termination_to_string LOOP_ERROR = ''error''"

record loop_config =
  lc_base :: orch_config
  lc_max_steps :: nat
  lc_token_budget :: u64
  lc_step_budget :: u64
  lc_refresh_machine :: bool
  lc_wall_budget_ms :: u64
  lc_max_repairs :: nat
  lc_finish_on_no_progress :: bool
  lc_observation_marker :: "string option"
  lc_lesson_budget_bytes :: nat
  lc_header_capacity :: nat

text \<open>
  What the loop adds to the world of a tick: the history window, the readings of the plant, the
  number of journal headers the next context shows, and the snapshot a scripted case installs.
\<close>

record loop_world =
  lw_orch :: orch_world
  lw_history :: "machine_history option"
  lw_readings :: "device_reading list option"
  lw_headers :: nat
  lw_machine_after :: "machine_state option"

record loop_env =
  le_orch :: orch_env
  le_realpath :: "nat \<Rightarrow> realpath"
  le_actor :: "nat \<Rightarrow> loop_world \<Rightarrow> string option \<Rightarrow> actor_env"
  le_clock :: "nat \<Rightarrow> u64"
  le_files :: "nat \<Rightarrow> file_io"
  le_io :: "nat \<Rightarrow> nat \<Rightarrow> write_outcome"
  le_watchdog_io :: "nat \<Rightarrow> write_outcome"
  le_host :: "nat \<Rightarrow> machine_state \<Rightarrow> machine_state option"

record loop_result =
  lr_steps_taken :: nat
  lr_repairs_used :: nat
  lr_actions_executed :: nat
  lr_observation_seen :: bool
  lr_termination :: loop_termination
  lr_last_status :: spg_status
  lr_last :: "tick_result option"

definition zero_loop_result :: loop_result where
  "zero_loop_result = \<lparr>lr_steps_taken = 0, lr_repairs_used = 0, lr_actions_executed = 0,
     lr_observation_seen = False, lr_termination = LOOP_MAX_STEPS, lr_last_status = SPG_OK, lr_last = None\<rparr>"

record loop_state =
  ls_world :: loop_world
  ls_parent :: u64
  ls_prev_hash :: u64
  ls_have_prev :: bool
  ls_progress :: bool
  ls_result :: loop_result

section \<open>Charging and threading\<close>

definition add_u64 :: "u64 \<Rightarrow> u64 \<Rightarrow> u64" where
  "add_u64 acc v = (if acc > UINT64_MAX - v then UINT64_MAX else acc + v)"

definition result_cost :: "tick_result \<Rightarrow> u64" where
  "result_cost r = (case ot_recommendation r of None \<Rightarrow> 0 | Some rec \<Rightarrow> rq_cost (rm_action rec))"

definition accumulate_usage :: "policy_usage \<Rightarrow> tick_result \<Rightarrow> policy_usage" where
  "accumulate_usage usage r =
     (let c = us_consumed usage; charge = (\<lambda>on v. if on then add_u64 v (result_cost r) else v)
      in \<lparr>us_consumed = c\<lparr>
            bd_inference_steps := add_u64 (bd_inference_steps c) 1,
            bd_tokens := add_u64 (bd_tokens c) (of_nat (at_tokens_decoded (ot_actor r))),
            bd_sim_actions := charge (spg_orchestrator_sim_executed r) (bd_sim_actions c),
            bd_memory_actions := charge (spg_orchestrator_memory_executed r) (bd_memory_actions c),
            bd_machine_actions := charge (spg_orchestrator_machine_executed r) (bd_machine_actions c),
            bd_shell_actions := charge (spg_orchestrator_shell_executed r) (bd_shell_actions c)\<rparr>\<rparr>)"

text \<open>The first sequence number that is not zero.\<close>

fun first_nonzero :: "u64 list \<Rightarrow> u64 \<Rightarrow> u64" where
  "first_nonzero [] fallback = fallback"
| "first_nonzero (s # ss) fallback = (if s \<noteq> 0 then s else first_nonzero ss fallback)"

definition step_sequence :: "tick_result \<Rightarrow> u64 \<Rightarrow> u64" where
  "step_sequence r fallback = first_nonzero
     [case ot_shell r of None \<Rightarrow> 0 | Some x \<Rightarrow> sr_action_sequence x,
      case ot_memory r of None \<Rightarrow> 0 | Some x \<Rightarrow> mq_memory_sequence x,
      case ot_sim r of None \<Rightarrow> 0 | Some x \<Rightarrow> sz_memory_sequence x,
      case ot_sim r of None \<Rightarrow> 0 | Some x \<Rightarrow> sz_graph_sequence x,
      case ot_sim r of None \<Rightarrow> 0 | Some x \<Rightarrow> sz_sim_sequence x,
      case ot_gate r of None \<Rightarrow> 0 | Some x \<Rightarrow> go_policy_sequence x,
      at_model_output_sequence (ot_actor r), at_model_input_sequence (ot_actor r)] fallback"

unbundle bit_operations_syntax

definition obs_hash :: "string \<Rightarrow> u64" where
  "obs_hash s = foldl (\<lambda>h c. (h XOR of_nat (code_of c)) * 1099511628211) 1469598103934665603 (c_string s)"

section \<open>Before the tick\<close>

definition budget_reached :: "loop_env \<Rightarrow> loop_config \<Rightarrow> nat \<Rightarrow> policy_usage \<Rightarrow> bool" where
  "budget_reached env cfg step usage \<longleftrightarrow>
     (lc_token_budget cfg > 0 \<and> bd_tokens (us_consumed usage) \<ge> lc_token_budget cfg) \<or>
     (lc_step_budget cfg > 0 \<and> bd_inference_steps (us_consumed usage) \<ge> lc_step_budget cfg) \<or>
     (lc_wall_budget_ms cfg > 0 \<and> le_clock env (Suc step) - le_clock env 0 \<ge> lc_wall_budget_ms cfg)"

definition service_watchdog :: "loop_env \<Rightarrow> loop_config \<Rightarrow> nat \<Rightarrow> u64 \<Rightarrow> orch_world \<Rightarrow> orch_world \<times> u64" where
  "service_watchdog env cfg step parent w =
     (if ow_device w = None then (w, parent)
      else (case spg_device_watchdog_service (oe_os (le_orch env))
                   \<lparr>dx_actor_id = ucast (oc_actor_id (lc_base cfg)), dx_timestamp_ns = of_nat step + 1,
                    dx_parent_sequence = parent, dx_write_journal = oc_write_journal (lc_base cfg),
                    dx_execution_enabled = False\<rparr>
                   \<lparr>pl_device = ow_device w, pl_log = ow_log w, pl_journal = ow_journal w\<rparr>
                   (le_watchdog_io env step) of
              (st, pl, out, sq) \<Rightarrow>
                (w\<lparr>ow_device := pl_device pl, ow_log := pl_log pl, ow_journal := pl_journal pl\<rparr>,
                 if sq \<noteq> 0 then sq else parent)))"

definition feedback :: "loop_config \<Rightarrow> orch_world \<Rightarrow> bool" where
  "feedback cfg w \<longleftrightarrow> lc_header_capacity cfg > 0 \<and> ow_journal w \<noteq> None"

definition bind_headers :: "loop_config \<Rightarrow> orch_world \<Rightarrow> orch_world" where
  "bind_headers cfg w =
     (if feedback cfg w
      then w\<lparr>ow_journal := map_option (spg_journal_writer_set_header_log (lc_header_capacity cfg)) (ow_journal w)\<rparr>
      else w)"

definition header_count :: "orch_world \<Rightarrow> nat" where
  "header_count w = (case ow_journal w of None \<Rightarrow> 0
     | Some jw \<Rightarrow> (case jw_header_log jw of None \<Rightarrow> 0 | Some hs \<Rightarrow> length hs))"

definition step_env :: "loop_env \<Rightarrow> nat \<Rightarrow> loop_world \<Rightarrow> orch_env" where
  "step_env env step lw = (le_orch env)\<lparr>oe_actor := (\<lambda>w. le_actor env step (lw\<lparr>lw_orch := w\<rparr>)),
     oe_realpath := le_realpath env step\<rparr>"

definition step_config :: "loop_config \<Rightarrow> nat \<Rightarrow> u64 \<Rightarrow> orch_config" where
  "step_config cfg step parent =
     (lc_base cfg)\<lparr>oc_timestamp_ns := of_nat step + 1, oc_parent_sequence := parent\<rparr>"

section \<open>After the tick\<close>

definition historise :: "nat \<Rightarrow> loop_world \<Rightarrow> loop_world" where
  "historise step lw =
     (case (lw_history lw, ow_machine (lw_orch lw)) of
        (Some h, Some m) \<Rightarrow> lw\<lparr>lw_history := Some (spg_machine_history_push (of_nat step + 1) m h)\<rparr>
      | _ \<Rightarrow> lw)"

definition latch_marker :: "loop_config \<Rightarrow> orch_workspace \<Rightarrow> orch_world \<Rightarrow> loop_result \<Rightarrow> loop_result" where
  "latch_marker cfg ws w res =
     (case lc_observation_marker cfg of
        None \<Rightarrow> res
      | Some marker \<Rightarrow>
          if \<not> lr_observation_seen res \<and> ob_observation_capacity ws \<noteq> None \<and>
             payload_has (c_string (ow_observation w)) marker
          then res\<lparr>lr_observation_seen := True\<rparr> else res)"

definition may_repair :: "loop_config \<Rightarrow> orch_workspace \<Rightarrow> loop_result \<Rightarrow> bool" where
  "may_repair cfg ws res \<longleftrightarrow> lr_repairs_used res < lc_max_repairs cfg \<and>
     (case ob_observation_capacity ws of None \<Rightarrow> False | Some cap \<Rightarrow> cap > 0)"

definition repair_text :: "loop_config \<Rightarrow> orch_world \<Rightarrow> reject_reason \<Rightarrow> string" where
  "repair_text cfg w reason =
     (let directive = (case ow_store w of None \<Rightarrow> []
            | Some store \<Rightarrow> spg_mem_directive store ''lesson-rejected'' (lc_lesson_budget_bytes cfg) (MEM_DESC_MAX + 1))
      in directive @ (if directive \<noteq> [] then '' '' else []) @ ''[invalid recommendation: '' @
         spg_recommendation_reject_reason_to_string reason @
         ''] Reply with exactly one valid (recommend ...) form, or (recommend (kind finish) (reason '' @
         [ch_quote] @ ''...'' @ [ch_quote] @ '')).'')"

definition repair :: "loop_config \<Rightarrow> orch_workspace \<Rightarrow> tick_result \<Rightarrow> orch_world \<Rightarrow> orch_world" where
  "repair cfg ws r w =
     (let reason = (case ot_recommendation r of None \<Rightarrow> REJECT_NONE | Some rec \<Rightarrow> rm_reject_reason rec);
          cap = (case ob_observation_capacity ws of None \<Rightarrow> 0 | Some cap \<Rightarrow> cap)
      in w\<lparr>ow_observation := take (cap - 1) (repair_text cfg w reason)\<rparr>)"

definition refresh_host :: "loop_env \<Rightarrow> loop_config \<Rightarrow> nat \<Rightarrow> loop_world \<Rightarrow> loop_world" where
  "refresh_host env cfg step lw =
     (case ow_machine (lw_orch lw) of
        None \<Rightarrow> lw
      | Some m \<Rightarrow>
          if \<not> lc_refresh_machine cfg then lw
          else (case lw_machine_after lw of
                  Some after \<Rightarrow> lw\<lparr>lw_orch := (lw_orch lw)\<lparr>ow_machine := Some after\<rparr>\<rparr>
                | None \<Rightarrow>
                    (case le_host env step m of
                       None \<Rightarrow> lw
                     | Some sampled \<Rightarrow> lw\<lparr>lw_orch := (lw_orch lw)\<lparr>ow_machine := Some sampled\<rparr>\<rparr>)))"

definition refresh_plant :: "loop_env \<Rightarrow> nat \<Rightarrow> loop_world \<Rightarrow> loop_world" where
  "refresh_plant env step lw =
     (case (lw_readings lw, ow_device (lw_orch lw)) of
        (Some _, Some dev) \<Rightarrow>
          (case spg_device_sample (oe_os (le_orch env)) (ow_log (lw_orch lw)) dev of
             (st, dev', log', readings) \<Rightarrow>
               lw\<lparr>lw_orch := (lw_orch lw)\<lparr>ow_device := Some dev', ow_log := log'\<rparr>,
                  lw_readings := Some readings\<rparr>)
      | _ \<Rightarrow> lw)"

text \<open>Whether the step made no progress, with the hash the next comparison uses.\<close>

definition no_progress :: "orch_workspace \<Rightarrow> tick_result \<Rightarrow> orch_world \<Rightarrow> loop_state \<Rightarrow> bool \<times> loop_state" where
  "no_progress ws r w s =
     (if (case ot_recommendation r of None \<Rightarrow> False | Some rec \<Rightarrow> rm_action_kind rec = ACTION_SIMULATOR)
      then (case ot_sim r of None \<Rightarrow> True | Some sr \<Rightarrow> \<not> cs_mutated (sz_choice sr), s)
      else if ob_observation_capacity ws \<noteq> None \<and> c_string (ow_observation w) \<noteq> []
      then (let h = obs_hash (ow_observation w)
            in (ls_have_prev s \<and> h = ls_prev_hash s, s\<lparr>ls_prev_hash := h, ls_have_prev := True\<rparr>))
      else (False, s))"

section \<open>The loop\<close>

text \<open>Whether there is a journal never changes in a run, so \<open>feedback\<close> has the value it had at the start.
  \<open>Inl\<close> goes on, \<open>Inr\<close> is over.\<close>

type_synonym loop_next = "loop_state + (spg_status \<times> loop_state)"

definition stop :: "loop_termination \<Rightarrow> loop_state \<Rightarrow> loop_next" where
  "stop t s = Inr (SPG_OK, s\<lparr>ls_result := (ls_result s)\<lparr>lr_termination := t\<rparr>\<rparr>)"

definition budget_denial :: "policy_decision \<Rightarrow> bool" where
  "budget_denial d \<longleftrightarrow> dc_deny_reason d = DENY_CAPABILITY_BUDGET \<or> dc_deny_reason d = DENY_GLOBAL_BUDGET"

text \<open>An allowed step: count it, observe, look for convergence.\<close>

definition after_action :: "loop_env \<Rightarrow> loop_config \<Rightarrow> orch_workspace \<Rightarrow> nat \<Rightarrow> tick_result \<Rightarrow> loop_state \<Rightarrow> loop_next" where
  "after_action env cfg ws step r s =
     (let lw = refresh_plant env step (refresh_host env cfg step (ls_world s));
          s = s\<lparr>ls_progress := True, ls_world := lw,
                ls_result := (ls_result s)\<lparr>lr_actions_executed := lr_actions_executed (ls_result s) + 1\<rparr>\<rparr>
      in if \<not> lc_finish_on_no_progress cfg then Inl s
         else (case no_progress ws r (lw_orch lw) s of
                 (stalled, s') \<Rightarrow> if stalled then stop LOOP_FINISHED s' else Inl s'))"

definition judge_tick :: "loop_env \<Rightarrow> loop_config \<Rightarrow> orch_workspace \<Rightarrow> nat \<Rightarrow> tick_result \<Rightarrow> loop_state \<Rightarrow> loop_next" where
  "judge_tick env cfg ws step r s =
     (if spg_orchestrator_finished r then stop LOOP_FINISHED s
      else if ot_stage r = STAGE_RECOMMENDATION_REJECTED then
        (if may_repair cfg ws (ls_result s)
         then Inl (s\<lparr>ls_world := (ls_world s)\<lparr>lw_orch := repair cfg ws r (lw_orch (ls_world s))\<rparr>,
                     ls_result := (ls_result s)\<lparr>lr_repairs_used := lr_repairs_used (ls_result s) + 1\<rparr>\<rparr>)
         else stop LOOP_REJECTED s)
      else (case (spg_orchestrator_policy_evaluated r, ot_gate r) of
              (True, Some gres) \<Rightarrow>
                if dc_kind (go_decision gres) \<noteq> DECISION_ALLOW
                then stop (if lc_finish_on_no_progress cfg \<and> ls_progress s \<and> budget_denial (go_decision gres)
                           then LOOP_FINISHED else LOOP_DENIED) s
                else after_action env cfg ws step r s
            | _ \<Rightarrow> after_action env cfg ws step r s))"

definition after_tick ::
  "loop_env \<Rightarrow> loop_config \<Rightarrow> orch_workspace \<Rightarrow> nat \<Rightarrow> tick_result \<Rightarrow> orch_world \<Rightarrow> loop_state \<Rightarrow> loop_next" where
  "after_tick env cfg ws step r w s =
     (let w = w\<lparr>ow_usage := accumulate_usage (ow_usage w) r\<rparr>;
          lw = historise step ((ls_world s)\<lparr>lw_orch := w\<rparr>)
      in judge_tick env cfg ws step r
           (s\<lparr>ls_world := lw, ls_parent := step_sequence r (ls_parent s),
              ls_result := latch_marker cfg ws w (ls_result s)\<rparr>))"

definition loop_step :: "loop_env \<Rightarrow> loop_config \<Rightarrow> orch_workspace \<Rightarrow> nat \<Rightarrow> loop_state \<Rightarrow> loop_next" where
  "loop_step env cfg ws step s =
     (let w = lw_orch (ls_world s)
      in if budget_reached env cfg step (ow_usage w) then stop LOOP_BUDGET s
         else (case service_watchdog env cfg step (ls_parent s) w of
           (w, parent) \<Rightarrow>
             (let lw = (ls_world s)\<lparr>lw_orch := w, lw_headers := (if feedback cfg w then header_count w else lw_headers (ls_world s))\<rparr>
              in case spg_orchestrator_tick (step_env env step lw) (step_config cfg step parent) ws
                        (le_files env step) (le_io env step) w of
                   (st, w', r) \<Rightarrow>
                     (let s = s\<lparr>ls_world := lw\<lparr>lw_orch := w'\<rparr>, ls_parent := parent,
                                ls_result := (ls_result s)\<lparr>lr_steps_taken := step + 1, lr_last := r, lr_last_status := st\<rparr>\<rparr>
                      in case (st, r) of
                           (SPG_OK, Some res) \<Rightarrow> after_tick env cfg ws step res w' s
                         | _ \<Rightarrow> Inr (st, s\<lparr>ls_result := (ls_result s)\<lparr>lr_termination := LOOP_ERROR\<rparr>\<rparr>)))))"

primrec loop_from :: "nat \<Rightarrow> loop_env \<Rightarrow> loop_config \<Rightarrow> orch_workspace \<Rightarrow> nat \<Rightarrow> loop_state \<Rightarrow> spg_status \<times> loop_state" where
  "loop_from 0 env cfg ws step s = (SPG_OK, s)"
| "loop_from (Suc n) env cfg ws step s =
     (case loop_step env cfg ws step s of
        Inl s' \<Rightarrow> loop_from n env cfg ws (Suc step) s'
      | Inr out \<Rightarrow> out)"

definition start_loop :: "loop_config \<Rightarrow> loop_world \<Rightarrow> loop_state" where
  "start_loop cfg lw = \<lparr>ls_world = lw\<lparr>lw_orch := bind_headers cfg (lw_orch lw)\<rparr>,
     ls_parent = oc_parent_sequence (lc_base cfg), ls_prev_hash = 0, ls_have_prev = False, ls_progress = False,
     ls_result = zero_loop_result\<rparr>"

definition spg_agent_loop_run ::
  "loop_env \<Rightarrow> loop_config \<Rightarrow> orch_workspace \<Rightarrow> loop_world \<Rightarrow> spg_status \<times> loop_world \<times> loop_result option" where
  "spg_agent_loop_run env cfg ws lw =
     (if lc_max_steps cfg = 0 then (SPG_E_INVALID_ARG, lw, None)
      else (case loop_from (lc_max_steps cfg) env cfg ws 0 (start_loop cfg lw) of
              (st, s) \<Rightarrow> (st, ls_world s, Some (ls_result s))))"

end
