(* ===== verification/LoopProps.thy ===== *)
theory LoopProps
  imports AgentLoop MachineExecProps MemProps ShellProps
begin

text \<open>
  What holds of a whole run of the loop: the interface \<open>run_invariant\<close> says what the operations of
  a run must keep, and its instances are the budgets, the reserved memories, the pause ledger and
  the programs started.
\<close>

section \<open>Invariants of a run\<close>

locale run_invariant =
  fixes I :: "loop_env \<Rightarrow> loop_config \<Rightarrow> orch_workspace \<Rightarrow> orch_world \<Rightarrow> bool"
  assumes watchdog: "I env cfg ws w \<Longrightarrow> I env cfg ws (fst (service_watchdog env cfg step parent w))"
    and headers: "I env cfg ws w \<Longrightarrow> I env cfg ws (bind_headers cfg w)"
    and tick: "spg_orchestrator_tick (step_env env step lw) (step_config cfg step parent) ws fio io w = (st, w', out) \<Longrightarrow>
      I env cfg ws w \<Longrightarrow> I env cfg ws w'"
    and charge: "spg_orchestrator_tick (step_env env step lw) (step_config cfg step parent) ws fio io w = (SPG_OK, w', Some r) \<Longrightarrow>
      I env cfg ws w \<Longrightarrow> I env cfg ws (w'\<lparr>ow_usage := accumulate_usage (ow_usage w') r\<rparr>)"
    and observation: "I env cfg ws w \<Longrightarrow> I env cfg ws (w\<lparr>ow_observation := obs\<rparr>)"
    and host: "I env cfg ws w \<Longrightarrow> I env cfg ws (w\<lparr>ow_machine := m\<rparr>)"
    and plant: "ow_device w = Some dev \<Longrightarrow> spg_device_sample (oe_os (le_orch env)) (ow_log w) dev = (s, dev', log', rs) \<Longrightarrow>
      I env cfg ws w \<Longrightarrow> I env cfg ws (w\<lparr>ow_device := Some dev', ow_log := log'\<rparr>)"
begin

definition kept :: "loop_env \<Rightarrow> loop_config \<Rightarrow> orch_workspace \<Rightarrow> loop_next \<Rightarrow> bool" where
  "kept env cfg ws nxt = (case nxt of Inl s \<Rightarrow> I env cfg ws (lw_orch (ls_world s))
     | Inr (st, s) \<Rightarrow> I env cfg ws (lw_orch (ls_world s)))"

lemma host_kept: "I env cfg ws (lw_orch lw) \<Longrightarrow> I env cfg ws (lw_orch (refresh_host env cfg step lw))"
  by (auto simp: refresh_host_def intro: host split: option.split)

lemma plant_kept: "I env cfg ws (lw_orch lw) \<Longrightarrow> I env cfg ws (lw_orch (refresh_plant env step lw))"
  by (auto simp: refresh_plant_def intro: plant split: option.split prod.split)

lemma action_kept: "I env cfg ws (lw_orch (ls_world s)) \<Longrightarrow> kept env cfg ws (after_action env cfg ws step r s)"
  using plant_kept [OF host_kept, of env cfg ws "ls_world s" step step]
  by (auto simp: after_action_def kept_def stop_def no_progress_def Let_def split: prod.split if_splits)

lemma judge_kept: "I env cfg ws (lw_orch (ls_world s)) \<Longrightarrow> kept env cfg ws (judge_tick env cfg ws step r s)"
  using action_kept
  by (auto simp: judge_tick_def kept_def stop_def repair_def Let_def intro!: observation
      split: option.split bool.split)

lemma tick_kept:
  assumes "I env cfg ws (w\<lparr>ow_usage := accumulate_usage (ow_usage w) r\<rparr>)"
  shows "kept env cfg ws (after_tick env cfg ws step r w s)"
proof -
  have "lw_orch (historise step lw) = lw_orch lw" for lw
    by (simp add: historise_def split: option.split)
  then show ?thesis unfolding after_tick_def Let_def using assms by (intro judge_kept) simp
qed

lemma step_kept:
  assumes "I env cfg ws (lw_orch (ls_world s))"
  shows "kept env cfg ws (loop_step env cfg ws step s)"
proof (cases "budget_reached env cfg step (ow_usage (lw_orch (ls_world s)))")
  case True
  then show ?thesis using assms by (simp add: loop_step_def kept_def stop_def)
next
  case False
  obtain w parent where wd: "service_watchdog env cfg step (ls_parent s) (lw_orch (ls_world s)) = (w, parent)"
    by fastforce
  have w: "I env cfg ws w" using watchdog [OF assms, of step "ls_parent s"] wd by simp
  define lw where "lw = (ls_world s)\<lparr>lw_orch := w,
    lw_headers := (if feedback cfg w then header_count w else lw_headers (ls_world s))\<rparr>"
  obtain st w' out where t: "spg_orchestrator_tick (step_env env step lw) (step_config cfg step parent) ws
      (le_files env step) (le_io env step) w = (st, w', out)" by (rule prod_cases3)
  note w' = tick [OF t w]
  show ?thesis
  proof (cases "st = SPG_OK \<and> out \<noteq> None")
    case True
    then obtain r where "st = SPG_OK" "out = Some r" by auto
    then show ?thesis using False wd t charge [OF t [unfolded \<open>st = SPG_OK\<close> \<open>out = Some r\<close>] w]
      by (simp add: loop_step_def Let_def lw_def tick_kept)
  next
    case failed: False
    then show ?thesis using False wd t w' unfolding loop_step_def Let_def lw_def
      by (cases st; cases out) (simp_all add: kept_def)
  qed
qed

lemma loop_kept:
  "loop_from n env cfg ws step s = (st, s') \<Longrightarrow> I env cfg ws (lw_orch (ls_world s)) \<Longrightarrow>
   I env cfg ws (lw_orch (ls_world s'))"
proof (induction n arbitrary: step s)
  case (Suc n)
  then show ?case using step_kept [OF Suc.prems(2), of step]
    by (auto simp: kept_def split: sum.splits)
qed simp

lemma run_kept:
  assumes "spg_agent_loop_run env cfg ws lw = (st, lw', out)" "I env cfg ws (lw_orch lw)"
  shows "I env cfg ws (lw_orch lw')"
  using assms headers [OF assms(2)]
  by (auto simp: spg_agent_loop_run_def start_loop_def split: if_splits prod.splits dest!: loop_kept)

end

section \<open>What a tick hands to an executor\<close>

lemma gate_execute_through:
  assumes "gate_and_execute env cfg ws fio io ar rec w r = (st, w', r')"
  shows "(effects w' = effects w \<and> ow_usage w' = ow_usage w) \<or>
    (\<exists>w2 parent d r1. effects w2 = effects w \<and> ow_usage w2 = ow_usage w \<and> dc_kind d = DECISION_ALLOW \<and>
       dispatch env cfg ws fio io parent ar rec d w2 r1 = (st, w', r'))"
proof -
  obtain st1 gs out where g: "spg_policy_gate_step (gate_view env w (at_model_output ar)) (gate_config_of cfg ar) rec
      (ob_policy_payload_capacity ws) (io 4) = (st1, gs, out)" by (rule prod_cases3)
  let ?w = "w\<lparr>ow_journal := gs_journal gs, ow_graph := gs_graph gs\<rparr>"
  have same: "effects ?w = effects w" "ow_usage ?w = ow_usage w" by (simp_all add: effects_def)
  show ?thesis
  proof (cases "\<exists>gres. out = Some gres \<and> st1 = SPG_OK \<and> dc_kind (go_decision gres) = DECISION_ALLOW")
    case False
    then have "w' = ?w" using assms g by (auto simp: gate_and_execute_def Let_def split: option.splits if_splits)
    then show ?thesis using same by simp
  next
    case True
    then obtain gres where gres: "out = Some gres" "st1 = SPG_OK" "dc_kind (go_decision gres) = DECISION_ALLOW" by blast
    then have "\<exists>r1. dispatch env cfg ws fio io (exec_parent cfg ar gres) ar rec (go_decision gres) ?w r1 = (st, w', r')"
      using assms g by (auto simp: gate_and_execute_def Let_def)
    then show ?thesis using gres(3) same by blast
  qed
qed

lemma tick_record_usage: "tick_record cfg ws ar kind es texts io w = (st, w') \<Longrightarrow> ow_usage w' = ow_usage w"
  by (auto simp: tick_record_def Let_def split: if_splits option.splits prod.splits)

lemma tick_through:
  assumes "spg_orchestrator_tick env cfg ws fio io w = (st, w', out)"
  shows "(effects w' = effects w \<and> ow_usage w' = ow_usage w) \<or>
    (\<exists>w2 parent ar rec d r1 r2. effects w2 = effects w \<and> ow_usage w2 = ow_usage w \<and> dc_kind d = DECISION_ALLOW \<and>
       dispatch env cfg ws fio io parent ar rec d w2 r1 = (st, w', r2))"
proof (cases "tick_args_ok env cfg ws w")
  case False
  then show ?thesis using assms by (simp add: spg_orchestrator_tick_def)
next
  case args: True
  obtain st1 w1 ar where a: "run_actor env cfg ws io w = (st1, w1, ar)" by (rule prod_cases3)
  have eff: "effects w1 = effects w" "ow_usage w1 = ow_usage w"
    using run_actor_effects [OF a] by (simp_all add: consulted_def)
  obtain st2 rec e where p: "spg_recommendation_parse (at_model_output ar) (ob_token_capacity ws) (ob_node_capacity ws) =
      (st2, rec, e)" by (rule prod_cases3)
  let ?r = "(start_tick STAGE_ACTOR_DONE ar)\<lparr>ot_recommendation := Some rec\<rparr>"
  consider "st1 \<noteq> SPG_OK \<or> st2 \<noteq> SPG_OK"
    | "st1 = SPG_OK" "st2 = SPG_OK" "rm_state rec \<noteq> RECOMMENDATION_VALID \<or> rm_action_kind rec = ACTION_FINISH"
    | "st1 = SPG_OK" "st2 = SPG_OK" "rm_state rec = RECOMMENDATION_VALID" "rm_action_kind rec \<noteq> ACTION_FINISH"
    by blast
  then show ?thesis
  proof cases
    case 1
    then show ?thesis using assms args a p eff by (auto simp: spg_orchestrator_tick_def split: if_splits)
  next
    case 2
    then have "effects w' = effects w1 \<and> ow_usage w' = ow_usage w1" using assms args a p
      by (auto simp: spg_orchestrator_tick_def journal_recommendation_rejected_def journal_finish_def Let_def
          dest: tick_record_effects tick_record_usage split: prod.splits if_splits)
    then show ?thesis using eff by simp
  next
    case 3
    then obtain r' where g: "gate_and_execute env cfg ws fio io ar rec w1 ?r = (st, w', r')"
      using assms args a p by (auto simp: spg_orchestrator_tick_def Let_def split: prod.splits)
    from gate_execute_through [OF g] eff show ?thesis by metis
  qed
qed

text \<open>The executors, each with the kind it is for.\<close>

lemma dispatch_cases:
  assumes "dispatch env cfg ws fio io parent ar rec d w r = (st, w', r')"
  obtains (none) "w' = w"
  | (memory) "is_memory_action (rm_action_kind rec)"
      "exec_memory env cfg ws fio (io 5) parent (at_model_output ar) rec d w r = (st, w', r')"
  | (device) "rm_action_kind rec = ACTION_DEVICE_WRITE"
      "exec_device env cfg (io 5) parent (at_model_output ar) rec d w r = (st, w', r')"
  | (machine) "rm_action_kind rec = ACTION_MACHINE_PAUSE \<or> rm_action_kind rec = ACTION_MACHINE_RESUME"
      "exec_machine env cfg ws (io 5) parent (at_model_output ar) rec w r = (st, w', r')"
  | (shell) "rm_action_kind rec = ACTION_LOCAL_SHELL"
      "exec_shell env cfg ws (io 5) parent (at_model_output ar) rec d w r = (st, w', r')"
  | (sim) "rm_action_kind rec = ACTION_SIMULATOR" "exec_sim cfg ws io parent ar rec d w r = (st, w', r')"
  using assms unfolding dispatch_def by (simp split: if_splits)

lemma dispatch_usage:
  assumes "dispatch env cfg ws fio io parent ar rec d w r = (st, w', r')"
  shows "ow_usage w' = ow_usage w"
  using assms
  by (cases rule: dispatch_cases)
     (auto simp: exec_memory_def exec_device_def exec_machine_def exec_shell_def exec_sim_def Let_def
       split: option.splits prod.splits if_splits)

lemma tick_usage:
  "spg_orchestrator_tick env cfg ws fio io w = (st, w', out) \<Longrightarrow> ow_usage w' = ow_usage w"
  using tick_through dispatch_usage by metis

section \<open>The budgets\<close>

definition within_budgets :: "policy_config \<Rightarrow> policy_usage \<Rightarrow> bool" where
  "within_budgets policy usage \<longleftrightarrow>
     bd_sim_actions (us_consumed usage) \<le> bd_sim_actions (pc_budgets policy) \<and>
     bd_memory_actions (us_consumed usage) \<le> bd_memory_actions (pc_budgets policy) \<and>
     bd_machine_actions (us_consumed usage) \<le> bd_machine_actions (pc_budgets policy) \<and>
     bd_shell_actions (us_consumed usage) \<le> bd_shell_actions (pc_budgets policy)"

lemma add_u64_below:
  assumes "unat a + unat v \<le> unat b"
  shows "add_u64 a v \<le> b"
proof -
  have fits: "unat a + unat v < 2 ^ 64" using assms u64_bound [of b] by simp
  then have "unat (a + v) = unat a + unat v" by (simp add: unat_word_ariths)
  then show ?thesis using assms fits u64_guard_iff [of v a]
    by (simp add: add_u64_def word_le_nat_alt add.commute)
qed

lemma accumulate_idle:
  assumes "stage_rank (ot_stage r) \<le> stage_rank STAGE_POLICY_GATED"
  shows "within_budgets policy (accumulate_usage usage r) = within_budgets policy usage"
  using assms by (cases "ot_stage r")
    (simp_all add: within_budgets_def accumulate_usage_def Let_def spg_orchestrator_sim_executed_def
      spg_orchestrator_memory_executed_def spg_orchestrator_machine_executed_def spg_orchestrator_shell_executed_def)

lemma charge_within:
  assumes "spg_orchestrator_tick env cfg ws fio io w = (SPG_OK, w', Some r)"
    and "length (pc_capabilities (oe_policy env)) \<le> POLICY_MAX_CAPABILITIES"
    and "within_budgets (oe_policy env) (ow_usage w)"
  shows "within_budgets (oe_policy env) (accumulate_usage (ow_usage w') r)"
proof (cases "stage_rank (ot_stage r) \<le> stage_rank STAGE_POLICY_GATED")
  case True
  then show ?thesis using assms(3) tick_usage [OF assms(1)] by (simp add: accumulate_idle)
next
  case False
  from tick_stage [OF assms(1,2)] False obtain rec i where r: "ot_recommendation r = Some rec"
    "rm_action_kind rec \<in> stage_kinds (ot_stage r)" "rq_kind (rm_action rec) = rm_action_kind rec"
    "gate_grants (gate_view env w (at_model_output (ot_actor r))) rec i" by auto
  have cost: "result_cost r = rq_cost (rm_action rec)" using r(1) by (simp add: result_cost_def)
  have "unat (consumed_for_action (ow_usage w) (rm_action_kind rec)) + unat (result_cost r)
      \<le> unat (global_budget_for_action (oe_policy env) (rm_action_kind rec))"
    using r(3,4) cost by (simp add: gate_grants_def gate_view_def Let_def)
  then have "add_u64 (consumed_for_action (ow_usage w) (rm_action_kind rec)) (result_cost r)
      \<le> global_budget_for_action (oe_policy env) (rm_action_kind rec)" by (rule add_u64_below)
  then show ?thesis
    using r(2) False assms(3) tick_usage [OF assms(1)] unfolding within_budgets_def accumulate_usage_def Let_def
    by (cases "ot_stage r") (auto simp: stage_kinds_def spg_orchestrator_sim_executed_def
      spg_orchestrator_memory_executed_def spg_orchestrator_machine_executed_def spg_orchestrator_shell_executed_def)
qed

lemma service_usage [frame]: "ow_usage (fst (service_watchdog env cfg step parent w)) = ow_usage w"
  by (simp add: service_watchdog_def split: prod.split)

lemma bind_frame [frame]:
  "ow_usage (bind_headers cfg w) = ow_usage w" "effects (bind_headers cfg w) = effects w"
  by (simp_all add: bind_headers_def effects_def)

lemma step_env_frame [simp]:
  "oe_policy (step_env env step lw) = oe_policy (le_orch env)" "oe_kernel (step_env env step lw) = oe_kernel (le_orch env)"
  "oe_os (step_env env step lw) = oe_os (le_orch env)" "oe_realpath (step_env env step lw) = le_realpath env step"
  by (simp_all add: step_env_def)

interpretation budgets: run_invariant
  "\<lambda>env cfg ws w. length (pc_capabilities (oe_policy (le_orch env))) \<le> POLICY_MAX_CAPABILITIES \<and>
     within_budgets (oe_policy (le_orch env)) (ow_usage w)"
proof (unfold_locales, goal_cases)
  case (4 env step lw cfg parent ws fio io w w' r)
  then show ?case using charge_within [OF 4(1)] by simp
qed (auto simp: frame tick_usage)

text \<open>
  C4: No run overdraws the policy: if the consumption of simulator, memory, machine and shell
  actions is within the policy's budgets when a run of the loop starts, it is within them when the
  run ends, however the model behaves and however the run ends.
\<close>

theorem agent_run_within_budgets:
  assumes "spg_agent_loop_run env cfg ws lw = (st, lw', out)"
    and "length (pc_capabilities (oe_policy (le_orch env))) \<le> POLICY_MAX_CAPABILITIES"
    and "within_budgets (oe_policy (le_orch env)) (ow_usage (lw_orch lw))"
  shows "within_budgets (oe_policy (le_orch env)) (ow_usage (lw_orch lw'))"
  using budgets.run_kept [OF assms(1)] assms(2,3) by simp

section \<open>The plant is not charged\<close>

text \<open>
  C7: The write that costs nothing: the consumption of a tick that executed a device write leaves
  every action budget as it was, so the policy's answer to the same device write (or to any other
  machine action) is the same after any number of executed device writes, and the
  \<open>machine_actions\<close> budget never stops them.
\<close>

theorem device_writes_never_charged:
  assumes "list_all (\<lambda>r. ot_stage r = STAGE_DEVICE_EXECUTED) rs"
  shows "spg_policy_decide policy_text policy (foldl accumulate_usage usage rs) rq =
    spg_policy_decide policy_text policy usage rq"
proof -
  have "consumed_for_action (accumulate_usage u r) k = consumed_for_action u k"
    if "ot_stage r = STAGE_DEVICE_EXECUTED" for u r k
    using that by (cases k) (simp_all add: accumulate_usage_def Let_def spg_orchestrator_sim_executed_def
      spg_orchestrator_memory_executed_def spg_orchestrator_machine_executed_def spg_orchestrator_shell_executed_def)
  then have "consumed_for_action (foldl accumulate_usage usage rs) (rq_kind rq) = consumed_for_action usage (rq_kind rq)"
    using assms by (induction rs arbitrary: usage) simp_all
  then show ?thesis unfolding spg_policy_decide_def by (simp only:)
qed

section \<open>The memories and the ledger\<close>

definition memory_file :: "orch_world \<Rightarrow> string \<Rightarrow> string option" where
  "memory_file w slug = Option.bind (map_option ms_files (ow_store w)) (\<lambda>files. map_of files (slug @ ''.md''))"

definition ledger_world :: "orch_world \<Rightarrow> exec_world" where
  "ledger_world w = \<lparr>xw_events = ow_events w, xw_ledger = ow_ledger w, xw_journal = ow_journal w\<rparr>"

lemma effects_frame:
  assumes "effects w' = effects w"
  shows "memory_file w' = memory_file w" "tracked kn (ledger_world w') = tracked kn (ledger_world w)"
  using assms by (simp_all add: effects_def memory_file_def ledger_world_def tracked_def fun_eq_iff)

lemma service_frame [frame]:
  "memory_file (fst (service_watchdog env cfg step parent w)) = memory_file w"
  "tracked kn (ledger_world (fst (service_watchdog env cfg step parent w))) = tracked kn (ledger_world w)"
  by (simp_all add: service_watchdog_def memory_file_def ledger_world_def tracked_def fun_eq_iff split: prod.split)

lemma mem_step_frame:
  assumes "spg_mem_executor_step rd fio cfg cap rc source rec d io s = (st, s', out)" "spg_mem_slug_reserved slug"
  shows "map_of (ms_files (mw_store s')) (slug @ ''.md'') = map_of (ms_files (mw_store s)) (slug @ ''.md'')"
  using mem_call_frame [OF assms(2), of rd cfg cap rc s
      "\<lparr>ml_io = fio, ml_source = source, ml_rec = rec, ml_decision = d, ml_write = io\<rparr>"] assms(1)
  by (simp add: mem_call_step_def files_of_def)

lemma dispatch_reserved:
  assumes "dispatch env cfg ws fio io parent ar rec d w r = (st, w', r')" "spg_mem_slug_reserved slug"
  shows "memory_file w' slug = memory_file w slug"
  using assms(1)
proof (cases rule: dispatch_cases)
  case memory
  then show ?thesis using mem_step_frame [OF _ assms(2)]
    by (cases "ow_store w") (auto simp: exec_memory_def memory_file_def split: prod.splits)
qed (auto simp: exec_device_def exec_machine_def exec_shell_def exec_sim_def memory_file_def Let_def
      split: option.splits prod.splits if_splits)

lemma tick_reserved:
  assumes "spg_orchestrator_tick env cfg ws fio io w = (st, w', out)" "spg_mem_slug_reserved slug"
  shows "memory_file w' slug = memory_file w slug"
  using tick_through [OF assms(1)]
proof (elim disjE exE conjE)
  assume "effects w' = effects w"
  from effects_frame(1) [OF this] show ?thesis by simp
next
  fix w2 parent ar rec d r1 r2
  assume e: "effects w2 = effects w" and d: "dispatch env cfg ws fio io parent ar rec d w2 r1 = (st, w', r2)"
  show ?thesis using effects_frame(1) [OF e] dispatch_reserved [OF d assms(2)] by simp
qed

lemma dispatch_tracked:
  assumes "dispatch env cfg ws fio io parent ar rec d w r = (st, w', r')" "tracked (oe_kernel env) (ledger_world w)"
  shows "tracked (oe_kernel env) (ledger_world w')"
  using assms(1)
proof (cases rule: dispatch_cases)
  case machine
  show ?thesis
  proof (cases "target_text (at_model_output ar) rec")
    case None
    then show ?thesis using machine assms(2) by (simp add: exec_machine_def)
  next
    case (Some target)
    obtain st1 xw out where s: "spg_machine_executor_step (oe_kernel env)
        \<lparr>mx_actor_id = oc_actor_id cfg, mx_timestamp_ns = oc_timestamp_ns cfg, mx_parent_sequence = parent,
         mx_write_journal = oc_write_journal cfg, mx_execution_enabled = oc_execution_enabled cfg\<rparr>
        (ow_machine w) (rm_action_kind rec) target (ob_sim_payload_capacity ws) (io 5) (ledger_world w) = (st1, xw, out)"
      by (rule prod_cases3)
    then have "xw_events xw = ow_events w'" "xw_ledger xw = ow_ledger w'"
      using machine(2) Some by (auto simp: exec_machine_def ledger_world_def)
    then show ?thesis using step_tracked [OF s assms(2)] by (simp add: tracked_def ledger_world_def)
  qed
qed (use assms(2) in \<open>auto simp: exec_device_def exec_memory_def exec_shell_def exec_sim_def ledger_world_def tracked_def Let_def
      split: option.splits prod.splits if_splits\<close>)

lemma tick_tracked:
  assumes "spg_orchestrator_tick env cfg ws fio io w = (st, w', out)" "tracked (oe_kernel env) (ledger_world w)"
  shows "tracked (oe_kernel env) (ledger_world w')"
  using tick_through [OF assms(1)]
proof (elim disjE exE conjE)
  assume "effects w' = effects w"
  from effects_frame(2) [OF this] assms(2) show ?thesis by simp
next
  fix w2 parent ar rec d r1 r2
  assume e: "effects w2 = effects w" and d: "dispatch env cfg ws fio io parent ar rec d w2 r1 = (st, w', r2)"
  show ?thesis using effects_frame(2) [OF e] assms(2) dispatch_tracked [OF d] by simp
qed

lemma world_update_frame [simp]:
  "memory_file (w\<lparr>ow_usage := u\<rparr>) = memory_file w" "memory_file (w\<lparr>ow_observation := obs\<rparr>) = memory_file w"
  "memory_file (w\<lparr>ow_machine := m\<rparr>) = memory_file w"
  "memory_file (w\<lparr>ow_device := dv, ow_log := l\<rparr>) = memory_file w"
  "ledger_world (w\<lparr>ow_usage := u\<rparr>) = ledger_world w" "ledger_world (w\<lparr>ow_observation := obs\<rparr>) = ledger_world w"
  "ledger_world (w\<lparr>ow_machine := m\<rparr>) = ledger_world w"
  "ledger_world (w\<lparr>ow_device := dv, ow_log := l\<rparr>) = ledger_world w"
  by (simp_all add: memory_file_def ledger_world_def fun_eq_iff)

interpretation reserved: run_invariant
  "\<lambda>env cfg ws w. spg_mem_slug_reserved slug \<and> memory_file w slug = contents" for slug contents
  by unfold_locales (auto simp: frame effects_frame [OF bind_frame(2)] tick_reserved)

interpretation ledger: run_invariant "\<lambda>env cfg ws w. tracked (oe_kernel (le_orch env)) (ledger_world w)"
proof (unfold_locales, goal_cases)
  case (3 env step lw cfg parent ws fio io w st w' out)
  then show ?case using tick_tracked [of "step_env env step lw"] by simp
next
  case (4 env step lw cfg parent ws fio io w w' r)
  then show ?case using tick_tracked [of "step_env env step lw"] by simp
qed (simp_all add: frame effects_frame [OF bind_frame(2)])

text \<open>
  C5: A whole run keeps its hands off what is not its own to write, and lets no process go: after
  any run, however it ends, every memory of a reserved slug has the contents it had; and if the
  pause ledger held every process stopped so far when the run began, it does when it ends, with no
  signal sent other than right after the identity of its target was confirmed.
\<close>

theorem agent_run_keeps_promises:
  assumes "spg_agent_loop_run env cfg ws lw = (st, lw', out)"
    and "spg_mem_slug_reserved slug" and "tracked (oe_kernel (le_orch env)) (ledger_world (lw_orch lw))"
  shows "memory_file (lw_orch lw') slug = memory_file (lw_orch lw) slug \<and>
    outstanding (ow_events (lw_orch lw')) \<subseteq> set (keys_of (ow_ledger (lw_orch lw'))) \<and>
    guarded (oe_kernel (le_orch env)) (ow_events (lw_orch lw'))"
  using reserved.run_kept [OF assms(1), of slug "memory_file (lw_orch lw) slug"] assms(2)
    ledger.run_kept [OF assms(1) assms(3)] by (simp add: tracked_def ledger_world_def)

section \<open>What a run reports\<close>

text \<open>The counters of a run under way, and of one that is over.\<close>

definition tally :: "loop_config \<Rightarrow> nat \<Rightarrow> loop_state \<Rightarrow> bool" where
  "tally cfg step s \<longleftrightarrow> lr_steps_taken (ls_result s) = step \<and> lr_repairs_used (ls_result s) \<le> lc_max_repairs cfg \<and>
     lr_actions_executed (ls_result s) + lr_repairs_used (ls_result s) \<le> step \<and>
     lr_termination (ls_result s) = LOOP_MAX_STEPS"

definition final_tally :: "loop_config \<Rightarrow> nat \<Rightarrow> spg_status \<Rightarrow> loop_result \<Rightarrow> bool" where
  "final_tally cfg bound st res \<longleftrightarrow> lr_steps_taken res \<le> bound \<and> lr_repairs_used res \<le> lc_max_repairs cfg \<and>
     lr_actions_executed res + lr_repairs_used res \<le> lr_steps_taken res \<and>
     (st = SPG_OK \<longleftrightarrow> lr_termination res \<noteq> LOOP_ERROR) \<and>
     (lr_termination res = LOOP_MAX_STEPS \<longrightarrow> lr_steps_taken res = bound)"

definition next_tally :: "loop_config \<Rightarrow> nat \<Rightarrow> loop_next \<Rightarrow> bool" where
  "next_tally cfg step nxt =
     (case nxt of Inl s \<Rightarrow> tally cfg step s
      | Inr (st, s) \<Rightarrow> final_tally cfg step st (ls_result s) \<and> lr_termination (ls_result s) \<noteq> LOOP_MAX_STEPS)"

lemma latch_frame [simp]:
  "lr_steps_taken (latch_marker cfg ws w res) = lr_steps_taken res"
  "lr_repairs_used (latch_marker cfg ws w res) = lr_repairs_used res"
  "lr_actions_executed (latch_marker cfg ws w res) = lr_actions_executed res"
  "lr_termination (latch_marker cfg ws w res) = lr_termination res"
  by (simp_all add: latch_marker_def split: option.split)

text \<open>What is left of the result when the tick of this step has succeeded.\<close>

definition ticked :: "loop_config \<Rightarrow> nat \<Rightarrow> loop_result \<Rightarrow> bool" where
  "ticked cfg step res \<longleftrightarrow> lr_steps_taken res = Suc step \<and> lr_repairs_used res \<le> lc_max_repairs cfg \<and>
     lr_actions_executed res + lr_repairs_used res \<le> step \<and> lr_termination res = LOOP_MAX_STEPS"

lemma stop_tally:
  "ticked cfg step (ls_result s) \<Longrightarrow> t \<noteq> LOOP_MAX_STEPS \<Longrightarrow> t \<noteq> LOOP_ERROR \<Longrightarrow> next_tally cfg (Suc step) (stop t s)"
  by (simp add: ticked_def next_tally_def stop_def final_tally_def)

lemma action_tally:
  "ticked cfg step (ls_result s) \<Longrightarrow> next_tally cfg (Suc step) (after_action env cfg ws step r s)"
  by (auto simp: after_action_def no_progress_def next_tally_def tally_def final_tally_def ticked_def stop_def Let_def
      split: prod.split if_splits)

lemma judge_tally:
  assumes "ticked cfg step (ls_result s)"
  shows "next_tally cfg (Suc step) (judge_tick env cfg ws step r s)"
  using assms action_tally [OF assms] stop_tally [OF assms]
  by (auto simp: judge_tick_def next_tally_def tally_def ticked_def may_repair_def split: option.split bool.split)

lemma tick_ok_result: "spg_orchestrator_tick env cfg ws fio io w = (SPG_OK, w', out) \<Longrightarrow> out \<noteq> None"
  by (auto simp: spg_orchestrator_tick_def Let_def split: if_splits prod.splits)

lemma step_tally:
  assumes "tally cfg step s"
  shows "next_tally cfg (Suc step) (loop_step env cfg ws step s)"
proof (cases "budget_reached env cfg step (ow_usage (lw_orch (ls_world s)))")
  case True
  then show ?thesis using assms
    by (simp add: loop_step_def stop_def next_tally_def tally_def final_tally_def)
next
  case False
  obtain w parent where wd: "service_watchdog env cfg step (ls_parent s) (lw_orch (ls_world s)) = (w, parent)"
    by fastforce
  define lw where "lw = (ls_world s)\<lparr>lw_orch := w,
    lw_headers := (if feedback cfg w then header_count w else lw_headers (ls_world s))\<rparr>"
  obtain st w' out where t: "spg_orchestrator_tick (step_env env step lw) (step_config cfg step parent) ws
      (le_files env step) (le_io env step) w = (st, w', out)" by (rule prod_cases3)
  define s1 where "s1 = s\<lparr>ls_world := lw\<lparr>lw_orch := w'\<rparr>, ls_parent := parent,
    ls_result := (ls_result s)\<lparr>lr_steps_taken := step + 1, lr_last := out, lr_last_status := st\<rparr>\<rparr>"
  have ticked: "ticked cfg step (ls_result s1)" using assms by (simp add: s1_def ticked_def tally_def)
  have step_eq: "loop_step env cfg ws step s = (case (st, out) of (SPG_OK, Some res) \<Rightarrow> after_tick env cfg ws step res w' s1
      | _ \<Rightarrow> Inr (st, s1\<lparr>ls_result := (ls_result s1)\<lparr>lr_termination := LOOP_ERROR\<rparr>\<rparr>))"
    using False wd t unfolding loop_step_def Let_def lw_def s1_def by simp
  show ?thesis
  proof (cases "st = SPG_OK")
    case True
    then obtain r where "out = Some r" using tick_ok_result t by blast
    moreover have "next_tally cfg (Suc step) (after_tick env cfg ws step r w' s1)" for r
      using ticked unfolding after_tick_def Let_def by (intro judge_tally) (simp add: ticked_def)
    ultimately show ?thesis using True step_eq by simp
  next
    case False
    then show ?thesis using ticked step_eq by (cases st) (simp_all add: next_tally_def final_tally_def ticked_def)
  qed
qed

lemma loop_tally:
  "loop_from n env cfg ws step s = (st, s') \<Longrightarrow> tally cfg step s \<Longrightarrow> final_tally cfg (step + n) st (ls_result s')"
proof (induction n arbitrary: step s)
  case 0
  then show ?case by (simp add: tally_def final_tally_def)
next
  case (Suc n)
  note t = step_tally [OF Suc.prems(2), of env ws]
  show ?case
  proof (cases "loop_step env cfg ws step s")
    case (Inl s1)
    then show ?thesis using Suc.IH [of "Suc step" s1] Suc.prems t by (simp add: next_tally_def)
  next
    case (Inr e)
    then show ?thesis using Suc.prems t by (auto simp: next_tally_def final_tally_def)
  qed
qed

text \<open>
  C6: The loop always ends and its report adds up: a run takes at most the configured number of
  steps, exactly that many when it ends for want of steps; it repairs at most as often as allowed;
  no step is counted both as an action and as a repair; and it returns a failure exactly when it
  reports one.
\<close>

theorem agent_run_reports:
  "case spg_agent_loop_run env cfg ws lw of
     (st, lw', None) \<Rightarrow> st = SPG_E_INVALID_ARG \<and> lc_max_steps cfg = 0 \<and> lw' = lw
   | (st, lw', Some res) \<Rightarrow> final_tally cfg (lc_max_steps cfg) st res"
proof (cases "lc_max_steps cfg = 0")
  case True
  then show ?thesis by (simp add: spg_agent_loop_run_def)
next
  case False
  obtain st s where l: "loop_from (lc_max_steps cfg) env cfg ws 0 (start_loop cfg lw) = (st, s)" by fastforce
  have "tally cfg 0 (start_loop cfg lw)" by (simp add: tally_def start_loop_def zero_loop_result_def)
  from loop_tally [OF l this] show ?thesis using False l by (simp add: spg_agent_loop_run_def)
qed

section \<open>A run of the scripted model\<close>

definition finish_loop_env :: loop_env where
  "finish_loop_env = \<lparr>le_orch = finish_env, le_realpath = (\<lambda>_. Some), le_actor = (\<lambda>_ lw idx. oe_actor finish_env (lw_orch lw) idx),
     le_clock = (\<lambda>_. 0), le_files = (\<lambda>_. no_files), le_io = (\<lambda>_. no_io),
     le_watchdog_io = (\<lambda>_. no_io 0), le_host = (\<lambda>_ _. None)\<rparr>"

definition finish_loop_config :: loop_config where
  "finish_loop_config = \<lparr>lc_base = finish_config, lc_max_steps = 4, lc_token_budget = 0, lc_step_budget = 0,
     lc_refresh_machine = False, lc_wall_budget_ms = 0, lc_max_repairs = 1, lc_finish_on_no_progress = True,
     lc_observation_marker = None, lc_lesson_budget_bytes = 0, lc_header_capacity = 0\<rparr>"

definition finish_loop_world :: loop_world where
  "finish_loop_world = \<lparr>lw_orch = finish_world\<lparr>ow_store := Some small_store, ow_ledger := Some []\<rparr>, lw_history = None,
     lw_readings = None, lw_headers = 0, lw_machine_after = None\<rparr>"

abbreviation finish_run :: "spg_status \<times> loop_world \<times> loop_result option" where
  "finish_run \<equiv> spg_agent_loop_run finish_loop_env finish_loop_config finish_workspace finish_loop_world"

lemma finish_policy: "length (pc_capabilities (oe_policy (le_orch finish_loop_env))) \<le> POLICY_MAX_CAPABILITIES"
  by (simp add: finish_loop_env_def finish_env_def zero_policy_config_def)

theorem agent_run_within_budgets_witness:
  "case finish_run of (st, lw', out) \<Rightarrow> within_budgets zero_policy_config (ow_usage (lw_orch lw'))"
proof -
  obtain st lw' out where r: "finish_run = (st, lw', out)" by (rule prod_cases3)
  have p: "oe_policy (le_orch finish_loop_env) = zero_policy_config"
    by (simp add: finish_loop_env_def finish_env_def)
  have "within_budgets (oe_policy (le_orch finish_loop_env)) (ow_usage (lw_orch finish_loop_world))"
    by (simp add: within_budgets_def finish_loop_world_def finish_world_def p zero_policy_config_def)
  from agent_run_within_budgets [OF r finish_policy this] show ?thesis by (simp add: r p)
qed

text \<open>A policy for one machine action in all, and a device write of cost one.\<close>

definition one_write_policy :: policy_config where
  "one_write_policy = \<lparr>pc_network_default = NETWORK_DENY, pc_budgets = zero_budgets\<lparr>bd_machine_actions := 1\<rparr>,
     pc_capabilities = [\<lparr>cp_name = mk_span 0 3, cp_kind = CAP_DEVICE, cp_enabled = True, cp_budget = 1\<rparr>]\<rparr>"

definition write_request :: action_request where
  "write_request = \<lparr>rq_kind = ACTION_DEVICE_WRITE, rq_capability = mk_span 0 3, rq_uses_network = False, rq_cost = 1\<rparr>"

lemma one_write_allowed: "spg_policy_decide ''fan'' one_write_policy \<lparr>us_consumed = zero_budgets\<rparr> write_request = allow 0"
  by code_simp

theorem device_writes_never_charged_witness:
  "spg_policy_decide ''fan'' one_write_policy
     (foldl accumulate_usage \<lparr>us_consumed = zero_budgets\<rparr>
       (replicate 3 (start_tick STAGE_DEVICE_EXECUTED zero_actor_result))) write_request = allow 0"
proof -
  have "list_all (\<lambda>r. ot_stage r = STAGE_DEVICE_EXECUTED) (replicate 3 (start_tick STAGE_DEVICE_EXECUTED zero_actor_result))"
    by (simp add: start_tick_def list_all_iff)
  from device_writes_never_charged [OF this] show ?thesis by (simp add: one_write_allowed)
qed

theorem agent_run_keeps_promises_witness:
  "case finish_run of (st, lw', out) \<Rightarrow>
     memory_file (lw_orch lw') ''lesson-a'' = Some (memory_text ''lesson-a'' ''x'' 1 ''y'')"
proof -
  obtain st lw' out where r: "finish_run = (st, lw', out)" by (rule prod_cases3)
  have m: "memory_file (lw_orch finish_loop_world) ''lesson-a'' = Some (memory_text ''lesson-a'' ''x'' 1 ''y'')"
    by (simp add: memory_file_def finish_loop_world_def small_store_def)
  have "spg_mem_slug_reserved ''lesson-a''" by (simp add: spg_mem_slug_reserved_def reserved_prefixes_def)
  moreover have "tracked (oe_kernel (le_orch finish_loop_env)) (ledger_world (lw_orch finish_loop_world))"
    by (simp add: tracked_def ledger_world_def finish_loop_world_def finish_world_def outstanding_def keys_of_def guarded_def)
  ultimately show ?thesis using agent_run_keeps_promises [OF r] by (simp add: r m)
qed

end
