(* ===== verification/Process.thy ===== *)
theory Process
  imports Telemetry "HOL-Library.Multiset"
begin

text \<open>
  Process telemetry, \<open>src/machine/process.c\<close> and \<open>src/machine/telemetry_host.c\<close>: the parser of one
  \<open>/proc/<pid>/stat\<close> line, per-process CPU, the ranking, the bounded buffer of the best candidates,
  the selection into the snapshot, and the sampler over the answers of a backend.
\<close>

section \<open>One line of the process table\<close>

definition printable :: "char \<Rightarrow> char" where
  "printable c = (if code_of c \<ge> 32 \<and> code_of c < 128 \<and> code_of c \<noteq> 127 then c else CHR ''?'')"

definition copy_name :: "nat \<Rightarrow> string \<Rightarrow> string" where
  "copy_name cap src = map printable (take (cap - 1) src)"

definition blank_sample :: process_sample where
  "blank_sample = \<lparr>ps_pid = 0, ps_start_identity = 0, ps_name = [], ps_state = ch_nul, ps_nice = 0,
     ps_cpu_time = 0, ps_cpu_bp = MACHINE_UNKNOWN, ps_rss_bytes = MACHINE_UNKNOWN,
     ps_profile_index = PROCESS_NO_PROFILE, ps_profile_id = [], ps_role = ROLE_UNKNOWN,
     ps_may_pause = False, ps_may_stop = False\<rparr>"

text \<open>What the field loop has collected: the sample, the field number, user and system time.\<close>

record stat_fields =
  sf_sample :: process_sample
  sf_field :: nat
  sf_utime :: "u64 option"
  sf_stime :: "u64 option"

definition take_field :: "u64 \<Rightarrow> string \<Rightarrow> stat_fields \<Rightarrow> spg_status \<times> stat_fields" where
  "take_field page_bytes rest f =
     (let n = sf_field f; p = sf_sample f;
          number = (\<lambda>s store. case tm_scan_u64 s of None \<Rightarrow> (SPG_E_OVERFLOW, f) | Some (v, _) \<Rightarrow> (SPG_OK, store v))
      in if n = 3 then (SPG_OK, f\<lparr>sf_sample := p\<lparr>ps_state := hd rest\<rparr>\<rparr>)
         else if n = 14 then number rest (\<lambda>v. f\<lparr>sf_utime := Some v\<rparr>)
         else if n = 15 then number rest (\<lambda>v. f\<lparr>sf_stime := Some v\<rparr>)
         else if n = 19 then
           (let minus = hd rest = CHR ''-''
            in case tm_scan_u64 (if minus then tl rest else rest) of
                 None \<Rightarrow> (SPG_E_FORMAT, f)
               | Some (v, _) \<Rightarrow>
                   if v > 9223372036854775807 then (SPG_E_OVERFLOW, f)
                   else (SPG_OK, f\<lparr>sf_sample := p\<lparr>ps_nice := if minus then - uint v else uint v\<rparr>\<rparr>))
         else if n = 22 then number rest (\<lambda>v. f\<lparr>sf_sample := p\<lparr>ps_start_identity := v\<rparr>\<rparr>)
         else if n = 24 then
           number rest (\<lambda>v. if page_bytes \<noteq> 0 \<and> v \<le> counter_max div page_bytes
                            then f\<lparr>sf_sample := p\<lparr>ps_rss_bytes := v * page_bytes\<rparr>\<rparr> else f)
         else (SPG_OK, f))"

lemma token_shorter:
  assumes "rest = dropWhile (\<lambda>c. c = CHR '' '') buf" "rest \<noteq> []" "hd rest \<noteq> ch_nl"
  shows "length (dropWhile (\<lambda>c. c \<noteq> CHR '' '' \<and> c \<noteq> ch_nl) rest) < length buf"
proof -
  have "length rest \<le> length buf" unfolding assms(1) by (rule length_dropWhile_le)
  moreover have "hd rest \<noteq> CHR '' ''" using assms(1,2) hd_dropWhile [of "\<lambda>c. c = CHR '' ''" buf] by auto
  then have "dropWhile (\<lambda>c. c \<noteq> CHR '' '' \<and> c \<noteq> ch_nl) rest = dropWhile (\<lambda>c. c \<noteq> CHR '' '' \<and> c \<noteq> ch_nl) (tl rest)"
    using assms(2,3) by (cases rest) auto
  then have "length (dropWhile (\<lambda>c. c \<noteq> CHR '' '' \<and> c \<noteq> ch_nl) rest) \<le> length (tl rest)"
    using length_dropWhile_le [of _ "tl rest"] by simp
  ultimately show ?thesis using assms(2) by (cases rest) auto
qed

function fields_loop :: "u64 \<Rightarrow> string \<Rightarrow> stat_fields \<Rightarrow> spg_status \<times> stat_fields" where
  "fields_loop page_bytes buf f =
     (let rest = dropWhile (\<lambda>c. c = CHR '' '') buf in
      if rest = [] \<or> hd rest = ch_nl then (SPG_OK, f)
      else (case take_field page_bytes rest (f\<lparr>sf_field := sf_field f + 1\<rparr>) of
              (st, f') \<Rightarrow>
                if st \<noteq> SPG_OK then (st, f')
                else fields_loop page_bytes (dropWhile (\<lambda>c. c \<noteq> CHR '' '' \<and> c \<noteq> ch_nl) rest) f'))"
  by pat_completeness auto
termination
  by (relation "measure (\<lambda>(_, buf, _). length buf)") (auto intro: token_shorter)

declare fields_loop.simps [simp del]

text \<open>The line splits at the first opening and the last closing parenthesis.\<close>

definition split_comm :: "string \<Rightarrow> (string \<times> string) option" where
  "split_comm buf =
     (case dropWhile (\<lambda>c. c \<noteq> CHR ''('') buf of
        [] \<Rightarrow> None
      | _ # inner \<Rightarrow>
          (case dropWhile (\<lambda>c. c \<noteq> CHR '')'') (rev inner) of
             [] \<Rightarrow> None
           | _ # comm \<Rightarrow> Some (rev comm, rev (takeWhile (\<lambda>c. c \<noteq> CHR '')'') (rev inner)))))"

definition spg_process_parse_stat :: "string \<Rightarrow> u64 \<Rightarrow> spg_status \<times> process_sample" where
  "spg_process_parse_stat buf page_bytes =
     (case tm_scan_u64 buf of
        None \<Rightarrow> (SPG_E_FORMAT, blank_sample)
      | Some (pid, buf') \<Rightarrow>
          (case split_comm buf' of
             None \<Rightarrow> (SPG_E_FORMAT, blank_sample\<lparr>ps_pid := pid\<rparr>)
           | Some (comm, rest) \<Rightarrow>
               (case fields_loop page_bytes rest
                       \<lparr>sf_sample = blank_sample\<lparr>ps_pid := pid, ps_name := copy_name PROCESS_NAME_CAP comm\<rparr>,
                        sf_field = 2, sf_utime = None, sf_stime = None\<rparr> of
                  (st, f) \<Rightarrow>
                    if st \<noteq> SPG_OK then (st, sf_sample f)
                    else (case (sf_utime f, sf_stime f) of
                            (Some utime, Some stime) \<Rightarrow>
                              if sf_field f < 22 then (SPG_E_FORMAT, blank_sample)
                              else if utime > counter_max - stime then (SPG_E_OVERFLOW, sf_sample f)
                              else (SPG_OK, (sf_sample f)\<lparr>ps_cpu_time := utime + stime\<rparr>)
                          | _ \<Rightarrow> (SPG_E_FORMAT, blank_sample)))))"

section \<open>Rates and ranks\<close>

definition spg_process_utilisation_bp :: "process_sample option \<Rightarrow> process_sample \<Rightarrow> u64 \<Rightarrow> u64" where
  "spg_process_utilisation_bp prev cur total_delta =
     (case prev of
        None \<Rightarrow> MACHINE_UNKNOWN
      | Some p \<Rightarrow>
          if total_delta = 0 \<or> ps_pid p \<noteq> ps_pid cur \<or> ps_start_identity p \<noteq> ps_start_identity cur \<or>
             ps_cpu_time cur < ps_cpu_time p then MACHINE_UNKNOWN
          else (let busy = ps_cpu_time cur - ps_cpu_time p
                in if busy \<ge> total_delta then 10000 else busy * 10000 div total_delta))"

definition spg_process_find :: "process_sample list \<Rightarrow> u64 \<Rightarrow> u64 \<Rightarrow> process_sample option" where
  "spg_process_find procs pid ident =
     List.find (\<lambda>p. ps_pid p = pid \<and> ps_start_identity p = ident) procs"

definition known_or_zero :: "u64 \<Rightarrow> u64" where
  "known_or_zero v = (if v = MACHINE_UNKNOWN then 0 else v)"

definition ranks_before :: "process_sample \<Rightarrow> process_sample \<Rightarrow> bool" where
  "ranks_before a b =
     (let a_managed = ps_profile_index a \<noteq> PROCESS_NO_PROFILE; b_managed = ps_profile_index b \<noteq> PROCESS_NO_PROFILE;
          a_cpu = known_or_zero (ps_cpu_bp a); b_cpu = known_or_zero (ps_cpu_bp b);
          a_rss = known_or_zero (ps_rss_bytes a); b_rss = known_or_zero (ps_rss_bytes b)
      in if a_managed \<noteq> b_managed then a_managed
         else if a_cpu \<noteq> b_cpu then a_cpu > b_cpu
         else if a_rss \<noteq> b_rss then a_rss > b_rss
         else ps_pid a < ps_pid b)"

section \<open>The best of many\<close>

definition MACHINE_MAX_PROCESSES :: nat where "MACHINE_MAX_PROCESSES = 64"
definition MACHINE_RAW_PROCESSES :: nat where "MACHINE_RAW_PROCESSES = 1024"

definition worst_index :: "process_sample list \<Rightarrow> nat" where
  "worst_index buf = foldl (\<lambda>worst i. if ranks_before (buf ! worst) (buf ! i) then i else worst) 0 [1..<length buf]"

text \<open>A full buffer gives up its weakest entry, but only for something stronger.\<close>

definition spg_process_offer :: "nat \<Rightarrow> process_sample list \<Rightarrow> process_sample \<Rightarrow> process_sample list \<times> bool" where
  "spg_process_offer cap buf candidate =
     (if cap = 0 then (buf, False)
      else if length buf < cap then (buf @ [candidate], True)
      else (let worst = worst_index buf
            in if \<not> ranks_before candidate (buf ! worst) then (buf, False)
               else (buf[worst := candidate], True)))"

definition best_index :: "process_sample list \<Rightarrow> bool list \<Rightarrow> nat option" where
  "best_index procs taken =
     foldl (\<lambda>best i. if taken ! i then best
                    else (case best of None \<Rightarrow> Some i
                          | Some b \<Rightarrow> if ranks_before (procs ! i) (procs ! b) then Some i else best))
       None [0..<length procs]"

primrec select_loop :: "nat \<Rightarrow> process_sample list \<Rightarrow> bool list \<Rightarrow> process_sample list" where
  "select_loop 0 procs taken = []"
| "select_loop (Suc k) procs taken =
     (case best_index procs taken of
        None \<Rightarrow> []
      | Some b \<Rightarrow> procs ! b # select_loop k procs (taken[b := True]))"

definition spg_process_select :: "process_sample list \<Rightarrow> nat \<Rightarrow> spg_status \<times> process_sample list \<times> bool" where
  "spg_process_select procs out_cap =
     (if length procs > MACHINE_MAX_PROCESSES then (SPG_E_LIMIT, [], length procs > out_cap)
      else (SPG_OK, select_loop out_cap procs (replicate MACHINE_MAX_PROCESSES False), length procs > out_cap))"

section \<open>The sampler\<close>

text \<open>
  What the backend of the host answers: \<open>None\<close> is a question it cannot answer. A null profile is the
  empty one.
\<close>

record backend_answers =
  bk_live :: bool
  bk_cpu :: "cpu_sample option"
  bk_memory :: "memory_sample option"
  bk_load :: "u64 option"
  bk_temperature :: "i64 option"
  bk_frequency_khz :: "u64 option"
  bk_throttle :: "throttle_state option"
  bk_processes :: "(process_sample list \<times> u64) option"

definition state_init :: "u64 \<Rightarrow> machine_state" where
  "state_init timestamp_ns =
     \<lparr>mc_timestamp_ns = timestamp_ns, mc_cpu_utilisation_bp = MACHINE_UNKNOWN, mc_load_1_cbp = MACHINE_UNKNOWN,
      mc_memory = \<lparr>ms_total_bytes = MACHINE_UNKNOWN, ms_used_bytes = MACHINE_UNKNOWN, ms_swap_used_bytes = MACHINE_UNKNOWN\<rparr>,
      mc_temperature_mc = MACHINE_UNKNOWN_S, mc_cpu_freq_khz = MACHINE_UNKNOWN, mc_throttle = THROTTLE_UNKNOWN,
      mc_process_count = MACHINE_UNKNOWN, mc_cpu = \<lparr>cs_idle = 0, cs_total = 0\<rparr>,
      mc_processes_truncated = False, mc_processes = []\<rparr>"

text \<open>Roles first, then the rate; what carries no signal and is not managed is left out.\<close>

definition rate_process :: "process_profile \<Rightarrow> process_sample list \<Rightarrow> u64 \<Rightarrow> process_sample \<Rightarrow> process_sample" where
  "rate_process profile prev total_delta p =
     (let q = apply_one profile p
      in q\<lparr>ps_cpu_bp := spg_process_utilisation_bp (spg_process_find prev (ps_pid q) (ps_start_identity q)) q total_delta\<rparr>)"

definition carries_signal :: "process_sample \<Rightarrow> bool" where
  "carries_signal p \<longleftrightarrow>
     (ps_rss_bytes p \<noteq> 0 \<and> ps_rss_bytes p \<noteq> MACHINE_UNKNOWN) \<or>
     (ps_cpu_bp p \<noteq> MACHINE_UNKNOWN \<and> ps_cpu_bp p \<noteq> 0) \<or> ps_profile_index p \<noteq> PROCESS_NO_PROFILE"

definition offer_all :: "nat \<Rightarrow> process_sample list \<Rightarrow> process_sample list \<Rightarrow> process_sample list" where
  "offer_all cap = foldl (\<lambda>kept p. if carries_signal p then fst (spg_process_offer cap kept p) else kept)"

definition select_processes ::
  "process_sample list \<Rightarrow> process_sample list \<Rightarrow> u64 \<Rightarrow> process_profile \<Rightarrow> machine_state \<Rightarrow> machine_state" where
  "select_processes raw prev total_delta profile out =
     (let kept = offer_all MACHINE_MAX_PROCESSES [] (map (rate_process profile prev total_delta) raw)
      in case spg_process_select kept MACHINE_MAX_PROCESSES of
           (st, procs, truncated) \<Rightarrow> out\<lparr>mc_processes := procs, mc_processes_truncated := truncated\<rparr>)"

definition spg_machine_sample_with_processes ::
  "backend_answers \<Rightarrow> u64 \<Rightarrow> cpu_sample option \<Rightarrow> process_sample list \<Rightarrow> process_profile \<Rightarrow> spg_status \<times> machine_state" where
  "spg_machine_sample_with_processes bk timestamp_ns prev prev_procs profile =
     (let out = state_init timestamp_ns in
      if \<not> bk_live bk then (SPG_E_UNSUPPORTED, out)
      else
        (let keep = (\<lambda>answer default. case answer of None \<Rightarrow> default | Some v \<Rightarrow> v);
             out = (case bk_cpu bk of None \<Rightarrow> out
               | Some c \<Rightarrow> out\<lparr>mc_cpu := c, mc_cpu_utilisation_bp := spg_telemetry_utilisation_bp prev c\<rparr>);
             total_delta = (case (bk_cpu bk, prev) of
               (Some c, Some p) \<Rightarrow> if cs_total c \<ge> cs_total p then cs_total c - cs_total p else 0 | _ \<Rightarrow> 0);
             out = out\<lparr>mc_memory := (case bk_memory bk of None \<Rightarrow> mc_memory out | Some v \<Rightarrow> v),
               mc_load_1_cbp := keep (bk_load bk) (mc_load_1_cbp out),
               mc_temperature_mc := (case bk_temperature bk of None \<Rightarrow> mc_temperature_mc out | Some v \<Rightarrow> v),
               mc_cpu_freq_khz := keep (bk_frequency_khz bk) (mc_cpu_freq_khz out),
               mc_throttle := (case bk_throttle bk of None \<Rightarrow> mc_throttle out | Some v \<Rightarrow> v)\<rparr>
         in case bk_processes bk of
              None \<Rightarrow> (SPG_OK, out)
            | Some (raw, tot) \<Rightarrow>
                (let out = select_processes (take MACHINE_RAW_PROCESSES raw) prev_procs total_delta profile
                             (out\<lparr>mc_process_count := tot\<rparr>)
                 in (SPG_OK, out\<lparr>mc_processes_truncated :=
                      (mc_processes_truncated out \<or> tot > of_nat (length (mc_processes out)))\<rparr>))))"

end
