(* ===== verification/ProcessProps.thy ===== *)
theory ProcessProps
  imports Process "HOL-Library.Product_Lexorder"
begin

text \<open>
  The snapshot holds the best processes: the ranking is a linear order, the buffer keeps the least
  by it, the selection sorts them, and together the two are the first 64 of a sorted list, in
  whatever order the host enumerated its processes.
\<close>

section \<open>The rank\<close>

text \<open>Greater values come first.\<close>

definition down :: "u64 \<Rightarrow> nat" where
  "down v = 2 ^ 64 - unat v"

lemma down_less: "down a < down b \<longleftrightarrow> b < a"
  and down_eq: "down a = down b \<longleftrightarrow> a = b"
  and down_le: "down a \<le> down b \<longleftrightarrow> b \<le> a"
proof -
  have "unat a < 2 ^ 64" "unat b < 2 ^ 64" by (simp_all add: bounds)
  then show "down a < down b \<longleftrightarrow> b < a" "down a = down b \<longleftrightarrow> a = b"
    "down a \<le> down b \<longleftrightarrow> b \<le> a"
    by (auto simp: down_def word_less_nat_alt word_le_nat_alt word_unat_eq_iff)
qed

definition rank :: "process_sample \<Rightarrow> nat \<times> nat \<times> nat \<times> u64" where
  "rank p = (if ps_profile_index p \<noteq> PROCESS_NO_PROFILE then 0 else 1,
     down (known_or_zero (ps_cpu_bp p)), down (known_or_zero (ps_rss_bytes p)), ps_pid p)"

lemma ranks_before_iff: "ranks_before a b \<longleftrightarrow> rank a < rank b"
  by (auto simp: ranks_before_def rank_def Let_def down_less down_eq down_le not_less intro: le_neq_trans)

section \<open>The least of a collection\<close>

text \<open>\<open>ys\<close> are \<open>k\<close> of the \<open>xs\<close>, or all of them, and no other one ranks before one of them.\<close>

definition least_of :: "nat \<Rightarrow> process_sample multiset \<Rightarrow> process_sample list \<Rightarrow> bool" where
  "least_of k xs ys \<longleftrightarrow> mset ys \<subseteq># xs \<and> length ys = min k (size xs) \<and>
     (\<forall>y \<in> set ys. \<forall>x \<in># xs - mset ys. rank y \<le> rank x)"

lemma least_of_sorted:
  assumes "least_of k (mset xs) ys" "sorted (map rank ys)" "inj_on rank (set xs)"
  shows "ys = take k (sort_key rank xs)"
proof -
  obtain zs where zs: "mset zs = mset xs - mset ys" using ex_mset by blast
  let ?l = "ys @ sort_key rank zs"
  have sub: "mset ys \<subseteq># mset xs" "length ys = min k (length xs)" using assms(1) by (simp_all add: least_of_def)
  have "sorted (map rank ?l)"
    using assms(1,2) zs by (auto simp: sorted_append least_of_def simp flip: set_mset_mset)
  moreover have "mset xs = mset ?l" using sub(1) zs by simp
  ultimately have s: "sort_key rank xs = ?l" using sort_key_inj_key_eq [OF _ assms(3)] by blast
  show ?thesis
  proof (cases "k \<le> length xs")
    case True
    then show ?thesis using sub(2) s by simp
  next
    case False
    then have "size (mset ys) = size (mset xs)" using sub(2) by simp
    then have "mset ys = mset xs" using sub(1) by (metis mset_subset_eq_exists_conv size_union add_cancel_left_right size_eq_0_iff_empty add.right_neutral)
    then have "zs = []" using zs by simp
    then show ?thesis using s sub(2) False by simp
  qed
qed

section \<open>The buffer\<close>

lemma worst_fold:
  "foldl (\<lambda>worst i. if ranks_before (buf ! worst) (buf ! i) then i else worst) w is = w' \<Longrightarrow>
   w' \<in> set (w # is) \<and> (\<forall>i \<in> set (w # is). rank (buf ! i) \<le> rank (buf ! w'))"
proof (induction "is" arbitrary: w)
  case (Cons j js)
  then show ?case by (fastforce simp: ranks_before_iff split: if_splits)
qed simp

lemma worst_index_greatest:
  assumes "buf \<noteq> []"
  shows "worst_index buf < length buf" "i < length buf \<Longrightarrow> rank (buf ! i) \<le> rank (buf ! worst_index buf)"
proof -
  have "set (0 # [1..<length buf]) = {..<length buf}" using assms by (cases buf) auto
  then show "worst_index buf < length buf" "i < length buf \<Longrightarrow> rank (buf ! i) \<le> rank (buf ! worst_index buf)"
    using worst_fold [of buf 0 "[1..<length buf]" "worst_index buf"] by (auto simp: worst_index_def)
qed

lemma offer_least:
  assumes "least_of cap (mset xs) buf" "cap > 0"
  shows "least_of cap (mset (xs @ [p])) (fst (spg_process_offer cap buf p))"
proof (cases "length buf < cap")
  case True
  then have "size (mset buf) = size (mset xs)" "mset buf \<subseteq># mset xs" using assms(1) by (simp_all add: least_of_def)
  then have "mset buf = mset xs" by (metis mset_subset_size nat_neq_iff subset_mset.le_neq_trans)
  then show ?thesis using True assms by (simp add: least_of_def spg_process_offer_def flip: size_mset)
next
  case full: False
  then have len: "length buf = cap" "cap \<le> length xs" "mset buf \<subseteq># mset xs"
    and low: "\<And>y x. y \<in> set buf \<Longrightarrow> x \<in># mset xs - mset buf \<Longrightarrow> rank y \<le> rank x"
    using assms(1) by (auto simp: least_of_def)
  then have ne: "buf \<noteq> []" using assms(2) by auto
  let ?w = "worst_index buf"
  note w = worst_index_greatest [OF ne]
  have top: "rank y \<le> rank (buf ! ?w)" if "y \<in> set buf" for y
    using that w(2) by (auto simp: in_set_conv_nth)
  have new: "mset (xs @ [p]) - mset buf = add_mset p (mset xs - mset buf)"
    using len(3) by (simp add: multiset_eq_iff subseteq_mset_def Suc_diff_le)
  show ?thesis
  proof (cases "ranks_before p (buf ! ?w)")
    case False
    then have "rank y \<le> rank p" if "y \<in> set buf" for y
      using top [OF that] by (auto simp: ranks_before_iff)
    moreover have "mset buf \<subseteq># mset (xs @ [p])" using len(3) mset_subset_eq_add_right [of "mset xs" "{#p#}"]
      by (metis mset_append mset.simps mset_subset_eq_add_left subset_mset.trans)
    ultimately show ?thesis using False full len low new assms(2)
      unfolding least_of_def spg_process_offer_def by (simp add: Let_def)
  next
    case True
    have b': "mset (buf[?w := p]) = add_mset p (mset buf - {#buf ! ?w#})" using w(1) by (simp add: mset_update)
    have "buf ! ?w \<in># mset buf" using w(1) by simp
    then have diff: "mset (xs @ [p]) - mset (buf[?w := p]) = add_mset (buf ! ?w) (mset xs - mset buf)"
      using len(3) unfolding b' by (simp add: multiset_eq_iff subseteq_mset_def) (metis Suc_diff_Suc Suc_pred count_greater_zero_iff diff_Suc_1 leD not_less_eq_eq Suc_diff_le diff_Suc_Suc le_simps(3))
    have "mset buf - {#buf ! ?w#} \<subseteq># mset xs"
      using len(3) diff_subset_eq_self subset_mset.trans by blast
    then have sub: "mset (buf[?w := p]) \<subseteq># mset (xs @ [p])" unfolding b' by simp
    have "rank y \<le> rank x" if "y \<in> set (buf[?w := p])" "x \<in># add_mset (buf ! ?w) (mset xs - mset buf)" for y x
    proof -
      have "y = p \<or> y \<in> set buf" using that(1) set_update_subset_insert by fastforce
      then have y: "rank y \<le> rank (buf ! ?w)" using True top by (auto simp: ranks_before_iff)
      show ?thesis
      proof (cases "x = buf ! ?w")
        case False
        then have "rank (buf ! ?w) \<le> rank x" using that(2) low [of "buf ! ?w" x] w(1) by auto
        then show ?thesis using y by simp
      qed (use y in simp)
    qed
    then show ?thesis using True full len diff sub assms(2)
      unfolding least_of_def spg_process_offer_def by (simp add: Let_def)
  qed
qed

lemma offer_all_least:
  "cap > 0 \<Longrightarrow> least_of cap (mset (filter carries_signal xs)) (offer_all cap [] xs)"
proof (induction xs rule: rev_induct)
  case Nil
  then show ?case by (simp add: offer_all_def least_of_def)
next
  case (snoc p xs)
  then show ?case using offer_least [OF _ snoc.prems, of "filter carries_signal xs" "offer_all cap [] xs" p]
    by (simp add: offer_all_def)
qed

section \<open>The selection\<close>

definition untaken :: "process_sample list \<Rightarrow> bool list \<Rightarrow> nat list" where
  "untaken procs taken = filter (\<lambda>i. \<not> taken ! i) [0..<length procs]"

definition remaining :: "process_sample list \<Rightarrow> bool list \<Rightarrow> process_sample multiset" where
  "remaining procs taken = image_mset ((!) procs) (mset (untaken procs taken))"

lemma best_fold:
  "foldl (\<lambda>best i. if taken ! i then best else (case best of None \<Rightarrow> Some i
      | Some b \<Rightarrow> if ranks_before (procs ! i) (procs ! b) then Some i else best)) best is = best' \<Longrightarrow>
   (case best' of
      None \<Rightarrow> best = None \<and> (\<forall>i \<in> set is. taken ! i)
    | Some b \<Rightarrow> (b \<in> set is \<and> \<not> taken ! b \<or> best = Some b) \<and>
        (\<forall>i \<in> set is. \<not> taken ! i \<longrightarrow> rank (procs ! b) \<le> rank (procs ! i)) \<and>
        (\<forall>c. best = Some c \<longrightarrow> rank (procs ! b) \<le> rank (procs ! c)))"
proof (induction "is" arbitrary: best)
  case Nil
  then show ?case by (cases best) auto
next
  case (Cons j js)
  show ?case
  proof (cases "taken ! j")
    case True
    then have f: "foldl (\<lambda>best i. if taken ! i then best else (case best of None \<Rightarrow> Some i
      | Some b \<Rightarrow> if ranks_before (procs ! i) (procs ! b) then Some i else best)) best js = best'"
      using Cons.prems by simp
    from Cons.IH [OF this] True show ?thesis by (cases best') auto
  next
    case False
    define nb where "nb = (case best of None \<Rightarrow> Some j | Some b \<Rightarrow> if ranks_before (procs ! j) (procs ! b) then Some j else best)"
    have f: "foldl (\<lambda>best i. if taken ! i then best else (case best of None \<Rightarrow> Some i
      | Some b \<Rightarrow> if ranks_before (procs ! i) (procs ! b) then Some i else best)) nb js = best'"
      using Cons.prems False by (simp add: nb_def)
    obtain c where c: "nb = Some c" "c = j \<or> best = Some c" "rank (procs ! c) \<le> rank (procs ! j)"
      "\<And>d. best = Some d \<Longrightarrow> rank (procs ! c) \<le> rank (procs ! d)"
    proof (cases best)
      case None
      then show thesis using that [of j] by (simp add: nb_def)
    next
      case (Some d)
      show thesis
      proof (cases "rank (procs ! j) < rank (procs ! d)")
        case True
        then show thesis using that [of j] Some by (simp add: nb_def ranks_before_iff)
      next
        case less: False
        then have "nb = Some d" using Some by (simp add: nb_def ranks_before_iff)
        then show thesis using that [of d] Some less by simp
      qed
    qed
    note ih = Cons.IH [OF f]
    obtain b where b: "best' = Some b" using ih c(1) by (cases best') auto
    have bc: "rank (procs ! b) \<le> rank (procs ! c)" "(b \<in> set js \<and> \<not> taken ! b) \<or> b = c"
      "\<And>i. i \<in> set js \<Longrightarrow> \<not> taken ! i \<Longrightarrow> rank (procs ! b) \<le> rank (procs ! i)"
      using ih unfolding b c(1) by auto
    have "rank (procs ! b) \<le> rank (procs ! j)" using bc(1) c(3) by (rule order_trans)
    moreover have "rank (procs ! b) \<le> rank (procs ! d)" if "best = Some d" for d
      using bc(1) c(4) [OF that] by (rule order_trans)
    ultimately show ?thesis using bc(2,3) c(2) False unfolding b by auto
  qed
qed

lemma best_index_least:
  "best_index procs taken = None \<Longrightarrow> untaken procs taken = []"
  "best_index procs taken = Some b \<Longrightarrow> b \<in> set (untaken procs taken)"
  "best_index procs taken = Some b \<Longrightarrow> x \<in># remaining procs taken \<Longrightarrow> rank (procs ! b) \<le> rank x"
  using best_fold [of taken procs None "[0..<length procs]"]
  by (auto simp: best_index_def untaken_def remaining_def filter_empty_conv split: option.splits)

lemma remaining_take:
  assumes "b \<in> set (untaken procs taken)" "length procs \<le> length taken"
  shows "remaining procs (taken[b := True]) = remaining procs taken - {#procs ! b#}"
proof -
  have "untaken procs (taken[b := True]) = remove1 b (untaken procs taken)"
    using assms unfolding untaken_def
    by (subst distinct_remove1_removeAll) (auto simp: removeAll_filter_not_eq nth_list_update intro!: filter_cong)
  then show ?thesis using assms(1) by (simp add: remaining_def image_mset_Diff)
qed

lemma select_loop_least:
  "length procs \<le> length taken \<Longrightarrow>
   sorted (map rank (select_loop k procs taken)) \<and> least_of k (remaining procs taken) (select_loop k procs taken)"
proof (induction k arbitrary: taken)
  case 0
  then show ?case by (simp add: least_of_def)
next
  case (Suc k)
  show ?case
  proof (cases "best_index procs taken")
    case None
    then show ?thesis using best_index_least(1) [OF None] by (simp add: least_of_def remaining_def)
  next
    case (Some b)
    let ?p = "procs ! b" and ?out = "select_loop k procs (taken[b := True])" and ?R = "remaining procs taken"
    note b = best_index_least(2) [OF Some] and low = best_index_least(3) [OF Some]
    have mem: "?p \<in># ?R" using b by (auto simp: remaining_def)
    have IH: "sorted (map rank ?out)" "least_of k (?R - {#?p#}) ?out"
      using Suc.IH [of "taken[b := True]"] Suc.prems remaining_take [OF b Suc.prems] by simp_all
    have sub: "mset ?out \<subseteq># ?R - {#?p#}" using IH(2) by (simp add: least_of_def)
    have out: "rank ?p \<le> rank y" if "y \<in> set ?out" for y
    proof -
      have "y \<in># ?R - {#?p#}" using sub that by (auto dest: mset_subset_eqD)
      then show ?thesis using low in_diffD by fast
    qed
    have "size ?R > 0" using mem by (cases ?R) auto
    then have "length (?p # ?out) = min (Suc k) (size ?R)"
      using IH(2) mem by (simp add: least_of_def size_Diff_singleton)
    moreover have "mset (?p # ?out) \<subseteq># ?R" using sub mem by (simp add: insert_subset_eq_iff)
    moreover have "rank y \<le> rank x" if "y \<in> set (?p # ?out)" "x \<in># ?R - mset (?p # ?out)" for x y
    proof -
      have x: "x \<in># ?R - {#?p#} - mset ?out" using that(2) by simp
      then have "x \<in># ?R" by (metis in_diffD)
      then show ?thesis using that(1) x low IH(2) by (auto simp: least_of_def)
    qed
    ultimately have "least_of (Suc k) ?R (?p # ?out)" unfolding least_of_def by blast
    then show ?thesis using Some IH(1) out by simp
  qed
qed

lemma select_least:
  assumes "spg_process_select procs k = (SPG_OK, out, truncated)"
  shows "sorted (map rank out) \<and> least_of k (mset procs) out"
proof -
  have len: "length procs \<le> MACHINE_MAX_PROCESSES" and out: "out = select_loop k procs (replicate MACHINE_MAX_PROCESSES False)"
    using assms by (auto simp: spg_process_select_def split: if_splits)
  have "untaken procs (replicate MACHINE_MAX_PROCESSES False) = [0..<length procs]"
    using len by (auto simp: untaken_def filter_id_conv)
  then have "remaining procs (replicate MACHINE_MAX_PROCESSES False) = mset procs"
    by (simp only: remaining_def map_nth flip: mset_map)
  then show ?thesis using select_loop_least [of procs "replicate MACHINE_MAX_PROCESSES False" k] len out by simp
qed

section \<open>The snapshot\<close>

lemma rank_inj: "distinct (map ps_pid xs) \<Longrightarrow> inj_on rank (set xs)"
  by (auto simp: inj_on_def rank_def distinct_map)

lemma select_sorts:
  assumes "length xs \<le> MACHINE_MAX_PROCESSES"
  shows "\<exists>out. spg_process_select xs MACHINE_MAX_PROCESSES = (SPG_OK, out, False) \<and>
     sorted (map rank out) \<and> mset out = mset xs"
proof -
  obtain out where s: "spg_process_select xs MACHINE_MAX_PROCESSES = (SPG_OK, out, False)"
    using assms by (simp add: spg_process_select_def)
  note l = select_least [OF s]
  then have "mset out \<subseteq># mset xs" "length out = length xs" using assms by (simp_all add: least_of_def)
  then have "mset out = mset xs" by (metis mset_subset_size size_mset nat_neq_iff subset_mset.le_neq_trans)
  then show ?thesis using s l by blast
qed

lemma select_processes_sorted:
  assumes "distinct (map ps_pid raw)"
  shows "mc_processes (select_processes raw prev delta profile out) =
    take MACHINE_MAX_PROCESSES (sort_key rank (filter carries_signal (map (rate_process profile prev delta) raw)))"
proof -
  let ?rated = "map (rate_process profile prev delta) raw"
  let ?cands = "filter carries_signal ?rated" and ?kept = "offer_all MACHINE_MAX_PROCESSES [] ?rated"
  have least: "least_of MACHINE_MAX_PROCESSES (mset ?cands) ?kept"
    by (rule offer_all_least) (simp add: MACHINE_MAX_PROCESSES_def)
  then have "length ?kept \<le> MACHINE_MAX_PROCESSES" by (simp add: least_of_def)
  then obtain out' where o: "spg_process_select ?kept MACHINE_MAX_PROCESSES = (SPG_OK, out', False)"
    "sorted (map rank out')" "mset out' = mset ?kept" using select_sorts by blast
  have "least_of MACHINE_MAX_PROCESSES (mset ?cands) out'"
    using least o(3) unfolding least_of_def by (metis set_mset_mset size_mset)
  moreover have "map ps_pid ?rated = map ps_pid raw"
    by (simp add: rate_process_def apply_one_def Let_def)
  then have "distinct (map ps_pid ?cands)" using assms by (metis distinct_map_filter)
  then have "inj_on rank (set ?cands)" by (rule rank_inj)
  ultimately have "out' = take MACHINE_MAX_PROCESSES (sort_key rank ?cands)"
    using least_of_sorted o(2) by blast
  then show ?thesis using o(1) by (simp add: select_processes_def)
qed

text \<open>
  C29: The snapshot shows the best processes, and only what there is decides which: on a host that
  lists every process once, the processes of a sample are the first 64 of its processes that carry
  a signal, sorted by rank (managed first, then by CPU, by memory, by pid), so any other order of
  enumeration gives the same snapshot.
\<close>

theorem snapshot_selects_best:
  assumes "distinct (map ps_pid raw)" "mset raw' = mset raw"
  shows "mc_processes (select_processes raw prev delta profile out) =
      take MACHINE_MAX_PROCESSES (sort_key rank (filter carries_signal (map (rate_process profile prev delta) raw))) \<and>
    mc_processes (select_processes raw' prev delta profile out') = mc_processes (select_processes raw prev delta profile out)"
proof -
  let ?cands = "\<lambda>raw. filter carries_signal (map (rate_process profile prev delta) raw)"
  have d': "distinct (map ps_pid raw')" using assms by (metis mset_map mset_eq_imp_distinct_iff)
  have "map ps_pid (map (rate_process profile prev delta) raw) = map ps_pid raw"
    by (simp add: rate_process_def apply_one_def Let_def)
  then have inj: "inj_on rank (set (?cands raw))" using assms(1) by (metis distinct_map_filter rank_inj)
  have "mset (?cands raw) = mset (?cands raw')" by (simp only: mset_filter mset_map assms(2))
  moreover have "set (?cands raw) = set (?cands raw')" using calculation by (rule mset_eq_setD)
  ultimately have "sort_key rank (?cands raw) = sort_key rank (?cands raw')"
    using inj by (intro sort_key_inj_key_eq) simp_all
  then show ?thesis using select_processes_sorted [OF assms(1)] select_processes_sorted [OF d'] by simp
qed

definition table_row :: "u64 \<Rightarrow> u64 \<Rightarrow> process_sample" where
  "table_row pid rss = blank_sample\<lparr>ps_pid := pid, ps_name := ''job'', ps_rss_bytes := rss\<rparr>"

theorem snapshot_selects_best_witness:
  "mc_processes (select_processes [table_row 7 10, table_row 9 20] [] 0 [] (state_init 0)) =
   mc_processes (select_processes [table_row 9 20, table_row 7 10] [] 0 [] (state_init 0))"
proof -
  have d: "distinct (map ps_pid [table_row 9 20, table_row 7 10])" by (simp add: table_row_def)
  have "mset [table_row 7 10, table_row 9 20] = mset [table_row 9 20, table_row 7 10]" by simp
  from conjunct2 [OF snapshot_selects_best [OF d this]] show ?thesis .
qed

end
