(* ===== verification/TelemetryProps.thy ===== *)
theory TelemetryProps
  imports Telemetry DeviceText
begin

text \<open>
  The telemetry is what the host said: the history window holds the last snapshots in order, its
  rendering fits the context's buffer for the values of real machines, a rate never exceeds one, and
  a parser that fails says so.
\<close>

section \<open>The window is the end of what was pushed\<close>

text \<open>The ring stands for the last \<open>window\<close> of the pushed entries.\<close>

definition ring_holds :: "machine_history \<Rightarrow> history_entry list \<Rightarrow> bool" where
  "ring_holds h es \<longleftrightarrow> mh_window h \<le> MACHINE_HISTORY_CAP \<and> length (mh_entries h) = MACHINE_HISTORY_CAP \<and>
     mh_n h = min (mh_window h) (length es) \<and> (mh_window h > 0 \<longrightarrow> mh_head h = length es mod mh_window h) \<and>
     (\<forall>i < mh_n h. mh_entries h ! ((length es - mh_n h + i) mod mh_window h) = es ! (length es - mh_n h + i))"

lemma ring_init: "ring_holds (spg_machine_history_init window) []"
  by (simp add: ring_holds_def spg_machine_history_init_def MACHINE_HISTORY_CAP_def)

lemma mod_window_eq:
  assumes "(a :: nat) mod n = b mod n" "a \<le> b" "b < a + n"
  shows "a = b"
  using assms by (metis mod_eq_dvd_iff_nat dvd_imp_le le_add_diff_inverse less_diff_conv2 not_less
      zero_less_diff diff_is_0_eq le_antisym add.commute linorder_not_le)

lemma ring_push:
  assumes "ring_holds h es" "mh_window h > 0"
  shows "ring_holds (spg_machine_history_push tick m h) (es @ [entry_of_state tick m])"
proof -
  let ?w = "mh_window h" and ?e = "entry_of_state tick m" and ?k = "length es"
  have h: "?w \<le> MACHINE_HISTORY_CAP" "length (mh_entries h) = MACHINE_HISTORY_CAP" "mh_n h = min ?w ?k"
    "mh_head h = ?k mod ?w" and old: "\<And>i. i < mh_n h \<Longrightarrow>
      mh_entries h ! ((?k - mh_n h + i) mod ?w) = es ! (?k - mh_n h + i)"
    using assms unfolding ring_holds_def by iprover+
  let ?h = "spg_machine_history_push tick m h"
  have p: "mh_window ?h = ?w" "mh_entries ?h = (mh_entries h)[?k mod ?w := ?e]" "mh_head ?h = (?k mod ?w + 1) mod ?w"
    "mh_n ?h = min ?w (Suc ?k)"
    using h mod_less_divisor [OF assms(2), of ?k] by (auto simp: spg_machine_history_push_def not_le)
  have slot: "?k mod ?w < length (mh_entries h)" using h(1,2) mod_less_divisor [OF assms(2), of ?k] by linarith
  have "mh_entries ?h ! ((Suc ?k - mh_n ?h + i) mod ?w) = (es @ [?e]) ! (Suc ?k - mh_n ?h + i)" if i: "i < mh_n ?h" for i
  proof (cases "Suc ?k - mh_n ?h + i = ?k")
    case True
    then show ?thesis using p(2) slot by simp
  next
    case False
    let ?j = "Suc ?k - mh_n ?h + i"
    have j: "?j < ?k" using False i p(4) by auto
    have near: "?k < ?j + ?w" using p(4) i by (cases "?w \<le> Suc ?k") auto
    have ne: "?j mod ?w \<noteq> ?k mod ?w" using mod_window_eq [of ?j ?w ?k] j near by auto
    have "mh_entries h ! (?j mod ?w) = es ! ?j"
    proof -
      have "?j = ?k - mh_n h + (?j - (?k - mh_n h))" "?j - (?k - mh_n h) < mh_n h"
        using h(3) p(4) i j near by auto
      then show ?thesis using old by metis
    qed
    then show ?thesis using p(2) ne j by (simp add: nth_append)
  qed
  then show ?thesis using p h(1,2) assms(2) by (simp add: ring_holds_def mod_Suc_eq)
qed

definition push_all :: "(u64 \<times> machine_state) list \<Rightarrow> machine_history \<Rightarrow> machine_history" where
  "push_all = fold (\<lambda>(tick, m). spg_machine_history_push tick m)"

lemma push_all_window: "mh_window (push_all ts h) = mh_window h"
  by (induction ts arbitrary: h) (auto simp: push_all_def spg_machine_history_push_def)

lemma ring_pushes:
  assumes "mh_window h > 0" "ring_holds h es"
  shows "ring_holds (push_all ts h) (es @ map (\<lambda>(tick, m). entry_of_state tick m) ts)"
  using assms
proof (induction ts arbitrary: h es)
  case (Cons t ts)
  obtain tick m where t: "t = (tick, m)" by fastforce
  have "mh_window (spg_machine_history_push tick m h) > 0" using Cons.prems(1) by (simp add: spg_machine_history_push_def)
  from Cons.IH [OF this ring_push [OF Cons.prems(2,1)]] show ?case by (simp add: push_all_def t)
qed (simp add: push_all_def)

lemma ring_entries:
  assumes "ring_holds h es" "mh_window h > 0"
  shows "history_entries h = drop (length es - mh_window h) es"
proof -
  let ?w = "mh_window h" and ?k = "length es"
  have h: "mh_n h = min ?w ?k" "mh_head h = ?k mod ?w"
    "\<And>i. i < mh_n h \<Longrightarrow> mh_entries h ! ((?k - mh_n h + i) mod ?w) = es ! (?k - mh_n h + i)"
    using assms unfolding ring_holds_def by iprover+
  have start: "((if mh_n h < ?w then 0 else mh_head h) + i) mod ?w = (?k - mh_n h + i) mod ?w" if "i < mh_n h" for i
  proof (cases "mh_n h < ?w")
    case False
    then have "mh_n h = ?w" "?w \<le> ?k" using h(1) by auto
    then have "?k mod ?w = (?k - ?w) mod ?w" by (simp add: le_mod_geq)
    then have "(mh_head h + i) mod ?w = (?k - ?w + i) mod ?w" unfolding h(2) by (simp add: mod_add_left_eq mod_simps)
    then show ?thesis using False \<open>mh_n h = ?w\<close> by simp
  next
    case True
    then have "?k = mh_n h" using h(1) by linarith
    then show ?thesis using True by simp
  qed
  have "history_entries h = map (\<lambda>i. es ! (?k - mh_n h + i)) [0..<mh_n h]"
    unfolding history_entries_def Let_def by (rule map_cong) (use start h(3) in auto)
  also have "\<dots> = drop (?k - ?w) es"
    using h(1) by (intro nth_equalityI) (auto simp: min_def)
  finally show ?thesis .
qed

text \<open>
  C30: The history window is a window: after any snapshots pushed one by one into a fresh history,
  the entries the renderer visits are the last ones pushed, at most \<open>window\<close> of them (and never more
  than eight), oldest first; a window of zero records and renders nothing.
\<close>

theorem history_keeps_last:
  "history_entries (push_all ts (spg_machine_history_init window)) =
     (let n = min window MACHINE_HISTORY_CAP
      in drop (length ts - n) (map (\<lambda>(tick, m). entry_of_state tick m) ts))"
proof (cases "window = 0")
  case False
  let ?h = "spg_machine_history_init window"
  have w: "mh_window ?h = min window MACHINE_HISTORY_CAP" by (auto simp: spg_machine_history_init_def)
  then have pos: "mh_window ?h > 0" using False by (simp add: MACHINE_HISTORY_CAP_def)
  then have "mh_window (push_all ts ?h) > 0" by (simp add: push_all_window)
  from ring_entries [OF ring_pushes [OF pos ring_init, of ts] this] show ?thesis
    by (simp add: push_all_window w Let_def)
next
  case True
  have "mh_window (push_all ts (spg_machine_history_init window)) = 0" "mh_n (push_all ts (spg_machine_history_init window)) = 0"
    using True by (induction ts rule: rev_induct)
      (auto simp: push_all_def spg_machine_history_init_def spg_machine_history_push_def)
  then show ?thesis using True by (simp add: history_entries_def Let_def)
qed

section \<open>Numbers are read whole or not at all\<close>

lemma counter_max_eq: "unat counter_max = 2 ^ 63 - 1"
  by (simp add: counter_max_def unat_div)

lemma counter_guard:
  fixes v d :: u64
  assumes "unat d \<le> 9"
  shows "(counter_max - d) div 10 < v \<longleftrightarrow> 2 ^ 63 \<le> unat v * 10 + unat d"
proof -
  have "d \<le> counter_max" using assms by (simp add: word_le_nat_alt counter_max_eq)
  then have "unat ((counter_max - d) div 10) = (2 ^ 63 - 1 - unat d) div 10"
    by (simp add: unat_div unat_sub counter_max_eq)
  with assms show ?thesis by (simp add: word_less_nat_alt) arith
qed

lemma scan_digits_exact:
  assumes "unat v < 2 ^ 63"
  shows "scan_digits buf v any =
    (let ds = takeWhile tm_digit buf in
     if dec_value_from (unat v) ds < 2 ^ 63
     then Some (of_nat (dec_value_from (unat v) ds), any \<or> ds \<noteq> [], dropWhile tm_digit buf) else None)"
  using assms
proof (induction buf arbitrary: v any)
  case (Cons c cs)
  show ?case
  proof (cases "tm_digit c")
    case True
    define d :: u64 where "d = of_nat (code_of c - 48)"
    have "code_of c - 48 \<le> 9" using True by (simp add: tm_digit_def le_diff_conv)
    then have ud: "unat d = code_of c - 48" "unat d \<le> 9"
      unfolding d_def by (simp_all only: unat_of_nat) simp_all
    have step: "scan_digits (c # cs) v any =
        (if (counter_max - d) div 10 < v then None else scan_digits cs (v * 10 + d) True)"
      using True by (simp add: d_def Let_def)
    show ?thesis
    proof (cases "unat v * 10 + unat d < 2 ^ 63")
      case lt: True
      then have u: "unat (v * 10 + d) = unat v * 10 + unat d" by (intro digit_step) simp
      have "\<not> (counter_max - d) div 10 < v" using counter_guard [OF ud(2), of v] lt by simp
      then show ?thesis using step Cons.IH [of "v * 10 + d" True] lt True ud(1) u by (simp add: Let_def)
    next
      case False
      then have "(counter_max - d) div 10 < v" using counter_guard [OF ud(2), of v] by simp
      moreover have "2 ^ 63 \<le> dec_value_from (unat v) (c # takeWhile tm_digit cs)"
        using False ud(1) dec_value_from_ge [of "unat v * 10 + (code_of c - 48)" "takeWhile tm_digit cs"] by simp
      ultimately show ?thesis using step True by (simp add: Let_def)
    qed
  qed (use Cons.prems in simp)
qed simp

lemma tm_scan_exact:
  "tm_scan_u64 buf =
     (let ds = takeWhile tm_digit buf in
      if ds \<noteq> [] \<and> dec_value_from 0 ds < 2 ^ 63
      then Some (of_nat (dec_value_from 0 ds), dropWhile tm_digit buf) else None)"
  by (simp add: tm_scan_u64_def scan_digits_exact Let_def)

text \<open>
  C31: A reading of the host is read whole or refused: for any contents, the integer parser of the
  sysfs files takes an optional minus and the digits after it; without a digit, or with a value of
  \<open>2^63\<close> or more, it reports a format error and the value 0, and otherwise succeeds with exactly the
  value written. It never reports an overflow.
\<close>

theorem telemetry_int_exact:
  "spg_telemetry_parse_int buf =
     (let minus = buf \<noteq> [] \<and> hd buf = CHR ''-'';
          ds = takeWhile tm_digit (if minus then tl buf else buf);
          v = dec_value_from 0 ds
      in if ds = [] \<or> v \<ge> 2 ^ 63 then (SPG_E_FORMAT, 0) else (SPG_OK, if minus then - int v else int v))"
proof -
  have big: "\<not> (of_nat n :: u64) > 9223372036854775807" "uint (of_nat n :: u64) = int n" if "n < 2 ^ 63" for n
  proof -
    have u: "unat (of_nat n :: u64) = n" using that by (simp add: unat_of_nat)
    then show "\<not> (of_nat n :: u64) > 9223372036854775807" using that by (simp add: word_less_nat_alt)
    show "uint (of_nat n :: u64) = int n" using u by (metis of_nat_unat)
  qed
  show ?thesis
    by (simp add: spg_telemetry_parse_int_def tm_scan_exact Let_def big not_less split del: if_split) (simp add: big)
qed

section \<open>The window fits the context\<close>

text \<open>Values of at most twelve digits.\<close>

definition modest :: "u64 \<Rightarrow> bool" where
  "modest v \<longleftrightarrow> v = MACHINE_UNKNOWN \<or> unat v < 10 ^ 12"

definition modest_entry :: "history_entry \<Rightarrow> bool" where
  "modest_entry e \<longleftrightarrow> modest (hy_tick e) \<and> modest (hy_cpu_utilisation_bp e) \<and> modest (hy_load_1_cbp e) \<and>
     modest (hy_memory_used_bytes e) \<and> modest (hy_swap_used_bytes e) \<and> modest (hy_cpu_freq_khz e) \<and>
     modest (hy_process_count e) \<and> \<bar>hy_temperature_mc e\<bar> < 10 ^ 12"

lemma sint_small: "unat (v :: u64) < 2 ^ 63 \<Longrightarrow> sint v = int (unat v)"
proof -
  assume "unat v < 2 ^ 63"
  then have "int (unat v) < 2 ^ 63" by (simp flip: of_nat_less_iff [where 'a = int])
  moreover have u: "uint v = int (unat v)" by (rule uint_nat)
  ultimately have "- (2 ^ 63) \<le> uint v" "uint v < 2 ^ 63" by linarith+
  from signed_take_bit_int_eq_self [OF this] have "signed_take_bit 63 (uint v) = int (unat v)" unfolding u .
  moreover have "sint v = signed_take_bit 63 (uint v)" using sint_uint [of v] by simp
  ultimately show ?thesis by (rule trans [rotated])
qed

lemma modest_length: "modest v \<Longrightarrow> length (put_u64 v) \<le> 12"
proof -
  assume m: "modest v"
  show ?thesis
  proof (cases "v = MACHINE_UNKNOWN")
    case False
    then have v: "unat v < 10 ^ Suc 11" using m by (simp add: modest_def)
    then have "sint v = int (unat v)" by (intro sint_small) simp
    then show ?thesis using nat_dec_length [OF v] False by (simp add: put_u64_def i64_to_dec_def)
  qed (simp add: put_u64_def)
qed

lemma modest_signed_length: "\<bar>v\<bar> < 10 ^ 12 \<Longrightarrow> length (put_i64_or_unknown v) \<le> 13"
proof -
  assume v: "\<bar>v\<bar> < 10 ^ 12"
  then have "nat v < 10 ^ Suc 11" "nat (- v) < 10 ^ Suc 11" by (simp_all add: nat_less_iff)
  then have "length (nat_dec_loop (nat v) []) \<le> Suc 11" "length (nat_dec_loop (nat (- v)) []) \<le> Suc 11"
    using nat_dec_length by blast+
  then show ?thesis by (simp add: put_i64_or_unknown_def i64_to_dec_def)
qed

lemma throttle_length: "length (spg_throttle_state_to_string t) \<le> 7"
  by (cases t) simp_all

lemma entry_length:
  assumes "modest_entry e"
  shows "length (history_entry_text e) \<le> 248"
  using assms modest_length [of "hy_tick e"] modest_length [of "hy_cpu_utilisation_bp e"]
    modest_length [of "hy_load_1_cbp e"] modest_length [of "hy_memory_used_bytes e"]
    modest_length [of "hy_swap_used_bytes e"] modest_length [of "hy_cpu_freq_khz e"]
    modest_length [of "hy_process_count e"] modest_signed_length [of "hy_temperature_mc e"]
    throttle_length [of "hy_throttle e"]
  by (simp add: history_entry_text_def put_field_def modest_entry_def)

lemma entries_length:
  "list_all modest_entry es \<Longrightarrow> length (concat (map history_entry_text es)) \<le> 248 * length es"
  by (induction es) (use entry_length in fastforce)+

lemma ring_bounds:
  assumes "ring_holds h es" "mh_window h > 0"
  shows "mh_n h \<le> mh_window h" "mh_head h < mh_window h" "mh_window h \<le> MACHINE_HISTORY_CAP"
  using assms by (simp_all add: ring_holds_def)

text \<open>
  The trend is never lost on a real machine: a history built from any snapshots whose values
  have at most twelve digits (a terabyte, in bytes) renders completely into the 2048 bytes the
  context reserves for it.
\<close>

theorem history_render_fits:
  assumes "list_all (\<lambda>(tick, m). modest_entry (entry_of_state tick m)) ts" "window > 0"
  shows "fst (spg_machine_history_render (Some (push_all ts (spg_machine_history_init window))) 2048) = SPG_OK"
proof -
  let ?h = "push_all ts (spg_machine_history_init window)"
  let ?es = "map (\<lambda>(tick, m). entry_of_state tick m) ts"
  have w: "mh_window (spg_machine_history_init window) = min window MACHINE_HISTORY_CAP"
    by (auto simp: spg_machine_history_init_def)
  then have pos: "mh_window (spg_machine_history_init window) > 0" using assms(2) by (simp add: MACHINE_HISTORY_CAP_def)
  from ring_pushes [OF pos ring_init, of ts] have ring: "ring_holds ?h ?es" by simp
  have win: "mh_window ?h = min window MACHINE_HISTORY_CAP" by (simp add: push_all_window w)
  have ok: "mh_window ?h > 0" "mh_window ?h \<le> MACHINE_HISTORY_CAP" "mh_n ?h \<le> mh_window ?h" "mh_head ?h < mh_window ?h"
    using ring_bounds [OF ring] win pos w by simp_all
  have ents: "history_entries ?h = drop (length ?es - mh_window ?h) ?es" using ring_entries [OF ring ok(1)] .
  have "list_all modest_entry ?es" using assms(1) by (auto simp: list_all_iff split: prod.splits)
  then have "list_all modest_entry (history_entries ?h)" unfolding ents by (metis append_take_drop_id list_all_append)
  from entries_length [OF this] have "length (concat (map history_entry_text (history_entries ?h))) \<le> 248 * 8"
    using ents ok(2) by (simp add: MACHINE_HISTORY_CAP_def)
  then show ?thesis using ok by (simp add: spg_machine_history_render_def render_out_def)
qed

text \<open>
  The reserve is not enough for every value: eight entries of 64-bit numbers with the top bit set
  need 2450 bytes, and the whole block is left out.
\<close>

definition wide_machine :: machine_state where
  "wide_machine = \<lparr>mc_timestamp_ns = 0, mc_cpu_utilisation_bp = 2 ^ 63, mc_load_1_cbp = 2 ^ 63,
     mc_memory = \<lparr>ms_total_bytes = 2 ^ 63, ms_used_bytes = 2 ^ 63, ms_swap_used_bytes = 2 ^ 63\<rparr>,
     mc_temperature_mc = - 9223372036854775807, mc_cpu_freq_khz = 2 ^ 63, mc_throttle = THROTTLE_UNKNOWN,
     mc_process_count = 2 ^ 63, mc_cpu = \<lparr>cs_idle = 0, cs_total = 0\<rparr>, mc_processes_truncated = False,
     mc_processes = []\<rparr>"

definition calm_machine :: machine_state where
  "calm_machine = wide_machine\<lparr>mc_cpu_utilisation_bp := 250, mc_load_1_cbp := 42, mc_temperature_mc := 51000,
     mc_memory := \<lparr>ms_total_bytes = 8000000000, ms_used_bytes = 4000000000, ms_swap_used_bytes = 0\<rparr>,
     mc_cpu_freq_khz := 2400000, mc_process_count := 170\<rparr>"

lemma wide_number: "put_u64 (2 ^ 63) = ''-9223372036854775808''" "put_i64_or_unknown (- 9223372036854775807) = ''-9223372036854775807''"
  by (simp_all add: put_u64_def put_i64_or_unknown_def MACHINE_UNKNOWN_def MACHINE_UNKNOWN_S_def
      i64_to_dec_def nat_dec_loop.simps digit_char_def char_of_def bit_0)

lemma wide_entry: "length (history_entry_text (entry_of_state (2 ^ 63) wide_machine)) = 304"
  by (simp add: history_entry_text_def entry_of_state_def wide_machine_def put_field_def wide_number [simplified])

lemma history_render_overflows:
  "fst (spg_machine_history_render
     (Some (push_all (replicate 8 (2 ^ 63, wide_machine)) (spg_machine_history_init 8))) 2048) = SPG_E_LIMIT"
proof -
  let ?ts = "replicate 8 (2 ^ 63 :: u64, wide_machine)"
  let ?h = "push_all ?ts (spg_machine_history_init 8)"
  let ?es = "map (\<lambda>(tick, m). entry_of_state tick m) ?ts"
  have w: "mh_window (spg_machine_history_init 8) = 8" by (simp add: spg_machine_history_init_def MACHINE_HISTORY_CAP_def)
  then have ring: "ring_holds ?h ?es" using ring_pushes [OF _ ring_init, of 8 ?ts] by simp
  have win: "mh_window ?h = 8" by (simp add: push_all_window w)
  note b = ring_bounds [OF ring]
  have "history_entries ?h = replicate 8 (entry_of_state (2 ^ 63) wide_machine)"
    using ring_entries [OF ring] win by simp
  then have "length (concat (map history_entry_text (history_entries ?h))) = 2432"
    by (simp add: length_concat wide_entry [simplified] sum_list_replicate)
  then show ?thesis using b win by (simp add: spg_machine_history_render_def render_out_def)
qed

theorem history_render_fits_witness:
  "fst (spg_machine_history_render (Some (push_all (replicate 9 (7, calm_machine)) (spg_machine_history_init 8))) 2048) = SPG_OK"
proof -
  have "modest_entry (entry_of_state 7 calm_machine)"
    by (simp add: modest_entry_def modest_def entry_of_state_def calm_machine_def wide_machine_def)
  then have "list_all (\<lambda>(tick, m). modest_entry (entry_of_state tick m)) (replicate 9 (7, calm_machine))"
    by (simp add: list_all_iff)
  from history_render_fits [OF this, of 8] show ?thesis by simp
qed

end
