(* ===== verification/Diagnose.thy ===== *)
theory Diagnose
  imports Telemetry
begin

text \<open>
  The rule baseline of \<open>src/machine/diagnose.c\<close>: four rules over a snapshot in a fixed priority.
  The arithmetic is the code's unsigned 64-bit one.
\<close>

datatype diagnosis =
  DIAGNOSIS_INCONCLUSIVE | DIAGNOSIS_HEALTHY | DIAGNOSIS_BATCH_PRESSURE | DIAGNOSIS_CRITICAL_PRESSURE
| DIAGNOSIS_MEMORY_PRESSURE | DIAGNOSIS_THERMAL_ANOMALY

record rule_thresholds =
  rt_cpu_high_bp :: u64
  rt_memory_high_bp :: u64
  rt_temperature_high_mc :: i64
  rt_process_share_bp :: u64

definition spg_rule_thresholds_default :: rule_thresholds where
  "spg_rule_thresholds_default = \<lparr>rt_cpu_high_bp = 8000, rt_memory_high_bp = 9000,
     rt_temperature_high_mc = 75000, rt_process_share_bp = 5000\<rparr>"

record diagnosis_result =
  di_diagnosis :: diagnosis
  di_process_id :: string

text \<open>The first of the processes with the greatest known value.\<close>

definition hotter :: "(process_sample \<Rightarrow> u64) \<Rightarrow> process_sample \<Rightarrow> process_sample option \<Rightarrow> process_sample option" where
  "hotter f p best =
     (if f p = MACHINE_UNKNOWN then best
      else (case best of None \<Rightarrow> Some p | Some b \<Rightarrow> if f p > f b then Some p else best))"

definition hottest_by :: "(process_sample \<Rightarrow> u64) \<Rightarrow> process_sample list \<Rightarrow> process_sample option" where
  "hottest_by f ps = fold (hotter f) ps None"

definition hottest_cpu :: "machine_state \<Rightarrow> process_sample option" where
  "hottest_cpu m = hottest_by ps_cpu_bp (mc_processes m)"

definition largest_rss :: "machine_state \<Rightarrow> process_sample option" where
  "largest_rss m = hottest_by ps_rss_bytes (mc_processes m)"

definition attribute :: "process_sample option \<Rightarrow> string" where
  "attribute p = (case p of None \<Rightarrow> [] | Some q \<Rightarrow> ps_profile_id q)"

definition memory_used_bp :: "machine_state \<Rightarrow> u64" where
  "memory_used_bp m =
     (let tot = ms_total_bytes (mc_memory m); used = ms_used_bytes (mc_memory m)
      in if used > tot then 10000 else used * 10000 div tot)"

definition memory_known :: "machine_state \<Rightarrow> bool" where
  "memory_known m \<longleftrightarrow> ms_total_bytes (mc_memory m) \<noteq> MACHINE_UNKNOWN \<and> ms_used_bytes (mc_memory m) \<noteq> MACHINE_UNKNOWN"

fun pressure_of :: "process_role \<Rightarrow> diagnosis" where
  "pressure_of ROLE_BATCH = DIAGNOSIS_BATCH_PRESSURE"
| "pressure_of ROLE_CRITICAL = DIAGNOSIS_CRITICAL_PRESSURE"
| "pressure_of ROLE_UNKNOWN = DIAGNOSIS_INCONCLUSIVE"

definition spg_rule_diagnose :: "machine_state \<Rightarrow> rule_thresholds \<Rightarrow> spg_status \<times> diagnosis_result" where
  "spg_rule_diagnose m th =
     (SPG_OK,
      if mc_temperature_mc m \<noteq> MACHINE_UNKNOWN_S \<and> mc_temperature_mc m > rt_temperature_high_mc th
        then \<lparr>di_diagnosis = DIAGNOSIS_THERMAL_ANOMALY, di_process_id = []\<rparr>
      else if memory_known m \<and> ms_total_bytes (mc_memory m) > 0 \<and> memory_used_bp m \<ge> rt_memory_high_bp th
        then \<lparr>di_diagnosis = DIAGNOSIS_MEMORY_PRESSURE, di_process_id = attribute (largest_rss m)\<rparr>
      else if mc_cpu_utilisation_bp m \<noteq> MACHINE_UNKNOWN \<and> mc_cpu_utilisation_bp m \<ge> rt_cpu_high_bp th
        then (case hottest_cpu m of
                None \<Rightarrow> \<lparr>di_diagnosis = DIAGNOSIS_INCONCLUSIVE, di_process_id = []\<rparr>
              | Some hot \<Rightarrow>
                  if ps_cpu_bp hot < rt_process_share_bp th
                    then \<lparr>di_diagnosis = DIAGNOSIS_INCONCLUSIVE, di_process_id = []\<rparr>
                  else \<lparr>di_diagnosis = pressure_of (ps_role hot), di_process_id = attribute (Some hot)\<rparr>)
      else if mc_cpu_utilisation_bp m \<noteq> MACHINE_UNKNOWN \<and> memory_known m \<and> mc_temperature_mc m \<noteq> MACHINE_UNKNOWN_S
        then \<lparr>di_diagnosis = DIAGNOSIS_HEALTHY, di_process_id = []\<rparr>
      else \<lparr>di_diagnosis = DIAGNOSIS_INCONCLUSIVE, di_process_id = []\<rparr>)"

fun spg_diagnosis_to_string :: "diagnosis \<Rightarrow> string" where
  "spg_diagnosis_to_string DIAGNOSIS_INCONCLUSIVE = ''inconclusive''"
| "spg_diagnosis_to_string DIAGNOSIS_HEALTHY = ''healthy''"
| "spg_diagnosis_to_string DIAGNOSIS_BATCH_PRESSURE = ''batch_pressure''"
| "spg_diagnosis_to_string DIAGNOSIS_CRITICAL_PRESSURE = ''critical_pressure''"
| "spg_diagnosis_to_string DIAGNOSIS_MEMORY_PRESSURE = ''memory_pressure''"
| "spg_diagnosis_to_string DIAGNOSIS_THERMAL_ANOMALY = ''thermal_anomaly''"

definition spg_diagnosis_from_string :: "string \<Rightarrow> diagnosis \<times> bool" where
  "spg_diagnosis_from_string txt =
     (case find (\<lambda>d. spg_diagnosis_to_string d = txt)
        [DIAGNOSIS_INCONCLUSIVE, DIAGNOSIS_HEALTHY, DIAGNOSIS_BATCH_PRESSURE, DIAGNOSIS_CRITICAL_PRESSURE,
         DIAGNOSIS_MEMORY_PRESSURE, DIAGNOSIS_THERMAL_ANOMALY] of
        None \<Rightarrow> (DIAGNOSIS_INCONCLUSIVE, False) | Some d \<Rightarrow> (d, True))"

lemma diagnosis_string_roundtrip: "spg_diagnosis_from_string (spg_diagnosis_to_string d) = (d, True)"
  by (cases d) (simp_all add: spg_diagnosis_from_string_def)

section \<open>What the rules name\<close>

text \<open>The invariant of the scan: the best so far has a known value and is the greatest of those seen.\<close>

definition best_of :: "(process_sample \<Rightarrow> u64) \<Rightarrow> process_sample list \<Rightarrow> process_sample option \<Rightarrow> bool" where
  "best_of f ps best =
     (case best of
        None \<Rightarrow> \<forall>p \<in> set ps. f p = MACHINE_UNKNOWN
      | Some b \<Rightarrow> b \<in> set ps \<and> f b \<noteq> MACHINE_UNKNOWN \<and> (\<forall>p \<in> set ps. f p \<noteq> MACHINE_UNKNOWN \<longrightarrow> f p \<le> f b))"

lemma best_of_hotter: "best_of f ps best \<Longrightarrow> best_of f (ps @ [p]) (hotter f p best)"
proof (cases best)
  case (Some b)
  moreover assume "best_of f ps best"
  ultimately show ?thesis
    by (cases "f p = MACHINE_UNKNOWN"; cases "f b < f p") (auto simp: best_of_def hotter_def not_less)
qed (auto simp: best_of_def hotter_def)

lemma best_of_hottest: "best_of f ps (hottest_by f ps)"
proof (induction ps rule: rev_induct)
  case Nil
  then show ?case by (simp add: best_of_def hottest_by_def)
next
  case (snoc p ps)
  then show ?case using best_of_hotter by (simp add: hottest_by_def)
qed

lemma hottest_by_greatest:
  assumes "hottest_by f ps = Some q"
  shows "q \<in> set ps" "f q \<noteq> MACHINE_UNKNOWN" "p \<in> set ps \<Longrightarrow> f p \<noteq> MACHINE_UNKNOWN \<Longrightarrow> f p \<le> f q"
  using best_of_hottest [of f ps] unfolding assms by (simp_all add: best_of_def)

text \<open>Below the range of the product the share is the quotient of the numbers.\<close>

lemma memory_used_bp_exact:
  assumes "unat (ms_total_bytes (mc_memory m)) * 10000 < 2 ^ 64"
  shows "unat (memory_used_bp m) =
    (if ms_used_bytes (mc_memory m) > ms_total_bytes (mc_memory m) then 10000
     else unat (ms_used_bytes (mc_memory m)) * 10000 div unat (ms_total_bytes (mc_memory m)))"
proof (cases "ms_used_bytes (mc_memory m) > ms_total_bytes (mc_memory m)")
  case False
  then have "unat (ms_used_bytes (mc_memory m)) * unat (10000 :: u64) < 2 ^ 64"
    using assms by (simp add: not_less word_le_nat_alt)
  then have "unat (ms_used_bytes (mc_memory m) * 10000) = unat (ms_used_bytes (mc_memory m)) * 10000"
    by (simp add: unat_mult_lem [THEN iffD1])
  then show ?thesis using False by (simp add: memory_used_bp_def Let_def unat_div)
qed (simp add: memory_used_bp_def)

lemma diagnosis_facts:
  assumes "spg_rule_diagnose m th = (st, r)"
  shows "st = SPG_OK"
    and "di_diagnosis r = DIAGNOSIS_THERMAL_ANOMALY \<longleftrightarrow>
      mc_temperature_mc m \<noteq> MACHINE_UNKNOWN_S \<and> mc_temperature_mc m > rt_temperature_high_mc th"
    and "di_diagnosis r \<in> {DIAGNOSIS_BATCH_PRESSURE, DIAGNOSIS_CRITICAL_PRESSURE} \<Longrightarrow>
      \<exists>p \<in> set (mc_processes m). di_process_id r = ps_profile_id p \<and> di_diagnosis r = pressure_of (ps_role p) \<and>
        ps_cpu_bp p \<noteq> MACHINE_UNKNOWN \<and> ps_cpu_bp p \<ge> rt_process_share_bp th \<and>
        (\<forall>q \<in> set (mc_processes m). ps_cpu_bp q \<noteq> MACHINE_UNKNOWN \<longrightarrow> ps_cpu_bp q \<le> ps_cpu_bp p)"
    and "di_diagnosis r = DIAGNOSIS_HEALTHY \<Longrightarrow>
      mc_cpu_utilisation_bp m \<noteq> MACHINE_UNKNOWN \<and> mc_cpu_utilisation_bp m < rt_cpu_high_bp th \<and>
      mc_temperature_mc m \<noteq> MACHINE_UNKNOWN_S \<and> mc_temperature_mc m \<le> rt_temperature_high_mc th \<and>
      memory_known m \<and> (ms_total_bytes (mc_memory m) = 0 \<or> memory_used_bp m < rt_memory_high_bp th)"
    and "di_diagnosis r = DIAGNOSIS_MEMORY_PRESSURE \<Longrightarrow> memory_known m \<and> memory_used_bp m \<ge> rt_memory_high_bp th"
proof -
  note d = assms [unfolded spg_rule_diagnose_def, symmetric]
  have role: "pressure_of x \<noteq> DIAGNOSIS_THERMAL_ANOMALY" "pressure_of x \<noteq> DIAGNOSIS_HEALTHY"
    "pressure_of x \<noteq> DIAGNOSIS_MEMORY_PRESSURE" for x by (cases x; simp)+
  show "st = SPG_OK" using d by simp
  show "di_diagnosis r = DIAGNOSIS_THERMAL_ANOMALY \<longleftrightarrow>
      mc_temperature_mc m \<noteq> MACHINE_UNKNOWN_S \<and> mc_temperature_mc m > rt_temperature_high_mc th"
    using d role by (auto split: if_splits option.splits)
  show "\<exists>p \<in> set (mc_processes m). di_process_id r = ps_profile_id p \<and> di_diagnosis r = pressure_of (ps_role p) \<and>
        ps_cpu_bp p \<noteq> MACHINE_UNKNOWN \<and> ps_cpu_bp p \<ge> rt_process_share_bp th \<and>
        (\<forall>q \<in> set (mc_processes m). ps_cpu_bp q \<noteq> MACHINE_UNKNOWN \<longrightarrow> ps_cpu_bp q \<le> ps_cpu_bp p)"
    if "di_diagnosis r \<in> {DIAGNOSIS_BATCH_PRESSURE, DIAGNOSIS_CRITICAL_PRESSURE}"
  proof -
    from that d obtain p where p: "hottest_cpu m = Some p" "\<not> ps_cpu_bp p < rt_process_share_bp th"
      "r = \<lparr>di_diagnosis = pressure_of (ps_role p), di_process_id = attribute (Some p)\<rparr>"
      by (auto split: if_splits option.splits)
    show ?thesis using hottest_by_greatest [OF p(1) [unfolded hottest_cpu_def]] p(2,3)
      by (intro bexI [of _ p]) (auto simp: attribute_def not_less)
  qed
  show "mc_cpu_utilisation_bp m \<noteq> MACHINE_UNKNOWN \<and> mc_cpu_utilisation_bp m < rt_cpu_high_bp th \<and>
      mc_temperature_mc m \<noteq> MACHINE_UNKNOWN_S \<and> mc_temperature_mc m \<le> rt_temperature_high_mc th \<and>
      memory_known m \<and> (ms_total_bytes (mc_memory m) = 0 \<or> memory_used_bp m < rt_memory_high_bp th)"
    if "di_diagnosis r = DIAGNOSIS_HEALTHY"
    using that d role by (auto simp: not_less not_le split: if_splits option.splits)
  show "memory_known m \<and> memory_used_bp m \<ge> rt_memory_high_bp th"
    if "di_diagnosis r = DIAGNOSIS_MEMORY_PRESSURE"
    using that d role by (auto split: if_splits option.splits)
qed

text \<open>
  The rule baseline never blames a process on thin evidence: whatever the snapshot and the
  thresholds, a CPU diagnosis names the process of the greatest known share, that share reaches the
  threshold and the process has the role the diagnosis says; a healthy machine is one whose load,
  memory and temperature were all readable and all below the thresholds; and a machine that is too
  hot is called so whatever else is wrong with it.
\<close>

theorem diagnosis_is_evidence:
  assumes "spg_rule_diagnose m th = (st, r)"
  shows "st = SPG_OK \<and>
    (di_diagnosis r = DIAGNOSIS_THERMAL_ANOMALY \<longleftrightarrow>
      mc_temperature_mc m \<noteq> MACHINE_UNKNOWN_S \<and> mc_temperature_mc m > rt_temperature_high_mc th) \<and>
    (di_diagnosis r \<in> {DIAGNOSIS_BATCH_PRESSURE, DIAGNOSIS_CRITICAL_PRESSURE} \<longrightarrow>
      (\<exists>p \<in> set (mc_processes m). di_process_id r = ps_profile_id p \<and> di_diagnosis r = pressure_of (ps_role p) \<and>
        ps_cpu_bp p \<noteq> MACHINE_UNKNOWN \<and> ps_cpu_bp p \<ge> rt_process_share_bp th \<and>
        (\<forall>q \<in> set (mc_processes m). ps_cpu_bp q \<noteq> MACHINE_UNKNOWN \<longrightarrow> ps_cpu_bp q \<le> ps_cpu_bp p))) \<and>
    (di_diagnosis r = DIAGNOSIS_HEALTHY \<longrightarrow>
      mc_cpu_utilisation_bp m \<noteq> MACHINE_UNKNOWN \<and> mc_cpu_utilisation_bp m < rt_cpu_high_bp th \<and>
      mc_temperature_mc m \<noteq> MACHINE_UNKNOWN_S \<and> mc_temperature_mc m \<le> rt_temperature_high_mc th \<and>
      memory_known m \<and> (ms_total_bytes (mc_memory m) = 0 \<or> memory_used_bp m < rt_memory_high_bp th)) \<and>
    (di_diagnosis r = DIAGNOSIS_MEMORY_PRESSURE \<longrightarrow> memory_known m \<and> memory_used_bp m \<ge> rt_memory_high_bp th)"
  using diagnosis_facts [OF assms] by blast

definition busy_job :: process_sample where
  "busy_job = \<lparr>ps_pid = 7, ps_start_identity = 1, ps_name = ''job'', ps_state = CHR ''R'', ps_nice = 0, ps_cpu_time = 0,
     ps_cpu_bp = 9500, ps_rss_bytes = 4096, ps_profile_index = 0, ps_profile_id = ''batch-job'', ps_role = ROLE_BATCH,
     ps_may_pause = True, ps_may_stop = False\<rparr>"

definition busy_machine :: machine_state where
  "busy_machine = \<lparr>mc_timestamp_ns = 0, mc_cpu_utilisation_bp = 9800, mc_load_1_cbp = 100,
     mc_memory = \<lparr>ms_total_bytes = 1000, ms_used_bytes = 100, ms_swap_used_bytes = 0\<rparr>, mc_temperature_mc = 50000,
     mc_cpu_freq_khz = 1000, mc_throttle = THROTTLE_NONE, mc_process_count = 1,
     mc_cpu = \<lparr>cs_idle = 0, cs_total = 0\<rparr>, mc_processes_truncated = False, mc_processes = [busy_job]\<rparr>"

lemma busy_machine_diagnosed:
  "spg_rule_diagnose busy_machine spg_rule_thresholds_default =
     (SPG_OK, \<lparr>di_diagnosis = DIAGNOSIS_BATCH_PRESSURE, di_process_id = ''batch-job''\<rparr>)"
  by code_simp

theorem diagnosis_is_evidence_witness:
  "\<exists>p. p \<in> set (mc_processes busy_machine) \<and> ps_profile_id p = ''batch-job'' \<and> ps_role p = ROLE_BATCH \<and> ps_cpu_bp p \<ge> 5000"
  using diagnosis_is_evidence [OF busy_machine_diagnosed]
  by (auto simp: busy_machine_def busy_job_def)

end
