(* ===== verification/GuardRing.thy ===== *)
theory GuardRing
  imports Prelude
begin

text \<open>
  The ring of positive guards of \<open>src/eval/guard_ring.c\<close>: 32 slots keyed by a task shape, with the
  least recently seen one evicted, and the gate that reruns every guard without and with a candidate
  lesson. The runner is the caller's callback; it is a parameter that reads and updates its own
  state. Strings are their characters up to the terminator.
\<close>

definition GUARD_SHAPE_MAX :: nat where "GUARD_SHAPE_MAX = 128"
definition GUARD_PATH_MAX :: nat where "GUARD_PATH_MAX = 256"
definition GUARD_RING_CAP :: nat where "GUARD_RING_CAP = 32"

record guard =
  gd_shape :: string
  gd_config_path :: string
  gd_last_seen :: u64
  gd_used :: bool

record guard_ring =
  gr_slots :: "guard list"
  gr_clock :: u64

definition empty_guard :: guard where
  "empty_guard = \<lparr>gd_shape = [], gd_config_path = [], gd_last_seen = 0, gd_used = False\<rparr>"

definition spg_guard_ring_init :: guard_ring where
  "spg_guard_ring_init = \<lparr>gr_slots = replicate GUARD_RING_CAP empty_guard, gr_clock = 0\<rparr>"

definition copy_path :: "string option \<Rightarrow> string" where
  "copy_path config = (case config of None \<Rightarrow> [] | Some c \<Rightarrow> take GUARD_PATH_MAX c)"

text \<open>The scan of the slots: the one of this shape ends it, else the first free and the least recent.\<close>

datatype slot_scan = Scan_found nat | Scan_end "nat option" nat

fun scan_slots :: "guard list \<Rightarrow> string \<Rightarrow> nat list \<Rightarrow> nat option \<Rightarrow> nat \<Rightarrow> slot_scan" where
  "scan_slots slots shape [] free lru = Scan_end free lru"
| "scan_slots slots shape (i # is) free lru =
     (if gd_used (slots ! i) \<and> gd_shape (slots ! i) = shape then Scan_found i
      else scan_slots slots shape is
             (if \<not> gd_used (slots ! i) \<and> free = None then Some i else free)
             (if gd_last_seen (slots ! i) < gd_last_seen (slots ! lru) then i else lru))"

definition spg_guard_ring_record :: "guard_ring \<Rightarrow> string option \<Rightarrow> string option \<Rightarrow> guard_ring \<times> nat" where
  "spg_guard_ring_record ring shape config =
     (case shape of
        None \<Rightarrow> (ring, GUARD_RING_CAP)
      | Some sh \<Rightarrow>
          (let clock = gr_clock ring + 1
           in case scan_slots (gr_slots ring) sh [0..<GUARD_RING_CAP] None 0 of
                Scan_found i \<Rightarrow>
                  (ring\<lparr>gr_slots := (gr_slots ring)[i := (gr_slots ring ! i)\<lparr>gd_config_path := copy_path config,
                      gd_last_seen := clock\<rparr>], gr_clock := clock\<rparr>, i)
              | Scan_end free lru \<Rightarrow>
                  let i = (case free of Some j \<Rightarrow> j | None \<Rightarrow> lru)
                  in (ring\<lparr>gr_slots := (gr_slots ring)[i := \<lparr>gd_shape = take GUARD_SHAPE_MAX sh,
                        gd_config_path = copy_path config, gd_last_seen = clock, gd_used = True\<rparr>],
                        gr_clock := clock\<rparr>, i)))"

definition spg_guard_ring_count :: "guard_ring \<Rightarrow> nat" where
  "spg_guard_ring_count ring = length (filter gd_used (gr_slots ring))"

definition spg_guard_ring_find :: "guard_ring \<Rightarrow> string \<Rightarrow> guard option" where
  "spg_guard_ring_find ring shape = find (\<lambda>g. gd_used g \<and> gd_shape g = shape) (gr_slots ring)"

definition spg_guard_survives :: "bool \<Rightarrow> bool \<Rightarrow> bool" where
  "spg_guard_survives baseline_passed trial_passed \<longleftrightarrow> trial_passed \<or> \<not> baseline_passed"

fun gate_loop :: "('c \<Rightarrow> string \<Rightarrow> bool \<Rightarrow> bool \<times> 'c) \<Rightarrow> guard list \<Rightarrow> 'c \<Rightarrow> bool \<times> 'c" where
  "gate_loop run [] ctx = (True, ctx)"
| "gate_loop run (gd # gds) ctx =
     (if \<not> gd_used gd then gate_loop run gds ctx
      else (case run ctx (gd_config_path gd) False of
        (baseline, ctx1) \<Rightarrow>
          (case run ctx1 (gd_config_path gd) True of
            (trial, ctx2) \<Rightarrow> if spg_guard_survives baseline trial then gate_loop run gds ctx2 else (False, ctx2))))"

definition spg_guard_ring_gate :: "guard_ring \<Rightarrow> ('c \<Rightarrow> string \<Rightarrow> bool \<Rightarrow> bool \<times> 'c) \<Rightarrow> 'c \<Rightarrow> bool \<times> 'c" where
  "spg_guard_ring_gate ring run ctx = gate_loop run (gr_slots ring) ctx"

section \<open>The scan\<close>

lemma scan_found:
  "scan_slots slots shape is free lru = Scan_found i \<Longrightarrow> i \<in> set is \<and> gd_used (slots ! i) \<and> gd_shape (slots ! i) = shape"
  by (induction "is" arbitrary: free lru) (auto split: if_splits)

lemma scan_end:
  "scan_slots slots shape is free lru = Scan_end free' lru' \<Longrightarrow>
   (\<forall>i \<in> set is. gd_used (slots ! i) \<longrightarrow> gd_shape (slots ! i) \<noteq> shape) \<and>
   (free' = None \<longrightarrow> free = None \<and> (\<forall>i \<in> set is. gd_used (slots ! i))) \<and>
   (\<forall>j. free' = Some j \<longrightarrow> free = Some j \<or> (j \<in> set is \<and> \<not> gd_used (slots ! j))) \<and>
   lru' \<in> set (lru # is) \<and> (\<forall>i \<in> set (lru # is). gd_last_seen (slots ! lru') \<le> gd_last_seen (slots ! i))"
proof (induction "is" arbitrary: free lru)
  case (Cons k ks)
  let ?free = "if \<not> gd_used (slots ! k) \<and> free = None then Some k else free"
  let ?lru = "if gd_last_seen (slots ! k) < gd_last_seen (slots ! lru) then k else lru"
  have no: "\<not> (gd_used (slots ! k) \<and> gd_shape (slots ! k) = shape)"
    and rest: "scan_slots slots shape ks ?free ?lru = Scan_end free' lru'"
    using Cons.prems unfolding scan_slots.simps by (metis slot_scan.distinct(1))+
  note ih = Cons.IH [OF rest]
  have "gd_last_seen (slots ! ?lru) \<le> gd_last_seen (slots ! k)" "gd_last_seen (slots ! ?lru) \<le> gd_last_seen (slots ! lru)"
    by auto
  moreover have "gd_last_seen (slots ! lru') \<le> gd_last_seen (slots ! ?lru)" using ih by simp
  ultimately have "gd_last_seen (slots ! lru') \<le> gd_last_seen (slots ! k)" "gd_last_seen (slots ! lru') \<le> gd_last_seen (slots ! lru)"
    by (auto simp del: split_paired_All split: if_splits)
  then show ?case using ih no by (cases free) (auto split: if_splits)
qed simp

section \<open>The ring as a table keyed by the shape\<close>

text \<open>32 slots, the shapes of the used ones are distinct and fit.\<close>

definition ring_ok :: "guard_ring \<Rightarrow> bool" where
  "ring_ok ring \<longleftrightarrow> length (gr_slots ring) = GUARD_RING_CAP \<and>
     (\<forall>i < GUARD_RING_CAP. \<forall>j < GUARD_RING_CAP.
        gd_used (gr_slots ring ! i) \<and> gd_used (gr_slots ring ! j) \<and> gd_shape (gr_slots ring ! i) = gd_shape (gr_slots ring ! j) \<longrightarrow> i = j)"

lemma ring_ok_init: "ring_ok spg_guard_ring_init"
  by (simp add: ring_ok_def spg_guard_ring_init_def empty_guard_def)

lemma find_iff:
  assumes "ring_ok ring"
  shows "spg_guard_ring_find ring shape = Some gd \<longleftrightarrow> (\<exists>i < GUARD_RING_CAP. gr_slots ring ! i = gd \<and> gd_used gd \<and> gd_shape gd = shape)"
proof -
  have len: "length (gr_slots ring) = GUARD_RING_CAP"
    and inj: "\<And>i j. i < GUARD_RING_CAP \<Longrightarrow> j < GUARD_RING_CAP \<Longrightarrow> gd_used (gr_slots ring ! i) \<Longrightarrow> gd_used (gr_slots ring ! j) \<Longrightarrow>
      gd_shape (gr_slots ring ! i) = gd_shape (gr_slots ring ! j) \<Longrightarrow> i = j"
    using assms unfolding ring_ok_def by blast+
  show ?thesis
    unfolding spg_guard_ring_find_def find_Some_iff len
    using inj by (auto, metis less_trans nat_neq_iff)
qed

lemma find_none_iff:
  assumes "ring_ok ring"
  shows "spg_guard_ring_find ring shape = None \<longleftrightarrow> (\<forall>i < GUARD_RING_CAP. gd_used (gr_slots ring ! i) \<longrightarrow> gd_shape (gr_slots ring ! i) \<noteq> shape)"
  using assms unfolding spg_guard_ring_find_def find_None_iff ring_ok_def in_set_conv_nth by auto

text \<open>What putting a guard into a slot does to the table, when no other slot has its shape.\<close>

lemma find_update:
  fixes clock :: u64
  assumes ok: "ring_ok ring" and i: "i < GUARD_RING_CAP" and used: "gd_used gd"
    and new: "\<And>j. j < GUARD_RING_CAP \<Longrightarrow> j \<noteq> i \<Longrightarrow> gd_used (gr_slots ring ! j) \<Longrightarrow> gd_shape (gr_slots ring ! j) \<noteq> gd_shape gd"
  defines "ring' \<equiv> ring\<lparr>gr_slots := (gr_slots ring)[i := gd], gr_clock := clock\<rparr>"
  shows "ring_ok ring'" "spg_guard_ring_find ring' (gd_shape gd) = Some gd"
    "other \<noteq> gd_shape gd \<Longrightarrow> \<not> (gd_used (gr_slots ring ! i) \<and> gd_shape (gr_slots ring ! i) = other) \<Longrightarrow>
      spg_guard_ring_find ring' other = spg_guard_ring_find ring other"
    "other \<noteq> gd_shape gd \<Longrightarrow> gd_used (gr_slots ring ! i) \<Longrightarrow> gd_shape (gr_slots ring ! i) = other \<Longrightarrow>
      spg_guard_ring_find ring' other = None"
proof -
  have len: "length (gr_slots ring) = GUARD_RING_CAP" using ok by (simp add: ring_ok_def)
  have inj: "\<And>i j. i < GUARD_RING_CAP \<Longrightarrow> j < GUARD_RING_CAP \<Longrightarrow> gd_used (gr_slots ring ! i) \<Longrightarrow> gd_used (gr_slots ring ! j) \<Longrightarrow>
      gd_shape (gr_slots ring ! i) = gd_shape (gr_slots ring ! j) \<Longrightarrow> i = j"
    using ok unfolding ring_ok_def by blast
  have nth: "gr_slots ring' ! j = (if j = i then gd else gr_slots ring ! j)" if "j < GUARD_RING_CAP" for j
    using that len by (simp add: ring'_def nth_list_update)
  show ok': "ring_ok ring'"
    unfolding ring_ok_def
  proof (intro conjI allI impI)
    show "length (gr_slots ring') = GUARD_RING_CAP" using len by (simp add: ring'_def)
    fix j k assume jk: "j < GUARD_RING_CAP" "k < GUARD_RING_CAP"
      "gd_used (gr_slots ring' ! j) \<and> gd_used (gr_slots ring' ! k) \<and> gd_shape (gr_slots ring' ! j) = gd_shape (gr_slots ring' ! k)"
    then show "j = k" using new [OF jk(1)] new [OF jk(2)] inj [OF jk(1,2)] by (auto simp: nth split: if_splits)
  qed
  show "spg_guard_ring_find ring' (gd_shape gd) = Some gd"
    unfolding find_iff [OF ok'] using i used by (intro exI [of _ i]) (simp add: nth)
  show "spg_guard_ring_find ring' other = None"
    if "other \<noteq> gd_shape gd" "gd_used (gr_slots ring ! i)" "gd_shape (gr_slots ring ! i) = other"
    unfolding find_none_iff [OF ok'] using that inj [OF i] by (metis nth)
  show "spg_guard_ring_find ring' other = spg_guard_ring_find ring other"
    if o: "other \<noteq> gd_shape gd" "\<not> (gd_used (gr_slots ring ! i) \<and> gd_shape (gr_slots ring ! i) = other)"
  proof -
    have "spg_guard_ring_find ring' other = Some x \<longleftrightarrow> spg_guard_ring_find ring other = Some x" for x
    proof -
      have "(gr_slots ring' ! j = x \<and> gd_used x \<and> gd_shape x = other) \<longleftrightarrow>
          (gr_slots ring ! j = x \<and> gd_used x \<and> gd_shape x = other)" if "j < GUARD_RING_CAP" for j
        using o by (auto simp: nth [OF that])
      then show ?thesis unfolding find_iff [OF ok'] find_iff [OF ok] by blast
    qed
    then show ?thesis by (metis not_Some_eq)
  qed
qed

section \<open>Recording\<close>

lemma record_cases:
  assumes ok: "ring_ok ring" and r: "spg_guard_ring_record ring (Some shape) config = (ring', i)"
  defines "stored \<equiv> \<lparr>gd_shape = take GUARD_SHAPE_MAX shape, gd_config_path = copy_path config,
    gd_last_seen = gr_clock ring + 1, gd_used = True\<rparr>"
  obtains (present) "i < GUARD_RING_CAP" "gd_used (gr_slots ring ! i)" "gd_shape (gr_slots ring ! i) = shape"
      "ring' = ring\<lparr>gr_slots := (gr_slots ring)[i := stored\<lparr>gd_shape := shape\<rparr>], gr_clock := gr_clock ring + 1\<rparr>"
  | (absent) "i < GUARD_RING_CAP" "spg_guard_ring_find ring shape = None"
      "ring' = ring\<lparr>gr_slots := (gr_slots ring)[i := stored], gr_clock := gr_clock ring + 1\<rparr>"
      "gd_used (gr_slots ring ! i) \<Longrightarrow>
        \<forall>j < GUARD_RING_CAP. gd_used (gr_slots ring ! j) \<and> gd_last_seen (gr_slots ring ! i) \<le> gd_last_seen (gr_slots ring ! j)"
proof (cases "scan_slots (gr_slots ring) shape [0..<GUARD_RING_CAP] None 0")
  case (Scan_found k)
  have "ring' = ring\<lparr>gr_slots := (gr_slots ring)[k := (gr_slots ring ! k)\<lparr>gd_config_path := copy_path config,
      gd_last_seen := gr_clock ring + 1\<rparr>], gr_clock := gr_clock ring + 1\<rparr>" "i = k"
    using r by (auto simp: spg_guard_ring_record_def Scan_found Let_def)
  moreover have "(gr_slots ring ! k)\<lparr>gd_config_path := copy_path config, gd_last_seen := gr_clock ring + 1\<rparr> =
      stored\<lparr>gd_shape := shape\<rparr>"
    using scan_found [OF Scan_found] by (cases "gr_slots ring ! k") (simp add: stored_def)
  ultimately show ?thesis using present scan_found [OF Scan_found] by simp
next
  case (Scan_end free lru)
  note e = scan_end [OF Scan_end]
  let ?i = "case free of Some j \<Rightarrow> j | None \<Rightarrow> lru"
  have r': "ring' = ring\<lparr>gr_slots := (gr_slots ring)[?i := stored], gr_clock := gr_clock ring + 1\<rparr>" "i = ?i"
    using r by (auto simp: spg_guard_ring_record_def Scan_end Let_def stored_def)
  have cap: "0 < GUARD_RING_CAP" by (simp add: GUARD_RING_CAP_def)
  have "spg_guard_ring_find ring shape = None" using e unfolding find_none_iff [OF ok] by simp
  moreover have "i < GUARD_RING_CAP" using e cap r'(2) by (auto split: option.splits)
  moreover have "\<forall>j < GUARD_RING_CAP. gd_used (gr_slots ring ! j) \<and> gd_last_seen (gr_slots ring ! i) \<le> gd_last_seen (gr_slots ring ! j)"
    if "gd_used (gr_slots ring ! i)"
    using e that r'(2) by (auto split: option.splits)
  ultimately show ?thesis using absent r' by blast
qed

text \<open>
  For shapes that fit, the ring is a table keyed by the shape: recording one makes it found with
  the configuration just given, and every other shape is found as before, except that a new shape
  put into a full ring evicts one guard, which is a least recently seen one.
\<close>

theorem guard_ring_records:
  assumes "ring_ok ring" "length shape \<le> GUARD_SHAPE_MAX"
    and "spg_guard_ring_record ring (Some shape) config = (ring', i)"
  shows "ring_ok ring' \<and>
    spg_guard_ring_find ring' shape = Some \<lparr>gd_shape = shape, gd_config_path = copy_path config,
      gd_last_seen = gr_clock ring + 1, gd_used = True\<rparr> \<and>
    (\<forall>other. other \<noteq> shape \<longrightarrow> spg_guard_ring_find ring' other = spg_guard_ring_find ring other \<or>
       (spg_guard_ring_find ring' other = None \<and> spg_guard_ring_find ring shape = None \<and>
        spg_guard_ring_find ring other = Some (gr_slots ring ! i) \<and>
        (\<forall>j < GUARD_RING_CAP. gd_used (gr_slots ring ! j) \<and>
           gd_last_seen (gr_slots ring ! i) \<le> gd_last_seen (gr_slots ring ! j))))"
proof -
  let ?g = "\<lparr>gd_shape = shape, gd_config_path = copy_path config, gd_last_seen = gr_clock ring + 1, gd_used = True\<rparr>"
  have fit: "take GUARD_SHAPE_MAX shape = shape" using assms(2) by simp
  from assms(1,3) show ?thesis
  proof (cases rule: record_cases)
    case present
    have u: "j \<noteq> i \<Longrightarrow> j < GUARD_RING_CAP \<Longrightarrow> gd_used (gr_slots ring ! j) \<Longrightarrow> gd_shape (gr_slots ring ! j) \<noteq> gd_shape ?g" for j
      using assms(1) present(1-3) unfolding ring_ok_def by auto
    have eq: "ring' = ring\<lparr>gr_slots := (gr_slots ring)[i := ?g], gr_clock := gr_clock ring + 1\<rparr>" using present(4) by simp
    note f = find_update [OF assms(1) present(1) _ u, where clock = "gr_clock ring + 1", folded eq]
    show ?thesis using f(1,2) f(3) present(3) by simp
  next
    case absent
    have u: "j \<noteq> i \<Longrightarrow> j < GUARD_RING_CAP \<Longrightarrow> gd_used (gr_slots ring ! j) \<Longrightarrow> gd_shape (gr_slots ring ! j) \<noteq> gd_shape ?g" for j
      using absent(2) unfolding find_none_iff [OF assms(1)] by simp
    have eq: "ring' = ring\<lparr>gr_slots := (gr_slots ring)[i := ?g], gr_clock := gr_clock ring + 1\<rparr>" using absent(3) fit by simp
    note f = find_update [OF assms(1) absent(1) _ u, where clock = "gr_clock ring + 1", folded eq]
    show ?thesis
    proof (intro conjI allI impI)
      show "ring_ok ring'" "spg_guard_ring_find ring' shape = Some ?g" using f(1,2) by simp_all
      fix other assume o: "other \<noteq> shape"
      show "spg_guard_ring_find ring' other = spg_guard_ring_find ring other \<or>
       (spg_guard_ring_find ring' other = None \<and> spg_guard_ring_find ring shape = None \<and>
        spg_guard_ring_find ring other = Some (gr_slots ring ! i) \<and>
        (\<forall>j < GUARD_RING_CAP. gd_used (gr_slots ring ! j) \<and>
           gd_last_seen (gr_slots ring ! i) \<le> gd_last_seen (gr_slots ring ! j)))"
      proof (cases "gd_used (gr_slots ring ! i) \<and> gd_shape (gr_slots ring ! i) = other")
        case True
        then have "spg_guard_ring_find ring other = Some (gr_slots ring ! i)"
          unfolding find_iff [OF assms(1)] using absent(1) by blast
        then show ?thesis using True f(4) o absent(2,4) by simp
      next
        case False
        then show ?thesis using f(3) o by simp
      qed
    qed
  qed
qed

theorem guard_ring_records_witness:
  "spg_guard_ring_find (fst (spg_guard_ring_record spg_guard_ring_init (Some ''a'') (Some ''p''))) ''a'' =
     Some \<lparr>gd_shape = ''a'', gd_config_path = ''p'', gd_last_seen = 1, gd_used = True\<rparr>"
  using guard_ring_records [OF ring_ok_init _ prod.collapse [symmetric], of "''a''" "Some ''p''"]
  by (simp add: GUARD_SHAPE_MAX_def spg_guard_ring_init_def copy_path_def GUARD_PATH_MAX_def)

lemma filter_update_count:
  assumes "k < length xs" "\<not> P (xs ! k)" "P y"
  shows "length (filter P (xs[k := y])) = length (filter P xs) + 1"
proof -
  have "length (filter P xs) = length (filter P (take k xs @ xs ! k # drop (Suc k) xs))"
    using id_take_nth_drop [OF assms(1)] by simp
  then show ?thesis using assms by (simp add: upd_conv_take_nth_drop)
qed

text \<open>
  A shape longer than the field is stored cut but looked up whole: it is never found again, and
  recording it again adds another copy of the same guard, until the copies have evicted the others.
\<close>

theorem guard_long_shape_duplicates:
  assumes "length shape > GUARD_SHAPE_MAX" "length (gr_slots ring) = GUARD_RING_CAP"
    and "\<forall>gd \<in> set (gr_slots ring). length (gd_shape gd) \<le> GUARD_SHAPE_MAX"
    and "spg_guard_ring_record ring (Some shape) config = (ring', i)"
  shows "spg_guard_ring_find ring' shape = None \<and>
    (\<forall>gd \<in> set (gr_slots ring'). length (gd_shape gd) \<le> GUARD_SHAPE_MAX) \<and>
    (spg_guard_ring_count ring < GUARD_RING_CAP \<longrightarrow> spg_guard_ring_count ring' = spg_guard_ring_count ring + 1)"
proof (cases "scan_slots (gr_slots ring) shape [0..<GUARD_RING_CAP] None 0")
  case (Scan_found k)
  then have "gr_slots ring ! k \<in> set (gr_slots ring)" "gd_shape (gr_slots ring ! k) = shape"
    using scan_found [OF Scan_found] assms(2) by simp_all
  then show ?thesis using assms(1,3) by auto
next
  case (Scan_end free lru)
  let ?i = "case free of Some j \<Rightarrow> j | None \<Rightarrow> lru"
  let ?g = "\<lparr>gd_shape = take GUARD_SHAPE_MAX shape, gd_config_path = copy_path config,
    gd_last_seen = gr_clock ring + 1, gd_used = True\<rparr>"
  have r': "gr_slots ring' = (gr_slots ring)[?i := ?g]"
    using assms(4) by (auto simp: spg_guard_ring_record_def Scan_end Let_def)
  have short: "\<forall>gd \<in> set (gr_slots ring'). length (gd_shape gd) \<le> GUARD_SHAPE_MAX"
    using assms(3) unfolding r' by (auto dest!: set_update_subset_insert [THEN subsetD])
  moreover have "spg_guard_ring_find ring' shape = None"
    using short assms(1) by (auto simp: spg_guard_ring_find_def find_None_iff)
  moreover have "spg_guard_ring_count ring' = spg_guard_ring_count ring + 1" if "spg_guard_ring_count ring < GUARD_RING_CAP"
  proof -
    have "filter gd_used (gr_slots ring) \<noteq> gr_slots ring" using that assms(2) by (auto simp: spg_guard_ring_count_def)
    then obtain j where "j < GUARD_RING_CAP" "\<not> gd_used (gr_slots ring ! j)"
      using assms(2) by (metis filter_True in_set_conv_nth)
    then obtain k where k: "free = Some k" using scan_end [OF Scan_end] by (cases free) auto
    then have "k < GUARD_RING_CAP" "\<not> gd_used (gr_slots ring ! k)" using scan_end [OF Scan_end] by auto
    then show ?thesis using assms(2) unfolding r' k spg_guard_ring_count_def
      by (simp add: filter_update_count)
  qed
  ultimately show ?thesis by blast
qed

text \<open>
  A short shape never meets this: the hypotheses of the last theorem hold of the first shape of 129
  characters put into a new ring.
\<close>

theorem guard_long_shape_duplicates_witness:
  "spg_guard_ring_find (fst (spg_guard_ring_record spg_guard_ring_init (Some (replicate 129 CHR ''x'')) None))
     (replicate 129 CHR ''x'') = None"
  using guard_long_shape_duplicates [of "replicate 129 CHR ''x''" spg_guard_ring_init None, OF _ _ _ prod.collapse [symmetric]]
  by (simp add: GUARD_SHAPE_MAX_def spg_guard_ring_init_def empty_guard_def)

section \<open>The gate\<close>

text \<open>
  With a runner whose answers depend only on the configuration and the lesson, the gate accepts
  exactly when no guard that passes without the lesson fails with it.
\<close>

theorem guard_gate_vetoes:
  "fst (spg_guard_ring_gate ring (\<lambda>ctx path lesson. (verdict path lesson, next_ctx ctx path lesson)) ctx) \<longleftrightarrow>
     filter (\<lambda>gd. gd_used gd \<and> verdict (gd_config_path gd) False \<and> \<not> verdict (gd_config_path gd) True) (gr_slots ring) = []"
proof -
  have "fst (gate_loop (\<lambda>ctx path lesson. (verdict path lesson, next_ctx ctx path lesson)) gds ctx) \<longleftrightarrow>
     filter (\<lambda>gd. gd_used gd \<and> verdict (gd_config_path gd) False \<and> \<not> verdict (gd_config_path gd) True) gds = []" for gds
    by (induction gds arbitrary: ctx) (auto simp: spg_guard_survives_def)
  then show ?thesis by (simp add: spg_guard_ring_gate_def)
qed

end
