(* ===== verification/Ranked.thy ===== *)
theory Ranked
  imports MemStore "HOL-Library.Product_Lexorder" "HOL-Library.List_Lexorder" "HOL-Library.Multiset"
begin

text \<open>
  Bounded selection by rank: the scans that keep the best of a sequence in an array of a fixed
  capacity, shifting from the end and remembering that something did not fit. A rank is given by a
  key into a linear order; the kept elements are then the first of the stably sorted sequence.
\<close>

definition bounded_insert :: "('a \<Rightarrow> 'a \<Rightarrow> bool) \<Rightarrow> nat \<Rightarrow> 'a \<Rightarrow> 'a list \<times> bool \<Rightarrow> 'a list \<times> bool" where
  "bounded_insert before cap x st =
     (case st of (xs, truncated) \<Rightarrow>
        if cap = 0 then (xs, True)
        else if length xs = cap
          then (if \<not> before x (last xs) then (xs, True) else (insert_back before x (butlast xs), True))
        else (insert_back before x xs, truncated))"

locale ranked =
  fixes before :: "'a \<Rightarrow> 'a \<Rightarrow> bool" and key :: "'a \<Rightarrow> 'k::linorder"
  assumes before_key: "before x y \<longleftrightarrow> key x < key y"
begin

definition place :: "'a \<Rightarrow> 'a list \<Rightarrow> 'a list" where
  "place x ys = takeWhile (\<lambda>y. key y \<le> key x) ys @ x # dropWhile (\<lambda>y. key y \<le> key x) ys"

lemma sorted_split:
  "sorted (map key ys) \<Longrightarrow> y \<in> set (dropWhile (\<lambda>y. key y \<le> k) ys) \<Longrightarrow> k < key y"
  by (induction ys) (auto split: if_splits dest: order.strict_trans2)

lemma insert_back_place:
  assumes "sorted (map key ys)"
  shows "insert_back before x ys = place x ys"
proof -
  let ?A = "takeWhile (\<lambda>y. key y \<le> key x) ys" and ?B = "dropWhile (\<lambda>y. key y \<le> key x) ys"
  have b: "\<forall>y \<in> set (rev ?B). before x y" using sorted_split [OF assms] by (auto simp: before_key)
  have a: "\<forall>y \<in> set ?A. \<not> before x y" by (auto simp: before_key not_less dest: set_takeWhileD)
  have r: "rev ys = rev ?B @ rev ?A" by (simp flip: rev_append)
  have "takeWhile (before x) (rev ?A) = []" "dropWhile (before x) (rev ?A) = rev ?A"
    using a by (cases "rev ?A"; force)+
  moreover have "takeWhile (before x) (rev ?B @ rev ?A) = rev ?B @ takeWhile (before x) (rev ?A)"
    "dropWhile (before x) (rev ?B @ rev ?A) = dropWhile (before x) (rev ?A)"
    using b by (blast intro: takeWhile_append2 dropWhile_append2)+
  ultimately show ?thesis unfolding insert_back_def r place_def by simp
qed

lemma place_sorts: "sort_key key (ys @ [x]) = place x (sort_key key ys)"
proof (rule properties_for_sort_key)
  let ?s = "sort_key key ys"
  have sp: "takeWhile P ?s @ dropWhile P ?s = ?s" for P by simp
  have "mset (place x ?s) = add_mset x (mset (takeWhile (\<lambda>y. key y \<le> key x) ?s @ dropWhile (\<lambda>y. key y \<le> key x) ?s))"
    by (simp only: place_def mset_append mset.simps union_mset_add_mset_right)
  then show "mset (place x ?s) = mset (ys @ [x])" by (simp only: sp mset_sort mset_append) simp
  have up: "z \<in> set (dropWhile (\<lambda>y. key y \<le> key x) ?s) \<Longrightarrow> key x < key z" for z
    using sorted_split [of ?s] by simp
  have "sorted (map key (takeWhile (\<lambda>y. key y \<le> key x) ?s @ dropWhile (\<lambda>y. key y \<le> key x) ?s))" by simp
  then show "sorted (map key (place x ?s))"
    unfolding place_def map_append sorted_append using up
    by (auto dest: set_takeWhileD intro: less_imp_le)
  fix k
  have stable: "filter (\<lambda>y. key k = key y) ?s = filter (\<lambda>y. key k = key y) ys"
    using sort_key_stable [of key "key k" ys] by (simp add: eq_commute)
  have "filter (\<lambda>y. key k = key y) (dropWhile (\<lambda>y. key y \<le> key x) ?s) = []" if "key k = key x"
    unfolding filter_empty_conv that using up less_irrefl by metis
  moreover have "filter (\<lambda>y. key k = key y) (takeWhile (\<lambda>y. key y \<le> key x) ?s) @
      filter (\<lambda>y. key k = key y) (dropWhile (\<lambda>y. key y \<le> key x) ?s) = filter (\<lambda>y. key k = key y) ys"
    by (simp only: filter_append [symmetric] sp stable)
  ultimately show "filter (\<lambda>y. key k = key y) (place x ?s) = filter (\<lambda>y. key k = key y) (ys @ [x])"
    unfolding place_def by (cases "key k = key x") auto
qed

text \<open>One step keeps the first elements of the sorted list.\<close>

lemma bounded_insert_take:
  assumes s: "sorted (map key ys)" and cap: "0 < cap"
  shows "fst (bounded_insert before cap x (take cap ys, tr)) = take cap (place x ys)"
proof (cases "length ys < cap")
  case True
  have "length (place x ys) = length ys + 1"
    unfolding place_def length_append list.size using length_append [of "takeWhile (\<lambda>y. key y \<le> key x) ys" "dropWhile (\<lambda>y. key y \<le> key x) ys"]
    by simp
  then show ?thesis using True insert_back_place [OF s] cap by (simp add: bounded_insert_def)
next
  case False
  define A B where "A = takeWhile (\<lambda>y. key y \<le> key x) ys" and "B = dropWhile (\<lambda>y. key y \<le> key x) ys"
  have ys: "ys = A @ B" by (simp add: A_def B_def)
  have pl: "place x ys = A @ x # B" by (simp add: place_def A_def B_def)
  have in_A: "\<And>y. y \<in> set A \<Longrightarrow> key y \<le> key x" unfolding A_def by (auto dest: set_takeWhileD)
  have in_B: "\<And>y. y \<in> set B \<Longrightarrow> key x < key y" unfolding B_def using sorted_split [OF s] by blast
  have len: "length (take cap ys) = cap" using False by simp
  have la: "last (take cap ys) = ys ! (cap - 1)" using len cap by (subst last_conv_nth) auto
  have iff: "before x (last (take cap ys)) \<longleftrightarrow> length A < cap"
  proof
    assume "before x (last (take cap ys))"
    then have "\<not> key (ys ! (cap - 1)) \<le> key x" by (simp add: la before_key)
    moreover have "key (ys ! (cap - 1)) \<le> key x" if "cap - 1 < length A"
      using that in_A nth_mem [OF that] unfolding ys nth_append by simp
    ultimately show "length A < cap" using cap by linarith
  next
    assume "length A < cap"
    moreover have "cap \<le> length A + length B" using False unfolding ys length_append by linarith
    ultimately have "\<not> cap - 1 < length A" "cap - 1 - length A < length B" by linarith+
    then have "ys ! (cap - 1) \<in> set B" unfolding ys nth_append by simp
    then show "before x (last (take cap ys))" unfolding la before_key by (rule in_B)
  qed
  show ?thesis
  proof (cases "length A < cap")
    case True
    have bl: "butlast (take cap ys) = take (cap - 1) ys" using False cap by (simp add: butlast_take)
    have "sorted (map key (take (cap - 1) ys))" using s by (simp add: sorted_wrt_take flip: take_map)
    moreover have t: "take (cap - 1) ys = A @ take (cap - 1 - length A) B"
    proof -
      have "length A \<le> cap - 1" using True by linarith
      then show ?thesis unfolding ys take_append by simp
    qed
    have "takeWhile (\<lambda>y. key y \<le> key x) (take (cap - 1 - length A) B) = []"
      "dropWhile (\<lambda>y. key y \<le> key x) (take (cap - 1 - length A) B) = take (cap - 1 - length A) B"
      using in_B [OF in_set_takeD [of _ "cap - 1 - length A"]] by (cases "take (cap - 1 - length A) B"; force simp: not_le)+
    then have "takeWhile (\<lambda>y. key y \<le> key x) (take (cap - 1) ys) = A"
      "dropWhile (\<lambda>y. key y \<le> key x) (take (cap - 1) ys) = take (cap - 1 - length A) B"
      unfolding t using in_A by (simp_all add: takeWhile_append2 dropWhile_append2)
    ultimately have "insert_back before x (butlast (take cap ys)) = A @ x # take (cap - 1 - length A) B"
      using insert_back_place [of "take (cap - 1) ys"] by (simp add: bl place_def)
    moreover have "take cap (A @ x # B) = A @ x # take (cap - 1 - length A) B"
    proof -
      have "cap - length A = Suc (cap - 1 - length A)" "take cap A = A" using True by simp_all
      then show ?thesis unfolding take_append by (simp only: take_Suc_Cons)
    qed
    ultimately show ?thesis using True iff cap len by (simp add: bounded_insert_def pl)
  next
    case False
    then have "\<not> before x (last (take cap ys))" using iff by simp
    then have "fst (bounded_insert before cap x (take cap ys, tr)) = take cap ys"
      using cap len by (simp add: bounded_insert_def)
    moreover have "take cap ys = take cap (place x ys)" using False unfolding pl by (simp add: ys)
    ultimately show ?thesis by simp
  qed
qed

theorem bounded_selection:
  "fold (bounded_insert before cap) xs ([], False) = (take cap (sort_key key xs), cap < length xs)"
proof (induction xs rule: rev_induct)
  case (snoc x xs)
  let ?st = "(take cap (sort_key key xs), cap < length xs)"
  have f: "fold (bounded_insert before cap) (xs @ [x]) ([], False) = bounded_insert before cap x ?st"
    by (simp add: snoc)
  show ?case
  proof (cases "cap = 0")
    case False
    then have "fst (bounded_insert before cap x ?st) = take cap (sort_key key (xs @ [x]))"
      using bounded_insert_take [of "sort_key key xs"] by (simp only: place_sorts) simp
    moreover have "snd (bounded_insert before cap x ?st) = (cap < length (xs @ [x]))"
    proof (cases "length xs < cap")
      case True
      then show ?thesis using False by (simp add: bounded_insert_def)
    next
      case False
      then have "length (take cap (sort_key key xs)) = cap" by simp
      then show ?thesis using \<open>cap \<noteq> 0\<close> False by (simp add: bounded_insert_def del: length_take)
    qed
    ultimately show ?thesis unfolding f by (rule prod_eqI [of _ "(_, _)", simplified])
  next
    case True
    then show ?thesis unfolding f by (simp add: bounded_insert_def)
  qed
qed simp

lemma selected_first:
  assumes "fold (bounded_insert before cap) xs ([], False) = (ys, tr)"
  shows "ys = take cap (sort_key key xs)" "tr \<longleftrightarrow> cap < length xs" "set ys \<subseteq> set xs" "sorted (map key ys)"
    "length ys = min cap (length xs)"
  using assms set_take_subset [of cap "sort_key key xs"]
  by (auto simp: bounded_selection sorted_wrt_take simp flip: take_map)

end

section \<open>Sorted sets\<close>

text \<open>When the key tells elements apart, a strictly sorted list is determined by its elements.\<close>

locale keyed = ranked +
  assumes key_inj: "key x = key y \<Longrightarrow> x = y"
begin

lemma before_irrefl: "\<not> before x x"
  and before_trans: "before x y \<Longrightarrow> before y z \<Longrightarrow> before x z"
  and before_total: "x = y \<or> before x y \<or> before y x"
  using key_inj less_linear [of "key x" "key y"] by (auto simp: before_key)

lemma before_eq: "before = (\<lambda>x y. key x < key y)"
  by (intro ext) (rule before_key)

lemma sorted_wrt_split:
  assumes "sorted_wrt before ts"
  shows "\<forall>t \<in> set (takeWhile (\<lambda>t. before t x) ts). before t x"
    "\<forall>t \<in> set (dropWhile (\<lambda>t. before t x) ts). t = x \<or> before x t"
    "x \<in> set ts \<longleftrightarrow> dropWhile (\<lambda>t. before t x) ts \<noteq> [] \<and> hd (dropWhile (\<lambda>t. before t x) ts) = x"
proof -
  show "\<forall>t \<in> set (takeWhile (\<lambda>t. before t x) ts). before t x" by (blast dest: set_takeWhileD)
  show d: "\<forall>t \<in> set (dropWhile (\<lambda>t. before t x) ts). t = x \<or> before x t"
    using assms
  proof (induction ts)
    case (Cons t ts)
    show ?case
    proof (cases "before t x")
      case False
      then have "t = x \<or> before x t" using before_total by blast
      moreover have "before t u" if "u \<in> set ts" for u using Cons.prems that by simp
      ultimately show ?thesis using False before_trans by (simp, blast)
    qed (use Cons in simp)
  qed simp
  show "x \<in> set ts \<longleftrightarrow> dropWhile (\<lambda>t. before t x) ts \<noteq> [] \<and> hd (dropWhile (\<lambda>t. before t x) ts) = x"
    using assms
  proof (induction ts)
    case (Cons t ts)
    show ?case
    proof (cases "before t x")
      case True
      then have "x \<noteq> t" using before_irrefl by blast
      then show ?thesis using Cons True by simp
    next
      case False
      then have "x \<in> set ts \<Longrightarrow> x = t" using Cons.prems by simp
      then show ?thesis using False by auto
    qed
  qed simp
qed

lemma sorted_wrt_middle:
  "sorted_wrt P (f @ r) \<Longrightarrow> \<forall>a \<in> set f. P a x \<Longrightarrow> \<forall>b \<in> set r. P x b \<Longrightarrow> sorted_wrt P (f @ x # r)"
  by (auto simp: sorted_wrt_append)

lemma sorted_wrt_insert:
  assumes "sorted_wrt before ts" "x \<notin> set ts"
  shows "sorted_wrt before (takeWhile (\<lambda>t. before t x) ts @ x # dropWhile (\<lambda>t. before t x) ts)"
proof -
  let ?f = "takeWhile (\<lambda>t. before t x) ts" and ?r = "dropWhile (\<lambda>t. before t x) ts"
  note sp = sorted_wrt_split [OF assms(1), of x]
  have r: "\<forall>t \<in> set ?r. before x t" using sp(2) assms(2) set_dropWhileD by metis
  have "sorted_wrt before (?f @ ?r)" using assms(1) by (simp only: takeWhile_dropWhile_id)
  then show ?thesis using sp(1) r by (rule sorted_wrt_middle)
qed

lemma sorted_wrt_unique:
  assumes "sorted_wrt before ts" "sorted_wrt before us" "set ts = set us"
  shows "ts = us"
proof -
  have "sorted_wrt (<) (map key ts)" "sorted_wrt (<) (map key us)"
    using assms(1,2) by (simp_all add: sorted_wrt_map before_eq)
  moreover have "set (map key ts) = set (map key us)" by (simp only: set_map assms(3))
  ultimately have "map key ts = map key us"
    unfolding strict_sorted_iff by (blast intro: sorted_distinct_set_unique)
  moreover have "inj key" using key_inj by (rule injI)
  ultimately show ?thesis by (simp only: inj_map_eq_map)
qed

lemma sorted_wrt_card: "sorted_wrt before ts \<Longrightarrow> length ts = card (set ts)"
proof -
  assume "sorted_wrt before ts"
  then have "sorted_wrt (<) (map key ts)" by (simp add: sorted_wrt_map before_eq)
  then have "distinct ts" unfolding strict_sorted_iff distinct_map by blast
  then show ?thesis by (simp only: distinct_card)
qed

end

section \<open>The order of C strings\<close>

text \<open>\<open>strcmp\<close> is the lexicographic order of the codes.\<close>

lemma strcmp_less_iff: "strcmp_less xs ys \<longleftrightarrow> map code_of xs < (map code_of ys :: nat list)"
proof (induction xs ys rule: strcmp_less.induct)
  case (1 ys)
  then show ?case by (cases ys) simp_all
qed (auto simp: Cons_less_Cons)

interpretation by_name: keyed strcmp_less "map code_of :: string \<Rightarrow> nat list"
proof (unfold_locales, goal_cases)
  case (2 xs ys)
  then show ?case by (metis inj_map_eq_map injI of_char_eq_iff)
qed (rule strcmp_less_iff)

text \<open>The memory entries rank by recency, ties by name.\<close>

definition recency_key :: "mem_entry \<Rightarrow> int \<times> nat list" where
  "recency_key e = (- uint (me_updated e), map code_of (me_slug e))"

interpretation by_recency: ranked entry_before recency_key
  by unfold_locales
     (auto simp: entry_before_def recency_key_def strcmp_less_iff word_less_def word_uint_eq_iff)

end
