(* ===== verification/MachineGoal.thy ===== *)
theory MachineGoal
  imports Telemetry DeviceText
begin

text \<open>
  The goals of \<open>src/machine/machine_goal.c\<close>: loading the constraints of a goal file, judging a
  finished run against the final snapshot, and rendering the goal for the prompt. An absent
  constraint is the code's sentinel.
\<close>

definition GOAL_UNSET :: u64 where "GOAL_UNSET = UINT64_MAX"
definition GOAL_UNSET_S :: int where "GOAL_UNSET_S = - 9223372036854775808"

record machine_goal =
  go_max_temperature_mc :: i64
  go_min_critical_health_bp :: u64
  go_max_actions :: u64
  go_present :: bool

datatype goal_verdict =
  GOAL_SATISFIED | GOAL_TEMPERATURE_TOO_HIGH | GOAL_CRITICAL_UNHEALTHY | GOAL_TOO_MANY_ACTIONS
| GOAL_UNMEASURABLE | GOAL_NO_GOAL

record goal_evaluation =
  ge_verdict :: goal_verdict
  ge_temperature_mc :: i64
  ge_critical_health_bp :: u64
  ge_actions_used :: u64

definition no_goal :: machine_goal where
  "no_goal = \<lparr>go_max_temperature_mc = GOAL_UNSET_S, go_min_critical_health_bp = GOAL_UNSET,
     go_max_actions = GOAL_UNSET, go_present = False\<rparr>"

section \<open>Loading\<close>

text \<open>A signed number: a minus sign and the magnitude of at most \<open>2 ^ 63 - 1\<close>.\<close>

definition goal_temperature :: "string \<Rightarrow> text_span \<Rightarrow> i64 option" where
  "goal_temperature input sp =
     (let negate = sp_length sp > 0 \<and> input ! sp_offset sp = CHR ''-'';
          body = (if negate then sp\<lparr>sp_offset := sp_offset sp + 1, sp_length := sp_length sp - 1\<rparr> else sp)
      in case spg_sexpr_parse_uint64_span input body of
           Inl _ \<Rightarrow> None
         | Inr m \<Rightarrow> if m > UINT64_MAX div 2 then None
                    else Some (if negate then - int (unat m) else int (unat m)))"

text \<open>Each field that is there is stored before the next one is read.\<close>

definition load_temperature :: "string \<Rightarrow> sexpr_node list \<Rightarrow> machine_goal \<Rightarrow> spg_status \<times> machine_goal" where
  "load_temperature input nodes goal =
     (let v = field_value input nodes 0 ''max-temperature-mc''
      in if v = INVALID_INDEX then (SPG_OK, goal)
         else (case goal_temperature input (nd_span (nodes ! v)) of
                 None \<Rightarrow> (SPG_E_SCHEMA, goal)
               | Some t \<Rightarrow> (SPG_OK, goal\<lparr>go_max_temperature_mc := t\<rparr>)))"

definition load_health :: "string \<Rightarrow> sexpr_node list \<Rightarrow> machine_goal \<Rightarrow> spg_status \<times> machine_goal" where
  "load_health input nodes goal =
     (let v = field_value input nodes 0 ''min-critical-service-health-bp''
      in if v = INVALID_INDEX then (SPG_OK, goal)
         else (case spg_sexpr_parse_uint64_span input (nd_span (nodes ! v)) of
                 Inl _ \<Rightarrow> (SPG_E_SCHEMA, goal)
               | Inr h \<Rightarrow> (if h > 10000 then SPG_E_SCHEMA else SPG_OK,
                           goal\<lparr>go_min_critical_health_bp := h\<rparr>)))"

definition load_actions :: "string \<Rightarrow> sexpr_node list \<Rightarrow> machine_goal \<Rightarrow> spg_status \<times> machine_goal" where
  "load_actions input nodes goal =
     (let v = field_value input nodes 0 ''max-actions''
      in if v = INVALID_INDEX then (SPG_OK, goal)
         else (case spg_sexpr_parse_uint64_span input (nd_span (nodes ! v)) of
                 Inl _ \<Rightarrow> (SPG_E_SCHEMA, goal)
               | Inr n \<Rightarrow> (SPG_OK, goal\<lparr>go_max_actions := n\<rparr>)))"

definition spg_machine_goal_load :: "string \<Rightarrow> nat \<Rightarrow> nat \<Rightarrow> spg_status \<times> machine_goal" where
  "spg_machine_goal_load input token_capacity node_capacity =
     (case spg_sexpr_parse_text input token_capacity node_capacity of
        (st, toks, nodes, e) \<Rightarrow>
          if st \<noteq> SPG_OK then (st, no_goal)
          else if nodes = [] then (SPG_E_FORMAT, no_goal)
          else if nd_kind (nodes ! 0) \<noteq> NODE_LIST \<or> spg_sexpr_first_child nodes 0 = INVALID_INDEX \<or>
                  \<not> spg_sexpr_span_eq_cstr input (nd_span (nodes ! spg_sexpr_first_child nodes 0)) ''machine-goal''
            then (SPG_E_SCHEMA, no_goal)
          else (case load_temperature input nodes no_goal of
            (st1, g1) \<Rightarrow> if st1 \<noteq> SPG_OK then (st1, g1)
              else (case load_health input nodes g1 of
                (st2, g2) \<Rightarrow> if st2 \<noteq> SPG_OK then (st2, g2)
                  else (case load_actions input nodes g2 of
                    (st3, g3) \<Rightarrow> if st3 \<noteq> SPG_OK then (st3, g3)
                      else (SPG_OK, g3\<lparr>go_present := True\<rparr>)))))"

section \<open>Judging\<close>

definition unhealthy :: "process_sample \<Rightarrow> bool" where
  "unhealthy p \<longleftrightarrow> ps_state p = CHR ''T'' \<or> ps_state p = CHR ''Z''"

definition critical_health_bp :: "machine_state \<Rightarrow> u64" where
  "critical_health_bp m =
     (let critical = filter (\<lambda>p. ps_role p = ROLE_CRITICAL) (mc_processes m)
      in if critical = [] then MACHINE_UNKNOWN
         else if filter unhealthy critical = [] then 10000 else 0)"

definition goal_verdict_of :: "machine_goal \<Rightarrow> machine_state \<Rightarrow> u64 \<Rightarrow> goal_verdict" where
  "goal_verdict_of goal m used =
     (if \<not> go_present goal then GOAL_NO_GOAL
      else if go_max_actions goal \<noteq> GOAL_UNSET \<and> used > go_max_actions goal then GOAL_TOO_MANY_ACTIONS
      else if go_max_temperature_mc goal \<noteq> GOAL_UNSET_S \<and> mc_temperature_mc m = MACHINE_UNKNOWN_S
        then GOAL_UNMEASURABLE
      else if go_max_temperature_mc goal \<noteq> GOAL_UNSET_S \<and> mc_temperature_mc m > go_max_temperature_mc goal
        then GOAL_TEMPERATURE_TOO_HIGH
      else if go_min_critical_health_bp goal \<noteq> GOAL_UNSET \<and> critical_health_bp m = MACHINE_UNKNOWN
        then GOAL_UNMEASURABLE
      else if go_min_critical_health_bp goal \<noteq> GOAL_UNSET \<and> critical_health_bp m < go_min_critical_health_bp goal
        then GOAL_CRITICAL_UNHEALTHY
      else GOAL_SATISFIED)"

definition spg_machine_goal_evaluate :: "machine_goal \<Rightarrow> machine_state \<Rightarrow> u64 \<Rightarrow> spg_status \<times> goal_evaluation" where
  "spg_machine_goal_evaluate goal m used =
     (SPG_OK, \<lparr>ge_verdict = goal_verdict_of goal m used, ge_temperature_mc = mc_temperature_mc m,
        ge_critical_health_bp = critical_health_bp m, ge_actions_used = used\<rparr>)"

section \<open>Rendering\<close>

text \<open>\<open>put_i64\<close> is given the two unsigned constraints converted to a signed number.\<close>

definition machine_goal_text :: "machine_goal \<Rightarrow> string" where
  "machine_goal_text goal =
     ''(machine-goal'' @
     (if go_max_temperature_mc goal \<noteq> GOAL_UNSET_S
      then '' (max-temperature-mc '' @ i64_to_dec (go_max_temperature_mc goal) @ '')'' else []) @
     (if go_min_critical_health_bp goal \<noteq> GOAL_UNSET
      then '' (min-critical-service-health-bp '' @ i64_to_dec (sint (go_min_critical_health_bp goal)) @ '')'' else []) @
     (if go_max_actions goal \<noteq> GOAL_UNSET
      then '' (max-actions '' @ i64_to_dec (sint (go_max_actions goal)) @ '')'' else []) @ '')''"

definition spg_machine_goal_render :: "machine_goal \<Rightarrow> nat \<Rightarrow> spg_status \<times> string \<times> nat" where
  "spg_machine_goal_render goal capacity =
     (if capacity = 0 then (SPG_E_INVALID_ARG, [], 0) else render_out (machine_goal_text goal) capacity)"

fun spg_goal_verdict_to_string :: "goal_verdict \<Rightarrow> string" where
  "spg_goal_verdict_to_string GOAL_SATISFIED = ''satisfied''"
| "spg_goal_verdict_to_string GOAL_TEMPERATURE_TOO_HIGH = ''temperature_too_high''"
| "spg_goal_verdict_to_string GOAL_CRITICAL_UNHEALTHY = ''critical_unhealthy''"
| "spg_goal_verdict_to_string GOAL_TOO_MANY_ACTIONS = ''too_many_actions''"
| "spg_goal_verdict_to_string GOAL_UNMEASURABLE = ''unmeasurable''"
| "spg_goal_verdict_to_string GOAL_NO_GOAL = ''no_goal''"

section \<open>A satisfied goal was measured\<close>

lemma critical_health_cases:
  "critical_health_bp m = MACHINE_UNKNOWN \<longleftrightarrow> filter (\<lambda>p. ps_role p = ROLE_CRITICAL) (mc_processes m) = []"
  "filter (\<lambda>p. ps_role p = ROLE_CRITICAL) (mc_processes m) \<noteq> [] \<Longrightarrow> critical_health_bp m =
     (if list_all (\<lambda>p. ps_role p = ROLE_CRITICAL \<longrightarrow> \<not> unhealthy p) (mc_processes m) then 10000 else 0)"
  by (auto simp: critical_health_bp_def Let_def MACHINE_UNKNOWN_def list_all_iff filter_empty_conv)

text \<open>
  A goal is reported satisfied exactly when there is one and each of its constraints that is set
  was measured on the final snapshot and holds there; a value that could not be read never counts
  as respected.
\<close>

theorem goal_satisfied_iff:
  "spg_machine_goal_evaluate goal m used = (st, ev) \<Longrightarrow>
   ge_verdict ev = GOAL_SATISFIED \<longleftrightarrow>
     go_present goal \<and>
     (go_max_actions goal = GOAL_UNSET \<or> used \<le> go_max_actions goal) \<and>
     (go_max_temperature_mc goal = GOAL_UNSET_S \<or>
        (mc_temperature_mc m \<noteq> MACHINE_UNKNOWN_S \<and> mc_temperature_mc m \<le> go_max_temperature_mc goal)) \<and>
     (go_min_critical_health_bp goal = GOAL_UNSET \<or>
        (filter (\<lambda>p. ps_role p = ROLE_CRITICAL) (mc_processes m) \<noteq> [] \<and>
         (go_min_critical_health_bp goal \<le> 10000 \<and>
            list_all (\<lambda>p. ps_role p = ROLE_CRITICAL \<longrightarrow> \<not> unhealthy p) (mc_processes m) \<or>
          go_min_critical_health_bp goal = 0)))"
proof -
  assume e: "spg_machine_goal_evaluate goal m used = (st, ev)"
  let ?min = "go_min_critical_health_bp goal"
  let ?crit = "filter (\<lambda>p. ps_role p = ROLE_CRITICAL) (mc_processes m) \<noteq> []"
  let ?all = "list_all (\<lambda>p. ps_role p = ROLE_CRITICAL \<longrightarrow> \<not> unhealthy p) (mc_processes m)"
  have v: "ge_verdict ev = goal_verdict_of goal m used" using e by (auto simp: spg_machine_goal_evaluate_def)
  have "ge_verdict ev = GOAL_SATISFIED \<longleftrightarrow> go_present goal \<and>
     \<not> (go_max_actions goal \<noteq> GOAL_UNSET \<and> used > go_max_actions goal) \<and>
     \<not> (go_max_temperature_mc goal \<noteq> GOAL_UNSET_S \<and> mc_temperature_mc m = MACHINE_UNKNOWN_S) \<and>
     \<not> (go_max_temperature_mc goal \<noteq> GOAL_UNSET_S \<and> mc_temperature_mc m > go_max_temperature_mc goal) \<and>
     \<not> (?min \<noteq> GOAL_UNSET \<and> critical_health_bp m = MACHINE_UNKNOWN) \<and>
     \<not> (?min \<noteq> GOAL_UNSET \<and> critical_health_bp m < ?min)"
    unfolding v goal_verdict_of_def by (simp split: if_splits)
  moreover have "?crit \<longrightarrow> (\<not> critical_health_bp m < ?min \<longleftrightarrow> (?min \<le> 10000 \<and> ?all) \<or> ?min = 0)"
    using critical_health_cases(2) [of m] by (auto simp: not_less word_gt_0)
  ultimately show ?thesis
    unfolding critical_health_cases(1) not_less [symmetric] by satx
qed

definition cool_machine :: machine_state where
  "cool_machine = \<lparr>mc_timestamp_ns = 0, mc_cpu_utilisation_bp = 100, mc_load_1_cbp = 100,
     mc_memory = \<lparr>ms_total_bytes = 1000, ms_used_bytes = 100, ms_swap_used_bytes = 0\<rparr>, mc_temperature_mc = 50000,
     mc_cpu_freq_khz = 1000, mc_throttle = THROTTLE_NONE, mc_process_count = 1,
     mc_cpu = \<lparr>cs_idle = 0, cs_total = 0\<rparr>, mc_processes_truncated = False,
     mc_processes = [\<lparr>ps_pid = 7, ps_start_identity = 1, ps_name = ''web'', ps_state = CHR ''S'', ps_nice = 0,
       ps_cpu_time = 0, ps_cpu_bp = 50, ps_rss_bytes = 4096, ps_profile_index = 0, ps_profile_id = ''web'',
       ps_role = ROLE_CRITICAL, ps_may_pause = False, ps_may_stop = False\<rparr>]\<rparr>"

definition cool_goal :: machine_goal where
  "cool_goal = \<lparr>go_max_temperature_mc = 70000, go_min_critical_health_bp = 9500, go_max_actions = 3, go_present = True\<rparr>"

theorem goal_satisfied_iff_witness:
  "ge_verdict (snd (spg_machine_goal_evaluate cool_goal cool_machine 1)) = GOAL_SATISFIED"
  by (subst goal_satisfied_iff [OF prod.collapse [symmetric]])
     (simp add: cool_goal_def cool_machine_def GOAL_UNSET_def GOAL_UNSET_S_def MACHINE_UNKNOWN_S_def unhealthy_def)

text \<open>
  A critical service that is gone is not in the snapshot, so it does not count: with two critical
  services of which one has exited, the health is still reported as whole.
\<close>

lemma vanished_service_uncounted:
  assumes "filter (\<lambda>p. ps_role p = ROLE_CRITICAL) (mc_processes m) \<noteq> []" "ps_role p = ROLE_CRITICAL"
  shows "critical_health_bp (m\<lparr>mc_processes := p # mc_processes m\<rparr>) = 10000 \<Longrightarrow> critical_health_bp m = 10000"
  using assms by (auto simp: critical_health_cases split: if_splits)

section \<open>A loaded goal and its rendering\<close>

definition goal_in_range :: "machine_goal \<Rightarrow> bool" where
  "goal_in_range goal \<longleftrightarrow> I64_MIN \<le> go_max_temperature_mc goal \<and> go_max_temperature_mc goal \<le> I64_MAX \<and>
     (go_present goal \<longrightarrow> go_min_critical_health_bp goal \<le> 10000 \<or> go_min_critical_health_bp goal = GOAL_UNSET)"

lemma half_max: "unat (UINT64_MAX div 2 :: u64) = 9223372036854775807"
  by simp

lemma goal_temperature_range:
  assumes "goal_temperature input sp = Some t"
  shows "I64_MIN \<le> t \<and> t \<le> I64_MAX"
proof -
  obtain m where "m \<le> UINT64_MAX div 2" "t = int (unat m) \<or> t = - int (unat m)"
    using assms unfolding goal_temperature_def Let_def
    by (auto simp: not_less split: sum.splits if_splits)
  then obtain k where "k \<le> 9223372036854775807" "t = int k \<or> t = - int k"
    by (metis word_le_nat_alt half_max)
  then show ?thesis by (auto simp: I64_MIN_def I64_MAX_def)
qed

lemma goal_load_range: "spg_machine_goal_load input tc nc = (st, goal) \<Longrightarrow> goal_in_range goal"
proof -
  have n: "goal_in_range no_goal"
    by (simp add: goal_in_range_def no_goal_def GOAL_UNSET_S_def I64_MIN_def I64_MAX_def)
  have a: "goal_in_range g' \<and> go_present g' = go_present g \<and> go_min_critical_health_bp g' = go_min_critical_health_bp g"
    if "load_temperature input nodes g = (st, g')" "goal_in_range g" for nodes g g' st
    using that goal_temperature_range by (auto simp: load_temperature_def Let_def goal_in_range_def split: if_splits option.splits)
  have b: "goal_in_range g' \<and> go_present g' = go_present g \<and>
      (st = SPG_OK \<longrightarrow> go_min_critical_health_bp g' \<le> 10000 \<or> go_min_critical_health_bp g' = go_min_critical_health_bp g)"
    if "load_health input nodes g = (st, g')" "goal_in_range g" "\<not> go_present g" for nodes g g' st
    using that by (auto simp: load_health_def Let_def goal_in_range_def split: if_splits sum.splits)
  have c: "goal_in_range g' \<and> go_present g' = go_present g \<and> go_min_critical_health_bp g' = go_min_critical_health_bp g"
    if "load_actions input nodes g = (st, g')" "goal_in_range g" for nodes g g' st
    using that by (auto simp: load_actions_def Let_def goal_in_range_def split: if_splits sum.splits)
  have p: "\<not> go_present no_goal" "go_min_critical_health_bp no_goal = GOAL_UNSET" by (simp_all add: no_goal_def)
  have pr: "goal_in_range (g\<lparr>go_present := True\<rparr>)"
    if "goal_in_range g" "go_min_critical_health_bp g \<le> 10000 \<or> go_min_critical_health_bp g = GOAL_UNSET" for g
    using that by (simp add: goal_in_range_def)
  assume l: "spg_machine_goal_load input tc nc = (st, goal)"
  then show ?thesis
    unfolding spg_machine_goal_load_def
    by (auto split: prod.splits if_splits dest!: a b c intro!: pr simp: n p)
qed

text \<open>
  A goal that was loaded fits the buffer the prompt reserves for it, whatever its file said, so
  the model always sees the whole goal.
\<close>

theorem loaded_goal_renders:
  assumes "spg_machine_goal_load input tc nc = (SPG_OK, goal)"
  shows "spg_machine_goal_render goal 512 = (SPG_OK, machine_goal_text goal, length (machine_goal_text goal) + 1)"
proof -
  have "I64_MIN \<le> go_max_temperature_mc goal \<and> go_max_temperature_mc goal \<le> I64_MAX"
    using goal_load_range [OF assms] by (simp add: goal_in_range_def)
  then have "length (i64_to_dec (go_max_temperature_mc goal)) \<le> 20" by (simp add: i64_to_dec_length)
  moreover have "length (i64_to_dec (sint v)) \<le> 20" for v :: u64
    using sint_range_size [of v] by (intro i64_to_dec_length) (simp_all add: word_size I64_MIN_def I64_MAX_def)
  then have "length (i64_to_dec (sint (go_min_critical_health_bp goal))) \<le> 20"
    "length (i64_to_dec (sint (go_max_actions goal))) \<le> 20" by blast+
  ultimately have "length (machine_goal_text goal) < 512" by (simp add: machine_goal_text_def)
  then show ?thesis by (simp add: spg_machine_goal_render_def render_out_def)
qed

lemma three_actions_loaded:
  "spg_machine_goal_load ''(machine-goal (max-actions 3))'' 64 64 = (SPG_OK, no_goal\<lparr>go_max_actions := 3, go_present := True\<rparr>)"
  by code_simp

theorem loaded_goal_renders_witness:
  "fst (spg_machine_goal_render (no_goal\<lparr>go_max_actions := 3, go_present := True\<rparr>) 512) = SPG_OK"
  using loaded_goal_renders [OF three_actions_loaded] by simp

text \<open>What the model reads is not always what the harness checks: a bound of \<open>2 ^ 63\<close> is shown negative.\<close>

lemma large_bound_loaded:
  "spg_machine_goal_load ''(machine-goal (max-actions 9223372036854775808))'' 64 64 =
     (SPG_OK, no_goal\<lparr>go_max_actions := 9223372036854775808, go_present := True\<rparr>)"
  by code_simp

lemma large_bound_shown_negative:
  "machine_goal_text (no_goal\<lparr>go_max_actions := 9223372036854775808, go_present := True\<rparr>) =
     ''(machine-goal (max-actions -9223372036854775808))''"
  apply (simp add: machine_goal_text_def no_goal_def GOAL_UNSET_def GOAL_UNSET_S_def i64_to_dec_def nat_dec_loop.simps digit_char_def)
  apply code_simp
  done

end
