(* ===== verification/Context.thy ===== *)
theory Context
  imports Ranked MemoryFacts RunConfig Policy MachineGoal DeviceIO JournalRecord
begin

text \<open>
  The prompt context of \<open>src/context/context.c\<close>: the view of the run that is selected from the
  graph, the facts and the journal by rank, and its rendering into a buffer of a given size, with
  the length it would need and the boundary between the part that is constant over a run and the
  part that changes. A pointer that may be null is an option; an array pointer is never null. The
  single-precision arithmetic of the ranks rounds to nearest even and is not fused.
\<close>

section \<open>The view\<close>

record budget_item =
  bi_configured :: u64
  bi_consumed :: u64
  bi_remaining :: u64

record budget_view =
  bv_inference_steps :: budget_item
  bv_tokens :: budget_item
  bv_shell_actions :: budget_item
  bv_sim_actions :: budget_item
  bv_memory_actions :: budget_item
  bv_wall_ms :: budget_item

record graph_ref =
  gf_node :: handle
  gf_rank :: u32

record memory_ref =
  mr_fact :: handle
  mr_rank :: u32

record journal_ref =
  jf_sequence :: u64
  jf_parent_sequence :: u64
  jf_payload_bytes :: u64
  jf_event_kind :: u32
  jf_status :: u32
  jf_source_index :: nat

record context_limits =
  cl_graph_nodes :: nat
  cl_memory_facts :: nat
  cl_journal_events :: nat

record context_view =
  cv_budgets :: budget_view
  cv_graph_capacity :: nat
  cv_graph_refs :: "graph_ref list"
  cv_graph_truncated :: bool
  cv_memory_capacity :: nat
  cv_memory_refs :: "memory_ref list"
  cv_memory_truncated :: bool
  cv_journal_capacity :: nat
  cv_journal_refs :: "journal_ref list"
  cv_journal_truncated :: bool

record context_sources =
  cs_run :: "run_config option"
  cs_usage :: "policy_usage option"
  cs_graph :: "graph option"
  cs_memory :: "fact_memory option"
  cs_journal_headers :: "record_header list"
  cs_graph_text :: "string option"
  cs_memory_text :: "string option"
  cs_memory_index :: "string option"
  cs_observation :: "string option"
  cs_exemplars :: "string option"
  cs_goal :: "string option"
  cs_machine_history :: "machine_history option"
  cs_machine :: "machine_state option"
  cs_machine_goal :: "machine_goal option"
  cs_machine_ablate :: u32
  cs_device_state :: "device_reading list option"
  cs_directive :: "string option"
  cs_user_profile :: "string option"
  cs_tools :: "string option"
  cs_host_status :: "string option"

definition budget_item_of :: "u64 \<Rightarrow> u64 \<Rightarrow> budget_item" where
  "budget_item_of configured consumed = \<lparr>bi_configured = configured, bi_consumed = consumed,
     bi_remaining = (if consumed \<ge> configured then 0 else configured - consumed)\<rparr>"

definition build_budgets :: "run_config option \<Rightarrow> policy_usage option \<Rightarrow> budget_view" where
  "build_budgets run usage =
     (let configured = (case run of None \<Rightarrow> zero_budgets | Some r \<Rightarrow> rc_budgets r);
          consumed = (case usage of None \<Rightarrow> zero_budgets | Some u \<Rightarrow> us_consumed u)
      in \<lparr>bv_inference_steps = budget_item_of (bd_inference_steps configured) (bd_inference_steps consumed),
          bv_tokens = budget_item_of (bd_tokens configured) (bd_tokens consumed),
          bv_shell_actions = budget_item_of (bd_shell_actions configured) (bd_shell_actions consumed),
          bv_sim_actions = budget_item_of (bd_sim_actions configured) (bd_sim_actions consumed),
          bv_memory_actions = budget_item_of (bd_memory_actions configured) (bd_memory_actions consumed),
          bv_wall_ms = budget_item_of (bd_wall_ms configured) (bd_wall_ms consumed)\<rparr>)"

section \<open>Ranks\<close>

text \<open>A positive real rounded to single precision: 24 significant bits, ties to even.\<close>

fun f32_ulp :: "unit list \<Rightarrow> real \<Rightarrow> real \<Rightarrow> real" where
  "f32_ulp [] u x = u"
| "f32_ulp (_ # fuel) u x = (if x < 16777216 * u then u else f32_ulp fuel (2 * u) x)"

definition round_half_even :: "real \<Rightarrow> int" where
  "round_half_even y =
     (let f = \<lfloor>y\<rfloor>; d = y - of_int f
      in if d < 1 / 2 then f else if d > 1 / 2 then f + 1 else if even f then f else f + 1)"

definition f32_round :: "real \<Rightarrow> real" where
  "f32_round x = (let u = f32_ulp (replicate 200 ()) (1 / 2 ^ 149) x in u * of_int (round_half_even (x / u)))"

text \<open>The graph and the memory admit only finite scores.\<close>

fun bp_from_score :: "float32 \<Rightarrow> u32" where
  "bp_from_score (Finite v) =
     (if v \<le> 0 then 0 else if v \<ge> 1 then 10000
      else of_int \<lfloor>f32_round (f32_round (v * 10000) + 1 / 2)\<rfloor>)"
| "bp_from_score NonFinite = 0"

fun node_kind_weight :: "graph_node_kind \<Rightarrow> u32" where
  "node_kind_weight NODE_GOAL = 9000"
| "node_kind_weight NODE_PLAN = 8500"
| "node_kind_weight NODE_ACTION = 8000"
| "node_kind_weight NODE_POLICY_DECISION = 7600"
| "node_kind_weight NODE_RESULT = 7200"
| "node_kind_weight NODE_MEMORY = 6900"
| "node_kind_weight NODE_HYPOTHESIS = 6500"
| "node_kind_weight NODE_OBSERVATION = 6000"
| "node_kind_weight NODE_EVAL_MARK = 5400"

unbundle bit_operations_syntax

definition graph_rank :: "graph_node \<Rightarrow> u32" where
  "graph_rank node =
     (let r = node_kind_weight (gn_kind node);
          r = (if gn_flags node AND NODE_OPEN \<noteq> 0 then r + 5000 else r);
          r = (if gn_flags node AND NODE_BLOCKED \<noteq> 0 then r + 1200 else r);
          r = (if gn_flags node AND NODE_CLOSED \<noteq> 0 \<and> r \<ge> 2500 then r - 2500 else r);
          sc = gn_scores node;
          r = r + bp_from_score (sc_confidence sc) div 2;
          r = r + bp_from_score (sc_utility sc);
          r = r + bp_from_score (sc_novelty sc) div 2;
          risk = bp_from_score (sc_risk sc);
          r = r + (if risk \<ge> 10000 then 0 else (10000 - risk) div 3);
          cost = bp_from_score (sc_cost_estimate sc)
      in r + (if cost \<ge> 10000 then 0 else (10000 - cost) div 4))"

fun fact_kind_weight :: "fact_kind \<Rightarrow> u32" where
  "fact_kind_weight FACT_CONSTRAINT = 9000"
| "fact_kind_weight FACT_ARTIFACT = 8200"
| "fact_kind_weight FACT_RELATION = 7800"
| "fact_kind_weight FACT_ENTITY = 7200"
| "fact_kind_weight FACT_OBSERVATION = 6800"

definition memory_rank :: "memory_fact \<Rightarrow> u32" where
  "memory_rank f =
     (let r = fact_kind_weight (mf_kind f);
          r = (if mf_status f = FACT_ACTIVE then r + 6000
               else if mf_status f = FACT_SUPERSEDED then r + 1200 else r);
          r = r + bp_from_score (mf_confidence f);
          r = (if mf_has_graph_node f then r + 1000 else r)
      in if mf_source_event_id f > 1000000 then r + 1000
         else r + of_nat (unat (mf_source_event_id f div 1000)))"

definition graph_ref_before :: "graph_ref \<Rightarrow> graph_ref \<Rightarrow> bool" where
  "graph_ref_before a b =
     (if gf_rank a \<noteq> gf_rank b then gf_rank a > gf_rank b else hd_index (gf_node a) < hd_index (gf_node b))"

definition memory_ref_before :: "memory_ref \<Rightarrow> memory_ref \<Rightarrow> bool" where
  "memory_ref_before a b =
     (if mr_rank a \<noteq> mr_rank b then mr_rank a > mr_rank b else hd_index (mr_fact a) < hd_index (mr_fact b))"

definition journal_ref_before :: "journal_ref \<Rightarrow> journal_ref \<Rightarrow> bool" where
  "journal_ref_before a b =
     (if jf_sequence a \<noteq> jf_sequence b then jf_sequence a > jf_sequence b
      else jf_source_index a < jf_source_index b)"

section \<open>Building the view\<close>

definition empty_view :: "nat \<Rightarrow> nat \<Rightarrow> nat \<Rightarrow> context_view" where
  "empty_view graph_cap memory_cap journal_cap =
     \<lparr>cv_budgets = build_budgets None None,
      cv_graph_capacity = graph_cap, cv_graph_refs = [], cv_graph_truncated = False,
      cv_memory_capacity = memory_cap, cv_memory_refs = [], cv_memory_truncated = False,
      cv_journal_capacity = journal_cap, cv_journal_refs = [], cv_journal_truncated = False\<rparr>"

definition graph_candidates :: "graph option \<Rightarrow> graph_ref list" where
  "graph_candidates gr = (case gr of None \<Rightarrow> []
     | Some graph \<Rightarrow> map (\<lambda>n. \<lparr>gf_node = gn_id n, gf_rank = graph_rank n\<rparr>) (filter gn_live (gr_nodes graph)))"

definition memory_candidates :: "fact_memory option \<Rightarrow> memory_ref list" where
  "memory_candidates mem = (case mem of None \<Rightarrow> []
     | Some fs \<Rightarrow> map (\<lambda>f. \<lparr>mr_fact = mf_id f, mr_rank = memory_rank f\<rparr>)
                   (filter (\<lambda>f. mf_live f \<and> mf_status f \<noteq> FACT_REJECTED) fs))"

definition journal_candidates :: "record_header list \<Rightarrow> journal_ref list" where
  "journal_candidates hs = map (\<lambda>(i, h). \<lparr>jf_sequence = jh_sequence h, jf_parent_sequence = jh_parent_sequence h,
     jf_payload_bytes = jh_payload_bytes h, jf_event_kind = jh_event_kind h, jf_status = jh_status h,
     jf_source_index = i\<rparr>) (enumerate 0 hs)"

definition spg_context_build :: "context_sources \<Rightarrow> context_limits \<Rightarrow> context_view \<Rightarrow> spg_status \<times> context_view" where
  "spg_context_build src limits view =
     (let (gs, gt) = fold (bounded_insert graph_ref_before (min (cl_graph_nodes limits) (cv_graph_capacity view)))
                       (graph_candidates (cs_graph src)) ([], False);
          (ms, mt) = fold (bounded_insert memory_ref_before (min (cl_memory_facts limits) (cv_memory_capacity view)))
                       (memory_candidates (cs_memory src)) ([], False);
          (js, jt) = fold (bounded_insert journal_ref_before (min (cl_journal_events limits) (cv_journal_capacity view)))
                       (journal_candidates (cs_journal_headers src)) ([], False)
      in (SPG_OK, view\<lparr>cv_budgets := build_budgets (cs_run src) (cs_usage src),
            cv_graph_refs := gs, cv_graph_truncated := gt, cv_memory_refs := ms, cv_memory_truncated := mt,
            cv_journal_refs := rev js, cv_journal_truncated := jt\<rparr>))"

section \<open>The bounded buffer\<close>

text \<open>What was written, and the length it would take; the last byte is kept for the terminator.\<close>

record render_state =
  rs_capacity :: nat
  rs_dst :: string
  rs_required :: nat

definition append_char :: "char \<Rightarrow> render_state \<Rightarrow> render_state" where
  "append_char c st =
     st\<lparr>rs_dst := (if length (rs_dst st) + 1 < rs_capacity st then rs_dst st @ [c] else rs_dst st),
        rs_required := rs_required st + 1\<rparr>"

definition append_cstr :: "string \<Rightarrow> render_state \<Rightarrow> render_state" where
  "append_cstr s st =
     st\<lparr>rs_dst := (if length (rs_dst st) + 1 < rs_capacity st
           then rs_dst st @ take (rs_capacity st - 1 - length (rs_dst st)) s else rs_dst st),
        rs_required := rs_required st + length s\<rparr>"

definition append_u64 :: "u64 \<Rightarrow> render_state \<Rightarrow> render_state" where
  "append_u64 v = append_cstr (u64_to_dec v)"

definition append_u32 :: "u32 \<Rightarrow> render_state \<Rightarrow> render_state" where
  "append_u32 v = append_u64 (ucast v)"

definition append_escaped :: "char \<Rightarrow> render_state \<Rightarrow> render_state" where
  "append_escaped c st =
     (if c = ch_quote \<or> c = ch_bslash then append_char c (append_char ch_bslash st)
      else if c = ch_nl then append_cstr [ch_bslash, CHR ''n''] st
      else if c = ch_cr then append_cstr [ch_bslash, CHR ''r''] st
      else if c = ch_tab then append_cstr [ch_bslash, CHR ''t''] st
      else append_char c st)"

definition append_quoted_cstr :: "string \<Rightarrow> render_state \<Rightarrow> render_state" where
  "append_quoted_cstr s st = append_char ch_quote (fold append_escaped (c_string s) (append_char ch_quote st))"

definition append_quoted_span :: "string option \<Rightarrow> text_span \<Rightarrow> render_state \<Rightarrow> render_state" where
  "append_quoted_span txt sp st =
     (let st = append_char ch_quote st;
          st = (case txt of
                  Some t \<Rightarrow> if spg_sexpr_span_valid (length t) sp then fold append_escaped (span_text t sp) st
                            else append_u64 (of_nat (sp_length sp)) (append_cstr '':''
                                   (append_u64 (of_nat (sp_offset sp)) (append_cstr ''@'' st)))
                | None \<Rightarrow> append_u64 (of_nat (sp_length sp)) (append_cstr '':''
                                   (append_u64 (of_nat (sp_offset sp)) (append_cstr ''@'' st))))
      in append_char ch_quote st)"

definition append_all :: "string list \<Rightarrow> render_state \<Rightarrow> render_state" where
  "append_all = fold append_cstr"

text \<open>An optional block that is shown when the text is there and not empty.\<close>

definition append_present :: "string option \<Rightarrow> (string \<Rightarrow> render_state \<Rightarrow> render_state) \<Rightarrow> render_state \<Rightarrow> render_state" where
  "append_present s f st = (case s of None \<Rightarrow> st | Some t \<Rightarrow> if c_string t = [] then st else f (c_string t) st)"

section \<open>The blocks\<close>

fun graph_kind_name :: "graph_node_kind \<Rightarrow> string" where
  "graph_kind_name NODE_OBSERVATION = ''observation''"
| "graph_kind_name NODE_HYPOTHESIS = ''hypothesis''"
| "graph_kind_name NODE_GOAL = ''goal''"
| "graph_kind_name NODE_PLAN = ''plan''"
| "graph_kind_name NODE_ACTION = ''action''"
| "graph_kind_name NODE_RESULT = ''result''"
| "graph_kind_name NODE_MEMORY = ''memory''"
| "graph_kind_name NODE_POLICY_DECISION = ''policy_decision''"
| "graph_kind_name NODE_EVAL_MARK = ''eval_mark''"

fun fact_kind_name :: "fact_kind \<Rightarrow> string" where
  "fact_kind_name FACT_ENTITY = ''entity''"
| "fact_kind_name FACT_RELATION = ''relation''"
| "fact_kind_name FACT_OBSERVATION = ''observation''"
| "fact_kind_name FACT_CONSTRAINT = ''constraint''"
| "fact_kind_name FACT_ARTIFACT = ''artifact''"

fun fact_status_name :: "fact_status \<Rightarrow> string" where
  "fact_status_name FACT_ACTIVE = ''active''"
| "fact_status_name FACT_SUPERSEDED = ''superseded''"
| "fact_status_name FACT_REJECTED = ''rejected''"

definition append_budget_line :: "string \<Rightarrow> budget_item \<Rightarrow> render_state \<Rightarrow> render_state" where
  "append_budget_line name item = append_all
     [''  ('', name, '' (configured '', u64_to_dec (bi_configured item), '') (consumed '',
      u64_to_dec (bi_consumed item), '') (remaining '', u64_to_dec (bi_remaining item), ''))'' @ [ch_nl]]"

definition in_quotes :: "string \<Rightarrow> string" where "in_quotes s = [ch_quote] @ s @ [ch_quote]"
definition esc_quotes :: "string \<Rightarrow> string" where "esc_quotes s = [ch_bslash, ch_quote] @ s @ [ch_bslash, ch_quote]"

definition contract_lines :: "string list" where
  "contract_lines =
     [''(contract'',
      ''  (role '' @ in_quotes ''Return exactly one recommendation form.'' @ '')'',
      ''  (schema '' @ in_quotes (''(recommend (kind '' @
        ''<simulator|local_shell|ssh_auth_probe|memory_save|memory_delete|memory_read>) (capability '' @
        esc_quotes ''<policy capability>'' @ '') (cost <positive integer>) (uses_network <true|false>) '' @
        ''(confidence_bp <0..10000>) (reason '' @ esc_quotes ''<short reason>'' @ '') [(command '' @
        esc_quotes ''...'' @ '')|(target '' @ esc_quotes ''...'' @ '')|(slug '' @ esc_quotes ''...'' @
        '') (description '' @ esc_quotes ''...'' @ '') (body '' @ esc_quotes ''...'' @ '')])'') @ '')'',
      ''  (rules'',
      ''    (simulator '' @ in_quotes ''uses_network must be false and no command or target'' @ '')'',
      ''    (local_shell '' @ in_quotes ''uses_network must be false and command is only a recommendation'' @ '')'',
      ''    (ssh_auth_probe '' @ in_quotes ''uses_network must be true and target is required; no attack is executed here'' @ '')'',
      ''    (memory_save '' @ in_quotes ''uses_network false; provide slug, description and body to remember something durably'' @ '')'',
      ''    (memory_delete '' @ in_quotes ''uses_network false; provide slug to forget a memory'' @ '')'',
      ''    (memory_read '' @ in_quotes ''uses_network false; provide slug to recall a memory; its content arrives next turn as observation'' @ ''))'',
      ''  (memory '' @ in_quotes (''(memory_index ...) lists recallable memories by slug; (observation ...) holds the last '' @
        ''tool result -- recalled memory or command output'') @ '')'',
      '')'']"

definition render_contract :: "render_state \<Rightarrow> render_state" where
  "render_contract = append_all (map (\<lambda>l. l @ [ch_nl]) contract_lines)"

definition render_budgets :: "budget_view \<Rightarrow> render_state \<Rightarrow> render_state" where
  "render_budgets b st =
     append_cstr ('')'' @ [ch_nl])
     (append_budget_line ''wall_ms'' (bv_wall_ms b)
     (append_budget_line ''memory_actions'' (bv_memory_actions b)
     (append_budget_line ''sim_actions'' (bv_sim_actions b)
     (append_budget_line ''shell_actions'' (bv_shell_actions b)
     (append_budget_line ''tokens'' (bv_tokens b)
     (append_budget_line ''inference_steps'' (bv_inference_steps b)
     (append_cstr (''(budgets'' @ [ch_nl]) st)))))))"

definition block_head :: "string \<Rightarrow> bool \<Rightarrow> render_state \<Rightarrow> render_state" where
  "block_head name truncated st =
     append_char ch_nl ((if truncated then append_cstr '' (truncated true)'' else id) (append_cstr name st))"

definition render_graph_ref :: "context_sources \<Rightarrow> graph \<Rightarrow> graph_ref \<Rightarrow> render_state \<Rightarrow> render_state" where
  "render_graph_ref src gr r st =
     (if \<not> spg_graph_node_valid gr (gf_node r) then st
      else (let node = gr_nodes gr ! hd_index (gf_node r)
            in append_cstr (''))'' @ [ch_nl]) (append_quoted_span (cs_graph_text src) (gn_payload node)
                 (append_all [''  (node (index '', u64_to_dec (of_nat (hd_index (gn_id node))), '') (kind '',
                    graph_kind_name (gn_kind node), '') (rank '', u64_to_dec (ucast (gf_rank r)), '') (flags '',
                    u64_to_dec (ucast (gn_flags node)), '') (actor '', u64_to_dec (ucast (gn_actor_id node)),
                    '') (text ''] st))))"

definition render_graph :: "context_sources \<Rightarrow> context_view \<Rightarrow> render_state \<Rightarrow> render_state" where
  "render_graph src view st =
     append_cstr ('')'' @ [ch_nl])
       ((case cs_graph src of None \<Rightarrow> id | Some gr \<Rightarrow> fold (render_graph_ref src gr) (cv_graph_refs view))
         (block_head ''(graph'' (cv_graph_truncated view) st))"

definition render_memory_ref :: "context_sources \<Rightarrow> fact_memory \<Rightarrow> memory_ref \<Rightarrow> render_state \<Rightarrow> render_state" where
  "render_memory_ref src mem r st =
     (if \<not> spg_memory_fact_valid mem (mr_fact r) then st
      else (let f = mem ! hd_index (mr_fact r); quoted = append_quoted_span (cs_memory_text src)
            in append_cstr (''))'' @ [ch_nl]) (quoted (mf_object f) (append_cstr '') (object ''
                 (quoted (mf_predicate f) (append_cstr '') (predicate '' (quoted (mf_subject f)
                 (append_all [''  (fact (index '', u64_to_dec (of_nat (hd_index (mf_id f))), '') (kind '',
                    fact_kind_name (mf_kind f), '') (status '', fact_status_name (mf_status f), '') (rank '',
                    u64_to_dec (ucast (mr_rank r)), '') (source_event '', u64_to_dec (mf_source_event_id f),
                    '') (subject ''] st))))))))"

definition render_memory :: "context_sources \<Rightarrow> context_view \<Rightarrow> render_state \<Rightarrow> render_state" where
  "render_memory src view st =
     append_cstr ('')'' @ [ch_nl])
       ((case cs_memory src of None \<Rightarrow> id | Some mem \<Rightarrow> fold (render_memory_ref src mem) (cv_memory_refs view))
         (block_head ''(memory'' (cv_memory_truncated view) st))"

definition render_journal_ref :: "journal_ref \<Rightarrow> render_state \<Rightarrow> render_state" where
  "render_journal_ref r = append_all
     [''  (event (sequence '', u64_to_dec (jf_sequence r), '') (parent '', u64_to_dec (jf_parent_sequence r),
      '') (kind '', u64_to_dec (ucast (jf_event_kind r)), '') (status '', u64_to_dec (ucast (jf_status r)),
      '') (payload_bytes '', u64_to_dec (jf_payload_bytes r), ''))'' @ [ch_nl]]"

definition render_journal :: "context_view \<Rightarrow> render_state \<Rightarrow> render_state" where
  "render_journal view st =
     append_cstr ('')'' @ [ch_nl]) (fold render_journal_ref (cv_journal_refs view)
       (block_head ''(recent_events'' (cv_journal_truncated view) st))"

definition render_memory_index :: "context_sources \<Rightarrow> render_state \<Rightarrow> render_state" where
  "render_memory_index src = append_present (cs_memory_index src)
     (\<lambda>t. append_all [''(memory_index'' @ [ch_nl], t, '')'' @ [ch_nl]])"

definition render_observation :: "context_sources \<Rightarrow> render_state \<Rightarrow> render_state" where
  "render_observation src = append_present (cs_observation src)
     (\<lambda>t st. append_cstr ('')'' @ [ch_nl]) (append_quoted_cstr t (append_cstr ''(observation '' st)))"

definition MACHINE_RENDER_CAP :: nat where "MACHINE_RENDER_CAP = 8192"
definition MACHINE_HISTORY_RENDER_CAP :: nat where "MACHINE_HISTORY_RENDER_CAP = 2048"

definition render_goal_block :: "context_sources \<Rightarrow> render_state \<Rightarrow> render_state" where
  "render_goal_block src st =
     (case cs_machine_goal src of
        None \<Rightarrow> st
      | Some goal \<Rightarrow>
          if \<not> go_present goal then st
          else (case spg_machine_goal_render goal 512 of
                  (status, block, _) \<Rightarrow> if status = SPG_OK then append_all [block, [ch_nl]] st else st))"

definition render_history_block :: "context_sources \<Rightarrow> render_state \<Rightarrow> render_state" where
  "render_history_block src st =
     (case cs_machine_history src of
        None \<Rightarrow> st
      | Some history \<Rightarrow>
          (case spg_machine_history_render (Some history) MACHINE_HISTORY_RENDER_CAP of
             (status, trend, required) \<Rightarrow>
               if status = SPG_OK \<and> required > 0 then append_all [trend, [ch_nl]] st else st))"

definition render_machine_block :: "context_sources \<Rightarrow> render_state \<Rightarrow> render_state" where
  "render_machine_block src st =
     (case cs_machine src of
        None \<Rightarrow> st
      | Some m \<Rightarrow>
          (case spg_machine_state_render_masked m (cs_machine_ablate src) MACHINE_RENDER_CAP of
             (status, block, _) \<Rightarrow> if status = SPG_OK then append_all [block, [ch_nl]] st else st))"

definition render_device_block :: "context_sources \<Rightarrow> render_state \<Rightarrow> render_state" where
  "render_device_block src st =
     (case cs_device_state src of
        None \<Rightarrow> st
      | Some readings \<Rightarrow>
          if readings = [] then st
          else (case spg_device_state_render readings DEVICE_RENDER_CAP [] of
                  (status, plant, _) \<Rightarrow> if status = SPG_OK then append_all [c_string plant, [ch_nl]] st else st))"

definition render_machine :: "context_sources \<Rightarrow> render_state \<Rightarrow> render_state" where
  "render_machine src st =
     render_device_block src (render_machine_block src (render_history_block src (render_goal_block src st)))"

section \<open>The whole prompt\<close>

definition render_prefix :: "context_sources \<Rightarrow> render_state \<Rightarrow> render_state" where
  "render_prefix src st =
     (let st = render_contract st;
          st = append_present (cs_directive src)
                 (\<lambda>t st. append_cstr ('')'' @ [ch_nl]) (append_quoted_cstr t (append_cstr ''(directive '' st))) st;
          st = append_present (cs_user_profile src) (\<lambda>t st. append_char ch_nl (append_cstr t st)) st;
          st = append_present (cs_goal src)
                 (\<lambda>t st. append_cstr ('')'' @ [ch_nl]) (append_quoted_cstr t (append_cstr ''(goal '' st))) st;
          st = append_present (cs_tools src) (\<lambda>t. append_all [''(tools'' @ [ch_nl], t, '')'' @ [ch_nl]]) st
      in append_present (cs_exemplars src) (\<lambda>t. append_all [''(examples'' @ [ch_nl], t, '')'' @ [ch_nl]]) st)"

definition render_suffix :: "context_sources \<Rightarrow> context_view \<Rightarrow> render_state \<Rightarrow> render_state" where
  "render_suffix src view st =
     (let st = render_budgets (cv_budgets view) st;
          st = append_present (cs_host_status src) (\<lambda>t st. append_char ch_nl (append_cstr t st)) st
      in render_journal view (render_observation src (render_memory_index src (render_memory src view
           (render_graph src view (render_machine src st))))))"

text \<open>The status, the text in the buffer, the length required and the length of the constant prefix.\<close>

definition spg_context_render ::
  "context_sources \<Rightarrow> context_view \<Rightarrow> nat \<Rightarrow> (spg_status \<times> string \<times> nat \<times> nat) option" where
  "spg_context_render src view dst_capacity =
     (if dst_capacity = 0 \<or> length (cv_graph_refs view) > cv_graph_capacity view \<or>
         length (cv_memory_refs view) > cv_memory_capacity view \<or>
         length (cv_journal_refs view) > cv_journal_capacity view
      then None
      else (let st1 = render_prefix src \<lparr>rs_capacity = dst_capacity, rs_dst = [], rs_required = 0\<rparr>;
                st2 = render_suffix src view st1
            in Some (if rs_required st2 + 1 \<le> dst_capacity then SPG_OK else SPG_E_LIMIT,
                     rs_dst st2, rs_required st2 + 1, length (rs_dst st1))))"

end
