(* ===== verification/ContextProps.thy ===== *)
theory ContextProps
  imports Context SexprLex
begin

text \<open>
  The prompt context: what is selected is the head of the ranking, the buffer holds a prefix of one
  text whatever its size, the constant part is a prefix that no changing source can touch, and
  quoted text is one string token whatever it contains.
\<close>

section \<open>What is selected\<close>

definition graph_ref_key :: "graph_ref \<Rightarrow> int \<times> nat" where
  "graph_ref_key r = (- uint (gf_rank r), hd_index (gf_node r))"

definition memory_ref_key :: "memory_ref \<Rightarrow> int \<times> nat" where
  "memory_ref_key r = (- uint (mr_rank r), hd_index (mr_fact r))"

definition journal_ref_key :: "journal_ref \<Rightarrow> int \<times> nat" where
  "journal_ref_key r = (- uint (jf_sequence r), jf_source_index r)"

interpretation graph_refs: ranked graph_ref_before graph_ref_key
  by unfold_locales (auto simp: graph_ref_before_def graph_ref_key_def word_less_def word_uint_eq_iff)

interpretation memory_refs: ranked memory_ref_before memory_ref_key
  by unfold_locales (auto simp: memory_ref_before_def memory_ref_key_def word_less_def word_uint_eq_iff)

interpretation journal_refs: ranked journal_ref_before journal_ref_key
  by unfold_locales (auto simp: journal_ref_before_def journal_ref_key_def word_less_def word_uint_eq_iff)

lemma context_build_eq:
  "spg_context_build src limits view =
     (let n = min (cl_graph_nodes limits) (cv_graph_capacity view); gs = graph_candidates (cs_graph src);
          k = min (cl_memory_facts limits) (cv_memory_capacity view); ms = memory_candidates (cs_memory src);
          j = min (cl_journal_events limits) (cv_journal_capacity view); js = journal_candidates (cs_journal_headers src)
      in (SPG_OK, view\<lparr>cv_budgets := build_budgets (cs_run src) (cs_usage src),
            cv_graph_refs := take n (sort_key graph_ref_key gs), cv_graph_truncated := n < length gs,
            cv_memory_refs := take k (sort_key memory_ref_key ms), cv_memory_truncated := k < length ms,
            cv_journal_refs := rev (take j (sort_key journal_ref_key js)), cv_journal_truncated := j < length js\<rparr>))"
  by (simp add: spg_context_build_def graph_refs.bounded_selection memory_refs.bounded_selection
      journal_refs.bounded_selection Let_def)

text \<open>The six budgets, of a view and of a configuration or a usage, in the same order.\<close>

definition budget_items :: "budget_view \<Rightarrow> budget_item list" where
  "budget_items v = [bv_inference_steps v, bv_tokens v, bv_shell_actions v, bv_sim_actions v, bv_memory_actions v, bv_wall_ms v]"

definition budget_columns :: "run_budgets \<Rightarrow> u64 list" where
  "budget_columns b = [bd_inference_steps b, bd_tokens b, bd_shell_actions b, bd_sim_actions b, bd_memory_actions b, bd_wall_ms b]"

definition configured_budgets :: "context_sources \<Rightarrow> run_budgets" where
  "configured_budgets src = (case cs_run src of None \<Rightarrow> zero_budgets | Some r \<Rightarrow> rc_budgets r)"

definition consumed_budgets :: "context_sources \<Rightarrow> run_budgets" where
  "consumed_budgets src = (case cs_usage src of None \<Rightarrow> zero_budgets | Some u \<Rightarrow> us_consumed u)"

lemma budget_item_exact: "unat (bi_remaining (budget_item_of c u)) = unat c - unat u"
  by (simp add: budget_item_of_def word_le_nat_alt unat_sub)

lemma build_budgets_exact:
  "map bi_configured (budget_items (build_budgets (cs_run src) (cs_usage src))) = budget_columns (configured_budgets src) \<and>
   map bi_consumed (budget_items (build_budgets (cs_run src) (cs_usage src))) = budget_columns (consumed_budgets src) \<and>
   map (unat \<circ> bi_remaining) (budget_items (build_budgets (cs_run src) (cs_usage src))) =
     map2 (\<lambda>c u. unat c - unat u) (budget_columns (configured_budgets src)) (budget_columns (consumed_budgets src))"
  by (simp add: build_budgets_def Let_def budget_items_def budget_columns_def configured_budgets_def
      consumed_budgets_def budget_item_exact) (simp add: budget_item_of_def)

text \<open>
  C36: The view shows the best-ranked live nodes and facts (equal ranks by the smaller index) and the
  journal events of the highest sequences (equal ones by the smaller place in the source), the last of
  them last, as many as the limits and the arrays allow; each kind is marked truncated exactly when
  something was left out; and each of the six budgets shows what is configured, what is consumed, and
  as remaining what is configured and not consumed, never below zero.
\<close>

theorem context_selects:
  "spg_context_build src limits view = (st, view') \<Longrightarrow>
   st = SPG_OK \<and>
   cv_graph_refs view' = take (min (cl_graph_nodes limits) (cv_graph_capacity view))
     (sort_key graph_ref_key (graph_candidates (cs_graph src))) \<and>
   cv_graph_truncated view' = (length (cv_graph_refs view') < length (graph_candidates (cs_graph src))) \<and>
   cv_memory_refs view' = take (min (cl_memory_facts limits) (cv_memory_capacity view))
     (sort_key memory_ref_key (memory_candidates (cs_memory src))) \<and>
   cv_memory_truncated view' = (length (cv_memory_refs view') < length (memory_candidates (cs_memory src))) \<and>
   rev (cv_journal_refs view') = take (min (cl_journal_events limits) (cv_journal_capacity view))
     (sort_key journal_ref_key (journal_candidates (cs_journal_headers src))) \<and>
   cv_journal_truncated view' = (length (cv_journal_refs view') < length (journal_candidates (cs_journal_headers src))) \<and>
   map bi_configured (budget_items (cv_budgets view')) = budget_columns (configured_budgets src) \<and>
   map bi_consumed (budget_items (cv_budgets view')) = budget_columns (consumed_budgets src) \<and>
   map (unat \<circ> bi_remaining) (budget_items (cv_budgets view')) =
     map2 (\<lambda>c u. unat c - unat u) (budget_columns (configured_budgets src)) (budget_columns (consumed_budgets src))"
  using build_budgets_exact [of src] by (auto simp: context_build_eq Let_def min_less_iff_disj)

section \<open>Rendering writes one text\<close>

lemma append_cstr_append: "append_cstr b (append_cstr a st) = append_cstr (a @ b) st"
  by (cases st) (auto simp: append_cstr_def not_less min_def)

lemma append_char_cstr: "append_char c st = append_cstr [c] st"
  by (cases st) (auto simp: append_char_def append_cstr_def take_Cons' )

lemma append_nil [simp]: "append_cstr [] st = st"
  by (cases st) (simp add: append_cstr_def)

definition writes :: "(render_state \<Rightarrow> render_state) \<Rightarrow> string \<Rightarrow> bool" where
  "writes f t \<longleftrightarrow> (\<forall>st. f st = append_cstr t st)"

named_theorems writing \<open>what the rendering functions write\<close>

lemma writes_D: "writes f t \<Longrightarrow> f st = append_cstr t st"
  by (simp add: writes_def)

lemma writes_id [writing]: "writes id []" "writes (\<lambda>st. st) []"
  by (simp_all add: writes_def)

lemma writes_cstr [writing]: "writes (append_cstr t) t" "writes (append_char c) [c]"
  by (simp_all add: writes_def append_char_cstr)

lemma writes_then [writing]: "writes f a \<Longrightarrow> writes h b \<Longrightarrow> writes (\<lambda>st. h (f st)) (a @ b)"
  by (simp add: writes_def append_cstr_append)

lemma writes_fold: "(\<And>x. writes (f x) (t x)) \<Longrightarrow> writes (fold f xs) (concat (map t xs))"
  by (induction xs) (auto simp: writes_def append_cstr_append)

lemma writes_all [writing]: "writes (append_all ts) (concat ts)"
  unfolding append_all_def using writes_fold [of append_cstr "\<lambda>t. t"] by (simp add: writes_cstr)

text \<open>The text a rendering function writes: what it leaves in a buffer as large as it requires.\<close>

definition text_of :: "(render_state \<Rightarrow> render_state) \<Rightarrow> string" where
  "text_of f =
     (let n = rs_required (f \<lparr>rs_capacity = 0, rs_dst = [], rs_required = 0\<rparr>)
      in rs_dst (f \<lparr>rs_capacity = n + 1, rs_dst = [], rs_required = 0\<rparr>))"

lemma text_of_writes: "writes f t \<Longrightarrow> text_of f = t"
  by (simp add: writes_def text_of_def append_cstr_def Let_def)

definition writer_fun :: "(render_state \<Rightarrow> render_state) \<Rightarrow> bool" where
  "writer_fun f \<longleftrightarrow> writes f (text_of f)"

lemma writer_funI: "writes f t \<Longrightarrow> writer_fun f"
  using text_of_writes by (simp add: writer_fun_def)

lemma writer_D: "writer_fun f \<Longrightarrow> f st = append_cstr (text_of f) st"
  by (simp add: writer_fun_def writes_def)

lemma writer_base: "writer_fun (append_cstr t)"
  by (rule writer_funI) (rule writes_cstr)

lemma writer_fold: "(\<And>x. writer_fun (f x)) \<Longrightarrow> writer_fun (fold f xs)"
  unfolding writer_fun_def by (rule writer_funI [unfolded writer_fun_def]) (rule writes_fold)

lemma append_escaped_writes:
  "writes (append_escaped c)
     (if c = ch_quote \<or> c = ch_bslash then [ch_bslash, c] else if c = ch_nl then [ch_bslash, CHR ''n'']
      else if c = ch_cr then [ch_bslash, CHR ''r''] else if c = ch_tab then [ch_bslash, CHR ''t''] else [c])"
  by (simp add: writes_def append_escaped_def append_char_cstr append_cstr_append)

lemma writer_escaped: "writer_fun (append_escaped c)"
  by (rule writer_funI) (rule append_escaped_writes)

text \<open>As equations: each function appends its text. A composition of them is then one append.\<close>

lemma append_all_cstr: "append_all ts st = append_cstr (concat ts) st"
  using writes_all by (simp add: writes_def)

lemmas escaped_cstr = writer_D [OF writer_fold [OF writer_escaped]]

lemmas pieces = append_char_cstr append_cstr_append append_all_cstr escaped_cstr append_u64_def

lemma writer_eqI: "(\<And>st. f st = append_cstr t st) \<Longrightarrow> writer_fun f"
  by (rule writer_funI [of _ t]) (simp add: writes_def)

lemma writer_quoted_cstr: "writer_fun (append_quoted_cstr s)"
  by (rule writer_eqI, simp only: append_quoted_cstr_def pieces, (rule refl)?)

lemma quoted_span_valid:
  "spg_sexpr_span_valid (length t) sp \<Longrightarrow> append_quoted_span (Some t) sp st =
     append_char ch_quote (fold append_escaped (span_text t sp) (append_char ch_quote st))"
  by (simp add: append_quoted_span_def)

lemma quoted_span_invalid:
  assumes "\<And>t. txt = Some t \<Longrightarrow> \<not> spg_sexpr_span_valid (length t) sp"
  shows "append_quoted_span txt sp st = append_char ch_quote (append_u64 (of_nat (sp_length sp)) (append_cstr '':''
     (append_u64 (of_nat (sp_offset sp)) (append_cstr ''@'' (append_char ch_quote st)))))"
  using assms by (simp add: append_quoted_span_def Let_def split: option.split)

lemma writer_quoted_span: "writer_fun (append_quoted_span txt sp)"
proof (cases "\<exists>t. txt = Some t \<and> spg_sexpr_span_valid (length t) sp")
  case True
  then obtain t where t: "txt = Some t" "spg_sexpr_span_valid (length t) sp" by blast
  show ?thesis by (rule writer_eqI, simp only: t(1) quoted_span_valid [OF t(2)] pieces, (rule refl)?)
next
  case False
  then have n: "\<And>t. txt = Some t \<Longrightarrow> \<not> spg_sexpr_span_valid (length t) sp" by blast
  show ?thesis by (rule writer_eqI, simp only: quoted_span_invalid [OF n] pieces, (rule refl)?)
qed

lemmas quoted = writer_D [OF writer_quoted_cstr] writer_D [OF writer_quoted_span]

lemma writer_block_head: "writer_fun (block_head name tr)"
  by (rule writer_eqI [where t = "name @ (if tr then '' (truncated true)'' else []) @ [ch_nl]"])
     (cases tr; simp add: block_head_def pieces)

lemma writer_graph_ref: "writer_fun (render_graph_ref src gr r)"
proof (cases "spg_graph_node_valid gr (gf_node r)")
  case True
  show ?thesis
    by (rule writer_eqI, simp only: render_graph_ref_def Let_def True not_True_eq_False if_False quoted pieces, (rule refl)?)
next
  case False
  then have "render_graph_ref src gr r = id" by (auto simp: render_graph_ref_def)
  then show ?thesis by (auto intro: writer_funI writes_id)
qed

lemma writer_memory_ref: "writer_fun (render_memory_ref src mem r)"
proof (cases "spg_memory_fact_valid mem (mr_fact r)")
  case True
  show ?thesis
    by (rule writer_eqI, simp only: render_memory_ref_def Let_def True not_True_eq_False if_False quoted pieces, (rule refl)?)
next
  case False
  then have "render_memory_ref src mem r = id" by (auto simp: render_memory_ref_def)
  then show ?thesis by (auto intro: writer_funI writes_id)
qed

lemma writer_option: "writer_fun (case x of None \<Rightarrow> id | Some y \<Rightarrow> f y)" if "\<And>y. writer_fun (f y)"
  using that by (auto intro: writer_funI writes_id split: option.split)

lemma writer_graph: "writer_fun (render_graph src view)"
proof -
  note w = writer_D [OF writer_option [OF writer_fold [OF writer_graph_ref]]]
  show ?thesis by (rule writer_eqI, simp only: render_graph_def w writer_D [OF writer_block_head] pieces, (rule refl)?)
qed

lemma writer_memory: "writer_fun (render_memory src view)"
proof -
  note w = writer_D [OF writer_option [OF writer_fold [OF writer_memory_ref]]]
  show ?thesis by (rule writer_eqI, simp only: render_memory_def w writer_D [OF writer_block_head] pieces, (rule refl)?)
qed

lemma writer_journal: "writer_fun (render_journal view)"
proof -
  have "writer_fun (render_journal_ref r)" for r
    by (rule writer_eqI, simp only: render_journal_ref_def pieces, (rule refl)?)
  note w = writer_D [OF writer_fold [OF this]]
  show ?thesis by (rule writer_eqI, simp only: render_journal_def w writer_D [OF writer_block_head] pieces, (rule refl)?)
qed

lemma writer_present: "(\<And>t. writer_fun (f t)) \<Longrightarrow> writer_fun (append_present s f)"
proof -
  assume f: "\<And>t. writer_fun (f t)"
  have "append_present s f = (case s of None \<Rightarrow> id | Some t \<Rightarrow> if c_string t = [] then id else f (c_string t))"
    by (rule ext) (simp add: append_present_def split: option.split)
  moreover have "writer_fun (if c_string t = [] then id else f (c_string t))" for t
    using f by (simp add: writer_funI [OF writes_id(1)])
  ultimately show ?thesis using writer_option [of "\<lambda>t. if c_string t = [] then id else f (c_string t)" s] by simp
qed

lemma writer_verbatim: "writer_fun (append_present s (\<lambda>t. append_all [a, t, b]))"
  by (rule writer_present, rule writer_eqI, simp only: pieces, (rule refl)?)

lemma writer_text_line: "writer_fun (append_present s (\<lambda>t. append_cstr (t @ [ch_nl])))"
  by (rule writer_present, rule writer_base)

lemma writer_quote: "writer_fun (append_present s (\<lambda>t st. append_cstr b (append_quoted_cstr t (append_cstr a st))))"
  by (rule writer_present, rule writer_eqI, simp only: quoted pieces, (rule refl)?)

lemma writer_machine: "writer_fun (render_machine src)"
proof -
  have g: "writer_fun (render_goal_block src)"
    by (rule writer_eqI [where t = "case cs_machine_goal src of None \<Rightarrow> [] | Some goal \<Rightarrow>
          if \<not> go_present goal then [] else (case spg_machine_goal_render goal 512 of
             (status, block, _) \<Rightarrow> if status = SPG_OK then block @ [ch_nl] else [])"])
       (simp add: render_goal_block_def pieces split: option.split prod.split)
  have h: "writer_fun (render_history_block src)"
    by (rule writer_eqI [where t = "case cs_machine_history src of None \<Rightarrow> [] | Some history \<Rightarrow>
          (case spg_machine_history_render (Some history) MACHINE_HISTORY_RENDER_CAP of
             (status, trend, required) \<Rightarrow> if status = SPG_OK \<and> required > 0 then trend @ [ch_nl] else [])"])
       (simp add: render_history_block_def pieces split: option.split prod.split)
  have m: "writer_fun (render_machine_block src)"
    by (rule writer_eqI [where t = "case cs_machine src of None \<Rightarrow> [] | Some m \<Rightarrow>
          (case spg_machine_state_render_masked m (cs_machine_ablate src) MACHINE_RENDER_CAP of
             (status, block, _) \<Rightarrow> if status = SPG_OK then block @ [ch_nl] else [])"])
       (simp add: render_machine_block_def pieces split: option.split prod.split)
  have d: "writer_fun (render_device_block src)"
    by (rule writer_eqI [where t = "case cs_device_state src of None \<Rightarrow> [] | Some readings \<Rightarrow>
          if readings = [] then [] else (case spg_device_state_render readings DEVICE_RENDER_CAP [] of
             (status, plant, _) \<Rightarrow> if status = SPG_OK then c_string plant @ [ch_nl] else [])"])
       (simp add: render_device_block_def pieces split: option.split prod.split)
  note w = writer_D [OF g] writer_D [OF h] writer_D [OF m] writer_D [OF d]
  show ?thesis by (rule writer_eqI, simp only: render_machine_def w pieces, (rule refl)?)
qed

lemma writer_budgets: "writer_fun (render_budgets b)"
  by (rule writer_eqI, simp only: render_budgets_def append_budget_line_def pieces, (rule refl)?)

lemma writer_prefix: "writer_fun (render_prefix src)"
  by (rule writer_eqI, simp only: render_prefix_def Let_def render_contract_def writer_D [OF writer_quote]
      writer_D [OF writer_text_line] writer_D [OF writer_verbatim] pieces, (rule refl)?)

lemma writer_suffix: "writer_fun (render_suffix src view)"
proof -
  have o: "writer_fun (render_observation src)" "writer_fun (render_memory_index src)"
    unfolding render_observation_def render_memory_index_def by (rule writer_quote, rule writer_verbatim)
  show ?thesis
    by (rule writer_eqI, simp only: render_suffix_def Let_def writer_D [OF writer_text_line] writer_D [OF writer_budgets]
        writer_D [OF writer_machine] writer_D [OF writer_graph] writer_D [OF writer_memory] writer_D [OF writer_journal]
        writer_D [OF o(1)] writer_D [OF o(2)] pieces, (rule refl)?)
qed

section \<open>The prompt is a prefix of one text\<close>

definition prefix_text :: "context_sources \<Rightarrow> string" where
  "prefix_text src = text_of (render_prefix src)"

definition context_text :: "context_sources \<Rightarrow> context_view \<Rightarrow> string" where
  "context_text src view = prefix_text src @ text_of (render_suffix src view)"

lemma context_render_eq:
  assumes "spg_context_render src view cap = Some (st, out, required, plen)"
  shows "required = length (context_text src view) + 1" "out = take (cap - 1) (context_text src view)"
    "st = (if required \<le> cap then SPG_OK else SPG_E_LIMIT)" "plen = min (cap - 1) (length (prefix_text src))"
proof -
  let ?s0 = "\<lparr>rs_capacity = cap, rs_dst = [], rs_required = 0\<rparr>"
  have p: "render_prefix src ?s0 = append_cstr (prefix_text src) ?s0"
    unfolding prefix_text_def by (rule writer_D [OF writer_prefix])
  have w: "render_suffix src view (render_prefix src ?s0) = append_cstr (context_text src view) ?s0"
    by (simp only: p context_text_def writer_D [OF writer_suffix] append_cstr_append)
  have r: "st = (if rs_required (append_cstr (context_text src view) ?s0) + 1 \<le> cap then SPG_OK else SPG_E_LIMIT)"
    "out = rs_dst (append_cstr (context_text src view) ?s0)"
    "required = rs_required (append_cstr (context_text src view) ?s0) + 1"
    "plen = length (rs_dst (append_cstr (prefix_text src) ?s0))"
    using assms unfolding spg_context_render_def Let_def p w [unfolded p] by (auto split: if_splits)
  have pos: "cap > 0" using assms by (auto simp: spg_context_render_def split: if_splits)
  have a: "rs_required (append_cstr t ?s0) = length t" "rs_dst (append_cstr t ?s0) = take (cap - 1) t" for t
    using pos by (auto simp: append_cstr_def)
  show "required = length (context_text src view) + 1" "out = take (cap - 1) (context_text src view)"
    "st = (if required \<le> cap then SPG_OK else SPG_E_LIMIT)" "plen = min (cap - 1) (length (prefix_text src))"
    using r unfolding a by (simp_all add: min.commute)
qed

text \<open>
  C35: Whatever the buffer, the rendering reports the length of the whole prompt with its terminator
  and leaves as much of the prompt as fits before the terminator; it is a success exactly when all
  of it fits, and rendering again with the length it asked for gives the whole prompt.
\<close>

theorem context_render_exact:
  assumes "spg_context_render src view cap = Some (st, out, required, plen)"
  shows "spg_context_render src view required =
      Some (SPG_OK, context_text src view, length (context_text src view) + 1, length (prefix_text src)) \<and>
    required = length (context_text src view) + 1 \<and> out = take (cap - 1) (context_text src view) \<and>
    (st = SPG_OK \<longleftrightarrow> out = context_text src view \<and> length out < cap) \<and> (st = SPG_OK \<or> st = SPG_E_LIMIT)"
proof -
  note e = context_render_eq [OF assms]
  have ok: "cap > 0" "\<not> length (cv_graph_refs view) > cv_graph_capacity view"
    "\<not> length (cv_memory_refs view) > cv_memory_capacity view" "\<not> length (cv_journal_refs view) > cv_journal_capacity view"
    using assms by (auto simp: spg_context_render_def split: if_splits)
  then obtain st' out' required' plen' where
    r: "spg_context_render src view required = Some (st', out', required', plen')"
    using e(1) by (simp add: spg_context_render_def Let_def)
  have "length (prefix_text src) \<le> length (context_text src view)" by (simp add: context_text_def)
  then show ?thesis using context_render_eq [OF r] e r ok(1) by (auto simp: min_absorb2)
qed

definition no_sources :: context_sources where
  "no_sources = \<lparr>cs_run = None, cs_usage = None, cs_graph = None, cs_memory = None, cs_journal_headers = [],
     cs_graph_text = None, cs_memory_text = None, cs_memory_index = None, cs_observation = None, cs_exemplars = None,
     cs_goal = None, cs_machine_history = None, cs_machine = None, cs_machine_goal = None, cs_machine_ablate = 0,
     cs_device_state = None, cs_directive = None, cs_user_profile = None, cs_tools = None, cs_host_status = None\<rparr>"

lemma render_small:
  obtains st out required plen where "spg_context_render src (empty_view 0 0 0) 40 = Some (st, out, required, plen)"
  by (simp add: spg_context_render_def empty_view_def Let_def)

theorem context_render_exact_witness:
  "map_option (\<lambda>(st, out, required, plen). (out, required)) (spg_context_render no_sources (empty_view 0 0 0) 40) =
     Some (take 39 (context_text no_sources (empty_view 0 0 0)), length (context_text no_sources (empty_view 0 0 0)) + 1)"
proof -
  obtain st out required plen where r: "spg_context_render no_sources (empty_view 0 0 0) 40 = Some (st, out, required, plen)"
    by (rule render_small)
  show ?thesis using context_render_exact [OF r] r by simp
qed

text \<open>
  C34: The part a caller pins is the same for every tick of a run: two prompts rendered from sources
  that agree in the directive, the profile, the goal, the tools and the examples agree in the reported
  length of the constant prefix and in every character of it, whatever else differs.
\<close>

theorem context_prefix_constant:
  assumes "spg_context_render src view cap = Some (st, out, required, plen)"
    and "spg_context_render src' view' cap = Some (st', out', required', plen')"
    and "cs_directive src' = cs_directive src" "cs_user_profile src' = cs_user_profile src"
    and "cs_goal src' = cs_goal src" "cs_tools src' = cs_tools src" "cs_exemplars src' = cs_exemplars src"
  shows "plen' = plen \<and> plen \<le> length out \<and> take plen out' = take plen out"
proof -
  note e = context_render_eq [OF assms(1)] context_render_eq [OF assms(2)]
  have "render_prefix src' = render_prefix src" by (rule ext) (simp add: render_prefix_def assms(3-7))
  then have p: "prefix_text src' = prefix_text src" by (simp add: prefix_text_def)
  have "take plen (take (cap - 1) (prefix_text src @ t)) = take plen (prefix_text src)" for t
    unfolding e(4) by (simp add: take_append)
  then show ?thesis unfolding e(2,6) context_text_def p using e(4,8) p by (simp add: min_def)
qed

theorem context_prefix_constant_witness:
  "map_option (\<lambda>(st, out, required, plen). take plen out)
     (spg_context_render (no_sources\<lparr>cs_observation := Some ''ok''\<rparr>) (empty_view 0 0 0) 40) =
   map_option (\<lambda>(st, out, required, plen). take plen out) (spg_context_render no_sources (empty_view 0 0 0) 40)"
proof -
  obtain st out required plen where r: "spg_context_render no_sources (empty_view 0 0 0) 40 = Some (st, out, required, plen)"
    by (rule render_small)
  obtain st' out' required' plen' where r': "spg_context_render (no_sources\<lparr>cs_observation := Some ''ok''\<rparr>)
      (empty_view 0 0 0) 40 = Some (st', out', required', plen')"
    by (rule render_small)
  show ?thesis using context_prefix_constant [OF r r'] r r' by simp
qed

section \<open>Quoted text is one token\<close>

definition escape_char :: "char \<Rightarrow> string" where
  "escape_char c =
     (if c = ch_quote \<or> c = ch_bslash then [ch_bslash, c] else if c = ch_nl then [ch_bslash, CHR ''n'']
      else if c = ch_cr then [ch_bslash, CHR ''r''] else if c = ch_tab then [ch_bslash, CHR ''t''] else [c])"

lemma quoted_text: "text_of (append_quoted_cstr s) = [ch_quote] @ concat (map escape_char (c_string s)) @ [ch_quote]"
proof -
  have "writes (fold append_escaped (c_string s)) (concat (map escape_char (c_string s)))"
    by (rule writes_fold) (use append_escaped_writes in \<open>simp add: escape_char_def\<close>)
  then have "fold append_escaped (c_string s) st = append_cstr (concat (map escape_char (c_string s))) st" for st
    by (rule writes_D)
  then have "writes (append_quoted_cstr s) ([ch_quote] @ concat (map escape_char (c_string s)) @ [ch_quote])"
    by (simp add: writes_def append_quoted_cstr_def append_char_cstr append_cstr_append)
  then show ?thesis by (rule text_of_writes)
qed

lemma scan_escaped:
  assumes "ch_nul \<notin> set s"
  shows "\<exists>col'. scan_string (before @ concat (map escape_char s) @ ch_quote # after) (length before) col =
    Inr (True, length before + length (concat (map escape_char s)) + 1, col')"
  using assms
proof (induction s arbitrary: before col)
  case Nil
  have "(before @ ch_quote # after) ! length before = ch_quote" by simp
  then show ?case by (simp add: scan_string.simps [of _ "length before"] Let_def)
next
  case (Cons c s)
  let ?t = "concat (map escape_char s) @ ch_quote # after"
  have c: "c \<noteq> ch_nul" "ch_nul \<notin> set s" using Cons.prems by auto
  obtain col1 where one: "scan_string (before @ escape_char c @ ?t) (length before) col =
      scan_string (before @ escape_char c @ ?t) (length before + length (escape_char c)) col1"
  proof (cases "length (escape_char c) = 2")
    case True
    then obtain d where d: "escape_char c = [ch_bslash, d]"
      "d = ch_quote \<or> d = ch_bslash \<or> d = CHR ''n'' \<or> d = CHR ''t'' \<or> d = CHR ''r''"
      by (auto simp: escape_char_def split: if_splits)
    have "scan_string (before @ escape_char c @ ?t) (length before) col =
        scan_string (before @ escape_char c @ ?t) (Suc (Suc (length before))) (Suc (Suc col))"
      using d(2) by (subst scan_string.simps) (auto simp: d(1) nth_append Let_def)
    then show ?thesis using that d(1) by simp
  next
    case False
    then have e: "escape_char c = [c]" "c \<noteq> ch_quote" "c \<noteq> ch_bslash" "c \<noteq> ch_nl" "c \<noteq> ch_cr"
      by (auto simp: escape_char_def split: if_splits)
    have "scan_string (before @ escape_char c @ ?t) (length before) col =
        scan_string (before @ escape_char c @ ?t) (Suc (length before)) (Suc col)"
      using e c(1) by (subst scan_string.simps) (simp add: Let_def)
    then show ?thesis using that e(1) by simp
  qed
  obtain col2 where "scan_string ((before @ escape_char c) @ ?t) (length (before @ escape_char c)) col1 =
      Inr (True, length (before @ escape_char c) + length (concat (map escape_char s)) + 1, col2)"
    using Cons.IH [OF c(2)] by blast
  then show ?case using one by (intro exI [of _ col2]) simp
qed

text \<open>
  C33: Text that is quoted into the prompt, an observation, a goal or a directive, cannot leave its
  quotes: wherever the quoted form stands, the tokenizer reads it as exactly one string token and
  goes on right behind it, for every content.
\<close>

theorem quoted_text_is_one_token:
  assumes "length toks < cap"
  shows "\<exists>col'. tokenize_step (before @ text_of (append_quoted_cstr s) @ after) cap (length before) line col toks =
    Tok_next (length before + length (text_of (append_quoted_cstr s))) line col'
      (toks @ [\<lparr>tk_kind = TOKEN_STRING, tk_span = mk_span (length before) (length (text_of (append_quoted_cstr s))),
         tk_line = line, tk_column = col\<rparr>])"
proof -
  let ?q = "text_of (append_quoted_cstr s)" and ?b = "concat (map escape_char (c_string s))"
  let ?in = "before @ ?q @ after"
  have eq: "?in = (before @ [ch_quote]) @ ?b @ ch_quote # after" by (simp add: quoted_text)
  have "ch_nul \<notin> set (c_string s)" unfolding c_string_def by (auto dest: set_takeWhileD)
  from scan_escaped [OF this, of "before @ [ch_quote]" after "Suc col"] obtain col' where
    sc: "scan_string ?in (Suc (length before)) (Suc col) = Inr (True, length before + length ?q, col')"
    unfolding eq by (auto simp: quoted_text)
  have "?in ! length before = ch_quote" by (simp add: quoted_text)
  then show ?thesis
    using assms sc by (simp add: tokenize_step_def Let_def emit_token_def push_token_def)
qed

theorem quoted_text_is_one_token_witness:
  "\<exists>col'. tokenize_step (text_of (append_quoted_cstr [ch_quote, CHR '')'', ch_bslash])) 1 0 1 1 [] =
    Tok_next 7 1 col' [\<lparr>tk_kind = TOKEN_STRING, tk_span = mk_span 0 7, tk_line = 1, tk_column = 1\<rparr>]"
  using quoted_text_is_one_token [of "[]" 1 "[]" "[ch_quote, CHR '')'', ch_bslash]" "[]" 1 1]
  by (simp add: quoted_text c_string_def escape_char_def eval_nat_numeral)

definition two_nodes :: graph where
  "two_nodes = \<lparr>gr_nodes = map (\<lambda>(i, k). \<lparr>gn_id = mk_handle i 1, gn_kind = k, gn_flags = NODE_OPEN, gn_actor_id = 1,
     gn_payload = mk_span 0 0, gn_scores = zero_scores, gn_live = True\<rparr>) [(0, NODE_OBSERVATION), (1, NODE_GOAL)],
     gr_edges = []\<rparr>"

theorem context_selects_witness:
  "map (hd_index \<circ> gf_node) (cv_graph_refs (snd (spg_context_build (no_sources\<lparr>cs_graph := Some two_nodes\<rparr>)
     \<lparr>cl_graph_nodes = 1, cl_memory_facts = 1, cl_journal_events = 1\<rparr> (empty_view 2 2 2)))) = [1]"
proof -
  have r: "take 1 (sort_key graph_ref_key (graph_candidates (Some two_nodes))) = [\<lparr>gf_node = mk_handle 1 1, gf_rank = 19833\<rparr>]"
    by code_simp
  show ?thesis
    using context_selects [OF prod.collapse [symmetric], of "no_sources\<lparr>cs_graph := Some two_nodes\<rparr>"
      "\<lparr>cl_graph_nodes = 1, cl_memory_facts = 1, cl_journal_events = 1\<rparr>" "empty_view 2 2 2"]
    by (simp add: empty_view_def r [simplified] mk_handle_def)
qed

end
