(* ===== verification/Eval.thy ===== *)
theory Eval
  imports Ranked LoopProps MachineRecover Recommendation PolicyConfig
begin

text \<open>
  The evaluation harness of \<open>src/eval/eval.c\<close>: judging a finished run, ranking attempts, and what is
  read back from a run's journal: the script that replays it, its terminal verdict, its failures, and
  the key of the task's shape. The scripted model and the run it drives are the loop of AgentLoop;
  the verdict takes its outcome. A journal is walked with a buffer of 8192 bytes.
\<close>

section \<open>Judging\<close>

datatype eval_outcome =
  EVAL_PASS | EVAL_FAIL_TERMINATION | EVAL_FAIL_STEPS | EVAL_FAIL_OBSERVATION | EVAL_FAIL_RUN_ERROR

fun spg_eval_outcome_to_string :: "eval_outcome \<Rightarrow> string" where
  "spg_eval_outcome_to_string EVAL_PASS = ''pass''"
| "spg_eval_outcome_to_string EVAL_FAIL_TERMINATION = ''fail_termination''"
| "spg_eval_outcome_to_string EVAL_FAIL_STEPS = ''fail_steps''"
| "spg_eval_outcome_to_string EVAL_FAIL_OBSERVATION = ''fail_observation''"
| "spg_eval_outcome_to_string EVAL_FAIL_RUN_ERROR = ''fail_run_error''"

record eval_expect =
  ee_check_termination :: bool
  ee_termination :: loop_termination
  ee_min_steps :: nat
  ee_max_steps :: nat
  ee_observation :: "string option"

record eval_case_result =
  ec_outcome :: eval_outcome
  ec_termination :: loop_termination
  ec_steps_taken :: nat
  ec_actions_executed :: nat
  ec_repairs_used :: nat
  ec_status :: spg_status
  ec_reject_reason :: reject_reason
  ec_deny_reason :: deny_reason
  ec_tokens_consumed :: u64

fun termination_rank :: "loop_termination \<Rightarrow> int" where
  "termination_rank LOOP_FINISHED = 4"
| "termination_rank LOOP_MAX_STEPS = 3"
| "termination_rank LOOP_BUDGET = 2"
| "termination_rank LOOP_DENIED = 1"
| "termination_rank LOOP_REJECTED = 0"
| "termination_rank LOOP_ERROR = - 1"

definition spg_run_rank :: "spg_status \<Rightarrow> loop_termination \<Rightarrow> int" where
  "spg_run_rank st t = (if st \<noteq> SPG_OK then - 1 else termination_rank t)"

definition spg_eval_judge :: "eval_expect \<Rightarrow> loop_result \<Rightarrow> spg_status \<Rightarrow> string \<Rightarrow> eval_outcome" where
  "spg_eval_judge ex res st observation =
     (if st \<noteq> SPG_OK then EVAL_FAIL_RUN_ERROR
      else if ee_check_termination ex \<and> lr_termination res \<noteq> ee_termination ex then EVAL_FAIL_TERMINATION
      else if (ee_min_steps ex > 0 \<and> lr_steps_taken res < ee_min_steps ex) \<or>
              (ee_max_steps ex > 0 \<and> lr_steps_taken res > ee_max_steps ex) then EVAL_FAIL_STEPS
      else (case ee_observation ex of
              None \<Rightarrow> EVAL_PASS
            | Some want \<Rightarrow> if \<not> lr_observation_seen res \<and> \<not> payload_has (c_string observation) want
                           then EVAL_FAIL_OBSERVATION else EVAL_PASS))"

text \<open>What a case reports of the run it drove: its status, its loop result, what it consumed.\<close>

definition case_result :: "eval_expect \<Rightarrow> spg_status \<Rightarrow> loop_result \<Rightarrow> policy_usage \<Rightarrow> string \<Rightarrow> eval_case_result" where
  "case_result ex st res usage observation =
     \<lparr>ec_outcome = spg_eval_judge ex res st observation, ec_termination = lr_termination res,
      ec_steps_taken = lr_steps_taken res, ec_actions_executed = lr_actions_executed res,
      ec_repairs_used = lr_repairs_used res, ec_status = st,
      ec_reject_reason = (case lr_last res of None \<Rightarrow> REJECT_NONE
        | Some t \<Rightarrow> (case ot_recommendation t of None \<Rightarrow> REJECT_NONE | Some rec \<Rightarrow> rm_reject_reason rec)),
      ec_deny_reason = (case lr_last res of None \<Rightarrow> DENY_NONE
        | Some t \<Rightarrow> (case ot_gate t of None \<Rightarrow> DENY_NONE | Some gt \<Rightarrow> dc_deny_reason (go_decision gt))),
      ec_tokens_consumed = bd_tokens (us_consumed usage)\<rparr>"

section \<open>Walking a journal\<close>

definition WALK_SCRATCH :: nat where "WALK_SCRATCH = 8192"

text \<open>A visitor is told whether the payload fitted; it ends the walk with a status or goes on.\<close>

type_synonym 's visitor = "bool \<Rightarrow> journal_record \<Rightarrow> u8 list \<Rightarrow> 's \<Rightarrow> spg_status option \<times> 's"

function journal_walk :: "'s visitor \<Rightarrow> journal_reader \<Rightarrow> 's \<Rightarrow> spg_status \<times> 's" where
  "journal_walk visit r s =
     (case spg_journal_reader_next r WALK_SCRATCH of
        (st, r', rec, raw) \<Rightarrow>
          if st = SPG_E_NOT_FOUND then (SPG_OK, s)
          else if st \<noteq> SPG_OK \<and> st \<noteq> SPG_E_LIMIT then (st, s)
          else (case rec of
                  None \<Rightarrow> journal_walk visit r' s
                | Some rec \<Rightarrow>
                    (case visit (st = SPG_OK) rec raw s of
                       (Some ends, s') \<Rightarrow> (ends, s')
                     | (None, s') \<Rightarrow> journal_walk visit r' s')))"
  by pat_completeness auto
termination
  by (relation "measure (\<lambda>(visit, r, s). left_to_read r)") (auto dest: reader_next_shrinks [OF sym])

declare journal_walk.simps [simp del]

definition of_kind :: "event_kind \<Rightarrow> journal_record \<Rightarrow> bool" where
  "of_kind k rec \<longleftrightarrow> jh_event_kind (jc_header rec) = event_code k"

text \<open>The script: the model outputs in order, bounded in number and in bytes.\<close>

definition script_visitor :: "nat \<Rightarrow> nat \<Rightarrow> string list visitor" where
  "script_visitor max_responses text_cap fits rec raw rs =
     (if \<not> fits then (if of_kind EVENT_MODEL_OUTPUT rec then Some SPG_E_LIMIT else None, rs)
      else if \<not> of_kind EVENT_MODEL_OUTPUT rec then (None, rs)
      else if length rs \<ge> max_responses \<or> sum_list (map length rs) + jc_payload_used rec > text_cap
        then (Some SPG_E_LIMIT, rs)
      else (None, rs @ [text_of (take (jc_payload_used rec) raw)]))"

definition spg_eval_script_from_journal ::
  "u8 list option \<Rightarrow> nat \<Rightarrow> nat \<Rightarrow> spg_status \<times> string list" where
  "spg_eval_script_from_journal journal max_responses text_cap =
     (case spg_journal_reader_open journal of
        (st, r) \<Rightarrow>
          if st \<noteq> SPG_OK then (st, [])
          else (case journal_walk (script_visitor max_responses text_cap) r [] of
                  (st', rs) \<Rightarrow> (st', if st' = SPG_OK then rs else [])))"

text \<open>The payload as a C string in the scratch buffer, whose last byte is the terminator's.\<close>

definition payload_string :: "journal_record \<Rightarrow> u8 list \<Rightarrow> string" where
  "payload_string rec raw =
     c_string (text_of (take (if jc_payload_used rec < WALK_SCRATCH then jc_payload_used rec else WALK_SCRATCH - 1) raw))"

datatype journal_verdict = VERDICT_NONE | VERDICT_PASS | VERDICT_FAIL

definition verdict_visitor :: "journal_verdict visitor" where
  "verdict_visitor fits rec raw v =
     (None, if fits \<and> of_kind EVENT_RESULT rec \<and> payload_has (payload_string rec raw) ''(run_verdict ''
            then (if payload_has (payload_string rec raw) ''(verdict pass)'' then VERDICT_PASS else VERDICT_FAIL)
            else v)"

definition spg_journal_verdict :: "u8 list option \<Rightarrow> spg_status \<times> journal_verdict" where
  "spg_journal_verdict journal =
     (case spg_journal_reader_open journal of
        (st, r) \<Rightarrow> if st \<noteq> SPG_OK then (SPG_OK, VERDICT_NONE) else journal_walk verdict_visitor r VERDICT_NONE)"

record recurrence =
  rc_rejected :: nat
  rc_denied :: nat

definition recurrence_visitor :: "recurrence visitor" where
  "recurrence_visitor fits rec raw c =
     (None,
      if \<not> fits then c
      else if of_kind EVENT_ERROR rec \<and> payload_has (payload_string rec raw) ''recommendation_rejected''
        then c\<lparr>rc_rejected := rc_rejected c + 1\<rparr>
      else if of_kind EVENT_POLICY_DECISION rec \<and> payload_has (payload_string rec raw) ''deny_reason'' \<and>
              \<not> payload_has (payload_string rec raw) ''SPG_POLICY_DENY_NONE''
        then c\<lparr>rc_denied := rc_denied c + 1\<rparr>
      else c)"

definition spg_journal_recurrence :: "u8 list option \<Rightarrow> recurrence \<Rightarrow> spg_status \<times> recurrence" where
  "spg_journal_recurrence journal c =
     (case spg_journal_reader_open journal of
        (st, r) \<Rightarrow> if st \<noteq> SPG_OK then (SPG_OK, c) else journal_walk recurrence_visitor r c)"

section \<open>The shape of a task\<close>

definition SHAPE_MAX_TOKENS :: nat where "SHAPE_MAX_TOKENS = 16"
definition SHAPE_TOKEN_MAX :: nat where "SHAPE_TOKEN_MAX = 48"

datatype shape_mode = SHAPE_SET | SHAPE_SEQUENCE

definition shape_token :: "string \<Rightarrow> string \<Rightarrow> text_span \<Rightarrow> string" where
  "shape_token kind txt name = take SHAPE_TOKEN_MAX (kind @ '':'' @ c_string (span_text txt name))"

text \<open>The token of one reply; the status of the parse is all that is asked of it.\<close>

definition reply_token :: "string \<Rightarrow> string option" where
  "reply_token reply =
     (case spg_recommendation_parse reply 256 256 of
        (st, rec, err) \<Rightarrow>
          if st \<noteq> SPG_OK \<or> rm_action_kind rec = ACTION_FINISH then None
          else if sp_length (rm_capability rec) > 0
            then Some (shape_token (spg_action_kind_to_string (rm_action_kind rec)) reply (rm_capability rec))
          else Some (take SHAPE_TOKEN_MAX (spg_action_kind_to_string (rm_action_kind rec))))"

definition set_insert :: "string \<Rightarrow> string list \<Rightarrow> string list" where
  "set_insert token tokens =
     (let front = takeWhile (\<lambda>t. strcmp_less t token) tokens; rest = dropWhile (\<lambda>t. strcmp_less t token) tokens
      in if (rest \<noteq> [] \<and> hd rest = token) \<or> length tokens = SHAPE_MAX_TOKENS then tokens
         else front @ token # rest)"

definition sequence_insert :: "string \<Rightarrow> string list \<Rightarrow> string list" where
  "sequence_insert token tokens =
     (if (tokens \<noteq> [] \<and> last tokens = token) \<or> length tokens = SHAPE_MAX_TOKENS then tokens else tokens @ [token])"

fun join_tokens :: "char \<Rightarrow> nat \<Rightarrow> string list \<Rightarrow> string \<Rightarrow> bool \<Rightarrow> spg_status \<times> string" where
  "join_tokens joiner cap [] out first = (SPG_OK, out)"
| "join_tokens joiner cap (t # ts) out first =
     (let sep = (if first then [] else [joiner])
      in if length out + length sep + length t + 1 > cap then (SPG_E_LIMIT, out)
         else join_tokens joiner cap ts (out @ sep @ t) False)"

definition script_tokens :: "string list \<Rightarrow> string list" where
  "script_tokens replies = List.map_filter reply_token replies"

definition spg_shape_from_script_mode :: "string list \<Rightarrow> shape_mode \<Rightarrow> nat \<Rightarrow> spg_status \<times> string" where
  "spg_shape_from_script_mode replies mode cap =
     (if cap = 0 then (SPG_E_INVALID_ARG, [])
      else join_tokens (if mode = SHAPE_SEQUENCE then CHR ''>'' else CHR ''+'') cap
             (fold (if mode = SHAPE_SEQUENCE then sequence_insert else set_insert) (script_tokens replies) []) [] True)"

definition spg_shape_from_script :: "string list \<Rightarrow> nat \<Rightarrow> spg_status \<times> string" where
  "spg_shape_from_script replies cap = spg_shape_from_script_mode replies SHAPE_SET cap"

fun primary_action_kind :: "capability_kind \<Rightarrow> string" where
  "primary_action_kind CAP_LOCAL_SHELL = ''local_shell''"
| "primary_action_kind CAP_SSH_AUTH_PROBE = ''ssh_auth_probe''"
| "primary_action_kind CAP_SIMULATOR = ''simulator''"
| "primary_action_kind CAP_MEMORY = ''memory_save''"
| "primary_action_kind CAP_MACHINE_PROCESS = ''machine_pause_process''"
| "primary_action_kind CAP_DEVICE = ''device_write''"

definition policy_tokens :: "string \<Rightarrow> policy_config \<Rightarrow> string list" where
  "policy_tokens txt policy =
     map (\<lambda>c. shape_token (primary_action_kind (cp_kind c)) txt (cp_name c))
       (filter (\<lambda>c. cp_enabled c \<and> spg_sexpr_span_valid (length txt) (cp_name c)) (pc_capabilities policy))"

definition spg_shape_from_policy :: "string \<Rightarrow> policy_config \<Rightarrow> nat \<Rightarrow> spg_status \<times> string" where
  "spg_shape_from_policy txt policy cap =
     (if cap = 0 then (SPG_E_INVALID_ARG, [])
      else join_tokens (CHR ''+'') cap (fold set_insert (policy_tokens txt policy) []) [] True)"

end
