(* ===== verification/EvalProps.thy ===== *)
theory EvalProps
  imports Eval RecommendationProps
begin

text \<open>
  What a journal gives back: on a valid chain of records a walk visits the records one after the
  other, so the script is the model's outputs, the verdict the last one recorded; and the shape of a
  task is a function of the set of its tokens.
\<close>

section \<open>Walking a chain\<close>

fun walk_entries :: "'s visitor \<Rightarrow> entry list \<Rightarrow> 's \<Rightarrow> spg_status \<times> 's" where
  "walk_entries visit [] s = (SPG_OK, s)"
| "walk_entries visit (e # es) s =
     (case visit (length (snd e) \<le> WALK_SCRATCH) \<lparr>jc_header = fst e, jc_payload_used = length (snd e)\<rparr>
             (if length (snd e) \<le> WALK_SCRATCH then snd e else []) s of
        (Some ends, s') \<Rightarrow> (ends, s')
      | (None, s') \<Rightarrow> walk_entries visit es s')"

lemma journal_walk_chain:
  "chain (jr_next_sequence r) (jr_last_hash r) es head \<Longrightarrow> jr_file r = Some (file_of es) \<Longrightarrow>
   length (file_of es) < 2 ^ 64 \<Longrightarrow> journal_walk visit r s = walk_entries visit es s"
proof (induction es arbitrary: r s)
  case Nil
  then have "spg_journal_reader_next r WALK_SCRATCH = (SPG_E_NOT_FOUND, r, None, [])"
    by (simp add: spg_journal_reader_next_def)
  then show ?case by (subst journal_walk.simps) simp
next
  case (Cons e es)
  then have ok: "JournalChain.entry_ok (jr_next_sequence r) (jr_last_hash r) e"
    "chain (jr_next_sequence r + 1) (jh_record_hash (fst e)) es head" by (simp_all add: chain_Cons)
  have fl: "jr_file r = Some (entry_bytes e @ file_of es)" "length (entry_bytes e @ file_of es) < 2 ^ 64"
    using Cons.prems(2,3) by simp_all
  note nx = reader_next_entry [OF fl(1) ok(1) fl(2), of WALK_SCRATCH]
  have a: "jr_next_sequence (after_entry r e (file_of es)) = jr_next_sequence r + 1"
    "jr_last_hash (after_entry r e (file_of es)) = jh_record_hash (fst e)"
    "jr_file (after_entry r e (file_of es)) = Some (file_of es)"
    by (simp_all add: after_entry_def)
  have "length (file_of es) < 2 ^ 64" using fl(2) by simp
  note ih = Cons.IH [of "after_entry r e (file_of es)", unfolded a, OF ok(2) refl this]
  show ?case
    by (subst journal_walk.simps) (simp add: nx ih split: option.split prod.split)
qed

lemma open_chain:
  assumes "chain 1 zero_hash es head" "length (file_of es) < 2 ^ 64"
    and "spg_journal_reader_open (Some (file_of es)) = (st, r)"
  shows "st = SPG_OK" "journal_walk visit r s = walk_entries visit es s"
proof -
  have r: "st = SPG_OK" "jr_file r = Some (file_of es)" "jr_next_sequence r = 1" "jr_last_hash r = zero_hash"
    using assms(3) by (auto simp: spg_journal_reader_open_def)
  show "st = SPG_OK" by (rule r(1))
  show "journal_walk visit r s = walk_entries visit es s"
    using journal_walk_chain [of r es head] assms(1,2) r by simp
qed

section \<open>The script of a journal\<close>

definition is_output :: "entry \<Rightarrow> bool" where
  "is_output e \<longleftrightarrow> jh_event_kind (fst e) = event_code EVENT_MODEL_OUTPUT"

definition replayable :: "nat \<Rightarrow> nat \<Rightarrow> entry list \<Rightarrow> string list \<Rightarrow> bool" where
  "replayable max_responses text_cap es rs \<longleftrightarrow>
     (\<forall>e \<in> set es. is_output e \<longrightarrow> length (snd e) \<le> WALK_SCRATCH) \<and>
     (filter is_output es = [] \<or> length rs + length (filter is_output es) \<le> max_responses \<and>
        sum_list (map length rs) + sum_list (map (length \<circ> snd) (filter is_output es)) \<le> text_cap)"

lemma text_of_length [simp]: "length (text_of bs) = length bs"
  by (simp add: text_of_def)

lemma script_walk:
  "fst (walk_entries (script_visitor m c) es rs) = (if replayable m c es rs then SPG_OK else SPG_E_LIMIT) \<and>
   (replayable m c es rs \<longrightarrow> snd (walk_entries (script_visitor m c) es rs) = rs @ map (text_of \<circ> snd) (filter is_output es))"
proof (induction es arbitrary: rs)
  case Nil
  then show ?case by (simp add: replayable_def)
next
  case (Cons e es)
  show ?case
  proof (cases "is_output e")
    case False
    then have "script_visitor m c (length (snd e) \<le> WALK_SCRATCH) \<lparr>jc_header = fst e, jc_payload_used = length (snd e)\<rparr>
        (if length (snd e) \<le> WALK_SCRATCH then snd e else []) rs = (None, rs)"
      by (simp add: script_visitor_def of_kind_def is_output_def)
    moreover have "replayable m c (e # es) rs = replayable m c es rs" using False by (simp add: replayable_def)
    ultimately show ?thesis using Cons.IH [of rs] False by simp
  next
    case out: True
    show ?thesis
    proof (cases "length (snd e) \<le> WALK_SCRATCH \<and> length rs < m \<and> sum_list (map length rs) + length (snd e) \<le> c")
      case True
      then have "script_visitor m c (length (snd e) \<le> WALK_SCRATCH) \<lparr>jc_header = fst e, jc_payload_used = length (snd e)\<rparr>
          (if length (snd e) \<le> WALK_SCRATCH then snd e else []) rs = (None, rs @ [text_of (snd e)])"
        using out by (simp add: script_visitor_def of_kind_def is_output_def)
      moreover have "replayable m c (e # es) rs = replayable m c es (rs @ [text_of (snd e)])"
        using True out by (auto simp: replayable_def)
      ultimately show ?thesis using Cons.IH [of "rs @ [text_of (snd e)]"] out by simp
    next
      case False
      then have "script_visitor m c (length (snd e) \<le> WALK_SCRATCH) \<lparr>jc_header = fst e, jc_payload_used = length (snd e)\<rparr>
          (if length (snd e) \<le> WALK_SCRATCH then snd e else []) rs = (Some SPG_E_LIMIT, rs)"
        using out by (auto simp: script_visitor_def of_kind_def is_output_def)
      moreover have "\<not> replayable m c (e # es) rs" using False out by (auto simp: replayable_def)
      ultimately show ?thesis by simp
    qed
  qed
qed

text \<open>
  C37: Of a valid journal the harness reconstructs exactly what the model said: the payloads of the
  model-output records, whole and in order, whatever the other records hold; and it reports a limit,
  with no script at all, exactly when one of them exceeds the 8192-byte buffer or they exceed the
  caller's arrays.
\<close>

theorem journal_script_exact:
  assumes "chain 1 zero_hash es head" "length (file_of es) < 2 ^ 64"
  shows "spg_eval_script_from_journal (Some (file_of es)) max_responses text_cap =
    (if replayable max_responses text_cap es [] then (SPG_OK, map (text_of \<circ> snd) (filter is_output es))
     else (SPG_E_LIMIT, []))"
proof -
  obtain st r where r: "spg_journal_reader_open (Some (file_of es)) = (st, r)" by fastforce
  note w = open_chain [OF assms r]
  obtain st' rs where s: "walk_entries (script_visitor max_responses text_cap) es [] = (st', rs)" by fastforce
  show ?thesis
    using script_walk [of max_responses text_cap es "[]"]
    by (auto simp: spg_eval_script_from_journal_def r w s)
qed

lemma text_of_bytes: "text_of (bytes_of s) = s"
proof -
  have "unat (of_nat (of_char c) :: u8) = of_char c" for c :: char
    using of_char_mod_256 [of c, where 'a = nat] by (simp add: unat_of_nat)
  then show ?thesis by (simp add: text_of_def bytes_of_def comp_def)
qed

section \<open>The verdict\<close>

definition entry_string :: "entry \<Rightarrow> string" where
  "entry_string e = payload_string \<lparr>jc_header = fst e, jc_payload_used = length (snd e)\<rparr> (snd e)"

definition is_verdict :: "entry \<Rightarrow> bool" where
  "is_verdict e \<longleftrightarrow> length (snd e) \<le> WALK_SCRATCH \<and> jh_event_kind (fst e) = event_code EVENT_RESULT \<and>
     payload_has (entry_string e) ''(run_verdict ''"

text \<open>
  The verdict of a valid journal is the last one it records, and a pass only if that record says
  so; a journal without one has none, which is not a pass.
\<close>

theorem journal_verdict_last:
  assumes "chain 1 zero_hash es head" "length (file_of es) < 2 ^ 64"
  shows "spg_journal_verdict (Some (file_of es)) = (SPG_OK,
    if filter is_verdict es = [] then VERDICT_NONE
    else if payload_has (entry_string (last (filter is_verdict es))) ''(verdict pass)'' then VERDICT_PASS else VERDICT_FAIL)"
proof -
  obtain st r where r: "spg_journal_reader_open (Some (file_of es)) = (st, r)" by fastforce
  note w = open_chain [OF assms r]
  have "walk_entries verdict_visitor es v = (SPG_OK, if filter is_verdict es = [] then v
    else if payload_has (entry_string (last (filter is_verdict es))) ''(verdict pass)'' then VERDICT_PASS else VERDICT_FAIL)" for v
    by (induction es arbitrary: v)
       (auto simp: verdict_visitor_def of_kind_def is_verdict_def entry_string_def)
  then show ?thesis by (simp add: spg_journal_verdict_def r w)
qed

text \<open>A journal of an output and a passing verdict.\<close>

definition passed_payload :: "u8 list" where
  "passed_payload = bytes_of ''(run_verdict (verdict pass))''"

lemma passed_journal:
  obtains e1 e2 head where "chain 1 zero_hash [e1, e2] head" "length (file_of [e1, e2]) < 2 ^ 64"
    "is_output e1" "snd e1 = bytes_of ''hi''" "\<not> is_output e2" "snd e2 = passed_payload"
    "jh_event_kind (fst e2) = event_code EVENT_RESULT" "jh_event_kind (fst e1) \<noteq> event_code EVENT_RESULT"
proof -
  let ?io = "\<lparr>io_header = HEADER_SIZE, io_payload = 100, io_flush = True\<rparr>"
  have small: "length (bytes_of ''hi'') \<le> 100" "HEADER_SIZE + length (bytes_of ''hi'') < 2 ^ 64"
    "length passed_payload \<le> 100" "HEADER_SIZE + length passed_payload < 2 ^ 64"
    by (simp_all add: passed_payload_def bytes_of_def HEADER_SIZE_def)
  obtain w1 o1 where a1: "spg_journal_writer_append fresh_writer 1 0 EVENT_MODEL_OUTPUT SPG_OK (bytes_of ''hi'') ?io = (SPG_OK, w1, o1)"
    using append_complete [OF fresh_writer_inv small(2), where io = ?io and ts = 1 and parent = 0
        and kind = EVENT_MODEL_OUTPUT and st = SPG_OK] small(1) by auto
  note i1 = append_ok(1) [OF fresh_writer_inv small(2) a1]
  obtain w2 o2 where a2: "spg_journal_writer_append w1 2 0 EVENT_RESULT SPG_OK passed_payload ?io = (SPG_OK, w2, o2)"
    using append_complete [OF i1 small(4), where io = ?io and ts = 2 and parent = 0
        and kind = EVENT_RESULT and st = SPG_OK] small(3) by auto
  note i2 = append_ok(1) [OF i1 small(4) a2]
  let ?e1 = "new_entry fresh_writer 1 0 EVENT_MODEL_OUTPUT SPG_OK (bytes_of ''hi'')"
  let ?e2 = "new_entry w1 2 0 EVENT_RESULT SPG_OK passed_payload"
  have c: "chain 1 zero_hash [?e1, ?e2] (jw_last_hash w2)" using i2 by (simp add: writer_inv_def)
  have s: "snd ?e1 = bytes_of ''hi''" "snd ?e2 = passed_payload" by (simp_all add: new_entry_def Let_def)
  have k: "jh_event_kind (fst ?e1) = event_code EVENT_MODEL_OUTPUT" "jh_event_kind (fst ?e2) = event_code EVENT_RESULT"
    by (simp_all add: new_entry_def new_header_def Let_def)
  have "header_ok (fst ?e1)" "header_ok (fst ?e2)" using c by (auto simp: chain_Cons JournalChain.entry_ok_def Let_def)
  then have l: "length (file_of [?e1, ?e2]) < 2 ^ 64"
    using s by (simp add: entry_bytes_def header_bytes_length HEADER_SIZE_def passed_payload_def bytes_of_def)
  show ?thesis by (rule that [OF c l _ s(1) _ s(2) k(2)]) (simp_all add: is_output_def k)
qed

theorem journal_script_exact_witness:
  "\<exists>es head. chain 1 zero_hash es head \<and> length es = 2 \<and>
     spg_eval_script_from_journal (Some (file_of es)) 8 1000 = (SPG_OK, [''hi''])"
proof -
  obtain e1 e2 head where j: "chain 1 zero_hash [e1, e2] head" "length (file_of [e1, e2]) < 2 ^ 64"
    "is_output e1" "snd e1 = bytes_of ''hi''" "\<not> is_output e2"
    by (rule passed_journal)
  have "replayable 8 1000 [e1, e2] []" using j(3-5) by (simp add: replayable_def WALK_SCRATCH_def bytes_of_def)
  then have "spg_eval_script_from_journal (Some (file_of [e1, e2])) 8 1000 = (SPG_OK, [''hi''])"
    using journal_script_exact [OF j(1,2), of 8 1000] j(3-5) by (simp add: text_of_bytes)
  then show ?thesis using j(1) by (intro exI [of _ "[e1, e2]"] exI [of _ head]) simp
qed

theorem journal_verdict_last_witness:
  "\<exists>es head. chain 1 zero_hash es head \<and> spg_journal_verdict (Some (file_of es)) = (SPG_OK, VERDICT_PASS)"
proof -
  obtain e1 e2 head where j: "chain 1 zero_hash [e1, e2] head" "length (file_of [e1, e2]) < 2 ^ 64"
    "snd e2 = passed_payload" "jh_event_kind (fst e2) = event_code EVENT_RESULT"
    "jh_event_kind (fst e1) \<noteq> event_code EVENT_RESULT"
    by (rule passed_journal)
  have len: "length passed_payload = 28" by (simp add: passed_payload_def bytes_of_def)
  have es: "entry_string e2 = ''(run_verdict (verdict pass))''"
    using j(3) len by (simp add: entry_string_def payload_string_def WALK_SCRATCH_def)
      (simp add: passed_payload_def text_of_bytes c_string_def)
  have "is_verdict e2" "\<not> is_verdict e1"
    using j(3-5) len by (simp_all add: is_verdict_def es WALK_SCRATCH_def)
  then have "spg_journal_verdict (Some (file_of [e1, e2])) = (SPG_OK, VERDICT_PASS)"
    using journal_verdict_last [OF j(1,2)] by (simp add: es)
  then show ?thesis using j(1) by blast
qed

section \<open>The shape is a function of the set of tokens\<close>

lemma set_insert_sorted:
  assumes "sorted_wrt strcmp_less ts" "length ts \<noteq> SHAPE_MAX_TOKENS \<or> x \<in> set ts"
  shows "sorted_wrt strcmp_less (set_insert x ts) \<and> set (set_insert x ts) = insert x (set ts)"
proof (cases "x \<in> set ts")
  case True
  then have "set_insert x ts = ts" using by_name.sorted_wrt_split(3) [OF assms(1), of x] by (simp add: set_insert_def Let_def)
  then show ?thesis using True assms(1) by (simp add: insert_absorb)
next
  case False
  let ?f = "takeWhile (\<lambda>t. strcmp_less t x) ts" and ?r = "dropWhile (\<lambda>t. strcmp_less t x) ts"
  have "\<not> (?r \<noteq> [] \<and> hd ?r = x)" "length ts \<noteq> SHAPE_MAX_TOKENS"
    using False assms(2) by_name.sorted_wrt_split(3) [OF assms(1), of x] by blast+
  then have i: "set_insert x ts = ?f @ x # ?r" unfolding set_insert_def Let_def by (simp only: simp_thms if_False)
  have "set ?f \<union> set ?r = set ts" by (simp only: set_append [symmetric] takeWhile_dropWhile_id)
  then have "set (?f @ x # ?r) = insert x (set ts)" by (simp only: set_append set_simps Un_insert_right)
  then show ?thesis unfolding i using by_name.sorted_wrt_insert [OF assms(1) False] by (intro conjI)
qed

lemma shape_tokens_sorted:
  "sorted_wrt strcmp_less ts \<Longrightarrow> card (set ts \<union> set xs) \<le> SHAPE_MAX_TOKENS \<Longrightarrow>
   sorted_wrt strcmp_less (fold set_insert xs ts) \<and> set (fold set_insert xs ts) = set ts \<union> set xs"
proof (induction xs arbitrary: ts)
  case (Cons x xs)
  have "card (insert x (set ts)) \<le> card (set ts \<union> set (x # xs))" by (rule card_mono) auto
  moreover have "card (insert x (set ts)) = length ts + 1" if "x \<notin> set ts"
    using that by_name.sorted_wrt_card [OF Cons.prems(1)] by simp
  ultimately have "length ts \<noteq> SHAPE_MAX_TOKENS \<or> x \<in> set ts" using Cons.prems(2) by linarith
  note s = set_insert_sorted [OF Cons.prems(1) this]
  have u: "set (set_insert x ts) \<union> set xs = set ts \<union> set (x # xs)" using s by simp
  have c: "card (set (set_insert x ts) \<union> set xs) \<le> SHAPE_MAX_TOKENS" unfolding u by (rule Cons.prems(2))
  show ?case using Cons.IH [OF conjunct1 [OF s] c] unfolding u by simp
qed simp

text \<open>
  C38: Two runs with the same set of tokens have the same shape, whatever the order and the number
  of their steps, as long as the set has at most 16 tokens; so a policy and a script over the same
  capabilities meet at one key.
\<close>

theorem shape_is_set:
  assumes "set (script_tokens replies) = set (script_tokens replies')"
    and "card (set (script_tokens replies)) \<le> SHAPE_MAX_TOKENS"
  shows "spg_shape_from_script replies cap = spg_shape_from_script replies' cap"
proof -
  have "sorted_wrt strcmp_less []" by simp
  from shape_tokens_sorted [OF this, of "script_tokens replies"] shape_tokens_sorted [OF this, of "script_tokens replies'"]
  have "fold set_insert (script_tokens replies) [] = fold set_insert (script_tokens replies') []"
    using assms by (intro by_name.sorted_wrt_unique) auto
  then show ?thesis by (simp add: spg_shape_from_script_def spg_shape_from_script_mode_def)
qed

text \<open>Beyond 16 tokens the shape depends on which came first.\<close>

lemma shape_drops_late: "length ts = SHAPE_MAX_TOKENS \<Longrightarrow> set_insert x ts = ts"
  by (simp add: set_insert_def Let_def)

text \<open>
  A reply that is not a valid recommendation is not skipped: the parser reports a rejection with
  a good status and a zeroed record, whose kind is the shell's, so every rejected reply adds the
  token of a shell action to the shape.
\<close>

theorem rejected_reply_counts_as_shell:
  assumes "spg_recommendation_parse reply 256 256 = (SPG_OK, rec, err)" "rm_state rec \<noteq> RECOMMENDATION_VALID"
  shows "reply_token reply = Some ''local_shell''"
proof -
  obtain reason where "rec = rejected reason"
    using recommendation_rejected_is_empty [where input = reply and tcap = 256 and ncap = 256] assms by auto
  then show ?thesis using assms(1)
    by (simp add: reply_token_def rejected_def SHAPE_TOKEN_MAX_def mk_span_def)
qed

lemma prose_parse: "spg_recommendation_parse ''done'' 256 256 =
  (SPG_OK, rejected REJECT_SCHEMA, \<lparr>re_status = SPG_E_SCHEMA, re_reject_reason = REJECT_SCHEMA, re_node_index = 0, re_offset = 0\<rparr>)"
  by code_simp

theorem rejected_reply_counts_as_shell_witness: "reply_token ''done'' = Some ''local_shell''"
  using rejected_reply_counts_as_shell [OF prose_parse] by (simp add: rejected_def)

theorem shape_is_set_witness:
  "spg_shape_from_script [''done'', ''well''] 64 = spg_shape_from_script [''done''] 64"
proof -
  have "script_tokens [''done'', ''well''] = [''local_shell'', ''local_shell'']" "script_tokens [''done''] = [''local_shell'']"
    by (code_simp, code_simp)
  then show ?thesis using shape_is_set [of "[''done'', ''well'']" "[''done'']" 64] by (simp add: SHAPE_MAX_TOKENS_def)
qed

end
