(* ===== verification/Improve.thy ===== *)
theory Improve
  imports Eval MemStore
begin

text \<open>
  The learning decisions of \<open>src/improve/improve.c\<close> and \<open>improve.h\<close>: distilling a lesson from a
  failed case, from a missed criterion, or a skill from a success; the acceptance gate and its
  commit; and the mutation and selection of a directive. Texts are C strings; \<open>snprintf\<close> into a
  buffer keeps what fits before the terminator.
\<close>

definition LESSON_BODY_MAX :: nat where "LESSON_BODY_MAX = 1024"

record lesson =
  le_slug :: string
  le_description :: string
  le_body :: string

definition lesson :: "string \<Rightarrow> string \<Rightarrow> string \<Rightarrow> lesson" where
  "lesson slug description body =
     \<lparr>le_slug = take MEM_SLUG_MAX slug, le_description = take MEM_DESC_MAX description,
      le_body = take LESSON_BODY_MAX body\<rparr>"

section \<open>Lessons of a failed case\<close>

fun reject_phrase :: "reject_reason \<Rightarrow> string" where
  "reject_phrase REJECT_EMPTY = ''the reply was empty''"
| "reject_phrase REJECT_SYNTAX = ''the s-expression did not parse''"
| "reject_phrase REJECT_SCHEMA = ''the form did not match the (recommend ...) schema''"
| "reject_phrase REJECT_UNKNOWN_KIND = ''the action kind was not recognised''"
| "reject_phrase REJECT_MISSING_FIELD = ''a required field was missing''"
| "reject_phrase REJECT_DUPLICATE_FIELD = ''a field was given twice''"
| "reject_phrase REJECT_WRONG_VALUE = ''a field had an invalid value''"
| "reject_phrase REJECT_KIND_MISMATCH = ''the fields did not match the action kind''"
| "reject_phrase REJECT_NONE = ''no specific reason was recorded''"

fun deny_phrase :: "deny_reason \<Rightarrow> string" where
  "deny_phrase DENY_UNKNOWN_CAPABILITY = ''the capability is not in the policy''"
| "deny_phrase DENY_DISABLED_CAPABILITY = ''the capability is disabled''"
| "deny_phrase DENY_KIND_MISMATCH = ''the capability does not match the action kind''"
| "deny_phrase DENY_NETWORK = ''network use is not permitted''"
| "deny_phrase DENY_CAPABILITY_BUDGET = ''the capability budget is exhausted''"
| "deny_phrase DENY_GLOBAL_BUDGET = ''the global budget is exhausted''"
| "deny_phrase DENY_INVALID_REQUEST = ''the request was malformed''"
| "deny_phrase _ = ''no specific reason was recorded''"

definition dec :: "nat \<Rightarrow> string" where "dec n = nat_dec_loop n []"

definition spg_reflect_case :: "eval_case_result \<Rightarrow> lesson option" where
  "spg_reflect_case res =
     (if ec_outcome res = EVAL_PASS then None
      else (case ec_termination res of
        LOOP_REJECTED \<Rightarrow>
          (let why = reject_phrase (ec_reject_reason res)
           in Some (lesson ''lesson-rejected''
             (''Emit exactly one valid recommendation s-expression (last reply rejected: '' @ why @ '').'')
             (''A previous reply was rejected as malformed: '' @ why @ '' (after '' @ dec (ec_repairs_used res) @
              '' self-repair attempt(s)). Reply with exactly one valid (recommend (kind <action>) (capability '' @
              [ch_quote] @ ''...'' @ [ch_quote] @ '') (cost 1) (uses_network false) (confidence_bp <n>) (reason '' @
              [ch_quote] @ ''...'' @ [ch_quote] @ '')) form, or (recommend (kind finish) (reason '' @
              [ch_quote] @ ''...'' @ [ch_quote] @
              '')) when the task is done. Output only the s-expression and nothing else.'')))
      | LOOP_DENIED \<Rightarrow>
          (let why = deny_phrase (ec_deny_reason res)
           in Some (lesson ''lesson-denied''
             (''Recommend only actions whose capability the policy allows (last denial: '' @ why @ '').'')
             (''A previous action was denied by policy: '' @ why @
              ''. Recommend only actions whose capability is enabled and matches the action kind; when '' @
              ''unsure, prefer a simulator or a finish action over one that gets denied.'')))
      | LOOP_BUDGET \<Rightarrow>
          Some (lesson ''lesson-budget''
             (''Finish before the step or token budget runs out (spent '' @ dec (ec_steps_taken res) @ '' step(s)).'')
             (''A previous run exhausted its budget after '' @ dec (ec_steps_taken res) @
              '' step(s) without finishing. Take the most direct path to the goal and emit '' @
              ''(recommend (kind finish) ...) as soon as the task is complete, '' @
              ''instead of spending steps on redundant actions.''))
      | LOOP_MAX_STEPS \<Rightarrow>
          Some (lesson ''lesson-max-steps''
             (''Reach the finish action in fewer steps (hit the cap after '' @ dec (ec_steps_taken res) @ '' step(s)).'')
             (''A previous run hit the step cap after '' @ dec (ec_steps_taken res) @
              '' step(s) without finishing. Plan the shortest sequence of actions and finish '' @
              ''promptly; do not repeat an action that already succeeded.''))
      | LOOP_ERROR \<Rightarrow>
          Some (lesson ''lesson-error''
             ''Re-check an action's required fields to avoid run errors.''
             (''A previous run ended with an internal error after '' @ dec (ec_steps_taken res) @
              '' step(s). Verify each action's required fields and prefer a simpler, well-formed action.''))
      | LOOP_FINISHED \<Rightarrow> None))"

section \<open>Lessons of an outcome, and skills\<close>

definition lower :: "char \<Rightarrow> char" where
  "lower c = (if 65 \<le> code_of c \<and> code_of c \<le> 90 then char_of (code_of c + 32) else c)"

definition is_slug_alnum :: "char \<Rightarrow> bool" where
  "is_slug_alnum c \<longleftrightarrow> (97 \<le> code_of c \<and> code_of c \<le> 122) \<or> (48 \<le> code_of c \<and> code_of c \<le> 57)"

fun slugify_loop :: "nat \<Rightarrow> string \<Rightarrow> bool \<Rightarrow> string \<Rightarrow> string" where
  "slugify_loop cap dst pending [] = dst"
| "slugify_loop cap dst pending (p # ps) =
     (if \<not> length dst + 1 < cap then dst
      else (let c = lower p
            in if is_slug_alnum c
               then (let dash = (if pending \<and> dst \<noteq> [] \<and> length dst + 1 < cap then dst @ ''-'' else dst)
                     in slugify_loop cap (if length dash + 1 < cap then dash @ [c] else dash) False ps)
               else slugify_loop cap dst (dst \<noteq> []) ps))"

definition slugify_into :: "nat \<Rightarrow> string \<Rightarrow> string" where
  "slugify_into cap token = slugify_loop cap [] False token"

definition shape_slug :: "string \<Rightarrow> string \<Rightarrow> string" where
  "shape_slug prefix token =
     (let s = slugify_into (MEM_SLUG_MAX + 1 - length prefix) token in prefix @ (if s = [] then ''x'' else s))"

definition spg_reflect_outcome :: "string \<Rightarrow> string \<Rightarrow> string \<Rightarrow> lesson option" where
  "spg_reflect_outcome shape expected_substring observation =
     (if shape = [] \<or> expected_substring = [] then None
      else Some (lesson (shape_slug ''lesson-outcome-'' shape)
        (''Finish only when the output shows the expected result; last run missed '' @ [ch_quote] @
         take 80 expected_substring @ [ch_quote] @ ''.'')
        (''A previous run finished but its output did not meet the success '' @
         ''criterion. Expected the observation to contain: '' @ [ch_quote] @ take 200 expected_substring @ [ch_quote] @
         ''. The observation was: '' @ [ch_quote] @
         take 400 (if observation \<noteq> [] then observation else ''(empty)'') @ [ch_quote] @
         ''. Before emitting (recommend (kind finish) ...), make sure the required result is actually present.'')))"

definition spg_reflect_skill :: "string \<Rightarrow> string \<Rightarrow> lesson option" where
  "spg_reflect_skill shape procedure_summary =
     (if shape = [] \<or> procedure_summary = [] then None
      else Some (lesson (shape_slug ''skill-'' shape)
        (''For a '' @ take 60 shape @ '' task, a working approach: '' @ take 120 procedure_summary @ ''.'')
        (''A task of shape '' @ [ch_quote] @ take 120 shape @ [ch_quote] @
         '' was completed successfully with this action sequence: '' @ take 400 procedure_summary @
         ''. Follow the same shape: emit each action as '' @
         ''one valid (recommend ...) form and finish once the goal is met.'')))"

section \<open>The gate and its commit\<close>

definition spg_improve_accept :: "nat \<Rightarrow> nat \<Rightarrow> bool" where
  "spg_improve_accept baseline_passed candidate_passed \<longleftrightarrow> candidate_passed \<ge> baseline_passed"

definition spg_improve_gate :: "bool \<Rightarrow> bool \<Rightarrow> bool \<Rightarrow> bool \<Rightarrow> bool" where
  "spg_improve_gate suite_ok guards_ok prove_benefit case_now_passes \<longleftrightarrow>
     suite_ok \<and> guards_ok \<and> (\<not> prove_benefit \<or> case_now_passes)"

definition spg_improve_commit ::
  "readdir \<Rightarrow> file_io \<Rightarrow> lesson \<Rightarrow> bool \<Rightarrow> mem_store \<Rightarrow> spg_status \<times> bool \<times> mem_store" where
  "spg_improve_commit rd io le accepted store =
     (if accepted then (SPG_OK, True, store)
      else (case spg_mem_delete_reserved rd io (le_slug le) store of
              (s, store') \<Rightarrow> (if s = SPG_OK \<or> s = SPG_E_NOT_FOUND then SPG_OK else SPG_E_IO, False, store')))"

section \<open>Mutating and selecting a directive\<close>

datatype gepa_op = GEPA_OP_IDENTITY | GEPA_OP_TRUNCATE | GEPA_OP_TIGHTEN | GEPA_OP_CUE_FIRST | GEPA_OP_COUNT

definition copy_bounded :: "nat \<Rightarrow> string \<Rightarrow> string" where
  "copy_bounded cap src = (if cap = 0 then [] else if length src + 1 > cap then take (cap - 1) src else src)"

text \<open>\<open>strchr\<close> and \<open>strrchr\<close>, as positions.\<close>

definition strchr :: "string \<Rightarrow> char \<Rightarrow> nat option" where
  "strchr s c = (let i = length (takeWhile (\<lambda>x. x \<noteq> c) s) in if i < length s then Some i else None)"

definition strrchr :: "string \<Rightarrow> char \<Rightarrow> nat option" where
  "strrchr s c = (let i = length (takeWhile (\<lambda>x. x \<noteq> c) (rev s)) in if i < length s then Some (length s - 1 - i) else None)"

definition trimmed :: "string \<Rightarrow> string" where
  "trimmed s = rev (dropWhile (\<lambda>c. c = CHR '' '') (rev s))"

definition fitting :: "nat \<Rightarrow> string \<Rightarrow> string" where
  "fitting cap s = (if length s + 1 > cap then [] else copy_bounded cap s)"

text \<open>The variant; the empty text is the return of 0. The cue of a missing pointer is empty.\<close>

definition spg_gepa_mutate :: "gepa_op \<Rightarrow> string \<Rightarrow> string \<Rightarrow> nat \<Rightarrow> string" where
  "spg_gepa_mutate op seed cue cap =
     (if cap = 0 \<or> seed = [] then []
      else (case op of
        GEPA_OP_IDENTITY \<Rightarrow> fitting cap seed
      | GEPA_OP_TRUNCATE \<Rightarrow>
          (case strchr seed (CHR ''.'') of
             None \<Rightarrow> []
           | Some dot \<Rightarrow> if dot + 1 \<ge> length seed then [] else fitting cap (take (dot + 1) seed))
      | GEPA_OP_TIGHTEN \<Rightarrow>
          (case strchr seed (CHR ''('') of
             None \<Rightarrow> []
           | Some opn \<Rightarrow>
               if opn = 0 then []
               else (case strrchr seed (CHR '')'') of
                 None \<Rightarrow> []
               | Some cls \<Rightarrow>
                   if cls < opn then []
                   else (let pre = trimmed (take opn seed); tmp = pre @ drop (cls + 1) seed
                         in if pre = [] then []
                            else if length tmp + 1 > MEM_DESC_MAX * 2 + 2 then []
                            else if tmp = seed then []
                            else fitting cap tmp)))
      | GEPA_OP_CUE_FIRST \<Rightarrow>
          (if cue = [] then []
           else (let tmp = cue @ ''. '' @ seed
                 in if length tmp \<ge> MEM_DESC_MAX * 2 + 4 \<or> tmp = seed then [] else fitting cap tmp))
      | GEPA_OP_COUNT \<Rightarrow> []))"

definition spg_gepa_select :: "nat list \<Rightarrow> nat" where
  "spg_gepa_select scores =
     fold (\<lambda>i best. if scores ! i > scores ! best then i else best) [1..<length scores] 0"

end
