(* ===== verification/ImproveProps.thy ===== *)
theory ImproveProps
  imports Improve MemProps
begin

text \<open>
  What the learning decisions promise: a distilled lesson can be stored, is what the model reads
  afterwards and cannot be overwritten or deleted by the model; a mutated directive never exceeds
  its budget; selection prefers the incumbent; and a rejected lesson leaves the store.
\<close>

section \<open>Slugs\<close>

lemma slugify_loop_slug:
  assumes "list_all slug_char dst" "length dst < cap"
  shows "list_all slug_char (slugify_loop cap dst pending token) \<and> length (slugify_loop cap dst pending token) < cap"
  using assms
proof (induction token arbitrary: dst pending)
  case (Cons p ps)
  have "slug_char (lower p)" if "is_slug_alnum (lower p)" using that by (auto simp: slug_char_def is_slug_alnum_def)
  moreover have "slug_char (CHR ''-'')" by (simp add: slug_char_def)
  ultimately show ?case using Cons by (simp add: Let_def)
qed simp

lemma shape_slug_valid:
  assumes "list_all slug_char prefix" "prefix \<noteq> []" "length prefix < MEM_SLUG_MAX"
  shows "spg_mem_slug_valid (shape_slug prefix token)" "length (shape_slug prefix token) \<le> MEM_SLUG_MAX"
proof -
  let ?s = "slugify_into (MEM_SLUG_MAX + 1 - length prefix) token"
  have s: "list_all slug_char ?s" "length ?s < MEM_SLUG_MAX + 1 - length prefix"
    using slugify_loop_slug [of "[]" "MEM_SLUG_MAX + 1 - length prefix" False token] assms(3)
    by (simp_all add: slugify_into_def)
  have x: "slug_char (CHR ''x'')" by (simp add: slug_char_def)
  show l: "length (shape_slug prefix token) \<le> MEM_SLUG_MAX"
    using s(2) assms(3) unfolding shape_slug_def Let_def by (cases "?s = []") simp_all
  have "list_all slug_char (shape_slug prefix token)" using s(1) assms(1) x by (simp add: shape_slug_def Let_def)
  moreover have "1 \<le> length (shape_slug prefix token)" using assms(2) by (cases prefix) (simp_all add: shape_slug_def Let_def)
  ultimately show "spg_mem_slug_valid (shape_slug prefix token)" using l by (simp add: spg_mem_slug_valid_def)
qed

section \<open>Lessons that can be stored\<close>

definition storable :: "lesson \<Rightarrow> bool" where
  "storable l \<longleftrightarrow> spg_mem_slug_valid (le_slug l) \<and> spg_mem_slug_reserved (le_slug l) \<and>
     le_description l \<noteq> [] \<and> length (le_description l) \<le> MEM_DESC_MAX \<and>
     set (le_description l) \<inter> {ch_nl, ch_nul} = {} \<and> length (le_body l) \<le> LESSON_BODY_MAX"

definition one_line :: "string \<Rightarrow> bool" where "one_line s \<longleftrightarrow> set s \<inter> {ch_nl, ch_nul} = {}"

lemma one_line_append [simp]: "one_line (xs @ ys) \<longleftrightarrow> one_line xs \<and> one_line ys"
  by (auto simp: one_line_def)

lemma one_line_Cons [simp]: "one_line (x # xs) \<longleftrightarrow> x \<noteq> ch_nl \<and> x \<noteq> ch_nul \<and> one_line xs"
  by (auto simp: one_line_def)

lemma one_line_Nil [simp]: "one_line []"
  by (simp add: one_line_def)

lemma one_line_take: "one_line xs \<Longrightarrow> one_line (take n xs)"
  by (auto simp: one_line_def dest: in_set_takeD)

lemma one_line_dec [simp]: "one_line (dec n)"
  using nat_dec_digits [of n] by (auto simp: dec_def one_line_def list_all_iff is_digit_def)

lemma one_line_reject [simp]: "one_line (reject_phrase r)"
  by (cases r) simp_all

lemma one_line_deny [simp]: "one_line (deny_phrase d)"
  by (cases d) simp_all

lemma storable_lesson:
  assumes "spg_mem_slug_valid slug" "length slug \<le> MEM_SLUG_MAX" "spg_mem_slug_reserved slug" "d \<noteq> []" "one_line d"
  shows "storable (lesson slug d b)"
proof -
  have "take MEM_DESC_MAX d \<noteq> []" using assms(4) by (simp add: MEM_DESC_MAX_def)
  then show ?thesis
    using assms one_line_take [OF assms(5), of MEM_DESC_MAX] by (simp add: storable_def lesson_def one_line_def)
qed

lemma fixed_slugs: "s \<in> {''lesson-rejected'', ''lesson-denied'', ''lesson-budget'', ''lesson-max-steps'', ''lesson-error''} \<Longrightarrow>
  spg_mem_slug_valid s \<and> length s \<le> MEM_SLUG_MAX \<and> spg_mem_slug_reserved s"
  by (auto simp: spg_mem_slug_valid_def slug_char_def MEM_SLUG_MAX_def spg_mem_slug_reserved_def reserved_prefixes_def)

lemma reflect_case_storable:
  assumes "spg_reflect_case res = Some l"
  shows "storable l"
proof -
  have k: "storable (lesson s d b)"
    if "s \<in> {''lesson-rejected'', ''lesson-denied'', ''lesson-budget'', ''lesson-max-steps'', ''lesson-error''}"
      "d \<noteq> []" "one_line d" for s d b
    using storable_lesson [of s d b] fixed_slugs [OF that(1)] that by blast
  show ?thesis using assms
    by (cases "ec_termination res") (auto simp: spg_reflect_case_def Let_def split: if_splits intro!: k)
qed

lemma shape_slug_reserved:
  "spg_mem_slug_reserved (shape_slug ''lesson-outcome-'' token)" "spg_mem_slug_reserved (shape_slug ''skill-'' token)"
  by (simp_all add: spg_mem_slug_reserved_def reserved_prefixes_def shape_slug_def Let_def)

lemma shape_slugs:
  "spg_mem_slug_valid (shape_slug ''lesson-outcome-'' token)" "length (shape_slug ''lesson-outcome-'' token) \<le> MEM_SLUG_MAX"
  "spg_mem_slug_valid (shape_slug ''skill-'' token)" "length (shape_slug ''skill-'' token) \<le> MEM_SLUG_MAX"
  by (rule shape_slug_valid; simp add: slug_char_def MEM_SLUG_MAX_def)+

lemma reflect_outcome_storable:
  "spg_reflect_outcome shape expected seen = Some l \<Longrightarrow> one_line (take 80 expected) \<Longrightarrow> storable l"
  by (auto simp: spg_reflect_outcome_def split: if_splits
      intro!: storable_lesson [OF shape_slugs(1,2) shape_slug_reserved(1)])

lemma reflect_skill_storable:
  "spg_reflect_skill shape summary = Some l \<Longrightarrow> one_line shape \<Longrightarrow> one_line summary \<Longrightarrow> storable l"
  by (auto simp: spg_reflect_skill_def one_line_take split: if_splits
      intro!: storable_lesson [OF shape_slugs(3,4) shape_slug_reserved(2)])

text \<open>A lesson that quotes an expected text with a line break is refused by the store.\<close>

lemma line_break_not_storable:
  assumes "spg_reflect_outcome shape expected seen = Some l" "ch_nl \<in> set (take 80 expected)"
  shows "fst (spg_mem_save_reserved rd io (le_slug l) (le_description l) (le_body l) store) = SPG_E_INVALID_ARG"
proof -
  have "ch_nl \<in> set (le_description l)" using assms
    by (auto simp: spg_reflect_outcome_def lesson_def MEM_DESC_MAX_def split: if_splits)
  then show ?thesis by (simp add: spg_mem_save_reserved_def)
qed


definition working_io :: "file_io \<Rightarrow> bool" where
  "working_io io \<longleftrightarrow> fi_opened io \<and> fi_written io \<and> fi_renamed io"

definition room_for :: "readdir \<Rightarrow> mem_store \<Rightarrow> string \<Rightarrow> bool" where
  "room_for rd store slug \<longleftrightarrow> ms_dir_length store + MEM_SLUG_MAX + 8 < MEM_PATH_MAX \<and>
     (file_exists store (slug @ ''.md'') \<or> length (collect_by_recency rd store MEM_MAX_FILES) < MEM_MAX_FILES)"

lemma storable_saved:
  assumes "storable l" "working_io io" "room_for rd store (le_slug l)"
  obtains store' where
    "spg_mem_save_reserved rd io (le_slug l) (le_description l) (le_body l) store = (SPG_OK, store')"
    "spg_mem_directive store' (le_slug l) 0 (MEM_DESC_MAX + 1) = le_description l"
proof -
  have b: "length (le_slug l) \<le> MEM_SLUG_MAX" using assms(1) by (simp add: storable_def spg_mem_slug_valid_def)
  have "\<exists>store'. spg_mem_save_reserved rd io (le_slug l) (le_description l) (le_body l) store = (SPG_OK, store')"
    using assms b unfolding spg_mem_save_reserved_def
    by (auto simp: storable_def working_io_def room_for_def build_path_def Let_def MEM_BODY_MAX_def LESSON_BODY_MAX_def)
  then obtain store' where s:
    "spg_mem_save_reserved rd io (le_slug l) (le_description l) (le_body l) store = (SPG_OK, store')" ..
  show ?thesis
    by (rule that [OF s]) (use save_reserved_reads [OF s] assms(1) in \<open>simp add: storable_def\<close>)
qed

text \<open>
  C39: Every failed run that the harness distils yields a lesson the store takes: with working files
  and room it is saved, the line read back as its directive is exactly its description, and what the
  model asks for afterwards can neither overwrite nor delete it.
\<close>

theorem reflected_lesson_kept:
  assumes "spg_reflect_case res = Some l" "working_io io" "room_for rd store (le_slug l)"
  shows "\<exists>store'. spg_mem_save_reserved rd io (le_slug l) (le_description l) (le_body l) store = (SPG_OK, store') \<and>
    spg_mem_directive store' (le_slug l) 0 (MEM_DESC_MAX + 1) = le_description l \<and>
    spg_mem_save rd io' (le_slug l) d b store' = (SPG_E_POLICY_DENIED, store') \<and>
    spg_mem_delete rd io' (le_slug l) store' = (SPG_E_POLICY_DENIED, store')"
proof -
  note s = reflect_case_storable [OF assms(1)]
  have "spg_mem_slug_reserved (le_slug l)" using s by (simp add: storable_def)
  then show ?thesis
    using storable_saved [OF s assms(2,3)] by (metis spg_mem_save_def spg_mem_delete_def)
qed

section \<open>The commit\<close>

lemma delete_reserved_gone:
  assumes "spg_mem_delete_reserved rd io slug store = (s, store')" "s = SPG_OK \<or> s = SPG_E_NOT_FOUND"
  shows "map_of (ms_files store') (slug @ ''.md'') = None"
proof (cases "s = SPG_OK")
  case True
  then have v: "spg_mem_slug_valid slug" using assms(1) by (auto simp: spg_mem_delete_reserved_def split: if_splits)
  note ne = md_index [of slug] md_not_index_tmp [of slug] valid_not_index [OF v]
  show ?thesis using assms(1) True ne
    by (auto simp: spg_mem_delete_reserved_def regenerate_index_def frame delete_conv' dest!: build_path_Some
        split: if_splits option.splits)
next
  case False
  then show ?thesis using assms
    by (auto simp: spg_mem_delete_reserved_def file_exists_def dest!: build_path_Some split: if_splits option.splits)
qed

text \<open>
  C40: An accepted lesson stays as it was saved. A rejected one is gone once the commit succeeds,
  while every other memory is as it was; so what an earlier run had accepted under the same slug,
  and the tentative save replaced, is gone as well.
\<close>

theorem improve_commit_exact:
  assumes "spg_improve_commit rd io l accepted store = (SPG_OK, kept, store')"
  shows "kept = accepted \<and> (accepted \<longrightarrow> store' = store) \<and>
    (\<not> accepted \<longrightarrow> map_of (ms_files store') (le_slug l @ ''.md'') = None \<and>
      (\<forall>r. spg_mem_slug_valid r \<and> r \<noteq> le_slug l \<longrightarrow>
         map_of (ms_files store') (r @ ''.md'') = map_of (ms_files store) (r @ ''.md'')))"
proof (cases accepted)
  case True
  then show ?thesis using assms by (simp add: spg_improve_commit_def)
next
  case False
  then obtain s where s: "spg_mem_delete_reserved rd io (le_slug l) store = (s, store')" "s = SPG_OK \<or> s = SPG_E_NOT_FOUND" "\<not> kept"
    using assms by (auto simp: spg_improve_commit_def split: prod.splits if_splits)
  have "map_of (ms_files store') (r @ ''.md'') = map_of (ms_files store) (r @ ''.md'')"
    if "spg_mem_slug_valid r" "r \<noteq> le_slug l" for r
    using delete_reserved_frame [of r "le_slug l" rd io store] valid_not_index that s(1) by simp
  then show ?thesis using delete_reserved_gone [OF s(1,2)] s(3) False by blast
qed

section \<open>Directives\<close>

lemma fitting_eq: "fitting cap s = (if length s < cap then s else [])"
  by (simp add: fitting_def copy_bounded_def)

lemma strchr_bound: "strchr s c = Some i \<Longrightarrow> i < length s \<and> s ! i = c"
  using nth_length_takeWhile [of "\<lambda>x. x \<noteq> c" s] by (auto simp: strchr_def Let_def split: if_splits)

lemma strrchr_bound: "strrchr s c = Some i \<Longrightarrow> i < length s"
  by (auto simp: strrchr_def Let_def split: if_splits)

lemma trimmed_prefix: "\<exists>sp. s = trimmed s @ sp \<and> set sp \<subseteq> {CHR '' ''}"
proof (intro exI conjI)
  show "s = trimmed s @ rev (takeWhile (\<lambda>c. c = CHR '' '') (rev s))"
    unfolding trimmed_def rev_append [symmetric] takeWhile_dropWhile_id by simp
  show "set (rev (takeWhile (\<lambda>c. c = CHR '' '') (rev s))) \<subseteq> {CHR '' ''}" by (auto dest: set_takeWhileD)
qed

lemma trimmed_length: "length (trimmed s) \<le> length s"
  using length_dropWhile_le [of "\<lambda>c. c = CHR '' ''" "rev s"] by (simp add: trimmed_def)

text \<open>
  A mutated directive fits the budget with its terminator, is made only of text of the seed and
  the cue, and is a real change: cut after its first full stop, shorter by at least the aside, or
  the cue in front of the seed; only the identity returns the seed.
\<close>

theorem gepa_mutation_bounded:
  assumes "spg_gepa_mutate op seed cue cap = out" "out \<noteq> []"
  shows "length out < cap \<and>
    (case op of
       GEPA_OP_IDENTITY \<Rightarrow> out = seed
     | GEPA_OP_TRUNCATE \<Rightarrow> (\<exists>rest. seed = out @ rest \<and> rest \<noteq> [] \<and> last out = CHR ''.'')
     | GEPA_OP_TIGHTEN \<Rightarrow> length out + 1 < length seed + 1 \<and> set out \<subseteq> set seed
     | GEPA_OP_CUE_FIRST \<Rightarrow> out = cue @ ''. '' @ seed \<and> cue \<noteq> []
     | GEPA_OP_COUNT \<Rightarrow> False)"
proof (cases op)
  case GEPA_OP_TRUNCATE
  then obtain i where i: "strchr seed (CHR ''.'') = Some i" "i + 1 < length seed" "out = take (i + 1) seed" "length out < cap"
    using assms by (auto simp: spg_gepa_mutate_def fitting_eq split: if_splits option.splits)
  then have "seed = out @ drop (i + 1) seed \<and> drop (i + 1) seed \<noteq> [] \<and> last out = CHR ''.''"
    using strchr_bound [OF i(1)] id_take_nth_drop [of i seed] by (simp add: take_Suc_conv_app_nth)
  then show ?thesis using GEPA_OP_TRUNCATE i(4) by auto
next
  case GEPA_OP_TIGHTEN
  then obtain i j where i: "strchr seed (CHR ''('') = Some i" "strrchr seed (CHR '')'') = Some j" "i \<le> j"
    "out = trimmed (take i seed) @ drop (j + 1) seed" "length out < cap"
    using assms by (auto simp: spg_gepa_mutate_def fitting_eq Let_def split: if_splits option.splits)
  have "length out < length seed"
    using trimmed_length [of "take i seed"] i strrchr_bound [OF i(2)] strchr_bound [OF i(1)] by simp
  moreover have "set (trimmed (take i seed)) \<subseteq> set seed"
    by (auto simp: trimmed_def dest!: set_dropWhileD in_set_takeD)
  then have "set out \<subseteq> set seed" using i(4) set_drop_subset [of "j + 1" seed] by auto
  ultimately show ?thesis using GEPA_OP_TIGHTEN i(5) by simp
qed (use assms in \<open>auto simp: spg_gepa_mutate_def fitting_eq Let_def split: if_splits\<close>)

lemma select_step:
  fixes scores :: "nat list"
  shows "n \<le> length scores \<Longrightarrow> n \<noteq> 0 \<Longrightarrow>
   (let b = fold (\<lambda>i best. if scores ! i > scores ! best then i else best) [1..<n] 0
    in b < n \<and> (\<forall>j<n. scores ! j \<le> scores ! b) \<and> (\<forall>j<b. scores ! j < scores ! b))"
proof (induction n)
  case (Suc n)
  show ?case
  proof (cases "n = 0")
    case True
    then show ?thesis by simp
  next
    case False
    then have "[1..<Suc n] = [1..<n] @ [n]" by simp
    then show ?thesis using Suc False by (auto simp: Let_def less_Suc_eq)
  qed
qed simp

text \<open>
  Selection takes the best score, and among equal ones the earliest, so a mutation replaces the
  seed only when it does strictly better.
\<close>

theorem gepa_select_first_best:
  assumes "scores \<noteq> []"
  shows "spg_gepa_select scores < length scores \<and>
    (\<forall>j<length scores. scores ! j \<le> scores ! spg_gepa_select scores) \<and>
    (\<forall>j < spg_gepa_select scores. scores ! j < scores ! spg_gepa_select scores)"
  using select_step [of "length scores" scores] assms by (simp add: spg_gepa_select_def Let_def)


section \<open>Runs of the decisions\<close>

definition denied_case :: eval_case_result where
  "denied_case = \<lparr>ec_outcome = EVAL_FAIL_TERMINATION, ec_termination = LOOP_DENIED, ec_steps_taken = 1,
     ec_actions_executed = 0, ec_repairs_used = 0, ec_status = SPG_OK, ec_reject_reason = REJECT_NONE,
     ec_deny_reason = DENY_NETWORK, ec_tokens_consumed = 5\<rparr>"

definition denied_lesson :: lesson where
  "denied_lesson = the (spg_reflect_case denied_case)"

lemma denied_reflected: "spg_reflect_case denied_case = Some denied_lesson" "le_slug denied_lesson = ''lesson-denied''"
  by (simp_all add: denied_lesson_def denied_case_def spg_reflect_case_def Let_def lesson_def MEM_SLUG_MAX_def)

definition empty_store :: mem_store where
  "empty_store = \<lparr>ms_dir_length = 6, ms_files = [], ms_index_cache = [], ms_index_truncated = False, ms_index_valid = False\<rparr>"

theorem reflected_lesson_kept_witness:
  "\<exists>store'. spg_mem_save_reserved (map fst) good_io ''lesson-denied'' (le_description denied_lesson)
       (le_body denied_lesson) empty_store = (SPG_OK, store') \<and>
     spg_mem_delete (map fst) good_io ''lesson-denied'' store' = (SPG_E_POLICY_DENIED, store')"
proof -
  have "working_io good_io" by (simp add: working_io_def good_io_def)
  moreover have "room_for (map fst) empty_store (le_slug denied_lesson)"
    by (simp add: room_for_def empty_store_def collect_by_recency_def MEM_SLUG_MAX_def MEM_PATH_MAX_def MEM_MAX_FILES_def)
  ultimately show ?thesis
    using reflected_lesson_kept [OF denied_reflected(1)] denied_reflected(2) by metis
qed

text \<open>The store holds an accepted lesson of the same slug; its replacement is rejected.\<close>

theorem improve_commit_exact_witness:
  "map_of (ms_files (snd (snd (spg_improve_commit (map fst) good_io
     \<lparr>le_slug = ''lesson-a'', le_description = ''z'', le_body = ''z''\<rparr> False small_store)))) ''lesson-a.md'' = None"
proof -
  let ?l = "\<lparr>le_slug = ''lesson-a'', le_description = ''z'', le_body = ''z''\<rparr>"
  have "fst (spg_improve_commit (map fst) good_io ?l False small_store) = SPG_OK"
    by (simp add: spg_improve_commit_def spg_mem_delete_reserved_def spg_mem_slug_valid_def slug_char_def MEM_SLUG_MAX_def
        build_path_def MEM_PATH_MAX_def small_store_def file_exists_def good_io_def)
  then obtain kept store' where c: "spg_improve_commit (map fst) good_io ?l False small_store = (SPG_OK, kept, store')"
    by (metis prod.collapse)
  show ?thesis using improve_commit_exact [OF c] c by simp
qed

theorem gepa_mutation_bounded_witness:
  "spg_gepa_mutate GEPA_OP_TIGHTEN ''Stop early (last: x).'' [] 64 = ''Stop early.'' \<and> length ''Stop early.'' < (64 :: nat)"
proof -
  have "spg_gepa_mutate GEPA_OP_TIGHTEN ''Stop early (last: x).'' [] 64 = ''Stop early.''" by code_simp
  then show ?thesis using gepa_mutation_bounded [of GEPA_OP_TIGHTEN "''Stop early (last: x).''" "[]" 64 "''Stop early.''"] by simp
qed

theorem gepa_select_first_best_witness: "spg_gepa_select [3, 5, 5] = 1"
  using gepa_select_first_best [of "[3, 5, 5]"] by (simp add: spg_gepa_select_def)

text \<open>
  A slug cut at its limit can end in a dash, although the rendering is described as never doing so.
\<close>

lemma slug_may_end_in_dash: "slugify_into 4 ''ab c'' = ''ab-''"
  by (simp add: slugify_into_def Let_def lower_def is_slug_alnum_def)

end
