(* ===== verification/Pref.thy ===== *)
theory Pref
  imports ImproveProps
begin

text \<open>
  The user profile of \<open>src/memory/pref.c\<close>: preferences are memories under a reserved prefix, recorded
  only on evidence and shown to the model as one line of bounded length.
\<close>

datatype pref_evidence = PREF_EVIDENCE_ASSERTED | PREF_EVIDENCE_REPEATED | PREF_EVIDENCE_CORRECTION

fun spg_pref_should_write :: "pref_evidence \<Rightarrow> nat \<Rightarrow> bool" where
  "spg_pref_should_write PREF_EVIDENCE_ASSERTED n = False"
| "spg_pref_should_write PREF_EVIDENCE_REPEATED n = (n \<ge> 2)"
| "spg_pref_should_write PREF_EVIDENCE_CORRECTION n = (n \<ge> 1)"

fun evidence_name :: "pref_evidence \<Rightarrow> string" where
  "evidence_name PREF_EVIDENCE_ASSERTED = ''asserted''"
| "evidence_name PREF_EVIDENCE_REPEATED = ''repeated''"
| "evidence_name PREF_EVIDENCE_CORRECTION = ''correction''"

definition pref_description :: "string \<Rightarrow> string \<Rightarrow> string" where
  "pref_description pkey val = take MEM_DESC_MAX (pkey @ ''='' @ val)"

definition pref_body :: "string \<Rightarrow> string \<Rightarrow> pref_evidence \<Rightarrow> nat \<Rightarrow> string" where
  "pref_body pkey val evidence n =
     take 511 (''User preference recorded from '' @ evidence_name evidence @ '' evidence ('' @ dec n @
       '' observation(s)): '' @ pkey @ '' = '' @ val @
       ''. This shapes defaults and framing only; it never changes what the policy permits.'')"

definition pref_slug :: "string \<Rightarrow> string option" where
  "pref_slug pkey =
     (let s = slugify_into (MEM_SLUG_MAX + 1 - length ''pref-'') pkey
      in if s = [] then None else Some (''pref-'' @ s))"

text \<open>The status, the flag \<open>wrote\<close> and the store.\<close>

definition spg_pref_record ::
  "readdir \<Rightarrow> file_io \<Rightarrow> string \<Rightarrow> string \<Rightarrow> pref_evidence \<Rightarrow> nat \<Rightarrow> mem_store \<Rightarrow> spg_status \<times> bool \<times> mem_store" where
  "spg_pref_record rd io pkey val evidence n store =
     (if pkey = [] \<or> val = [] then (SPG_E_INVALID_ARG, False, store)
      else if \<not> spg_pref_should_write evidence n then (SPG_OK, False, store)
      else (case pref_slug pkey of
              None \<Rightarrow> (SPG_E_INVALID_ARG, False, store)
            | Some slug \<Rightarrow>
                (case spg_mem_save_reserved rd io slug (pref_description pkey val) (pref_body pkey val evidence n) store of
                   (s, store') \<Rightarrow> (s, s = SPG_OK, store'))))"

fun profile_loop :: "mem_store \<Rightarrow> nat \<Rightarrow> string list \<Rightarrow> string \<Rightarrow> bool \<Rightarrow> string \<times> bool" where
  "profile_loop store budget [] acc any = (acc, any)"
| "profile_loop store budget (slug # slugs) acc any =
     (if take 5 slug \<noteq> ''pref-'' then profile_loop store budget slugs acc any
      else (let line = spg_mem_directive store slug 0 (MEM_DESC_MAX + 1); sep = (if any then 2 else 0)
            in if line = [] then profile_loop store budget slugs acc any
               else if length acc + sep + length line \<ge> MEM_DESC_MAX + 1 \<or> length acc + sep + length line > budget
                 then (acc, any)
               else profile_loop store budget slugs (acc @ (if any then ''; '' else []) @ line) True))"

text \<open>What is left in the buffer; its length is the result.\<close>

definition spg_pref_render :: "readdir \<Rightarrow> mem_store \<Rightarrow> nat \<Rightarrow> nat \<Rightarrow> string" where
  "spg_pref_render rd store budget_bytes dst_cap =
     (if dst_cap = 0 then []
      else (let budget = (if budget_bytes = 0 \<or> budget_bytes > MEM_DESC_MAX then MEM_DESC_MAX else budget_bytes)
            in case spg_mem_list rd MEM_MAX_FILES store of (ls, slugs) \<Rightarrow>
              if ls \<noteq> SPG_OK \<and> ls \<noteq> SPG_E_LIMIT then []
              else (case profile_loop store budget slugs [] False of (acc, any) \<Rightarrow>
                if \<not> any then []
                else (let line = ''(profile '' @ [ch_quote] @ acc @ [ch_quote] @ '')''
                      in if length line \<ge> dst_cap then [] else line))))"

section \<open>Recording\<close>

lemma pref_slug_ok:
  assumes "pref_slug pkey = Some slug"
  shows "spg_mem_slug_valid slug \<and> spg_mem_slug_reserved slug \<and> take 5 slug = ''pref-''"
proof -
  note s = slugify_loop_slug [of "[]" "MEM_SLUG_MAX + 1 - 5" False pkey]
  have "list_all slug_char ''pref-''" by (simp add: slug_char_def)
  then show ?thesis using assms s
    by (auto simp: pref_slug_def slugify_into_def Let_def spg_mem_slug_valid_def spg_mem_slug_reserved_def
        reserved_prefixes_def MEM_SLUG_MAX_def split: if_splits)
qed

text \<open>
  A preference is written only on evidence: a store that differs after the call means the evidence
  was the user's, a correction or a choice seen twice, never the model's own assertion.
\<close>

lemma pref_written_on_evidence:
  assumes "spg_pref_record rd io pkey val evidence n store = (s, wrote, store')" "wrote \<or> store' \<noteq> store"
  shows "evidence = PREF_EVIDENCE_REPEATED \<and> n \<ge> 2 \<or> evidence = PREF_EVIDENCE_CORRECTION \<and> n \<ge> 1"
  using assms by (cases evidence) (auto simp: spg_pref_record_def split: if_splits)

lemma pref_recorded:
  assumes "spg_pref_record rd io pkey val evidence n store = (s, True, store')" "one_line pkey" "one_line val"
  shows "\<exists>slug. pref_slug pkey = Some slug \<and> s = SPG_OK \<and>
    spg_mem_directive store' slug 0 (MEM_DESC_MAX + 1) = take MEM_DESC_MAX (pkey @ ''='' @ val) \<and>
    (\<forall>r. spg_mem_slug_valid r \<and> r \<noteq> slug \<longrightarrow> map_of (ms_files store') (r @ ''.md'') = map_of (ms_files store) (r @ ''.md'')) \<and>
    fst (spg_mem_save rd io slug d b store') = SPG_E_POLICY_DENIED \<and> fst (spg_mem_delete rd io slug store') = SPG_E_POLICY_DENIED"
proof -
  obtain slug where k: "pref_slug pkey = Some slug" and s: "s = SPG_OK" and ne: "pkey \<noteq> []" and
    save: "spg_mem_save_reserved rd io slug (pref_description pkey val) (pref_body pkey val evidence n) store = (SPG_OK, store')"
    using assms(1) by (auto simp: spg_pref_record_def split: if_splits option.splits prod.splits)
  have "one_line (pref_description pkey val)"
    using assms(2,3) one_line_take [of "pkey @ ''='' @ val" MEM_DESC_MAX]
    by (simp add: pref_description_def)
  moreover have "pref_description pkey val \<noteq> []" using ne by (simp add: pref_description_def MEM_DESC_MAX_def)
  ultimately have "spg_mem_directive store' slug 0 (MEM_DESC_MAX + 1) = pref_description pkey val"
    using save_reserved_reads [OF save] by (simp add: one_line_def)
  moreover have "map_of (ms_files store') (r @ ''.md'') = map_of (ms_files store) (r @ ''.md'')"
    if "spg_mem_slug_valid r" "r \<noteq> slug" for r
    using save_reserved_frame [of r slug rd io "pref_description pkey val" "pref_body pkey val evidence n" store]
      valid_not_index that save by simp
  ultimately show ?thesis
    using k s pref_slug_ok [OF k] by (auto simp: pref_description_def spg_mem_save_def spg_mem_delete_def)
qed

section \<open>The profile line\<close>

fun joined :: "string list \<Rightarrow> string" where
  "joined [] = []"
| "joined [l] = l"
| "joined (l # ls) = l @ ''; '' @ joined ls"

definition pref_lines :: "mem_store \<Rightarrow> string list \<Rightarrow> string list" where
  "pref_lines store slugs =
     filter (\<lambda>l. l \<noteq> []) (map (\<lambda>s. spg_mem_directive store s 0 (MEM_DESC_MAX + 1)) (filter (\<lambda>s. take 5 s = ''pref-'') slugs))"

lemma joined_snoc: "joined (ls @ [l]) = joined ls @ (if ls = [] then [] else ''; '') @ l"
  by (induction ls rule: joined.induct) auto

text \<open>The loop takes the lines in order while they fit, and stops at the first that does not.\<close>

lemma profile_loop_takes:
  assumes "budget \<le> MEM_DESC_MAX" "length (joined ls) \<le> budget"
  shows "\<exists>k \<le> length (pref_lines store slugs).
    profile_loop store budget slugs (joined ls) (ls \<noteq> []) = (joined (ls @ take k (pref_lines store slugs)), ls @ take k (pref_lines store slugs) \<noteq> []) \<and>
    length (joined (ls @ take k (pref_lines store slugs))) \<le> budget \<and>
    (k < length (pref_lines store slugs) \<longrightarrow> budget < length (joined (ls @ take (Suc k) (pref_lines store slugs))))"
  using assms(2)
proof (induction slugs arbitrary: ls)
  case Nil
  then show ?case by (simp add: pref_lines_def)
next
  case (Cons slug slugs)
  let ?line = "spg_mem_directive store slug 0 (MEM_DESC_MAX + 1)"
  show ?case
  proof (cases "take 5 slug \<noteq> ''pref-'' \<or> ?line = []")
    case True
    then have "pref_lines store (slug # slugs) = pref_lines store slugs"
      "profile_loop store budget (slug # slugs) (joined ls) (ls \<noteq> []) = profile_loop store budget slugs (joined ls) (ls \<noteq> [])"
      by (auto simp: pref_lines_def)
    then show ?thesis using Cons.IH [OF Cons.prems] by simp
  next
    case False
    define l where "l = ?line"
    have p: "pref_lines store (slug # slugs) = l # pref_lines store slugs" using False by (simp add: pref_lines_def l_def)
    have step: "profile_loop store budget (slug # slugs) (joined ls) (ls \<noteq> []) =
        (if length (joined ls) + (if ls \<noteq> [] then 2 else 0) + length l > budget then (joined ls, ls \<noteq> [])
         else profile_loop store budget slugs (joined ls @ (if ls \<noteq> [] then ''; '' else []) @ l) True)"
      using False assms(1) by (auto simp: l_def Let_def)
    have j: "joined (ls @ [l]) = joined ls @ (if ls \<noteq> [] then ''; '' else []) @ l" by (simp add: joined_snoc)
    have n: "length (joined (ls @ [l])) = length (joined ls) + (if ls \<noteq> [] then 2 else 0) + length l" by (simp add: j)
    show ?thesis
    proof (cases "length (joined (ls @ [l])) \<le> budget")
      case True
      then have "profile_loop store budget (slug # slugs) (joined ls) (ls \<noteq> []) =
          profile_loop store budget slugs (joined (ls @ [l])) (ls @ [l] \<noteq> [])"
        using step n by (simp only: j [symmetric] not_le [symmetric] if_False) (simp add: n)
      moreover obtain k where k: "k \<le> length (pref_lines store slugs)"
        "profile_loop store budget slugs (joined (ls @ [l])) (ls @ [l] \<noteq> []) =
           (joined ((ls @ [l]) @ take k (pref_lines store slugs)), (ls @ [l]) @ take k (pref_lines store slugs) \<noteq> [])"
        "length (joined ((ls @ [l]) @ take k (pref_lines store slugs))) \<le> budget"
        "k < length (pref_lines store slugs) \<longrightarrow> budget < length (joined ((ls @ [l]) @ take (Suc k) (pref_lines store slugs)))"
        using Cons.IH [OF True] by blast
      ultimately show ?thesis unfolding p by (intro exI [of _ "Suc k"]) simp
    next
      case over: False
      then have "profile_loop store budget (slug # slugs) (joined ls) (ls \<noteq> []) = (joined ls, ls \<noteq> [])"
        using step n by simp
      then show ?thesis using Cons.prems over unfolding p by (intro exI [of _ 0]) simp
    qed
  qed
qed

text \<open>
  The profile is one line: the longest row of preferences, from the first slug on, that stays within the
  budget, and nothing when none fits or the buffer is too short for it.
\<close>

theorem pref_profile_bounded:
  fixes budget_bytes :: nat and rd :: readdir and store :: mem_store
  defines "budget \<equiv> (if budget_bytes = 0 \<or> budget_bytes > MEM_DESC_MAX then MEM_DESC_MAX else budget_bytes)"
    and "prefs \<equiv> pref_lines store (snd (spg_mem_list rd MEM_MAX_FILES store))"
  shows "\<exists>k \<le> length prefs. length (joined (take k prefs)) \<le> budget \<and>
    (k < length prefs \<longrightarrow> budget < length (joined (take (Suc k) prefs))) \<and>
    spg_pref_render rd store budget_bytes dst_cap =
      (if k = 0 \<or> dst_cap \<le> length (joined (take k prefs)) + 12 then []
       else ''(profile '' @ [ch_quote] @ joined (take k prefs) @ [ch_quote] @ '')'')"
proof -
  let ?slugs = "snd (spg_mem_list rd MEM_MAX_FILES store)"
  have b: "budget \<le> MEM_DESC_MAX" by (simp add: budget_def)
  obtain k where k: "k \<le> length prefs" "profile_loop store budget ?slugs [] False = (joined (take k prefs), take k prefs \<noteq> [])"
    "length (joined (take k prefs)) \<le> budget" "k < length prefs \<longrightarrow> budget < length (joined (take (Suc k) prefs))"
    using profile_loop_takes [OF b, of "[]" store ?slugs] by (auto simp: prefs_def)
  have "fst (spg_mem_list rd MEM_MAX_FILES store) \<in> {SPG_OK, SPG_E_LIMIT}" by (simp add: spg_mem_list_def Let_def)
  moreover have "take k prefs = [] \<longleftrightarrow> k = 0" using k(1) by auto
  ultimately have "spg_pref_render rd store budget_bytes dst_cap =
      (if k = 0 \<or> dst_cap \<le> length (joined (take k prefs)) + 12 then []
       else ''(profile '' @ [ch_quote] @ joined (take k prefs) @ [ch_quote] @ '')'')"
    using k(2) unfolding spg_pref_render_def Let_def budget_def [symmetric]
    by (auto split: prod.splits)
  then show ?thesis using k by blast
qed

text \<open>The values are not escaped: one with a quote closes the profile's string early.\<close>

definition quoting_store :: mem_store where
  "quoting_store = \<lparr>ms_dir_length = 6,
     ms_files = [(''pref-a.md'', memory_text ''pref-a'' (''a='' @ [ch_quote] @ ''b'' ) 1 ''y'')],
     ms_index_cache = [], ms_index_truncated = False, ms_index_valid = True\<rparr>"

lemma profile_quote_unescaped:
  "spg_pref_render (map fst) quoting_store 0 64 = ''(profile '' @ [ch_quote] @ ''a='' @ [ch_quote] @ ''b'' @ [ch_quote] @ '')''"
  by code_simp

end
