(* ===== verification/GrammarMask.thy ===== *)
theory GrammarMask
  imports Policy
begin

text \<open>
  The grammar of constrained decoding, \<open>src/model/grammar_mask.c\<close>: the masks over a fixed vocabulary
  of names, the field scaffolds of every action kind, the capability table of a policy, the selection
  over calibrated logits and the comment that carries the model's reasoning. Texts are C strings; a
  list of names stands for the array with its null entries left out, which every loop skips.
\<close>

section \<open>Masks\<close>

definition ALL_KINDS :: "action_kind list" where
  "ALL_KINDS = [ACTION_LOCAL_SHELL, ACTION_SSH_AUTH_PROBE, ACTION_SIMULATOR, ACTION_MEMORY_SAVE,
     ACTION_MEMORY_DELETE, ACTION_MEMORY_READ, ACTION_MACHINE_PAUSE, ACTION_MACHINE_RESUME,
     ACTION_DEVICE_WRITE, ACTION_FINISH]"

definition is_blank :: "char \<Rightarrow> bool" where "is_blank c \<longleftrightarrow> c = CHR '' '' \<or> c = ch_tab"

definition skip_spaces :: "string \<Rightarrow> string" where "skip_spaces s = dropWhile is_blank s"

definition spg_choice_prefix_ok :: "string list \<Rightarrow> string \<Rightarrow> string \<Rightarrow> bool" where
  "spg_choice_prefix_ok names emitted piece =
     (if length emitted + length piece \<ge> 128 then False
      else (let cmp = skip_spaces (emitted @ piece) in list_ex (\<lambda>n. take (length cmp) n = cmp) names))"

definition spg_choice_complete :: "string list \<Rightarrow> string \<Rightarrow> bool" where
  "spg_choice_complete names emitted =
     (let cmp = skip_spaces emitted in cmp \<noteq> [] \<and> list_ex (\<lambda>n. n = cmp) names)"

definition spg_kind_names :: "nat \<Rightarrow> string list" where
  "spg_kind_names cap = take cap (map spg_action_kind_to_string ALL_KINDS)"

definition spg_kind_prefix_ok :: "string \<Rightarrow> string \<Rightarrow> bool" where
  "spg_kind_prefix_ok emitted piece = spg_choice_prefix_ok (spg_kind_names (length ALL_KINDS)) emitted piece"

definition spg_kind_complete :: "string \<Rightarrow> bool" where
  "spg_kind_complete emitted = spg_choice_complete (spg_kind_names (length ALL_KINDS)) emitted"

definition spg_kind_from_text :: "string \<Rightarrow> action_kind option" where
  "spg_kind_from_text emitted = List.find (\<lambda>k. spg_action_kind_to_string k = skip_spaces emitted) ALL_KINDS"

section \<open>Scaffolds\<close>

datatype scaffold_seg =
  SCAFFOLD_LITERAL string | SCAFFOLD_STRING | SCAFFOLD_CAPABILITY | SCAFFOLD_NUMBER | SCAFFOLD_COMMAND

definition BUREAU_OK :: string where "BUREAU_OK = '') (cost 1) (uses_network false) (confidence_bp 5000) ''"
definition BUREAU_NET :: string where "BUREAU_NET = '') (cost 1) (uses_network true) (confidence_bp 5000) ''"

text \<open>A literal that opens a quoted field, that closes one and opens the next, and the last.\<close>

definition lit_open :: "string \<Rightarrow> scaffold_seg" where
  "lit_open field = SCAFFOLD_LITERAL ('') ('' @ field @ '' '' @ [ch_quote])"

definition lit_bureau :: "string \<Rightarrow> string \<Rightarrow> scaffold_seg" where
  "lit_bureau bureau field = SCAFFOLD_LITERAL ([ch_quote] @ bureau @ ''('' @ field @ '' '' @ [ch_quote])"

definition lit_next :: "string \<Rightarrow> scaffold_seg" where
  "lit_next field = SCAFFOLD_LITERAL ([ch_quote] @ '') ('' @ field @ '' '' @ [ch_quote])"

definition lit_end :: scaffold_seg where "lit_end = SCAFFOLD_LITERAL ([ch_quote] @ ''))'')"

definition SEG_FINISH :: "scaffold_seg list" where
  "SEG_FINISH = [lit_open ''reason'', SCAFFOLD_STRING, lit_end]"

definition SEG_MACHINE :: "scaffold_seg list" where
  "SEG_MACHINE = [lit_open ''capability'', SCAFFOLD_CAPABILITY, lit_bureau BUREAU_OK ''target'', SCAFFOLD_STRING,
     lit_next ''reason'', SCAFFOLD_STRING, lit_end]"

definition SEG_DEVICE :: "scaffold_seg list" where
  "SEG_DEVICE = [lit_open ''capability'', SCAFFOLD_CAPABILITY, lit_bureau BUREAU_OK ''target'', SCAFFOLD_STRING,
     SCAFFOLD_LITERAL ([ch_quote] @ '') (value ''), SCAFFOLD_NUMBER, lit_open ''reason'', SCAFFOLD_STRING, lit_end]"

definition SEG_SIMULATOR :: "scaffold_seg list" where
  "SEG_SIMULATOR = [lit_open ''capability'', SCAFFOLD_CAPABILITY, lit_bureau BUREAU_OK ''reason'', SCAFFOLD_STRING, lit_end]"

definition SEG_LOCAL_SHELL :: "scaffold_seg list" where
  "SEG_LOCAL_SHELL = [lit_open ''capability'', SCAFFOLD_CAPABILITY, lit_bureau BUREAU_OK ''command'', SCAFFOLD_COMMAND,
     lit_next ''reason'', SCAFFOLD_STRING, lit_end]"

definition SEG_SSH :: "scaffold_seg list" where
  "SEG_SSH = [lit_open ''capability'', SCAFFOLD_CAPABILITY, lit_bureau BUREAU_NET ''target'', SCAFFOLD_STRING,
     lit_next ''reason'', SCAFFOLD_STRING, lit_end]"

definition SEG_MEM_SAVE :: "scaffold_seg list" where
  "SEG_MEM_SAVE = [lit_open ''capability'', SCAFFOLD_CAPABILITY, lit_bureau BUREAU_OK ''slug'', SCAFFOLD_STRING,
     lit_next ''description'', SCAFFOLD_STRING, lit_next ''body'', SCAFFOLD_STRING, lit_next ''reason'', SCAFFOLD_STRING, lit_end]"

definition SEG_MEM_SLUG :: "scaffold_seg list" where
  "SEG_MEM_SLUG = [lit_open ''capability'', SCAFFOLD_CAPABILITY, lit_bureau BUREAU_OK ''slug'', SCAFFOLD_STRING,
     lit_next ''reason'', SCAFFOLD_STRING, lit_end]"

fun spg_scaffold_for_kind :: "action_kind \<Rightarrow> scaffold_seg list" where
  "spg_scaffold_for_kind ACTION_MACHINE_PAUSE = SEG_MACHINE"
| "spg_scaffold_for_kind ACTION_MACHINE_RESUME = SEG_MACHINE"
| "spg_scaffold_for_kind ACTION_DEVICE_WRITE = SEG_DEVICE"
| "spg_scaffold_for_kind ACTION_FINISH = SEG_FINISH"
| "spg_scaffold_for_kind ACTION_SIMULATOR = SEG_SIMULATOR"
| "spg_scaffold_for_kind ACTION_LOCAL_SHELL = SEG_LOCAL_SHELL"
| "spg_scaffold_for_kind ACTION_SSH_AUTH_PROBE = SEG_SSH"
| "spg_scaffold_for_kind ACTION_MEMORY_SAVE = SEG_MEM_SAVE"
| "spg_scaffold_for_kind ACTION_MEMORY_DELETE = SEG_MEM_SLUG"
| "spg_scaffold_for_kind ACTION_MEMORY_READ = SEG_MEM_SLUG"

section \<open>The capability table\<close>

fun kinds_for_cap :: "capability_kind \<Rightarrow> action_kind list" where
  "kinds_for_cap CAP_MACHINE_PROCESS = [ACTION_MACHINE_PAUSE, ACTION_MACHINE_RESUME]"
| "kinds_for_cap CAP_DEVICE = [ACTION_DEVICE_WRITE]"
| "kinds_for_cap CAP_LOCAL_SHELL = [ACTION_LOCAL_SHELL]"
| "kinds_for_cap CAP_SSH_AUTH_PROBE = [ACTION_SSH_AUTH_PROBE]"
| "kinds_for_cap CAP_SIMULATOR = [ACTION_SIMULATOR]"
| "kinds_for_cap CAP_MEMORY = [ACTION_MEMORY_SAVE, ACTION_MEMORY_DELETE, ACTION_MEMORY_READ]"

record model_capability =
  mc_name :: string
  mc_kind :: action_kind

fun capability_loop ::
  "string \<Rightarrow> nat \<Rightarrow> nat \<Rightarrow> capability list \<Rightarrow> nat \<Rightarrow> model_capability list \<Rightarrow> model_capability list" where
  "capability_loop txt name_buf_cap out_cap [] used out = out"
| "capability_loop txt name_buf_cap out_cap (cap # caps) used out =
     (if length out \<ge> out_cap then out
      else if \<not> cp_enabled cap \<or> \<not> spg_sexpr_span_valid (length txt) (cp_name cap) \<or> sp_length (cp_name cap) = 0
        then capability_loop txt name_buf_cap out_cap caps used out
      else if sp_length (cp_name cap) + 1 > name_buf_cap - used then out
      else (let name = span_text txt (cp_name cap);
                fresh = map (\<lambda>k. \<lparr>mc_name = name, mc_kind = k\<rparr>) (kinds_for_cap (cp_kind cap))
            in capability_loop txt name_buf_cap out_cap caps (used + sp_length (cp_name cap) + 1)
                 (out @ take (out_cap - length out) fresh)))"

definition spg_model_capabilities_from_policy ::
  "policy_config \<Rightarrow> string \<Rightarrow> nat \<Rightarrow> nat \<Rightarrow> model_capability list" where
  "spg_model_capabilities_from_policy policy txt name_buf_cap out_cap =
     (if name_buf_cap = 0 then [] else capability_loop txt name_buf_cap out_cap (pc_capabilities policy) 0 [])"

section \<open>Selection and reasoning\<close>

definition spg_tokens_are_prefix :: "int list \<Rightarrow> int list \<Rightarrow> bool" where
  "spg_tokens_are_prefix full pfx = (pfx \<noteq> [] \<and> length pfx \<le> length full \<and> take (length pfx) full = pfx)"

text \<open>
  The selection over logits less their baseline. Float subtraction and comparison are parameters: the
  code takes an element only when it compares greater, so one that is not a number is never taken.
\<close>

definition calibrated :: "('v \<Rightarrow> 'v \<Rightarrow> 'v) \<Rightarrow> 'v \<Rightarrow> 'v list \<Rightarrow> 'v list option \<Rightarrow> nat \<Rightarrow> 'v" where
  "calibrated diff_of base0 logits baseline i = diff_of (logits ! i) (case baseline of None \<Rightarrow> base0 | Some base \<Rightarrow> base ! i)"

definition spg_pmi_pick ::
  "('v \<Rightarrow> 'v \<Rightarrow> bool) \<Rightarrow> ('v \<Rightarrow> 'v \<Rightarrow> 'v) \<Rightarrow> 'v \<Rightarrow> 'v list \<Rightarrow> 'v list option \<Rightarrow> nat" where
  "spg_pmi_pick below diff_of base0 logits baseline =
     (let v = calibrated diff_of base0 logits baseline
      in fold (\<lambda>i best. if below (v best) (v i) then i else best) [1..<length logits] 0)"

definition spg_reason_comment :: "string \<Rightarrow> nat \<Rightarrow> string" where
  "spg_reason_comment raw cap =
     (if raw = [] \<or> cap < 5 then []
      else ''; '' @ map (\<lambda>c. if c = ch_nl \<or> c = ch_cr then CHR '' '' else c) (take (cap - 4) raw) @ [ch_nl])"

end
