(* ===== verification/Decode.thy ===== *)
theory Decode
  imports GrammarMask
begin

text \<open>
  Constrained decoding in \<open>src/model/model_adapter.c\<close>: a valid recommendation is built piece by piece,
  the fixed text emitted by the harness and only the leaf values taken from the model. The inference
  engine is a parameter: a record of its calls on its own state, with its statuses already mapped.
\<close>

record 's engine =
  en_tokenize :: "'s \<Rightarrow> string \<Rightarrow> spg_status \<times> nat list"
  en_prefill :: "'s \<Rightarrow> nat list \<Rightarrow> spg_status \<times> 's"
  en_decode_step :: "'s \<Rightarrow> spg_status \<times> nat \<times> 's"
  en_token_to_str :: "nat \<Rightarrow> string option"
  en_vocab :: "'s \<Rightarrow> nat"
  en_select :: "'s \<Rightarrow> nat list \<Rightarrow> nat \<times> 's"

text \<open>
  \<open>en_vocab\<close> is 0 where the engine has no logits to show. \<open>en_select\<close> is the choice among the candidate
  tokens: the best calibrated logit, or a draw at the temperature.
\<close>

record gen_result =
  gr_capacity :: nat
  gr_output :: string
  gr_tokens :: nat
  gr_truncated :: bool

record decode_config =
  dg_force_prefix :: string
  dg_capabilities :: "model_capability list"
  dg_commands :: "string list"
  dg_reason_budget :: nat

type_synonym 's decoding = "'s \<times> gen_result"

definition append_bytes :: "string \<Rightarrow> gen_result \<Rightarrow> spg_status \<times> gen_result" where
  "append_bytes bytes r =
     (let used = length (gr_output r) in
      if bytes = [] then (SPG_OK, r)
      else if used \<ge> gr_capacity r \<or> length bytes > gr_capacity r - used - 1
        then (SPG_E_LIMIT,
              r\<lparr>gr_output := gr_output r @ take (if used < gr_capacity r then gr_capacity r - used - 1 else 0) bytes,
                gr_truncated := True\<rparr>)
      else (SPG_OK, r\<lparr>gr_output := gr_output r @ bytes\<rparr>))"

definition one_token :: "gen_result \<Rightarrow> gen_result" where
  "one_token r = r\<lparr>gr_tokens := gr_tokens r + 1\<rparr>"

definition emit_literal :: "'s engine \<Rightarrow> string \<Rightarrow> 's decoding \<Rightarrow> spg_status \<times> 's decoding" where
  "emit_literal en txt st =
     (case st of (s, r) \<Rightarrow>
      (case en_tokenize en s txt of (status, ids) \<Rightarrow>
        if status \<noteq> SPG_OK then (status, st)
        else (case append_bytes txt r of (as, r1) \<Rightarrow>
          if as \<noteq> SPG_OK then (as, (s, r1))
          else if ids = [] then (SPG_OK, (s, r1))
          else (case en_prefill en s ids of (status, s') \<Rightarrow>
            if status \<noteq> SPG_OK then (status, (s', r1))
            else (SPG_OK, (s', r1\<lparr>gr_tokens := gr_tokens r1 + length ids\<rparr>))))))"

section \<open>Slots\<close>

definition stops_string :: "char \<Rightarrow> bool" where
  "stops_string c \<longleftrightarrow> c = ch_quote \<or> c = ch_nl \<or> c = ch_cr"

text \<open>
  The loop of the leaf slots: decode a token, and let the slot take its piece. The slot answers with the
  status to return, or with what it carries on to the next token. A missing or empty piece ends it.
\<close>

fun leaf_loop ::
  "('a \<Rightarrow> string \<Rightarrow> gen_result \<Rightarrow> (spg_status + 'a) \<times> gen_result) \<Rightarrow> nat \<Rightarrow> 'a \<Rightarrow> 's engine \<Rightarrow> 's decoding \<Rightarrow>
     spg_status \<times> 's decoding" where
  "leaf_loop accept j a en st =
     (if j = 0 then (SPG_OK, st)
      else (case en_decode_step en (fst st) of (status, token, s') \<Rightarrow>
        if status \<noteq> SPG_OK then (status, (s', snd st))
        else (let r = one_token (snd st);
                  piece = (case en_token_to_str en token of None \<Rightarrow> [] | Some piece \<Rightarrow> piece)
              in if piece = [] then (SPG_OK, (s', r))
                 else (case accept a piece r of
                     (Inl as, r') \<Rightarrow> (as, (s', r'))
                   | (Inr a', r') \<Rightarrow> leaf_loop accept (j - 1) a' en (s', r')))))"

definition accept_text :: "unit \<Rightarrow> string \<Rightarrow> gen_result \<Rightarrow> (spg_status + unit) \<times> gen_result" where
  "accept_text u piece r =
     (let kept = takeWhile (\<lambda>c. \<not> stops_string c) piece
      in case append_bytes kept r of (as, r') \<Rightarrow>
           (if length kept < length piece \<or> as \<noteq> SPG_OK then Inl as else Inr (), r'))"

definition decode_string_slot :: "'s engine \<Rightarrow> 's decoding \<Rightarrow> spg_status \<times> 's decoding" where
  "decode_string_slot en st = leaf_loop accept_text 64 () en st"

definition is_dec_digit :: "char \<Rightarrow> bool" where
  "is_dec_digit c \<longleftrightarrow> 48 \<le> code_of c \<and> code_of c \<le> 57"

text \<open>What a piece adds to a number: a sign only as its very first byte.\<close>

definition number_part :: "nat \<Rightarrow> string \<Rightarrow> string" where
  "number_part emitted piece =
     (if emitted = 0 \<and> piece \<noteq> [] \<and> hd piece = CHR ''-'' then hd piece # takeWhile is_dec_digit (tl piece)
      else takeWhile is_dec_digit piece)"

definition accept_number :: "nat \<Rightarrow> string \<Rightarrow> gen_result \<Rightarrow> (spg_status + nat) \<times> gen_result" where
  "accept_number emitted piece r =
     (let part = number_part emitted piece
      in case append_bytes part r of (as, r') \<Rightarrow>
           (if as \<noteq> SPG_OK \<or> length part < length piece then Inl as else Inr (emitted + length part), r'))"

definition decode_number_slot :: "'s engine \<Rightarrow> 's decoding \<Rightarrow> spg_status \<times> 's decoding" where
  "decode_number_slot en st = leaf_loop accept_number 12 0 en st"

definition candidates :: "'s engine \<Rightarrow> string list \<Rightarrow> string \<Rightarrow> 's \<Rightarrow> nat list" where
  "candidates en names out s =
     take 512 (filter (\<lambda>t. case en_token_to_str en t of None \<Rightarrow> False | Some piece \<Rightarrow> spg_choice_prefix_ok names out piece)
       [0..<en_vocab en s])"

fun choice_loop ::
  "nat \<Rightarrow> 's engine \<Rightarrow> string list \<Rightarrow> nat \<Rightarrow> string \<Rightarrow> 's decoding \<Rightarrow> spg_status \<times> string \<times> 's decoding" where
  "choice_loop j en names out_cap out st =
     (if j = 0 \<or> spg_choice_complete names out then (SPG_OK, out, st)
      else (let cand = candidates en names out (fst st) in
        if cand = [] then (SPG_OK, out, st)
        else (case en_select en (fst st) cand of (best, s1) \<Rightarrow>
          (let ap = skip_spaces (case en_token_to_str en best of None \<Rightarrow> [] | Some piece \<Rightarrow> piece) in
           if length out + length ap \<ge> out_cap then (SPG_OK, out, (s1, snd st))
           else (case append_bytes ap (snd st) of (as, r') \<Rightarrow>
             if as \<noteq> SPG_OK then (as, out, (s1, r'))
             else (case en_prefill en s1 [best] of (status, s2) \<Rightarrow>
               if status \<noteq> SPG_OK then (status, out @ ap, (s2, r'))
               else choice_loop (j - 1) en names out_cap (out @ ap) (s2, one_token r')))))))"

text \<open>
  A partial name is completed in the output when the search for the name it starts ends on one:
  the first match is taken, the next one withdraws it, and the one after is taken again.
\<close>

definition forced_match :: "string list \<Rightarrow> string \<Rightarrow> string option" where
  "forced_match names trimmed =
     foldl (\<lambda>m n. if take (length trimmed) n = trimmed then (case m of None \<Rightarrow> Some n | Some _ \<Rightarrow> None) else m) None names"

definition force_complete :: "string list \<Rightarrow> string \<Rightarrow> gen_result \<Rightarrow> spg_status \<times> gen_result" where
  "force_complete names out r =
     (if spg_choice_complete names out then (SPG_OK, r)
      else (let trimmed = skip_spaces out
            in case forced_match names trimmed of
                 Some n \<Rightarrow> append_bytes (drop (length trimmed) n) r
               | None \<Rightarrow> (SPG_OK, r)))"

definition decode_choice_slot ::
  "'s engine \<Rightarrow> string list \<Rightarrow> nat \<Rightarrow> 's decoding \<Rightarrow> spg_status \<times> string \<times> 's decoding" where
  "decode_choice_slot en names out_cap st =
     (case choice_loop 24 en names out_cap [] st of (status, out, (s', r)) \<Rightarrow>
        if status \<noteq> SPG_OK then (status, out, (s', r))
        else (case force_complete names out r of (as, r') \<Rightarrow> (as, out, (s', r'))))"

definition decode_capability_slot ::
  "'s engine \<Rightarrow> decode_config \<Rightarrow> action_kind \<Rightarrow> 's decoding \<Rightarrow> spg_status \<times> 's decoding" where
  "decode_capability_slot en cfg kind st =
     (let names = take 32 (map mc_name (filter (\<lambda>c. mc_kind c = kind) (dg_capabilities cfg))) in
      if names = [] then decode_string_slot en st
      else (case decode_choice_slot en names 128 st of (status, chosen, st') \<Rightarrow> (status, st')))"

definition decode_command_slot :: "'s engine \<Rightarrow> decode_config \<Rightarrow> 's decoding \<Rightarrow> spg_status \<times> 's decoding" where
  "decode_command_slot en cfg st =
     (if dg_commands cfg = [] then decode_string_slot en st
      else (case decode_choice_slot en (dg_commands cfg) 64 st of (cs, chosen, st') \<Rightarrow>
        if cs \<noteq> SPG_OK then (cs, st') else decode_string_slot en st'))"

section \<open>The form\<close>

fun reason_loop :: "nat \<Rightarrow> 's engine \<Rightarrow> string \<Rightarrow> 's decoding \<Rightarrow> spg_status \<times> string \<times> 's decoding" where
  "reason_loop j en raw st =
     (if j = 0 \<or> \<not> length raw + 1 < 512 then (SPG_OK, raw, st)
      else (case en_decode_step en (fst st) of (status, token, s') \<Rightarrow>
        if status \<noteq> SPG_OK then (status, raw, (s', snd st))
        else (let r = one_token (snd st) in
          case en_token_to_str en token of
            None \<Rightarrow> (SPG_OK, raw, (s', r))
          | Some piece \<Rightarrow>
              if piece = [] then (SPG_OK, raw, (s', r))
              else reason_loop (j - 1) en (raw @ take (511 - length raw) piece) (s', r))))"

definition emit_reason_prefix :: "'s engine \<Rightarrow> nat \<Rightarrow> 's decoding \<Rightarrow> spg_status \<times> 's decoding" where
  "emit_reason_prefix en budget st =
     (if budget = 0 then (SPG_OK, st)
      else (case reason_loop budget en [] st of (status, raw, (s', r)) \<Rightarrow>
        if status \<noteq> SPG_OK then (status, (s', r))
        else if raw = [] then (SPG_OK, (s', r))
        else (case append_bytes (spg_reason_comment raw 600) r of (as, r') \<Rightarrow> (as, (s', r')))))"

definition decode_seg ::
  "'s engine \<Rightarrow> decode_config \<Rightarrow> action_kind \<Rightarrow> scaffold_seg \<Rightarrow> 's decoding \<Rightarrow> spg_status \<times> 's decoding" where
  "decode_seg en cfg kind seg st =
     (case seg of
        SCAFFOLD_LITERAL txt \<Rightarrow> emit_literal en txt st
      | SCAFFOLD_CAPABILITY \<Rightarrow> decode_capability_slot en cfg kind st
      | SCAFFOLD_NUMBER \<Rightarrow> decode_number_slot en st
      | SCAFFOLD_COMMAND \<Rightarrow> decode_command_slot en cfg st
      | SCAFFOLD_STRING \<Rightarrow> decode_string_slot en st)"

fun decode_segs ::
  "'s engine \<Rightarrow> decode_config \<Rightarrow> action_kind \<Rightarrow> scaffold_seg list \<Rightarrow> 's decoding \<Rightarrow> spg_status \<times> 's decoding" where
  "decode_segs en cfg kind [] st = (SPG_OK, st)"
| "decode_segs en cfg kind (seg # segs) st =
     (case decode_seg en cfg kind seg st of (ss, st') \<Rightarrow>
        if ss \<noteq> SPG_OK then (ss, st') else decode_segs en cfg kind segs st')"

text \<open>The constrained branch of \<open>generate_geist\<close>, after the prompt is prefilled.\<close>

definition generate_constrained :: "'s engine \<Rightarrow> decode_config \<Rightarrow> 's decoding \<Rightarrow> spg_status \<times> 's decoding" where
  "generate_constrained en cfg st =
     (case emit_reason_prefix en (dg_reason_budget cfg) st of (reason_as, st1) \<Rightarrow>
        if reason_as \<noteq> SPG_OK then (reason_as, st1)
        else (case emit_literal en (dg_force_prefix cfg) st1 of (prefix_as, st2) \<Rightarrow>
          if prefix_as \<noteq> SPG_OK then (prefix_as, st2)
          else (case decode_choice_slot en (spg_kind_names 16) 64 st2 of (ks, kindbuf, st3) \<Rightarrow>
            if ks \<noteq> SPG_OK then (ks, st3)
            else (case spg_kind_from_text kindbuf of
                    None \<Rightarrow> (SPG_OK, st3)
                  | Some kind \<Rightarrow> decode_segs en cfg kind (spg_scaffold_for_kind kind) st3))))"

declare leaf_loop.simps [simp del] choice_loop.simps [simp del] reason_loop.simps [simp del]

end
