(* ===== verification/MaskProps.thy ===== *)
theory MaskProps
  imports GrammarMask FormRecommend
begin

text \<open>
  What the grammar of constrained decoding promises: a scaffold filled with plain texts is a form the
  recommendation parser accepts, with the kind, the capability and the values that were filled in.
\<close>

section \<open>Filled scaffolds\<close>

fun fill :: "scaffold_seg list \<Rightarrow> string list \<Rightarrow> string" where
  "fill [] fs = []"
| "fill (SCAFFOLD_LITERAL txt # segs) fs = txt @ fill segs fs"
| "fill (seg # segs) [] = fill segs []"
| "fill (seg # segs) (f # fs) = f @ fill segs fs"

fun is_slot :: "scaffold_seg \<Rightarrow> bool" where
  "is_slot (SCAFFOLD_LITERAL txt) = False"
| "is_slot seg = True"

definition slots :: "scaffold_seg list \<Rightarrow> scaffold_seg list" where
  "slots segs = filter is_slot segs"

definition slot_ok :: "scaffold_seg \<Rightarrow> string \<Rightarrow> bool" where
  "slot_ok seg f = (if seg = SCAFFOLD_NUMBER then symbolic f \<and> value_named f \<noteq> None else clean f)"

definition FORCE_PREFIX :: string where "FORCE_PREFIX = ''(recommend (kind ''"

definition mask_form :: "action_kind \<Rightarrow> string list \<Rightarrow> string" where
  "mask_form k fs = FORCE_PREFIX @ spg_action_kind_to_string k @ fill (spg_scaffold_for_kind k) fs"

section \<open>The fields of a filled scaffold\<close>

definition acting :: "action_kind \<Rightarrow> string \<Rightarrow> form_field list \<Rightarrow> form_field list" where
  "acting k cap rest =
     [(''kind'', LX_symbol (spg_action_kind_to_string k)), (''capability'', LX_quoted cap), (''cost'', LX_symbol ''1''),
      (''uses_network'', LX_symbol (if k = ACTION_SSH_AUTH_PROBE then ''true'' else ''false'')),
      (''confidence_bp'', LX_symbol ''5000'')] @ rest"

fun mask_fields :: "action_kind \<Rightarrow> string list \<Rightarrow> form_field list" where
  "mask_fields ACTION_FINISH fs = [(''kind'', LX_symbol (spg_action_kind_to_string ACTION_FINISH)), (''reason'', LX_quoted (fs ! 0))]"
| "mask_fields ACTION_SIMULATOR fs = acting ACTION_SIMULATOR (fs ! 0) [(''reason'', LX_quoted (fs ! 1))]"
| "mask_fields ACTION_LOCAL_SHELL fs = acting ACTION_LOCAL_SHELL (fs ! 0)
     [(''command'', LX_quoted (fs ! 1)), (''reason'', LX_quoted (fs ! 2))]"
| "mask_fields ACTION_MEMORY_SAVE fs = acting ACTION_MEMORY_SAVE (fs ! 0)
     [(''slug'', LX_quoted (fs ! 1)), (''description'', LX_quoted (fs ! 2)), (''body'', LX_quoted (fs ! 3)),
      (''reason'', LX_quoted (fs ! 4))]"
| "mask_fields ACTION_DEVICE_WRITE fs = acting ACTION_DEVICE_WRITE (fs ! 0)
     [(''target'', LX_quoted (fs ! 1)), (''value'', LX_symbol (fs ! 2)), (''reason'', LX_quoted (fs ! 3))]"
| "mask_fields k fs = acting k (fs ! 0)
     [(if k \<in> {ACTION_MEMORY_DELETE, ACTION_MEMORY_READ} then ''slug'' else ''target'', LX_quoted (fs ! 1)),
      (''reason'', LX_quoted (fs ! 2))]"

lemmas scaffolds = SEG_FINISH_def SEG_MACHINE_def SEG_DEVICE_def SEG_SIMULATOR_def SEG_LOCAL_SHELL_def SEG_SSH_def
  SEG_MEM_SAVE_def SEG_MEM_SLUG_def lit_open_def lit_bureau_def lit_next_def lit_end_def BUREAU_OK_def BUREAU_NET_def

lemma slots_scaffold:
  "slots (spg_scaffold_for_kind k) = (case k of
     ACTION_FINISH \<Rightarrow> [SCAFFOLD_STRING]
   | ACTION_SIMULATOR \<Rightarrow> [SCAFFOLD_CAPABILITY, SCAFFOLD_STRING]
   | ACTION_LOCAL_SHELL \<Rightarrow> [SCAFFOLD_CAPABILITY, SCAFFOLD_COMMAND, SCAFFOLD_STRING]
   | ACTION_MEMORY_SAVE \<Rightarrow> [SCAFFOLD_CAPABILITY, SCAFFOLD_STRING, SCAFFOLD_STRING, SCAFFOLD_STRING, SCAFFOLD_STRING]
   | ACTION_DEVICE_WRITE \<Rightarrow> [SCAFFOLD_CAPABILITY, SCAFFOLD_STRING, SCAFFOLD_NUMBER, SCAFFOLD_STRING]
   | _ \<Rightarrow> [SCAFFOLD_CAPABILITY, SCAFFOLD_STRING, SCAFFOLD_STRING])"
  by (cases k) (simp_all add: slots_def scaffolds)

lemma list_all2_slots:
  "list_all2 P [] fs \<longleftrightarrow> fs = []" "list_all2 P (x # xs) fs \<longleftrightarrow> (\<exists>f fs'. fs = f # fs' \<and> P x f \<and> list_all2 P xs fs')"
  by (cases fs; simp)+

lemma mask_form_text:
  assumes "list_all2 slot_ok (slots (spg_scaffold_for_kind k)) fs"
  shows "mask_form k fs = lexemes_text (form_lexemes ''recommend'' (mask_fields k fs))"
  using assms [unfolded slots_scaffold]
  by (cases k) (auto simp: list_all2_slots mask_form_def FORCE_PREFIX_def scaffolds form_lexemes_def
      field_lexemes_def acting_def)


section \<open>What the parser makes of them\<close>

definition mask_view :: "action_kind \<Rightarrow> string list \<Rightarrow> form_view" where
  "mask_view k fs =
     (if k = ACTION_FINISH
      then empty_view\<lparr>fv_kind := k, fv_texts := [FIELD_REASON \<mapsto> fs ! 0]\<rparr>
      else empty_view\<lparr>fv_kind := k, fv_cost := 1, fv_network := (k = ACTION_SSH_AUTH_PROBE), fv_confidence := 5000,
        fv_value := (if k = ACTION_DEVICE_WRITE then value_named (fs ! 2) else None),
        fv_texts := (case k of
            ACTION_SIMULATOR \<Rightarrow> [FIELD_CAPABILITY \<mapsto> fs ! 0, FIELD_REASON \<mapsto> fs ! 1]
          | ACTION_LOCAL_SHELL \<Rightarrow> [FIELD_CAPABILITY \<mapsto> fs ! 0, FIELD_COMMAND \<mapsto> fs ! 1, FIELD_REASON \<mapsto> fs ! 2]
          | ACTION_MEMORY_SAVE \<Rightarrow> [FIELD_CAPABILITY \<mapsto> fs ! 0, FIELD_SLUG \<mapsto> fs ! 1, FIELD_DESCRIPTION \<mapsto> fs ! 2,
              FIELD_BODY \<mapsto> fs ! 3, FIELD_REASON \<mapsto> fs ! 4]
          | ACTION_DEVICE_WRITE \<Rightarrow> [FIELD_CAPABILITY \<mapsto> fs ! 0, FIELD_TARGET \<mapsto> fs ! 1, FIELD_REASON \<mapsto> fs ! 3]
          | _ \<Rightarrow> [FIELD_CAPABILITY \<mapsto> fs ! 0,
              (if k \<in> {ACTION_MEMORY_DELETE, ACTION_MEMORY_READ} then FIELD_SLUG else FIELD_TARGET) \<mapsto> fs ! 1,
              FIELD_REASON \<mapsto> fs ! 2])\<rparr>)"

lemma mask_fields_ok:
  assumes "list_all2 slot_ok (slots (spg_scaffold_for_kind k)) fs"
  shows "list_all field_ok (mask_fields k fs)" "distinct (map (field_named \<circ> fst) (mask_fields k fs))"
    "set (required_ids k) \<subseteq> set (map (field_named \<circ> fst) (mask_fields k fs))" "length (mask_fields k fs) \<le> 9"
  using assms [unfolded slots_scaffold]
  by (cases k; auto simp: list_all2_slots acting_def field_ok_def slot_ok_def required_ids_def
        simp del: spg_action_kind_to_string.simps)+

lemma mask_fields_view:
  assumes "list_all2 slot_ok (slots (spg_scaffold_for_kind k)) fs"
  shows "view_fold (mask_fields k fs) empty_view = Some (mask_view k fs)"
  using assms [unfolded slots_scaffold]
  by (cases k) (auto simp: list_all2_slots acting_def slot_ok_def mask_view_def empty_view_def Let_def
      simp del: spg_action_kind_to_string.simps)


lemma mask_view_match:
  assumes "list_all2 slot_ok (slots (spg_scaffold_for_kind k)) fs"
  shows "view_match (mask_view k fs)" "fv_kind (mask_view k fs) = k"
  using assms [unfolded slots_scaffold]
  by (cases k; auto simp: list_all2_slots slot_ok_def mask_view_def empty_view_def view_match_def)+

lemma mask_complete:
  "list_all2 slot_ok (slots (spg_scaffold_for_kind k)) fs \<Longrightarrow> complete_form (mask_fields k fs) (mask_view k fs)"
  using mask_fields_ok [of k fs] mask_fields_view [of k fs] mask_view_match [of k fs] by (simp add: complete_form_def)

text \<open>The reasoning in front is one comment line, which the tokenizer skips.\<close>

lemma reason_comment_line:
  "spg_reason_comment raw cap = [] \<or> (\<exists>s. spg_reason_comment raw cap = CHR '';'' # s @ [ch_nl] \<and> ch_nl \<notin> set s)"
  by (auto simp: spg_reason_comment_def)

lemma reason_comment_skipped:
  "\<exists>line col. tokenize_loop (spg_reason_comment raw cap @ txt) tcap 0 1 1 [] =
     tokenize_loop (spg_reason_comment raw cap @ txt) tcap (length (spg_reason_comment raw cap)) line col []"
  using reason_comment_line [of raw cap]
proof
  assume "\<exists>s. spg_reason_comment raw cap = CHR '';'' # s @ [ch_nl] \<and> ch_nl \<notin> set s"
  then obtain s where s: "spg_reason_comment raw cap = CHR '';'' # s @ [ch_nl]" "ch_nl \<notin> set s" by blast
  have "drop 0 (spg_reason_comment raw cap @ txt) = CHR '';'' # s @ ch_nl # txt" by (simp add: s(1))
  from tokenize_comment [OF this s(2)] show ?thesis by (metis (no_types) s(1) add_0 add_2_eq_Suc' length_Cons length_append_singleton)
qed auto

text \<open>
  C23: A form decoded under the grammar is a valid recommendation by construction: whatever kind was
  chosen and whatever plain texts and number were filled into its scaffold, with or without a line of
  reasoning in front, the parser accepts it, and reads back that kind and exactly those texts.
\<close>

theorem mask_form_valid:
  assumes "list_all2 slot_ok (slots (spg_scaffold_for_kind k)) fs"
    and "39 \<le> tcap" "29 \<le> ncap" "ncap \<le> INVALID_INDEX"
  shows "\<exists>r e. spg_recommendation_parse (spg_reason_comment raw cap @ mask_form k fs) tcap ncap = (SPG_OK, r, e) \<and>
    rm_state r = RECOMMENDATION_VALID \<and> shown (spg_reason_comment raw cap @ mask_form k fs) r (mask_view k fs)"
proof -
  obtain line col where t: "tokenize_loop (spg_reason_comment raw cap @ mask_form k fs) tcap 0 1 1 [] =
      tokenize_loop (spg_reason_comment raw cap @ mask_form k fs) tcap (length (spg_reason_comment raw cap)) line col []"
    using reason_comment_skipped by blast
  have n: "3 + 4 * length (mask_fields k fs) \<le> tcap" "2 + 3 * length (mask_fields k fs) \<le> ncap"
    using mask_fields_ok(4) [OF assms(1)] assms(2,3) by linarith+
  have d: "drop (length (spg_reason_comment raw cap)) (spg_reason_comment raw cap @ mask_form k fs) =
      lexemes_text (form_lexemes ''recommend'' (mask_fields k fs))"
    using mask_form_text [OF assms(1)] by simp
  show ?thesis by (rule form_recommended [OF mask_complete [OF assms(1)] t d _ n assms(4)]) simp
qed

text \<open>A text with a backslash before the closing quote swallows the quote.\<close>

lemma backslash_breaks_form:
  "rm_state (fst (snd (spg_recommendation_parse (mask_form ACTION_FINISH [[ch_bslash]]) 39 29))) = RECOMMENDATION_REJECTED"
  by code_simp

theorem mask_form_valid_witness:
  "\<exists>r e. spg_recommendation_parse (mask_form ACTION_DEVICE_WRITE [''heat'', ''boiler'', ''-5'', ''warm'']) 64 64 = (SPG_OK, r, e) \<and>
     rm_state r = RECOMMENDATION_VALID \<and> rm_action_kind r = ACTION_DEVICE_WRITE \<and> rm_device_value r = - 5"
proof -
  let ?fs = "[''heat'', ''boiler'', ''-5'', ''warm'']"
  have v: "value_named ''-5'' = Some (- 5)" by code_simp
  have "list_all2 slot_ok (slots (spg_scaffold_for_kind ACTION_DEVICE_WRITE)) ?fs"
    unfolding slots_scaffold by (simp add: slot_ok_def v) (simp add: clean_def symbolic_def valid_symbol_char_def)
  note m = mask_form_valid [OF this, of 64 64 "[]" 0]
  show ?thesis using m v
    by (auto simp: spg_reason_comment_def INVALID_INDEX_def shown_def mask_view_def empty_view_def)
qed

section \<open>The capability table\<close>

text \<open>The mask offers only names of enabled capabilities, each for a kind its capability covers.\<close>

definition offered :: "string \<Rightarrow> capability list \<Rightarrow> model_capability \<Rightarrow> bool" where
  "offered txt caps mc \<longleftrightarrow> (\<exists>cap \<in> set caps. cp_enabled cap \<and> mc_name mc = span_text txt (cp_name cap) \<and>
     cap_kind_for_action (mc_kind mc) = cp_kind cap)"

lemma kinds_for_cap_gate: "k \<in> set (kinds_for_cap c) \<Longrightarrow> cap_kind_for_action k = c"
  by (cases c) auto

lemma capability_loop_offered:
  "list_all (offered txt every) out \<Longrightarrow> set caps \<subseteq> set every \<Longrightarrow>
   list_all (offered txt every) (capability_loop txt n m caps used out)"
proof (induction caps arbitrary: used out)
  case (Cons c caps)
  let ?fresh = "map (\<lambda>k. \<lparr>mc_name = span_text txt (cp_name c), mc_kind = k\<rparr>) (kinds_for_cap (cp_kind c))"
  have "list_all (offered txt every) (out @ take (m - length out) ?fresh)" if "cp_enabled c"
    using Cons.prems that kinds_for_cap_gate by (fastforce simp: list_all_iff offered_def dest!: in_set_takeD)
  then show ?case using Cons.IH Cons.prems by (simp add: Let_def)
qed simp

lemma capabilities_offered:
  "list_all (offered txt (pc_capabilities policy)) (spg_model_capabilities_from_policy policy txt name_buf_cap out_cap)"
  by (simp add: spg_model_capabilities_from_policy_def capability_loop_offered)

end
