(* ===== verification/DecodeProps.thy ===== *)
theory DecodeProps
  imports Decode MaskProps
begin

text \<open>
  What constrained decoding writes: whatever the engine says, the output is the opening of a form whose
  kind was never resolved, or the scaffold of one kind filled with texts that cannot leave their slots.
\<close>

section \<open>Slots only append\<close>

lemma append_bytes_ok: "append_bytes bytes r = (SPG_OK, r') \<Longrightarrow> gr_output r' = gr_output r @ bytes"
  by (auto simp: append_bytes_def Let_def split: if_splits)

lemma one_token_output [simp]: "gr_output (one_token r) = gr_output r"
  by (simp add: one_token_def)

definition writes_text :: "'s decoding \<Rightarrow> 's decoding \<Rightarrow> string \<Rightarrow> bool" where
  "writes_text st st' t \<longleftrightarrow> gr_output (snd st') = gr_output (snd st) @ t"

lemma emit_literal_ok: "emit_literal en txt st = (SPG_OK, st') \<Longrightarrow> writes_text st st' txt"
  by (auto simp: emit_literal_def writes_text_def dest: append_bytes_ok split: prod.splits if_splits)

definition plain :: "string \<Rightarrow> bool" where
  "plain s \<longleftrightarrow> set s \<inter> {ch_quote, ch_nl, ch_cr} = {}"

lemma plain_append [simp]: "plain (a @ b) \<longleftrightarrow> plain a \<and> plain b"
  by (auto simp: plain_def)

lemma plain_kept: "plain (takeWhile (\<lambda>c. \<not> stops_string c) s)"
  by (auto simp: plain_def stops_string_def dest: set_takeWhileD)

text \<open>
  A slot that ends well has appended a text of the language \<open>L\<close>, when every piece it takes leads from
  a text \<open>t\<close> appended so far, of which the carried state \<open>a\<close> says what matters, to more of it.
\<close>

lemma leaf_loop_ok:
  assumes acc: "\<And>a t piece r ans r'. I a t \<Longrightarrow> accept a piece r = (ans, r') \<Longrightarrow> (\<forall>e. ans = Inl e \<longrightarrow> e = SPG_OK) \<Longrightarrow>
      \<exists>u. gr_output r' = gr_output r @ u \<and> L (t @ u) \<and> (\<forall>a'. ans = Inr a' \<longrightarrow> I a' (t @ u))"
    and lang: "\<And>a t. I a t \<Longrightarrow> L t"
  shows "leaf_loop accept j a en st = (SPG_OK, st') \<Longrightarrow> I a t \<Longrightarrow> \<exists>u. writes_text st st' u \<and> L (t @ u)"
proof (induction j arbitrary: a st t)
  case 0
  then show ?case using lang by (intro exI [of _ "[]"]) (simp add: leaf_loop.simps writes_text_def)
next
  case (Suc j)
  obtain status token s' where d: "en_decode_step en (fst st) = (status, token, s')" by (metis prod_cases3)
  define piece where "piece = (case en_token_to_str en token of None \<Rightarrow> [] | Some piece \<Rightarrow> piece)"
  obtain ans r' where a: "accept a piece (one_token (snd st)) = (ans, r')" by fastforce
  have run: "(if status \<noteq> SPG_OK then (status, (s', snd st))
      else if piece = [] then (SPG_OK, (s', one_token (snd st)))
      else (case ans of Inl as \<Rightarrow> (as, (s', r')) | Inr a' \<Rightarrow> leaf_loop accept (Suc j - 1) a' en (s', r'))) = (SPG_OK, st')"
    using Suc.prems(1) by (subst (asm) leaf_loop.simps) (simp add: d piece_def [symmetric] a Let_def cong: if_cong)
  show ?case
  proof (cases "piece = []")
    case True
    then show ?thesis using run Suc.prems(2) lang
      by (intro exI [of _ "[]"]) (auto simp: writes_text_def split: if_splits)
  next
    case False
    have "\<forall>e. ans = Inl e \<longrightarrow> e = SPG_OK" using run False by (auto split: if_splits)
    from acc [OF Suc.prems(2) a this] obtain u where u: "gr_output r' = gr_output (snd st) @ u" "L (t @ u)"
      "\<forall>a'. ans = Inr a' \<longrightarrow> I a' (t @ u)" by auto
    show ?thesis
    proof (cases ans)
      case (Inl e)
      then show ?thesis using run False u(1,2) by (intro exI [of _ u]) (auto simp: writes_text_def split: if_splits)
    next
      case (Inr a')
      have "leaf_loop accept j a' en (s', r') = (SPG_OK, st')" using run False Inr by (auto split: if_splits)
      from Suc.IH [OF this] u(3) Inr obtain w where "writes_text (s', r') st' w" "L (t @ u @ w)" by fastforce
      then show ?thesis using u(1) by (intro exI [of _ "u @ w"]) (simp add: writes_text_def)
    qed
  qed
qed

lemma decode_string_slot_ok:
  assumes "decode_string_slot en st = (SPG_OK, st')"
  shows "\<exists>t. writes_text st st' t \<and> plain t"
proof -
  have acc: "\<exists>u. gr_output r' = gr_output r @ u \<and> plain (t @ u) \<and> (\<forall>a'. ans = Inr a' \<longrightarrow> plain (t @ u))"
    if "plain t" "accept_text a piece r = (ans, r')" "\<forall>e. ans = Inl e \<longrightarrow> e = SPG_OK" for a t piece r ans r'
    using that plain_kept [of piece] append_bytes_ok
    by (auto simp: accept_text_def Let_def split: prod.splits if_splits)
  have "\<exists>u. writes_text st st' u \<and> plain ([] @ u)"
    by (rule leaf_loop_ok [where I = "\<lambda>_. plain", OF acc _ assms [unfolded decode_string_slot_def]]) (simp_all add: plain_def)
  then show ?thesis by simp
qed

text \<open>The texts of a number slot: digits, after one minus or none.\<close>

definition numberish :: "string \<Rightarrow> bool" where
  "numberish s \<longleftrightarrow> list_all is_dec_digit s \<or> (s \<noteq> [] \<and> hd s = CHR ''-'' \<and> list_all is_dec_digit (tl s))"

lemma digits_taken [simp]: "list_all is_dec_digit (takeWhile is_dec_digit s)"
  by (induction s) auto

lemma numberish_part: "numberish t \<Longrightarrow> numberish (t @ number_part (length t) piece)"
  by (cases t) (auto simp: numberish_def number_part_def)

lemma accept_number_ok:
  assumes "accept_number a piece r = (ans, r')" "\<forall>e. ans = Inl e \<longrightarrow> e = SPG_OK"
  shows "gr_output r' = gr_output r @ number_part a piece \<and> (\<forall>a'. ans = Inr a' \<longrightarrow> a' = a + length (number_part a piece))"
proof -
  obtain as r1 where b: "append_bytes (number_part a piece) r = (as, r1)" by fastforce
  have "as = SPG_OK" "r' = r1" using assms b by (auto simp: accept_number_def Let_def split: if_splits)
  then show ?thesis using append_bytes_ok [of "number_part a piece" r r1] b assms(1)
    by (auto simp: accept_number_def Let_def split: if_splits)
qed

lemma decode_number_slot_ok:
  assumes "decode_number_slot en st = (SPG_OK, st')"
  shows "\<exists>t. writes_text st st' t \<and> numberish t"
proof -
  have acc: "\<exists>u. gr_output r' = gr_output r @ u \<and> numberish (t @ u) \<and> (\<forall>a'. ans = Inr a' \<longrightarrow> a' = length (t @ u) \<and> numberish (t @ u))"
    if "a = length t \<and> numberish t" "accept_number a piece r = (ans, r')" "\<forall>e. ans = Inl e \<longrightarrow> e = SPG_OK" for a t piece r ans r'
    using accept_number_ok [OF that(2,3)] numberish_part [of t piece] that(1) by (intro exI [of _ "number_part a piece"]) simp
  have "\<exists>u. writes_text st st' u \<and> numberish ([] @ u)"
    by (rule leaf_loop_ok [where I = "\<lambda>a t. a = length t \<and> numberish t", OF acc _ assms [unfolded decode_number_slot_def]])
       (simp_all add: numberish_def)
  then show ?thesis by simp
qed


section \<open>Choice slots\<close>

definition unblanked :: "string \<Rightarrow> bool" where
  "unblanked s \<longleftrightarrow> list_all (\<lambda>c. \<not> is_blank c) s"

definition begins :: "string list \<Rightarrow> string \<Rightarrow> bool" where
  "begins names t \<longleftrightarrow> t = [] \<or> (\<exists>n \<in> set names. take (length t) n = t)"

text \<open>The engine picks one of the candidates it is shown.\<close>

definition selects :: "'s engine \<Rightarrow> bool" where
  "selects en \<longleftrightarrow> (\<forall>s cand. cand \<noteq> [] \<longrightarrow> fst (en_select en s cand) \<in> set cand)"

lemma skip_unblanked: "unblanked s \<Longrightarrow> skip_spaces s = s"
  by (cases s) (simp_all add: unblanked_def skip_spaces_def)

lemma begins_unblanked: "list_all unblanked names \<Longrightarrow> begins names t \<Longrightarrow> unblanked t"
  unfolding begins_def unblanked_def list_all_iff by (metis in_set_takeD empty_iff list.set(1))

lemma unblanked_append: "unblanked (a @ b) \<longleftrightarrow> unblanked a \<and> unblanked b"
  by (simp add: unblanked_def)

lemma prefix_ok_begins:
  assumes "list_all unblanked names" "begins names out" "spg_choice_prefix_ok names out piece"
  shows "begins names (out @ skip_spaces piece)"
proof -
  obtain n where n: "n \<in> set names" "take (length (skip_spaces (out @ piece))) n = skip_spaces (out @ piece)"
    using assms(3) by (auto simp: spg_choice_prefix_ok_def Let_def list_ex_iff split: if_splits)
  then have b: "begins names (skip_spaces (out @ piece))" by (auto simp: begins_def)
  show ?thesis
  proof (cases out)
    case Nil
    then show ?thesis using b by simp
  next
    case (Cons c cs)
    have "skip_spaces (out @ piece) = out @ piece"
      using begins_unblanked [OF assms(1,2)] Cons by (simp add: skip_spaces_def unblanked_def)
    then have "begins names (out @ piece)" "unblanked (out @ piece)" using b begins_unblanked [OF assms(1)] by auto
    then show ?thesis using skip_unblanked by (simp add: unblanked_append)
  qed
qed

lemma candidate_ok:
  "t \<in> set (candidates en names out s) \<Longrightarrow>
   \<exists>piece. en_token_to_str en t = Some piece \<and> spg_choice_prefix_ok names out piece"
  by (auto simp: candidates_def dest!: in_set_takeD split: option.splits)

lemma choice_loop_ok:
  assumes "selects en" "list_all unblanked names"
  shows "choice_loop j en names cap out st = (SPG_OK, out', st') \<Longrightarrow> begins names out \<Longrightarrow>
    begins names out' \<and> (\<exists>u. out' = out @ u \<and> writes_text st st' u)"
proof (induction j arbitrary: out st)
  case 0
  then show ?case by (simp add: choice_loop.simps writes_text_def)
next
  case (Suc j)
  let ?cand = "candidates en names out (fst st)"
  obtain best s1 where sel: "en_select en (fst st) ?cand = (best, s1)" by fastforce
  define ap where "ap = skip_spaces (case en_token_to_str en best of None \<Rightarrow> [] | Some piece \<Rightarrow> piece)"
  obtain as r' where a: "append_bytes ap (snd st) = (as, r')" by fastforce
  obtain status s2 where p: "en_prefill en s1 [best] = (status, s2)" by fastforce
  have run: "(if spg_choice_complete names out \<or> ?cand = [] then (SPG_OK, out, st)
      else if length out + length ap \<ge> cap then (SPG_OK, out, (s1, snd st))
      else if as \<noteq> SPG_OK then (as, out, (s1, r'))
      else if status \<noteq> SPG_OK then (status, out @ ap, (s2, r'))
      else choice_loop j en names cap (out @ ap) (s2, one_token r')) = (SPG_OK, out', st')"
    using Suc.prems(1) by (subst (asm) choice_loop.simps) (simp add: sel ap_def [symmetric] a p Let_def cong: if_cong split: if_splits)
  consider "out' = out" "writes_text st st' []"
    | "?cand \<noteq> []" "as = SPG_OK" "choice_loop j en names cap (out @ ap) (s2, one_token r') = (SPG_OK, out', st')"
    using run by (auto simp: writes_text_def split: if_splits)
  then show ?case
  proof cases
    case 1
    then show ?thesis using Suc.prems(2) by auto
  next
    case 2
    have "best \<in> set ?cand" using assms(1) 2(1) sel unfolding selects_def by (metis fst_conv)
    from candidate_ok [OF this] have "begins names (out @ ap)"
      using prefix_ok_begins [OF assms(2) Suc.prems(2)] by (auto simp: ap_def)
    from Suc.IH [OF 2(3) this] obtain u where u: "begins names out'" "out' = (out @ ap) @ u"
      "writes_text (s2, one_token r') st' u" by blast
    moreover have "gr_output r' = gr_output (snd st) @ ap" using append_bytes_ok a 2(2) by simp
    ultimately show ?thesis by (intro conjI exI [of _ "ap @ u"]) (simp_all add: writes_text_def)
  qed
qed

lemma forced_match_name:
  "forced_match names t = Some n \<Longrightarrow> n \<in> set names \<and> take (length t) n = t"
proof -
  have "foldl (\<lambda>m n. if take (length t) n = t then (case m of None \<Rightarrow> Some n | Some _ \<Rightarrow> None) else m) m ns = Some n \<Longrightarrow>
    (m = Some n \<or> n \<in> set ns \<and> take (length t) n = t)" for m ns
    by (induction ns arbitrary: m) (auto split: if_splits option.splits)
  then show "forced_match names t = Some n \<Longrightarrow> n \<in> set names \<and> take (length t) n = t"
    unfolding forced_match_def by blast
qed

lemma decode_choice_slot_ok:
  assumes "selects en" "list_all unblanked names" "decode_choice_slot en names cap st = (SPG_OK, out, st')"
  shows "\<exists>t. writes_text st st' t \<and> begins names t \<and> begins names out \<and> (spg_choice_complete names out \<longrightarrow> t = out)"
proof -
  obtain s1 r1 where c: "choice_loop 24 en names cap [] st = (SPG_OK, out, (s1, r1))"
    and f: "force_complete names out r1 = (SPG_OK, snd st')"
    using assms(3) by (auto simp: decode_choice_slot_def split: prod.splits if_splits)
  have l: "begins names out" "gr_output r1 = gr_output (snd st) @ out"
    using choice_loop_ok [OF assms(1,2) c] by (simp_all add: begins_def writes_text_def)
  have sk: "skip_spaces out = out" by (rule skip_unblanked [OF begins_unblanked [OF assms(2) l(1)]])
  show ?thesis
  proof (cases "spg_choice_complete names out \<or> forced_match names out = None")
    case True
    then have "snd st' = r1" using f sk by (auto simp: force_complete_def Let_def split: if_splits)
    then show ?thesis using l by (auto simp: writes_text_def)
  next
    case False
    then obtain n where n: "forced_match names out = Some n" "\<not> spg_choice_complete names out" by auto
    note m = forced_match_name [OF n(1)]
    have "gr_output (snd st') = gr_output r1 @ drop (length out) n"
      using f n sk append_bytes_ok [of "drop (length out) n" r1] by (simp add: force_complete_def Let_def)
    moreover have "out @ drop (length out) n = n" using m by (metis append_take_drop_id)
    ultimately have "writes_text st st' n" using l(2) by (simp add: writes_text_def)
    moreover have "begins names n" unfolding begins_def using m by (intro disjI2 bexI [of _ n]) simp_all
    ultimately show ?thesis using l(1) n(2) by blast
  qed
qed


section \<open>The whole form\<close>

definition seg_text :: "scaffold_seg \<Rightarrow> string \<Rightarrow> bool" where
  "seg_text seg t = (if seg = SCAFFOLD_NUMBER then numberish t else plain t)"

definition names_ok :: "string list \<Rightarrow> bool" where
  "names_ok names \<longleftrightarrow> list_all unblanked names \<and> list_all plain names"

definition config_ok :: "decode_config \<Rightarrow> bool" where
  "config_ok cfg \<longleftrightarrow> names_ok (dg_commands cfg) \<and> names_ok (map mc_name (dg_capabilities cfg))"

lemma begins_plain: "names_ok names \<Longrightarrow> begins names t \<Longrightarrow> plain t"
proof -
  assume a: "names_ok names" "begins names t"
  have "plain t" if "n \<in> set names" "take (length t) n = t" for n
  proof -
    have "plain n" using a(1) that(1) by (simp add: names_ok_def list_all_iff)
    moreover have "set t \<subseteq> set n" using that(2) set_take_subset by metis
    ultimately show ?thesis by (auto simp: plain_def)
  qed
  then show ?thesis using a(2) by (auto simp: begins_def plain_def)
qed

lemma capability_names_ok: "config_ok cfg \<Longrightarrow> names_ok (take n (map mc_name (filter P (dg_capabilities cfg))))"
  by (auto simp: config_ok_def names_ok_def list_all_iff dest!: in_set_takeD)

lemma writes_text_trans: "writes_text st st1 t \<Longrightarrow> writes_text st1 st' u \<Longrightarrow> writes_text st st' (t @ u)"
  by (simp add: writes_text_def)

lemma decode_seg_ok:
  assumes "selects en" "config_ok cfg" "decode_seg en cfg kind seg st = (SPG_OK, st')"
  shows "case seg of SCAFFOLD_LITERAL txt \<Rightarrow> writes_text st st' txt
    | _ \<Rightarrow> (\<exists>t. writes_text st st' t \<and> seg_text seg t)"
proof (cases seg)
  case (SCAFFOLD_LITERAL lit)
  then show ?thesis using assms(3) emit_literal_ok by (simp add: decode_seg_def)
next
  case SCAFFOLD_STRING
  then show ?thesis using assms(3) decode_string_slot_ok by (fastforce simp: decode_seg_def seg_text_def)
next
  case SCAFFOLD_NUMBER
  then show ?thesis using assms(3) decode_number_slot_ok by (fastforce simp: decode_seg_def seg_text_def)
next
  case SCAFFOLD_CAPABILITY
  let ?names = "take 32 (map mc_name (filter (\<lambda>c. mc_kind c = kind) (dg_capabilities cfg)))"
  have run: "decode_capability_slot en cfg kind st = (SPG_OK, st')" using assms(3) SCAFFOLD_CAPABILITY by (simp add: decode_seg_def)
  have ok: "names_ok ?names" by (rule capability_names_ok [OF assms(2)])
  have "\<exists>t. writes_text st st' t \<and> plain t"
  proof (cases "?names = []")
    case True
    then show ?thesis using run decode_string_slot_ok by (simp add: decode_capability_slot_def)
  next
    case False
    then obtain chosen where "decode_choice_slot en ?names 128 st = (SPG_OK, chosen, st')"
      using run by (auto simp: decode_capability_slot_def Let_def split: prod.splits)
    then show ?thesis using decode_choice_slot_ok [OF assms(1)] ok begins_plain [OF ok] unfolding names_ok_def by blast
  qed
  then show ?thesis using SCAFFOLD_CAPABILITY by (simp add: seg_text_def)
next
  case SCAFFOLD_COMMAND
  have run: "decode_command_slot en cfg st = (SPG_OK, st')" using assms(3) SCAFFOLD_COMMAND by (simp add: decode_seg_def)
  have ok: "names_ok (dg_commands cfg)" using assms(2) by (simp add: config_ok_def)
  have "\<exists>t. writes_text st st' t \<and> plain t"
  proof (cases "dg_commands cfg = []")
    case True
    then show ?thesis using run decode_string_slot_ok by (simp add: decode_command_slot_def)
  next
    case False
    then obtain chosen st1 where "decode_choice_slot en (dg_commands cfg) 64 st = (SPG_OK, chosen, st1)"
      "decode_string_slot en st1 = (SPG_OK, st')"
      using run by (auto simp: decode_command_slot_def split: prod.splits if_splits)
    then obtain t u where "writes_text st st1 t" "plain t" "writes_text st1 st' u" "plain u"
      using decode_choice_slot_ok [OF assms(1)] ok begins_plain [OF ok] decode_string_slot_ok unfolding names_ok_def by blast
    then show ?thesis by (intro exI [of _ "t @ u"]) (simp add: writes_text_def)
  qed
  then show ?thesis using SCAFFOLD_COMMAND by (simp add: seg_text_def)
qed

lemma decode_segs_ok:
  assumes "selects en" "config_ok cfg"
  shows "decode_segs en cfg kind segs st = (SPG_OK, st') \<Longrightarrow>
    \<exists>fs. list_all2 seg_text (slots segs) fs \<and> writes_text st st' (fill segs fs)"
proof (induction segs arbitrary: st)
  case Nil
  then show ?case by (intro exI [of _ "[]"]) (simp add: slots_def writes_text_def)
next
  case (Cons seg segs)
  obtain st1 where 1: "decode_seg en cfg kind seg st = (SPG_OK, st1)" "decode_segs en cfg kind segs st1 = (SPG_OK, st')"
    using Cons.prems by (auto split: prod.splits if_splits)
  obtain fs where fs: "list_all2 seg_text (slots segs) fs" "writes_text st1 st' (fill segs fs)" using Cons.IH [OF 1(2)] by blast
  note s = decode_seg_ok [OF assms 1(1)]
  show ?case
  proof (cases "is_slot seg")
    case False
    then obtain lit where "seg = SCAFFOLD_LITERAL lit" by (cases seg) auto
    then have "writes_text st st1 lit" using s by simp
    then have "writes_text st st' (lit @ fill segs fs)" using fs(2) by (simp add: writes_text_def)
    then show ?thesis using fs(1) \<open>seg = SCAFFOLD_LITERAL lit\<close> by (intro exI [of _ fs]) (simp add: slots_def)
  next
    case True
    then obtain t where t: "writes_text st st1 t" "seg_text seg t" using s by (cases seg) auto
    have "fill (seg # segs) (t # fs) = t @ fill segs fs" using True by (cases seg) simp_all
    moreover have "writes_text st st' (t @ fill segs fs)" using t(1) fs(2) by (simp add: writes_text_def)
    moreover have "list_all2 seg_text (slots (seg # segs)) (t # fs)" using t(2) fs(1) True by (simp add: slots_def)
    ultimately show ?thesis by (intro exI [of _ "t # fs"]) simp
  qed
qed

lemma reason_loop_output:
  "reason_loop j en raw st = (status, raw', st') \<Longrightarrow> gr_output (snd st') = gr_output (snd st)"
proof (induction j arbitrary: raw st)
  case 0
  then show ?case by (simp add: reason_loop.simps)
next
  case (Suc j)
  from Suc.prems Suc.IH show ?case
    by (subst (asm) reason_loop.simps) (fastforce simp: Let_def split: if_splits prod.splits option.splits)
qed

lemma emit_reason_prefix_ok:
  assumes "emit_reason_prefix en budget st = (SPG_OK, st')"
  shows "\<exists>raw. writes_text st st' (spg_reason_comment raw 600)"
proof -
  have n: "spg_reason_comment [] 600 = []" by (simp add: spg_reason_comment_def)
  obtain status raw s' r where l: "reason_loop budget en [] st = (status, raw, (s', r))" by (metis prod_cases4)
  note o = reason_loop_output [OF l]
  show ?thesis
    using assms l o n append_bytes_ok [of "spg_reason_comment raw 600" r]
    by (auto simp: emit_reason_prefix_def writes_text_def split: if_splits prod.splits intro: exI [of _ "[]"])
qed

section \<open>The whole reply\<close>

lemma kind_name_ok: "unblanked (spg_action_kind_to_string k) \<and> spg_action_kind_to_string k \<noteq> []"
  by (cases k) (simp_all add: unblanked_def is_blank_def)

lemma kind_names_unblanked: "list_all unblanked (spg_kind_names n)"
  by (auto simp: spg_kind_names_def list_all_iff kind_name_ok dest!: in_set_takeD)

lemma kind_names_all: "spg_kind_names 16 = map spg_action_kind_to_string ALL_KINDS"
  by (simp add: spg_kind_names_def ALL_KINDS_def)

lemma kind_resolved:
  assumes "spg_kind_from_text out = Some k" "unblanked out"
  shows "out = spg_action_kind_to_string k \<and> spg_choice_complete (spg_kind_names 16) out"
proof -
  have f: "k \<in> set ALL_KINDS" "spg_action_kind_to_string k = skip_spaces out"
    using assms(1) by (auto simp: spg_kind_from_text_def find_Some_iff)
  then have "out = spg_action_kind_to_string k" using skip_unblanked [OF assms(2)] by simp
  then show ?thesis using f kind_name_ok [of k]
    by (auto simp: spg_choice_complete_def kind_names_all list_ex_iff Let_def)
qed

text \<open>
  Whatever tokens the engine emits, a generation that ends well has written a comment, the forced opening and
  either the start of a kind's name or the form of that kind, filled with texts that hold no quote and no line
  end, and numbers that are digits after an optional minus.
\<close>

theorem decoded_output:
  assumes "selects en" "config_ok cfg" "dg_force_prefix cfg = FORCE_PREFIX"
    and "generate_constrained en cfg st = (SPG_OK, st')"
  shows "\<exists>raw. (\<exists>t. begins (spg_kind_names 16) t \<and> writes_text st st' (spg_reason_comment raw 600 @ FORCE_PREFIX @ t)) \<or>
    (\<exists>k fs. list_all2 seg_text (slots (spg_scaffold_for_kind k)) fs \<and>
       writes_text st st' (spg_reason_comment raw 600 @ mask_form k fs))"
proof -
  obtain st1 st2 st3 out where
    1: "emit_reason_prefix en (dg_reason_budget cfg) st = (SPG_OK, st1)" and
    2: "emit_literal en FORCE_PREFIX st1 = (SPG_OK, st2)" and
    3: "decode_choice_slot en (spg_kind_names 16) 64 st2 = (SPG_OK, out, st3)" and
    4: "(case spg_kind_from_text out of None \<Rightarrow> (SPG_OK, st3)
         | Some kind \<Rightarrow> decode_segs en cfg kind (spg_scaffold_for_kind kind) st3) = (SPG_OK, st')"
    using assms(4) unfolding generate_constrained_def assms(3) by (auto split: prod.splits if_splits)
  obtain raw where r: "writes_text st st1 (spg_reason_comment raw 600)" using emit_reason_prefix_ok [OF 1] by blast
  note p = emit_literal_ok [OF 2]
  obtain t where t: "writes_text st2 st3 t" "begins (spg_kind_names 16) t" "begins (spg_kind_names 16) out"
    "spg_choice_complete (spg_kind_names 16) out \<longrightarrow> t = out"
    using decode_choice_slot_ok [OF assms(1) kind_names_unblanked 3] by blast
  show ?thesis
  proof (cases "spg_kind_from_text out")
    case None
    then have "writes_text st st' (spg_reason_comment raw 600 @ FORCE_PREFIX @ t)" using 4 r p t(1) by (simp add: writes_text_def)
    then show ?thesis using t(2) by blast
  next
    case (Some k)
    have o: "out = spg_action_kind_to_string k" "t = spg_action_kind_to_string k"
      using kind_resolved [OF Some begins_unblanked [OF kind_names_unblanked t(3)]] t(4) by (blast, metis)
    have "decode_segs en cfg k (spg_scaffold_for_kind k) st3 = (SPG_OK, st')" using 4 Some by simp
    then obtain fs where fs: "list_all2 seg_text (slots (spg_scaffold_for_kind k)) fs" "writes_text st3 st' (fill (spg_scaffold_for_kind k) fs)"
      using decode_segs_ok [OF assms(1,2)] by blast
    have "writes_text st st' (spg_reason_comment raw 600 @ mask_form k fs)"
      using r p t(1) fs(2) o(2) by (simp add: writes_text_def mask_form_def)
    then show ?thesis using fs(1) by blast
  qed
qed

text \<open>
  A prefix several names share is completed with the last of them when their number is odd, although the names
  differ in what the model would have gone on to say; the completion is in the output only.
\<close>

lemma ambiguous_name_forced: "forced_match (spg_kind_names 16) ''memory_'' = Some ''memory_read''"
  by code_simp

text \<open>A small engine: it says the tokens of a script, and picks the first candidate of a choice.\<close>

definition script_engine :: "string list \<Rightarrow> nat list engine" where
  "script_engine vocab =
     \<lparr>en_tokenize = \<lambda>s t. (SPG_OK, [0]),
      en_prefill = \<lambda>s ids. (SPG_OK, s),
      en_decode_step = \<lambda>s. (case s of [] \<Rightarrow> (SPG_OK, length vocab, []) | t # ts \<Rightarrow> (SPG_OK, t, ts)),
      en_token_to_str = \<lambda>t. (if t < length vocab then Some (vocab ! t) else None),
      en_vocab = \<lambda>s. length vocab,
      en_select = \<lambda>s cand. (hd cand, s)\<rparr>"

lemma script_engine_selects: "selects (script_engine vocab)"
  by (auto simp: selects_def script_engine_def)

lemma script_engine_decodes:
  "case generate_constrained (script_engine [''x'', ''fin'', ''ish'', ''it runs'', [ch_quote]])
       \<lparr>dg_force_prefix = FORCE_PREFIX, dg_capabilities = [], dg_commands = [], dg_reason_budget = 0\<rparr>
       ([3, 0, 4], \<lparr>gr_capacity = 500, gr_output = [], gr_tokens = 0, gr_truncated = False\<rparr>) of
     (status, st') \<Rightarrow> status = SPG_OK \<and> gr_output (snd st') = mask_form ACTION_FINISH [''it runsx'']"
  by code_simp

text \<open>A kind that was completed this way is not seen as resolved, so the form ends after its name.\<close>

lemma forced_kind_without_scaffold:
  "case generate_constrained (script_engine [''fin''])
       \<lparr>dg_force_prefix = FORCE_PREFIX, dg_capabilities = [], dg_commands = [], dg_reason_budget = 0\<rparr>
       ([], \<lparr>gr_capacity = 500, gr_output = [], gr_tokens = 0, gr_truncated = False\<rparr>) of
     (status, st') \<Rightarrow> status = SPG_OK \<and> gr_output (snd st') = FORCE_PREFIX @ ''finish''"
  by code_simp

text \<open>The bound on a number is one on tokens: twelve tokens of two digits are twenty-four digits.\<close>

lemma number_slot_long:
  "case decode_number_slot (script_engine [''12'']) (replicate 12 0, \<lparr>gr_capacity = 500, gr_output = [], gr_tokens = 0, gr_truncated = False\<rparr>) of
     (status, st') \<Rightarrow> status = SPG_OK \<and> length (gr_output (snd st')) = 24"
  by code_simp

end
