(* ===== verification/CmdMenu.thy ===== *)
theory CmdMenu
  imports DecodeProps SexprSpans SexprWriter
begin

text \<open>
  The command menu of \<open>src/exec/cmd_menu.c\<close>, with the host classification and the status line of
  \<open>src/exec/host_probe.c\<close>. The menu is what the model is offered, built in or loaded from a file, and
  the names that mask the first word of a decoded command. It permits nothing.
\<close>

section \<open>The host\<close>

datatype host_os =
  HOST_OS_UNKNOWN | HOST_OS_LINUX | HOST_OS_MACOS | HOST_OS_FREEBSD | HOST_OS_OPENBSD | HOST_OS_NETBSD

definition classify :: "string \<Rightarrow> host_os" where
  "classify sysname =
     (if sysname = ''Linux'' then HOST_OS_LINUX
      else if sysname = ''Darwin'' then HOST_OS_MACOS
      else if sysname = ''FreeBSD'' then HOST_OS_FREEBSD
      else if sysname = ''OpenBSD'' then HOST_OS_OPENBSD
      else if sysname = ''NetBSD'' then HOST_OS_NETBSD
      else HOST_OS_UNKNOWN)"

fun spg_host_os_to_string :: "host_os \<Rightarrow> string" where
  "spg_host_os_to_string HOST_OS_UNKNOWN = ''unknown''"
| "spg_host_os_to_string HOST_OS_LINUX = ''linux''"
| "spg_host_os_to_string HOST_OS_MACOS = ''macos''"
| "spg_host_os_to_string HOST_OS_FREEBSD = ''freebsd''"
| "spg_host_os_to_string HOST_OS_OPENBSD = ''openbsd''"
| "spg_host_os_to_string HOST_OS_NETBSD = ''netbsd''"

definition HOST_FIELD_CAP :: nat where "HOST_FIELD_CAP = 256"

record uts_name =
  un_sysname :: string
  un_release :: string
  un_version :: string
  un_machine :: string
  un_nodename :: string

record host_info =
  hi_os :: host_os
  hi_uts :: uts_name

definition copy_field :: "string \<Rightarrow> string" where
  "copy_field src = take (HOST_FIELD_CAP - 1) src"

definition empty_uts :: uts_name where
  "empty_uts = \<lparr>un_sysname = [], un_release = [], un_version = [], un_machine = [], un_nodename = []\<rparr>"

text \<open>What \<open>uname\<close> answers is a parameter.\<close>

definition spg_host_probe :: "uts_name option \<Rightarrow> spg_status \<times> host_info" where
  "spg_host_probe uname =
     (case uname of
        None \<Rightarrow> (SPG_E_IO, \<lparr>hi_os = HOST_OS_UNKNOWN, hi_uts = empty_uts\<rparr>)
      | Some u \<Rightarrow>
          let sysname = copy_field (un_sysname u)
          in (SPG_OK, \<lparr>hi_os = classify sysname,
                hi_uts = \<lparr>un_sysname = sysname, un_release = copy_field (un_release u),
                  un_version = copy_field (un_version u), un_machine = copy_field (un_machine u),
                  un_nodename = copy_field (un_nodename u)\<rparr>\<rparr>))"

text \<open>A field of the telemetry the platform did not give up is \<open>None\<close>.\<close>

record host_telemetry =
  ht_cpu_count :: "u32 option"
  ht_load :: "(u32 \<times> u32 \<times> u32) option"
  ht_load1_per_cpu_bp :: "u32 option"
  ht_temperature_mc :: "32 word option"
  ht_process_count :: "u32 option"

definition u32_to_dec :: "u32 \<Rightarrow> string" where "u32_to_dec v = u64_to_dec (ucast v)"

definition s32_to_dec :: "32 word \<Rightarrow> string" where
  "s32_to_dec v = (if sint v < 0 then CHR ''-'' # u64_to_dec (of_int (- sint v)) else u64_to_dec (of_int (sint v)))"

text \<open>The load per processor, from the load that is shown.\<close>

definition load_per_cpu_bp :: "u32 \<Rightarrow> u32 option \<Rightarrow> u32 option" where
  "load_per_cpu_bp load1_centi cpus =
     (case cpus of
        None \<Rightarrow> None
      | Some n \<Rightarrow> if n > 0 then Some (ucast ((ucast load1_centi * 100 :: u64) div ucast n)) else None)"

definition status_parts :: "host_telemetry \<Rightarrow> string list" where
  "status_parts t =
     [''(host_status'',
      (case ht_cpu_count t of None \<Rightarrow> [] | Some n \<Rightarrow> '' (cpus '' @ u32_to_dec n @ '')''),
      (case ht_load t of None \<Rightarrow> []
       | Some (l1, l5, l15) \<Rightarrow> '' (load1_centi '' @ u32_to_dec l1 @ '') (load5_centi '' @ u32_to_dec l5 @
           '') (load15_centi '' @ u32_to_dec l15 @ '')''),
      (case ht_load1_per_cpu_bp t of None \<Rightarrow> [] | Some n \<Rightarrow> '' (load1_per_cpu_bp '' @ u32_to_dec n @ '')''),
      (case ht_temperature_mc t of None \<Rightarrow> [] | Some n \<Rightarrow> '' (temp_mc '' @ s32_to_dec n @ '')''),
      (case ht_process_count t of None \<Rightarrow> [] | Some n \<Rightarrow> '' (processes '' @ u32_to_dec n @ '')''),
      '')'']"

text \<open>\<open>None\<close> for a part that does not fit: the buffer is emptied and the call fails.\<close>

fun append_parts :: "nat \<Rightarrow> string \<Rightarrow> string list \<Rightarrow> string option" where
  "append_parts cap out [] = Some out"
| "append_parts cap out (p # ps) =
     (if p \<noteq> [] \<and> length p \<ge> cap - length out then None else append_parts cap (out @ p) ps)"

definition spg_host_telemetry_render :: "host_telemetry \<Rightarrow> nat \<Rightarrow> spg_status \<times> string" where
  "spg_host_telemetry_render t cap =
     (if cap = 0 then (SPG_E_INVALID_ARG, [])
      else (case append_parts cap [] (status_parts t) of None \<Rightarrow> (SPG_E_LIMIT, []) | Some out \<Rightarrow> (SPG_OK, out)))"

section \<open>The built-in menu\<close>

record menu_entry =
  me_name :: string
  me_common_flags :: string
  me_summary :: string
  me_os_mask :: u32
  me_default_timeout_ms :: u64
  me_uses_network :: bool

fun os_bit :: "host_os \<Rightarrow> u32" where
  "os_bit HOST_OS_UNKNOWN = 1"
| "os_bit HOST_OS_LINUX = 2"
| "os_bit HOST_OS_MACOS = 4"
| "os_bit HOST_OS_FREEBSD = 8"
| "os_bit HOST_OS_OPENBSD = 16"
| "os_bit HOST_OS_NETBSD = 32"

definition CMD_OS_ALL :: u32 where "CMD_OS_ALL = 62"

definition menu_row :: "string \<Rightarrow> string \<Rightarrow> string \<Rightarrow> u64 \<Rightarrow> bool \<Rightarrow> menu_entry" where
  "menu_row name flags summary timeout net =
     \<lparr>me_name = name, me_common_flags = flags, me_summary = summary, me_os_mask = CMD_OS_ALL,
      me_default_timeout_ms = timeout, me_uses_network = net\<rparr>"

definition k_menu :: "menu_entry list" where
  "k_menu =
     [menu_row ''uname'' ''-a -s -r -m -p'' ''print system / kernel information'' 2000 False,
      menu_row ''hostname'' ''-s -f'' ''print the host name'' 2000 False,
      menu_row ''id'' ''-u -g -n -G'' ''print user and group identity'' 2000 False,
      menu_row ''whoami'' [] ''print the effective user name'' 2000 False,
      menu_row ''echo'' ''-n'' ''write arguments to standard output'' 2000 False,
      menu_row ''ls'' ''-l -a -h -R'' ''list directory contents'' 5000 False,
      menu_row ''cat'' ''-n'' ''concatenate and print files'' 5000 False,
      menu_row ''ps'' ''aux -ef'' ''report process status'' 5000 False,
      menu_row ''df'' ''-h -k'' ''report file system disk usage'' 5000 False,
      menu_row ''ssh'' ''-p -i -o -l'' ''OpenSSH remote login client'' 10000 True]"

definition spg_cmd_menu_find :: "string \<Rightarrow> menu_entry option" where
  "spg_cmd_menu_find name = List.find (\<lambda>e. me_name e = name) k_menu"

definition spg_cmd_menu_available :: "menu_entry \<Rightarrow> host_os \<Rightarrow> bool" where
  "spg_cmd_menu_available e os \<longleftrightarrow> and (me_os_mask e) (os_bit os) \<noteq> 0"

definition spg_cmd_menu_at :: "nat \<Rightarrow> menu_entry option" where
  "spg_cmd_menu_at i = (if i \<ge> length k_menu then None else Some (k_menu ! i))"

definition menu_line :: "menu_entry \<Rightarrow> string" where
  "menu_line e =
     ''  ('' @ me_name e @ '' '' @ [ch_quote] @ me_summary e @ [ch_quote] @
     (if me_common_flags e \<noteq> [] then '' '' @ [ch_quote] @ me_common_flags e @ [ch_quote] else []) @ '')'' @ [ch_nl]"

fun render_lines :: "nat \<Rightarrow> string \<Rightarrow> string list \<Rightarrow> string" where
  "render_lines cap out [] = out"
| "render_lines cap out (l # ls) =
     (if length l \<ge> cap - length out then out else render_lines cap (out @ l) ls)"

definition spg_cmd_menu_render :: "host_os \<Rightarrow> nat \<Rightarrow> string" where
  "spg_cmd_menu_render os cap =
     (if cap = 0 then []
      else render_lines cap [] (map menu_line (filter (\<lambda>e. spg_cmd_menu_available e os) k_menu)))"

definition spg_cmd_menu_builtin_names :: "host_os \<Rightarrow> nat \<Rightarrow> string list" where
  "spg_cmd_menu_builtin_names os cap =
     take cap (map me_name (filter (\<lambda>e. spg_cmd_menu_available e os) k_menu))"

section \<open>A menu file\<close>

definition CMD_MENU_MAX :: nat where "CMD_MENU_MAX = 64"
definition CMD_MENU_TEXT :: nat where "CMD_MENU_TEXT = 8192"

record cmd_menu =
  cm_entries :: "menu_entry list"
  cm_text_used :: nat

text \<open>A copied text is read up to its first null byte; it occupies its whole length and a terminator.\<close>

definition intern :: "nat \<Rightarrow> string \<Rightarrow> text_span \<Rightarrow> (string \<times> nat) option" where
  "intern used input sp =
     (if sp_offset sp > length input \<or> sp_length sp > length input - sp_offset sp \<or>
         sp_length sp + 1 > CMD_MENU_TEXT - used then None
      else Some (c_string (span_text input sp), used + sp_length sp + 1))"

fun entry_field_in :: "nat \<Rightarrow> string \<Rightarrow> sexpr_node list \<Rightarrow> string \<Rightarrow> nat list \<Rightarrow> (string \<times> nat) option" where
  "entry_field_in used input nodes name [] = None"
| "entry_field_in used input nodes name (f # fs) =
     (let fname = spg_sexpr_first_child nodes f
      in if fname = INVALID_INDEX \<or> nd_kind (nodes ! fname) \<noteq> NODE_SYMBOL \<or>
            \<not> spg_sexpr_span_eq_cstr input (nd_span (nodes ! fname)) name
         then entry_field_in used input nodes name fs
         else (let v = spg_sexpr_second_child nodes f
               in if v = INVALID_INDEX then None
                  else (case spg_sexpr_string_payload_span (nodes ! v) of
                          None \<Rightarrow> None
                        | Some sp \<Rightarrow> intern used input sp)))"

definition entry_field :: "nat \<Rightarrow> string \<Rightarrow> sexpr_node list \<Rightarrow> nat \<Rightarrow> string \<Rightarrow> (string \<times> nat) option" where
  "entry_field used input nodes entry name =
     entry_field_in used input nodes name (siblings nodes (spg_sexpr_first_child nodes entry))"

definition used_after :: "nat \<Rightarrow> (string \<times> nat) option \<Rightarrow> nat" where
  "used_after used r = (case r of None \<Rightarrow> used | Some (_, used') \<Rightarrow> used')"

fun load_menu_entries :: "string \<Rightarrow> sexpr_node list \<Rightarrow> nat list \<Rightarrow> cmd_menu \<Rightarrow> spg_status \<times> cmd_menu" where
  "load_menu_entries input nodes [] m = (if cm_entries m \<noteq> [] then SPG_OK else SPG_E_SCHEMA, m)"
| "load_menu_entries input nodes (e # es) m =
     (if nd_kind (nodes ! e) \<noteq> NODE_LIST then (SPG_E_SCHEMA, m)
      else if length (cm_entries m) \<ge> CMD_MENU_MAX then (SPG_E_LIMIT, m)
      else (let name = entry_field (cm_text_used m) input nodes e ''name'';
                used1 = used_after (cm_text_used m) name;
                summary = entry_field used1 input nodes e ''summary'';
                used2 = used_after used1 summary;
                flags = entry_field used2 input nodes e ''flags'';
                m' = m\<lparr>cm_text_used := used_after used2 flags\<rparr>
            in (case (name, summary) of
                  (Some (n, _), Some (s, _)) \<Rightarrow>
                    if n = [] then (SPG_E_SCHEMA, m')
                    else load_menu_entries input nodes es
                      (m'\<lparr>cm_entries := cm_entries m @
                         [menu_row n (case flags of None \<Rightarrow> [] | Some (fl, _) \<Rightarrow> fl) s 5000 False]\<rparr>)
                | _ \<Rightarrow> (SPG_E_SCHEMA, m'))))"

definition spg_cmd_menu_load :: "string \<Rightarrow> spg_status \<times> cmd_menu" where
  "spg_cmd_menu_load input =
     (let empty = \<lparr>cm_entries = [], cm_text_used = 0\<rparr> in
      case spg_sexpr_parse_text input 2048 2048 of (st, toks, nodes, e) \<Rightarrow>
        if st \<noteq> SPG_OK \<or> nodes = [] \<or> nd_kind (nodes ! 0) \<noteq> NODE_LIST then (SPG_E_FORMAT, empty)
        else (let head = spg_sexpr_first_child nodes 0
              in if head = INVALID_INDEX \<or> \<not> spg_sexpr_span_eq_cstr input (nd_span (nodes ! head)) ''command_menu''
                 then (SPG_E_SCHEMA, empty)
                 else load_menu_entries input nodes (siblings nodes (nd_next_sibling (nodes ! head))) empty))"

definition spg_cmd_menu_render_of :: "cmd_menu \<Rightarrow> nat \<Rightarrow> string" where
  "spg_cmd_menu_render_of m cap = (if cap = 0 then [] else render_lines cap [] (map menu_line (cm_entries m)))"

definition spg_cmd_menu_names :: "cmd_menu \<Rightarrow> nat \<Rightarrow> string list" where
  "spg_cmd_menu_names m cap = take cap (map me_name (cm_entries m))"

section \<open>What is shown\<close>

text \<open>A menu in a small buffer is a shorter menu: the longest row of whole lines with room for its terminator.\<close>

lemma render_lines_takes:
  "length out < cap \<Longrightarrow>
   \<exists>k \<le> length ls. render_lines cap out ls = out @ concat (take k ls) \<and> length (out @ concat (take k ls)) < cap \<and>
     (k < length ls \<longrightarrow> cap \<le> length (out @ concat (take (Suc k) ls)))"
proof (induction ls arbitrary: out)
  case (Cons l ls)
  show ?case
  proof (cases "length l \<ge> cap - length out")
    case True
    then show ?thesis using Cons.prems by (intro exI [of _ 0]) simp
  next
    case False
    then have "length (out @ l) < cap" by simp
    from Cons.IH [OF this] obtain k where "k \<le> length ls" "render_lines cap (out @ l) ls = (out @ l) @ concat (take k ls)"
      "length ((out @ l) @ concat (take k ls)) < cap" "k < length ls \<longrightarrow> cap \<le> length ((out @ l) @ concat (take (Suc k) ls))"
      by blast
    then show ?thesis using False by (intro exI [of _ "Suc k"]) simp
  qed
qed simp

lemma menu_render_whole_lines:
  assumes "0 < cap"
  shows "\<exists>k \<le> length (cm_entries m). spg_cmd_menu_render_of m cap = concat (map menu_line (take k (cm_entries m))) \<and>
    length (spg_cmd_menu_render_of m cap) < cap \<and>
    (k < length (cm_entries m) \<longrightarrow> cap \<le> length (concat (map menu_line (take (Suc k) (cm_entries m)))))"
  using render_lines_takes [of "[]" cap "map menu_line (cm_entries m)"] assms
  by (auto simp: spg_cmd_menu_render_of_def take_map)

text \<open>The built-in names fit the decoder: no blank, no quote, no line end, and each is found again.\<close>

lemma builtin_names_ok: "names_ok (spg_cmd_menu_builtin_names os cap)"
proof -
  have "names_ok (map me_name k_menu)"
    by (simp add: k_menu_def menu_row_def names_ok_def unblanked_def is_blank_def plain_def)
  then show ?thesis
    by (auto simp: spg_cmd_menu_builtin_names_def names_ok_def list_all_iff dest!: in_set_takeD)
qed

lemma builtin_names_found:
  assumes "n \<in> set (spg_cmd_menu_builtin_names os cap)"
  shows "\<exists>e. spg_cmd_menu_find n = Some e \<and> me_name e = n"
proof -
  obtain e where e: "e \<in> set k_menu" "me_name e = n"
    using assms by (auto simp: spg_cmd_menu_builtin_names_def dest!: in_set_takeD)
  obtain e' where f: "spg_cmd_menu_find n = Some e'"
    using e by (cases "spg_cmd_menu_find n") (auto simp: spg_cmd_menu_find_def find_None_iff)
  then have "me_name e' = n" by (auto simp: spg_cmd_menu_find_def find_Some_iff)
  then show ?thesis using f by blast
qed

text \<open>What a loaded menu holds: between one and 64 named entries, none of which claims anything but its text.\<close>

definition menu_ok :: "cmd_menu \<Rightarrow> bool" where
  "menu_ok m \<longleftrightarrow> length (cm_entries m) \<le> CMD_MENU_MAX \<and> cm_text_used m \<le> CMD_MENU_TEXT \<and>
     (\<forall>e \<in> set (cm_entries m). me_name e \<noteq> [] \<and> me_os_mask e = CMD_OS_ALL \<and> me_default_timeout_ms e = 5000 \<and> \<not> me_uses_network e)"

lemma entry_field_used: "entry_field used input nodes e name = Some (t, used') \<Longrightarrow> used \<le> CMD_MENU_TEXT \<Longrightarrow>
    used + length t < used' \<and> used' \<le> CMD_MENU_TEXT"
proof -
  have c: "length (c_string (span_text input sp)) \<le> sp_length sp" for sp
    using length_takeWhile_le [of _ "span_text input sp"] by (fastforce simp: c_string_def span_text_def)
  have "entry_field_in used input nodes name fs = Some (t, used') \<Longrightarrow> used \<le> CMD_MENU_TEXT \<Longrightarrow>
      used + length t < used' \<and> used' \<le> CMD_MENU_TEXT" for fs
    by (induction fs) (use c in \<open>auto simp: Let_def intern_def le_imp_less_Suc split: if_splits option.splits\<close>)
  then show "entry_field used input nodes e name = Some (t, used') \<Longrightarrow> used \<le> CMD_MENU_TEXT \<Longrightarrow>
      used + length t < used' \<and> used' \<le> CMD_MENU_TEXT" by (simp add: entry_field_def)
qed

lemma used_after_bound: "used \<le> CMD_MENU_TEXT \<Longrightarrow> used_after used (entry_field used input nodes e name) \<le> CMD_MENU_TEXT"
  using entry_field_used [of used input nodes e name] by (auto simp: used_after_def split: option.splits)

lemma load_menu_entries_ok: "menu_ok m \<Longrightarrow> load_menu_entries input nodes es m = (s, m') \<Longrightarrow>
    menu_ok m' \<and> (s = SPG_OK \<longrightarrow> cm_entries m' \<noteq> [])"
proof (induction es arbitrary: m)
  case (Cons e es)
  define name where "name = entry_field (cm_text_used m) input nodes e ''name''"
  define used1 where "used1 = used_after (cm_text_used m) name"
  define summary where "summary = entry_field used1 input nodes e ''summary''"
  define used2 where "used2 = used_after used1 summary"
  define flags where "flags = entry_field used2 input nodes e ''flags''"
  have u: "cm_text_used m \<le> CMD_MENU_TEXT" using Cons.prems(1) by (simp add: menu_ok_def)
  have u3: "used_after used2 flags \<le> CMD_MENU_TEXT"
    unfolding flags_def by (rule used_after_bound) (simp add: used2_def summary_def used1_def name_def used_after_bound u)
  have k: "menu_ok (m\<lparr>cm_text_used := used_after used2 flags\<rparr>)" using Cons.prems(1) u3 by (simp add: menu_ok_def)
  show ?case
  proof (cases "nd_kind (nodes ! e) \<noteq> NODE_LIST \<or> length (cm_entries m) \<ge> CMD_MENU_MAX \<or>
      name = None \<or> summary = None \<or> (\<exists>x. name = Some ([], x))")
    case True
    then show ?thesis using Cons.prems k
      unfolding load_menu_entries.simps name_def [symmetric] used1_def [symmetric] Let_def
        summary_def [symmetric] used2_def [symmetric] flags_def [symmetric]
      by (auto split: if_splits option.splits prod.splits)
  next
    case False
    then obtain n x sm y where ns: "name = Some (n, x)" "summary = Some (sm, y)" "n \<noteq> []" by (metis not_None_eq surj_pair)
    let ?m = "m\<lparr>cm_text_used := used_after used2 flags,
      cm_entries := cm_entries m @ [menu_row n (case flags of None \<Rightarrow> [] | Some (fl, _) \<Rightarrow> fl) sm 5000 False]\<rparr>"
    have "menu_ok ?m" using k False ns(3) by (auto simp: menu_ok_def menu_row_def)
    moreover have "load_menu_entries input nodes es ?m = (s, m')"
      using Cons.prems(2) False ns
      unfolding load_menu_entries.simps name_def [symmetric] used1_def [symmetric] Let_def
        summary_def [symmetric] used2_def [symmetric] flags_def [symmetric] by simp
    ultimately show ?thesis by (rule Cons.IH)
  qed
qed (auto split: if_splits)

lemma loaded_menu_ok:
  assumes "spg_cmd_menu_load input = (s, m)"
  shows "menu_ok m \<and> (s = SPG_OK \<longrightarrow> cm_entries m \<noteq> [])"
proof -
  have e: "menu_ok \<lparr>cm_entries = [], cm_text_used = 0\<rparr>" by (simp add: menu_ok_def)
  show ?thesis using assms e load_menu_entries_ok [OF e]
    by (auto simp: spg_cmd_menu_load_def Let_def split: prod.splits if_splits)
qed

text \<open>Flags that no longer fit the text store are dropped without an error.\<close>

lemma flags_dropped_when_full:
  assumes "nd_kind (nodes ! e) = NODE_LIST" "length (cm_entries m) < CMD_MENU_MAX"
    and "entry_field (cm_text_used m) input nodes e ''name'' = Some (n, u1)" "n \<noteq> []"
    and "entry_field u1 input nodes e ''summary'' = Some (sm, u2)" "entry_field u2 input nodes e ''flags'' = None"
  shows "load_menu_entries input nodes [e] m =
    (SPG_OK, m\<lparr>cm_text_used := u2, cm_entries := cm_entries m @ [menu_row n [] sm 5000 False]\<rparr>)"
  using assms by (simp add: Let_def used_after_def)

section \<open>The status line\<close>

text \<open>The status line is whole or absent.\<close>

lemma append_parts_whole: "append_parts cap out ps = Some out' \<Longrightarrow> out' = out @ concat ps"
  by (induction ps arbitrary: out) (fastforce split: if_splits)+

lemma host_status_whole:
  "spg_host_telemetry_render t cap = (SPG_OK, line) \<Longrightarrow> line = concat (status_parts t)"
  "spg_host_telemetry_render t cap = (s, line) \<Longrightarrow> s \<noteq> SPG_OK \<Longrightarrow> line = []"
  by (auto simp: spg_host_telemetry_render_def dest!: append_parts_whole split: if_splits option.splits)

end
