(* ===== verification/ExecCommand.thy ===== *)
theory ExecCommand
  imports CmdMenu ShellExec
begin

text \<open>
  The command \<open>geistshell exec\<close> of \<open>src/exec/exec_command.c\<close>: one program given on the command line is
  checked by the executor boundary, run, and reported as a form. The result is the exit code and what is
  printed on standard output; the usage message goes to the other stream and is left out.
\<close>

definition EXEC_OUTPUT_CAP :: nat where "EXEC_OUTPUT_CAP = 32768"
definition EXEC_PAYLOAD_CAP :: nat where "EXEC_PAYLOAD_CAP = 4096"
definition EXEC_MAX_TIMEOUT :: u64 where "EXEC_MAX_TIMEOUT = 5000"
definition EXEC_DEF_TIMEOUT :: u64 where "EXEC_DEF_TIMEOUT = 3000"
definition EXEC_MAX_OUT_BYTE :: nat where "EXEC_MAX_OUT_BYTE = 1048576"

text \<open>The appends ignore their status: what follows a text that did not fit is dropped with it.\<close>

definition append_ignoring :: "sexpr_writer \<Rightarrow> string \<Rightarrow> sexpr_writer" where
  "append_ignoring w t = fst (spg_sexpr_writer_append_text w t)"

definition quoted_char :: "char \<Rightarrow> string" where
  "quoted_char c =
     (if c = ch_quote \<or> c = ch_bslash then [ch_bslash, c]
      else if c = ch_nl \<or> c = ch_cr \<or> c = ch_tab then '' ''
      else [c])"

definition quoted_texts :: "string \<Rightarrow> string list" where
  "quoted_texts s = [[ch_quote]] @ map quoted_char s @ [[ch_quote]]"

definition field_texts :: "string \<Rightarrow> string \<Rightarrow> string list" where
  "field_texts fname val = ['' ('', fname, '' ''] @ quoted_texts val @ ['')'']"

definition bool_texts :: "string \<Rightarrow> bool \<Rightarrow> string list" where
  "bool_texts fname b = ['' ('', fname, if b then '' true)'' else '' false)'']"

definition u64_texts :: "string \<Rightarrow> u64 \<Rightarrow> string list" where
  "u64_texts fname v = ['' ('', fname, '' '', u64_to_dec v, '')'']"

definition host_texts :: "host_info \<Rightarrow> string list" where
  "host_texts host =
     ['' (host (os '', spg_host_os_to_string (hi_os host), '')''] @
     field_texts ''sysname'' (un_sysname (hi_uts host)) @
     field_texts ''release'' (un_release (hi_uts host)) @
     field_texts ''version'' (un_version (hi_uts host)) @
     field_texts ''machine'' (un_machine (hi_uts host)) @
     field_texts ''nodename'' (un_nodename (hi_uts host)) @ ['')'']"

definition request_texts :: "host_info \<Rightarrow> string list \<Rightarrow> bool \<Rightarrow> boundary_plan \<Rightarrow> string list" where
  "request_texts host argv uses_network plan =
     [''(exec_result''] @ host_texts host @ ['' (command''] @ field_texts ''name'' (hd argv) @
     bool_texts ''uses_network'' uses_network @ u64_texts ''argc'' (of_nat (length argv)) @ ['')'', '' (boundary''] @
     bool_texts ''approved'' (bp_approved plan) @
     field_texts ''reason'' (spg_executor_boundary_reason_to_string (bp_reason plan)) @ ['')'']"

definition result_texts :: "cmd_result \<Rightarrow> string list" where
  "result_texts r =
     field_texts ''status'' (spg_status_to_string (rs_status r)) @ bool_texts ''started'' (rs_started r) @
     bool_texts ''exited'' (rs_exited r) @ u64_texts ''exit_code'' (of_int (rs_exit_code r mod 256)) @
     u64_texts ''term_signal'' (of_int (rs_term_signal r)) @ bool_texts ''timed_out'' (rs_timed_out r) @
     u64_texts ''stdout_len'' (of_nat (length (rs_stdout r))) @ bool_texts ''stdout_truncated'' (rs_stdout_truncated r) @
     u64_texts ''stderr_len'' (of_nat (length (rs_stderr r))) @ bool_texts ''stderr_truncated'' (rs_stderr_truncated r) @
     ['')'']"

definition exec_payload :: "string list \<Rightarrow> string" where
  "exec_payload texts =
     writer_content (foldl append_ignoring (spg_sexpr_writer_init EXEC_PAYLOAD_CAP (replicate EXEC_PAYLOAD_CAP ch_nul)) texts)"

definition exec_boundary_config :: boundary_config where
  "exec_boundary_config = \<lparr>bc_execution_enabled = True, bc_allowed_workdir_prefix = Some ''/'',
     bc_max_timeout_ms = EXEC_MAX_TIMEOUT, bc_max_stdout_bytes = EXEC_MAX_OUT_BYTE,
     bc_max_stderr_bytes = EXEC_MAX_OUT_BYTE, bc_require_clean_env = False\<rparr>"

definition exec_boundary_request :: "u64 \<Rightarrow> boundary_request" where
  "exec_boundary_request timeout = \<lparr>br_working_dir = Some ''/'', br_timeout_ms = timeout,
     br_stdout_limit_bytes = EXEC_OUTPUT_CAP, br_stderr_limit_bytes = EXEC_OUTPUT_CAP, br_env_cleared = False\<rparr>"

definition exec_timeout :: "menu_entry option \<Rightarrow> u64" where
  "exec_timeout desc =
     (case desc of
        None \<Rightarrow> EXEC_DEF_TIMEOUT
      | Some e \<Rightarrow> if me_default_timeout_ms e > 0
          then (if me_default_timeout_ms e < EXEC_MAX_TIMEOUT then me_default_timeout_ms e else EXEC_MAX_TIMEOUT)
          else EXEC_DEF_TIMEOUT)"

definition exec_network :: "menu_entry option \<Rightarrow> bool" where
  "exec_network desc = (case desc of None \<Rightarrow> False | Some e \<Rightarrow> me_uses_network e)"

definition exec_request :: "string list \<Rightarrow> u64 \<Rightarrow> cmd_request" where
  "exec_request argv timeout = \<lparr>rq_argv = argv, rq_working_dir = None, rq_clear_env = False,
     rq_timeout_ms = timeout, rq_stdout_cap = EXEC_OUTPUT_CAP, rq_stderr_cap = EXEC_OUTPUT_CAP\<rparr>"

definition exec_exit_code :: "spg_status \<Rightarrow> cmd_result \<Rightarrow> int" where
  "exec_exit_code run_status r =
     (if run_status \<noteq> SPG_OK \<or> rs_status r \<noteq> SPG_OK \<or> \<not> rs_started r then 4
      else if rs_timed_out r \<or> \<not> rs_exited r then 4
      else rs_exit_code r mod 256)"

definition exec_printed :: "string list \<Rightarrow> cmd_result \<Rightarrow> string" where
  "exec_printed texts r =
     exec_payload (texts @ result_texts r) @ [ch_nl] @
     (if rs_stdout r \<noteq> [] then ''--- stdout ---'' @ [ch_nl] @ c_string (rs_stdout r) @ [ch_nl] else []) @
     (if rs_stderr r \<noteq> [] then ''--- stderr ---'' @ [ch_nl] @ c_string (rs_stderr r) @ [ch_nl] else [])"

definition spg_exec_command ::
  "realpath \<Rightarrow> os_env \<Rightarrow> uts_name option \<Rightarrow> spawn list \<Rightarrow> string list \<Rightarrow> int \<times> string \<times> spawn list" where
  "spg_exec_command realpath env uname log argv =
     (if argv = [] \<or> hd argv = [] then (2, [], log)
      else (let host = snd (spg_host_probe uname);
                desc = spg_cmd_menu_find (hd argv);
                timeout = exec_timeout desc
            in case spg_executor_boundary_check_shell realpath exec_boundary_config (hd argv) (exec_network desc)
                 (exec_boundary_request timeout) of
                 None \<Rightarrow> (4, [], log)
               | Some plan \<Rightarrow>
                   (let texts = request_texts host argv (exec_network desc) plan
                    in if \<not> bp_approved plan then (3, exec_payload (texts @ ['')'']) @ [ch_nl], log)
                       else (case spg_cmd_executor_run env log [exec_request argv timeout] of
                               (run_status, rs, log') \<Rightarrow>
                                 (exec_exit_code run_status (hd rs), exec_printed texts (hd rs), log')))))"

section \<open>What it runs\<close>

lemma exec_timeout_ok: "exec_timeout desc \<noteq> 0 \<and> \<not> EXEC_MAX_TIMEOUT < exec_timeout desc"
  by (auto simp: exec_timeout_def EXEC_DEF_TIMEOUT_def EXEC_MAX_TIMEOUT_def split: option.splits)

lemma find_menu_network: "exec_network (spg_cmd_menu_find name) \<longleftrightarrow> name = ''ssh''"
  by (auto simp: exec_network_def spg_cmd_menu_find_def k_menu_def menu_row_def)

text \<open>
  The command runs what it is given, once, unless it is the one name the menu marks as using the network:
  the boundary refuses that one, and with a root directory that resolves it refuses nothing else.
\<close>

theorem exec_command_runs:
  assumes "argv \<noteq> []" "hd argv \<noteq> []" "length argv \<le> CMD_MAX_ARGS" "realpath ''/'' = Some root"
  shows "snd (snd (spg_exec_command realpath env uname log argv)) =
    (if hd argv = ''ssh'' then log
     else log @ [\<lparr>sw_argv = argv, sw_working_dir = None, sw_clear_env = False,
            sw_timeout_ms = exec_timeout (spg_cmd_menu_find (hd argv))\<rparr>])"
proof -
  let ?t = "exec_timeout (spg_cmd_menu_find (hd argv))"
  have "within_allowed_dir realpath (Some ''/'') (Some ''/'')" using assms(4) by (simp add: within_allowed_dir_def)
  then have b: "spg_executor_boundary_check_shell realpath exec_boundary_config (hd argv)
      (exec_network (spg_cmd_menu_find (hd argv))) (exec_boundary_request ?t) =
      Some (if hd argv = ''ssh'' then deny_plan BOUNDARY_NETWORK_FORBIDDEN else allow_plan)"
    using assms(2) exec_timeout_ok
    by (simp add: spg_executor_boundary_check_shell_def spg_executor_boundary_check_def shell_recommendation_of_def
        exec_boundary_config_def exec_boundary_request_def find_menu_network
        EXEC_OUTPUT_CAP_def EXEC_MAX_OUT_BYTE_def)
  obtain res log' where c: "run_one env log (exec_request argv ?t) = (res, log')" by fastforce
  have r: "snd (snd (spg_cmd_executor_run env log [exec_request argv ?t])) =
      log @ [\<lparr>sw_argv = argv, sw_working_dir = None, sw_clear_env = False, sw_timeout_ms = ?t\<rparr>]"
    using run_one_log [OF c] c assms(1,3)
    by (simp add: spg_cmd_executor_run_def CMD_MAX_BATCH_def request_valid_def exec_request_def EXEC_OUTPUT_CAP_def)
  show ?thesis
    using assms(1,2) b r by (auto simp: spg_exec_command_def Let_def deny_plan_def allow_plan_def split: prod.splits)
qed

end
