(* ===== verification/Spec2Isabelle.thy ===== *)
theory Spec2Isabelle
  imports RunConfig Policy SexprLex JournalSign DeviceText DeviceExecProps RecommendationProps
    GraphProps MemoryFacts ProcessProfile MachineRecover PolicyGate ShellProps SimProps MemRank LoopProps
    ProcessProps TelemetryProps Diagnose GuardRing ContextProps EvalProps Pref DecodeProps
    ExecCommand
begin

text \<open>
  geistshell: a verification library of the governed agent runtime.

  geistshell lets a language model operate a machine. Tick after tick an agent loop shows the model a
  prompt that is assembled from what is known, reads its reply as one \<open>(recommend ...)\<close> form, asks a
  policy gate whether that action is granted, runs it through the one executor of its kind, journals
  every one of these in a hash-chained file, and charges the run's budgets. The model proposes and
  never acts: this is the central claim of the program, and most of the library leads to it. Paths
  below are relative to the directory \<open>src\<close> and \<open>include/geistshell\<close> of the program.

  Conventions (\<open>Prelude\<close>, \<open>Status\<close>). A \<open>size_t\<close> that is a length or an offset is a \<open>nat\<close>, every
  other machine integer is a word of its width, so that wrapping is the code's wrapping. A function that
  returns a status returns the status with its out parameters, and the value an out parameter has after
  a failure is part of the model. C structs are records, enumerations and tagged unions datatypes,
  fixed tables lists with the capacity of the code as a constant. A text is the characters before its
  terminator. Guards against null pointers are left out. Loops are structural recursion, recursion on
  the remaining number of iterations, or functions with a measure; no fuel is used but the bounds the
  code has itself (a depth, a stack of 512 entries, a number of attempts).

  Part 1, the form language. \<open>Sexpr\<close> is \<open>dsl/sexpr.c\<close>: tokenizer, parser into a flat array of linked
  nodes, numbers; \<open>SexprWriter\<close> its bounded writer. \<open>SexprLex\<close> proves the shape and order of tokens,
  \<open>SexprTree\<close> and \<open>SexprParse\<close> that the array is the forest a stack machine describes and that a
  parse succeeds exactly on balanced input that fits, \<open>SexprSpans\<close> that every kept span lies in the
  text. \<open>Schema\<close> is \<open>dsl/schema.c\<close>, proved equivalent to a declarative conformance. \<open>FormText\<close> takes
  a flat form from its text to its nodes, as the writers of forms need it.

  Part 2, what is loaded. \<open>Budgets\<close> (\<open>core/budget_config.c\<close>), \<open>RunConfig\<close> (\<open>core/run_config.c\<close>), \<open>PolicyConfig\<close>
  (\<open>policy/policy_config.c\<close>), \<open>SimConfig\<close> (\<open>sim/sim_config.c\<close>), \<open>ProcessProfile\<close>
  (\<open>machine/process_profile.c\<close>). The lemmas say what a loaded object contains, for any text.

  Part 3, the record of a run. \<open>Hash\<close> and \<open>HashTree\<close> (\<open>core/hash.c\<close>: the incremental BLAKE3 is the
  tree hash), \<open>Hmac\<close> (\<open>core/hmac.c\<close>), \<open>JournalRecord\<close>, \<open>Journal\<close>, \<open>JournalChain\<close> (\<open>journal/journal.c\<close>:
  a file is the list of its bytes, the writer extends a chain and the reader accepts exactly chains),
  \<open>JournalSign\<close> (\<open>journal/journal_sign.c\<close>). Collision resistance is never assumed: a theorem that rests
  on it has the collision as the other case of its conclusion. \<open>Handles\<close> is the contract of a handle
  table, \<open>Graph\<close> and \<open>GraphProps\<close> the reasoning graph of \<open>graph/graph.c\<close>, \<open>MemoryFacts\<close> the fact
  memory of \<open>memory/memory.c\<close>; both interpret the contract.

  Part 4, deciding. \<open>Recommendation\<close> is the parser of what the model says (\<open>actor/recommendation.c\<close>),
  with its guarantees in \<open>RecommendationProps\<close> and its behaviour on written forms in \<open>FormRecommend\<close>.
  \<open>Policy\<close> is \<open>policy/policy.c\<close>, \<open>PolicyGate\<close> \<open>policy/policy_gate.c\<close>: both decisions are
  characterised exactly.

  Part 5, acting. \<open>CmdExec\<close> (\<open>exec/cmd_executor.c\<close>), \<open>ShellExec\<close> and \<open>ShellProps\<close>
  (\<open>executor/executor_boundary.c\<close>, \<open>exec/shell_executor.c\<close>); \<open>Device\<close>, \<open>DeviceIO\<close>, \<open>DeviceSafety\<close>,
  \<open>DeviceText\<close>, \<open>DeviceProps\<close> (\<open>device/device.c\<close>) and \<open>DeviceExec\<close>, \<open>DeviceExecProps\<close>
  (\<open>executor/device_executor.c\<close>); \<open>MachineExec\<close>, \<open>MachineExecProps\<close>, \<open>MachineRecover\<close>
  (\<open>executor/machine_executor.c\<close>); \<open>SimExec\<close> and \<open>SimProps\<close> (\<open>sim/\<close>); \<open>MemStore\<close>, \<open>MemExec\<close>,
  \<open>MemProps\<close>, \<open>MemRank\<close> (\<open>memory/mem_store.c\<close>, \<open>memory/mem_executor.c\<close>). Each executor comes with the
  exact effect of a step: the programs started, the signals sent, the files written, the records
  journaled, and, for the machine, that every process it stopped is continued in the end.

  Part 6, the loop. \<open>Actor\<close> (\<open>actor/actor.c\<close>), \<open>Orchestrator\<close> and \<open>OrchProps\<close>
  (\<open>run/orchestrator.c\<close>: nothing is changed but through the executor of a granted action), \<open>AgentLoop\<close>
  and \<open>LoopProps\<close> (\<open>run/agent_loop.c\<close>). \<open>LoopProps\<close> states as a locale what the operations of a tick
  must keep for an invariant to hold of the run, and interprets it for the budgets, for the reserved
  memories and for the pause ledger.

  Part 7, what the model is shown and how it is held to the language. \<open>Telemetry\<close>, \<open>TelemetryProps\<close>,
  \<open>Process\<close>, \<open>ProcessProps\<close>, \<open>MachineGoal\<close>, \<open>Diagnose\<close> (\<open>machine/\<close>); \<open>Ranked\<close> (the bounded scans that
  keep the best of a sequence, as a locale over their comparison), \<open>Context\<close> and \<open>ContextProps\<close>
  (\<open>context/context.c\<close>); \<open>GrammarMask\<close> and \<open>MaskProps\<close> (\<open>model/grammar_mask.c\<close>), \<open>Decode\<close> and
  \<open>DecodeProps\<close> (the constrained decoding of \<open>model/model_adapter.c\<close>).

  Part 8, learning, and what stands beside the loop. \<open>Eval\<close> and \<open>EvalProps\<close> (\<open>eval/eval.c\<close>), \<open>GuardRing\<close> (\<open>eval/guard_ring.c\<close>),
  \<open>Improve\<close> and \<open>ImproveProps\<close> (\<open>improve/improve.c\<close>), \<open>Pref\<close> (\<open>memory/pref.c\<close>: the preferences of
  the user). \<open>CmdMenu\<close> (\<open>exec/cmd_menu.c\<close> and the classification and status line of
  \<open>exec/host_probe.c\<close>) and \<open>ExecCommand\<close> (\<open>exec/exec_command.c\<close>) stand beside the loop: the
  commands the model is offered, and a command an operator runs through the same boundary.
\<close>

text \<open>
  The world. What the operating system, the hardware and the model answer is a parameter: an
  argument of the operations, a record of functions, or an oracle over a state of its own. These are
  the kernel of the machine executor (process identity, signals, the guardian), the programs a device or a
  shell command starts and what they print, \<open>realpath\<close>, the listing of a directory and the outcome of
  a file operation, the bytes a short write leaves, the clock, the answers of a machine backend, the
  runner of a guard, the engine with its tokens and logits, single-precision division and comparison in
  the token selection, and in \<open>Actor\<close> the rendered prompt and the reply. The theorems hold for every
  value of them; where one needs more (an engine picks among the candidates it is shown, a reading of
  the clock does not go back) it is a named hypothesis.

  Taken from the platform: plain \<open>char\<close> is signed, integers are little-endian in a record header,
  \<open>size_t\<close> has 64 bits where a bound on it matters, single-precision arithmetic rounds to nearest even
  and is not fused (\<open>Ranked\<close>, \<open>Context\<close>).

  Bounds. The acyclicity of the graph is proved up to 512 edges, the size of the stack of the search, and
  fails beyond it. A parse is described up to \<open>INVALID_INDEX\<close> nodes, the sentinel of the links. The history
  of \<open>Telemetry\<close> holds eight snapshots, the snapshot 64 processes, the guard ring 32 guards; a slot
  of constrained decoding is cut after as many tokens as the code allows. The budgets of a run are
  proved for any number of ticks.

  Where code and documentation differ, the theorem says what the code does, and the text in front of it
  what was promised: a device write is charged to no budget, the watchdog latch survives the contact of
  one channel while another is expired, a backslash in a decoded text breaks the form it stands in, a
  prefix of an odd number of names is completed as if it were one's, a rejected lesson takes an earlier
  accepted one with it.

  Not modelled: \<open>run/agent_run.c\<close> (the wiring of buffers and loaded objects), \<open>memory/mem_command.c\<close> and
  \<open>cli/main.c\<close> (argument parsing and printing), the queries of \<open>exec/host_probe.c\<close> and the backends of \<open>machine/\<close> (queries of the operating system), \<open>chat/\<close> (a terminal front end), the
  bindings of the inference engine, its profiles and the remote and daemon clients in \<open>model/\<close>, and
  the fixtures and the fake backend the program's tests use. The waiting of a command for its pipes, the
  limits it runs under and the pause of a settling loop are the operating system's and left out.
\<close>

end
